(* ===== verification/Prelude.thy ===== *)
theory Prelude
  imports Main "HOL-Library.State_Monad"
begin

text \<open>
  Shared vocabulary of the development: the status codes the code returns, the weakest
  precondition of a state-monad program (computed by rewriting), and the named collections
  that carry the component proofs.

  A handler of the code is a \<open>('s, 'a) state\<close> program. \<open>wp m Q s\<close> says that running \<open>m\<close> from
  \<open>s\<close> ends in a result and a state that satisfy \<open>Q\<close>. Its equations are simp rules, so
  \<open>simp add: sm_wp\<close> turns a claim about a handler into a claim about its branches.
\<close>

section \<open>Status codes\<close>

text \<open>
  The \<open>int32_t\<close> status of the Android code. The code only ever tests a status against
  \<open>NO_ERROR\<close> (written \<open>NO_ERROR\<close> or \<open>0\<close>), so the named codes are constructors and every other
  non-zero code a call may hand up is \<open>ErrCode n\<close>.
\<close>

datatype status_t =
    NO_ERROR
  | UNKNOWN_ERROR
  | NO_MEMORY
  | INVALID_OPERATION
  | BAD_VALUE
  | NO_INIT
  | DEAD_OBJECT
  | ErrCode int

text \<open>A pointer whose target the model does not look into: \<open>None\<close> is \<open>NULL\<close>.\<close>

type_synonym ptr = "nat option"

section \<open>Weakest preconditions of state programs\<close>

named_theorems sm_wp "equations that compute the weakest precondition of a state program"
named_theorems sm_defs "definitions of handlers and of the actions they are made of"

definition wp :: "('s, 'a) state \<Rightarrow> ('a \<Rightarrow> 's \<Rightarrow> bool) \<Rightarrow> 's \<Rightarrow> bool" where
  "wp m Q s \<longleftrightarrow> (case run_state m s of (a, t) \<Rightarrow> Q a t)"

lemma wp_return [sm_wp]: "wp (State_Monad.return a) Q s \<longleftrightarrow> Q a s"
  by (simp add: wp_def)

lemma wp_bind [sm_wp]: "wp (State_Monad.bind m f) Q s \<longleftrightarrow> wp m (\<lambda>a. wp (f a) Q) s"
  by (simp add: wp_def split: prod.splits)

lemma wp_get [sm_wp]: "wp State_Monad.get Q s \<longleftrightarrow> Q s s"
  by (simp add: wp_def)

lemma wp_set [sm_wp]: "wp (State_Monad.set t) Q s \<longleftrightarrow> Q () t"
  by (simp add: wp_def)

lemma wp_update [sm_wp]: "wp (State_Monad.update f) Q s \<longleftrightarrow> Q () (f s)"
  by (simp add: wp_def State_Monad.update_def)

lemma wp_if [sm_wp]: "wp (if b then m else n) Q s \<longleftrightarrow> (if b then wp m Q s else wp n Q s)"
  by simp

lemma wp_State [sm_wp]: "wp (State f) Q s \<longleftrightarrow> (case f s of (a, t) \<Rightarrow> Q a t)"
  by (simp add: wp_def)

lemma wp_mono: "wp m P s \<Longrightarrow> (\<And>a t. P a t \<Longrightarrow> Q a t) \<Longrightarrow> wp m Q s"
  by (auto simp: wp_def split: prod.splits)

lemma wp_conj: "wp m (\<lambda>a t. P a t \<and> Q a t) s \<longleftrightarrow> wp m P s \<and> wp m Q s"
  by (auto simp: wp_def split: prod.splits)

lemma wp_run: "wp m Q s \<Longrightarrow> Q (fst (run_state m s)) (snd (run_state m s))"
  by (simp add: wp_def split: prod.splits)

lemma wp_runI: "(\<And>a t. run_state m s = (a, t) \<Longrightarrow> Q a t) \<Longrightarrow> wp m Q s"
  by (auto simp: wp_def split: prod.splits)

lemma run_wp: "run_state m s = (a, t) \<Longrightarrow> wp m Q s \<Longrightarrow> Q a t"
  by (simp add: wp_def)

section \<open>Lists\<close>

lemma distinct_snoc: "distinct (xs @ [x]) \<longleftrightarrow> distinct xs \<and> x \<notin> set xs"
  by auto

lemma butlast_last_eq: "xs \<noteq> [] \<Longrightarrow> xs = butlast xs @ [last xs]"
  by simp

end
