(* ===== verification/QCameraQueue.thy ===== *)
theory QCameraQueue
  imports Prelude "HOL-Library.Multiset"
begin

text \<open>
  The command and data queue of the camera HAL: camera/QCamera2/util/QCameraQueue.cpp over the
  circular doubly linked list of camera/QCamera2/stack/common/cam_list.h.

  The model keeps the pointers. Every list node has an address; the dummy head \<open>m_head\<close> sits at
  address \<open>q_head\<close>; the \<open>next\<close>, \<open>prev\<close> and \<open>data\<close> fields are three stores over addresses. What
  \<open>malloc\<close> returns is an argument (\<open>None\<close> when it fails), \<open>q_live\<close> is the set of nodes that are
  allocated and not freed, \<open>m_dataFn\<close> says whether a release function was given to the
  constructor, \<open>q_called\<close> records the data it was called on and \<open>q_freed\<close> the data freed, in order.
  A representation relation says when the pointers form the list of nodes the queue stands for,
  and every operation refines the operation on that list.
\<close>

section \<open>The circular list\<close>

type_synonym addr = nat

record 'd camera_q =
  q_next :: "addr \<Rightarrow> addr"
  q_prev :: "addr \<Rightarrow> addr"
  q_data :: "addr \<Rightarrow> 'd option"
  m_size :: int
  m_dataFn :: bool
  q_live :: "addr set"
  q_freed :: "'d list"
  q_called :: "'d list"

text \<open>\<open>&m_head.list\<close>\<close>

definition q_head :: addr where
  "q_head = 0"

definition cam_list_init :: "addr \<Rightarrow> 'd camera_q \<Rightarrow> 'd camera_q" where
  "cam_list_init p q = q\<lparr>q_next := (q_next q)(p := p), q_prev := (q_prev q)(p := p)\<rparr>"

definition cam_list_add_tail_node :: "addr \<Rightarrow> addr \<Rightarrow> 'd camera_q \<Rightarrow> 'd camera_q" where
  "cam_list_add_tail_node item head q =
     (let prev = q_prev q head;
          q1 = q\<lparr>q_prev := (q_prev q)(head := item)\<rparr>;
          q2 = q1\<lparr>q_next := (q_next q1)(item := head)\<rparr>;
          q3 = q2\<lparr>q_prev := (q_prev q2)(item := prev)\<rparr>
      in q3\<lparr>q_next := (q_next q3)(prev := item)\<rparr>)"

definition cam_list_del_node :: "addr \<Rightarrow> 'd camera_q \<Rightarrow> 'd camera_q" where
  "cam_list_del_node p q =
     (let prev = q_prev q p;
          next = q_next q p;
          q1 = q\<lparr>q_prev := (q_prev q)(next := q_prev q p)\<rparr>;
          q2 = q1\<lparr>q_next := (q_next q1)(prev := q_next q1 p)\<rparr>;
          q3 = q2\<lparr>q_next := (q_next q2)(p := p)\<rparr>
      in q3\<lparr>q_prev := (q_prev q3)(p := p)\<rparr>)"

section \<open>The queue operations\<close>

text \<open>The two constructors, on whatever memory \<open>q\<close> the object is built in.\<close>

definition QCameraQueue_init :: "'d camera_q \<Rightarrow> 'd camera_q" where
  "QCameraQueue_init q =
     (cam_list_init q_head q)\<lparr>m_size := 0, m_dataFn := False, q_live := {}, q_freed := [], q_called := []\<rparr>"

definition QCameraQueue_init_fn :: "bool \<Rightarrow> 'd camera_q \<Rightarrow> 'd camera_q" where
  "QCameraQueue_init_fn data_rel_fn q =
     (cam_list_init q_head q)\<lparr>m_size := 0, m_dataFn := data_rel_fn, q_live := {}, q_freed := [], q_called := []\<rparr>"

definition isEmpty :: "'d camera_q \<Rightarrow> bool" where
  "isEmpty q = (if m_size q > 0 then False else True)"

definition getCurrentSize :: "'d camera_q \<Rightarrow> int" where
  "getCurrentSize q = m_size q"

text \<open>
  \<open>camera_q_node *node = malloc(...)\<close>, zeroed by \<open>memset\<close>, with \<open>node->data = data\<close>. Zeroed
  \<open>next\<close> and \<open>prev\<close> are overwritten before they are read.
\<close>

definition new_node :: "addr \<Rightarrow> 'd option \<Rightarrow> 'd camera_q \<Rightarrow> 'd camera_q" where
  "new_node n d q = q\<lparr>q_data := (q_data q)(n := d), q_live := insert n (q_live q)\<rparr>"

definition free_node :: "addr \<Rightarrow> 'd camera_q \<Rightarrow> 'd camera_q" where
  "free_node n q = q\<lparr>q_live := q_live q - {n}\<rparr>"

definition enqueue :: "addr option \<Rightarrow> 'd option \<Rightarrow> 'd camera_q \<Rightarrow> bool \<times> 'd camera_q" where
  "enqueue malloc d q =
     (case malloc of
        None \<Rightarrow> (False, q)
      | Some node \<Rightarrow>
          let q1 = cam_list_add_tail_node node q_head (new_node node d q)
          in (True, q1\<lparr>m_size := m_size q1 + 1\<rparr>))"

definition enqueueWithPriority ::
    "addr option \<Rightarrow> 'd option \<Rightarrow> 'd camera_q \<Rightarrow> bool \<times> 'd camera_q" where
  "enqueueWithPriority malloc d q =
     (case malloc of
        None \<Rightarrow> (False, q)
      | Some node \<Rightarrow>
          let q1 = new_node node d q;
              p_next = q_next q1 q_head;
              q2 = q1\<lparr>q_next := (q_next q1)(q_head := node)\<rparr>;
              q3 = q2\<lparr>q_prev := (q_prev q2)(p_next := node)\<rparr>;
              q4 = q3\<lparr>q_next := (q_next q3)(node := p_next)\<rparr>;
              q5 = q4\<lparr>q_prev := (q_prev q4)(node := q_head)\<rparr>
          in (True, q5\<lparr>m_size := m_size q5 + 1\<rparr>))"

definition dequeue :: "bool \<Rightarrow> 'd camera_q \<Rightarrow> 'd option \<times> 'd camera_q" where
  "dequeue bFromHead q =
     (let pos = (if bFromHead then q_next q q_head else q_prev q q_head)
      in if pos \<noteq> q_head
         then let q1 = cam_list_del_node pos q;
                  q2 = q1\<lparr>m_size := m_size q1 - 1\<rparr>
              in (q_data q2 pos, free_node pos q2)
         else (None, q))"

text \<open>Release of one node inside a flush: its data, when it has some, then the node.\<close>

definition release_node :: "addr \<Rightarrow> 'd camera_q \<Rightarrow> 'd camera_q" where
  "release_node node q =
     (let q1 = cam_list_del_node node q;
          q2 = q1\<lparr>m_size := m_size q1 - 1\<rparr>;
          q3 = (case q_data q2 node of
                  None \<Rightarrow> q2
                | Some d \<Rightarrow>
                    let q2' = (if m_dataFn q2 then q2\<lparr>q_called := q_called q2 @ [d]\<rparr> else q2)
                    in q2'\<lparr>q_freed := q_freed q2' @ [d]\<rparr>)
      in free_node node q3)"

text \<open>
  The loop \<open>while (pos != head)\<close> of the flushes. \<open>None\<close> is a loop that does not return, which the
  refinement below excludes for a well-formed queue.
\<close>

partial_function (option) flush_loop ::
    "('d option \<Rightarrow> bool) \<Rightarrow> addr \<Rightarrow> 'd camera_q \<Rightarrow> 'd camera_q option" where
  "flush_loop match pos q =
     (if pos \<noteq> q_head
      then let node = pos; pos' = q_next q pos
           in if match (q_data q node)
              then flush_loop match pos' (release_node node q)
              else flush_loop match pos' q
      else Some q)"

definition flush :: "'d camera_q \<Rightarrow> 'd camera_q option" where
  "flush q =
     map_option (\<lambda>q'. q'\<lparr>m_size := 0\<rparr>) (flush_loop (\<lambda>_. True) (q_next q q_head) q)"

text \<open>\<open>flushNodes\<close>; the matching function is a pointer that may be \<open>NULL\<close>.\<close>

definition flushNodes :: "('d option \<Rightarrow> bool) option \<Rightarrow> 'd camera_q \<Rightarrow> 'd camera_q option" where
  "flushNodes match q =
     (case match of
        None \<Rightarrow> Some q
      | Some m \<Rightarrow> flush_loop m (q_next q q_head) q)"

text \<open>The overload that hands \<open>match_data\<close> to the matching function.\<close>

definition flushNodes_data ::
    "('d option \<Rightarrow> 'm \<Rightarrow> bool) option \<Rightarrow> 'm \<Rightarrow> 'd camera_q \<Rightarrow> 'd camera_q option" where
  "flushNodes_data match match_data q =
     (case match of
        None \<Rightarrow> Some q
      | Some m \<Rightarrow> flush_loop (\<lambda>d. m d match_data) (q_next q q_head) q)"


section \<open>What the pointers represent\<close>

text \<open>\<open>linked f a ns b\<close>: following \<open>f\<close> from \<open>a\<close> visits exactly the nodes \<open>ns\<close> and then reaches \<open>b\<close>.\<close>

fun linked :: "(addr \<Rightarrow> addr) \<Rightarrow> addr \<Rightarrow> addr list \<Rightarrow> addr \<Rightarrow> bool" where
  "linked f a [] b \<longleftrightarrow> f a = b"
| "linked f a (n # ns) b \<longleftrightarrow> f a = n \<and> linked f n ns b"

lemma linked_append: "linked f a (xs @ p # ys) b \<longleftrightarrow> linked f a xs p \<and> linked f p ys b"
  by (induction xs arbitrary: a) auto

lemma linked_upd [simp]: "p \<notin> set (a # xs) \<Longrightarrow> linked (f(p := v)) a xs b \<longleftrightarrow> linked f a xs b"
  by (induction xs arbitrary: a) auto

lemma linked_upd_if [simp]:
  "p \<notin> set (a # xs) \<Longrightarrow> linked (\<lambda>x. if x = p then v else f x) a xs b \<longleftrightarrow> linked f a xs b"
  using linked_upd [of p a xs f v b] by (simp add: fun_upd_def del: linked_upd)

lemma linked_last: "linked f a (xs @ ys) b \<Longrightarrow> f (last (a # xs)) = hd (ys @ [b])"
proof (induction xs arbitrary: a)
  case Nil
  then show ?case by (cases ys) auto
next
  case (Cons x xs)
  then show ?case by (cases xs) auto
qed

lemma linked_remove:
  assumes "linked f a (xs @ p # ys) b" and "distinct (a # xs @ p # ys)"
  shows "linked (f(last (a # xs) := f p)) a (xs @ ys) b"
  using assms
proof (induction xs arbitrary: a)
  case Nil
  then show ?case by (cases ys) auto
next
  case (Cons x xs)
  from Cons.prems have "linked f x (xs @ p # ys) b" and "distinct (x # xs @ p # ys)" by auto
  then have "linked (f(last (x # xs) := f p)) x (xs @ ys) b" by (rule Cons.IH)
  moreover have "a \<noteq> last (x # xs)" using Cons.prems(2) last_in_set [of "x # xs"] by auto
  ultimately show ?case using Cons.prems(1) by (simp del: last.simps add: last_ConsR fun_upd_def)
qed

lemma linked_insert:
  assumes "linked f a (xs @ ys) b" and "distinct (a # xs @ ys)" and "n \<notin> set (a # xs @ ys)"
  shows "linked (f(last (a # xs) := n, n := f (last (a # xs)))) a (xs @ n # ys) b"
  using assms
proof (induction xs arbitrary: a)
  case Nil
  then show ?case by (cases ys) auto
next
  case (Cons x xs)
  let ?l = "last (x # xs)"
  from Cons.prems have "linked f x (xs @ ys) b" and "distinct (x # xs @ ys)" and "n \<notin> set (x # xs @ ys)"
    by auto
  then have "linked (f(?l := n, n := f ?l)) x (xs @ n # ys) b" by (rule Cons.IH)
  moreover have "a \<noteq> ?l" using Cons.prems(2) last_in_set [of "x # xs"] by auto
  moreover have "a \<noteq> n" using Cons.prems(3) by auto
  ultimately show ?case using Cons.prems by (simp del: last.simps add: last_ConsR fun_upd_def)
qed

text \<open>
  \<open>queue_rep q ns\<close>: the nodes of \<open>q\<close> are \<open>ns\<close>, head to tail. \<open>next\<close> runs through them, \<open>prev\<close> runs
  through them backwards, they are exactly the live allocations, and \<open>m_size\<close> counts them.
\<close>

definition queue_rep :: "'d camera_q \<Rightarrow> addr list \<Rightarrow> bool" where
  "queue_rep q ns \<longleftrightarrow>
     distinct (q_head # ns) \<and> linked (q_next q) q_head ns q_head \<and>
     linked (q_prev q) q_head (rev ns) q_head \<and> q_live q = set ns \<and> m_size q = int (length ns)"

lemma queue_rep_init: "queue_rep (QCameraQueue_init q) []"
  by (simp add: queue_rep_def QCameraQueue_init_def cam_list_init_def)

lemma queue_rep_init_fn: "queue_rep (QCameraQueue_init_fn fn q) []"
  by (simp add: queue_rep_def QCameraQueue_init_fn_def cam_list_init_def)


lemma queue_rep_del:
  assumes rep: "queue_rep q (xs @ p # ys)"
  shows "queue_rep ((cam_list_del_node p q)\<lparr>m_size := m_size q - 1, q_live := q_live q - {p}\<rparr>) (xs @ ys)"
proof -
  let ?h = q_head
  from rep have d: "distinct (?h # xs @ p # ys)" and n: "linked (q_next q) ?h (xs @ p # ys) ?h"
    and pr: "linked (q_prev q) ?h (rev ys @ p # rev xs) ?h"
    and l: "q_live q = set (xs @ p # ys)" and m: "m_size q = int (length (xs @ p # ys))"
    by (auto simp: queue_rep_def)
  from n have "linked (q_next q) ?h ((xs @ [p]) @ ys) ?h" by simp
  then have np: "q_next q p = hd (ys @ [?h])" using linked_last [of "q_next q" ?h "xs @ [p]" ys ?h] by simp
  from pr have "linked (q_prev q) ?h ((rev ys @ [p]) @ rev xs) ?h" by simp
  then have pp: "q_prev q p = hd (rev xs @ [?h])"
    using linked_last [of "q_prev q" ?h "rev ys @ [p]" "rev xs" ?h] by simp
  have pl: "q_prev q p = last (?h # xs)" using pp by (cases xs rule: rev_cases) auto
  have nl: "q_next q p = last (?h # rev ys)" using np by (cases ys) auto
  have d': "distinct (?h # rev ys @ p # rev xs)" using d by auto
  have N: "linked ((q_next q)(q_prev q p := q_next q p)) ?h (xs @ ys) ?h"
    using linked_remove [OF n d] pl by simp
  have P: "linked ((q_prev q)(q_next q p := q_prev q p)) ?h (rev ys @ rev xs) ?h"
    using linked_remove [OF pr d'] nl by simp
  have pn: "p \<notin> set (?h # xs @ ys)" "p \<notin> set (?h # rev ys @ rev xs)" using d by auto
  have "linked ((q_next q)(q_prev q p := q_next q p, p := p)) ?h (xs @ ys) ?h"
    using N by (subst linked_upd [OF pn(1)])
  moreover have "linked ((q_prev q)(q_next q p := q_prev q p, p := p)) ?h (rev ys @ rev xs) ?h"
    using P by (subst linked_upd [OF pn(2)])
  ultimately show ?thesis
    using d l m by (auto simp: queue_rep_def cam_list_del_node_def Let_def)
qed

lemma queue_rep_new:
  assumes rep: "queue_rep q (xs @ ys)" and fresh: "n \<noteq> q_head" "n \<notin> q_live q"
    and nx: "q_next r = (q_next q)(last (q_head # xs) := n, n := q_next q (last (q_head # xs)))"
    and pv: "q_prev r = (q_prev q)(last (q_head # rev ys) := n, n := q_prev q (last (q_head # rev ys)))"
    and lv: "q_live r = insert n (q_live q)" and sz: "m_size r = m_size q + 1"
  shows "queue_rep r (xs @ n # ys)"
proof -
  from rep have d: "distinct (q_head # xs @ ys)" and N: "linked (q_next q) q_head (xs @ ys) q_head"
    and P: "linked (q_prev q) q_head (rev ys @ rev xs) q_head"
    and l: "q_live q = set (xs @ ys)" and m: "m_size q = int (length (xs @ ys))"
    by (auto simp: queue_rep_def)
  have nin: "n \<notin> set (q_head # xs @ ys)" using fresh l by auto
  have d': "distinct (q_head # rev ys @ rev xs)" and nin': "n \<notin> set (q_head # rev ys @ rev xs)"
    using d nin by auto
  show ?thesis
    using linked_insert [OF N d nin] linked_insert [OF P d' nin'] d nin l m
    by (auto simp: queue_rep_def nx pv lv sz)
qed

section \<open>Refinement of the list operations\<close>

lemma queue_rep_ends:
  assumes "queue_rep q ns"
  shows "q_next q q_head = hd (ns @ [q_head])" and "q_prev q q_head = last (q_head # ns)"
    and "q_next q (last (q_head # ns)) = q_head" and "q_prev q (last (q_head # rev ns)) = q_head"
    and "q_prev q (q_next q q_head) = q_head"
proof -
  from assms have n: "linked (q_next q) q_head ns q_head" and p: "linked (q_prev q) q_head (rev ns) q_head"
    by (auto simp: queue_rep_def)
  show "q_next q q_head = hd (ns @ [q_head])" using linked_last [of "q_next q" q_head "[]" ns] n by simp
  then have hd: "q_next q q_head = last (q_head # rev ns)" by (cases ns) auto
  show "q_prev q q_head = last (q_head # ns)"
    using linked_last [of "q_prev q" q_head "[]" "rev ns" q_head] p by (cases ns rule: rev_cases) auto
  show "q_next q (last (q_head # ns)) = q_head" using linked_last [of "q_next q" q_head ns "[]"] n by simp
  show "q_prev q (last (q_head # rev ns)) = q_head" using linked_last [of "q_prev q" q_head "rev ns" "[]"] p by simp
  then show "q_prev q (q_next q q_head) = q_head" by (simp only: hd)
qed

lemma queue_rep_fresh: "queue_rep q ns \<Longrightarrow> n \<noteq> q_head \<Longrightarrow> n \<notin> q_live q \<Longrightarrow> n \<notin> set (q_head # ns)"
  by (auto simp: queue_rep_def)

lemma enqueue_rep:
  assumes rep: "queue_rep q ns" and fresh: "n \<noteq> q_head" "n \<notin> q_live q"
  shows "fst (enqueue (Some n) d q)" and "queue_rep (snd (enqueue (Some n) d q)) (ns @ [n])"
    and "q_data (snd (enqueue (Some n) d q)) = (q_data q)(n := d)"
proof -
  let ?l = "last (q_head # ns)" and ?r = "snd (enqueue (Some n) d q)"
  note ends = queue_rep_ends [OF rep]
  have "?l \<in> set (q_head # ns)" by (rule last_in_set) simp
  then have ln: "?l \<noteq> n" using queue_rep_fresh [OF rep fresh] by (simp del: last.simps) blast
  have "q_next ?r = (q_next q)(?l := n, n := q_next q ?l)"
    unfolding ends(3) using ln ends(2)
    by (simp add: enqueue_def cam_list_add_tail_node_def new_node_def Let_def fun_upd_twist del: last.simps)
  moreover have "q_prev ?r = (q_prev q)(q_head := n, n := q_prev q q_head)"
    by (simp add: enqueue_def cam_list_add_tail_node_def new_node_def Let_def)
  ultimately show "queue_rep ?r (ns @ [n])"
    using rep fresh by (intro queue_rep_new [where q = q and ys = "[]"])
      (simp_all add: enqueue_def cam_list_add_tail_node_def new_node_def Let_def)
qed (simp_all add: enqueue_def cam_list_add_tail_node_def new_node_def Let_def)

lemma enqueueWithPriority_rep:
  assumes rep: "queue_rep q ns" and fresh: "n \<noteq> q_head" "n \<notin> q_live q"
  shows "fst (enqueueWithPriority (Some n) d q)" and "queue_rep (snd (enqueueWithPriority (Some n) d q)) (n # ns)"
    and "q_data (snd (enqueueWithPriority (Some n) d q)) = (q_data q)(n := d)"
proof -
  let ?f = "last (q_head # rev ns)" and ?r = "snd (enqueueWithPriority (Some n) d q)"
  note ends = queue_rep_ends [OF rep]
  have f: "q_next q q_head = ?f" using ends(1) by (cases ns) auto
  have "q_next ?r = (q_next q)(q_head := n, n := q_next q q_head)"
    by (simp add: enqueueWithPriority_def new_node_def Let_def)
  moreover have "q_prev ?r = (q_prev q)(?f := n, n := q_prev q ?f)"
    unfolding ends(4) by (simp add: enqueueWithPriority_def new_node_def Let_def f del: last.simps)
  ultimately show "queue_rep ?r (n # ns)"
    using rep fresh by (intro queue_rep_new [where q = q and xs = "[]", simplified append_Nil])
      (simp_all add: enqueueWithPriority_def new_node_def Let_def del: last_rev)
qed (simp_all add: enqueueWithPriority_def new_node_def Let_def)

lemma cam_list_del_node_data [simp]:
  "q_data (cam_list_del_node p q) = q_data q" "m_size (cam_list_del_node p q) = m_size q"
  "q_live (cam_list_del_node p q) = q_live q" "q_freed (cam_list_del_node p q) = q_freed q"
  "m_dataFn (cam_list_del_node p q) = m_dataFn q" "q_called (cam_list_del_node p q) = q_called q"
  by (simp_all add: cam_list_del_node_def Let_def)

lemma dequeue_empty: "queue_rep q [] \<Longrightarrow> dequeue b q = (None, q)"
  using queue_rep_ends [of q "[]"] by (simp add: dequeue_def)

lemma dequeue_head_rep:
  assumes rep: "queue_rep q (n # ns)"
  shows "fst (dequeue True q) = q_data q n" and "queue_rep (snd (dequeue True q)) ns"
    and "q_data (snd (dequeue True q)) = q_data q"
proof -
  have "q_next q q_head = n" using queue_rep_ends(1) [OF rep] by simp
  moreover have "n \<noteq> q_head" using rep by (auto simp: queue_rep_def)
  ultimately show "fst (dequeue True q) = q_data q n" and "queue_rep (snd (dequeue True q)) ns"
    and "q_data (snd (dequeue True q)) = q_data q"
    using queue_rep_del [of q "[]" n ns] rep by (simp_all add: dequeue_def free_node_def Let_def)
qed

lemma dequeue_tail_rep:
  assumes rep: "queue_rep q (ns @ [n])"
  shows "fst (dequeue False q) = q_data q n" and "queue_rep (snd (dequeue False q)) ns"
    and "q_data (snd (dequeue False q)) = q_data q"
proof -
  have "q_prev q q_head = n" using queue_rep_ends(2) [OF rep] by simp
  moreover have "n \<noteq> q_head" using rep by (auto simp: queue_rep_def)
  ultimately show "fst (dequeue False q) = q_data q n" and "queue_rep (snd (dequeue False q)) ns"
    and "q_data (snd (dequeue False q)) = q_data q"
    using queue_rep_del [of q ns n "[]"] rep by (simp_all add: dequeue_def free_node_def Let_def)
qed


section \<open>The flush loop\<close>

text \<open>The data a flush releases: what the flushed nodes hold, \<open>NULL\<close> data left out.\<close>

definition released :: "(addr \<Rightarrow> 'd option) \<Rightarrow> addr list \<Rightarrow> 'd list" where
  "released dat ns = map the (filter (\<lambda>d. d \<noteq> None) (map dat ns))"

lemma release_node_fields [simp]:
  "q_data (release_node p q) = q_data q"
  "m_dataFn (release_node p q) = m_dataFn q"
  "q_freed (release_node p q) = q_freed q @ released (q_data q) [p]"
  "q_called (release_node p q) = q_called q @ (if m_dataFn q then released (q_data q) [p] else [])"
  by (simp_all add: release_node_def free_node_def released_def Let_def split: option.split)

lemma release_node_rep:
  assumes "queue_rep q (xs @ p # ys)"
  shows "queue_rep (release_node p q) (xs @ ys)"
  using queue_rep_del [OF assms]
  by (auto simp: release_node_def free_node_def Let_def queue_rep_def split: option.split)

text \<open>
  The loop returns: from any position in a well-formed queue it visits the rest of the nodes once,
  unlinks and frees the matching ones in order, and keeps the others in place.
\<close>

lemma flush_loop_rep:
  assumes "queue_rep q (pre @ rest)" and "pos = hd (rest @ [q_head])"
  shows "\<exists>r. flush_loop m pos q = Some r \<and>
             queue_rep r (pre @ filter (\<lambda>n. \<not> m (q_data q n)) rest) \<and>
             q_data r = q_data q \<and> m_dataFn r = m_dataFn q \<and>
             q_freed r = q_freed q @ released (q_data q) (filter (\<lambda>n. m (q_data q n)) rest) \<and>
             q_called r = q_called q @
               (if m_dataFn q then released (q_data q) (filter (\<lambda>n. m (q_data q n)) rest) else [])"
  using assms
proof (induction rest arbitrary: pre pos q)
  case Nil
  then show ?case by (simp add: flush_loop.simps released_def)
next
  case (Cons n ns)
  from Cons.prems have pos: "pos = n" "n \<noteq> q_head" by (auto simp: queue_rep_def)
  have "linked (q_next q) q_head ((pre @ [n]) @ ns) q_head" using Cons.prems by (simp add: queue_rep_def)
  then have nx: "q_next q n = hd (ns @ [q_head])"
    using linked_last [of "q_next q" q_head "pre @ [n]" ns q_head] by simp
  show ?case
  proof (cases "m (q_data q n)")
    case True
    have "queue_rep (release_node n q) (pre @ ns)" using release_node_rep Cons.prems(1) by blast
    from Cons.IH [OF this nx] True pos show ?thesis
      by (auto simp: flush_loop.simps [of m n q] Let_def released_def)
  next
    case False
    have "queue_rep q ((pre @ [n]) @ ns)" using Cons.prems(1) by simp
    from Cons.IH [OF this nx] False pos show ?thesis
      by (auto simp: flush_loop.simps [of m n q] Let_def)
  qed
qed

lemma flush_loop_from_head:
  assumes rep: "queue_rep q ns"
  shows "\<exists>r. flush_loop m (q_next q q_head) q = Some r \<and>
             queue_rep r (filter (\<lambda>n. \<not> m (q_data q n)) ns) \<and>
             q_data r = q_data q \<and> m_dataFn r = m_dataFn q \<and>
             q_freed r = q_freed q @ released (q_data q) (filter (\<lambda>n. m (q_data q n)) ns) \<and>
             q_called r = q_called q @
               (if m_dataFn q then released (q_data q) (filter (\<lambda>n. m (q_data q n)) ns) else [])"
  using flush_loop_rep [of q "[]" ns "q_next q q_head" m] rep queue_rep_ends(1) [OF rep]
  by (simp del: split_paired_Ex split_paired_All)

section \<open>The queue as a list of data\<close>

fun walk :: "(addr \<Rightarrow> addr) \<Rightarrow> nat \<Rightarrow> addr \<Rightarrow> addr list" where
  "walk f 0 p = []"
| "walk f (Suc k) p = p # walk f k (f p)"

definition q_nodes :: "'d camera_q \<Rightarrow> addr list" where
  "q_nodes q = walk (q_next q) (nat (m_size q)) (q_next q q_head)"

definition q_items :: "'d camera_q \<Rightarrow> 'd option list" where
  "q_items q = map (q_data q) (q_nodes q)"

definition q_inv :: "'d camera_q \<Rightarrow> bool" where
  "q_inv q \<longleftrightarrow> queue_rep q (q_nodes q)"

definition q_fresh :: "'d camera_q \<Rightarrow> addr \<Rightarrow> bool" where
  "q_fresh q n \<longleftrightarrow> n \<noteq> q_head \<and> n \<notin> q_live q"

lemma walk_linked: "linked f a ns b \<Longrightarrow> walk f (length ns) (f a) = ns"
  by (induction ns arbitrary: a) auto

lemma queue_rep_nodes: "queue_rep q ns \<Longrightarrow> q_nodes q = ns"
  using walk_linked [of "q_next q" q_head ns q_head] by (auto simp: q_nodes_def queue_rep_def)

lemma queue_rep_inv: "queue_rep q ns \<Longrightarrow> q_inv q"
  by (simp add: q_inv_def queue_rep_nodes)

lemma q_invE: "q_inv q \<Longrightarrow> (\<And>ns. queue_rep q ns \<Longrightarrow> q_nodes q = ns \<Longrightarrow> P) \<Longrightarrow> P"
  by (auto simp: q_inv_def)

lemma q_inv_live: "q_inv q \<Longrightarrow> q_live q = set (q_nodes q)"
  by (simp add: q_inv_def queue_rep_def)

lemma q_items_size: "q_inv q \<Longrightarrow> m_size q = int (length (q_items q))"
  by (simp add: q_inv_def q_items_def queue_rep_def)

lemma map_data_fresh: "q_inv q \<Longrightarrow> q_fresh q n \<Longrightarrow> map ((q_data q)(n := d)) (q_nodes q) = q_items q"
  using q_inv_live [of q] by (auto simp: q_items_def q_fresh_def)


section \<open>The interface: a queue with two insertion ends\<close>

text \<open>
  What the users of the queue rely on. \<open>enq\<close> and \<open>enq_front\<close> get the result of \<open>malloc\<close>; the laws
  speak of the items only, so a client proof never sees a pointer.
\<close>

locale deque_impl =
  fixes inv :: "'q \<Rightarrow> bool" and items :: "'q \<Rightarrow> 'd option list" and fresh :: "'q \<Rightarrow> addr \<Rightarrow> bool"
    and enq enq_front :: "addr option \<Rightarrow> 'd option \<Rightarrow> 'q \<Rightarrow> bool \<times> 'q"
    and deq :: "bool \<Rightarrow> 'q \<Rightarrow> 'd option \<times> 'q"
  assumes enq_fail: "enq None d q = (False, q)" "enq_front None d q = (False, q)"
    and enq_ok: "inv q \<Longrightarrow> fresh q n \<Longrightarrow>
        \<exists>r. enq (Some n) d q = (True, r) \<and> inv r \<and> items r = items q @ [d]"
    and enq_front_ok: "inv q \<Longrightarrow> fresh q n \<Longrightarrow>
        \<exists>r. enq_front (Some n) d q = (True, r) \<and> inv r \<and> items r = d # items q"
    and deq_empty: "inv q \<Longrightarrow> items q = [] \<Longrightarrow> deq b q = (None, q)"
    and deq_head: "inv q \<Longrightarrow> items q = d # ds \<Longrightarrow> \<exists>r. deq True q = (d, r) \<and> inv r \<and> items r = ds"
    and deq_tail: "inv q \<Longrightarrow> items q = ds @ [d] \<Longrightarrow> \<exists>r. deq False q = (d, r) \<and> inv r \<and> items r = ds"
begin

lemma deq_cases:
  assumes i: "inv q"
  shows "\<exists>r. deq b q = (if items q = [] then None else if b then hd (items q) else last (items q), r) \<and>
             inv r \<and> items r = (if b then tl (items q) else butlast (items q))"
proof (cases "items q = []")
  case True
  with i deq_empty [OF i True, of b] show ?thesis by simp
next
  case False
  then have h: "items q = hd (items q) # tl (items q)" and t: "items q = butlast (items q) @ [last (items q)]"
    by simp_all
  show ?thesis
    using deq_head [OF i h] deq_tail [OF i t] False by (cases b) simp_all
qed

lemma enq_result:
  assumes "inv q" and "\<And>n. m = Some n \<Longrightarrow> fresh q n"
  shows "\<exists>r. enq m d q = (m \<noteq> None, r) \<and> inv r \<and> items r = (if m = None then items q else items q @ [d])"
  using assms enq_fail(1) [of d q] enq_ok [of q] by (cases m) auto

lemma enq_front_result:
  assumes "inv q" and "\<And>n. m = Some n \<Longrightarrow> fresh q n"
  shows "\<exists>r. enq_front m d q = (m \<noteq> None, r) \<and> inv r \<and> items r = (if m = None then items q else d # items q)"
  using assms enq_fail(2) [of d q] enq_front_ok [of q] by (cases m) auto

text \<open>A priority insertion overtakes everything queued before it.\<close>

lemma front_overtakes:
  assumes "inv q" and "fresh q n"
  shows "fst (deq True (snd (enq_front (Some n) d q))) = d"
  using enq_front_ok [OF assms, of d] deq_head by fastforce

end

lemma q_items_rep: "queue_rep q ns \<Longrightarrow> q_items q = map (q_data q) ns"
  by (simp add: q_items_def queue_rep_nodes)

interpretation cq: deque_impl q_inv q_items q_fresh enqueue enqueueWithPriority dequeue
proof
  fix d :: "'d option" and q :: "'d camera_q" and n b ds
  show "enqueue None d q = (False, q)" "enqueueWithPriority None d q = (False, q)"
    by (simp_all add: enqueue_def enqueueWithPriority_def)
  {
    assume i: "q_inv q" and f: "q_fresh q n"
    from i obtain ns where rep: "queue_rep q ns" and ns: "q_nodes q = ns" by (rule q_invE)
    from f have f': "n \<noteq> q_head" "n \<notin> q_live q" by (auto simp: q_fresh_def)
    note data = map_data_fresh [OF i f, of d, unfolded ns]
    show "\<exists>r. enqueue (Some n) d q = (True, r) \<and> q_inv r \<and> q_items r = q_items q @ [d]"
      using enqueue_rep [OF rep f', of d] data
      by (intro exI [of _ "snd (enqueue (Some n) d q)"]) (auto simp: prod_eq_iff queue_rep_inv q_items_rep)
    show "\<exists>r. enqueueWithPriority (Some n) d q = (True, r) \<and> q_inv r \<and> q_items r = d # q_items q"
      using enqueueWithPriority_rep [OF rep f', of d] data
      by (intro exI [of _ "snd (enqueueWithPriority (Some n) d q)"]) (auto simp: prod_eq_iff queue_rep_inv q_items_rep)
  next
    assume i: "q_inv q" and e: "q_items q = []"
    from i obtain ns where rep: "queue_rep q ns" by (rule q_invE)
    with e show "dequeue b q = (None, q)" by (auto simp: q_items_rep intro: dequeue_empty)
  next
    assume i: "q_inv q" and e: "q_items q = d # ds"
    from i obtain ns where rep: "queue_rep q ns" by (rule q_invE)
    with e obtain m ms where ns: "ns = m # ms" by (cases ns) (auto simp: q_items_rep)
    show "\<exists>r. dequeue True q = (d, r) \<and> q_inv r \<and> q_items r = ds"
      using dequeue_head_rep [OF rep [unfolded ns]] e rep ns
      by (intro exI [of _ "snd (dequeue True q)"]) (auto simp: prod_eq_iff queue_rep_inv q_items_rep)
  next
    assume i: "q_inv q" and e: "q_items q = ds @ [d]"
    from i obtain ns where rep: "queue_rep q ns" by (rule q_invE)
    with e obtain m ms where ns: "ns = ms @ [m]" by (cases ns rule: rev_cases) (auto simp: q_items_rep)
    show "\<exists>r. dequeue False q = (d, r) \<and> q_inv r \<and> q_items r = ds"
      using dequeue_tail_rep [OF rep [unfolded ns]] e rep ns
      by (intro exI [of _ "snd (dequeue False q)"]) (auto simp: prod_eq_iff queue_rep_inv q_items_rep)
  }
qed

end
