(* ===== verification/QueueSpec.thy ===== *)
theory QueueSpec
  imports QCameraQueue
begin

text \<open>
  The contract of QCameraQueue (camera/QCamera2/util/QCameraQueue.cpp): an abstract double-ended
  queue of data with the list of data released so far, the runs of operations on both sides, the
  refinement between them, and the conservation law that rules out leaks and double frees.
\<close>

section \<open>Operations and runs\<close>

datatype 'd qop =
    QEnq "'d option"
  | QEnqFront "'d option"
  | QDeq bool
  | QFlush
  | QFlushNodes "('d option \<Rightarrow> bool) option"

datatype 'd qout = QAccepted bool | QGot "'d option" | QDone

text \<open>One call on the pointer model; \<open>alloc\<close> is \<open>malloc\<close>, asked with the live allocations.\<close>

fun q_step :: "(addr set \<Rightarrow> addr option) \<Rightarrow> 'd qop \<Rightarrow> 'd camera_q \<Rightarrow> ('d qout \<times> 'd camera_q) option" where
  "q_step alloc (QEnq d) q = Some (map_prod QAccepted id (enqueue (alloc (q_live q)) d q))"
| "q_step alloc (QEnqFront d) q = Some (map_prod QAccepted id (enqueueWithPriority (alloc (q_live q)) d q))"
| "q_step alloc (QDeq b) q = Some (map_prod QGot id (dequeue b q))"
| "q_step alloc QFlush q = map_option (Pair QDone) (flush q)"
| "q_step alloc (QFlushNodes m) q = map_option (Pair QDone) (flushNodes m q)"

fun q_run :: "(addr set \<Rightarrow> addr option) \<Rightarrow> 'd qop list \<Rightarrow> 'd camera_q \<Rightarrow> ('d qout list \<times> 'd camera_q) option" where
  "q_run alloc [] q = Some ([], q)"
| "q_run alloc (op # ops) q =
     (case q_step alloc op q of
        None \<Rightarrow> None
      | Some (out, q') \<Rightarrow> map_option (map_prod ((#) out) id) (q_run alloc ops q'))"

text \<open>The data of a list, \<open>NULL\<close> left out.\<close>

fun non_null :: "'d option list \<Rightarrow> 'd list" where
  "non_null [] = []"
| "non_null (None # xs) = non_null xs"
| "non_null (Some d # xs) = d # non_null xs"

text \<open>The abstract queue: the items and the data released so far.\<close>

type_synonym 'd aq = "'d option list \<times> 'd list"

fun spec_step :: "bool \<Rightarrow> 'd qop \<Rightarrow> 'd aq \<Rightarrow> 'd qout \<times> 'd aq" where
  "spec_step mem (QEnq d) (xs, fr) = (QAccepted mem, (if mem then xs @ [d] else xs), fr)"
| "spec_step mem (QEnqFront d) (xs, fr) = (QAccepted mem, (if mem then d # xs else xs), fr)"
| "spec_step mem (QDeq b) (xs, fr) =
     (if xs = [] then (QGot None, xs, fr)
      else if b then (QGot (hd xs), tl xs, fr) else (QGot (last xs), butlast xs, fr))"
| "spec_step mem QFlush (xs, fr) = (QDone, [], fr @ non_null xs)"
| "spec_step mem (QFlushNodes None) (xs, fr) = (QDone, xs, fr)"
| "spec_step mem (QFlushNodes (Some m)) (xs, fr) =
     (QDone, filter (\<lambda>d. \<not> m d) xs, fr @ non_null (filter m xs))"

fun spec_run :: "'d qop list \<Rightarrow> 'd aq \<Rightarrow> 'd qout list \<times> 'd aq" where
  "spec_run [] a = ([], a)"
| "spec_run (op # ops) a =
     (case spec_step True op a of (out, a') \<Rightarrow> map_prod ((#) out) id (spec_run ops a'))"

definition q_abs :: "'d camera_q \<Rightarrow> 'd aq" where
  "q_abs q = (q_items q, q_freed q)"

text \<open>
  The well-formedness every operation keeps: the pointers form a list, and the release function
  was called on exactly the data that were freed, in the same order (when there is one).
\<close>

definition q_wf :: "'d camera_q \<Rightarrow> bool" where
  "q_wf q \<longleftrightarrow> q_inv q \<and> q_called q = (if m_dataFn q then q_freed q else [])"

text \<open>What \<open>malloc\<close> promises: memory that is not in use (and is not the dummy head).\<close>

definition malloc_ok :: "(addr set \<Rightarrow> addr option) \<Rightarrow> bool" where
  "malloc_ok alloc \<longleftrightarrow> (\<forall>L n. finite L \<longrightarrow> alloc L = Some n \<longrightarrow> n \<noteq> q_head \<and> n \<notin> L)"

section \<open>Refinement\<close>

lemma enqueue_keeps [simp]:
  "q_freed (snd (enqueue a d q)) = q_freed q" "q_called (snd (enqueue a d q)) = q_called q"
  "m_dataFn (snd (enqueue a d q)) = m_dataFn q"
  "q_freed (snd (enqueueWithPriority a d q)) = q_freed q"
  "q_called (snd (enqueueWithPriority a d q)) = q_called q"
  "m_dataFn (snd (enqueueWithPriority a d q)) = m_dataFn q"
  by (simp_all add: enqueue_def enqueueWithPriority_def cam_list_add_tail_node_def new_node_def Let_def
      split: option.split)

lemma dequeue_keeps [simp]:
  "q_freed (snd (dequeue b q)) = q_freed q" "q_called (snd (dequeue b q)) = q_called q"
  "m_dataFn (snd (dequeue b q)) = m_dataFn q"
  by (simp_all add: dequeue_def free_node_def Let_def)

lemma q_inv_finite: "q_inv q \<Longrightarrow> finite (q_live q)"
  by (simp add: q_inv_live)

lemma malloc_fresh: "malloc_ok alloc \<Longrightarrow> q_inv q \<Longrightarrow> alloc (q_live q) = Some n \<Longrightarrow> q_fresh q n"
  using q_inv_finite [of q] unfolding malloc_ok_def q_fresh_def by blast

lemma released_non_null: "released dat ns = non_null (map dat ns)"
  by (induction ns) (auto simp: released_def)

lemma map_filter_items: "map f (filter (\<lambda>n. P (f n)) ns) = filter P (map f ns)"
  by (induction ns) auto

lemma queue_rep_size: "queue_rep q ns \<Longrightarrow> q\<lparr>m_size := int (length ns)\<rparr> = q"
  by (simp add: queue_rep_def)

lemma flush_loop_abs:
  assumes "q_wf q"
  shows "\<exists>r. flush_loop m (q_next q q_head) q = Some r \<and> q_wf r \<and>
             q_abs r = (filter (\<lambda>d. \<not> m d) (q_items q), q_freed q @ non_null (filter m (q_items q)))"
proof -
  from assms obtain ns where rep: "queue_rep q ns" by (auto simp: q_wf_def elim: q_invE)
  obtain r where r: "flush_loop m (q_next q q_head) q = Some r"
    "queue_rep r (filter (\<lambda>n. \<not> m (q_data q n)) ns)" "q_data r = q_data q" "m_dataFn r = m_dataFn q"
    "q_freed r = q_freed q @ released (q_data q) (filter (\<lambda>n. m (q_data q n)) ns)"
    "q_called r = q_called q @
       (if m_dataFn q then released (q_data q) (filter (\<lambda>n. m (q_data q n)) ns) else [])"
    using flush_loop_from_head [OF rep, of m] by blast
  with assms rep show ?thesis
    by (auto simp: q_wf_def q_abs_def q_items_rep queue_rep_inv released_non_null
        map_filter_items [of "q_data q" m] map_filter_items [of "q_data q" "\<lambda>d. \<not> m d"])
qed

lemma flush_abs:
  assumes "q_wf q"
  shows "\<exists>r. flush q = Some r \<and> q_wf r \<and> q_abs r = ([], q_freed q @ non_null (q_items q))"
proof -
  obtain r where r: "flush_loop (\<lambda>_. True) (q_next q q_head) q = Some r" "q_wf r"
    "q_abs r = ([], q_freed q @ non_null (q_items q))"
    using flush_loop_abs [OF assms, of "\<lambda>_. True"] by auto
  then have "queue_rep r []" by (auto simp: q_wf_def q_inv_def q_abs_def q_items_def)
  from queue_rep_size [OF this] r show ?thesis by (auto simp: flush_def)
qed

text \<open>Every operation of the pointer model implements the abstract one, in every well-formed queue.\<close>

lemma q_step_refines:
  assumes wf: "q_wf q" and m: "malloc_ok alloc"
  shows "\<exists>out r. q_step alloc op q = Some (out, r) \<and> q_wf r \<and>
           (out, q_abs r) = spec_step (alloc (q_live q) \<noteq> None) op (q_abs q)"
proof -
  from wf have i: "q_inv q" by (simp add: q_wf_def)
  note fresh = malloc_fresh [OF m i]
  note called = wf [unfolded q_wf_def, THEN conjunct2]
  show ?thesis
  proof (cases op)
    case (QEnq d)
    obtain r where "enqueue (alloc (q_live q)) d q = (alloc (q_live q) \<noteq> None, r)" "q_inv r"
      "q_items r = (if alloc (q_live q) = None then q_items q else q_items q @ [d])"
      using cq.enq_result [OF i fresh, of "alloc (q_live q)" d] by blast
    with QEnq called enqueue_keeps(1-3) [of "alloc (q_live q)" d q] show ?thesis
      by (simp add: q_wf_def q_abs_def)
  next
    case (QEnqFront d)
    obtain r where "enqueueWithPriority (alloc (q_live q)) d q = (alloc (q_live q) \<noteq> None, r)" "q_inv r"
      "q_items r = (if alloc (q_live q) = None then q_items q else d # q_items q)"
      using cq.enq_front_result [OF i fresh, of "alloc (q_live q)" d] by blast
    with QEnqFront called enqueue_keeps(4-6) [of "alloc (q_live q)" d q] show ?thesis
      by (simp add: q_wf_def q_abs_def)
  next
    case (QDeq b)
    obtain r where "dequeue b q =
        (if q_items q = [] then None else if b then hd (q_items q) else last (q_items q), r)"
      "q_inv r" "q_items r = (if b then tl (q_items q) else butlast (q_items q))"
      using cq.deq_cases [OF i, of b] by blast
    with QDeq called dequeue_keeps [of b q] show ?thesis
      by (cases "q_items q = []") (simp_all add: q_wf_def q_abs_def)
  next
    case QFlush
    with flush_abs [OF wf] show ?thesis by (auto simp: q_abs_def)
  next
    case (QFlushNodes f)
    with wf flush_loop_abs [OF wf] show ?thesis by (cases f) (auto simp: q_abs_def flushNodes_def)
  qed
qed

lemma q_init_wf: "q_wf (QCameraQueue_init_fn fn q)" "q_abs (QCameraQueue_init_fn fn q) = ([], [])"
  using queue_rep_init_fn [of fn q] by (simp_all add: q_wf_def q_abs_def queue_rep_inv q_items_rep)
    (simp_all add: QCameraQueue_init_fn_def)

lemma q_run_refines:
  assumes "q_wf q" and "malloc_ok alloc" and "\<And>L. finite L \<Longrightarrow> alloc L \<noteq> None"
  shows "\<exists>outs r. q_run alloc ops q = Some (outs, r) \<and> q_wf r \<and> (outs, q_abs r) = spec_run ops (q_abs q)"
  using assms(1)
proof (induction ops arbitrary: q)
  case Nil
  then show ?case by simp
next
  case (Cons op ops)
  have mem: "alloc (q_live q) \<noteq> None" using assms(3) Cons.prems by (simp add: q_wf_def q_inv_finite)
  obtain out r where r: "q_step alloc op q = Some (out, r)" "q_wf r"
    "(out, q_abs r) = spec_step True op (q_abs q)"
    using q_step_refines [OF Cons.prems assms(2), of op] mem by auto
  from Cons.IH [OF r(2)] r show ?case
    by (auto simp: split: prod.splits) (metis map_prod_simp id_apply prod.inject)
qed

section \<open>Conservation of data\<close>

text \<open>The non-\<open>NULL\<close> data a run accepted and the non-\<open>NULL\<close> data it handed back.\<close>

fun accepted1 :: "'d qop \<Rightarrow> 'd qout \<Rightarrow> 'd list" where
  "accepted1 (QEnq d) (QAccepted True) = non_null [d]"
| "accepted1 (QEnqFront d) (QAccepted True) = non_null [d]"
| "accepted1 _ _ = []"

fun accepted :: "'d qop list \<Rightarrow> 'd qout list \<Rightarrow> 'd list" where
  "accepted (op # ops) (out # outs) = accepted1 op out @ accepted ops outs"
| "accepted _ _ = []"

fun handed_back :: "'d qout list \<Rightarrow> 'd list" where
  "handed_back [] = []"
| "handed_back (QGot d # outs) = non_null [d] @ handed_back outs"
| "handed_back (_ # outs) = handed_back outs"

lemma non_null_append [simp]: "non_null (xs @ ys) = non_null xs @ non_null ys"
  by (induction xs rule: non_null.induct) auto

lemma non_null_Cons: "non_null (x # xs) = non_null [x] @ non_null xs"
  by (cases x) auto

lemma non_null_split: "mset (non_null (filter m xs)) + mset (non_null (filter (\<lambda>d. \<not> m d) xs)) = mset (non_null xs)"
  by (induction xs rule: non_null.induct) auto

lemma non_null_ends:
  assumes "xs \<noteq> []"
  shows "mset (non_null [hd xs]) + mset (non_null (tl xs)) = mset (non_null xs)"
    and "mset (non_null [last xs]) + mset (non_null (butlast xs)) = mset (non_null xs)"
proof -
  show "mset (non_null [hd xs]) + mset (non_null (tl xs)) = mset (non_null xs)"
    using assms non_null_Cons [of "hd xs" "tl xs"] by (metis list.collapse mset_append)
  have "xs = butlast xs @ [last xs]" using assms by simp
  then have "non_null xs = non_null (butlast xs) @ non_null [last xs]" by (metis non_null_append)
  then show "mset (non_null [last xs]) + mset (non_null (butlast xs)) = mset (non_null xs)"
    by (metis mset_append union_commute)
qed

definition held :: "'d aq \<Rightarrow> 'd multiset" where
  "held a = mset (non_null (fst a)) + mset (snd a)"

lemma spec_step_conserves:
  assumes "spec_step mem op a = (out, b)"
  shows "held a + mset (accepted1 op out) = held b + mset (handed_back [out])"
proof (cases "(mem, op, a)" rule: spec_step.cases)
  case (3 mem' b' xs fr)
  with assms show ?thesis using non_null_ends [of xs] by (auto simp: held_def add_ac split: if_splits)
next
  case (6 mem' m xs fr)
  with assms show ?thesis using non_null_split [of m xs] by (auto simp: held_def add_ac)
next
  case (2 mem' d xs fr)
  with assms show ?thesis using non_null_Cons [of d xs] by (cases mem) (auto simp: held_def)
next
  case (1 mem' d xs fr)
  with assms show ?thesis by (cases mem) (auto simp: held_def)
qed (use assms in \<open>auto simp: held_def\<close>)

lemma handed_back_Cons: "handed_back (out # outs) = handed_back [out] @ handed_back outs"
  by (cases out) auto

lemma q_run_conserves:
  assumes "q_wf q" and "malloc_ok alloc"
  shows "\<exists>outs r. q_run alloc ops q = Some (outs, r) \<and> q_wf r \<and>
           held (q_abs q) + mset (accepted ops outs) = held (q_abs r) + mset (handed_back outs)"
  using assms(1)
proof (induction ops arbitrary: q)
  case Nil
  then show ?case by simp
next
  case (Cons op ops)
  obtain out r where r: "q_step alloc op q = Some (out, r)" "q_wf r"
    "spec_step (alloc (q_live q) \<noteq> None) op (q_abs q) = (out, q_abs r)"
    using q_step_refines [OF Cons.prems assms(2), of op] by metis
  note one = spec_step_conserves [OF r(3)]
  obtain outs t where t: "q_run alloc ops r = Some (outs, t)" "q_wf t"
    "held (q_abs r) + mset (accepted ops outs) = held (q_abs t) + mset (handed_back outs)"
    using Cons.IH [OF r(2)] by blast
  have "held (q_abs q) + mset (accepted (op # ops) (out # outs)) =
      held (q_abs t) + mset (handed_back (out # outs))"
    using one t(3) handed_back_Cons [of out outs] by (simp add: ac_simps)
      (metis (no_types, opaque_lifting) add.assoc add.commute)
  with r(1) t(1,2) show ?case by simp
qed

section \<open>Properties\<close>

text \<open>An allocator and a piece of raw memory for the concrete instances.\<close>

definition next_addr :: "addr set \<Rightarrow> addr option" where
  "next_addr L = Some (Suc (Max (insert 0 L)))"

lemma next_addr_ok: "malloc_ok next_addr" "finite L \<Longrightarrow> next_addr L \<noteq> None"
proof -
  have "Suc (Max (insert 0 L)) \<notin> L" if "finite L" for L :: "addr set"
  proof
    assume "Suc (Max (insert 0 L)) \<in> L"
    then have "Suc (Max (insert 0 L)) \<le> Max (insert 0 L)" using that by (intro Max_ge) auto
    then show False by simp
  qed
  then show "malloc_ok next_addr" by (auto simp: malloc_ok_def next_addr_def q_head_def)
qed (simp add: next_addr_def)

definition raw_q :: "'d camera_q" where
  "raw_q = \<lparr>q_next = (\<lambda>_. 9), q_prev = (\<lambda>_. 9), q_data = (\<lambda>_. None), m_size = 5, m_dataFn = False,
            q_live = {}, q_freed = [], q_called = []\<rparr>"

text \<open>
  C3. The circular list behaves as a double-ended queue. From the constructor, with a \<open>malloc\<close> that
  succeeds, every sequence of \<open>enqueue\<close>, \<open>enqueueWithPriority\<close>, \<open>dequeue\<close> from either end, \<open>flush\<close> and
  \<open>flushNodes\<close> returns, hands out exactly the results of the abstract queue, and ends in a well-formed
  list that holds the abstract items and has released the abstract released data.
\<close>

theorem queue_run_refines_deque:
  assumes "malloc_ok alloc" and "\<And>L. finite L \<Longrightarrow> alloc L \<noteq> None"
  shows "\<exists>outs r. q_run alloc ops (QCameraQueue_init_fn fn q) = Some (outs, r) \<and> q_wf r \<and>
           spec_run ops ([], []) = (outs, q_abs r)"
  using q_run_refines [OF q_init_wf(1) assms, of ops] unfolding q_init_wf(2) by metis

theorem queue_run_refines_deque_witness:
  "\<exists>r. q_run next_addr [QEnq (Some (5::int)), QEnqFront (Some 7), QDeq True, QEnq None, QFlush]
         (QCameraQueue_init_fn True raw_q) =
       Some ([QAccepted True, QAccepted True, QGot (Some 7), QAccepted True, QDone], r) \<and>
       q_abs r = ([], [5])"
  using queue_run_refines_deque [of next_addr "[QEnq (Some (5::int)), QEnqFront (Some 7), QDeq True, QEnq None, QFlush]"
      True raw_q, OF next_addr_ok] by auto

text \<open>
  C33. No datum is lost, duplicated or freed twice, even when allocations fail: over every run from
  the constructor, the data accepted by the two enqueue operations are, as a multiset, the data still
  queued, the data a flush freed and the data handed back by \<open>dequeue\<close>; and when the queue has a
  release function it was called on exactly the freed data.
\<close>

theorem queue_conserves_data:
  assumes "malloc_ok alloc"
  shows "\<exists>outs r. q_run alloc ops (QCameraQueue_init_fn fn q) = Some (outs, r) \<and>
           mset (accepted ops outs) =
             mset (non_null (q_items r)) + mset (q_freed r) + mset (handed_back outs) \<and>
           q_called r = (if m_dataFn r then q_freed r else [])"
proof -
  obtain outs r where "q_run alloc ops (QCameraQueue_init_fn fn q) = Some (outs, r)" "q_wf r"
    "held ([], []) + mset (accepted ops outs) = held (q_abs r) + mset (handed_back outs)"
    using q_run_conserves [OF q_init_wf(1) assms, of ops fn q] unfolding q_init_wf(2) by blast
  then show ?thesis
    by (intro exI [of _ outs] exI [of _ r]) (simp add: held_def q_abs_def q_wf_def)
qed

theorem queue_conserves_data_witness:
  "\<exists>outs r. q_run (\<lambda>L. if L = {} then Some 3 else None) [QEnq (Some (5::int)), QEnq (Some 6), QFlush]
         (QCameraQueue_init_fn True raw_q) = Some (outs, r) \<and>
       mset (accepted [QEnq (Some (5::int)), QEnq (Some 6), QFlush] outs) =
         mset (non_null (q_items r)) + mset (q_freed r) + mset (handed_back outs)"
proof -
  have "malloc_ok (\<lambda>L. if L = {} then Some 3 else None)" by (simp add: malloc_ok_def q_head_def)
  from queue_conserves_data [OF this, of "[QEnq (Some (5::int)), QEnq (Some 6), QFlush]" True raw_q]
  show ?thesis by blast
qed

text \<open>
  \<open>flushNodes\<close> on a well-formed queue returns, frees exactly the data its matching function accepts,
  once each and in queue order, keeps the others in their order, and leaves \<open>m_size\<close> counting them.
\<close>

theorem flushNodes_partitions:
  assumes "q_wf q"
  shows "\<exists>r. flushNodes (Some match) q = Some r \<and> q_wf r \<and>
           q_items r = filter (\<lambda>d. \<not> match d) (q_items q) \<and>
           q_freed r = q_freed q @ non_null (filter match (q_items q)) \<and>
           getCurrentSize r = int (length (filter (\<lambda>d. \<not> match d) (q_items q)))"
proof -
  obtain r where "flush_loop match (q_next q q_head) q = Some r" "q_wf r"
    "q_abs r = (filter (\<lambda>d. \<not> match d) (q_items q), q_freed q @ non_null (filter match (q_items q)))"
    using flush_loop_abs [OF assms] by blast
  then show ?thesis
    using q_items_size [of r] by (auto simp: flushNodes_def q_abs_def getCurrentSize_def q_wf_def)
qed

theorem flushNodes_partitions_witness:
  "\<exists>r. flushNodes (Some (\<lambda>d. d = None)) (QCameraQueue_init_fn True raw_q) = Some r \<and>
       getCurrentSize (r :: int camera_q) = 0"
  using flushNodes_partitions [OF q_init_wf(1), of "\<lambda>d. d = None" True "raw_q :: int camera_q"]
    q_init_wf(2) [of True "raw_q :: int camera_q"] by (auto simp: q_abs_def)

end
