(* ===== verification/SMTypes.thy ===== *)
theory SMTypes
  imports Prelude "HOL-Library.Word"
begin

text \<open>
  The vocabulary of the camera HAL's state machine (camera/QCamera2/HAL/QCameraStateMachine.h): its
  events, its results, its states, the operations of the HAL object it drives, and the elementary
  actions its handlers are made of.

  An event and its \<open>void *payload\<close> are one value of \<open>sm_event\<close>: each constructor carries the payload the
  handlers cast to, and \<open>evt_of\<close> gives the enumerator. The HAL object (\<open>m_parent\<close>) is a record of
  operations over a state of type \<open>'p\<close>; handlers reach it through nothing else. An operation may look
  at \<open>m_state\<close>, because the HAL object can query the state machine while it runs.
\<close>

section \<open>Events\<close>

type_synonym int32 = "32 word"

datatype qcamera_sm_evt_enum_t =
    QCAMERA_SM_EVT_SET_PREVIEW_WINDOW
  | QCAMERA_SM_EVT_SET_CALLBACKS
  | QCAMERA_SM_EVT_ENABLE_MSG_TYPE
  | QCAMERA_SM_EVT_DISABLE_MSG_TYPE
  | QCAMERA_SM_EVT_MSG_TYPE_ENABLED
  | QCAMERA_SM_EVT_SET_PARAMS
  | QCAMERA_SM_EVT_GET_PARAMS
  | QCAMERA_SM_EVT_PUT_PARAMS
  | QCAMERA_SM_EVT_START_PREVIEW
  | QCAMERA_SM_EVT_START_NODISPLAY_PREVIEW
  | QCAMERA_SM_EVT_STOP_PREVIEW
  | QCAMERA_SM_EVT_PREVIEW_ENABLED
  | QCAMERA_SM_EVT_STORE_METADATA_IN_BUFS
  | QCAMERA_SM_EVT_START_RECORDING
  | QCAMERA_SM_EVT_STOP_RECORDING
  | QCAMERA_SM_EVT_RECORDING_ENABLED
  | QCAMERA_SM_EVT_RELEASE_RECORIDNG_FRAME
  | QCAMERA_SM_EVT_PREPARE_SNAPSHOT
  | QCAMERA_SM_EVT_TAKE_PICTURE
  | QCAMERA_SM_EVT_CANCEL_PICTURE
  | QCAMERA_SM_EVT_START_AUTO_FOCUS
  | QCAMERA_SM_EVT_STOP_AUTO_FOCUS
  | QCAMERA_SM_EVT_SEND_COMMAND
  | QCAMERA_SM_EVT_RELEASE
  | QCAMERA_SM_EVT_DUMP
  | QCAMERA_SM_EVT_REG_FACE_IMAGE
  | QCAMERA_SM_EVT_EVT_INTERNAL
  | QCAMERA_SM_EVT_EVT_NOTIFY
  | QCAMERA_SM_EVT_JPEG_EVT_NOTIFY
  | QCAMERA_SM_EVT_SNAPSHOT_DONE
  | QCAMERA_SM_EVT_THERMAL_NOTIFY
  | QCAMERA_SM_EVT_STOP_CAPTURE_CHANNEL
  | QCAMERA_SM_EVT_RESTART_PERVIEW

text \<open>The enumerator \<open>QCAMERA_SM_EVT_RESTART_PERVIEW\<close> as an \<open>int32_t\<close>: the list starts at 1.\<close>

definition RESTART_PERVIEW_num :: int32 where
  "RESTART_PERVIEW_num = 33"

text \<open>
  The commands \<open>sendCommand\<close> knows. Their values come from the Android
  camera header, so they are distinct names here.
\<close>

datatype camera_cmd =
    CAMERA_CMD_LONGSHOT_ON
  | CAMERA_CMD_LONGSHOT_OFF
  | CAMERA_CMD_STOP_LONGSHOT
  | CAMERA_CMD_HISTOGRAM_ON
  | CAMERA_CMD_HISTOGRAM_OFF
  | CAMERA_CMD_START_FACE_DETECTION
  | CAMERA_CMD_STOP_FACE_DETECTION
  | CAMERA_CMD_OTHER int32

datatype qcamera_internal_evt =
    QCAMERA_INTERNAL_EVT_FOCUS_UPDATE nat
  | QCAMERA_INTERNAL_EVT_PREP_SNAPSHOT_DONE nat
  | QCAMERA_INTERNAL_EVT_FACE_DETECT_RESULT nat
  | QCAMERA_INTERNAL_EVT_HISTOGRAM_STATS nat
  | QCAMERA_INTERNAL_EVT_CROP_INFO nat
  | QCAMERA_INTERNAL_EVT_ASD_UPDATE nat
  | QCAMERA_INTERNAL_EVT_AWB_UPDATE nat
  | QCAMERA_INTERNAL_EVT_AE_UPDATE nat
  | QCAMERA_INTERNAL_EVT_FOCUS_POS_UPDATE nat
  | QCAMERA_INTERNAL_EVT_RESET_FRAME_ID int32
  | QCAMERA_INTERNAL_EVT_OTHER

datatype cam_event_type =
    CAM_EVENT_TYPE_MAP_UNMAP_DONE
  | CAM_EVENT_TYPE_AUTO_FOCUS_DONE
  | CAM_EVENT_TYPE_ZOOM_DONE
  | CAM_EVENT_TYPE_REPROCESS_STAGE_DONE
  | CAM_EVENT_TYPE_DAEMON_DIED
  | CAM_EVENT_TYPE_INT_TAKE_PIC
  | CAM_EVENT_TYPE_OTHER

record setcb_payload =
  notify_cb :: ptr
  data_cb :: ptr
  data_cb_timestamp :: ptr
  get_memory :: ptr
  cb_user :: ptr

datatype sm_event =
    SetPreviewWindow ptr
  | SetCallbacks setcb_payload
  | EnableMsgType int32
  | DisableMsgType int32
  | MsgTypeEnabled int32
  | SetParams ptr
  | GetParams
  | PutParams ptr
  | StartPreview
  | StartNodisplayPreview
  | StopPreview
  | PreviewEnabled
  | StoreMetadataInBufs int32
  | StartRecording
  | StopRecording
  | RecordingEnabled
  | ReleaseRecordingFrame ptr
  | PrepareSnapshot
  | TakePicture
  | CancelPicture
  | StartAutoFocus
  | StopAutoFocus
  | SendCommand camera_cmd int32 int32
  | Release
  | Dump int32
  | RegFaceImage ptr ptr
  | EvtInternal qcamera_internal_evt
  | EvtNotify cam_event_type
  | JpegEvtNotify ptr
  | SnapshotDone
  | ThermalNotify nat
  | StopCaptureChannel
  | RestartPreview

primrec evt_of :: "sm_event \<Rightarrow> qcamera_sm_evt_enum_t" where
  "evt_of (SetPreviewWindow w) = QCAMERA_SM_EVT_SET_PREVIEW_WINDOW"
| "evt_of (SetCallbacks c) = QCAMERA_SM_EVT_SET_CALLBACKS"
| "evt_of (EnableMsgType m) = QCAMERA_SM_EVT_ENABLE_MSG_TYPE"
| "evt_of (DisableMsgType m) = QCAMERA_SM_EVT_DISABLE_MSG_TYPE"
| "evt_of (MsgTypeEnabled m) = QCAMERA_SM_EVT_MSG_TYPE_ENABLED"
| "evt_of (SetParams p) = QCAMERA_SM_EVT_SET_PARAMS"
| "evt_of GetParams = QCAMERA_SM_EVT_GET_PARAMS"
| "evt_of (PutParams p) = QCAMERA_SM_EVT_PUT_PARAMS"
| "evt_of StartPreview = QCAMERA_SM_EVT_START_PREVIEW"
| "evt_of StartNodisplayPreview = QCAMERA_SM_EVT_START_NODISPLAY_PREVIEW"
| "evt_of StopPreview = QCAMERA_SM_EVT_STOP_PREVIEW"
| "evt_of PreviewEnabled = QCAMERA_SM_EVT_PREVIEW_ENABLED"
| "evt_of (StoreMetadataInBufs e) = QCAMERA_SM_EVT_STORE_METADATA_IN_BUFS"
| "evt_of StartRecording = QCAMERA_SM_EVT_START_RECORDING"
| "evt_of StopRecording = QCAMERA_SM_EVT_STOP_RECORDING"
| "evt_of RecordingEnabled = QCAMERA_SM_EVT_RECORDING_ENABLED"
| "evt_of (ReleaseRecordingFrame p) = QCAMERA_SM_EVT_RELEASE_RECORIDNG_FRAME"
| "evt_of PrepareSnapshot = QCAMERA_SM_EVT_PREPARE_SNAPSHOT"
| "evt_of TakePicture = QCAMERA_SM_EVT_TAKE_PICTURE"
| "evt_of CancelPicture = QCAMERA_SM_EVT_CANCEL_PICTURE"
| "evt_of StartAutoFocus = QCAMERA_SM_EVT_START_AUTO_FOCUS"
| "evt_of StopAutoFocus = QCAMERA_SM_EVT_STOP_AUTO_FOCUS"
| "evt_of (SendCommand c a1 a2) = QCAMERA_SM_EVT_SEND_COMMAND"
| "evt_of Release = QCAMERA_SM_EVT_RELEASE"
| "evt_of (Dump fd) = QCAMERA_SM_EVT_DUMP"
| "evt_of (RegFaceImage i c) = QCAMERA_SM_EVT_REG_FACE_IMAGE"
| "evt_of (EvtInternal e) = QCAMERA_SM_EVT_EVT_INTERNAL"
| "evt_of (EvtNotify e) = QCAMERA_SM_EVT_EVT_NOTIFY"
| "evt_of (JpegEvtNotify j) = QCAMERA_SM_EVT_JPEG_EVT_NOTIFY"
| "evt_of SnapshotDone = QCAMERA_SM_EVT_SNAPSHOT_DONE"
| "evt_of (ThermalNotify l) = QCAMERA_SM_EVT_THERMAL_NOTIFY"
| "evt_of StopCaptureChannel = QCAMERA_SM_EVT_STOP_CAPTURE_CHANNEL"
| "evt_of RestartPreview = QCAMERA_SM_EVT_RESTART_PERVIEW"

section \<open>Results and states\<close>

datatype qcamera_api_result_type_t =
    QCAMERA_API_RESULT_TYPE_DEF
  | QCAMERA_API_RESULT_TYPE_ENABLE_FLAG
  | QCAMERA_API_RESULT_TYPE_PARAMS
  | QCAMERA_API_RESULT_TYPE_HANDLE

text \<open>The union of a result: zeroed by \<open>memset\<close>, or the member that was written.\<close>

datatype api_result_union = U_zero | U_enabled int | U_params ptr | U_handle int

record qcamera_api_result_t =
  status :: status_t
  request_api :: qcamera_sm_evt_enum_t
  result_type :: qcamera_api_result_type_t
  result_u :: api_result_union

datatype qcamera_state_enum_t =
    QCAMERA_SM_STATE_PREVIEW_STOPPED
  | QCAMERA_SM_STATE_PREVIEW_READY
  | QCAMERA_SM_STATE_PREVIEWING
  | QCAMERA_SM_STATE_PREPARE_SNAPSHOT
  | QCAMERA_SM_STATE_PIC_TAKING
  | QCAMERA_SM_STATE_RECORDING
  | QCAMERA_SM_STATE_VIDEO_PIC_TAKING
  | QCAMERA_SM_STATE_PREVIEW_PIC_TAKING

section \<open>The HAL object\<close>

datatype qcamera_ch_type_enum_t =
    QCAMERA_CH_TYPE_ZSL
  | QCAMERA_CH_TYPE_CAPTURE
  | QCAMERA_CH_TYPE_PREVIEW
  | QCAMERA_CH_TYPE_VIDEO
  | QCAMERA_CH_TYPE_SNAPSHOT
  | QCAMERA_CH_TYPE_RAW
  | QCAMERA_CH_TYPE_METADATA

text \<open>The message and error codes of the Android camera header the handlers name.\<close>

datatype camera_msg_type = CAMERA_MSG_ERROR | CAMERA_MSG_OTHER int32

datatype camera_error = CAMERA_ERROR_SERVER_DIED | CAMERA_ERROR_OTHER int32

text \<open>Operations with a status (whether or not the handlers look at it).\<close>

datatype hwi_call =
    setPreviewWindow ptr
  | setCallBacks setcb_payload
  | enableMsgType int32
  | disableMsgType int32
  | commitParameterChanges
  | putParameters ptr
  | preparePreview
  | startPreview
  | stopPreview
  | release
  | storeMetaDataInBuffers int32
  | dump int32
  | autoFocus
  | cancelAutoFocus
  | updateThermalLevel nat
  | startRecording
  | stopRecording
  | releaseRecordingFrame ptr
  | prepareHardwareForSnapshot bool
  | takePicture
  | cancelPicture
  | takeLiveSnapshot
  | cancelLiveSnapshot
  | longShot
  | stopCaptureChannel bool
  | stopChannel qcamera_ch_type_enum_t
  | processAutoFocusEvent nat
  | processPrepSnapshotDoneEvent nat
  | processFaceDetectionResult nat
  | processHistogramStats nat
  | processZoomEvent nat
  | processASDUpdate nat
  | processAWBUpdate nat
  | processAEInfo nat
  | processFocusPositionInfo nat
  | processFrameIDReset int32
  | processJpegNotify ptr
  | sendEvtNotify camera_msg_type camera_error int32
  | updateRecordingHintValue bool
  | closeNativeHandle ptr
  | videoMem_closeNativeHandle ptr

text \<open>Operations without a result.\<close>

datatype hwi_proc =
    unpreparePreview
  | memoryPool_clear
  | playShutter
  | setMultipleStages bool
  | set_bPreviewStarted bool
  | set_bRecordStarted bool
  | set_PrepSnapRun bool

datatype hwi_query =
    mPreviewWindow_set
  | isZSLMode
  | isLongshotEnabled
  | isLongshotSnapLimited
  | isCaptureShutterEnabled
  | isPreviewRestartEnabled
  | getRecordingHintValue
  | getMultipleStages
  | isNoDisplayMode
  | isAFRunning
  | mFlashNeeded
  | isChromaFlashEnabled
  | mVideoMem_set
  | mStoreMetaDataInFrame_pos
  | mCameraOpened

record 'p hwi =
  h_call :: "qcamera_state_enum_t \<Rightarrow> hwi_call \<Rightarrow> 'p \<Rightarrow> status_t \<times> 'p"
  h_proc :: "qcamera_state_enum_t \<Rightarrow> hwi_proc \<Rightarrow> 'p \<Rightarrow> 'p"
  h_query :: "hwi_query \<Rightarrow> 'p \<Rightarrow> bool"
  h_sendCommand :: "qcamera_state_enum_t \<Rightarrow> camera_cmd \<Rightarrow> int32 \<Rightarrow> int32 \<Rightarrow> 'p \<Rightarrow> (status_t \<times> int32) \<times> 'p"
  h_updateParameters :: "ptr \<Rightarrow> 'p \<Rightarrow> (status_t \<times> bool) \<times> 'p"
  h_getParameters :: "'p \<Rightarrow> ptr \<times> 'p"
  h_registerFaceImage :: "ptr \<Rightarrow> ptr \<Rightarrow> 'p \<Rightarrow> (status_t \<times> int) \<times> 'p"
  h_msgTypeEnabled :: "int32 \<Rightarrow> 'p \<Rightarrow> int"
  h_malloc :: "'p \<Rightarrow> bool"

record 'p sm_ctx =
  m_state :: qcamera_state_enum_t
  m_parent :: 'p
  m_apiResultList :: "qcamera_api_result_t list"
  m_evtResult :: "qcamera_api_result_t option"

type_synonym 'p handler = "('p sm_ctx, status_t) state"

section \<open>Actions\<close>

definition hcall :: "'p hwi \<Rightarrow> hwi_call \<Rightarrow> 'p handler" where
  "hcall h c = State (\<lambda>s. case h_call h (m_state s) c (m_parent s) of (rc, p) \<Rightarrow> (rc, s\<lparr>m_parent := p\<rparr>))"

definition hproc :: "'p hwi \<Rightarrow> hwi_proc \<Rightarrow> ('p sm_ctx, unit) state" where
  "hproc h c = State_Monad.update (\<lambda>s. s\<lparr>m_parent := h_proc h (m_state s) c (m_parent s)\<rparr>)"

definition hquery :: "'p hwi \<Rightarrow> hwi_query \<Rightarrow> ('p sm_ctx, bool) state" where
  "hquery h q = State (\<lambda>s. (h_query h q (m_parent s), s))"

definition set_state :: "qcamera_state_enum_t \<Rightarrow> ('p sm_ctx, unit) state" where
  "set_state st = State_Monad.update (\<lambda>s. s\<lparr>m_state := st\<rparr>)"

text \<open>
  \<open>signalAPIResult\<close> appends a copy of the result to \<open>m_apiResultList\<close> and wakes the waiters; the
  result is lost when the list node cannot be allocated.
\<close>

definition signalAPIResult :: "'p hwi \<Rightarrow> qcamera_api_result_t \<Rightarrow> ('p sm_ctx, unit) state" where
  "signalAPIResult h r = State_Monad.update (\<lambda>s.
     if h_malloc h (m_parent s) then s\<lparr>m_apiResultList := m_apiResultList s @ [r]\<rparr> else s)"

definition signalEvtResult :: "qcamera_api_result_t \<Rightarrow> ('p sm_ctx, unit) state" where
  "signalEvtResult r = State_Monad.update (\<lambda>s. s\<lparr>m_evtResult := Some r\<rparr>)"

definition mk_result ::
    "status_t \<Rightarrow> qcamera_sm_evt_enum_t \<Rightarrow> qcamera_api_result_type_t \<Rightarrow> api_result_union \<Rightarrow> qcamera_api_result_t" where
  "mk_result rc e ty u = \<lparr>status = rc, request_api = e, result_type = ty, result_u = u\<rparr>"

text \<open>The blocks the handlers repeat: fill in the result, signal it, leave the switch with \<open>rc\<close>.\<close>

definition reply :: "'p hwi \<Rightarrow> sm_event \<Rightarrow> status_t \<Rightarrow> 'p handler" where
  "reply h evt rc = do {
     signalAPIResult h (mk_result rc (evt_of evt) QCAMERA_API_RESULT_TYPE_DEF U_zero);
     State_Monad.return rc }"

definition reply_flag :: "'p hwi \<Rightarrow> sm_event \<Rightarrow> status_t \<Rightarrow> int \<Rightarrow> 'p handler" where
  "reply_flag h evt rc flag = do {
     signalAPIResult h (mk_result rc (evt_of evt) QCAMERA_API_RESULT_TYPE_ENABLE_FLAG (U_enabled flag));
     State_Monad.return rc }"

definition reply_evt :: "sm_event \<Rightarrow> status_t \<Rightarrow> 'p handler" where
  "reply_evt evt rc = do {
     signalEvtResult (mk_result rc (evt_of evt) QCAMERA_API_RESULT_TYPE_DEF U_zero);
     State_Monad.return rc }"

definition call_reply :: "'p hwi \<Rightarrow> sm_event \<Rightarrow> hwi_call \<Rightarrow> 'p handler" where
  "call_reply h evt c = do { rc \<leftarrow> hcall h c; reply h evt rc }"

definition msg_enabled_reply :: "'p hwi \<Rightarrow> sm_event \<Rightarrow> int32 \<Rightarrow> 'p handler" where
  "msg_enabled_reply h evt m = do {
     s \<leftarrow> State_Monad.get;
     reply_flag h evt NO_ERROR (h_msgTypeEnabled h m (m_parent s)) }"

definition get_params_reply :: "'p hwi \<Rightarrow> sm_event \<Rightarrow> 'p handler" where
  "get_params_reply h evt = do {
     p \<leftarrow> State (\<lambda>s. case h_getParameters h (m_parent s) of (p, p') \<Rightarrow> (p, s\<lparr>m_parent := p'\<rparr>));
     signalAPIResult h (mk_result NO_ERROR (evt_of evt) QCAMERA_API_RESULT_TYPE_PARAMS (U_params p));
     State_Monad.return NO_ERROR }"

definition reg_face_reply :: "'p hwi \<Rightarrow> sm_event \<Rightarrow> ptr \<Rightarrow> ptr \<Rightarrow> 'p handler" where
  "reg_face_reply h evt img cfg = do {
     r \<leftarrow> State (\<lambda>s. case h_registerFaceImage h img cfg (m_parent s) of (r, p) \<Rightarrow> (r, s\<lparr>m_parent := p\<rparr>));
     signalAPIResult h (mk_result (fst r) (evt_of evt) QCAMERA_API_RESULT_TYPE_HANDLE (U_handle (snd r)));
     State_Monad.return (fst r) }"

text \<open>\<open>sendCommand\<close> takes \<open>arg1\<close> by reference and may write to the payload through it.\<close>

definition send_cmd :: "'p hwi \<Rightarrow> camera_cmd \<Rightarrow> int32 \<Rightarrow> int32 \<Rightarrow> ('p sm_ctx, status_t \<times> int32) state" where
  "send_cmd h cmd arg1 arg2 = State (\<lambda>s.
     case h_sendCommand h (m_state s) cmd arg1 arg2 (m_parent s) of (r, p) \<Rightarrow> (r, s\<lparr>m_parent := p\<rparr>))"

definition send_reply :: "'p hwi \<Rightarrow> sm_event \<Rightarrow> camera_cmd \<Rightarrow> int32 \<Rightarrow> int32 \<Rightarrow> 'p handler" where
  "send_reply h evt cmd arg1 arg2 = do { (rc, arg1') \<leftarrow> send_cmd h cmd arg1 arg2; reply h evt rc }"

definition update_params :: "'p hwi \<Rightarrow> ptr \<Rightarrow> ('p sm_ctx, status_t \<times> bool) state" where
  "update_params h p = State (\<lambda>s. case h_updateParameters h p (m_parent s) of (r, p') \<Rightarrow> (r, s\<lparr>m_parent := p'\<rparr>))"

text \<open>Prepare the preview channel and start it; a failed start undoes the preparation.\<close>

definition prepare_start :: "'p hwi \<Rightarrow> 'p handler" where
  "prepare_start h = do {
     rc \<leftarrow> hcall h preparePreview;
     if rc = NO_ERROR then do {
       rc \<leftarrow> hcall h startPreview;
       if rc \<noteq> NO_ERROR then do { hproc h unpreparePreview; State_Monad.return rc }
       else State_Monad.return rc }
     else State_Monad.return rc }"

text \<open>The server died: an error message for the application, whose own status is dropped.\<close>

definition notify_died :: "'p hwi \<Rightarrow> 'p handler" where
  "notify_died h = do { _ \<leftarrow> hcall h (sendEvtNotify CAMERA_MSG_ERROR CAMERA_ERROR_SERVER_DIED 0); State_Monad.return NO_ERROR }"

lemmas sm_actions =
  reply_def reply_flag_def reply_evt_def call_reply_def msg_enabled_reply_def get_params_reply_def
  reg_face_reply_def send_reply_def prepare_start_def notify_died_def

section \<open>Weakest preconditions of the actions\<close>

lemma wp_hcall [sm_wp]:
  "wp (hcall h c) Q s \<longleftrightarrow>
     Q (fst (h_call h (m_state s) c (m_parent s))) (s\<lparr>m_parent := snd (h_call h (m_state s) c (m_parent s))\<rparr>)"
  by (simp add: hcall_def wp_State split_beta)

lemma wp_hproc [sm_wp]: "wp (hproc h c) Q s \<longleftrightarrow> Q () (s\<lparr>m_parent := h_proc h (m_state s) c (m_parent s)\<rparr>)"
  by (simp add: hproc_def wp_update)

lemma wp_hquery [sm_wp]: "wp (hquery h q) Q s \<longleftrightarrow> Q (h_query h q (m_parent s)) s"
  by (simp add: hquery_def wp_State)

lemma wp_set_state [sm_wp]: "wp (set_state st) Q s \<longleftrightarrow> Q () (s\<lparr>m_state := st\<rparr>)"
  by (simp add: set_state_def wp_update)

lemma wp_signalAPIResult [sm_wp]:
  "wp (signalAPIResult h r) Q s \<longleftrightarrow>
     Q () (if h_malloc h (m_parent s) then s\<lparr>m_apiResultList := m_apiResultList s @ [r]\<rparr> else s)"
  by (simp add: signalAPIResult_def wp_update)

lemma wp_signalEvtResult [sm_wp]: "wp (signalEvtResult r) Q s \<longleftrightarrow> Q () (s\<lparr>m_evtResult := Some r\<rparr>)"
  by (simp add: signalEvtResult_def wp_update)

lemma wp_send_cmd [sm_wp]:
  "wp (send_cmd h cmd arg1 arg2) Q s \<longleftrightarrow>
     Q (fst (h_sendCommand h (m_state s) cmd arg1 arg2 (m_parent s)))
       (s\<lparr>m_parent := snd (h_sendCommand h (m_state s) cmd arg1 arg2 (m_parent s))\<rparr>)"
  by (simp add: send_cmd_def wp_State split_beta)

lemma wp_update_params [sm_wp]:
  "wp (update_params h p) Q s \<longleftrightarrow>
     Q (fst (h_updateParameters h p (m_parent s))) (s\<lparr>m_parent := snd (h_updateParameters h p (m_parent s))\<rparr>)"
  by (simp add: update_params_def wp_State split_beta)

lemma wp_case_prod [sm_wp]: "wp (case x of (a, b) \<Rightarrow> m a b) Q s \<longleftrightarrow> wp (m (fst x) (snd x)) Q s"
  by (simp add: split_beta)

text \<open>An action that only changes the HAL object, when the claim does not depend on what it does to it.\<close>

lemma frame_hcall: "(\<And>rc p. Q rc (s\<lparr>m_parent := p\<rparr>)) \<Longrightarrow> wp (hcall h c) Q s"
  by (simp add: wp_hcall)

lemma frame_prepare_start: "(\<And>rc p. Q rc (s\<lparr>m_parent := p\<rparr>)) \<Longrightarrow> wp (prepare_start h) Q s"
  by (simp add: prepare_start_def sm_wp)

end
