(* ===== verification/SMIdleStates.thy ===== *)
theory SMIdleStates
  imports SMTypes
begin

text \<open>
  The handlers of the states in which no picture is being taken:
  \<open>procEvtPreviewStoppedState\<close>, \<open>procEvtPreviewReadyState\<close>, \<open>procEvtPreviewingState\<close> and
  \<open>procEvtPrepareSnapshotState\<close> of camera/QCamera2/HAL/QCameraStateMachine.cpp.

  A handler is one \<open>switch\<close> of up to 390 lines. It is written here as a chain of definitions, each the
  next stretch of cases; the last one has the \<open>default\<close>. \<open>return\<close> is the value \<open>rc\<close> the handler returns.
\<close>

section \<open>PREVIEW\_STOPPED\<close>

definition procEvtPreviewStoppedState_c :: "'p hwi \<Rightarrow> sm_event \<Rightarrow> 'p handler" where
  "procEvtPreviewStoppedState_c h evt = (case evt of
     StartRecording \<Rightarrow> reply h evt INVALID_OPERATION
   | StopRecording \<Rightarrow> reply h evt INVALID_OPERATION
   | PrepareSnapshot \<Rightarrow> reply h evt INVALID_OPERATION
   | TakePicture \<Rightarrow> reply h evt INVALID_OPERATION
   | StartAutoFocus \<Rightarrow> reply h evt NO_ERROR
   | CancelPicture \<Rightarrow> reply h evt NO_ERROR
   | StopAutoFocus \<Rightarrow> call_reply h evt cancelAutoFocus
   | RegFaceImage img cfg \<Rightarrow> reg_face_reply h evt img cfg
   | ThermalNotify level \<Rightarrow> call_reply h evt (updateThermalLevel level)
   | EvtNotify ty \<Rightarrow> (case ty of
         CAM_EVENT_TYPE_DAEMON_DIED \<Rightarrow> notify_died h
       | _ \<Rightarrow> State_Monad.return NO_ERROR)
   | SnapshotDone \<Rightarrow> reply_evt evt NO_ERROR
   | _ \<Rightarrow> State_Monad.return NO_ERROR)"

definition procEvtPreviewStoppedState_b :: "'p hwi \<Rightarrow> sm_event \<Rightarrow> 'p handler" where
  "procEvtPreviewStoppedState_b h evt = (case evt of
     StartPreview \<Rightarrow> do {
       window \<leftarrow> hquery h mPreviewWindow_set;
       rc \<leftarrow> (if \<not> window then do {
                rc \<leftarrow> hcall h preparePreview;
                if rc = NO_ERROR then do { set_state QCAMERA_SM_STATE_PREVIEW_READY; State_Monad.return rc }
                else State_Monad.return rc }
              else do {
                rc \<leftarrow> prepare_start h;
                if rc = NO_ERROR then do { set_state QCAMERA_SM_STATE_PREVIEWING; State_Monad.return rc }
                else State_Monad.return rc });
       reply h evt rc }
   | StartNodisplayPreview \<Rightarrow> do {
       rc \<leftarrow> prepare_start h;
       (if rc = NO_ERROR then set_state QCAMERA_SM_STATE_PREVIEWING else State_Monad.return ());
       reply h evt rc }
   | StopPreview \<Rightarrow> reply h evt NO_ERROR
   | PreviewEnabled \<Rightarrow> reply_flag h evt NO_ERROR 0
   | RecordingEnabled \<Rightarrow> reply_flag h evt NO_ERROR 0
   | Release \<Rightarrow> call_reply h evt release
   | StoreMetadataInBufs e \<Rightarrow> call_reply h evt (storeMetaDataInBuffers e)
   | Dump fd \<Rightarrow> call_reply h evt (dump fd)
   | SendCommand cmd arg1 arg2 \<Rightarrow> send_reply h evt cmd arg1 arg2
   | ReleaseRecordingFrame p \<Rightarrow> do {
       _ \<leftarrow> hcall h (closeNativeHandle p);
       reply h evt INVALID_OPERATION }
   | _ \<Rightarrow> procEvtPreviewStoppedState_c h evt)"

definition procEvtPreviewStoppedState :: "'p hwi \<Rightarrow> sm_event \<Rightarrow> 'p handler" where
  "procEvtPreviewStoppedState h evt = (case evt of
     SetPreviewWindow w \<Rightarrow> call_reply h evt (setPreviewWindow w)
   | SetCallbacks cbs \<Rightarrow> call_reply h evt (setCallBacks cbs)
   | EnableMsgType m \<Rightarrow> call_reply h evt (enableMsgType m)
   | DisableMsgType m \<Rightarrow> call_reply h evt (disableMsgType m)
   | MsgTypeEnabled m \<Rightarrow> msg_enabled_reply h evt m
   | SetParams p \<Rightarrow> do {
       (rc, needRestart) \<leftarrow> update_params h p;
       (if needRestart then hproc h memoryPool_clear else State_Monad.return ());
       rc \<leftarrow> (if rc = NO_ERROR then hcall h commitParameterChanges else State_Monad.return rc);
       reply h evt rc }
   | GetParams \<Rightarrow> get_params_reply h evt
   | PutParams p \<Rightarrow> call_reply h evt (putParameters p)
   | _ \<Rightarrow> procEvtPreviewStoppedState_b h evt)"

section \<open>PREVIEW\_READY\<close>

definition procEvtPreviewReadyState_c :: "'p hwi \<Rightarrow> sm_event \<Rightarrow> 'p handler" where
  "procEvtPreviewReadyState_c h evt = (case evt of
     ReleaseRecordingFrame p \<Rightarrow> do {
       _ \<leftarrow> hcall h (closeNativeHandle p);
       reply h evt INVALID_OPERATION }
   | StartNodisplayPreview \<Rightarrow> reply h evt INVALID_OPERATION
   | StartRecording \<Rightarrow> reply h evt INVALID_OPERATION
   | StopRecording \<Rightarrow> reply h evt INVALID_OPERATION
   | PrepareSnapshot \<Rightarrow> reply h evt INVALID_OPERATION
   | TakePicture \<Rightarrow> reply h evt INVALID_OPERATION
   | CancelPicture \<Rightarrow> reply h evt INVALID_OPERATION
   | Release \<Rightarrow> reply h evt INVALID_OPERATION
   | EvtNotify ty \<Rightarrow> (case ty of
         CAM_EVENT_TYPE_DAEMON_DIED \<Rightarrow> notify_died h
       | _ \<Rightarrow> State_Monad.return NO_ERROR)
   | SnapshotDone \<Rightarrow> reply_evt evt NO_ERROR
   | ThermalNotify level \<Rightarrow> call_reply h evt (updateThermalLevel level)
   | _ \<Rightarrow> State_Monad.return NO_ERROR)"

definition procEvtPreviewReadyState_b :: "'p hwi \<Rightarrow> sm_event \<Rightarrow> 'p handler" where
  "procEvtPreviewReadyState_b h evt = (case evt of
     GetParams \<Rightarrow> get_params_reply h evt
   | PutParams p \<Rightarrow> call_reply h evt (putParameters p)
   | StartPreview \<Rightarrow> reply h evt NO_ERROR
   | StopPreview \<Rightarrow> do {
       hproc h unpreparePreview;
       set_state QCAMERA_SM_STATE_PREVIEW_STOPPED;
       reply h evt NO_ERROR }
   | PreviewEnabled \<Rightarrow> reply_flag h evt NO_ERROR 1
   | RecordingEnabled \<Rightarrow> reply_flag h evt NO_ERROR 0
   | StoreMetadataInBufs e \<Rightarrow> call_reply h evt (storeMetaDataInBuffers e)
   | Dump fd \<Rightarrow> call_reply h evt (dump fd)
   | StartAutoFocus \<Rightarrow> call_reply h evt autoFocus
   | StopAutoFocus \<Rightarrow> call_reply h evt cancelAutoFocus
   | SendCommand cmd arg1 arg2 \<Rightarrow> send_reply h evt cmd arg1 arg2
   | RegFaceImage img cfg \<Rightarrow> reg_face_reply h evt img cfg
   | _ \<Rightarrow> procEvtPreviewReadyState_c h evt)"

definition procEvtPreviewReadyState :: "'p hwi \<Rightarrow> sm_event \<Rightarrow> 'p handler" where
  "procEvtPreviewReadyState h evt = (case evt of
     SetPreviewWindow w \<Rightarrow> do {
       _ \<leftarrow> hcall h (setPreviewWindow w);
       window \<leftarrow> hquery h mPreviewWindow_set;
       rc \<leftarrow> (if window then do {
                rc \<leftarrow> hcall h startPreview;
                if rc \<noteq> NO_ERROR then do {
                  hproc h unpreparePreview;
                  set_state QCAMERA_SM_STATE_PREVIEW_STOPPED;
                  State_Monad.return rc }
                else do { set_state QCAMERA_SM_STATE_PREVIEWING; State_Monad.return rc } }
              else State_Monad.return NO_ERROR);
       reply h evt rc }
   | SetCallbacks cbs \<Rightarrow> call_reply h evt (setCallBacks cbs)
   | EnableMsgType m \<Rightarrow> call_reply h evt (enableMsgType m)
   | DisableMsgType m \<Rightarrow> call_reply h evt (disableMsgType m)
   | MsgTypeEnabled m \<Rightarrow> msg_enabled_reply h evt m
   | SetParams p \<Rightarrow> do {
       (rc, needRestart) \<leftarrow> update_params h p;
       rc \<leftarrow> (if rc = NO_ERROR then
                if needRestart then do {
                  hproc h unpreparePreview;
                  hproc h memoryPool_clear;
                  _ \<leftarrow> hcall h commitParameterChanges;
                  rc \<leftarrow> hcall h preparePreview;
                  if rc \<noteq> NO_ERROR then do { set_state QCAMERA_SM_STATE_PREVIEW_STOPPED; State_Monad.return rc }
                  else State_Monad.return rc }
                else hcall h commitParameterChanges
              else State_Monad.return rc);
       reply h evt rc }
   | _ \<Rightarrow> procEvtPreviewReadyState_b h evt)"

section \<open>PREVIEWING\<close>

text \<open>The events of the camera server while the preview runs; nearly the same switch in several states.\<close>

definition previewing_internal :: "'p hwi \<Rightarrow> qcamera_internal_evt \<Rightarrow> 'p handler" where
  "previewing_internal h e = (case e of
     QCAMERA_INTERNAL_EVT_FOCUS_UPDATE d \<Rightarrow> hcall h (processAutoFocusEvent d)
   | QCAMERA_INTERNAL_EVT_PREP_SNAPSHOT_DONE d \<Rightarrow> State_Monad.return NO_ERROR
   | QCAMERA_INTERNAL_EVT_FACE_DETECT_RESULT d \<Rightarrow> hcall h (processFaceDetectionResult d)
   | QCAMERA_INTERNAL_EVT_HISTOGRAM_STATS d \<Rightarrow> hcall h (processHistogramStats d)
   | QCAMERA_INTERNAL_EVT_CROP_INFO d \<Rightarrow> hcall h (processZoomEvent d)
   | QCAMERA_INTERNAL_EVT_ASD_UPDATE d \<Rightarrow> hcall h (processASDUpdate d)
   | QCAMERA_INTERNAL_EVT_AWB_UPDATE d \<Rightarrow> hcall h (processAWBUpdate d)
   | QCAMERA_INTERNAL_EVT_AE_UPDATE d \<Rightarrow> hcall h (processAEInfo d)
   | QCAMERA_INTERNAL_EVT_FOCUS_POS_UPDATE d \<Rightarrow> hcall h (processFocusPositionInfo d)
   | _ \<Rightarrow> State_Monad.return NO_ERROR)"

definition procEvtPreviewingState_c :: "'p hwi \<Rightarrow> sm_event \<Rightarrow> 'p handler" where
  "procEvtPreviewingState_c h evt = (case evt of
     SendCommand cmd arg1 arg2 \<Rightarrow> do {
       (rc, arg1') \<leftarrow> send_cmd h cmd arg1 arg2;
       rc \<leftarrow> (if cmd = CAMERA_CMD_LONGSHOT_ON \<and> arg1' = RESTART_PERVIEW_num then do {
                _ \<leftarrow> hcall h stopPreview;
                hproc h memoryPool_clear;
                prepare_start h }
              else State_Monad.return rc);
       reply h evt rc }
   | RegFaceImage img cfg \<Rightarrow> reg_face_reply h evt img cfg
   | ReleaseRecordingFrame p \<Rightarrow> do {
       _ \<leftarrow> hcall h (closeNativeHandle p);
       reply h evt INVALID_OPERATION }
   | CancelPicture \<Rightarrow> reply h evt INVALID_OPERATION
   | StopRecording \<Rightarrow> reply h evt INVALID_OPERATION
   | Release \<Rightarrow> reply h evt INVALID_OPERATION
   | EvtInternal e \<Rightarrow> previewing_internal h e
   | EvtNotify ty \<Rightarrow> (case ty of
         CAM_EVENT_TYPE_DAEMON_DIED \<Rightarrow> notify_died h
       | _ \<Rightarrow> State_Monad.return NO_ERROR)
   | ThermalNotify level \<Rightarrow> call_reply h evt (updateThermalLevel level)
   | SnapshotDone \<Rightarrow> reply_evt evt NO_ERROR
   | _ \<Rightarrow> State_Monad.return NO_ERROR)"

text \<open>The two halves of \<open>TAKE_PICTURE\<close>: leave the recording mode, then enter a capture state and take the picture.\<close>

definition drop_recording_hint :: "'p hwi \<Rightarrow> 'p handler" where
  "drop_recording_hint h = do {
     hint \<leftarrow> hquery h getRecordingHintValue;
     if hint then do {
       _ \<leftarrow> hcall h stopPreview;
       _ \<leftarrow> hcall h (updateRecordingHintValue False);
       prepare_start h }
     else State_Monad.return NO_ERROR }"

definition begin_capture :: "'p hwi \<Rightarrow> 'p handler" where
  "begin_capture h = do {
     zsl \<leftarrow> hquery h isZSLMode;
     longshot \<leftarrow> hquery h isLongshotEnabled;
     if zsl \<or> longshot then do {
       set_state QCAMERA_SM_STATE_PREVIEW_PIC_TAKING;
       rc \<leftarrow> hcall h takePicture;
       (if rc \<noteq> NO_ERROR then set_state QCAMERA_SM_STATE_PREVIEWING else State_Monad.return ());
       State_Monad.return rc }
     else do {
       set_state QCAMERA_SM_STATE_PIC_TAKING;
       rc \<leftarrow> hcall h takePicture;
       (if rc \<noteq> NO_ERROR then set_state QCAMERA_SM_STATE_PREVIEW_STOPPED else State_Monad.return ());
       State_Monad.return rc } }"

definition procEvtPreviewingState_b :: "'p hwi \<Rightarrow> sm_event \<Rightarrow> 'p handler" where
  "procEvtPreviewingState_b h evt = (case evt of
     StartPreview \<Rightarrow> reply h evt NO_ERROR
   | StartNodisplayPreview \<Rightarrow> reply h evt NO_ERROR
   | StopPreview \<Rightarrow> do {
       rc \<leftarrow> hcall h stopPreview;
       set_state QCAMERA_SM_STATE_PREVIEW_STOPPED;
       reply h evt rc }
   | PreviewEnabled \<Rightarrow> reply_flag h evt NO_ERROR 1
   | RecordingEnabled \<Rightarrow> reply_flag h evt NO_ERROR 0
   | StoreMetadataInBufs e \<Rightarrow> call_reply h evt (storeMetaDataInBuffers e)
   | Dump fd \<Rightarrow> call_reply h evt (dump fd)
   | StartAutoFocus \<Rightarrow> call_reply h evt autoFocus
   | StopAutoFocus \<Rightarrow> call_reply h evt cancelAutoFocus
   | StartRecording \<Rightarrow> do {
       rc \<leftarrow> hcall h startRecording;
       (if rc = NO_ERROR then set_state QCAMERA_SM_STATE_RECORDING else State_Monad.return ());
       reply h evt rc }
   | PrepareSnapshot \<Rightarrow> do {
       rc \<leftarrow> hcall h (prepareHardwareForSnapshot False);
       if rc = NO_ERROR then do { set_state QCAMERA_SM_STATE_PREPARE_SNAPSHOT; State_Monad.return rc }
       else reply h evt rc }
   | TakePicture \<Rightarrow> do {
       _ \<leftarrow> drop_recording_hint h;
       rc \<leftarrow> begin_capture h;
       reply h evt rc }
   | _ \<Rightarrow> procEvtPreviewingState_c h evt)"

definition procEvtPreviewingState :: "'p hwi \<Rightarrow> sm_event \<Rightarrow> 'p handler" where
  "procEvtPreviewingState h evt = (case evt of
     SetPreviewWindow w \<Rightarrow> reply h evt INVALID_OPERATION
   | SetCallbacks cbs \<Rightarrow> call_reply h evt (setCallBacks cbs)
   | EnableMsgType m \<Rightarrow> call_reply h evt (enableMsgType m)
   | DisableMsgType m \<Rightarrow> call_reply h evt (disableMsgType m)
   | MsgTypeEnabled m \<Rightarrow> msg_enabled_reply h evt m
   | SetParams p \<Rightarrow> do {
       (rc, needRestart) \<leftarrow> update_params h p;
       rc \<leftarrow> (if rc = NO_ERROR then
                if needRestart then do {
                  _ \<leftarrow> hcall h stopPreview;
                  hproc h memoryPool_clear;
                  _ \<leftarrow> hcall h commitParameterChanges;
                  rc \<leftarrow> prepare_start h;
                  (if rc \<noteq> NO_ERROR then set_state QCAMERA_SM_STATE_PREVIEW_STOPPED else State_Monad.return ());
                  State_Monad.return rc }
                else hcall h commitParameterChanges
              else State_Monad.return rc);
       reply h evt rc }
   | GetParams \<Rightarrow> get_params_reply h evt
   | PutParams p \<Rightarrow> call_reply h evt (putParameters p)
   | _ \<Rightarrow> procEvtPreviewingState_b h evt)"

section \<open>PREPARE\_SNAPSHOT\<close>

definition prepareSnapshot_internal :: "'p hwi \<Rightarrow> qcamera_internal_evt \<Rightarrow> 'p handler" where
  "prepareSnapshot_internal h e = (case e of
     QCAMERA_INTERNAL_EVT_FOCUS_UPDATE d \<Rightarrow> hcall h (processAutoFocusEvent d)
   | QCAMERA_INTERNAL_EVT_PREP_SNAPSHOT_DONE d \<Rightarrow> do {
       _ \<leftarrow> hcall h (processPrepSnapshotDoneEvent d);
       set_state QCAMERA_SM_STATE_PREVIEWING;
       reply h PrepareSnapshot NO_ERROR }
   | QCAMERA_INTERNAL_EVT_FACE_DETECT_RESULT d \<Rightarrow> hcall h (processFaceDetectionResult d)
   | QCAMERA_INTERNAL_EVT_HISTOGRAM_STATS d \<Rightarrow> hcall h (processHistogramStats d)
   | QCAMERA_INTERNAL_EVT_CROP_INFO d \<Rightarrow> hcall h (processZoomEvent d)
   | QCAMERA_INTERNAL_EVT_ASD_UPDATE d \<Rightarrow> hcall h (processASDUpdate d)
   | QCAMERA_INTERNAL_EVT_AWB_UPDATE d \<Rightarrow> hcall h (processAWBUpdate d)
   | QCAMERA_INTERNAL_EVT_AE_UPDATE d \<Rightarrow> hcall h (processAEInfo d)
   | QCAMERA_INTERNAL_EVT_FOCUS_POS_UPDATE d \<Rightarrow> hcall h (processFocusPositionInfo d)
   | _ \<Rightarrow> State_Monad.return NO_ERROR)"

definition procEvtPrepareSnapshotState :: "'p hwi \<Rightarrow> sm_event \<Rightarrow> 'p handler" where
  "procEvtPrepareSnapshotState h evt = (case evt of
     EvtInternal e \<Rightarrow> prepareSnapshot_internal h e
   | EvtNotify ty \<Rightarrow> (case ty of
         CAM_EVENT_TYPE_DAEMON_DIED \<Rightarrow> notify_died h
       | _ \<Rightarrow> State_Monad.return NO_ERROR)
   | SnapshotDone \<Rightarrow> reply_evt evt NO_ERROR
   | ThermalNotify level \<Rightarrow> call_reply h evt (updateThermalLevel level)
   | JpegEvtNotify j \<Rightarrow> State_Monad.return NO_ERROR
   | RegFaceImage img cfg \<Rightarrow> State_Monad.return NO_ERROR
   | StopCaptureChannel \<Rightarrow> State_Monad.return NO_ERROR
   | RestartPreview \<Rightarrow> State_Monad.return NO_ERROR
   | _ \<Rightarrow> reply h evt INVALID_OPERATION)"

end
