(* ===== verification/SMCaptureStates.thy ===== *)
theory SMCaptureStates
  imports SMIdleStates
begin

text \<open>
  The handlers of the states in which a picture is taken or a video is recorded:
  \<open>procEvtPicTakingState\<close>, \<open>procEvtRecordingState\<close>, \<open>procEvtVideoPicTakingState\<close> and
  \<open>procEvtPreviewPicTakingState\<close> of camera/QCamera2/HAL/QCameraStateMachine.cpp, and the entry function
  \<open>stateMachine\<close> that picks the handler of the current state.
\<close>

section \<open>PIC\_TAKING\<close>

definition picTaking_internal :: "'p hwi \<Rightarrow> qcamera_internal_evt \<Rightarrow> 'p handler" where
  "picTaking_internal h e = (case e of
     QCAMERA_INTERNAL_EVT_FOCUS_UPDATE d \<Rightarrow> hcall h (processAutoFocusEvent d)
   | QCAMERA_INTERNAL_EVT_CROP_INFO d \<Rightarrow> hcall h (processZoomEvent d)
   | QCAMERA_INTERNAL_EVT_ASD_UPDATE d \<Rightarrow> hcall h (processASDUpdate d)
   | QCAMERA_INTERNAL_EVT_AWB_UPDATE d \<Rightarrow> hcall h (processAWBUpdate d)
   | QCAMERA_INTERNAL_EVT_AE_UPDATE d \<Rightarrow> hcall h (processAEInfo d)
   | QCAMERA_INTERNAL_EVT_FOCUS_POS_UPDATE d \<Rightarrow> hcall h (processFocusPositionInfo d)
   | _ \<Rightarrow> State_Monad.return NO_ERROR)"

definition procEvtPicTakingState_c :: "'p hwi \<Rightarrow> sm_event \<Rightarrow> 'p handler" where
  "procEvtPicTakingState_c h evt = (case evt of
     EvtInternal e \<Rightarrow> picTaking_internal h e
   | EvtNotify ty \<Rightarrow> (case ty of
         CAM_EVENT_TYPE_REPROCESS_STAGE_DONE \<Rightarrow> do {
           longshot \<leftarrow> hquery h isLongshotEnabled;
           (if longshot then do {
              multi \<leftarrow> hquery h getMultipleStages;
              (if \<not> multi then hproc h (setMultipleStages True) else State_Monad.return ());
              hproc h playShutter }
            else State_Monad.return ());
           State_Monad.return NO_ERROR }
       | CAM_EVENT_TYPE_DAEMON_DIED \<Rightarrow> notify_died h
       | _ \<Rightarrow> State_Monad.return NO_ERROR)
   | JpegEvtNotify j \<Rightarrow> hcall h (processJpegNotify j)
   | StopCaptureChannel \<Rightarrow> do {
       restartPreview \<leftarrow> hquery h isPreviewRestartEnabled;
       rc \<leftarrow> hcall h (stopCaptureChannel restartPreview);
       if restartPreview \<and> rc = NO_ERROR then do {
         rc \<leftarrow> hcall h preparePreview;
         if rc = NO_ERROR then do {
           hproc h (set_bPreviewStarted True);
           hcall h startPreview }
         else State_Monad.return rc }
       else State_Monad.return rc }
   | SnapshotDone \<Rightarrow> do {
       rc \<leftarrow> hcall h cancelPicture;
       restartPreview \<leftarrow> hquery h isPreviewRestartEnabled;
       set_state (if restartPreview then QCAMERA_SM_STATE_PREVIEWING else QCAMERA_SM_STATE_PREVIEW_STOPPED);
       reply_evt evt rc }
   | ThermalNotify level \<Rightarrow> call_reply h evt (updateThermalLevel level)
   | _ \<Rightarrow> State_Monad.return NO_ERROR)"

definition procEvtPicTakingState_b :: "'p hwi \<Rightarrow> sm_event \<Rightarrow> 'p handler" where
  "procEvtPicTakingState_b h evt = (case evt of
     StopPreview \<Rightarrow> do {
       rc \<leftarrow> hcall h cancelPicture;
       set_state QCAMERA_SM_STATE_PREVIEW_STOPPED;
       reply h evt rc }
   | PreviewEnabled \<Rightarrow> reply_flag h evt NO_ERROR 0
   | RecordingEnabled \<Rightarrow> reply_flag h evt NO_ERROR 0
   | StoreMetadataInBufs e \<Rightarrow> call_reply h evt (storeMetaDataInBuffers e)
   | Dump fd \<Rightarrow> call_reply h evt (dump fd)
   | StartAutoFocus \<Rightarrow> call_reply h evt autoFocus
   | StopAutoFocus \<Rightarrow> call_reply h evt cancelAutoFocus
   | SendCommand cmd arg1 arg2 \<Rightarrow> do {
       (rc, arg1') \<leftarrow> send_cmd h cmd arg1 arg2;
       (if cmd = CAMERA_CMD_LONGSHOT_OFF then set_state QCAMERA_SM_STATE_PREVIEWING else State_Monad.return ());
       reply h evt rc }
   | CancelPicture \<Rightarrow> do {
       rc \<leftarrow> hcall h cancelPicture;
       set_state QCAMERA_SM_STATE_PREVIEW_STOPPED;
       reply h evt rc }
   | RegFaceImage img cfg \<Rightarrow> reg_face_reply h evt img cfg
   | TakePicture \<Rightarrow> do {
       longshot \<leftarrow> hquery h isLongshotEnabled;
       rc \<leftarrow> (if longshot then hcall h longShot else State_Monad.return INVALID_OPERATION);
       reply h evt rc }
   | PrepareSnapshot \<Rightarrow> reply h evt INVALID_OPERATION
   | StartRecording \<Rightarrow> reply h evt INVALID_OPERATION
   | StopRecording \<Rightarrow> reply h evt INVALID_OPERATION
   | ReleaseRecordingFrame p \<Rightarrow> reply h evt INVALID_OPERATION
   | StartPreview \<Rightarrow> reply h evt INVALID_OPERATION
   | StartNodisplayPreview \<Rightarrow> reply h evt INVALID_OPERATION
   | Release \<Rightarrow> reply h evt INVALID_OPERATION
   | _ \<Rightarrow> procEvtPicTakingState_c h evt)"

definition procEvtPicTakingState :: "'p hwi \<Rightarrow> sm_event \<Rightarrow> 'p handler" where
  "procEvtPicTakingState h evt = (case evt of
     SetPreviewWindow w \<Rightarrow> reply h evt INVALID_OPERATION
   | SetCallbacks cbs \<Rightarrow> call_reply h evt (setCallBacks cbs)
   | EnableMsgType m \<Rightarrow> call_reply h evt (enableMsgType m)
   | DisableMsgType m \<Rightarrow> call_reply h evt (disableMsgType m)
   | MsgTypeEnabled m \<Rightarrow> msg_enabled_reply h evt m
   | SetParams p \<Rightarrow> do {
       (rc, needRestart) \<leftarrow> update_params h p;
       rc \<leftarrow> (if rc = NO_ERROR then hcall h commitParameterChanges else State_Monad.return rc);
       reply h evt rc }
   | GetParams \<Rightarrow> get_params_reply h evt
   | PutParams p \<Rightarrow> call_reply h evt (putParameters p)
   | _ \<Rightarrow> procEvtPicTakingState_b h evt)"

section \<open>RECORDING\<close>

definition recording_internal :: "'p hwi \<Rightarrow> qcamera_internal_evt \<Rightarrow> 'p handler" where
  "recording_internal h e = (case e of
     QCAMERA_INTERNAL_EVT_FOCUS_UPDATE d \<Rightarrow> hcall h (processAutoFocusEvent d)
   | QCAMERA_INTERNAL_EVT_FACE_DETECT_RESULT d \<Rightarrow> hcall h (processFaceDetectionResult d)
   | QCAMERA_INTERNAL_EVT_HISTOGRAM_STATS d \<Rightarrow> hcall h (processHistogramStats d)
   | QCAMERA_INTERNAL_EVT_CROP_INFO d \<Rightarrow> hcall h (processZoomEvent d)
   | QCAMERA_INTERNAL_EVT_ASD_UPDATE d \<Rightarrow> hcall h (processASDUpdate d)
   | QCAMERA_INTERNAL_EVT_AWB_UPDATE d \<Rightarrow> hcall h (processAWBUpdate d)
   | QCAMERA_INTERNAL_EVT_AE_UPDATE d \<Rightarrow> hcall h (processAEInfo d)
   | QCAMERA_INTERNAL_EVT_FOCUS_POS_UPDATE d \<Rightarrow> hcall h (processFocusPositionInfo d)
   | _ \<Rightarrow> State_Monad.return NO_ERROR)"

definition procEvtRecordingState_c :: "'p hwi \<Rightarrow> sm_event \<Rightarrow> 'p handler" where
  "procEvtRecordingState_c h evt = (case evt of
     StopRecording \<Rightarrow> do {
       rc \<leftarrow> hcall h stopRecording;
       set_state QCAMERA_SM_STATE_PREVIEWING;
       reply h evt rc }
   | StopPreview \<Rightarrow> do {
       _ \<leftarrow> hcall h stopRecording;
       set_state QCAMERA_SM_STATE_PREVIEWING;
       rc \<leftarrow> hcall h stopPreview;
       set_state QCAMERA_SM_STATE_PREVIEW_STOPPED;
       reply h evt rc }
   | ReleaseRecordingFrame p \<Rightarrow> call_reply h evt (releaseRecordingFrame p)
   | RegFaceImage img cfg \<Rightarrow> reg_face_reply h evt img cfg
   | PrepareSnapshot \<Rightarrow> reply h evt NO_ERROR
   | CancelPicture \<Rightarrow> reply h evt INVALID_OPERATION
   | StartNodisplayPreview \<Rightarrow> reply h evt INVALID_OPERATION
   | Release \<Rightarrow> reply h evt INVALID_OPERATION
   | EvtInternal e \<Rightarrow> recording_internal h e
   | EvtNotify ty \<Rightarrow> (case ty of
         CAM_EVENT_TYPE_DAEMON_DIED \<Rightarrow> notify_died h
       | _ \<Rightarrow> State_Monad.return NO_ERROR)
   | ThermalNotify level \<Rightarrow> call_reply h evt (updateThermalLevel level)
   | SnapshotDone \<Rightarrow> reply_evt evt NO_ERROR
   | _ \<Rightarrow> State_Monad.return NO_ERROR)"

definition procEvtRecordingState_b :: "'p hwi \<Rightarrow> sm_event \<Rightarrow> 'p handler" where
  "procEvtRecordingState_b h evt = (case evt of
     PreviewEnabled \<Rightarrow> reply_flag h evt NO_ERROR 0
   | RecordingEnabled \<Rightarrow> reply_flag h evt NO_ERROR 1
   | StoreMetadataInBufs e \<Rightarrow> call_reply h evt (storeMetaDataInBuffers e)
   | Dump fd \<Rightarrow> call_reply h evt (dump fd)
   | StartAutoFocus \<Rightarrow> call_reply h evt autoFocus
   | StopAutoFocus \<Rightarrow> call_reply h evt cancelAutoFocus
   | SendCommand cmd arg1 arg2 \<Rightarrow> send_reply h evt cmd arg1 arg2
   | TakePicture \<Rightarrow> do {
       set_state QCAMERA_SM_STATE_VIDEO_PIC_TAKING;
       rc \<leftarrow> hcall h takeLiveSnapshot;
       (if rc \<noteq> NO_ERROR then set_state QCAMERA_SM_STATE_RECORDING else State_Monad.return ());
       reply h evt rc }
   | StartRecording \<Rightarrow> reply h evt NO_ERROR
   | _ \<Rightarrow> procEvtRecordingState_c h evt)"

text \<open>Parameters that need a restart are refused while recording.\<close>

definition set_params_no_restart :: "'p hwi \<Rightarrow> sm_event \<Rightarrow> ptr \<Rightarrow> 'p handler" where
  "set_params_no_restart h evt p = do {
     (rc, needRestart) \<leftarrow> update_params h p;
     rc \<leftarrow> (if rc = NO_ERROR then
              if needRestart then State_Monad.return BAD_VALUE else hcall h commitParameterChanges
            else State_Monad.return rc);
     reply h evt rc }"

definition procEvtRecordingState :: "'p hwi \<Rightarrow> sm_event \<Rightarrow> 'p handler" where
  "procEvtRecordingState h evt = (case evt of
     StartPreview \<Rightarrow> reply h evt NO_ERROR
   | SetPreviewWindow w \<Rightarrow> reply h evt NO_ERROR
   | SetCallbacks cbs \<Rightarrow> call_reply h evt (setCallBacks cbs)
   | EnableMsgType m \<Rightarrow> call_reply h evt (enableMsgType m)
   | DisableMsgType m \<Rightarrow> call_reply h evt (disableMsgType m)
   | MsgTypeEnabled m \<Rightarrow> msg_enabled_reply h evt m
   | SetParams p \<Rightarrow> set_params_no_restart h evt p
   | GetParams \<Rightarrow> get_params_reply h evt
   | PutParams p \<Rightarrow> call_reply h evt (putParameters p)
   | _ \<Rightarrow> procEvtRecordingState_b h evt)"

section \<open>VIDEO\_PIC\_TAKING\<close>

definition procEvtVideoPicTakingState_c :: "'p hwi \<Rightarrow> sm_event \<Rightarrow> 'p handler" where
  "procEvtVideoPicTakingState_c h evt = (case evt of
     StopPreview \<Rightarrow> do {
       _ \<leftarrow> hcall h cancelLiveSnapshot;
       set_state QCAMERA_SM_STATE_RECORDING;
       _ \<leftarrow> hcall h stopRecording;
       set_state QCAMERA_SM_STATE_PREVIEWING;
       rc \<leftarrow> hcall h stopPreview;
       set_state QCAMERA_SM_STATE_PREVIEW_STOPPED;
       reply h evt rc }
   | StartRecording \<Rightarrow> reply h evt INVALID_OPERATION
   | StartPreview \<Rightarrow> reply h evt INVALID_OPERATION
   | StartNodisplayPreview \<Rightarrow> reply h evt INVALID_OPERATION
   | PrepareSnapshot \<Rightarrow> reply h evt INVALID_OPERATION
   | TakePicture \<Rightarrow> reply h evt INVALID_OPERATION
   | Release \<Rightarrow> reply h evt INVALID_OPERATION
   | EvtInternal e \<Rightarrow> recording_internal h e
   | EvtNotify ty \<Rightarrow> (case ty of
         CAM_EVENT_TYPE_DAEMON_DIED \<Rightarrow> notify_died h
       | _ \<Rightarrow> State_Monad.return NO_ERROR)
   | JpegEvtNotify j \<Rightarrow> hcall h (processJpegNotify j)
   | SnapshotDone \<Rightarrow> do {
       rc \<leftarrow> hcall h cancelLiveSnapshot;
       set_state QCAMERA_SM_STATE_RECORDING;
       reply_evt evt rc }
   | ThermalNotify level \<Rightarrow> call_reply h evt (updateThermalLevel level)
   | _ \<Rightarrow> State_Monad.return NO_ERROR)"

definition procEvtVideoPicTakingState_b :: "'p hwi \<Rightarrow> sm_event \<Rightarrow> 'p handler" where
  "procEvtVideoPicTakingState_b h evt = (case evt of
     PreviewEnabled \<Rightarrow> reply_flag h evt NO_ERROR 1
   | RecordingEnabled \<Rightarrow> reply_flag h evt NO_ERROR 1
   | StoreMetadataInBufs e \<Rightarrow> call_reply h evt (storeMetaDataInBuffers e)
   | Dump fd \<Rightarrow> call_reply h evt (dump fd)
   | StartAutoFocus \<Rightarrow> call_reply h evt autoFocus
   | StopAutoFocus \<Rightarrow> call_reply h evt cancelAutoFocus
   | SendCommand cmd arg1 arg2 \<Rightarrow> send_reply h evt cmd arg1 arg2
   | StopRecording \<Rightarrow> do {
       _ \<leftarrow> hcall h cancelLiveSnapshot;
       set_state QCAMERA_SM_STATE_RECORDING;
       rc \<leftarrow> hcall h stopRecording;
       set_state QCAMERA_SM_STATE_PREVIEWING;
       reply h evt rc }
   | ReleaseRecordingFrame p \<Rightarrow> call_reply h evt (releaseRecordingFrame p)
   | CancelPicture \<Rightarrow> do {
       rc \<leftarrow> hcall h cancelLiveSnapshot;
       set_state QCAMERA_SM_STATE_RECORDING;
       reply h evt rc }
   | RegFaceImage img cfg \<Rightarrow> reg_face_reply h evt img cfg
   | _ \<Rightarrow> procEvtVideoPicTakingState_c h evt)"

definition procEvtVideoPicTakingState :: "'p hwi \<Rightarrow> sm_event \<Rightarrow> 'p handler" where
  "procEvtVideoPicTakingState h evt = (case evt of
     SetPreviewWindow w \<Rightarrow> reply h evt INVALID_OPERATION
   | SetCallbacks cbs \<Rightarrow> call_reply h evt (setCallBacks cbs)
   | EnableMsgType m \<Rightarrow> call_reply h evt (enableMsgType m)
   | DisableMsgType m \<Rightarrow> call_reply h evt (disableMsgType m)
   | MsgTypeEnabled m \<Rightarrow> msg_enabled_reply h evt m
   | SetParams p \<Rightarrow> set_params_no_restart h evt p
   | GetParams \<Rightarrow> get_params_reply h evt
   | PutParams p \<Rightarrow> call_reply h evt (putParameters p)
   | _ \<Rightarrow> procEvtVideoPicTakingState_b h evt)"

section \<open>PREVIEW\_PIC\_TAKING\<close>

definition previewPicTaking_internal :: "'p hwi \<Rightarrow> qcamera_internal_evt \<Rightarrow> 'p handler" where
  "previewPicTaking_internal h e = (case e of
     QCAMERA_INTERNAL_EVT_FOCUS_UPDATE d \<Rightarrow> hcall h (processAutoFocusEvent d)
   | QCAMERA_INTERNAL_EVT_FACE_DETECT_RESULT d \<Rightarrow> hcall h (processFaceDetectionResult d)
   | QCAMERA_INTERNAL_EVT_HISTOGRAM_STATS d \<Rightarrow> hcall h (processHistogramStats d)
   | QCAMERA_INTERNAL_EVT_CROP_INFO d \<Rightarrow> hcall h (processZoomEvent d)
   | QCAMERA_INTERNAL_EVT_ASD_UPDATE d \<Rightarrow> hcall h (processASDUpdate d)
   | QCAMERA_INTERNAL_EVT_AWB_UPDATE d \<Rightarrow> hcall h (processAWBUpdate d)
   | QCAMERA_INTERNAL_EVT_AE_UPDATE d \<Rightarrow> hcall h (processAEInfo d)
   | QCAMERA_INTERNAL_EVT_FOCUS_POS_UPDATE d \<Rightarrow> hcall h (processFocusPositionInfo d)
   | QCAMERA_INTERNAL_EVT_RESET_FRAME_ID d \<Rightarrow> hcall h (processFrameIDReset d)
   | _ \<Rightarrow> State_Monad.return NO_ERROR)"

text \<open>A ZSL or longshot capture is cancelled by \<open>cancelPicture\<close>, a live snapshot by \<open>cancelLiveSnapshot\<close>.\<close>

definition cancel_capture :: "'p hwi \<Rightarrow> 'p handler" where
  "cancel_capture h = do {
     zsl \<leftarrow> hquery h isZSLMode;
     longshot \<leftarrow> hquery h isLongshotEnabled;
     hcall h (if zsl \<or> longshot then cancelPicture else cancelLiveSnapshot) }"

definition procEvtPreviewPicTakingState_c :: "'p hwi \<Rightarrow> sm_event \<Rightarrow> 'p handler" where
  "procEvtPreviewPicTakingState_c h evt = (case evt of
     RegFaceImage img cfg \<Rightarrow> reg_face_reply h evt img cfg
   | TakePicture \<Rightarrow> do {
       longshot \<leftarrow> hquery h isLongshotEnabled;
       rc \<leftarrow> (if longshot then hcall h longShot else State_Monad.return INVALID_OPERATION);
       reply h evt rc }
   | PrepareSnapshot \<Rightarrow> reply h evt INVALID_OPERATION
   | StopRecording \<Rightarrow> reply h evt INVALID_OPERATION
   | StartPreview \<Rightarrow> reply h evt INVALID_OPERATION
   | StartNodisplayPreview \<Rightarrow> reply h evt INVALID_OPERATION
   | SetPreviewWindow w \<Rightarrow> reply h evt INVALID_OPERATION
   | Release \<Rightarrow> reply h evt INVALID_OPERATION
   | EvtInternal e \<Rightarrow> previewPicTaking_internal h e
   | EvtNotify ty \<Rightarrow> (case ty of
         CAM_EVENT_TYPE_REPROCESS_STAGE_DONE \<Rightarrow> do {
           longshot \<leftarrow> hquery h isLongshotEnabled;
           (if longshot then do {
              multi \<leftarrow> hquery h getMultipleStages;
              (if \<not> multi then hproc h (setMultipleStages True) else State_Monad.return ());
              limited \<leftarrow> hquery h isLongshotSnapLimited;
              shutter \<leftarrow> hquery h isCaptureShutterEnabled;
              (if \<not> limited \<and> \<not> shutter then hproc h playShutter else State_Monad.return ()) }
            else State_Monad.return ());
           State_Monad.return NO_ERROR }
       | CAM_EVENT_TYPE_DAEMON_DIED \<Rightarrow> notify_died h
       | _ \<Rightarrow> State_Monad.return NO_ERROR)
   | JpegEvtNotify j \<Rightarrow> hcall h (processJpegNotify j)
   | SnapshotDone \<Rightarrow> do {
       rc \<leftarrow> cancel_capture h;
       set_state QCAMERA_SM_STATE_PREVIEWING;
       reply_evt evt rc }
   | ThermalNotify level \<Rightarrow> call_reply h evt (updateThermalLevel level)
   | _ \<Rightarrow> State_Monad.return NO_ERROR)"

definition procEvtPreviewPicTakingState_b :: "'p hwi \<Rightarrow> sm_event \<Rightarrow> 'p handler" where
  "procEvtPreviewPicTakingState_b h evt = (case evt of
     PreviewEnabled \<Rightarrow> reply_flag h evt NO_ERROR 1
   | RecordingEnabled \<Rightarrow> reply_flag h evt NO_ERROR 0
   | StoreMetadataInBufs e \<Rightarrow> call_reply h evt (storeMetaDataInBuffers e)
   | Dump fd \<Rightarrow> call_reply h evt (dump fd)
   | StartAutoFocus \<Rightarrow> call_reply h evt autoFocus
   | StopAutoFocus \<Rightarrow> call_reply h evt cancelAutoFocus
   | SendCommand cmd arg1 arg2 \<Rightarrow> do {
       (rc, arg1') \<leftarrow> send_cmd h cmd arg1 arg2;
       (if cmd = CAMERA_CMD_LONGSHOT_OFF then set_state QCAMERA_SM_STATE_PREVIEWING else State_Monad.return ());
       reply h evt rc }
   | ReleaseRecordingFrame p \<Rightarrow> call_reply h evt (releaseRecordingFrame p)
   | CancelPicture \<Rightarrow> do {
       rc \<leftarrow> cancel_capture h;
       set_state QCAMERA_SM_STATE_PREVIEWING;
       reply h evt rc }
   | StopPreview \<Rightarrow> do {
       zsl \<leftarrow> hquery h isZSLMode;
       longshot \<leftarrow> hquery h isLongshotEnabled;
       rc \<leftarrow> (if zsl then do {
                rc \<leftarrow> hcall h cancelPicture;
                _ \<leftarrow> hcall h (stopChannel QCAMERA_CH_TYPE_ZSL);
                State_Monad.return rc }
              else if longshot then hcall h cancelPicture
              else do {
                rc \<leftarrow> hcall h cancelLiveSnapshot;
                _ \<leftarrow> hcall h (stopChannel QCAMERA_CH_TYPE_PREVIEW);
                State_Monad.return rc });
       hproc h unpreparePreview;
       set_state QCAMERA_SM_STATE_PREVIEW_STOPPED;
       reply h evt rc }
   | StartRecording \<Rightarrow> do {
       zsl \<leftarrow> hquery h isZSLMode;
       longshot \<leftarrow> hquery h isLongshotEnabled;
       rc \<leftarrow> (if zsl \<or> longshot then State_Monad.return INVALID_OPERATION
              else do {
                rc \<leftarrow> hcall h startRecording;
                (if rc = NO_ERROR then set_state QCAMERA_SM_STATE_VIDEO_PIC_TAKING else State_Monad.return ());
                State_Monad.return rc });
       reply h evt rc }
   | _ \<Rightarrow> procEvtPreviewPicTakingState_c h evt)"

definition procEvtPreviewPicTakingState :: "'p hwi \<Rightarrow> sm_event \<Rightarrow> 'p handler" where
  "procEvtPreviewPicTakingState h evt = (case evt of
     SetCallbacks cbs \<Rightarrow> call_reply h evt (setCallBacks cbs)
   | EnableMsgType m \<Rightarrow> call_reply h evt (enableMsgType m)
   | DisableMsgType m \<Rightarrow> call_reply h evt (disableMsgType m)
   | MsgTypeEnabled m \<Rightarrow> msg_enabled_reply h evt m
   | SetParams p \<Rightarrow> do {
       (rc, needRestart) \<leftarrow> update_params h p;
       rc \<leftarrow> (if rc = NO_ERROR then
                if needRestart then do {
                  _ \<leftarrow> hcall h stopPreview;
                  hproc h memoryPool_clear;
                  _ \<leftarrow> hcall h commitParameterChanges;
                  rc \<leftarrow> prepare_start h;
                  (if rc \<noteq> NO_ERROR then set_state QCAMERA_SM_STATE_PIC_TAKING else State_Monad.return ());
                  State_Monad.return rc }
                else hcall h commitParameterChanges
              else State_Monad.return rc);
       reply h evt rc }
   | GetParams \<Rightarrow> get_params_reply h evt
   | PutParams p \<Rightarrow> call_reply h evt (putParameters p)
   | _ \<Rightarrow> procEvtPreviewPicTakingState_b h evt)"

section \<open>The entry function and the queries on the state\<close>

definition procEvtOf :: "'p hwi \<Rightarrow> qcamera_state_enum_t \<Rightarrow> sm_event \<Rightarrow> 'p handler" where
  "procEvtOf h st evt = (case st of
     QCAMERA_SM_STATE_PREVIEW_STOPPED \<Rightarrow> procEvtPreviewStoppedState h evt
   | QCAMERA_SM_STATE_PREVIEW_READY \<Rightarrow> procEvtPreviewReadyState h evt
   | QCAMERA_SM_STATE_PREVIEWING \<Rightarrow> procEvtPreviewingState h evt
   | QCAMERA_SM_STATE_PREPARE_SNAPSHOT \<Rightarrow> procEvtPrepareSnapshotState h evt
   | QCAMERA_SM_STATE_PIC_TAKING \<Rightarrow> procEvtPicTakingState h evt
   | QCAMERA_SM_STATE_RECORDING \<Rightarrow> procEvtRecordingState h evt
   | QCAMERA_SM_STATE_VIDEO_PIC_TAKING \<Rightarrow> procEvtVideoPicTakingState h evt
   | QCAMERA_SM_STATE_PREVIEW_PIC_TAKING \<Rightarrow> procEvtPreviewPicTakingState h evt)"

definition stateMachine :: "'p hwi \<Rightarrow> sm_event \<Rightarrow> 'p handler" where
  "stateMachine h evt = do { s \<leftarrow> State_Monad.get; procEvtOf h (m_state s) evt }"

definition isPreviewRunning :: "qcamera_state_enum_t \<Rightarrow> bool" where
  "isPreviewRunning st = (case st of
     QCAMERA_SM_STATE_PREVIEWING \<Rightarrow> True
   | QCAMERA_SM_STATE_RECORDING \<Rightarrow> True
   | QCAMERA_SM_STATE_VIDEO_PIC_TAKING \<Rightarrow> True
   | QCAMERA_SM_STATE_PREVIEW_PIC_TAKING \<Rightarrow> True
   | QCAMERA_SM_STATE_PREPARE_SNAPSHOT \<Rightarrow> True
   | QCAMERA_SM_STATE_PREVIEW_READY \<Rightarrow> True
   | _ \<Rightarrow> False)"

definition isCaptureRunning :: "qcamera_state_enum_t \<Rightarrow> bool" where
  "isCaptureRunning st = (case st of
     QCAMERA_SM_STATE_PIC_TAKING \<Rightarrow> True
   | QCAMERA_SM_STATE_VIDEO_PIC_TAKING \<Rightarrow> True
   | QCAMERA_SM_STATE_PREVIEW_PIC_TAKING \<Rightarrow> True
   | _ \<Rightarrow> False)"

definition isNonZSLCaptureRunning :: "qcamera_state_enum_t \<Rightarrow> bool" where
  "isNonZSLCaptureRunning st = (case st of QCAMERA_SM_STATE_PIC_TAKING \<Rightarrow> True | _ \<Rightarrow> False)"

lemmas sm_handlers =
  procEvtPreviewStoppedState_def procEvtPreviewStoppedState_b_def procEvtPreviewStoppedState_c_def
  procEvtPreviewReadyState_def procEvtPreviewReadyState_b_def procEvtPreviewReadyState_c_def
  procEvtPreviewingState_def procEvtPreviewingState_b_def procEvtPreviewingState_c_def previewing_internal_def
  procEvtPrepareSnapshotState_def prepareSnapshot_internal_def
  procEvtPicTakingState_def procEvtPicTakingState_b_def procEvtPicTakingState_c_def picTaking_internal_def
  procEvtRecordingState_def procEvtRecordingState_b_def procEvtRecordingState_c_def recording_internal_def
  procEvtVideoPicTakingState_def procEvtVideoPicTakingState_b_def procEvtVideoPicTakingState_c_def
  procEvtPreviewPicTakingState_def procEvtPreviewPicTakingState_b_def procEvtPreviewPicTakingState_c_def
  previewPicTaking_internal_def set_params_no_restart_def cancel_capture_def begin_capture_def

end
