(* ===== verification/SMAnswers.thy ===== *)
theory SMAnswers
  imports SMCaptureStates
begin

text \<open>
  What the state machine of camera/QCamera2/HAL/QCameraStateMachine.cpp promises to its callers: which
  events are answered on the API channel, which state can follow which, which requests are refused
  without an effect. Each lemma is one handler against one contract, computed by the
  weakest-precondition equations; the theorems put the eight handlers together.
\<close>

section \<open>Contracts\<close>

text \<open>
  The events the framework threads wait for with \<open>waitAPIResult\<close>: the API calls and the thermal
  notification (\<open>thermalEvtHandle\<close> waits for it like an API call).
\<close>

definition synchronous :: "sm_event \<Rightarrow> bool" where
  "synchronous evt \<longleftrightarrow> (case evt of
     EvtInternal e \<Rightarrow> False | EvtNotify e \<Rightarrow> False | JpegEvtNotify j \<Rightarrow> False | SnapshotDone \<Rightarrow> False
   | StopCaptureChannel \<Rightarrow> False | RestartPreview \<Rightarrow> False | _ \<Rightarrow> True)"

definition no_oom :: "'p hwi \<Rightarrow> bool" where
  "no_oom h \<longleftrightarrow> (\<forall>p. h_malloc h p)"

text \<open>One result for \<open>e\<close> with the returned status was appended, and no event result was signalled.\<close>

definition answered :: "qcamera_sm_evt_enum_t \<Rightarrow> 'p sm_ctx \<Rightarrow> status_t \<Rightarrow> 'p sm_ctx \<Rightarrow> bool" where
  "answered e s rc t \<longleftrightarrow>
     (\<exists>r. m_apiResultList t = m_apiResultList s @ [r] \<and> request_api r = e \<and> status r = rc) \<and>
     m_evtResult t = m_evtResult s"

text \<open>The states an event can move a state to, beside staying.\<close>

definition next_states :: "qcamera_state_enum_t \<Rightarrow> sm_event \<Rightarrow> qcamera_state_enum_t list" where
  "next_states st evt = (case st of
     QCAMERA_SM_STATE_PREVIEW_STOPPED \<Rightarrow> (case evt of
         StartPreview \<Rightarrow> [QCAMERA_SM_STATE_PREVIEW_READY, QCAMERA_SM_STATE_PREVIEWING]
       | StartNodisplayPreview \<Rightarrow> [QCAMERA_SM_STATE_PREVIEWING]
       | _ \<Rightarrow> [])
   | QCAMERA_SM_STATE_PREVIEW_READY \<Rightarrow> (case evt of
         SetPreviewWindow w \<Rightarrow> [QCAMERA_SM_STATE_PREVIEW_STOPPED, QCAMERA_SM_STATE_PREVIEWING]
       | SetParams p \<Rightarrow> [QCAMERA_SM_STATE_PREVIEW_STOPPED]
       | StopPreview \<Rightarrow> [QCAMERA_SM_STATE_PREVIEW_STOPPED]
       | _ \<Rightarrow> [])
   | QCAMERA_SM_STATE_PREVIEWING \<Rightarrow> (case evt of
         SetParams p \<Rightarrow> [QCAMERA_SM_STATE_PREVIEW_STOPPED]
       | StopPreview \<Rightarrow> [QCAMERA_SM_STATE_PREVIEW_STOPPED]
       | StartRecording \<Rightarrow> [QCAMERA_SM_STATE_RECORDING]
       | PrepareSnapshot \<Rightarrow> [QCAMERA_SM_STATE_PREPARE_SNAPSHOT]
       | TakePicture \<Rightarrow> [QCAMERA_SM_STATE_PREVIEW_PIC_TAKING, QCAMERA_SM_STATE_PIC_TAKING,
                        QCAMERA_SM_STATE_PREVIEW_STOPPED]
       | _ \<Rightarrow> [])
   | QCAMERA_SM_STATE_PREPARE_SNAPSHOT \<Rightarrow> (case evt of
         EvtInternal e \<Rightarrow> (case e of
             QCAMERA_INTERNAL_EVT_PREP_SNAPSHOT_DONE d \<Rightarrow> [QCAMERA_SM_STATE_PREVIEWING]
           | _ \<Rightarrow> [])
       | _ \<Rightarrow> [])
   | QCAMERA_SM_STATE_PIC_TAKING \<Rightarrow> (case evt of
         StopPreview \<Rightarrow> [QCAMERA_SM_STATE_PREVIEW_STOPPED]
       | CancelPicture \<Rightarrow> [QCAMERA_SM_STATE_PREVIEW_STOPPED]
       | SendCommand cmd a b \<Rightarrow> (if cmd = CAMERA_CMD_LONGSHOT_OFF then [QCAMERA_SM_STATE_PREVIEWING] else [])
       | SnapshotDone \<Rightarrow> [QCAMERA_SM_STATE_PREVIEWING, QCAMERA_SM_STATE_PREVIEW_STOPPED]
       | _ \<Rightarrow> [])
   | QCAMERA_SM_STATE_RECORDING \<Rightarrow> (case evt of
         TakePicture \<Rightarrow> [QCAMERA_SM_STATE_VIDEO_PIC_TAKING]
       | StopRecording \<Rightarrow> [QCAMERA_SM_STATE_PREVIEWING]
       | StopPreview \<Rightarrow> [QCAMERA_SM_STATE_PREVIEW_STOPPED]
       | _ \<Rightarrow> [])
   | QCAMERA_SM_STATE_VIDEO_PIC_TAKING \<Rightarrow> (case evt of
         StopRecording \<Rightarrow> [QCAMERA_SM_STATE_PREVIEWING]
       | CancelPicture \<Rightarrow> [QCAMERA_SM_STATE_RECORDING]
       | SnapshotDone \<Rightarrow> [QCAMERA_SM_STATE_RECORDING]
       | StopPreview \<Rightarrow> [QCAMERA_SM_STATE_PREVIEW_STOPPED]
       | _ \<Rightarrow> [])
   | QCAMERA_SM_STATE_PREVIEW_PIC_TAKING \<Rightarrow> (case evt of
         SetParams p \<Rightarrow> [QCAMERA_SM_STATE_PIC_TAKING]
       | SendCommand cmd a b \<Rightarrow> (if cmd = CAMERA_CMD_LONGSHOT_OFF then [QCAMERA_SM_STATE_PREVIEWING] else [])
       | CancelPicture \<Rightarrow> [QCAMERA_SM_STATE_PREVIEWING]
       | SnapshotDone \<Rightarrow> [QCAMERA_SM_STATE_PREVIEWING]
       | StopPreview \<Rightarrow> [QCAMERA_SM_STATE_PREVIEW_STOPPED]
       | StartRecording \<Rightarrow> [QCAMERA_SM_STATE_VIDEO_PIC_TAKING]
       | _ \<Rightarrow> []))"

definition moves_ok :: "sm_event \<Rightarrow> 'p sm_ctx \<Rightarrow> 'p sm_ctx \<Rightarrow> bool" where
  "moves_ok evt s t \<longleftrightarrow> m_state t = m_state s \<or> m_state t \<in> set (next_states (m_state s) evt)"

text \<open>The requests a state refuses with \<open>INVALID_OPERATION\<close> without calling the HAL object.\<close>

definition refused :: "qcamera_state_enum_t \<Rightarrow> sm_event \<Rightarrow> bool" where
  "refused st evt = (case st of
     QCAMERA_SM_STATE_PREVIEW_STOPPED \<Rightarrow>
       evt_of evt \<in> {QCAMERA_SM_EVT_START_RECORDING, QCAMERA_SM_EVT_STOP_RECORDING,
                     QCAMERA_SM_EVT_PREPARE_SNAPSHOT, QCAMERA_SM_EVT_TAKE_PICTURE}
   | QCAMERA_SM_STATE_PREVIEW_READY \<Rightarrow>
       evt_of evt \<in> {QCAMERA_SM_EVT_START_NODISPLAY_PREVIEW, QCAMERA_SM_EVT_START_RECORDING,
                     QCAMERA_SM_EVT_STOP_RECORDING, QCAMERA_SM_EVT_PREPARE_SNAPSHOT,
                     QCAMERA_SM_EVT_TAKE_PICTURE, QCAMERA_SM_EVT_CANCEL_PICTURE, QCAMERA_SM_EVT_RELEASE}
   | QCAMERA_SM_STATE_PREVIEWING \<Rightarrow>
       evt_of evt \<in> {QCAMERA_SM_EVT_SET_PREVIEW_WINDOW, QCAMERA_SM_EVT_CANCEL_PICTURE,
                     QCAMERA_SM_EVT_STOP_RECORDING, QCAMERA_SM_EVT_RELEASE}
   | QCAMERA_SM_STATE_PREPARE_SNAPSHOT \<Rightarrow>
       synchronous evt \<and> evt_of evt \<notin> {QCAMERA_SM_EVT_REG_FACE_IMAGE, QCAMERA_SM_EVT_THERMAL_NOTIFY}
   | QCAMERA_SM_STATE_PIC_TAKING \<Rightarrow>
       evt_of evt \<in> {QCAMERA_SM_EVT_SET_PREVIEW_WINDOW, QCAMERA_SM_EVT_PREPARE_SNAPSHOT,
                     QCAMERA_SM_EVT_START_RECORDING, QCAMERA_SM_EVT_STOP_RECORDING,
                     QCAMERA_SM_EVT_RELEASE_RECORIDNG_FRAME, QCAMERA_SM_EVT_START_PREVIEW,
                     QCAMERA_SM_EVT_START_NODISPLAY_PREVIEW, QCAMERA_SM_EVT_RELEASE}
   | QCAMERA_SM_STATE_RECORDING \<Rightarrow>
       evt_of evt \<in> {QCAMERA_SM_EVT_CANCEL_PICTURE, QCAMERA_SM_EVT_START_NODISPLAY_PREVIEW,
                     QCAMERA_SM_EVT_RELEASE}
   | QCAMERA_SM_STATE_VIDEO_PIC_TAKING \<Rightarrow>
       evt_of evt \<in> {QCAMERA_SM_EVT_SET_PREVIEW_WINDOW, QCAMERA_SM_EVT_START_RECORDING,
                     QCAMERA_SM_EVT_START_PREVIEW, QCAMERA_SM_EVT_START_NODISPLAY_PREVIEW,
                     QCAMERA_SM_EVT_PREPARE_SNAPSHOT, QCAMERA_SM_EVT_TAKE_PICTURE, QCAMERA_SM_EVT_RELEASE}
   | QCAMERA_SM_STATE_PREVIEW_PIC_TAKING \<Rightarrow>
       evt_of evt \<in> {QCAMERA_SM_EVT_SET_PREVIEW_WINDOW, QCAMERA_SM_EVT_PREPARE_SNAPSHOT,
                     QCAMERA_SM_EVT_STOP_RECORDING, QCAMERA_SM_EVT_START_PREVIEW,
                     QCAMERA_SM_EVT_START_NODISPLAY_PREVIEW, QCAMERA_SM_EVT_RELEASE})"

lemma frame_drop_recording_hint:
  assumes "\<And>rc p. Q rc (s\<lparr>m_parent := p\<rparr>)"
  shows "wp (drop_recording_hint h) Q s"
  using assms [of _ "m_parent s"]
  by (auto simp: drop_recording_hint_def sm_wp intro!: frame_prepare_start assms)

lemma wp_previewing_takePicture:
  assumes "\<And>p. wp (begin_capture h) (\<lambda>rc. wp (reply h TakePicture rc) Q) (s\<lparr>m_parent := p\<rparr>)"
  shows "wp (procEvtPreviewingState h TakePicture) Q s"
  using assms
  by (simp add: procEvtPreviewingState_def procEvtPreviewingState_b_def wp_bind frame_drop_recording_hint)

section \<open>The handlers meet the contracts\<close>

lemmas contract_defs = synchronous_def no_oom_def answered_def mk_result_def next_states_def moves_ok_def refused_def

text \<open>The event whose answer comes later, and the one that never gets one.\<close>

definition deferred :: "qcamera_state_enum_t \<Rightarrow> sm_event \<Rightarrow> bool" where
  "deferred st evt \<longleftrightarrow>
     (st = QCAMERA_SM_STATE_PREVIEWING \<and> evt = PrepareSnapshot) \<or>
     (st = QCAMERA_SM_STATE_PREPARE_SNAPSHOT \<and> evt_of evt = QCAMERA_SM_EVT_REG_FACE_IMAGE)"

lemma answered_PreviewStopped:
  assumes "no_oom h" and "synchronous evt"
  shows "wp (procEvtPreviewStoppedState h evt) (answered (evt_of evt) s) s"
  using assms
  by (cases evt; simp add: sm_handlers sm_actions sm_wp synchronous_def no_oom_def answered_def mk_result_def
      split_beta)

lemma answered_PreviewReady:
  assumes "no_oom h" and "synchronous evt"
  shows "wp (procEvtPreviewReadyState h evt) (answered (evt_of evt) s) s"
  using assms
  by (cases evt; simp add: sm_handlers sm_actions sm_wp synchronous_def no_oom_def answered_def mk_result_def
      split_beta)

lemma answered_Previewing:
  assumes "no_oom h" and "synchronous evt" and "evt \<noteq> PrepareSnapshot"
  shows "wp (procEvtPreviewingState h evt) (answered (evt_of evt) s) s"
proof (cases "evt = TakePicture")
  case True
  have "wp (procEvtPreviewingState h TakePicture) (answered (evt_of TakePicture) s) s"
    using assms(1)
    by (intro wp_previewing_takePicture)
      (simp add: begin_capture_def sm_actions sm_wp no_oom_def answered_def mk_result_def)
  with True show ?thesis by simp
next
  case False
  with assms show ?thesis
    by (cases evt; simp add: sm_handlers sm_actions sm_wp synchronous_def no_oom_def answered_def mk_result_def
        split_beta)
qed

lemma answered_PrepareSnapshot:
  assumes "no_oom h" and "synchronous evt" and "evt_of evt \<noteq> QCAMERA_SM_EVT_REG_FACE_IMAGE"
  shows "wp (procEvtPrepareSnapshotState h evt) (answered (evt_of evt) s) s"
  using assms
  by (cases evt; simp add: sm_handlers sm_actions sm_wp synchronous_def no_oom_def answered_def mk_result_def
      split_beta)

lemma answered_PicTaking:
  assumes "no_oom h" and "synchronous evt"
  shows "wp (procEvtPicTakingState h evt) (answered (evt_of evt) s) s"
  using assms
  by (cases evt; simp add: sm_handlers sm_actions sm_wp synchronous_def no_oom_def answered_def mk_result_def
      split_beta)

lemma answered_Recording:
  assumes "no_oom h" and "synchronous evt"
  shows "wp (procEvtRecordingState h evt) (answered (evt_of evt) s) s"
  using assms
  by (cases evt; simp add: sm_handlers sm_actions sm_wp synchronous_def no_oom_def answered_def mk_result_def
      split_beta)

lemma answered_VideoPicTaking:
  assumes "no_oom h" and "synchronous evt"
  shows "wp (procEvtVideoPicTakingState h evt) (answered (evt_of evt) s) s"
  using assms
  by (cases evt; simp add: sm_handlers sm_actions sm_wp synchronous_def no_oom_def answered_def mk_result_def
      split_beta)

lemma answered_PreviewPicTaking:
  assumes "no_oom h" and "synchronous evt"
  shows "wp (procEvtPreviewPicTakingState h evt) (answered (evt_of evt) s) s"
  using assms
  by (cases evt; simp add: sm_handlers sm_actions sm_wp synchronous_def no_oom_def answered_def mk_result_def
      split_beta)

lemmas answered_handlers =
  answered_PreviewStopped answered_PreviewReady answered_Previewing answered_PrepareSnapshot answered_PicTaking answered_Recording answered_VideoPicTaking answered_PreviewPicTaking

lemma answered_all:
  assumes "no_oom h" and "synchronous evt" and "\<not> deferred (m_state s) evt"
  shows "wp (stateMachine h evt) (answered (evt_of evt) s) s"
  using assms(3) answered_handlers [OF assms(1,2), of s]
  by (cases "m_state s") (auto simp: stateMachine_def procEvtOf_def deferred_def sm_wp)

lemma moves_PreviewStopped:
  "m_state s = QCAMERA_SM_STATE_PREVIEW_STOPPED \<Longrightarrow> wp (procEvtPreviewStoppedState h evt) (\<lambda>_. moves_ok evt s) s"
  by (cases evt; simp add: sm_handlers sm_actions sm_wp next_states_def moves_ok_def
        split_beta split: qcamera_internal_evt.split cam_event_type.split)

lemma moves_PreviewReady:
  "m_state s = QCAMERA_SM_STATE_PREVIEW_READY \<Longrightarrow> wp (procEvtPreviewReadyState h evt) (\<lambda>_. moves_ok evt s) s"
  by (cases evt; simp add: sm_handlers sm_actions sm_wp next_states_def moves_ok_def
        split_beta split: qcamera_internal_evt.split cam_event_type.split)

lemma moves_Previewing:
  assumes "m_state s = QCAMERA_SM_STATE_PREVIEWING"
  shows "wp (procEvtPreviewingState h evt) (\<lambda>_. moves_ok evt s) s"
proof (cases "evt = TakePicture")
  case True
  have "wp (procEvtPreviewingState h TakePicture) (\<lambda>_. moves_ok TakePicture s) s"
    using assms
    by (intro wp_previewing_takePicture) (simp add: begin_capture_def sm_actions sm_wp moves_ok_def next_states_def)
  with True show ?thesis by simp
next
  case False
  with assms show ?thesis
    by (cases evt; simp add: sm_handlers sm_actions sm_wp next_states_def moves_ok_def
        split_beta split: qcamera_internal_evt.split cam_event_type.split)
qed

lemma moves_PrepareSnapshot:
  "m_state s = QCAMERA_SM_STATE_PREPARE_SNAPSHOT \<Longrightarrow> wp (procEvtPrepareSnapshotState h evt) (\<lambda>_. moves_ok evt s) s"
  by (cases evt; simp add: sm_handlers sm_actions sm_wp next_states_def moves_ok_def
        split_beta split: qcamera_internal_evt.split cam_event_type.split)

lemma moves_PicTaking:
  "m_state s = QCAMERA_SM_STATE_PIC_TAKING \<Longrightarrow> wp (procEvtPicTakingState h evt) (\<lambda>_. moves_ok evt s) s"
  by (cases evt; simp add: sm_handlers sm_actions sm_wp next_states_def moves_ok_def
        split_beta split: qcamera_internal_evt.split cam_event_type.split)

lemma moves_Recording:
  "m_state s = QCAMERA_SM_STATE_RECORDING \<Longrightarrow> wp (procEvtRecordingState h evt) (\<lambda>_. moves_ok evt s) s"
  by (cases evt; simp add: sm_handlers sm_actions sm_wp next_states_def moves_ok_def
        split_beta split: qcamera_internal_evt.split cam_event_type.split)

lemma moves_VideoPicTaking:
  "m_state s = QCAMERA_SM_STATE_VIDEO_PIC_TAKING \<Longrightarrow> wp (procEvtVideoPicTakingState h evt) (\<lambda>_. moves_ok evt s) s"
  by (cases evt; simp add: sm_handlers sm_actions sm_wp next_states_def moves_ok_def
        split_beta split: qcamera_internal_evt.split cam_event_type.split)

lemma moves_PreviewPicTaking:
  "m_state s = QCAMERA_SM_STATE_PREVIEW_PIC_TAKING \<Longrightarrow> wp (procEvtPreviewPicTakingState h evt) (\<lambda>_. moves_ok evt s) s"
  by (cases evt; simp add: sm_handlers sm_actions sm_wp next_states_def moves_ok_def
        split_beta split: qcamera_internal_evt.split cam_event_type.split)

lemmas moves_handlers =
  moves_PreviewStopped moves_PreviewReady moves_Previewing moves_PrepareSnapshot moves_PicTaking moves_Recording moves_VideoPicTaking moves_PreviewPicTaking

lemma moves_all: "wp (stateMachine h evt) (\<lambda>_. moves_ok evt s) s"
  using moves_handlers [of s h evt]
  by (cases "m_state s") (simp_all add: stateMachine_def procEvtOf_def sm_wp)

text \<open>Refusals: the whole step is known.\<close>

lemma wp_eqI: "wp m (\<lambda>a t. a = x \<and> t = y) s \<Longrightarrow> run_state m s = (x, y)"
  by (simp add: wp_def split: prod.splits)

definition refuse :: "'p hwi \<Rightarrow> sm_event \<Rightarrow> 'p sm_ctx \<Rightarrow> 'p sm_ctx" where
  "refuse h evt s = (if h_malloc h (m_parent s)
     then s\<lparr>m_apiResultList := m_apiResultList s @
            [mk_result INVALID_OPERATION (evt_of evt) QCAMERA_API_RESULT_TYPE_DEF U_zero]\<rparr>
     else s)"

lemma refused_all:
  assumes "refused (m_state s) evt"
  shows "run_state (stateMachine h evt) s = (INVALID_OPERATION, refuse h evt s)"
proof (rule wp_eqI)
  show "wp (stateMachine h evt) (\<lambda>a t. a = INVALID_OPERATION \<and> t = refuse h evt s) s"
    using assms
    by (cases "m_state s"; cases evt;
        simp add: refused_def synchronous_def stateMachine_def procEvtOf_def sm_handlers sm_actions sm_wp refuse_def)
qed

lemma daemon_died_all:
  "run_state (stateMachine h (EvtNotify CAM_EVENT_TYPE_DAEMON_DIED)) s =
     (NO_ERROR, s\<lparr>m_parent := snd (h_call h (m_state s)
        (sendEvtNotify CAMERA_MSG_ERROR CAMERA_ERROR_SERVER_DIED 0) (m_parent s))\<rparr>)"
  by (rule wp_eqI, cases "m_state s"; simp add: stateMachine_def procEvtOf_def sm_handlers sm_actions sm_wp)

section \<open>Who answers what\<close>

definition is_prep_done :: "sm_event \<Rightarrow> bool" where
  "is_prep_done evt \<longleftrightarrow> (case evt of
     EvtInternal e \<Rightarrow> (case e of QCAMERA_INTERNAL_EVT_PREP_SNAPSHOT_DONE d \<Rightarrow> True | _ \<Rightarrow> False) | _ \<Rightarrow> False)"

text \<open>
  A step appends at most one result, and it carries the event's own code, or answers
  \<open>PREPARE_SNAPSHOT\<close> when the event reports that the preparation is done.
\<close>

definition adds :: "sm_event \<Rightarrow> 'p sm_ctx \<Rightarrow> 'p sm_ctx \<Rightarrow> bool" where
  "adds evt s t \<longleftrightarrow>
     (let n = length (m_apiResultList s); new = drop n (m_apiResultList t)
      in take n (m_apiResultList t) = m_apiResultList s \<and> length new \<le> 1 \<and>
         list_all (\<lambda>r. request_api r = evt_of evt \<or>
                       is_prep_done evt \<and> request_api r = QCAMERA_SM_EVT_PREPARE_SNAPSHOT) new)"

lemma adds_PreviewStopped: "wp (procEvtPreviewStoppedState h evt) (\<lambda>_. adds evt s) s"
  by (cases evt; simp add: sm_handlers sm_actions sm_wp adds_def is_prep_done_def mk_result_def split_beta Let_def
      split: qcamera_internal_evt.split cam_event_type.split)

lemma adds_PreviewReady: "wp (procEvtPreviewReadyState h evt) (\<lambda>_. adds evt s) s"
  by (cases evt; simp add: sm_handlers sm_actions sm_wp adds_def is_prep_done_def mk_result_def split_beta Let_def
      split: qcamera_internal_evt.split cam_event_type.split)

lemma adds_PrepareSnapshot: "wp (procEvtPrepareSnapshotState h evt) (\<lambda>_. adds evt s) s"
  by (cases evt; simp add: sm_handlers sm_actions sm_wp adds_def is_prep_done_def mk_result_def split_beta Let_def
      split: qcamera_internal_evt.split cam_event_type.split)

lemma adds_PicTaking: "wp (procEvtPicTakingState h evt) (\<lambda>_. adds evt s) s"
  by (cases evt; simp add: sm_handlers sm_actions sm_wp adds_def is_prep_done_def mk_result_def split_beta Let_def
      split: qcamera_internal_evt.split cam_event_type.split)

lemma adds_Recording: "wp (procEvtRecordingState h evt) (\<lambda>_. adds evt s) s"
  by (cases evt; simp add: sm_handlers sm_actions sm_wp adds_def is_prep_done_def mk_result_def split_beta Let_def
      split: qcamera_internal_evt.split cam_event_type.split)

lemma adds_VideoPicTaking: "wp (procEvtVideoPicTakingState h evt) (\<lambda>_. adds evt s) s"
  by (cases evt; simp add: sm_handlers sm_actions sm_wp adds_def is_prep_done_def mk_result_def split_beta Let_def
      split: qcamera_internal_evt.split cam_event_type.split)

lemma adds_PreviewPicTaking: "wp (procEvtPreviewPicTakingState h evt) (\<lambda>_. adds evt s) s"
  by (cases evt; simp add: sm_handlers sm_actions sm_wp adds_def is_prep_done_def mk_result_def split_beta Let_def
      split: qcamera_internal_evt.split cam_event_type.split)

lemma adds_Previewing: "wp (procEvtPreviewingState h evt) (\<lambda>_. adds evt s) s"
proof (cases "evt = TakePicture")
  case True
  have "wp (procEvtPreviewingState h TakePicture) (\<lambda>_. adds TakePicture s) s"
    by (intro wp_previewing_takePicture)
      (simp add: begin_capture_def sm_actions sm_wp adds_def is_prep_done_def mk_result_def Let_def)
  with True show ?thesis by simp
next
  case False
  then show ?thesis
    by (cases evt; simp add: sm_handlers sm_actions sm_wp adds_def is_prep_done_def mk_result_def split_beta Let_def
        split: qcamera_internal_evt.split cam_event_type.split)
qed

lemmas adds_handlers = adds_PreviewStopped adds_PreviewReady adds_Previewing adds_PrepareSnapshot
  adds_PicTaking adds_Recording adds_VideoPicTaking adds_PreviewPicTaking

lemma adds_all: "wp (stateMachine h evt) (\<lambda>_. adds evt s) s"
  using adds_handlers [of h evt s] by (cases "m_state s") (simp_all add: stateMachine_def procEvtOf_def sm_wp)

section \<open>Runs\<close>

definition sm_step :: "'p hwi \<Rightarrow> sm_event \<Rightarrow> 'p sm_ctx \<Rightarrow> 'p sm_ctx" where
  "sm_step h evt s = snd (run_state (stateMachine h evt) s)"

primrec sm_run :: "'p hwi \<Rightarrow> sm_event list \<Rightarrow> 'p sm_ctx \<Rightarrow> 'p sm_ctx" where
  "sm_run h [] s = s"
| "sm_run h (e # es) s = sm_run h es (sm_step h e s)"

lemma sm_run_append: "sm_run h (xs @ ys) s = sm_run h ys (sm_run h xs s)"
  by (induction xs arbitrary: s) auto

lemma sm_step_wp: "wp (stateMachine h evt) (\<lambda>_ t. P t) s \<Longrightarrow> P (sm_step h evt s)"
  using wp_run [of "stateMachine h evt" "\<lambda>_ t. P t" s] by (simp add: sm_step_def)

text \<open>The results for one code, in the order they were signalled.\<close>

definition answers_to :: "qcamera_sm_evt_enum_t \<Rightarrow> 'p sm_ctx \<Rightarrow> qcamera_api_result_t list" where
  "answers_to e s = filter (\<lambda>r. request_api r = e) (m_apiResultList s)"

lemma adds_answers:
  assumes "adds evt s t" and "evt_of evt \<noteq> e" and "\<not> (is_prep_done evt \<and> e = QCAMERA_SM_EVT_PREPARE_SNAPSHOT)"
  shows "answers_to e t = answers_to e s"
proof -
  let ?n = "length (m_apiResultList s)"
  have "m_apiResultList t = m_apiResultList s @ drop ?n (m_apiResultList t)"
    using assms(1) append_take_drop_id [of ?n "m_apiResultList t"] by (simp add: adds_def Let_def)
  moreover have "filter (\<lambda>r. request_api r = e) (drop ?n (m_apiResultList t)) = []"
    using assms by (auto simp: adds_def Let_def filter_empty_conv list_all_iff)
  ultimately show ?thesis unfolding answers_to_def by (metis append_Nil2 filter_append)
qed

lemma sm_run_no_answer:
  assumes "\<forall>evt \<in> set evts. evt_of evt \<noteq> e \<and> \<not> (is_prep_done evt \<and> e = QCAMERA_SM_EVT_PREPARE_SNAPSHOT)"
  shows "answers_to e (sm_run h evts s) = answers_to e s"
  using assms
proof (induction evts arbitrary: s)
  case Nil
  then show ?case by simp
next
  case (Cons evt evts)
  have "answers_to e (sm_step h evt s) = answers_to e s"
    using sm_step_wp [OF adds_all] adds_answers Cons.prems by fastforce
  with Cons show ?case by simp
qed

lemma prep_snapshot_stays:
  assumes "m_state s = QCAMERA_SM_STATE_PREPARE_SNAPSHOT" and "\<forall>evt \<in> set evts. \<not> is_prep_done evt"
  shows "m_state (sm_run h evts s) = QCAMERA_SM_STATE_PREPARE_SNAPSHOT"
  using assms
proof (induction evts arbitrary: s)
  case Nil
  then show ?case by simp
next
  case (Cons evt evts)
  have "moves_ok evt s (sm_step h evt s)" by (rule sm_step_wp [OF moves_all])
  with Cons.prems have "m_state (sm_step h evt s) = QCAMERA_SM_STATE_PREPARE_SNAPSHOT"
    by (auto simp: moves_ok_def next_states_def is_prep_done_def split: sm_event.splits qcamera_internal_evt.splits)
  with Cons show ?case by simp
qed

end
