(* ===== verification/SMProps.thy ===== *)
theory SMProps
  imports SMAnswers
begin

text \<open>
  The properties of the camera state machine (camera/QCamera2/HAL/QCameraStateMachine.cpp), each an
  application of the contracts of SMAnswers, with a HAL object that always succeeds as the concrete
  instance.
\<close>

definition demo_hwi :: "unit hwi" where
  "demo_hwi = \<lparr>h_call = (\<lambda>_ _ p. (NO_ERROR, p)), h_proc = (\<lambda>_ _ p. p), h_query = (\<lambda>_ _. True),
     h_sendCommand = (\<lambda>_ _ a _ p. ((NO_ERROR, a), p)), h_updateParameters = (\<lambda>_ p. ((NO_ERROR, True), p)), h_getParameters = (\<lambda>p. (None, p)),
     h_registerFaceImage = (\<lambda>_ _ p. ((NO_ERROR, 7), p)), h_msgTypeEnabled = (\<lambda>_ _. 0),
     h_malloc = (\<lambda>_. True)\<rparr>"

definition demo_ctx :: "qcamera_state_enum_t \<Rightarrow> unit sm_ctx" where
  "demo_ctx st = \<lparr>m_state = st, m_parent = (), m_apiResultList = [], m_evtResult = None\<rparr>"

lemma demo_no_oom: "no_oom demo_hwi"
  by (simp add: no_oom_def demo_hwi_def)



text \<open>
  C2. The transition diagram. Whatever the HAL object returns, an event leaves the state as it is or
  moves it along one of the edges of \<open>next_states\<close>: for instance a recording is entered only from a
  running preview, \<open>PREPARE_SNAPSHOT\<close> is left only by the event that reports the preparation done, and
  no event moves the stopped state anywhere but to a preview.
\<close>

theorem sm_transitions:
  "m_state (sm_step h evt s) = m_state s \<or> m_state (sm_step h evt s) \<in> set (next_states (m_state s) evt)"
  using sm_step_wp [OF moves_all, of evt s h] by (simp add: moves_ok_def)

text \<open>
  C32. Refusals have no effect. An event the current state refuses returns \<open>INVALID_OPERATION\<close>; the step
  changes nothing but the result list, which gets one result with that status (unless its node cannot be
  allocated): no HAL operation is called and the state stays.
\<close>

theorem sm_refusals:
  assumes "refused (m_state s) evt"
  shows "run_state (stateMachine h evt) s = (INVALID_OPERATION,
           if h_malloc h (m_parent s)
           then s\<lparr>m_apiResultList := m_apiResultList s @
                  [\<lparr>status = INVALID_OPERATION, request_api = evt_of evt,
                    result_type = QCAMERA_API_RESULT_TYPE_DEF, result_u = U_zero\<rparr>]\<rparr>
           else s)"
  using refused_all [OF assms] by (simp add: refuse_def mk_result_def)

theorem sm_refusals_witness:
  "fst (run_state (stateMachine demo_hwi StartRecording) (demo_ctx QCAMERA_SM_STATE_PREVIEW_READY)) = INVALID_OPERATION"
  using sm_refusals [of "demo_ctx QCAMERA_SM_STATE_PREVIEW_READY" StartRecording demo_hwi]
  by (simp add: refused_def demo_ctx_def)

text \<open>
  A dead camera server is reported in every state: the event makes exactly one HAL call, the error
  message for the application, appends no API result and leaves the state alone, so later calls are
  still handled.
\<close>

theorem sm_server_died:
  "run_state (stateMachine h (EvtNotify CAM_EVENT_TYPE_DAEMON_DIED)) s =
     (NO_ERROR, s\<lparr>m_parent := snd (h_call h (m_state s)
        (sendEvtNotify CAMERA_MSG_ERROR CAMERA_ERROR_SERVER_DIED 0) (m_parent s))\<rparr>)"
  by (rule daemon_died_all)

lemma sm_step_eqI: "wp (stateMachine h evt) (\<lambda>_ t. t = u) s \<Longrightarrow> sm_step h evt s = u"
  using sm_step_wp [of h evt "\<lambda>t. t = u" s] by simp

lemma previewing_prepare:
  assumes "m_state s = QCAMERA_SM_STATE_PREVIEWING"
    and "fst (h_call h QCAMERA_SM_STATE_PREVIEWING (prepareHardwareForSnapshot False) (m_parent s)) = NO_ERROR"
  shows "sm_step h PrepareSnapshot s = s\<lparr>m_state := QCAMERA_SM_STATE_PREPARE_SNAPSHOT,
    m_parent := snd (h_call h QCAMERA_SM_STATE_PREVIEWING (prepareHardwareForSnapshot False) (m_parent s))\<rparr>"
  by (rule sm_step_eqI)
    (simp add: assms stateMachine_def procEvtOf_def sm_wp procEvtPreviewingState_def procEvtPreviewingState_b_def)

lemma prep_done_answers:
  assumes "no_oom h" and "m_state s = QCAMERA_SM_STATE_PREPARE_SNAPSHOT"
  shows "sm_step h (EvtInternal (QCAMERA_INTERNAL_EVT_PREP_SNAPSHOT_DONE d)) s = s\<lparr>m_state := QCAMERA_SM_STATE_PREVIEWING,
    m_parent := snd (h_call h (m_state s) (processPrepSnapshotDoneEvent d) (m_parent s)),
    m_apiResultList := m_apiResultList s @
      [mk_result NO_ERROR QCAMERA_SM_EVT_PREPARE_SNAPSHOT QCAMERA_API_RESULT_TYPE_DEF U_zero]\<rparr>"
  using assms(1)
  by (intro sm_step_eqI) (simp add: assms(2) stateMachine_def procEvtOf_def sm_wp procEvtPrepareSnapshotState_def
      prepareSnapshot_internal_def reply_def no_oom_def)

text \<open>
  C31. The deferred answer of \<open>PREPARE_SNAPSHOT\<close>. While previewing, a successful hardware preparation is
  not answered at once; whatever events follow (a second \<open>PREPARE_SNAPSHOT\<close> aside), no answer to it is
  given until the server reports the preparation done, and then exactly one answer, with \<open>NO_ERROR\<close>, is
  given and the preview state is back.
\<close>

theorem sm_prepare_snapshot_answer:
  assumes "no_oom h" and "m_state s = QCAMERA_SM_STATE_PREVIEWING"
    and "fst (h_call h QCAMERA_SM_STATE_PREVIEWING (prepareHardwareForSnapshot False) (m_parent s)) = NO_ERROR"
    and "\<forall>e \<in> set evts. \<not> is_prep_done e \<and> evt_of e \<noteq> QCAMERA_SM_EVT_PREPARE_SNAPSHOT"
    and "waiting = sm_run h (PrepareSnapshot # evts) s"
    and "finished = sm_step h (EvtInternal (QCAMERA_INTERNAL_EVT_PREP_SNAPSHOT_DONE d)) waiting"
  shows "answers_to QCAMERA_SM_EVT_PREPARE_SNAPSHOT waiting = answers_to QCAMERA_SM_EVT_PREPARE_SNAPSHOT s \<and>
         answers_to QCAMERA_SM_EVT_PREPARE_SNAPSHOT finished = answers_to QCAMERA_SM_EVT_PREPARE_SNAPSHOT s @
           [mk_result NO_ERROR QCAMERA_SM_EVT_PREPARE_SNAPSHOT QCAMERA_API_RESULT_TYPE_DEF U_zero] \<and>
         m_state finished = QCAMERA_SM_STATE_PREVIEWING"
proof -
  let ?s1 = "sm_step h PrepareSnapshot s"
  note one = previewing_prepare [OF assms(2,3)]
  have w: "waiting = sm_run h evts ?s1" by (simp add: assms(5))
  have st: "m_state waiting = QCAMERA_SM_STATE_PREPARE_SNAPSHOT"
    unfolding w using one assms(4) by (intro prep_snapshot_stays) auto
  have "answers_to QCAMERA_SM_EVT_PREPARE_SNAPSHOT waiting = answers_to QCAMERA_SM_EVT_PREPARE_SNAPSHOT ?s1"
    unfolding w using assms(4) by (intro sm_run_no_answer) auto
  then have a: "answers_to QCAMERA_SM_EVT_PREPARE_SNAPSHOT waiting = answers_to QCAMERA_SM_EVT_PREPARE_SNAPSHOT s"
    using one by (simp add: answers_to_def)
  moreover have "m_state finished = QCAMERA_SM_STATE_PREVIEWING"
    using prep_done_answers [OF assms(1) st] by (simp add: assms(6))
  moreover have "answers_to QCAMERA_SM_EVT_PREPARE_SNAPSHOT finished = answers_to QCAMERA_SM_EVT_PREPARE_SNAPSHOT s @
           [mk_result NO_ERROR QCAMERA_SM_EVT_PREPARE_SNAPSHOT QCAMERA_API_RESULT_TYPE_DEF U_zero]"
    unfolding a [symmetric] using prep_done_answers [OF assms(1) st, of d]
    by (simp add: assms(6) answers_to_def mk_result_def)
  ultimately show ?thesis by simp
qed

theorem sm_prepare_snapshot_answer_witness:
  "m_state (sm_step demo_hwi (EvtInternal (QCAMERA_INTERNAL_EVT_PREP_SNAPSHOT_DONE 0))
     (sm_run demo_hwi [PrepareSnapshot, TakePicture, ThermalNotify 1] (demo_ctx QCAMERA_SM_STATE_PREVIEWING))) =
   QCAMERA_SM_STATE_PREVIEWING"
  using sm_prepare_snapshot_answer [OF demo_no_oom, of "demo_ctx QCAMERA_SM_STATE_PREVIEWING"
      "[TakePicture, ThermalNotify 1]" _ _ 0]
  by (simp add: demo_ctx_def demo_hwi_def is_prep_done_def)

text \<open>
  A face registration that arrives while a snapshot is being prepared is never answered: the step
  changes nothing at all, and no later event (another face registration aside) ever signals a result for
  it, so the thread that waits for it waits for ever. Every other state answers it.
\<close>

theorem sm_reg_face_lost:
  assumes "m_state s = QCAMERA_SM_STATE_PREPARE_SNAPSHOT"
    and "\<forall>e \<in> set evts. evt_of e \<noteq> QCAMERA_SM_EVT_REG_FACE_IMAGE"
  shows "answers_to QCAMERA_SM_EVT_REG_FACE_IMAGE (sm_run h (RegFaceImage img cfg # evts) s) =
         answers_to QCAMERA_SM_EVT_REG_FACE_IMAGE s \<and> sm_step h (RegFaceImage img cfg) s = s"
proof -
  have "sm_step h (RegFaceImage img cfg) s = s"
    by (rule sm_step_wp) (simp add: assms(1) stateMachine_def procEvtOf_def sm_wp procEvtPrepareSnapshotState_def)
  then show ?thesis using sm_run_no_answer [of evts QCAMERA_SM_EVT_REG_FACE_IMAGE h s] assms(2) by simp
qed

theorem sm_reg_face_lost_witness:
  "answers_to QCAMERA_SM_EVT_REG_FACE_IMAGE
     (sm_run demo_hwi [RegFaceImage None None, EvtInternal (QCAMERA_INTERNAL_EVT_PREP_SNAPSHOT_DONE 0), StopPreview]
       (demo_ctx QCAMERA_SM_STATE_PREPARE_SNAPSHOT)) = []"
  using sm_reg_face_lost [of "demo_ctx QCAMERA_SM_STATE_PREPARE_SNAPSHOT"
      "[EvtInternal (QCAMERA_INTERNAL_EVT_PREP_SNAPSHOT_DONE 0), StopPreview]" demo_hwi None None]
  by (simp add: demo_ctx_def answers_to_def del: sm_run.simps)

text \<open>
  The two queries tell the state: outside \<open>PREPARE_SNAPSHOT\<close>, \<open>RECORDING_ENABLED\<close> answers 1 exactly in
  the two recording states, and \<open>PREVIEW_ENABLED\<close> answers 1 exactly when \<open>isPreviewRunning\<close> holds, except in
  \<open>RECORDING\<close>, where it answers 0 although the preview runs.
\<close>

theorem sm_flags:
  assumes "h_malloc h (m_parent s)" and "m_state s \<noteq> QCAMERA_SM_STATE_PREPARE_SNAPSHOT"
  shows "map result_u (drop (length (m_apiResultList s)) (m_apiResultList (sm_step h RecordingEnabled s))) =
           [U_enabled (if m_state s \<in> {QCAMERA_SM_STATE_RECORDING, QCAMERA_SM_STATE_VIDEO_PIC_TAKING} then 1 else 0)] \<and>
         map result_u (drop (length (m_apiResultList s)) (m_apiResultList (sm_step h PreviewEnabled s))) =
           [U_enabled (if isPreviewRunning (m_state s) \<and> m_state s \<noteq> QCAMERA_SM_STATE_RECORDING then 1 else 0)]"
  using assms
    sm_step_wp [of h RecordingEnabled "\<lambda>t. map result_u (drop (length (m_apiResultList s)) (m_apiResultList t)) =
      [U_enabled (if m_state s \<in> {QCAMERA_SM_STATE_RECORDING, QCAMERA_SM_STATE_VIDEO_PIC_TAKING} then 1 else 0)]" s]
    sm_step_wp [of h PreviewEnabled "\<lambda>t. map result_u (drop (length (m_apiResultList s)) (m_apiResultList t)) =
      [U_enabled (if isPreviewRunning (m_state s) \<and> m_state s \<noteq> QCAMERA_SM_STATE_RECORDING then 1 else 0)]" s]
  by (cases "m_state s")
    (simp_all add: stateMachine_def procEvtOf_def sm_wp sm_handlers reply_flag_def mk_result_def isPreviewRunning_def)

theorem sm_flags_witness:
  "map result_u (m_apiResultList (sm_step demo_hwi PreviewEnabled (demo_ctx QCAMERA_SM_STATE_RECORDING))) = [U_enabled 0]"
  using sm_flags [of demo_hwi "demo_ctx QCAMERA_SM_STATE_RECORDING"]
  by (simp add: demo_ctx_def demo_hwi_def)

text \<open>
  Recording is never interrupted by new parameters: in the two recording states a parameter set that
  needs a restart is answered \<open>BAD_VALUE\<close>, after \<open>updateParameters\<close> no further HAL operation is called,
  nothing is committed, and the state stays.
\<close>

theorem sm_recording_keeps_running:
  assumes "m_state s \<in> {QCAMERA_SM_STATE_RECORDING, QCAMERA_SM_STATE_VIDEO_PIC_TAKING}"
    and "h_updateParameters h p (m_parent s) = ((NO_ERROR, True), q)" and "h_malloc h q"
  shows "run_state (stateMachine h (SetParams p)) s = (BAD_VALUE,
           s\<lparr>m_parent := q, m_apiResultList := m_apiResultList s @
              [mk_result BAD_VALUE QCAMERA_SM_EVT_SET_PARAMS QCAMERA_API_RESULT_TYPE_DEF U_zero]\<rparr>)"
  using assms
  by (intro wp_eqI) (auto simp: stateMachine_def procEvtOf_def sm_wp procEvtRecordingState_def
      procEvtVideoPicTakingState_def set_params_no_restart_def reply_def)

theorem sm_recording_keeps_running_witness:
  "fst (run_state (stateMachine demo_hwi (SetParams None)) (demo_ctx QCAMERA_SM_STATE_RECORDING)) = BAD_VALUE"
  using sm_recording_keeps_running [of "demo_ctx QCAMERA_SM_STATE_RECORDING" demo_hwi None "()"]
  by (simp add: demo_ctx_def demo_hwi_def)

end
