(* ===== verification/SMThread.thy ===== *)
theory SMThread
  imports QueueSpec SMAnswers
begin

text \<open>
  The state machine's thread and the handshake with the framework threads: \<open>procAPI\<close>, \<open>procEvt\<close>,
  \<open>releaseThread\<close> and \<open>smEvtProcRoutine\<close> of camera/QCamera2/HAL/QCameraStateMachine.cpp;
  \<open>processAPI\<close>, \<open>waitAPIResult\<close>, \<open>thermalEvtHandle\<close> and the camera device operations of
  camera/QCamera2/HAL/QCamera2HWI.cpp.

  The two command queues are the pointer queues of QCameraQueue; the results of \<open>malloc\<close> are arguments.
  The semaphore is a counter. An operation that enqueues and then posts is two steps of the step
  relation, so the thread may run in between; \<open>sem_pending\<close> counts the posts still to come.
\<close>

section \<open>State\<close>

datatype sm_cmd = CmdAPI sm_event | CmdEVT sm_event | CmdEXIT

record 'p cam =
  sm :: "'p sm_ctx"
  api_queue :: "sm_cmd camera_q"
  evt_queue :: "sm_cmd camera_q"
  cmd_sem :: nat
  sem_pending :: nat
  sm_running :: bool
  m_smThreadActive :: bool

text \<open>The constructor: both queues fresh, the thread started.\<close>

definition cam_init :: "'p \<Rightarrow> sm_cmd camera_q \<Rightarrow> 'p cam" where
  "cam_init p mem = \<lparr>sm = \<lparr>m_state = QCAMERA_SM_STATE_PREVIEW_STOPPED, m_parent = p, m_apiResultList = [], m_evtResult = None\<rparr>,
     api_queue = QCameraQueue_init mem, evt_queue = QCameraQueue_init mem, cmd_sem = 0, sem_pending = 0,
     sm_running = True, m_smThreadActive = True\<rparr>"

section \<open>Producers\<close>

text \<open>
  The enqueueing halves of \<open>procAPI\<close>, \<open>procEvt\<close> and \<open>releaseThread\<close>: \<open>mem\<close> says whether the command
  node could be allocated, \<open>qn\<close> is what \<open>enqueue\<close> gets for its list node. A successful enqueue is
  followed by a \<open>cam_sem_post\<close>.
\<close>

definition procAPI_enqueue :: "bool \<Rightarrow> addr option \<Rightarrow> sm_event \<Rightarrow> 'p cam \<Rightarrow> status_t \<times> 'p cam" where
  "procAPI_enqueue mem qn evt c =
     (if \<not> mem then (NO_MEMORY, c)
      else case enqueue qn (Some (CmdAPI evt)) (api_queue c) of (ok, q) \<Rightarrow>
        if ok then (NO_ERROR, c\<lparr>api_queue := q, sem_pending := sem_pending c + 1\<rparr>)
        else (UNKNOWN_ERROR, c\<lparr>api_queue := q\<rparr>))"

definition procEvt_enqueue :: "bool \<Rightarrow> addr option \<Rightarrow> sm_event \<Rightarrow> 'p cam \<Rightarrow> status_t \<times> 'p cam" where
  "procEvt_enqueue mem qn evt c =
     (if \<not> mem then (NO_MEMORY, c)
      else case enqueue qn (Some (CmdEVT evt)) (evt_queue c) of (ok, q) \<Rightarrow>
        if ok then (NO_ERROR, c\<lparr>evt_queue := q, sem_pending := sem_pending c + 1\<rparr>)
        else (UNKNOWN_ERROR, c\<lparr>evt_queue := q\<rparr>))"

definition releaseThread_enqueue :: "bool \<Rightarrow> addr option \<Rightarrow> 'p cam \<Rightarrow> 'p cam" where
  "releaseThread_enqueue mem qn c =
     (if \<not> mem then c
      else c\<lparr>api_queue := snd (enqueue qn (Some CmdEXIT) (api_queue c)), sem_pending := sem_pending c + 1\<rparr>)"

definition cam_sem_post :: "'p cam \<Rightarrow> 'p cam" where
  "cam_sem_post c = c\<lparr>cmd_sem := cmd_sem c + 1, sem_pending := sem_pending c - 1\<rparr>"

definition procAPI :: "bool \<Rightarrow> addr option \<Rightarrow> sm_event \<Rightarrow> 'p cam \<Rightarrow> status_t \<times> 'p cam" where
  "procAPI mem qn evt c = (case procAPI_enqueue mem qn evt c of (rc, c1) \<Rightarrow>
     (rc, if rc = NO_ERROR then cam_sem_post c1 else c1))"

definition procEvt :: "bool \<Rightarrow> addr option \<Rightarrow> sm_event \<Rightarrow> 'p cam \<Rightarrow> status_t \<times> 'p cam" where
  "procEvt mem qn evt c = (case procEvt_enqueue mem qn evt c of (rc, c1) \<Rightarrow>
     (rc, if rc = NO_ERROR then cam_sem_post c1 else c1))"

definition processAPI :: "bool \<Rightarrow> addr option \<Rightarrow> sm_event \<Rightarrow> 'p cam \<Rightarrow> status_t \<times> 'p cam" where
  "processAPI mem qn evt c = (if m_smThreadActive c then procAPI mem qn evt c else (DEAD_OBJECT, c))"

section \<open>The thread\<close>

text \<open>
  One round of \<open>smEvtProcRoutine\<close>. \<open>None\<close>: the thread has ended or waits on the semaphore.
\<close>

definition sm_thread_round :: "'p hwi \<Rightarrow> 'p cam \<Rightarrow> 'p cam option" where
  "sm_thread_round h c =
     (if \<not> sm_running c \<or> cmd_sem c = 0 then None
      else
        let c1 = c\<lparr>cmd_sem := cmd_sem c - 1\<rparr>;
            (node, aq) = dequeue True (api_queue c1);
            (node', eq) = (case node of
                None \<Rightarrow> dequeue True (evt_queue c1)
              | Some cmd \<Rightarrow> (Some cmd, evt_queue c1));
            c2 = c1\<lparr>api_queue := aq, evt_queue := eq\<rparr>
        in Some (case node' of
            None \<Rightarrow> c2
          | Some (CmdAPI evt) \<Rightarrow> c2\<lparr>sm := sm_step h evt (sm c2)\<rparr>
          | Some (CmdEVT evt) \<Rightarrow> c2\<lparr>sm := sm_step h evt (sm c2)\<rparr>
          | Some CmdEXIT \<Rightarrow> c2\<lparr>sm_running := False\<rparr>))"

section \<open>Interleavings\<close>

text \<open>
  The steps of the whole: any producer, any pending post, one round of the thread. The allocator is
  any that returns memory not in use.
\<close>

inductive cam_step :: "'p hwi \<Rightarrow> 'p cam \<Rightarrow> 'p cam \<Rightarrow> bool" for h where
  api: "(\<And>n. qn = Some n \<Longrightarrow> q_fresh (api_queue c) n) \<Longrightarrow>
    cam_step h c (snd (procAPI_enqueue mem qn evt c))"
| evt: "(\<And>n. qn = Some n \<Longrightarrow> q_fresh (evt_queue c) n) \<Longrightarrow>
    cam_step h c (snd (procEvt_enqueue mem qn evt c))"
| exit: "q_fresh (api_queue c) n \<Longrightarrow> cam_step h c (releaseThread_enqueue mem (Some n) c)"
| post: "0 < sem_pending c \<Longrightarrow> cam_step h c (cam_sem_post c)"
| round: "sm_thread_round h c = Some c' \<Longrightarrow> cam_step h c c'"

definition reachable :: "'p hwi \<Rightarrow> 'p cam \<Rightarrow> 'p cam \<Rightarrow> bool" where
  "reachable h c c' \<longleftrightarrow> (cam_step h)\<^sup>*\<^sup>* c c'"

text \<open>Every command queued has its post, done or to come; the nodes carry commands.\<close>

definition cam_inv :: "'p cam \<Rightarrow> bool" where
  "cam_inv c \<longleftrightarrow> q_inv (api_queue c) \<and> q_inv (evt_queue c) \<and>
     None \<notin> set (q_items (api_queue c)) \<and> None \<notin> set (q_items (evt_queue c)) \<and>
     cmd_sem c + sem_pending c = length (q_items (api_queue c)) + length (q_items (evt_queue c))"

definition cam_cmds :: "'p cam \<Rightarrow> sm_cmd list \<times> sm_cmd list" where
  "cam_cmds c = (non_null (q_items (api_queue c)), non_null (q_items (evt_queue c)))"

fun exec_cmd :: "'p hwi \<Rightarrow> sm_cmd \<Rightarrow> 'p cam \<Rightarrow> 'p cam" where
  "exec_cmd h (CmdAPI evt) c = c\<lparr>sm := sm_step h evt (sm c)\<rparr>"
| "exec_cmd h (CmdEVT evt) c = c\<lparr>sm := sm_step h evt (sm c)\<rparr>"
| "exec_cmd h CmdEXIT c = c\<lparr>sm_running := False\<rparr>"

lemma q_inv_init: "q_inv (QCameraQueue_init q)" "q_items (QCameraQueue_init q) = []"
  using queue_rep_init [of q] by (auto simp: queue_rep_inv q_items_rep)

lemma cam_init_inv: "cam_inv (cam_init p mem)"
  by (simp add: cam_inv_def cam_init_def q_inv_init)

lemma no_null_hd: "None \<notin> set xs \<Longrightarrow> xs \<noteq> [] \<Longrightarrow> \<exists>x ys. xs = Some x # ys"
  by (metis list.exhaust list.set_intros(1) not_None_eq)

text \<open>A round of the thread with work to do serves the head of the API queue, else of the event queue.\<close>

definition serves :: "'p hwi \<Rightarrow> sm_cmd \<Rightarrow> 'p cam \<Rightarrow> 'p cam \<Rightarrow> bool" where
  "serves h cmd c c' \<longleftrightarrow> sm c' = sm (exec_cmd h cmd c) \<and> sm_running c' = sm_running (exec_cmd h cmd c) \<and>
     m_smThreadActive c' = m_smThreadActive c \<and> cmd_sem c = Suc (cmd_sem c') \<and> sem_pending c' = sem_pending c"

lemma exec_cmd_keeps [simp]:
  "sem_pending (exec_cmd h cmd c) = sem_pending c" "cmd_sem (exec_cmd h cmd c) = cmd_sem c"
  "m_smThreadActive (exec_cmd h cmd c) = m_smThreadActive c"
  by (cases cmd; simp)+

lemma serves_eq:
  "0 < cmd_sem c \<Longrightarrow> serves h cmd c ((exec_cmd h cmd c)\<lparr>cmd_sem := cmd_sem c - 1, api_queue := q, evt_queue := r\<rparr>)"
  by (cases cmd) (simp_all add: serves_def)

lemma round_eq_api:
  assumes "sm_running c" and "0 < cmd_sem c" and "dequeue True (api_queue c) = (Some cmd, q)"
  shows "sm_thread_round h c =
    Some ((exec_cmd h cmd c)\<lparr>cmd_sem := cmd_sem c - 1, api_queue := q, evt_queue := evt_queue c\<rparr>)"
  using assms by (cases cmd) (simp_all add: sm_thread_round_def)

lemma round_eq_evt:
  assumes "sm_running c" and "0 < cmd_sem c" and "dequeue True (api_queue c) = (None, api_queue c)"
    and "dequeue True (evt_queue c) = (Some cmd, q)"
  shows "sm_thread_round h c =
    Some ((exec_cmd h cmd c)\<lparr>cmd_sem := cmd_sem c - 1, api_queue := api_queue c, evt_queue := q\<rparr>)"
  using assms by (cases cmd) (simp_all add: sm_thread_round_def)

lemma round_serves:
  assumes inv: "cam_inv c" and go: "sm_running c" "0 < cmd_sem c"
  shows "\<exists>cmd c'. sm_thread_round h c = Some c' \<and> serves h cmd c c' \<and> cam_inv c' \<and>
           (case cam_cmds c of
              (a # as, es) \<Rightarrow> cmd = a \<and> cam_cmds c' = (as, es)
            | ([], es) \<Rightarrow> es = cmd # snd (cam_cmds c') \<and> fst (cam_cmds c') = [])"
proof -
  from inv have ia: "q_inv (api_queue c)" and ie: "q_inv (evt_queue c)"
    and na: "None \<notin> set (q_items (api_queue c))" and ne: "None \<notin> set (q_items (evt_queue c))"
    and cnt: "cmd_sem c + sem_pending c = length (q_items (api_queue c)) + length (q_items (evt_queue c))"
    by (auto simp: cam_inv_def)
  show ?thesis
  proof (cases "q_items (api_queue c) = []")
    case False
    then obtain cmd as where as: "q_items (api_queue c) = Some cmd # as" using no_null_hd [OF na] by blast
    obtain q where q: "dequeue True (api_queue c) = (Some cmd, q)" "q_inv q" "q_items q = as"
      using cq.deq_head [OF ia as] by blast
    let ?c = "(exec_cmd h cmd c)\<lparr>cmd_sem := cmd_sem c - 1, api_queue := q, evt_queue := evt_queue c\<rparr>"
    have "cam_inv ?c" using q ie ne na as cnt go(2) by (simp add: cam_inv_def)
    moreover have "cam_cmds c = (cmd # non_null as, non_null (q_items (evt_queue c)))"
      and "cam_cmds ?c = (non_null as, non_null (q_items (evt_queue c)))"
      using as q by (simp_all add: cam_cmds_def)
    ultimately show ?thesis using round_eq_api [OF go q(1)] serves_eq [OF go(2)] by fastforce
  next
    case True
    then have "q_items (evt_queue c) \<noteq> []" using cnt go(2) by auto
    then obtain cmd es where es: "q_items (evt_queue c) = Some cmd # es" using no_null_hd [OF ne] by blast
    obtain q where q: "dequeue True (evt_queue c) = (Some cmd, q)" "q_inv q" "q_items q = es"
      using cq.deq_head [OF ie es] by blast
    let ?c = "(exec_cmd h cmd c)\<lparr>cmd_sem := cmd_sem c - 1, api_queue := api_queue c, evt_queue := q\<rparr>"
    have "cam_inv ?c" using q ia ne na es cnt go(2) True by (simp add: cam_inv_def)
    moreover have "cam_cmds c = ([], cmd # non_null es)" and "cam_cmds ?c = ([], non_null es)"
      using es q True by (simp_all add: cam_cmds_def)
    ultimately show ?thesis
      using round_eq_evt [OF go cq.deq_empty [OF ia True] q(1)] serves_eq [OF go(2)] by fastforce
  qed
qed

lemma round_inv: "sm_thread_round h c = Some c' \<Longrightarrow> cam_inv c \<Longrightarrow> cam_inv c'"
  using round_serves [of c h] by (auto simp: sm_thread_round_def split: if_splits)

lemma cam_step_inv: "cam_step h c c' \<Longrightarrow> cam_inv c \<Longrightarrow> cam_inv c'"
proof (induction rule: cam_step.induct)
  case (api qn c mem evt)
  then obtain r where "enqueue qn (Some (CmdAPI evt)) (api_queue c) = (qn \<noteq> None, r)" "q_inv r"
    "q_items r = (if qn = None then q_items (api_queue c) else q_items (api_queue c) @ [Some (CmdAPI evt)])"
    using cq.enq_result [of "api_queue c" qn "Some (CmdAPI evt)"] by (auto simp: cam_inv_def)
  with api show ?case by (auto simp: procAPI_enqueue_def cam_inv_def)
next
  case (evt qn c mem e)
  then obtain r where "enqueue qn (Some (CmdEVT e)) (evt_queue c) = (qn \<noteq> None, r)" "q_inv r"
    "q_items r = (if qn = None then q_items (evt_queue c) else q_items (evt_queue c) @ [Some (CmdEVT e)])"
    using cq.enq_result [of "evt_queue c" qn "Some (CmdEVT e)"] by (auto simp: cam_inv_def)
  with evt show ?case by (auto simp: procEvt_enqueue_def cam_inv_def)
next
  case (exit c n mem)
  then obtain r where "enqueue (Some n) (Some CmdEXIT) (api_queue c) = (True, r)" "q_inv r"
    "q_items r = q_items (api_queue c) @ [Some CmdEXIT]"
    using cq.enq_ok [of "api_queue c" n "Some CmdEXIT"] by (auto simp: cam_inv_def)
  with exit show ?case by (auto simp: releaseThread_enqueue_def cam_inv_def)
next
  case (post c)
  then show ?case by (auto simp: cam_sem_post_def cam_inv_def)
next
  case (round c c')
  then show ?case by (rule round_inv)
qed

lemma reachable_inv: "reachable h c c' \<Longrightarrow> cam_inv c \<Longrightarrow> cam_inv c'"
  unfolding reachable_def by (induction rule: rtranclp_induct) (auto intro: cam_step_inv)

end
