(* ===== verification/CameraApi.thy ===== *)
theory CameraApi
  imports SMThread
begin

text \<open>
  The API side of the handshake, from camera/QCamera2/HAL/QCamera2HWI.cpp: \<open>waitAPIResult\<close> and the camera
  device operations (\<open>set_preview_window\<close> to \<open>register_face_image\<close>), which all lock, queue an API command,
  wait for the result with their own code, and return a part of it.

  A call is modelled together with the rounds of the state machine's thread it waits for, with no other
  producer running meanwhile; \<open>None\<close> is a call that blocks.
\<close>

section \<open>Waiting\<close>

text \<open>The scan of \<open>waitAPIResult\<close>: unlink the first result with the code.\<close>

fun wait_scan :: "qcamera_sm_evt_enum_t \<Rightarrow> qcamera_api_result_t list \<Rightarrow>
    (qcamera_api_result_t \<times> qcamera_api_result_t list) option" where
  "wait_scan e [] = None"
| "wait_scan e (r # rs) =
     (if request_api r = e then Some (r, rs)
      else map_option (\<lambda>(x, rs'). (x, r # rs')) (wait_scan e rs))"

text \<open>
  Wait, wake up, scan, and wait again. The bound is the number of commands the thread can still take
  (\<open>cmd_sem\<close>): with no other producer the waiter sleeps for ever after them.
\<close>

fun wait_loop :: "'p hwi \<Rightarrow> qcamera_sm_evt_enum_t \<Rightarrow> nat \<Rightarrow> 'p cam \<Rightarrow> (qcamera_api_result_t \<times> 'p cam) option" where
  "wait_loop h e 0 c = None"
| "wait_loop h e (Suc n) c =
     (case sm_thread_round h c of
        None \<Rightarrow> None
      | Some c' \<Rightarrow>
          (case wait_scan e (m_apiResultList (sm c')) of
             Some (r, rs) \<Rightarrow> Some (r, c'\<lparr>sm := (sm c')\<lparr>m_apiResultList := rs\<rparr>\<rparr>)
           | None \<Rightarrow> wait_loop h e n c'))"

definition waitAPIResult :: "'p hwi \<Rightarrow> qcamera_sm_evt_enum_t \<Rightarrow> 'p cam \<Rightarrow> (qcamera_api_result_t \<times> 'p cam) option" where
  "waitAPIResult h e c = wait_loop h e (cmd_sem c) c"

section \<open>API calls\<close>

text \<open>What a call runs on: the HAL object, and the results of the two allocations of \<open>procAPI\<close>.\<close>

record 'p api_env =
  api_h :: "'p hwi"
  api_mem :: bool
  api_alloc :: "addr set \<Rightarrow> addr option"

definition api_call :: "'p api_env \<Rightarrow> sm_event \<Rightarrow> 'p cam \<Rightarrow> ((status_t \<times> qcamera_api_result_t option) \<times> 'p cam) option" where
  "api_call env evt c =
     (case processAPI (api_mem env) (api_alloc env (q_live (api_queue c))) evt c of (ret, c1) \<Rightarrow>
        if ret = NO_ERROR
        then map_option (\<lambda>(r, c2). ((NO_ERROR, Some r), c2)) (waitAPIResult (api_h env) (evt_of evt) c1)
        else Some ((ret, None), c1))"

datatype api_ret = RStatus status_t | RInt int | RPtr ptr | RVoid

fun result_enabled :: "qcamera_api_result_t \<Rightarrow> int" where
  "result_enabled r = (case result_u r of U_enabled n \<Rightarrow> n | _ \<Rightarrow> 0)"

fun result_handle :: "qcamera_api_result_t \<Rightarrow> int" where
  "result_handle r = (case result_u r of U_handle n \<Rightarrow> n | _ \<Rightarrow> 0)"

fun result_params :: "qcamera_api_result_t \<Rightarrow> ptr" where
  "result_params r = (case result_u r of U_params p \<Rightarrow> p | _ \<Rightarrow> None)"

definition api_with :: "(qcamera_api_result_t \<Rightarrow> api_ret) \<Rightarrow> (status_t \<Rightarrow> api_ret) \<Rightarrow>
    'p api_env \<Rightarrow> sm_event \<Rightarrow> 'p cam \<Rightarrow> (api_ret \<times> 'p cam) option" where
  "api_with ok bad env evt c =
     map_option (\<lambda>((ret, r), c'). (case r of Some r \<Rightarrow> ok r | None \<Rightarrow> bad ret, c')) (api_call env evt c)"

definition api_status :: "'p api_env \<Rightarrow> sm_event \<Rightarrow> 'p cam \<Rightarrow> (api_ret \<times> 'p cam) option" where
  "api_status = api_with (\<lambda>r. RStatus (status r)) RStatus"

definition api_enabled :: "'p api_env \<Rightarrow> sm_event \<Rightarrow> 'p cam \<Rightarrow> (api_ret \<times> 'p cam) option" where
  "api_enabled = api_with (\<lambda>r. RInt (result_enabled r)) RStatus"

definition api_void :: "'p api_env \<Rightarrow> sm_event \<Rightarrow> 'p cam \<Rightarrow> (api_ret \<times> 'p cam) option" where
  "api_void = api_with (\<lambda>r. RVoid) (\<lambda>rc. RVoid)"

text \<open>\<open>device->priv\<close> may be \<open>NULL\<close>: the operation then returns at once.\<close>

definition on_device :: "api_ret \<Rightarrow> ('p cam \<Rightarrow> (api_ret \<times> 'p cam) option) \<Rightarrow> 'p cam option \<Rightarrow> (api_ret \<times> 'p cam option) option" where
  "on_device bad f dev = (case dev of
     None \<Rightarrow> Some (bad, None)
   | Some hw \<Rightarrow> map_option (\<lambda>(r, hw'). (r, Some hw')) (f hw))"

definition hw_query :: "'p api_env \<Rightarrow> hwi_query \<Rightarrow> 'p cam \<Rightarrow> bool" where
  "hw_query env q c = h_query (api_h env) q (m_parent (sm c))"

definition hw_proc :: "'p api_env \<Rightarrow> hwi_proc \<Rightarrow> 'p cam \<Rightarrow> 'p cam" where
  "hw_proc env a c = c\<lparr>sm := (sm c)\<lparr>m_parent := h_proc (api_h env) (m_state (sm c)) a (m_parent (sm c))\<rparr>\<rparr>"

section \<open>The device operations\<close>

type_synonym 'p dev_op = "'p cam option \<Rightarrow> (api_ret \<times> 'p cam option) option"

definition set_preview_window :: "'p api_env \<Rightarrow> ptr \<Rightarrow> 'p dev_op" where
  "set_preview_window env window = on_device (RStatus BAD_VALUE) (api_status env (SetPreviewWindow window))"

definition set_CallBacks :: "'p api_env \<Rightarrow> setcb_payload \<Rightarrow> 'p dev_op" where
  "set_CallBacks env cbs = on_device RVoid (api_void env (SetCallbacks cbs))"

definition enable_msg_type :: "'p api_env \<Rightarrow> int32 \<Rightarrow> 'p dev_op" where
  "enable_msg_type env m = on_device RVoid (api_void env (EnableMsgType m))"

definition disable_msg_type :: "'p api_env \<Rightarrow> int32 \<Rightarrow> 'p dev_op" where
  "disable_msg_type env m = on_device RVoid (api_void env (DisableMsgType m))"

definition msg_type_enabled :: "'p api_env \<Rightarrow> int32 \<Rightarrow> 'p dev_op" where
  "msg_type_enabled env m = on_device (RStatus BAD_VALUE) (api_enabled env (MsgTypeEnabled m))"

definition start_preview :: "'p api_env \<Rightarrow> 'p dev_op" where
  "start_preview env = on_device (RStatus BAD_VALUE) (\<lambda>hw.
     let evt = (if hw_query env isNoDisplayMode hw then StartNodisplayPreview else StartPreview)
     in map_option (\<lambda>(r, hw'). (r, hw_proc env (set_bPreviewStarted True) hw')) (api_status env evt hw))"

definition stop_preview :: "'p api_env \<Rightarrow> 'p dev_op" where
  "stop_preview env = on_device RVoid (api_void env StopPreview)"

definition preview_enabled :: "'p api_env \<Rightarrow> 'p dev_op" where
  "preview_enabled env = on_device (RStatus BAD_VALUE) (api_enabled env PreviewEnabled)"

definition store_meta_data_in_buffers :: "'p api_env \<Rightarrow> int32 \<Rightarrow> 'p dev_op" where
  "store_meta_data_in_buffers env e = on_device (RStatus BAD_VALUE) (api_status env (StoreMetadataInBufs e))"

definition start_recording :: "'p api_env \<Rightarrow> 'p dev_op" where
  "start_recording env = on_device (RStatus BAD_VALUE) (\<lambda>hw.
     map_option (\<lambda>(r, hw'). (r, hw_proc env (set_bRecordStarted True) hw')) (api_status env StartRecording hw))"

definition stop_recording :: "'p api_env \<Rightarrow> 'p dev_op" where
  "stop_recording env = on_device RVoid (api_void env StopRecording)"

definition recording_enabled :: "'p api_env \<Rightarrow> 'p dev_op" where
  "recording_enabled env = on_device (RStatus BAD_VALUE) (api_enabled env RecordingEnabled)"

definition release_recording_frame :: "'p api_env \<Rightarrow> ptr \<Rightarrow> 'p dev_op" where
  "release_recording_frame env opaque = on_device RVoid (\<lambda>hw.
     if opaque = None then Some (RVoid, hw)
     else if hw_query env mVideoMem_set hw \<and> hw_query env mStoreMetaDataInFrame_pos hw
     then (case h_call (api_h env) (m_state (sm hw)) (videoMem_closeNativeHandle opaque) (m_parent (sm hw)) of
             (ret, p) \<Rightarrow>
               let hw1 = hw\<lparr>sm := (sm hw)\<lparr>m_parent := p\<rparr>\<rparr>
               in if ret \<noteq> NO_ERROR then Some (RVoid, hw1)
                  else api_void env (ReleaseRecordingFrame opaque) hw1)
     else api_void env (ReleaseRecordingFrame opaque) hw)"

definition auto_focus :: "'p api_env \<Rightarrow> 'p dev_op" where
  "auto_focus env = on_device (RStatus BAD_VALUE) (\<lambda>hw.
     if hw_query env isAFRunning hw then Some (RStatus NO_ERROR, hw) else api_status env StartAutoFocus hw)"

definition cancel_auto_focus :: "'p api_env \<Rightarrow> 'p dev_op" where
  "cancel_auto_focus env = on_device (RStatus BAD_VALUE) (api_status env StopAutoFocus)"

definition take_picture :: "'p api_env \<Rightarrow> 'p dev_op" where
  "take_picture env = on_device (RStatus BAD_VALUE) (\<lambda>hw.
     (case (if hw_query env mFlashNeeded hw \<or> hw_query env isChromaFlashEnabled hw
            then map_option (\<lambda>(r, hw'). hw_proc env (set_PrepSnapRun True) hw') (api_status env PrepareSnapshot hw)
            else Some hw) of
        None \<Rightarrow> None
      | Some hw' \<Rightarrow> api_status env TakePicture hw'))"

definition cancel_picture :: "'p api_env \<Rightarrow> 'p dev_op" where
  "cancel_picture env = on_device (RStatus BAD_VALUE) (api_status env CancelPicture)"

definition set_parameters :: "'p api_env \<Rightarrow> ptr \<Rightarrow> 'p dev_op" where
  "set_parameters env parms = on_device (RStatus BAD_VALUE) (api_status env (SetParams parms))"

definition get_parameters :: "'p api_env \<Rightarrow> 'p dev_op" where
  "get_parameters env = on_device (RPtr None) (api_with (\<lambda>r. RPtr (result_params r)) (\<lambda>rc. RPtr None) env GetParams)"

definition put_parameters :: "'p api_env \<Rightarrow> ptr \<Rightarrow> 'p dev_op" where
  "put_parameters env parm = on_device RVoid (api_void env (PutParams parm))"

definition send_command :: "'p api_env \<Rightarrow> camera_cmd \<Rightarrow> int32 \<Rightarrow> int32 \<Rightarrow> 'p dev_op" where
  "send_command env cmd arg1 arg2 = on_device (RStatus BAD_VALUE) (api_status env (SendCommand cmd arg1 arg2))"

definition release_device :: "'p api_env \<Rightarrow> 'p dev_op" where
  "release_device env = on_device RVoid (api_void env Release)"

definition dump_device :: "'p dev_op" where
  "dump_device dev = Some (RStatus NO_ERROR, dev)"

definition register_face_image :: "'p api_env \<Rightarrow> ptr \<Rightarrow> ptr \<Rightarrow> 'p dev_op" where
  "register_face_image env img cfg = on_device (RStatus BAD_VALUE)
     (api_with (\<lambda>r. RInt (result_handle r)) RStatus env (RegFaceImage img cfg))"

definition thermalEvtHandle :: "'p api_env \<Rightarrow> nat \<Rightarrow> 'p cam \<Rightarrow> (api_ret \<times> 'p cam) option" where
  "thermalEvtHandle env level hw =
     (if \<not> hw_query env mCameraOpened hw then Some (RStatus NO_ERROR, hw)
      else api_status env (ThermalNotify level) hw)"

section \<open>Lemmas\<close>

lemma wait_scan_first:
  assumes "filter (\<lambda>r. request_api r = e) rs = r # rest"
  shows "\<exists>rs'. wait_scan e rs = Some (r, rs') \<and> filter (\<lambda>r. request_api r = e) rs' = rest \<and>
           filter (\<lambda>r. request_api r \<noteq> e) rs' = filter (\<lambda>r. request_api r \<noteq> e) rs"
  using assms by (induction rs) (auto split: if_splits)

lemma wait_scan_none: "filter (\<lambda>r. request_api r = e) rs = [] \<Longrightarrow> wait_scan e rs = None"
  by (induction rs) (auto split: if_splits)

lemma wait_scan_snoc:
  "wait_scan e rs = None \<Longrightarrow> request_api r = e \<Longrightarrow> wait_scan e (rs @ [r]) = Some (r, rs)"
  by (induction rs) (auto split: if_splits)

text \<open>The situation of a caller: nobody else is calling, the thread runs, no post is outstanding.\<close>

definition api_idle :: "'p cam \<Rightarrow> bool" where
  "api_idle c \<longleftrightarrow> cam_inv c \<and> sm_running c \<and> m_smThreadActive c \<and> sem_pending c = 0 \<and> fst (cam_cmds c) = []"

definition env_ok :: "'p api_env \<Rightarrow> bool" where
  "env_ok env \<longleftrightarrow> no_oom (api_h env) \<and> api_mem env \<and> malloc_ok (api_alloc env) \<and>
     (\<forall>L. finite L \<longrightarrow> api_alloc env L \<noteq> None)"

lemma non_null_empty: "None \<notin> set xs \<Longrightarrow> non_null xs = [] \<longleftrightarrow> xs = []"
  by (induction xs rule: non_null.induct) auto

text \<open>After \<open>processAPI\<close> the command is the only one in the API queue, and the thread serves it next.\<close>

lemma processAPI_then_round:
  assumes idle: "api_idle c" and env: "env_ok env"
  shows "\<exists>c1 c2. processAPI (api_mem env) (api_alloc env (q_live (api_queue c))) evt c = (NO_ERROR, c1) \<and>
           0 < cmd_sem c1 \<and> sm_thread_round h c1 = Some c2 \<and> sm c2 = sm_step h evt (sm c) \<and>
           api_idle c2 \<and> cam_cmds c2 = cam_cmds c"
proof -
  from idle have inv: "cam_inv c" and run: "sm_running c" "m_smThreadActive c" "sem_pending c = 0"
    and em: "q_items (api_queue c) = []"
    by (auto simp: api_idle_def cam_cmds_def cam_inv_def non_null_empty)
  then have iq: "q_inv (api_queue c)" by (simp add: cam_inv_def)
  obtain n where n: "api_alloc env (q_live (api_queue c)) = Some n"
    using env q_inv_finite [OF iq] by (auto simp: env_ok_def)
  have fresh: "q_fresh (api_queue c) n" using malloc_fresh [of "api_alloc env" "api_queue c" n] iq n env by (simp add: env_ok_def)
  obtain q where q: "enqueue (Some n) (Some (CmdAPI evt)) (api_queue c) = (True, q)" "q_inv q"
    "q_items q = [Some (CmdAPI evt)]"
    using cq.enq_ok [OF iq fresh, of "Some (CmdAPI evt)"] em by auto
  let ?c1 = "c\<lparr>api_queue := q, sem_pending := 0, cmd_sem := cmd_sem c + 1\<rparr>"
  have p: "processAPI (api_mem env) (api_alloc env (q_live (api_queue c))) evt c = (NO_ERROR, ?c1)"
    using run env q(1) n by (simp add: processAPI_def procAPI_def procAPI_enqueue_def cam_sem_post_def env_ok_def)
  have i1: "cam_inv ?c1" using inv q run em by (auto simp: cam_inv_def)
  have c1: "cam_cmds ?c1 = ([CmdAPI evt], snd (cam_cmds c))" using q by (simp add: cam_cmds_def)
  have c0: "cam_cmds c = ([], snd (cam_cmds c))" using em by (simp add: cam_cmds_def)
  obtain cmd c2 where c2: "sm_thread_round h ?c1 = Some c2" "serves h cmd ?c1 c2" "cam_inv c2"
    "cmd = CmdAPI evt" "cam_cmds c2 = ([], snd (cam_cmds c))"
    using round_serves [OF i1, of h] run c1 by auto
  then have "api_idle c2" and "sm c2 = sm_step h evt (sm c)"
    using run by (simp_all add: api_idle_def serves_def)
  with p c2 c0 show ?thesis by (intro exI [of _ ?c1] exI [of _ c2]) simp
qed

lemma wait_first_round:
  assumes "0 < cmd_sem c" and "sm_thread_round h c = Some c'"
    and "wait_scan e (m_apiResultList (sm c')) = Some (r, rs)"
  shows "waitAPIResult h e c = Some (r, c'\<lparr>sm := (sm c')\<lparr>m_apiResultList := rs\<rparr>\<rparr>)"
  using assms by (cases "cmd_sem c") (simp_all add: waitAPIResult_def)

lemma idle_keeps: "api_idle c \<Longrightarrow> api_idle (c\<lparr>sm := x\<rparr>)" "cam_cmds (c\<lparr>sm := x\<rparr>) = cam_cmds c"
  by (simp_all add: api_idle_def cam_inv_def cam_cmds_def)

lemma wait_scan_append: "wait_scan e rs = Some (r, rs') \<Longrightarrow> wait_scan e (rs @ ys) = Some (r, rs' @ ys)"
  by (induction rs arbitrary: rs') (auto split: if_splits)

lemma api_call_round:
  assumes "api_idle c" and "env_ok env" and "t = sm_step (api_h env) evt (sm c)"
    and "wait_scan (evt_of evt) (m_apiResultList t) = Some (r, rs)"
  shows "\<exists>c'. api_call env evt c = Some ((NO_ERROR, Some r), c') \<and> api_idle c' \<and> cam_cmds c' = cam_cmds c \<and>
           sm c' = t\<lparr>m_apiResultList := rs\<rparr>"
proof -
  obtain c1 c2 where c: "processAPI (api_mem env) (api_alloc env (q_live (api_queue c))) evt c = (NO_ERROR, c1)"
    "0 < cmd_sem c1" "sm_thread_round (api_h env) c1 = Some c2" "sm c2 = t" "api_idle c2" "cam_cmds c2 = cam_cmds c"
    using processAPI_then_round [OF assms(1,2)] assms(3) by metis
  have "waitAPIResult (api_h env) (evt_of evt) c1 = Some (r, c2\<lparr>sm := t\<lparr>m_apiResultList := rs\<rparr>\<rparr>)"
    using wait_first_round [OF c(2,3)] assms(4) c(4) by simp
  then show ?thesis using c(1,5,6) by (simp add: api_call_def idle_keeps)
qed

section \<open>Properties\<close>

definition demo_env :: "unit api_env" where
  "demo_env = \<lparr>api_h = \<lparr>h_call = (\<lambda>_ _ p. (NO_ERROR, p)), h_proc = (\<lambda>_ _ p. p), h_query = (\<lambda>_ _. True),
     h_sendCommand = (\<lambda>_ _ a _ p. ((NO_ERROR, a), p)), h_updateParameters = (\<lambda>_ p. ((NO_ERROR, True), p)), h_getParameters = (\<lambda>p. (None, p)),
     h_registerFaceImage = (\<lambda>_ _ p. ((NO_ERROR, 7), p)), h_msgTypeEnabled = (\<lambda>_ _. 0),
     h_malloc = (\<lambda>_. True)\<rparr>, api_mem = True, api_alloc = next_addr\<rparr>"

lemma demo_env_ok: "env_ok demo_env"
  using next_addr_ok by (simp add: env_ok_def demo_env_def no_oom_def)

lemma cam_init_idle: "api_idle (cam_init p mem)"
  using cam_init_inv [of p mem] by (simp add: api_idle_def cam_cmds_def cam_init_def q_inv_init)



text \<open>
  C7. A call gets the status of its own handling. With no other API call in progress and no unclaimed
  result for the same code, a synchronous call whose answer is not deferred returns after one round of
  the thread, whatever events are queued: its result carries the status the handler returned in the
  current state, the result is taken off the list, the other results and the queued events are left.
\<close>

theorem api_call_returns_handler_status:
  assumes "api_idle c" and "env_ok env" and "synchronous evt" and "\<not> deferred (m_state (sm c)) evt"
    and "answers_to (evt_of evt) (sm c) = []"
    and "run_state (stateMachine (api_h env) evt) (sm c) = (rc, t)"
  shows "\<exists>r c'. api_call env evt c = Some ((NO_ERROR, Some r), c') \<and> status r = rc \<and> request_api r = evt_of evt \<and>
           sm c' = t\<lparr>m_apiResultList := m_apiResultList (sm c)\<rparr> \<and> api_idle c' \<and> cam_cmds c' = cam_cmds c"
proof -
  have "no_oom (api_h env)" using assms(2) by (simp add: env_ok_def)
  then obtain r where r: "m_apiResultList t = m_apiResultList (sm c) @ [r]" "request_api r = evt_of evt" "status r = rc"
    using run_wp [OF assms(6) answered_all [OF _ assms(3,4)]] by (auto simp: answered_def)
  have "wait_scan (evt_of evt) (m_apiResultList (sm c)) = None"
    using assms(5) by (intro wait_scan_none) (simp add: answers_to_def)
  then have "wait_scan (evt_of evt) (m_apiResultList t) = Some (r, m_apiResultList (sm c))"
    using wait_scan_snoc r by simp
  moreover have "t = sm_step (api_h env) evt (sm c)" using assms(6) by (simp add: sm_step_def)
  ultimately show ?thesis using api_call_round [OF assms(1,2)] r by blast
qed

theorem api_call_returns_handler_status_witness:
  "\<exists>r c'. api_call demo_env StartRecording (cam_init () raw_q) = Some ((NO_ERROR, Some r), c') \<and>
     request_api r = QCAMERA_SM_EVT_START_RECORDING \<and> api_idle c'"
proof -
  obtain rc t where t: "run_state (stateMachine (api_h demo_env) StartRecording) (sm (cam_init () raw_q)) = (rc, t)"
    by fastforce
  have "synchronous StartRecording" and "\<not> deferred (m_state (sm (cam_init () raw_q))) StartRecording"
    and "answers_to (evt_of StartRecording) (sm (cam_init () raw_q)) = []"
    by (simp_all add: synchronous_def deferred_def answers_to_def cam_init_def)
  from api_call_returns_handler_status [OF cam_init_idle demo_env_ok this t] show ?thesis by auto
qed

text \<open>
  A result nobody waited for is handed to the next caller. When an API command is queued without a
  wait (as \<open>takeLiveSnapshot_internal\<close> and \<open>checkIntPicPending\<close> do), its result stays in the list, and
  the next call of the same operation returns the status of that earlier command, not of its own.
\<close>

theorem unclaimed_result_is_stale:
  assumes "api_idle c" and "env_ok env" and "synchronous evt" and "\<not> deferred (m_state (sm c)) evt"
    and "answers_to (evt_of evt) (sm c) = []"
    and "run_state (stateMachine (api_h env) evt) (sm c) = (rc, t)"
    and "processAPI (api_mem env) (api_alloc env (q_live (api_queue c))) evt c = (NO_ERROR, c1)"
    and "sm_thread_round (api_h env) c1 = Some c2"
  shows "\<exists>r c3. api_call env evt c2 = Some ((NO_ERROR, Some r), c3) \<and> status r = rc \<and>
           m_apiResultList (sm c3) = m_apiResultList (sm c) @ drop (length (m_apiResultList (sm c)) + 1)
             (m_apiResultList (sm_step (api_h env) evt t))"
proof -
  obtain c1' c2' where "processAPI (api_mem env) (api_alloc env (q_live (api_queue c))) evt c = (NO_ERROR, c1')"
    "sm_thread_round (api_h env) c1' = Some c2'" "sm c2' = sm_step (api_h env) evt (sm c)" "api_idle c2'"
    using processAPI_then_round [OF assms(1,2)] by metis
  then have c2: "sm c2 = t" "api_idle c2" using assms(6-8) by (simp_all add: sm_step_def)
  have "no_oom (api_h env)" using assms(2) by (simp add: env_ok_def)
  then obtain r where r: "m_apiResultList t = m_apiResultList (sm c) @ [r]" "request_api r = evt_of evt" "status r = rc"
    using run_wp [OF assms(6) answered_all [OF _ assms(3,4)]] by (auto simp: answered_def)
  let ?u = "sm_step (api_h env) evt t"
  have "adds evt t ?u" by (rule sm_step_wp [OF adds_all])
  then have u: "m_apiResultList ?u = m_apiResultList t @ drop (length (m_apiResultList t)) (m_apiResultList ?u)"
    unfolding adds_def Let_def by (metis append_take_drop_id)
  have "wait_scan (evt_of evt) (m_apiResultList (sm c)) = None"
    using assms(5) by (intro wait_scan_none) (simp add: answers_to_def)
  then have "wait_scan (evt_of evt) (m_apiResultList t) = Some (r, m_apiResultList (sm c))"
    using wait_scan_snoc r by simp
  from wait_scan_append [OF this, of "drop (length (m_apiResultList t)) (m_apiResultList ?u)"]
  have "wait_scan (evt_of evt) (m_apiResultList ?u) =
      Some (r, m_apiResultList (sm c) @ drop (length (m_apiResultList t)) (m_apiResultList ?u))"
    using u by simp
  from api_call_round [OF c2(2) assms(2), of ?u evt, OF _ this] c2(1) r show ?thesis by auto
qed

theorem unclaimed_result_is_stale_witness:
  "\<exists>c1 c2 r c3. processAPI True (Some 1) CancelPicture (cam_init () raw_q) = (NO_ERROR, c1) \<and>
     sm_thread_round (api_h demo_env) c1 = Some c2 \<and>
     api_call demo_env CancelPicture c2 = Some ((NO_ERROR, Some r), c3) \<and> length (m_apiResultList (sm c3)) = 1"
proof -
  let ?c0 = "cam_init () raw_q"
  have q: "api_mem demo_env" "api_alloc demo_env (q_live (api_queue ?c0)) = Some 1"
    by (simp_all add: demo_env_def next_addr_def cam_init_def QCameraQueue_init_def)
  obtain c1 c2 where c: "processAPI True (Some 1) CancelPicture ?c0 = (NO_ERROR, c1)"
      "sm_thread_round (api_h demo_env) c1 = Some c2"
    using processAPI_then_round [OF cam_init_idle [of "()" raw_q] demo_env_ok, where evt = CancelPicture and h = "api_h demo_env"] q by auto
  have ok: "synchronous CancelPicture" "\<not> deferred (m_state (sm ?c0)) CancelPicture"
    "answers_to (evt_of CancelPicture) (sm ?c0) = []"
    by (simp_all add: synchronous_def deferred_def answers_to_def cam_init_def)
  let ?r = "mk_result NO_ERROR QCAMERA_SM_EVT_CANCEL_PICTURE QCAMERA_API_RESULT_TYPE_DEF U_zero"
  let ?s = "\<lambda>rs. \<lparr>m_state = QCAMERA_SM_STATE_PREVIEW_STOPPED, m_parent = (), m_apiResultList = rs, m_evtResult = None\<rparr>"
  have step: "run_state (stateMachine (api_h demo_env) CancelPicture) (?s rs) = (NO_ERROR, ?s (rs @ [?r]))" for rs
    by (rule wp_eqI) (simp add: stateMachine_def procEvtOf_def procEvtPreviewStoppedState_def
        procEvtPreviewStoppedState_b_def procEvtPreviewStoppedState_c_def reply_def sm_wp demo_env_def)
  have s0: "sm ?c0 = ?s []" by (simp add: cam_init_def)
  show ?thesis
    using unclaimed_result_is_stale [OF cam_init_idle [of "()" raw_q] demo_env_ok ok, of NO_ERROR "?s [?r]" c1 c2] c q step [of "[]"] step [of "[?r]"]
    by (auto simp: s0 sm_step_def)
qed

end
