(* ===== verification/CamTypes.thy ===== *)
theory CamTypes
  imports Prelude "HOL-Library.Word"
begin

text \<open>
  Types shared by the camera HAL and the mm-camera interface: the stream types of
  camera/QCamera2/stack/common/cam_types.h and the machine integers of the C code.
\<close>

type_synonym u8 = "8 word"
type_synonym u32 = "32 word"

datatype cam_stream_type_t =
    CAM_STREAM_TYPE_DEFAULT
  | CAM_STREAM_TYPE_PREVIEW
  | CAM_STREAM_TYPE_POSTVIEW
  | CAM_STREAM_TYPE_SNAPSHOT
  | CAM_STREAM_TYPE_VIDEO
  | CAM_STREAM_TYPE_IMPL_DEFINED
  | CAM_STREAM_TYPE_YUV
  | CAM_STREAM_TYPE_METADATA
  | CAM_STREAM_TYPE_RAW
  | CAM_STREAM_TYPE_OFFLINE_PROC

text \<open>The streams of a channel, and the buffers of a superbuf node, are arrays of this size.\<close>

definition MAX_STREAM_NUM_IN_BUNDLE :: nat where
  "MAX_STREAM_NUM_IN_BUNDLE = 4"

end
