(* ===== verification/HwiParams.thy ===== *)
theory HwiParams
  imports SMAnswers CamTypes "HOL-Library.AList"
begin

text \<open>
  The state of the HAL object (QCamera2HardwareInterface in QCamera2HWI.h) and the part of
  QCameraParameters the channel operations depend on: the batch of changed parameters, the staged and
  the committed mode flags, and the commit that moves one to the other.

  The camera server, the post processor and the deferred-work thread are reached through
  \<open>ext\<close>: the call is logged and its status comes from \<open>cam_server\<close>, a function of the calls made so
  far, so that a theorem about an operation holds for every way these parts can answer.

  \<open>keeps P m\<close> says that a program keeps a predicate. Its rules split a program along its structure.
\<close>

section \<open>The server\<close>

datatype cam_intf_parm_type_t =
    CAM_INTF_PARM_ZSL_MODE
  | CAM_INTF_PARM_RECORDING_HINT
  | CAM_INTF_PARM_HISTOGRAM
  | CAM_INTF_PARM_FD
  | CAM_INTF_PARM_LONGSHOT_ENABLE
  | CAM_INTF_PARM_FPS_RANGE
  | CAM_INTF_PARM_FRAMESKIP
  | CAM_INTF_PARM_FOCUS_BRACKETING
  | CAM_INTF_PARM_MULTI_TOUCH_FOCUS_BRACKETING
  | CAM_INTF_PARM_FLASH_BRACKETING
  | CAM_INTF_PARM_HDR
  | CAM_INTF_PARM_ZOOM
  | CAM_INTF_PARM_AWB_LOCK
  | CAM_INTF_PARM_AEC_LOCK
  | CAM_INTF_PARM_FOCUS_MODE
  | CAM_INTF_PARM_MAX_DIMENSION
  | CAM_INTF_PARM_OTHER nat

datatype adv_feature =
    UbiFocus | MultiTouchFocus | OptiZoom | Fssr | HDR | ChromaFlash | AEBracket

datatype mm_camera_advanced_capture_t =
    MM_CAMERA_AF_BRACKETING | MM_CAMERA_AE_BRACKETING | MM_CAMERA_FLASH_BRACKETING
  | MM_CAMERA_ZOOM_1X | MM_CAMERA_MTF_BRACKETING

datatype deffered_job = SnapshotJob | MetadataJob | RawdataJob | PostviewJob | ReprocJob

datatype srv_call =
    Add_channel
  | Delete_channel nat
  | Start_channel nat
  | Stop_channel nat
  | Get_bundle_info nat
  | Alloc_stream_info cam_stream_type_t
  | Stream_init cam_stream_type_t nat
  | Config_stream nat
  | Stream_start nat
  | Stream_stop nat
  | Stream_signal nat
  | Set_bundle_info nat
  | Delete_stream nat
  | Link_stream nat nat nat
  | Set_parms "cam_intf_parm_type_t list"
  | Do_auto_focus
  | Cancel_auto_focus
  | Prepare_snapshot bool
  | Request_super_buf nat nat
  | Cancel_super_buf_request nat
  | Process_advanced_capture mm_camera_advanced_capture_t nat bool
  | Start_zsl_snapshot nat
  | Stop_zsl_snapshot nat
  | Pproc_start "nat option"
  | Pproc_stop
  | Queue_deffered deffered_job
  | Wait_deffered deffered_job
  | Notify_cb camera_msg_type int32 int32
  | Pthread_create
  | Buf_shortage nat
  | Other_component nat

record cam_server =
  srv_status :: "srv_call list \<Rightarrow> srv_call \<Rightarrow> status_t"
  srv_handle :: "srv_call list \<Rightarrow> srv_call \<Rightarrow> nat"
  srv_bundle :: "srv_call list \<Rightarrow> nat \<Rightarrow> nat list"

text \<open>The server takes every parameter batch it is sent.\<close>

definition takes_parms :: "cam_server \<Rightarrow> bool" where
  "takes_parms srv \<longleftrightarrow> (\<forall>log ts. srv_status srv log (Set_parms ts) = NO_ERROR)"

section \<open>Streams, channels, parameters\<close>

record cam_stream =
  s_type :: cam_stream_type_t
  s_id :: nat
  s_channel :: nat
  s_deffered :: bool

record channel =
  m_handle :: nat
  m_bIsActive :: bool
  mStreams :: "cam_stream list"

datatype cam_focus_mode_type =
    CAM_FOCUS_MODE_AUTO | CAM_FOCUS_MODE_INFINITY | CAM_FOCUS_MODE_MACRO | CAM_FOCUS_MODE_FIXED
  | CAM_FOCUS_MODE_EDOF | CAM_FOCUS_MODE_CONTINOUS_VIDEO | CAM_FOCUS_MODE_CONTINOUS_PICTURE

datatype qcamera_thermal_mode = QCAMERA_THERMAL_ADJUST_FPS | QCAMERA_THERMAL_ADJUST_FRAMESKIP | THERMAL_MODE_OTHER

record qcam_params =
  m_bZslMode :: bool
  m_bZslMode_new :: bool
  m_bRecordingHint :: bool
  m_bRecordingHint_new :: bool
  m_bNeedRestart :: bool
  m_pParamBuf :: "cam_intf_parm_type_t list"
  m_map :: "string \<Rightarrow> string option"
  m_tempMap :: "(string \<times> string) list"
  m_bHistogramEnabled :: bool
  m_faceDetection :: bool
  m_bLongshotEnabled :: bool
  m_bIsLongshotLimited :: bool
  m_bNoDisplayMode :: bool
  mFocusMode :: cam_focus_mode_type
  mFocusScanning :: bool
  m_thermalMode :: qcamera_thermal_mode
  m_adv :: "adv_feature set"
  m_processedPicture :: bool
  m_numSnapshots :: nat
  m_advBurst :: nat
  m_video4k2k :: bool

text \<open>
  A parameter string, unflattened: its keys, and what the setters that are not modelled here do with it
  (the last of their failures, whether one asks for a restart, the entries they add).
\<close>

record parm_request =
  req :: "string \<Rightarrow> string option"
  rest_rc :: status_t
  rest_restart :: bool
  rest_parms :: "cam_intf_parm_type_t list"

record hwi_core =
  mCameraHandle :: cam_server
  srv_calls :: "srv_call list"
  mParameters :: qcam_params
  m_channels :: "qcamera_ch_type_enum_t \<Rightarrow> channel option"
  mPreviewWindow :: ptr
  mCallbacks :: setcb_payload
  mMsgEnabled :: int32
  mStoreMetaDataInFrame :: int32
  mLongshotEnabled :: bool
  mPrepSnapRun :: bool
  mActiveAF :: bool
  mCancelAutoFocus :: bool
  bPreviewStarted :: bool
  bRecordStarted :: bool
  mFPSReconfigure :: bool
  mAdvancedCaptureConfigured :: bool
  mIs3ALocked :: bool
  mMultipleStages :: bool
  mLiveSnapshotThread :: bool
  mVideoMem :: ptr
  mFlashNeeded_f :: bool
  mCameraOpened_f :: bool
  mThermalLevel :: nat
  parse_params :: "ptr \<Rightarrow> parm_request"
  flat_params :: "qcam_params \<Rightarrow> ptr"
  prop_restart :: bool
  prop_shutter :: bool
  prop_raw_yuv :: bool
  posted_evts :: "sm_event list"

type_synonym 'a hw = "(hwi_core, 'a) state"

section \<open>Programs over the HAL object\<close>

definition asks :: "('s \<Rightarrow> 'a) \<Rightarrow> ('s, 'a) state" where
  "asks f = State (\<lambda>s. (f s, s))"

definition modify :: "('s \<Rightarrow> 's) \<Rightarrow> ('s, unit) state" where
  "modify f = State (\<lambda>s. ((), f s))"

definition ext :: "srv_call \<Rightarrow> status_t hw" where
  "ext c = State (\<lambda>s. (srv_status (mCameraHandle s) (srv_calls s) c, s\<lparr>srv_calls := c # srv_calls s\<rparr>))"

definition ext_handle :: "srv_call \<Rightarrow> nat hw" where
  "ext_handle c = State (\<lambda>s. (srv_handle (mCameraHandle s) (srv_calls s) c, s\<lparr>srv_calls := c # srv_calls s\<rparr>))"

definition on_params :: "(qcam_params \<Rightarrow> qcam_params) \<Rightarrow> unit hw" where
  "on_params f = modify (\<lambda>s. s\<lparr>mParameters := f (mParameters s)\<rparr>)"

primrec for_each :: "('a \<Rightarrow> ('s, 'b) state) \<Rightarrow> 'a list \<Rightarrow> ('s, unit) state" where
  "for_each f [] = State_Monad.return ()"
| "for_each f (x # xs) = do { f x; for_each f xs }"

section \<open>What a program keeps\<close>

definition keeps :: "('s \<Rightarrow> bool) \<Rightarrow> ('s, 'a) state \<Rightarrow> bool" where
  "keeps P m \<longleftrightarrow> (\<forall>s. P s \<longrightarrow> P (snd (run_state m s)))"

named_theorems keeps_rules "what a program keeps, by its structure"

lemma keepsD: "keeps P m \<Longrightarrow> P s \<Longrightarrow> P (snd (run_state m s))"
  by (simp add: keeps_def)

lemma keeps_wp: "keeps P m \<Longrightarrow> P s \<Longrightarrow> wp m (\<lambda>_. P) s"
  by (auto simp: keeps_def wp_def split: prod.splits)

lemma keeps_return [keeps_rules]: "keeps P (State_Monad.return a)"
  by (simp add: keeps_def)

lemma keeps_bind [keeps_rules]:
  "keeps P m \<Longrightarrow> (\<And>a. keeps P (f a)) \<Longrightarrow> keeps P (State_Monad.bind m f)"
  by (auto simp: keeps_def split: prod.splits)

lemma keeps_if [keeps_rules]: "keeps P m \<Longrightarrow> keeps P n \<Longrightarrow> keeps P (if b then m else n)"
  by simp

lemma keeps_option [keeps_rules]:
  "keeps P m \<Longrightarrow> (\<And>a. keeps P (f a)) \<Longrightarrow> keeps P (case x of None \<Rightarrow> m | Some a \<Rightarrow> f a)"
  by (simp split: option.split)

lemma keeps_prod [keeps_rules]: "(\<And>a b. keeps P (f a b)) \<Longrightarrow> keeps P (case x of (a, b) \<Rightarrow> f a b)"
  by (simp split: prod.split)

lemma keeps_asks [keeps_rules]: "keeps P (asks f)"
  by (simp add: keeps_def asks_def)

lemma keeps_modify: "(\<And>s. P s \<Longrightarrow> P (f s)) \<Longrightarrow> keeps P (modify f)"
  by (simp add: keeps_def modify_def)

lemma keeps_for_each [keeps_rules]: "(\<And>x. keeps P (f x)) \<Longrightarrow> keeps P (for_each f xs)"
  by (induction xs) (auto intro: keeps_rules)

lemma keeps_conj: "keeps P m \<Longrightarrow> keeps Q m \<Longrightarrow> keeps (\<lambda>s. P s \<and> Q s) m"
  by (simp add: keeps_def)

lemma wp_asks [sm_wp]: "wp (asks f) Q s \<longleftrightarrow> Q (f s) s"
  by (simp add: asks_def wp_def)

lemma wp_modify [sm_wp]: "wp (modify f) Q s \<longleftrightarrow> Q () (f s)"
  by (simp add: modify_def wp_def)

lemma wp_ext [sm_wp]:
  "wp (ext c) Q s \<longleftrightarrow> Q (srv_status (mCameraHandle s) (srv_calls s) c) (s\<lparr>srv_calls := c # srv_calls s\<rparr>)"
  by (simp add: ext_def wp_def)

lemma wp_on_params [sm_wp]: "wp (on_params f) Q s \<longleftrightarrow> Q () (s\<lparr>mParameters := f (mParameters s)\<rparr>)"
  by (simp add: on_params_def modify_def wp_def)

text \<open>A predicate that does not look at the log of calls.\<close>

definition log_free :: "(hwi_core \<Rightarrow> bool) \<Rightarrow> bool" where
  "log_free P \<longleftrightarrow> (\<forall>s cs. P (s\<lparr>srv_calls := cs\<rparr>) = P s)"

lemma keeps_ext [keeps_rules]: "log_free P \<Longrightarrow> keeps P (ext c)"
  by (simp add: keeps_def ext_def log_free_def)

lemma keeps_ext_handle [keeps_rules]: "log_free P \<Longrightarrow> keeps P (ext_handle c)"
  by (simp add: keeps_def ext_handle_def log_free_def)

section \<open>Parameter batches\<close>

definition initBatchUpdate :: "qcam_params \<Rightarrow> qcam_params" where
  "initBatchUpdate p = p\<lparr>m_tempMap := [], m_pParamBuf := []\<rparr>"

text \<open>An entry that is in the batch is overwritten. The buffer of one megabyte is larger than all entries.\<close>

definition AddSetParmEntryToBatch :: "cam_intf_parm_type_t \<Rightarrow> qcam_params \<Rightarrow> qcam_params" where
  "AddSetParmEntryToBatch t p =
     (if t \<in> set (m_pParamBuf p) then p else p\<lparr>m_pParamBuf := m_pParamBuf p @ [t]\<rparr>)"

definition updateParamEntry :: "string \<Rightarrow> string \<Rightarrow> qcam_params \<Rightarrow> qcam_params" where
  "updateParamEntry k v p = p\<lparr>m_tempMap := AList.update k v (m_tempMap p)\<rparr>"

definition commitParamChanges :: "qcam_params \<Rightarrow> qcam_params" where
  "commitParamChanges p =
     p\<lparr>m_map := m_map p ++ map_of (m_tempMap p), m_tempMap := [],
       m_bRecordingHint := m_bRecordingHint_new p, m_bZslMode := m_bZslMode_new p\<rparr>"

definition commitSetBatch :: "status_t hw" where
  "commitSetBatch = do {
     buf \<leftarrow> asks (m_pParamBuf \<circ> mParameters);
     rc \<leftarrow> (if buf = [] then State_Monad.return NO_ERROR else ext (Set_parms buf));
     (if rc = NO_ERROR then on_params commitParamChanges else State_Monad.return ());
     State_Monad.return rc }"

text \<open>The shape of every setter that commits at once: a fresh batch, its entries, the commit.\<close>

definition commit_parms :: "cam_intf_parm_type_t list \<Rightarrow> status_t hw" where
  "commit_parms ts = do {
     on_params initBatchUpdate;
     for_each (\<lambda>t. on_params (AddSetParmEntryToBatch t)) ts;
     commitSetBatch }"

section \<open>Setters that commit\<close>

definition setRecordingHintValue :: "bool \<Rightarrow> qcam_params \<Rightarrow> qcam_params" where
  "setRecordingHintValue v p = AddSetParmEntryToBatch CAM_INTF_PARM_RECORDING_HINT
     (if m_bRecordingHint p \<noteq> v then p\<lparr>m_bNeedRestart := True, m_bRecordingHint_new := v\<rparr>
      else p\<lparr>m_bRecordingHint_new := m_bRecordingHint p\<rparr>)"

definition updateRecordingHintValue_op :: "bool \<Rightarrow> status_t hw" where
  "updateRecordingHintValue_op v = do {
     on_params (setRecordingHintValue v \<circ> initBatchUpdate);
     commitSetBatch }"

definition setHistogram_op :: "bool \<Rightarrow> status_t hw" where
  "setHistogram_op en = do {
     cur \<leftarrow> asks (m_bHistogramEnabled \<circ> mParameters);
     (if cur = en then State_Monad.return NO_ERROR
      else do {
        rc \<leftarrow> commit_parms [CAM_INTF_PARM_HISTOGRAM];
        (if rc \<noteq> NO_ERROR then State_Monad.return rc
         else do { on_params (\<lambda>p. p\<lparr>m_bHistogramEnabled := en\<rparr>); State_Monad.return rc }) }) }"

text \<open>The mask is changed before the commit, whether or not the server takes it.\<close>

definition setFaceDetection_op :: "bool \<Rightarrow> status_t hw" where
  "setFaceDetection_op en = do {
     cur \<leftarrow> asks (m_faceDetection \<circ> mParameters);
     (if cur = en then State_Monad.return NO_ERROR
      else do {
        on_params (\<lambda>p. p\<lparr>m_faceDetection := en\<rparr>);
        commit_parms [CAM_INTF_PARM_FD] }) }"

definition setLongshotEnable_op :: "bool \<Rightarrow> status_t hw" where
  "setLongshotEnable_op en = do {
     rc \<leftarrow> commit_parms [CAM_INTF_PARM_LONGSHOT_ENABLE];
     (if rc \<noteq> NO_ERROR then State_Monad.return rc
      else do {
        (if en then on_params (\<lambda>p. p\<lparr>m_bLongshotEnabled := True\<rparr>) else State_Monad.return ());
        State_Monad.return rc }) }"

definition set3ALock_op :: "status_t hw" where
  "set3ALock_op = commit_parms [CAM_INTF_PARM_AWB_LOCK, CAM_INTF_PARM_AEC_LOCK, CAM_INTF_PARM_FOCUS_MODE]"

text \<open>\<open>prepareRawStream\<close>: the largest dimension is sent, and the raw dimension asked back.\<close>

definition prepareRawStream_op :: "status_t hw" where
  "prepareRawStream_op = do {
     rc \<leftarrow> commit_parms [CAM_INTF_PARM_MAX_DIMENSION];
     (if rc \<noteq> NO_ERROR then State_Monad.return rc
      else do { on_params initBatchUpdate; ext (Other_component 0) }) }"

section \<open>Parameter strings\<close>

definition VALUE_OFF :: string where "VALUE_OFF = ''off''"
definition VALUE_ON :: string where "VALUE_ON = ''on''"
definition VALUE_FALSE :: string where "VALUE_FALSE = ''false''"
definition VALUE_TRUE :: string where "VALUE_TRUE = ''true''"
definition KEY_QC_ZSL :: string where "KEY_QC_ZSL = ''zsl''"
definition KEY_RECORDING_HINT :: string where "KEY_RECORDING_HINT = ''recording-hint''"
definition KEY_QC_NO_DISPLAY_MODE :: string where "KEY_QC_NO_DISPLAY_MODE = ''no-display-mode''"

definition ON_OFF_MODES_MAP :: "string \<Rightarrow> bool option" where
  "ON_OFF_MODES_MAP = map_of [(VALUE_OFF, False), (VALUE_ON, True)]"

definition TRUE_FALSE_MODES_MAP :: "string \<Rightarrow> bool option" where
  "TRUE_FALSE_MODES_MAP = map_of [(VALUE_FALSE, False), (VALUE_TRUE, True)]"

text \<open>The key is stored at once, the mode is staged until the next commit.\<close>

definition setZslMode :: "parm_request \<Rightarrow> qcam_params \<Rightarrow> status_t \<times> qcam_params" where
  "setZslMode r p =
     (case req r KEY_QC_ZSL of
        None \<Rightarrow> (NO_ERROR, p)
      | Some v \<Rightarrow>
          if m_map p KEY_QC_ZSL = Some v then (NO_ERROR, p)
          else (case ON_OFF_MODES_MAP v of
                  None \<Rightarrow> (BAD_VALUE, p)
                | Some b \<Rightarrow> (NO_ERROR, AddSetParmEntryToBatch CAM_INTF_PARM_ZSL_MODE
                    (p\<lparr>m_map := (m_map p)(KEY_QC_ZSL \<mapsto> v), m_bZslMode_new := b, m_bNeedRestart := True\<rparr>))))"

definition setRecordingHint :: "parm_request \<Rightarrow> qcam_params \<Rightarrow> status_t \<times> qcam_params" where
  "setRecordingHint r p =
     (case req r KEY_RECORDING_HINT of
        None \<Rightarrow> (NO_ERROR, p)
      | Some v \<Rightarrow>
          if m_map p KEY_RECORDING_HINT = Some v then (NO_ERROR, p)
          else (case TRUE_FALSE_MODES_MAP v of
                  None \<Rightarrow> (BAD_VALUE, p)
                | Some b \<Rightarrow> (NO_ERROR, setRecordingHintValue b (updateParamEntry KEY_RECORDING_HINT v p))))"

text \<open>The other setters: the entries they add, whether they ask for a restart, their status.\<close>

definition other_setters :: "parm_request \<Rightarrow> qcam_params \<Rightarrow> status_t \<times> qcam_params" where
  "other_setters r p = (rest_rc r, (fold AddSetParmEntryToBatch (rest_parms r) p)
     \<lparr>m_bNeedRestart := m_bNeedRestart p \<or> rest_restart r\<rparr>)"

definition parms_update :: "parm_request \<Rightarrow> qcam_params \<Rightarrow> (status_t \<times> bool) \<times> qcam_params" where
  "parms_update r p =
     (let p0 = initBatchUpdate (p\<lparr>m_bNeedRestart := False\<rparr>);
          (rc1, p1) = setZslMode r p0;
          (rc2, p2) = setRecordingHint r p1;
          (rc3, p3) = other_setters r p2
      in ((if rc3 \<noteq> NO_ERROR then rc3 else if rc2 \<noteq> NO_ERROR then rc2 else rc1, m_bNeedRestart p3), p3))"

section \<open>The mode\<close>

text \<open>No mode change is staged.\<close>

definition settled :: "qcam_params \<Rightarrow> bool" where
  "settled p \<longleftrightarrow> m_bZslMode_new p = m_bZslMode p \<and> m_bRecordingHint_new p = m_bRecordingHint p"

text \<open>The server takes batches, the restart property is off, the mode is settled and is the one given.\<close>

definition in_mode :: "bool \<Rightarrow> bool \<Rightarrow> hwi_core \<Rightarrow> bool" where
  "in_mode z h s \<longleftrightarrow> takes_parms (mCameraHandle s) \<and> \<not> prop_restart s \<and> settled (mParameters s)
     \<and> m_bZslMode (mParameters s) = z \<and> m_bRecordingHint (mParameters s) = h"

text \<open>The channels that exist are among the given ones.\<close>

definition within :: "qcamera_ch_type_enum_t set \<Rightarrow> hwi_core \<Rightarrow> bool" where
  "within C s \<longleftrightarrow> (\<forall>c. c \<notin> C \<longrightarrow> m_channels s c = None)"

lemma log_free_in_mode [keeps_rules]: "log_free (in_mode z h)"
  by (simp add: log_free_def in_mode_def)

lemma log_free_within [keeps_rules]: "log_free (within C)"
  by (simp add: log_free_def within_def)

lemma keeps_within_params [keeps_rules]: "keeps (within C) (on_params f)"
  unfolding on_params_def by (rule keeps_modify) (simp add: within_def)

lemma mode_AddSetParm [simp]:
  "m_bZslMode (AddSetParmEntryToBatch t p) = m_bZslMode p"
  "m_bZslMode_new (AddSetParmEntryToBatch t p) = m_bZslMode_new p"
  "m_bRecordingHint (AddSetParmEntryToBatch t p) = m_bRecordingHint p"
  "m_bRecordingHint_new (AddSetParmEntryToBatch t p) = m_bRecordingHint_new p"
  "m_bNeedRestart (AddSetParmEntryToBatch t p) = m_bNeedRestart p"
  by (simp_all add: AddSetParmEntryToBatch_def)

lemma mode_fold [simp]:
  "m_bZslMode (fold AddSetParmEntryToBatch ts p) = m_bZslMode p"
  "m_bZslMode_new (fold AddSetParmEntryToBatch ts p) = m_bZslMode_new p"
  "m_bRecordingHint (fold AddSetParmEntryToBatch ts p) = m_bRecordingHint p"
  "m_bRecordingHint_new (fold AddSetParmEntryToBatch ts p) = m_bRecordingHint_new p"
  by (induction ts arbitrary: p) simp_all

lemma keeps_mode_params:
  "(\<And>p. settled p \<Longrightarrow> settled (f p) \<and> m_bZslMode (f p) = m_bZslMode p \<and> m_bRecordingHint (f p) = m_bRecordingHint p)
   \<Longrightarrow> keeps (in_mode z h) (on_params f)"
  unfolding on_params_def by (rule keeps_modify) (auto simp: in_mode_def)

lemma keeps_commitSetBatch [keeps_rules]:
  "keeps (in_mode z h) commitSetBatch" "keeps (within C) commitSetBatch"
  unfolding commitSetBatch_def
  by (rule keeps_rules keeps_mode_params | simp add: commitParamChanges_def settled_def)+

lemma keeps_commit_parms [keeps_rules]:
  "keeps (in_mode z h) (commit_parms ts)" "keeps (within C) (commit_parms ts)"
  unfolding commit_parms_def
  by (rule keeps_rules keeps_mode_params | simp add: initBatchUpdate_def settled_def)+

lemma keeps_setters [keeps_rules]:
  "keeps (in_mode z h) (setHistogram_op en)" "keeps (within C) (setHistogram_op en)"
  "keeps (in_mode z h) (setFaceDetection_op en)" "keeps (within C) (setFaceDetection_op en)"
  "keeps (in_mode z h) (setLongshotEnable_op en)" "keeps (within C) (setLongshotEnable_op en)"
  "keeps (in_mode z h) set3ALock_op" "keeps (within C) set3ALock_op"
  "keeps (in_mode z h) prepareRawStream_op" "keeps (within C) prepareRawStream_op"
  "keeps (within C) (updateRecordingHintValue_op v)"
  unfolding setHistogram_op_def setFaceDetection_op_def setLongshotEnable_op_def set3ALock_op_def
    prepareRawStream_op_def updateRecordingHintValue_op_def
  by (rule keeps_rules keeps_mode_params | simp add: settled_def initBatchUpdate_def)+

text \<open>A commit the server takes makes the staged mode the mode.\<close>

lemma updateRecordingHint_mode:
  assumes "in_mode z h s"
  shows "wp (updateRecordingHintValue_op v) (\<lambda>_. in_mode z v) s"
  using assms by (auto simp: updateRecordingHintValue_op_def commitSetBatch_def sm_wp in_mode_def settled_def
      takes_parms_def setRecordingHintValue_def initBatchUpdate_def commitParamChanges_def)

text \<open>A parameter set that asks for no restart stages no mode change.\<close>

lemma setter_frames:
  "m_bNeedRestart p \<Longrightarrow> m_bNeedRestart (snd (setZslMode r p))"
  "m_bNeedRestart p \<Longrightarrow> m_bNeedRestart (snd (setRecordingHint r p))"
  "m_bNeedRestart p \<Longrightarrow> m_bNeedRestart (snd (other_setters r p))"
  "settled p \<Longrightarrow> \<not> m_bNeedRestart (snd (setZslMode r p)) \<Longrightarrow> settled (snd (setZslMode r p))"
  "settled p \<Longrightarrow> \<not> m_bNeedRestart (snd (setRecordingHint r p)) \<Longrightarrow> settled (snd (setRecordingHint r p))"
  "settled p \<Longrightarrow> settled (snd (other_setters r p))"
  by (auto simp: setZslMode_def setRecordingHint_def setRecordingHintValue_def other_setters_def
      updateParamEntry_def settled_def split: option.splits)

lemma setter_modes [simp]:
  "m_bZslMode (snd (setZslMode r p)) = m_bZslMode p"
  "m_bRecordingHint (snd (setZslMode r p)) = m_bRecordingHint p"
  "m_bZslMode (snd (setRecordingHint r p)) = m_bZslMode p"
  "m_bRecordingHint (snd (setRecordingHint r p)) = m_bRecordingHint p"
  "m_bZslMode (snd (other_setters r p)) = m_bZslMode p"
  "m_bRecordingHint (snd (other_setters r p)) = m_bRecordingHint p"
  by (auto simp: setZslMode_def setRecordingHint_def setRecordingHintValue_def other_setters_def
      updateParamEntry_def split: option.splits)

lemma parms_update_settled:
  assumes "settled p" and "\<not> snd (fst (parms_update r p))"
  shows "settled (snd (parms_update r p))"
proof -
  let ?p0 = "initBatchUpdate (p\<lparr>m_bNeedRestart := False\<rparr>)"
  have "settled ?p0"
    using assms(1) by (simp add: settled_def initBatchUpdate_def)
  with assms(2) show ?thesis
    unfolding parms_update_def Let_def split_beta fst_conv snd_conv by (metis setter_frames)
qed

lemma parms_update_mode:
  "m_bZslMode (snd (parms_update r p)) = m_bZslMode p"
  "m_bRecordingHint (snd (parms_update r p)) = m_bRecordingHint p"
  by (simp_all add: parms_update_def Let_def split_beta initBatchUpdate_def)

end
