(* ===== verification/HwiChannels.thy ===== *)
theory HwiChannels
  imports HwiParams
begin

text \<open>
  Channels and streams (QCameraChannel.cpp) and the channel table of the HAL object: adding, deleting,
  starting and stopping a channel (QCamera2HWI.cpp, addPreviewChannel to stopChannel). A new channel
  is built in a local variable and enters the table only when every stream was added; on a failure it
  is destroyed.
\<close>

section \<open>One channel\<close>

definition own_streams :: "channel \<Rightarrow> cam_stream list" where
  "own_streams ch = filter (\<lambda>s. s_channel s = m_handle ch) (mStreams ch)"

definition getStreamByServerID :: "channel \<Rightarrow> nat \<Rightarrow> cam_stream option" where
  "getStreamByServerID ch i = find (\<lambda>s. s_id s = i) (mStreams ch)"

primrec set_bundle :: "channel \<Rightarrow> nat list \<Rightarrow> status_t hw" where
  "set_bundle ch [] = State_Monad.return NO_ERROR"
| "set_bundle ch (i # is) =
     (case getStreamByServerID ch i of
        None \<Rightarrow> set_bundle ch is
      | Some st \<Rightarrow>
          if s_type st = CAM_STREAM_TYPE_METADATA then set_bundle ch is
          else do {
            rc \<leftarrow> ext (Set_bundle_info i);
            (if rc \<noteq> NO_ERROR then State_Monad.return rc else set_bundle ch is) })"

definition bundle_streams :: "channel \<Rightarrow> status_t hw" where
  "bundle_streams ch =
     (if length (mStreams ch) > 1
      then do {
        ids \<leftarrow> asks (\<lambda>s. srv_bundle (mCameraHandle s) (srv_calls s) (m_handle ch));
        rc \<leftarrow> ext (Get_bundle_info (m_handle ch));
        (if rc \<noteq> NO_ERROR then State_Monad.return rc
         else if length ids > 1 then set_bundle ch ids else State_Monad.return NO_ERROR) }
      else State_Monad.return NO_ERROR)"

definition channel_start :: "channel \<Rightarrow> (status_t \<times> channel) hw" where
  "channel_start ch = do {
     rc \<leftarrow> bundle_streams ch;
     (if rc \<noteq> NO_ERROR then State_Monad.return (rc, ch)
      else do {
        for_each (\<lambda>s. ext (Stream_start (s_id s))) (own_streams ch);
        rc \<leftarrow> ext (Start_channel (m_handle ch));
        (if rc \<noteq> NO_ERROR
         then do {
           for_each (\<lambda>s. ext (Stream_stop (s_id s))) (own_streams ch);
           State_Monad.return (rc, ch) }
         else do {
           for_each (\<lambda>s. ext (Stream_signal (s_id s))) (mStreams ch);
           State_Monad.return (rc, ch\<lparr>m_bIsActive := True\<rparr>) }) }) }"

text \<open>Only the last linked stream is removed, and only when it is not the first of the list.\<close>

definition last_linked :: "channel \<Rightarrow> nat option" where
  "last_linked ch =
     (case filter (\<lambda>i. s_channel (mStreams ch ! i) \<noteq> m_handle ch) [0..<length (mStreams ch)] of
        [] \<Rightarrow> None | is \<Rightarrow> Some (last is))"

definition drop_linked :: "channel \<Rightarrow> channel" where
  "drop_linked ch =
     (case last_linked ch of
        Some i \<Rightarrow> if i > 0 then ch\<lparr>mStreams := take i (mStreams ch) @ drop (Suc i) (mStreams ch)\<rparr> else ch
      | None \<Rightarrow> ch)"

definition channel_stop :: "channel \<Rightarrow> (status_t \<times> channel) hw" where
  "channel_stop ch = do {
     for_each (\<lambda>s. ext (Stream_stop (s_id s))) (own_streams ch);
     rc \<leftarrow> ext (Stop_channel (m_handle ch));
     State_Monad.return (rc, (drop_linked ch)\<lparr>m_bIsActive := False\<rparr>) }"

text \<open>The destructor; \<open>deleteChannel\<close> makes the same server calls and leaves the object.\<close>

definition channel_free :: "channel \<Rightarrow> channel hw" where
  "channel_free ch = do {
     ch' \<leftarrow> (if m_bIsActive ch then do { r \<leftarrow> channel_stop ch; State_Monad.return (snd r) }
            else State_Monad.return ch);
     for_each (\<lambda>s. ext (Delete_stream (s_id s))) (own_streams ch');
     ext (Delete_channel (m_handle ch'));
     State_Monad.return ch' }"

definition deleteChannel :: "channel \<Rightarrow> channel hw" where
  "deleteChannel ch = channel_free ch"

primrec config_streams :: "cam_stream list \<Rightarrow> status_t hw" where
  "config_streams [] = State_Monad.return NO_ERROR"
| "config_streams (s # ss) = do {
     rc \<leftarrow> ext (Config_stream (s_id s));
     (if rc \<noteq> NO_ERROR then State_Monad.return rc else config_streams ss) }"

definition channel_config :: "channel \<Rightarrow> status_t hw" where
  "channel_config ch = config_streams (filter s_deffered (own_streams ch))"

definition channel_init :: "(status_t \<times> channel) hw" where
  "channel_init = do {
     h \<leftarrow> ext_handle Add_channel;
     State_Monad.return (if h = 0 then UNKNOWN_ERROR else NO_ERROR,
       \<lparr>m_handle = h, m_bIsActive = False, mStreams = []\<rparr>) }"

definition channel_addStream :: "channel \<Rightarrow> cam_stream_type_t \<Rightarrow> bool \<Rightarrow> (status_t \<times> channel) hw" where
  "channel_addStream ch t deff =
     (if length (mStreams ch) \<ge> MAX_STREAM_NUM_IN_BUNDLE then State_Monad.return (BAD_VALUE, ch)
      else do {
        i \<leftarrow> asks (\<lambda>s. srv_handle (mCameraHandle s) (srv_calls s) (Stream_init t (m_handle ch)));
        rc \<leftarrow> ext (Stream_init t (m_handle ch));
        (if rc = NO_ERROR
         then State_Monad.return (rc, ch\<lparr>mStreams := mStreams ch @
           [\<lparr>s_type = t, s_id = i, s_channel = m_handle ch, s_deffered = deff\<rparr>]\<rparr>)
         else State_Monad.return (rc, ch)) })"

definition linkStream :: "channel \<Rightarrow> channel \<Rightarrow> cam_stream \<Rightarrow> (status_t \<times> channel) hw" where
  "linkStream ch src st =
     (if m_handle ch = 0 then State_Monad.return (NO_INIT, ch)
      else do {
        h \<leftarrow> ext_handle (Link_stream (m_handle src) (s_id st) (m_handle ch));
        (if h = 0 then State_Monad.return (INVALID_OPERATION, ch)
         else State_Monad.return (NO_ERROR, ch\<lparr>mStreams := mStreams ch @ [st]\<rparr>)) })"

section \<open>Adding a stream\<close>

text \<open>Streams of a still capture outside ZSL, longshot and recording get their buffers later.\<close>

definition deferred_type :: "hwi_core \<Rightarrow> cam_stream_type_t \<Rightarrow> bool" where
  "deferred_type s t \<longleftrightarrow>
     t \<in> {CAM_STREAM_TYPE_SNAPSHOT, CAM_STREAM_TYPE_POSTVIEW, CAM_STREAM_TYPE_METADATA, CAM_STREAM_TYPE_RAW}
     \<and> \<not> m_bZslMode (mParameters s) \<and> \<not> mLongshotEnabled s \<and> \<not> m_bRecordingHint (mParameters s)"

definition alloc_job :: "cam_stream_type_t \<Rightarrow> deffered_job option" where
  "alloc_job t = (case t of CAM_STREAM_TYPE_SNAPSHOT \<Rightarrow> Some SnapshotJob
     | CAM_STREAM_TYPE_METADATA \<Rightarrow> Some MetadataJob | CAM_STREAM_TYPE_RAW \<Rightarrow> Some RawdataJob | _ \<Rightarrow> None)"

definition queue_alloc :: "cam_stream_type_t \<Rightarrow> status_t hw" where
  "queue_alloc t =
     (case alloc_job t of
        None \<Rightarrow> State_Monad.return NO_ERROR
      | Some j \<Rightarrow> do {
          r \<leftarrow> ext (Queue_deffered j);
          State_Monad.return (if r = NO_ERROR then NO_ERROR else UNKNOWN_ERROR) })"

definition addStreamToChannel :: "channel \<Rightarrow> cam_stream_type_t \<Rightarrow> (status_t \<times> channel) hw" where
  "addStreamToChannel ch t = do {
     (if t = CAM_STREAM_TYPE_RAW then do { prepareRawStream_op; State_Monad.return () }
      else State_Monad.return ());
     info \<leftarrow> ext (Alloc_stream_info t);
     (if info \<noteq> NO_ERROR then State_Monad.return (NO_MEMORY, ch)
      else do {
        deff \<leftarrow> asks (\<lambda>s. deferred_type s t);
        (rc, ch') \<leftarrow> channel_addStream ch t deff;
        rc \<leftarrow> (if deff \<and> rc = NO_ERROR then queue_alloc t else State_Monad.return rc);
        (if rc \<noteq> NO_ERROR
         then do {
           for_each (\<lambda>j. ext (Wait_deffered j)) [MetadataJob, PostviewJob, SnapshotJob, RawdataJob];
           State_Monad.return (rc, ch') }
         else State_Monad.return (rc, ch')) }) }"

primrec add_streams :: "channel \<Rightarrow> cam_stream_type_t list \<Rightarrow> (status_t \<times> channel) hw" where
  "add_streams ch [] = State_Monad.return (NO_ERROR, ch)"
| "add_streams ch (t # ts) = do {
     (rc, ch') \<leftarrow> addStreamToChannel ch t;
     (if rc \<noteq> NO_ERROR then State_Monad.return (rc, ch') else add_streams ch' ts) }"

section \<open>The channel table\<close>

definition put_channel :: "qcamera_ch_type_enum_t \<Rightarrow> channel option \<Rightarrow> unit hw" where
  "put_channel c x = modify (\<lambda>s. s\<lparr>m_channels := (m_channels s)(c := x)\<rparr>)"

definition delete_slot :: "qcamera_ch_type_enum_t \<Rightarrow> unit hw" where
  "delete_slot c = do {
     x \<leftarrow> asks (\<lambda>s. m_channels s c);
     (case x of
        None \<Rightarrow> State_Monad.return ()
      | Some ch \<Rightarrow> do { channel_free ch; put_channel c None }) }"

text \<open>
  The common body of the add functions: a channel with these streams, entered in the table when all
  were added, destroyed otherwise. \<open>new\<close> does not return a null pointer here.
\<close>

definition build_channel :: "qcamera_ch_type_enum_t \<Rightarrow> cam_stream_type_t list \<Rightarrow> status_t hw" where
  "build_channel c ts = do {
     (rc, ch) \<leftarrow> channel_init;
     (if rc \<noteq> NO_ERROR then do { channel_free ch; State_Monad.return rc }
      else do {
        (rc, ch) \<leftarrow> add_streams ch ts;
        (if rc \<noteq> NO_ERROR then do { channel_free ch; State_Monad.return rc }
         else do { put_channel c (Some ch); State_Monad.return rc }) }) }"

definition addPreviewChannel :: "status_t hw" where
  "addPreviewChannel = do {
     delete_slot QCAMERA_CH_TYPE_PREVIEW;
     build_channel QCAMERA_CH_TYPE_PREVIEW [CAM_STREAM_TYPE_METADATA, CAM_STREAM_TYPE_PREVIEW] }"

definition addVideoChannel :: "status_t hw" where
  "addVideoChannel = do {
     delete_slot QCAMERA_CH_TYPE_VIDEO;
     build_channel QCAMERA_CH_TYPE_VIDEO [CAM_STREAM_TYPE_VIDEO] }"

definition addSnapshotChannel :: "status_t hw" where
  "addSnapshotChannel = do {
     delete_slot QCAMERA_CH_TYPE_SNAPSHOT;
     build_channel QCAMERA_CH_TYPE_SNAPSHOT [CAM_STREAM_TYPE_SNAPSHOT] }"

text \<open>The raw channel waits for each stream's buffers as it goes.\<close>

definition addRawChannel :: "status_t hw" where
  "addRawChannel = do {
     delete_slot QCAMERA_CH_TYPE_RAW;
     (rc, ch) \<leftarrow> channel_init;
     (if rc \<noteq> NO_ERROR then do { channel_free ch; State_Monad.return rc }
      else do {
        (rc, ch) \<leftarrow> addStreamToChannel ch CAM_STREAM_TYPE_METADATA;
        (if rc \<noteq> NO_ERROR then do { channel_free ch; State_Monad.return rc }
         else do {
           ext (Wait_deffered MetadataJob);
           (rc, ch) \<leftarrow> addStreamToChannel ch CAM_STREAM_TYPE_RAW;
           (if rc \<noteq> NO_ERROR then do { channel_free ch; State_Monad.return rc }
            else do {
              ext (Wait_deffered RawdataJob);
              put_channel QCAMERA_CH_TYPE_RAW (Some ch);
              State_Monad.return rc }) }) }) }"

definition addZSLChannel :: "status_t hw" where
  "addZSLChannel = do {
     delete_slot QCAMERA_CH_TYPE_ZSL;
     delete_slot QCAMERA_CH_TYPE_PREVIEW;
     raw \<leftarrow> asks prop_raw_yuv;
     build_channel QCAMERA_CH_TYPE_ZSL
       ([CAM_STREAM_TYPE_METADATA, CAM_STREAM_TYPE_PREVIEW, CAM_STREAM_TYPE_SNAPSHOT]
        @ (if raw then [CAM_STREAM_TYPE_RAW] else [])) }"

definition addCaptureChannel :: "status_t hw" where
  "addCaptureChannel = do {
     delete_slot QCAMERA_CH_TYPE_CAPTURE;
     raw \<leftarrow> asks prop_raw_yuv;
     lshot \<leftarrow> asks mLongshotEnabled;
     build_channel QCAMERA_CH_TYPE_CAPTURE
       ([CAM_STREAM_TYPE_METADATA, if lshot then CAM_STREAM_TYPE_PREVIEW else CAM_STREAM_TYPE_POSTVIEW,
         CAM_STREAM_TYPE_SNAPSHOT] @ (if raw then [CAM_STREAM_TYPE_RAW] else [])) }"

definition addMetaDataChannel :: "status_t hw" where
  "addMetaDataChannel = do {
     delete_slot QCAMERA_CH_TYPE_METADATA;
     build_channel QCAMERA_CH_TYPE_METADATA [CAM_STREAM_TYPE_METADATA] }"

definition addChannel :: "qcamera_ch_type_enum_t \<Rightarrow> status_t hw" where
  "addChannel c = (case c of
     QCAMERA_CH_TYPE_ZSL \<Rightarrow> addZSLChannel
   | QCAMERA_CH_TYPE_CAPTURE \<Rightarrow> addCaptureChannel
   | QCAMERA_CH_TYPE_PREVIEW \<Rightarrow> addPreviewChannel
   | QCAMERA_CH_TYPE_VIDEO \<Rightarrow> addVideoChannel
   | QCAMERA_CH_TYPE_SNAPSHOT \<Rightarrow> addSnapshotChannel
   | QCAMERA_CH_TYPE_RAW \<Rightarrow> addRawChannel
   | QCAMERA_CH_TYPE_METADATA \<Rightarrow> addMetaDataChannel)"

definition delChannel :: "qcamera_ch_type_enum_t \<Rightarrow> bool \<Rightarrow> status_t hw" where
  "delChannel c destroy = do {
     x \<leftarrow> asks (\<lambda>s. m_channels s c);
     (case x of
        None \<Rightarrow> State_Monad.return ()
      | Some ch \<Rightarrow>
          if destroy then do { channel_free ch; put_channel c None }
          else do { ch' \<leftarrow> deleteChannel ch; put_channel c (Some ch') });
     State_Monad.return NO_ERROR }"

definition start_slot :: "qcamera_ch_type_enum_t \<Rightarrow> status_t hw" where
  "start_slot c = do {
     x \<leftarrow> asks (\<lambda>s. m_channels s c);
     (case x of
        None \<Rightarrow> State_Monad.return UNKNOWN_ERROR
      | Some ch \<Rightarrow> do {
          (rc, ch') \<leftarrow> channel_start ch;
          put_channel c (Some ch');
          State_Monad.return rc }) }"

definition startChannel :: "qcamera_ch_type_enum_t \<Rightarrow> status_t hw" where
  "startChannel c = do {
     x \<leftarrow> asks (\<lambda>s. m_channels s c);
     (case x of
        None \<Rightarrow> State_Monad.return UNKNOWN_ERROR
      | Some ch \<Rightarrow> do {
          rc \<leftarrow> channel_config ch;
          (if rc \<noteq> NO_ERROR then State_Monad.return rc else start_slot c) }) }"

definition stopChannel_op :: "qcamera_ch_type_enum_t \<Rightarrow> status_t hw" where
  "stopChannel_op c = do {
     x \<leftarrow> asks (\<lambda>s. m_channels s c);
     (case x of
        None \<Rightarrow> State_Monad.return UNKNOWN_ERROR
      | Some ch \<Rightarrow> do {
          (rc, ch') \<leftarrow> channel_stop ch;
          put_channel c (Some ch');
          State_Monad.return rc }) }"

end
