(* ===== verification/HwiOps.thy ===== *)
theory HwiOps
  imports HwiChannels SMCaptureStates
begin

unbundle bit_operations_syntax

text \<open>
  The operations of QCamera2HardwareInterface the camera state machine calls (QCamera2HWI.cpp), over the
  channel table and the parameters, and the HAL object \<open>core_hwi\<close> they make. \<open>st\<close> is the state of the
  state machine, which \<open>sendCommand\<close> asks for.

  Preview and post-processing callbacks, and the metadata handlers that only pass data on, are calls of
  other components here.
\<close>

abbreviation skip :: "('s, unit) state" where
  "skip \<equiv> State_Monad.return ()"

section \<open>Settings\<close>

definition setPreviewWindow_op :: "ptr \<Rightarrow> status_t hw" where
  "setPreviewWindow_op w = do { modify (\<lambda>s. s\<lparr>mPreviewWindow := w\<rparr>); State_Monad.return NO_ERROR }"

definition setCallBacks_op :: "setcb_payload \<Rightarrow> status_t hw" where
  "setCallBacks_op c = do { modify (\<lambda>s. s\<lparr>mCallbacks := c\<rparr>); State_Monad.return NO_ERROR }"

definition enableMsgType_op :: "int32 \<Rightarrow> status_t hw" where
  "enableMsgType_op m = do {
     modify (\<lambda>s. s\<lparr>mMsgEnabled := mMsgEnabled s OR m\<rparr>); State_Monad.return NO_ERROR }"

definition disableMsgType_op :: "int32 \<Rightarrow> status_t hw" where
  "disableMsgType_op m = do {
     modify (\<lambda>s. s\<lparr>mMsgEnabled := mMsgEnabled s AND NOT m\<rparr>); State_Monad.return NO_ERROR }"

definition msgTypeEnabled_op :: "int32 \<Rightarrow> hwi_core \<Rightarrow> int" where
  "msgTypeEnabled_op m s = sint (mMsgEnabled s AND m)"

definition storeMetaDataInBuffers_op :: "int32 \<Rightarrow> status_t hw" where
  "storeMetaDataInBuffers_op e = do {
     modify (\<lambda>s. s\<lparr>mStoreMetaDataInFrame := e\<rparr>); State_Monad.return NO_ERROR }"

definition QCAMERA_THERMAL_SHUTDOWN :: nat where
  "QCAMERA_THERMAL_SHUTDOWN = 10"

text \<open>The frame rates themselves (\<open>calcThermalLevel\<close>) are not looked at here, its notification is.\<close>

definition updateThermalLevel_op :: "nat \<Rightarrow> status_t hw" where
  "updateThermalLevel_op level = do {
     opened \<leftarrow> asks mCameraOpened_f;
     (if \<not> opened then State_Monad.return NO_ERROR
      else do {
        (if level = QCAMERA_THERMAL_SHUTDOWN
         then do { ext (Notify_cb CAMERA_MSG_ERROR 100 0); skip } else skip);
        modify (\<lambda>s. s\<lparr>mThermalLevel := level\<rparr>);
        mode \<leftarrow> asks (m_thermalMode \<circ> mParameters);
        (case mode of
           QCAMERA_THERMAL_ADJUST_FPS \<Rightarrow> commit_parms [CAM_INTF_PARM_FPS_RANGE]
         | QCAMERA_THERMAL_ADJUST_FRAMESKIP \<Rightarrow> commit_parms [CAM_INTF_PARM_FRAMESKIP]
         | THERMAL_MODE_OTHER \<Rightarrow> State_Monad.return NO_ERROR) }) }"

definition focus_by_server :: "cam_focus_mode_type \<Rightarrow> bool" where
  "focus_by_server m \<longleftrightarrow> m \<in> {CAM_FOCUS_MODE_AUTO, CAM_FOCUS_MODE_MACRO, CAM_FOCUS_MODE_CONTINOUS_VIDEO,
     CAM_FOCUS_MODE_CONTINOUS_PICTURE}"

definition autoFocus_op :: "status_t hw" where
  "autoFocus_op = do {
     modify (\<lambda>s. s\<lparr>mCancelAutoFocus := False, mActiveAF := True\<rparr>);
     fm \<leftarrow> asks (mFocusMode \<circ> mParameters);
     (if focus_by_server fm then ext Do_auto_focus else ext (Notify_cb (CAMERA_MSG_OTHER 4) 1 0)) }"

definition cancelAutoFocus_op :: "status_t hw" where
  "cancelAutoFocus_op = do {
     modify (\<lambda>s. s\<lparr>mCancelAutoFocus := True, mActiveAF := False\<rparr>);
     fm \<leftarrow> asks (mFocusMode \<circ> mParameters);
     (if focus_by_server fm then ext Cancel_auto_focus else State_Monad.return NO_ERROR) }"

section \<open>Preview\<close>

definition zsl_preview :: "qcam_params \<Rightarrow> bool" where
  "zsl_preview p \<longleftrightarrow> m_bZslMode p \<and> \<not> m_bRecordingHint p"

definition startPreview_op :: "status_t hw" where
  "startPreview_op = do {
     lvl \<leftarrow> asks mThermalLevel;
     updateThermalLevel_op lvl;
     zsl \<leftarrow> asks (zsl_preview \<circ> mParameters);
     (if zsl then startChannel QCAMERA_CH_TYPE_ZSL
      else do {
        rc \<leftarrow> startChannel QCAMERA_CH_TYPE_PREVIEW;
        fm \<leftarrow> asks (mFocusMode \<circ> mParameters);
        (if fm = CAM_FOCUS_MODE_CONTINOUS_PICTURE then do { ext Cancel_auto_focus; skip } else skip);
        State_Monad.return rc }) }"

definition unpreparePreview_op :: "unit hw" where
  "unpreparePreview_op = do {
     delChannel QCAMERA_CH_TYPE_ZSL True;
     delChannel QCAMERA_CH_TYPE_PREVIEW True;
     delChannel QCAMERA_CH_TYPE_VIDEO True;
     delChannel QCAMERA_CH_TYPE_SNAPSHOT True;
     skip }"

definition stopPreview_op :: "status_t hw" where
  "stopPreview_op = do {
     modify (\<lambda>s. s\<lparr>mActiveAF := False\<rparr>);
     stopChannel_op QCAMERA_CH_TYPE_ZSL;
     stopChannel_op QCAMERA_CH_TYPE_PREVIEW;
     unpreparePreview_op;
     State_Monad.return NO_ERROR }"

section \<open>Advanced capture\<close>

definition lock_3A :: "unit hw" where
  "lock_3A = do { set3ALock_op; modify (\<lambda>s. s\<lparr>mIs3ALocked := True\<rparr>) }"

definition configure_bracket :: "cam_intf_parm_type_t \<Rightarrow> bool \<Rightarrow> status_t hw" where
  "configure_bracket t lock = do {
     rc \<leftarrow> commit_parms [t];
     (if rc \<noteq> NO_ERROR then State_Monad.return rc
      else do { (if lock then lock_3A else skip); State_Monad.return rc }) }"

definition configure_zoom :: "status_t hw" where
  "configure_zoom = do { commit_parms [CAM_INTF_PARM_ZOOM]; lock_3A; State_Monad.return NO_ERROR }"

definition configureAdvancedCapture_op :: "status_t hw" where
  "configureAdvancedCapture_op = do {
     adv \<leftarrow> asks (m_adv \<circ> mParameters);
     rc \<leftarrow> (if UbiFocus \<in> adv then configure_bracket CAM_INTF_PARM_FOCUS_BRACKETING True
           else if MultiTouchFocus \<in> adv then configure_bracket CAM_INTF_PARM_MULTI_TOUCH_FOCUS_BRACKETING True
           else if OptiZoom \<in> adv then configure_zoom
           else if Fssr \<in> adv then configure_zoom
           else if ChromaFlash \<in> adv then configure_bracket CAM_INTF_PARM_FLASH_BRACKETING False
           else if HDR \<in> adv \<or> AEBracket \<in> adv then configure_bracket CAM_INTF_PARM_HDR False
           else State_Monad.return BAD_VALUE);
     modify (\<lambda>s. s\<lparr>mAdvancedCaptureConfigured := (rc = NO_ERROR)\<rparr>);
     State_Monad.return rc }"

definition unconfigureAdvancedCapture_op :: "status_t hw" where
  "unconfigureAdvancedCapture_op = do {
     conf \<leftarrow> asks mAdvancedCaptureConfigured;
     (if \<not> conf then State_Monad.return NO_ERROR
      else do {
        modify (\<lambda>s. s\<lparr>mAdvancedCaptureConfigured := False\<rparr>);
        locked \<leftarrow> asks mIs3ALocked;
        (if locked then do { set3ALock_op; modify (\<lambda>s. s\<lparr>mIs3ALocked := False\<rparr>) } else skip);
        adv \<leftarrow> asks (m_adv \<circ> mParameters);
        (if HDR \<in> adv \<or> AEBracket \<in> adv then configure_bracket CAM_INTF_PARM_HDR False
         else if UbiFocus \<in> adv then configure_bracket CAM_INTF_PARM_FOCUS_BRACKETING False
         else if ChromaFlash \<in> adv then configure_bracket CAM_INTF_PARM_FLASH_BRACKETING False
         else if OptiZoom \<in> adv \<or> Fssr \<in> adv then commit_parms [CAM_INTF_PARM_ZOOM]
         else if MultiTouchFocus \<in> adv
         then do { configure_bracket CAM_INTF_PARM_MULTI_TOUCH_FOCUS_BRACKETING False;
                   State_Monad.return NO_ERROR }
         else State_Monad.return BAD_VALUE) }) }"

definition capture_type :: "adv_feature set \<Rightarrow> mm_camera_advanced_capture_t option" where
  "capture_type adv =
     (if UbiFocus \<in> adv then Some MM_CAMERA_AF_BRACKETING
      else if MultiTouchFocus \<in> adv then Some MM_CAMERA_MTF_BRACKETING
      else if ChromaFlash \<in> adv then Some MM_CAMERA_FLASH_BRACKETING
      else if HDR \<in> adv \<or> AEBracket \<in> adv then Some MM_CAMERA_AE_BRACKETING
      else if OptiZoom \<in> adv \<or> Fssr \<in> adv then Some MM_CAMERA_ZOOM_1X
      else None)"

definition advancedCapture_op :: "channel \<Rightarrow> bool \<Rightarrow> status_t hw" where
  "advancedCapture_op ch start = do {
     adv \<leftarrow> asks (m_adv \<circ> mParameters);
     (case capture_type adv of
        None \<Rightarrow> State_Monad.return BAD_VALUE
      | Some t \<Rightarrow> ext (Process_advanced_capture t (m_handle ch) start)) }"

section \<open>Pictures\<close>

definition needAdjustFPS_op :: "bool hw" where
  "needAdjustFPS_op = do {
     b \<leftarrow> asks (\<lambda>s. m_bZslMode (mParameters s) \<and> \<not> mPrepSnapRun s \<and> m_numSnapshots (mParameters s) = 1
        \<and> \<not> mLongshotEnabled s \<and> m_adv (mParameters s) - {AEBracket} = {} \<and> mThermalLevel s = 0);
     modify (\<lambda>s. s\<lparr>mFPSReconfigure := b\<rparr>);
     State_Monad.return b }"

definition takePicture_zsl :: "nat \<Rightarrow> status_t hw" where
  "takePicture_zsl num = do {
     adj \<leftarrow> needAdjustFPS_op;
     (if adj then do { commit_parms [CAM_INTF_PARM_FPS_RANGE]; skip } else skip);
     x \<leftarrow> asks (\<lambda>s. m_channels s QCAMERA_CH_TYPE_ZSL);
     (case x of
        None \<Rightarrow> State_Monad.return UNKNOWN_ERROR
      | Some ch \<Rightarrow> do {
          rc \<leftarrow> ext (Pproc_start (Some (m_handle ch)));
          (if rc \<noteq> NO_ERROR then State_Monad.return rc
           else do {
             adv \<leftarrow> asks (m_adv \<circ> mParameters);
             rc \<leftarrow> (if adv \<noteq> {} then advancedCapture_op ch True else State_Monad.return NO_ERROR);
             (if rc \<noteq> NO_ERROR then State_Monad.return rc
              else do {
                zsl_snap \<leftarrow> asks (\<lambda>s. mLongshotEnabled s \<and> mPrepSnapRun s);
                (if zsl_snap then do { ext (Start_zsl_snapshot (m_handle ch)); skip } else skip);
                rc \<leftarrow> ext (Request_super_buf (m_handle ch) num);
                (if rc \<noteq> NO_ERROR then do { ext Pproc_stop; State_Monad.return rc }
                 else State_Monad.return rc) }) }) }) }"

definition longShot_op :: "status_t hw" where
  "longShot_op = do {
     num \<leftarrow> asks (m_numSnapshots \<circ> mParameters);
     x \<leftarrow> asks (\<lambda>s. m_channels s (if m_bZslMode (mParameters s) then QCAMERA_CH_TYPE_ZSL else QCAMERA_CH_TYPE_CAPTURE));
     (case x of
        None \<Rightarrow> State_Monad.return NO_INIT
      | Some ch \<Rightarrow> ext (Request_super_buf (m_handle ch) num)) }"

text \<open>The preview is torn down for a normal capture; where this happens depends on the longshot flag.\<close>

definition drop_preview :: "unit hw" where
  "drop_preview = do {
     stopChannel_op QCAMERA_CH_TYPE_PREVIEW;
     delChannel QCAMERA_CH_TYPE_PREVIEW True;
     skip }"

definition capture_setup :: "(status_t \<times> bool) hw" where
  "capture_setup = do {
     lshot \<leftarrow> asks mLongshotEnabled;
     (if \<not> lshot
      then do {
        rc \<leftarrow> addCaptureChannel;
        drop_preview;
        (if rc \<noteq> NO_ERROR then State_Monad.return (rc, False)
         else do {
           for_each (\<lambda>j. ext (Wait_deffered j)) [SnapshotJob, MetadataJob, RawdataJob];
           q \<leftarrow> ext (Queue_deffered PostviewJob);
           ext (Wait_deffered PostviewJob);
           State_Monad.return (if q = NO_ERROR then NO_ERROR else UNKNOWN_ERROR, True) }) }
      else do {
        drop_preview;
        rc \<leftarrow> addCaptureChannel;
        State_Monad.return (rc, True) }) }"

definition capture_run :: "channel \<Rightarrow> status_t hw" where
  "capture_run ch = do {
     rc \<leftarrow> channel_config ch;
     (if rc \<noteq> NO_ERROR then do { delChannel QCAMERA_CH_TYPE_CAPTURE True; State_Monad.return rc }
      else do {
        ext (Queue_deffered ReprocJob);
        rc \<leftarrow> start_slot QCAMERA_CH_TYPE_CAPTURE;
        (if rc \<noteq> NO_ERROR
         then do { ext (Wait_deffered ReprocJob); delChannel QCAMERA_CH_TYPE_CAPTURE True; State_Monad.return rc }
         else do {
           adv \<leftarrow> asks (m_adv \<circ> mParameters);
           rc \<leftarrow> (if UbiFocus \<in> adv \<or> ChromaFlash \<in> adv then advancedCapture_op ch True
                 else State_Monad.return NO_ERROR);
           (if rc \<noteq> NO_ERROR then State_Monad.return rc
            else do {
              lshot \<leftarrow> asks mLongshotEnabled;
              (if \<not> lshot then State_Monad.return rc
               else do {
                 rc \<leftarrow> longShot_op;
                 (if rc \<noteq> NO_ERROR
                  then do { ext (Wait_deffered ReprocJob); delChannel QCAMERA_CH_TYPE_CAPTURE True;
                            State_Monad.return rc }
                  else State_Monad.return rc) }) }) }) }) }"

definition takePicture_processed :: "status_t hw" where
  "takePicture_processed = do {
     (rc, go) \<leftarrow> capture_setup;
     (if \<not> go then State_Monad.return rc
      else do {
        x \<leftarrow> asks (\<lambda>s. m_channels s QCAMERA_CH_TYPE_CAPTURE);
        (case x of
           Some ch \<Rightarrow> if rc = NO_ERROR then capture_run ch else State_Monad.return rc
         | None \<Rightarrow> State_Monad.return rc) }) }"

definition takePicture_raw :: "status_t hw" where
  "takePicture_raw = do {
     drop_preview;
     rc \<leftarrow> addRawChannel;
     (if rc \<noteq> NO_ERROR then State_Monad.return rc
      else do {
        x \<leftarrow> asks (\<lambda>s. m_channels s QCAMERA_CH_TYPE_RAW);
        rc \<leftarrow> ext (Pproc_start (map_option m_handle x));
        (if rc \<noteq> NO_ERROR then do { delChannel QCAMERA_CH_TYPE_RAW True; State_Monad.return rc }
         else do {
           rc \<leftarrow> startChannel QCAMERA_CH_TYPE_RAW;
           (if rc \<noteq> NO_ERROR
            then do { ext Pproc_stop; delChannel QCAMERA_CH_TYPE_RAW True; State_Monad.return rc }
            else State_Monad.return rc) }) }) }"

definition takePicture_op :: "status_t hw" where
  "takePicture_op = do {
     adv \<leftarrow> asks (m_adv \<circ> mParameters);
     conf \<leftarrow> (if adv \<noteq> {} then configureAdvancedCapture_op else State_Monad.return BAD_VALUE);
     num \<leftarrow> asks (\<lambda>s. if conf = NO_ERROR then m_advBurst (mParameters s) else m_numSnapshots (mParameters s));
     zsl \<leftarrow> asks (m_bZslMode \<circ> mParameters);
     processed \<leftarrow> asks (m_processedPicture \<circ> mParameters);
     (if zsl then takePicture_zsl num
      else if processed then takePicture_processed else takePicture_raw) }"

definition stopCaptureChannel_op :: "bool \<Rightarrow> status_t hw" where
  "stopCaptureChannel_op destroy = do {
     processed \<leftarrow> asks (m_processedPicture \<circ> mParameters);
     (if processed
      then do {
        stopChannel_op QCAMERA_CH_TYPE_CAPTURE;
        (if destroy then do { delChannel QCAMERA_CH_TYPE_CAPTURE False; skip } else skip) }
      else skip);
     State_Monad.return NO_ERROR }"

definition cancelPicture_op :: "status_t hw" where
  "cancelPicture_op = do {
     ext (Wait_deffered ReprocJob);
     ext Pproc_stop;
     unconfigureAdvancedCapture_op;
     zsl \<leftarrow> asks (m_bZslMode \<circ> mParameters);
     processed \<leftarrow> asks (m_processedPicture \<circ> mParameters);
     (if zsl
      then do {
        x \<leftarrow> asks (\<lambda>s. m_channels s QCAMERA_CH_TYPE_ZSL);
        (case x of
           None \<Rightarrow> skip
         | Some ch \<Rightarrow> do { advancedCapture_op ch False; ext (Cancel_super_buf_request (m_handle ch)); skip });
        fps \<leftarrow> asks mFPSReconfigure;
        (if fps then do { commit_parms [CAM_INTF_PARM_FPS_RANGE]; modify (\<lambda>s. s\<lparr>mFPSReconfigure := False\<rparr>) }
         else skip) }
      else if processed
      then do { stopChannel_op QCAMERA_CH_TYPE_CAPTURE; delChannel QCAMERA_CH_TYPE_CAPTURE True; skip }
      else do { stopChannel_op QCAMERA_CH_TYPE_RAW; delChannel QCAMERA_CH_TYPE_RAW True; skip });
     State_Monad.return NO_ERROR }"

section \<open>Live snapshots\<close>

definition takeLiveSnapshot_op :: "status_t hw" where
  "takeLiveSnapshot_op = do {
     rc \<leftarrow> ext Pthread_create;
     (if rc = NO_ERROR then modify (\<lambda>s. s\<lparr>mLiveSnapshotThread := True\<rparr>) else skip);
     State_Monad.return rc }"

text \<open>The body of the snapshot thread: the metadata stream of the preview is linked into the snapshot channel.\<close>

definition live_start :: "channel \<Rightarrow> status_t hw" where
  "live_start ch = do {
     pv \<leftarrow> asks (\<lambda>s. m_channels s QCAMERA_CH_TYPE_PREVIEW);
     (rc, ch') \<leftarrow> (case pv of
        None \<Rightarrow> State_Monad.return (NO_ERROR, ch)
      | Some pch \<Rightarrow>
          (case find (\<lambda>st. s_type st = CAM_STREAM_TYPE_METADATA) (mStreams pch) of
             None \<Rightarrow> State_Monad.return (NO_ERROR, ch)
           | Some st \<Rightarrow> linkStream ch pch st));
     (rc, ch'') \<leftarrow> channel_start ch';
     put_channel QCAMERA_CH_TYPE_SNAPSHOT (Some ch'');
     State_Monad.return rc }"

definition takeLiveSnapshot_internal_op :: "status_t hw" where
  "takeLiveSnapshot_internal_op = do {
     x \<leftarrow> asks (\<lambda>s. m_channels s QCAMERA_CH_TYPE_SNAPSHOT);
     rc \<leftarrow> ext (Pproc_start (map_option m_handle x));
     rc \<leftarrow> (if rc \<noteq> NO_ERROR then State_Monad.return rc
           else (case x of None \<Rightarrow> State_Monad.return NO_INIT | Some ch \<Rightarrow> live_start ch));
     (if rc \<noteq> NO_ERROR
      then do {
        modify (\<lambda>s. s\<lparr>posted_evts := posted_evts s @ [CancelPicture]\<rparr>);
        ext (Notify_cb CAMERA_MSG_ERROR 1 0) }
      else State_Monad.return rc) }"

definition cancelLiveSnapshot_op :: "status_t hw" where
  "cancelLiveSnapshot_op = do {
     modify (\<lambda>s. s\<lparr>mLiveSnapshotThread := False\<rparr>);
     ext Pproc_stop;
     stopChannel_op QCAMERA_CH_TYPE_SNAPSHOT }"

section \<open>Commands\<close>

definition zsl_snapshot_running :: "hwi_core \<Rightarrow> channel option" where
  "zsl_snapshot_running s =
     (if m_bZslMode (mParameters s) \<and> mPrepSnapRun s then m_channels s QCAMERA_CH_TYPE_ZSL else None)"

definition stop_zsl :: "unit hw" where
  "stop_zsl = do {
     x \<leftarrow> asks zsl_snapshot_running;
     (case x of None \<Rightarrow> skip | Some ch \<Rightarrow> do { ext (Stop_zsl_snapshot (m_handle ch)); skip }) }"

text \<open>A longshot needs more buffers than the ZSL snapshot stream may have: then the preview must restart.\<close>

definition longshot_restart :: "bool \<Rightarrow> int32 hw" where
  "longshot_restart previewing = do {
     zsl \<leftarrow> asks (m_bZslMode \<circ> mParameters);
     x \<leftarrow> asks (\<lambda>s. m_channels s QCAMERA_CH_TYPE_ZSL);
     (if \<not> (zsl \<and> previewing) then State_Monad.return 0
      else (case x of
              None \<Rightarrow> State_Monad.return 0
            | Some ch \<Rightarrow>
                (case find (\<lambda>st. s_type st = CAM_STREAM_TYPE_SNAPSHOT) (mStreams ch) of
                   None \<Rightarrow> State_Monad.return 0
                 | Some st \<Rightarrow> do {
                     n \<leftarrow> ext_handle (Buf_shortage (s_id st));
                     State_Monad.return (if n = 0 then 0 else RESTART_PERVIEW_num) }))) }"

definition sendCommand_op :: "qcamera_state_enum_t \<Rightarrow> camera_cmd \<Rightarrow> int32 \<Rightarrow> (status_t \<times> int32) hw" where
  "sendCommand_op st cmd arg1 = (case cmd of
     CAMERA_CMD_LONGSHOT_ON \<Rightarrow>
       if isCaptureRunning st then State_Monad.return (NO_INIT, 0)
       else do {
         modify (\<lambda>s. s\<lparr>mLongshotEnabled := True\<rparr>);
         a \<leftarrow> longshot_restart (isPreviewRunning st);
         rc \<leftarrow> setLongshotEnable_op True;
         modify (\<lambda>s. s\<lparr>mPrepSnapRun := False\<rparr>);
         State_Monad.return (rc, a) }
   | CAMERA_CMD_LONGSHOT_OFF \<Rightarrow> do {
       active \<leftarrow> asks (\<lambda>s. mLongshotEnabled s \<and> isCaptureRunning st);
       (if active
        then do {
          cancelPicture_op;
          modify (\<lambda>s. s\<lparr>posted_evts := posted_evts s @ [SnapshotDone]\<rparr>);
          stop_zsl }
        else skip);
       modify (\<lambda>s. s\<lparr>mPrepSnapRun := False, mLongshotEnabled := False\<rparr>);
       rc \<leftarrow> setLongshotEnable_op False;
       State_Monad.return (rc, arg1) }
   | CAMERA_CMD_STOP_LONGSHOT \<Rightarrow> do {
       active \<leftarrow> asks (\<lambda>s. mLongshotEnabled s \<and> isCaptureRunning st \<and> m_bIsLongshotLimited (mParameters s));
       (if active then stop_zsl else skip);
       State_Monad.return (NO_ERROR, arg1) }
   | CAMERA_CMD_HISTOGRAM_ON \<Rightarrow> do { rc \<leftarrow> setHistogram_op True; State_Monad.return (rc, arg1) }
   | CAMERA_CMD_HISTOGRAM_OFF \<Rightarrow> do { rc \<leftarrow> setHistogram_op False; State_Monad.return (rc, arg1) }
   | CAMERA_CMD_START_FACE_DETECTION \<Rightarrow> do { rc \<leftarrow> setFaceDetection_op True; State_Monad.return (rc, arg1) }
   | CAMERA_CMD_STOP_FACE_DETECTION \<Rightarrow> do { rc \<leftarrow> setFaceDetection_op False; State_Monad.return (rc, arg1) }
   | CAMERA_CMD_OTHER n \<Rightarrow> State_Monad.return (NO_ERROR, arg1))"

section \<open>Preparing the preview\<close>

definition quiet_features :: "qcamera_state_enum_t \<Rightarrow> unit hw" where
  "quiet_features st = do {
     lshot \<leftarrow> asks mLongshotEnabled;
     (if lshot then do { sendCommand_op st CAMERA_CMD_LONGSHOT_OFF 0; skip } else skip);
     fd \<leftarrow> asks (m_faceDetection \<circ> mParameters);
     (if fd then do { sendCommand_op st CAMERA_CMD_STOP_FACE_DETECTION 0; skip } else skip);
     hist \<leftarrow> asks (m_bHistogramEnabled \<circ> mParameters);
     (if hist then do { sendCommand_op st CAMERA_CMD_HISTOGRAM_OFF 0; skip } else skip) }"

definition prepare_video :: "qcamera_state_enum_t \<Rightarrow> status_t hw" where
  "prepare_video st = do {
     quiet_features st;
     big \<leftarrow> asks (m_video4k2k \<circ> mParameters);
     rc \<leftarrow> (if big then State_Monad.return NO_ERROR else addChannel QCAMERA_CH_TYPE_SNAPSHOT);
     (if rc \<noteq> NO_ERROR then State_Monad.return rc
      else do {
        rc \<leftarrow> addChannel QCAMERA_CH_TYPE_VIDEO;
        (if rc \<noteq> NO_ERROR then do { delChannel QCAMERA_CH_TYPE_SNAPSHOT True; State_Monad.return rc }
         else State_Monad.return rc) }) }"

definition preparePreview_op :: "qcamera_state_enum_t \<Rightarrow> status_t hw" where
  "preparePreview_op st = do {
     zsl \<leftarrow> asks (zsl_preview \<circ> mParameters);
     (if zsl then addChannel QCAMERA_CH_TYPE_ZSL
      else do {
        hint \<leftarrow> asks (m_bRecordingHint \<circ> mParameters);
        rc \<leftarrow> (if hint then prepare_video st else State_Monad.return NO_ERROR);
        (if rc \<noteq> NO_ERROR then State_Monad.return rc
         else do {
           rc \<leftarrow> addChannel QCAMERA_CH_TYPE_PREVIEW;
           (if rc \<noteq> NO_ERROR
            then do {
              (if hint
               then do { delChannel QCAMERA_CH_TYPE_SNAPSHOT True; delChannel QCAMERA_CH_TYPE_VIDEO True; skip }
               else skip);
              State_Monad.return rc }
            else do {
              (if \<not> hint then do { ext (Wait_deffered MetadataJob); skip } else skip);
              State_Monad.return rc }) }) }) }"

section \<open>Recording and release\<close>

definition startRecording_op :: "qcamera_state_enum_t \<Rightarrow> status_t hw" where
  "startRecording_op st = do {
     modify (\<lambda>s. s\<lparr>mVideoMem := None\<rparr>);
     hint \<leftarrow> asks (m_bRecordingHint \<circ> mParameters);
     rc \<leftarrow> (if hint then State_Monad.return NO_ERROR
           else do {
             stopPreview_op;
             updateRecordingHintValue_op True;
             rc \<leftarrow> preparePreview_op st;
             (if rc = NO_ERROR then startChannel QCAMERA_CH_TYPE_PREVIEW else State_Monad.return rc) });
     (if rc = NO_ERROR then startChannel QCAMERA_CH_TYPE_VIDEO else State_Monad.return rc) }"

definition stopRecording_op :: "status_t hw" where
  "stopRecording_op = do {
     rc \<leftarrow> stopChannel_op QCAMERA_CH_TYPE_VIDEO;
     modify (\<lambda>s. s\<lparr>mVideoMem := None\<rparr>);
     State_Monad.return rc }"

definition releaseRecordingFrame_op :: "ptr \<Rightarrow> status_t hw" where
  "releaseRecordingFrame_op opaque = do {
     x \<leftarrow> asks (\<lambda>s. m_channels s QCAMERA_CH_TYPE_VIDEO);
     (case x of
        None \<Rightarrow> State_Monad.return UNKNOWN_ERROR
      | Some ch \<Rightarrow>
          if find (\<lambda>st. s_type st = CAM_STREAM_TYPE_VIDEO) (mStreams ch) = None
          then State_Monad.return BAD_VALUE else ext (Other_component 1)) }"

definition release_op :: "status_t hw" where
  "release_op = do {
     for_each (\<lambda>c. do { stopChannel_op c; delChannel c True })
       [QCAMERA_CH_TYPE_ZSL, QCAMERA_CH_TYPE_CAPTURE, QCAMERA_CH_TYPE_PREVIEW, QCAMERA_CH_TYPE_VIDEO,
        QCAMERA_CH_TYPE_SNAPSHOT, QCAMERA_CH_TYPE_RAW, QCAMERA_CH_TYPE_METADATA];
     State_Monad.return NO_ERROR }"

definition commitParameterChanges_op :: "status_t hw" where
  "commitParameterChanges_op = commitSetBatch"

definition updateParameters_op :: "ptr \<Rightarrow> (status_t \<times> bool) hw" where
  "updateParameters_op x = State (\<lambda>s.
     (case parms_update (parse_params s x) (mParameters s) of (r, p) \<Rightarrow> (r, s\<lparr>mParameters := p\<rparr>)))"

text \<open>A face is registered through an offline reprocess channel, which is another component's.\<close>

definition registerFaceImage_op :: "ptr \<Rightarrow> ptr \<Rightarrow> (status_t \<times> int) hw" where
  "registerFaceImage_op img cfg =
     (if img = None \<or> cfg = None then State_Monad.return (BAD_VALUE, - 1)
      else do {
        rc \<leftarrow> ext (Other_component 2);
        i \<leftarrow> ext_handle (Other_component 3);
        State_Monad.return (rc, if rc = NO_ERROR then int i else - 1) })"

end
