(* ===== verification/HwiFrames.thy ===== *)
theory HwiFrames
  imports HwiOps
begin

text \<open>
  What the operations of HwiChannels and HwiOps leave alone: the committed mode (\<open>in_mode\<close>) and the set of
  channels that may exist (\<open>within\<close>). An operation that adds a channel keeps \<open>within C\<close> when \<open>C\<close> holds the
  channel it adds.
\<close>

section \<open>Channels\<close>

lemma keeps_set_bundle [keeps_rules]: "log_free P \<Longrightarrow> keeps P (set_bundle ch is)"
  by (induction "is") (auto intro!: keeps_rules split: option.split)

lemma keeps_config_streams [keeps_rules]: "log_free P \<Longrightarrow> keeps P (config_streams ss)"
  by (induction ss) (auto intro!: keeps_rules)

lemma keeps_channel [keeps_rules]:
  assumes "log_free P"
  shows "keeps P (bundle_streams ch)" "keeps P (channel_start ch)" "keeps P (channel_stop ch)"
    "keeps P (channel_free ch)" "keeps P (deleteChannel ch)" "keeps P (channel_config ch)"
    "keeps P channel_init" "keeps P (channel_addStream ch t d)" "keeps P (linkStream ch src st)"
    "keeps P (queue_alloc t)"
  unfolding bundle_streams_def channel_start_def channel_stop_def channel_free_def deleteChannel_def
    channel_config_def channel_init_def channel_addStream_def linkStream_def queue_alloc_def
  by (rule keeps_rules assms)+

lemma keeps_addStream [keeps_rules]:
  "keeps (in_mode z h) (addStreamToChannel ch t)" "keeps (within C) (addStreamToChannel ch t)"
  unfolding addStreamToChannel_def by (rule keeps_rules)+

lemma keeps_add_streams [keeps_rules]:
  "keeps (in_mode z h) (add_streams ch ts)" "keeps (within C) (add_streams ch ts)"
  by (induction ts arbitrary: ch) (auto intro!: keeps_rules)

lemma keeps_mode_modify:
  "(\<And>s. in_mode z h s \<Longrightarrow> in_mode z h (f s)) \<Longrightarrow> keeps (in_mode z h) (modify f)"
  by (rule keeps_modify)

lemma keeps_put [keeps_rules]:
  "keeps (in_mode z h) (put_channel c x)"
  "keeps (within C) (put_channel c None)"
  "c \<in> C \<Longrightarrow> keeps (within C) (put_channel c x)"
  unfolding put_channel_def by (rule keeps_modify; auto simp: in_mode_def within_def)+

text \<open>A channel found in the table is one that may be there.\<close>

lemma keeps_slot:
  assumes "\<And>ch. c \<in> C \<Longrightarrow> keeps (within C) (f ch)" and "keeps (within C) m"
  shows "keeps (within C) (do { x \<leftarrow> asks (\<lambda>s. m_channels s c); case x of None \<Rightarrow> m | Some ch \<Rightarrow> f ch })"
proof -
  have "c \<in> C" if "within C s" "m_channels s c = Some ch" for s ch
    using that by (auto simp: within_def)
  with assms show ?thesis
    by (auto simp: keeps_def asks_def split: option.split)
qed

lemma keeps_table [keeps_rules]:
  "keeps (in_mode z h) (delete_slot c)" "keeps (within C) (delete_slot c)"
  "keeps (in_mode z h) (delChannel c d)" "keeps (within C) (delChannel c d)"
  "keeps (in_mode z h) (start_slot c)" "keeps (within C) (start_slot c)"
  "keeps (in_mode z h) (startChannel c)" "keeps (within C) (startChannel c)"
  "keeps (in_mode z h) (stopChannel_op c)" "keeps (within C) (stopChannel_op c)"
proof -
  show "keeps (within C) (delChannel c d)"
    unfolding delChannel_def State_Monad.bind_assoc [symmetric]
    by (rule keeps_bind, rule keeps_slot) (rule keeps_rules | assumption)+
qed (unfold delete_slot_def delChannel_def startChannel_def start_slot_def stopChannel_op_def,
    (rule keeps_slot keeps_rules | assumption)+)

lemma keeps_build [keeps_rules]:
  "keeps (in_mode z h) (build_channel c ts)" "c \<in> C \<Longrightarrow> keeps (within C) (build_channel c ts)"
  unfolding build_channel_def by (rule keeps_rules | assumption)+

lemma keeps_addChannel [keeps_rules]:
  "keeps (in_mode z h) (addChannel c)" "c \<in> C \<Longrightarrow> keeps (within C) (addChannel c)"
  unfolding addChannel_def addZSLChannel_def addCaptureChannel_def addPreviewChannel_def addVideoChannel_def
    addSnapshotChannel_def addRawChannel_def addMetaDataChannel_def
  by (cases c; (rule keeps_rules | simp)+)+

lemma keeps_addCapture [keeps_rules]:
  "keeps (in_mode z h) addCaptureChannel" "QCAMERA_CH_TYPE_CAPTURE \<in> C \<Longrightarrow> keeps (within C) addCaptureChannel"
  "keeps (in_mode z h) addRawChannel" "QCAMERA_CH_TYPE_RAW \<in> C \<Longrightarrow> keeps (within C) addRawChannel"
  using keeps_addChannel(1) [where c = QCAMERA_CH_TYPE_CAPTURE] keeps_addChannel(2) [where c = QCAMERA_CH_TYPE_CAPTURE]
    keeps_addChannel(1) [where c = QCAMERA_CH_TYPE_RAW] keeps_addChannel(2) [where c = QCAMERA_CH_TYPE_RAW]
  by (simp_all add: addChannel_def)

text \<open>Deleting a channel empties its slot and no other.\<close>

lemma log_free_channels [keeps_rules]: "log_free (\<lambda>s. m_channels s = M)"
  by (simp add: log_free_def)

lemma delChannel_slot: "wp (delChannel c True) (\<lambda>_ t. m_channels t = (m_channels s)(c := None)) s"
proof (cases "m_channels s c")
  case None
  then show ?thesis by (auto simp: delChannel_def sm_wp)
next
  case (Some ch)
  have "wp (channel_free ch) (\<lambda>_ t. m_channels t = m_channels s) s"
    by (rule keeps_wp) (rule keeps_rules | simp)+
  with Some show ?thesis
    by (auto simp: delChannel_def put_channel_def sm_wp elim: wp_mono)
qed

section \<open>Operations\<close>

text \<open>The channels that no preview is made of.\<close>

definition capture_chans :: "qcamera_ch_type_enum_t set" where
  "capture_chans = {QCAMERA_CH_TYPE_CAPTURE, QCAMERA_CH_TYPE_RAW, QCAMERA_CH_TYPE_METADATA}"

text \<open>The channels of a mode.\<close>

definition mode_chans :: "bool \<Rightarrow> bool \<Rightarrow> qcamera_ch_type_enum_t set" where
  "mode_chans z h = capture_chans \<union> {QCAMERA_CH_TYPE_PREVIEW}
     \<union> (if h then {QCAMERA_CH_TYPE_VIDEO, QCAMERA_CH_TYPE_SNAPSHOT} else {})
     \<union> (if z \<and> \<not> h then {QCAMERA_CH_TYPE_ZSL} else {})"

lemma keeps_thermal [keeps_rules]:
  "keeps P a \<Longrightarrow> keeps P b \<Longrightarrow> keeps P c \<Longrightarrow>
     keeps P (case m of QCAMERA_THERMAL_ADJUST_FPS \<Rightarrow> a | QCAMERA_THERMAL_ADJUST_FRAMESKIP \<Rightarrow> b | THERMAL_MODE_OTHER \<Rightarrow> c)"
  by (cases m) simp_all

lemma keeps_mode_simple [keeps_rules]:
  "keeps (in_mode z h) (setPreviewWindow_op w)" "keeps (in_mode z h) (setCallBacks_op cb)"
  "keeps (in_mode z h) (enableMsgType_op m)" "keeps (in_mode z h) (disableMsgType_op m)"
  "keeps (in_mode z h) (storeMetaDataInBuffers_op e)" "keeps (in_mode z h) (updateThermalLevel_op l)"
  "keeps (in_mode z h) autoFocus_op" "keeps (in_mode z h) cancelAutoFocus_op"
  "keeps (in_mode z h) lock_3A" "keeps (in_mode z h) (configure_bracket t b)" "keeps (in_mode z h) configure_zoom"
  "keeps (in_mode z h) (advancedCapture_op ch b)" "keeps (in_mode z h) needAdjustFPS_op"
  "keeps (in_mode z h) unpreparePreview_op" "keeps (in_mode z h) drop_preview"
  "keeps (in_mode z h) longShot_op" "keeps (in_mode z h) stop_zsl" "keeps (in_mode z h) (longshot_restart b)"
  unfolding setPreviewWindow_op_def setCallBacks_op_def enableMsgType_op_def disableMsgType_op_def
    storeMetaDataInBuffers_op_def updateThermalLevel_op_def autoFocus_op_def cancelAutoFocus_op_def lock_3A_def
    configure_bracket_def configure_zoom_def advancedCapture_op_def needAdjustFPS_op_def
    unpreparePreview_op_def drop_preview_def longShot_op_def stop_zsl_def longshot_restart_def
  by (rule keeps_rules | rule keeps_modify | simp add: in_mode_def)+

lemma keeps_within_simple [keeps_rules]:
  "keeps (within C) (setPreviewWindow_op w)" "keeps (within C) (setCallBacks_op cb)"
  "keeps (within C) (enableMsgType_op m)" "keeps (within C) (disableMsgType_op m)"
  "keeps (within C) (storeMetaDataInBuffers_op e)" "keeps (within C) (updateThermalLevel_op l)"
  "keeps (within C) autoFocus_op" "keeps (within C) cancelAutoFocus_op"
  "keeps (within C) lock_3A" "keeps (within C) (configure_bracket t b)" "keeps (within C) configure_zoom"
  "keeps (within C) (advancedCapture_op ch b)" "keeps (within C) needAdjustFPS_op"
  "keeps (within C) unpreparePreview_op" "keeps (within C) drop_preview"
  "keeps (within C) longShot_op" "keeps (within C) stop_zsl" "keeps (within C) (longshot_restart b)"
  unfolding setPreviewWindow_op_def setCallBacks_op_def enableMsgType_op_def disableMsgType_op_def
    storeMetaDataInBuffers_op_def updateThermalLevel_op_def autoFocus_op_def cancelAutoFocus_op_def lock_3A_def
    configure_bracket_def configure_zoom_def advancedCapture_op_def needAdjustFPS_op_def
    unpreparePreview_op_def drop_preview_def longShot_op_def stop_zsl_def longshot_restart_def
  by (rule keeps_rules | rule keeps_modify | simp add: within_def)+

lemma keeps_mode_capture [keeps_rules]:
  "keeps (in_mode z h) configureAdvancedCapture_op" "keeps (in_mode z h) unconfigureAdvancedCapture_op"
  "keeps (in_mode z h) (takePicture_zsl n)" "keeps (in_mode z h) capture_setup" "keeps (in_mode z h) (capture_run ch)"
  unfolding configureAdvancedCapture_op_def unconfigureAdvancedCapture_op_def takePicture_zsl_def
    capture_setup_def capture_run_def
  by (rule keeps_rules | rule keeps_modify | simp add: in_mode_def)+

lemma keeps_within_capture [keeps_rules]:
  assumes "capture_chans \<subseteq> C"
  shows "keeps (within C) configureAdvancedCapture_op" "keeps (within C) unconfigureAdvancedCapture_op"
    "keeps (within C) (takePicture_zsl n)" "keeps (within C) capture_setup" "keeps (within C) (capture_run ch)"
  unfolding configureAdvancedCapture_op_def unconfigureAdvancedCapture_op_def takePicture_zsl_def
    capture_setup_def capture_run_def
  using assms by - (rule keeps_rules | rule keeps_modify | simp add: within_def capture_chans_def | assumption)+

lemma keeps_mode_ops [keeps_rules]:
  "keeps (in_mode z h) startPreview_op" "keeps (in_mode z h) stopPreview_op"
  "keeps (in_mode z h) takePicture_processed" "keeps (in_mode z h) takePicture_raw" "keeps (in_mode z h) takePicture_op"
  "keeps (in_mode z h) (stopCaptureChannel_op d)" "keeps (in_mode z h) cancelPicture_op"
  "keeps (in_mode z h) takeLiveSnapshot_op" "keeps (in_mode z h) cancelLiveSnapshot_op"
  "keeps (in_mode z h) stopRecording_op" "keeps (in_mode z h) (releaseRecordingFrame_op p)"
  "keeps (in_mode z h) release_op" "keeps (in_mode z h) commitParameterChanges_op"
  "keeps (in_mode z h) (registerFaceImage_op i c)"
  unfolding startPreview_op_def stopPreview_op_def takePicture_processed_def takePicture_raw_def takePicture_op_def
    stopCaptureChannel_op_def cancelPicture_op_def takeLiveSnapshot_op_def cancelLiveSnapshot_op_def
    stopRecording_op_def releaseRecordingFrame_op_def release_op_def commitParameterChanges_op_def
    registerFaceImage_op_def
  by (rule keeps_rules | rule keeps_modify | simp add: in_mode_def)+

lemma keeps_within_ops [keeps_rules]:
  "keeps (within C) startPreview_op" "keeps (within C) stopPreview_op"
  "keeps (within C) (stopCaptureChannel_op d)" "capture_chans \<subseteq> C \<Longrightarrow> keeps (within C) cancelPicture_op"
  "keeps (within C) takeLiveSnapshot_op" "keeps (within C) cancelLiveSnapshot_op"
  "keeps (within C) stopRecording_op" "keeps (within C) (releaseRecordingFrame_op p)"
  "keeps (within C) release_op" "keeps (within C) commitParameterChanges_op"
  "keeps (within C) (registerFaceImage_op i c)"
  unfolding startPreview_op_def stopPreview_op_def
    stopCaptureChannel_op_def cancelPicture_op_def takeLiveSnapshot_op_def cancelLiveSnapshot_op_def
    stopRecording_op_def releaseRecordingFrame_op_def release_op_def commitParameterChanges_op_def
    registerFaceImage_op_def
  by (rule keeps_rules | assumption | rule keeps_modify | simp add: within_def)+

lemma keeps_within_pictures [keeps_rules]:
  assumes "capture_chans \<subseteq> C"
  shows "keeps (within C) takePicture_processed" "keeps (within C) takePicture_raw" "keeps (within C) takePicture_op"
  unfolding takePicture_processed_def takePicture_raw_def takePicture_op_def
  using assms by - (rule keeps_rules | assumption | simp add: capture_chans_def)+

lemma keeps_sendCommand [keeps_rules]:
  "keeps (in_mode z h) (sendCommand_op st cmd a)"
  "capture_chans \<subseteq> C \<Longrightarrow> keeps (within C) (sendCommand_op st cmd a)"
  unfolding sendCommand_op_def
  by (cases cmd; simp only: camera_cmd.case; (rule keeps_rules | assumption | rule keeps_modify | simp add: in_mode_def within_def)+)+

lemma keeps_prepare [keeps_rules]:
  "keeps (in_mode z h) (quiet_features st)" "keeps (in_mode z h) (prepare_video st)"
  "keeps (in_mode z h) (preparePreview_op st)"
  "capture_chans \<subseteq> C \<Longrightarrow> keeps (within C) (quiet_features st)"
  "capture_chans \<union> {QCAMERA_CH_TYPE_VIDEO, QCAMERA_CH_TYPE_SNAPSHOT} \<subseteq> C \<Longrightarrow> keeps (within C) (prepare_video st)"
  unfolding quiet_features_def prepare_video_def preparePreview_op_def
  by (rule keeps_rules | assumption | simp)+

section \<open>What the operations change\<close>

lemma wp_seq: "keeps P m \<Longrightarrow> P s \<Longrightarrow> (\<And>a t. P t \<Longrightarrow> Q a t) \<Longrightarrow> wp m Q s"
  by (rule wp_mono [OF keeps_wp])

lemma within_mono: "within C s \<Longrightarrow> C \<subseteq> D \<Longrightarrow> within D s"
  by (auto simp: within_def)

lemma del_within: "within C s \<Longrightarrow> wp (delChannel c True) (\<lambda>_. within (C - {c})) s"
  using delChannel_slot [of c s] by (auto simp: within_def elim: wp_mono)

lemma not_preview_chan:
  "c \<notin> {QCAMERA_CH_TYPE_ZSL, QCAMERA_CH_TYPE_PREVIEW, QCAMERA_CH_TYPE_VIDEO, QCAMERA_CH_TYPE_SNAPSHOT} \<Longrightarrow>
     c \<in> capture_chans"
  by (cases c) (simp_all add: capture_chans_def)

lemma unprepare_within: "wp unpreparePreview_op (\<lambda>_. within capture_chans) s"
proof -
  have last: "within (UNIV - {QCAMERA_CH_TYPE_ZSL} - {QCAMERA_CH_TYPE_PREVIEW} - {QCAMERA_CH_TYPE_VIDEO}
      - {QCAMERA_CH_TYPE_SNAPSHOT}) t \<Longrightarrow> within capture_chans t" for t
    by (erule within_mono) (auto intro: not_preview_chan)
  have "within UNIV s"
    by (simp add: within_def)
  then show ?thesis
    unfolding unpreparePreview_op_def sm_wp
    by (intro wp_mono [OF del_within]) (auto intro: last)
qed

lemma stopPreview_within: "wp stopPreview_op (\<lambda>_. within capture_chans) s"
  unfolding stopPreview_op_def sm_wp
  by (intro wp_runI) (rule run_wp [OF _ unprepare_within])

lemma stop_del_within: "within C s \<Longrightarrow> wp (stopChannel_op c) (\<lambda>_. wp (delChannel c True) (\<lambda>_. within (C - {c}))) s"
  by (rule wp_seq [of "within C"]) (auto intro: keeps_rules del_within)

lemma drop_preview_within: "within (insert QCAMERA_CH_TYPE_PREVIEW C) s \<Longrightarrow> wp drop_preview (\<lambda>_. within C) s"
  unfolding drop_preview_def sm_wp
  by (rule wp_mono [OF stop_del_within], assumption, erule wp_mono) (auto elim: within_mono)

lemma release_none: "wp release_op (\<lambda>_ t. m_channels t = (\<lambda>c. None)) s"
proof -
  have step: "within C t \<Longrightarrow> (\<And>u. within (C - {c}) u \<Longrightarrow> Q u) \<Longrightarrow>
      wp (stopChannel_op c) (\<lambda>_. wp (delChannel c True) (\<lambda>_. Q)) t" for C t c Q
    by (rule wp_mono [OF stop_del_within], assumption, erule wp_mono) auto
  have all: "(UNIV :: qcamera_ch_type_enum_t set) = {QCAMERA_CH_TYPE_ZSL, QCAMERA_CH_TYPE_CAPTURE, QCAMERA_CH_TYPE_PREVIEW,
      QCAMERA_CH_TYPE_VIDEO, QCAMERA_CH_TYPE_SNAPSHOT, QCAMERA_CH_TYPE_RAW, QCAMERA_CH_TYPE_METADATA}"
    by (auto intro: qcamera_ch_type_enum_t.exhaust)
  have "within UNIV s"
    by (simp add: within_def)
  then show ?thesis
    unfolding release_op_def for_each.simps sm_wp
    by (intro step) (assumption | simp add: within_def all fun_eq_iff)+
qed

lemma release_within: "wp release_op (\<lambda>_. within capture_chans) s"
  by (rule wp_mono [OF release_none]) (simp add: within_def)

text \<open>An add that fails leaves no new channel.\<close>

definition added :: "qcamera_ch_type_enum_t \<Rightarrow> qcamera_ch_type_enum_t set \<Rightarrow> status_t \<Rightarrow> hwi_core \<Rightarrow> bool" where
  "added c C rc t \<longleftrightarrow> within (if rc = NO_ERROR then insert c C else C) t"

lemma free_within: "within C s \<Longrightarrow> wp (channel_free ch) (\<lambda>_. within C) s"
  by (rule keeps_wp) (rule keeps_rules)+

lemma put_within: "within C s \<Longrightarrow> wp (put_channel c x) (\<lambda>_. within (insert c C)) s"
  by (auto simp: put_channel_def sm_wp within_def)

lemma build_added:
  assumes "within C s"
  shows "wp (build_channel c ts) (added c C) s"
  unfolding build_channel_def sm_wp split_beta
  by (rule wp_seq [of "within C"], rule keeps_rules, rule keeps_rules, rule assms,
      auto simp: added_def intro!: wp_mono [OF free_within])
    (rule wp_seq [of "within C"], auto simp: added_def intro!: keeps_rules wp_mono [OF free_within] wp_mono [OF put_within])

lemma delete_slot_then_build:
  assumes "within C s" and "\<And>t. within C t \<Longrightarrow> wp m (added c C) t"
  shows "wp (delete_slot d) (\<lambda>_. wp m (added c C)) s"
  by (rule wp_seq [of "within C"]) (auto intro: keeps_rules assms)

lemma addRaw_added:
  assumes "within C s"
  shows "wp addRawChannel (added QCAMERA_CH_TYPE_RAW C) s"
proof -
  have fail: "within C t \<Longrightarrow> rc \<noteq> NO_ERROR \<Longrightarrow> wp (channel_free ch) (\<lambda>_. added QCAMERA_CH_TYPE_RAW C rc) t" for t rc ch
    by (rule wp_mono [OF free_within]) (auto simp: added_def)
  have put: "within C t \<Longrightarrow> \<not> rc \<noteq> NO_ERROR \<Longrightarrow>
      wp (put_channel QCAMERA_CH_TYPE_RAW x) (\<lambda>_. added QCAMERA_CH_TYPE_RAW C rc) t" for t rc x
    by (rule wp_mono [OF put_within]) (auto simp: added_def)
  have ext: "within C t \<Longrightarrow> within C (t\<lparr>srv_calls := cs\<rparr>)" for t cs
    by (simp add: within_def)
  have if_cases: "(b \<Longrightarrow> P) \<Longrightarrow> (\<not> b \<Longrightarrow> Q) \<Longrightarrow> if b then P else Q" for b P Q
    by simp
  show ?thesis
    unfolding addRawChannel_def sm_wp split_beta
    by (rule if_cases fail put ext assms | assumption | rule wp_seq [of "within C"] | rule keeps_rules)+
qed

lemma addChannel_added:
  assumes "within C s"
  shows "wp (addChannel c) (added c C) s"
  using assms
  by (cases c) (auto simp: addChannel_def addZSLChannel_def addCaptureChannel_def addPreviewChannel_def
      addVideoChannel_def addSnapshotChannel_def addMetaDataChannel_def wp_bind wp_asks
      intro!: delete_slot_then_build build_added addRaw_added)

lemma wp_return_fun: "wp (State_Monad.return a) Q = Q a"
  by (rule ext) (simp add: wp_return)

lemma wp_bind_fun: "wp (State_Monad.bind m f) Q = wp m (\<lambda>a. wp (f a) Q)"
  by (rule ext) (simp add: wp_bind)

lemmas wp_fun = wp_return_fun wp_bind_fun

text \<open>Preparing the preview adds the channels of the mode, or, when it fails, none.\<close>

definition prepared :: "qcamera_ch_type_enum_t set \<Rightarrow> status_t \<Rightarrow> hwi_core \<Rightarrow> bool" where
  "prepared C rc t \<longleftrightarrow> within (if rc = NO_ERROR then C else capture_chans) t"

lemma add_ok: "added c C rc t \<Longrightarrow> rc = NO_ERROR \<Longrightarrow> within (insert c C) t"
  and add_fail: "added c C rc t \<Longrightarrow> rc \<noteq> NO_ERROR \<Longrightarrow> within C t"
  by (simp_all add: added_def)

lemma del_prepared:
  "within C t \<Longrightarrow> C - {c} \<subseteq> capture_chans \<Longrightarrow> rc \<noteq> NO_ERROR \<Longrightarrow> wp (delChannel c True) (\<lambda>_. prepared D rc) t"
  by (rule wp_mono [OF del_within]) (auto simp: prepared_def elim: within_mono)

lemma prepare_video_within:
  assumes "within capture_chans s"
  shows "wp (prepare_video st) (prepared (capture_chans \<union> {QCAMERA_CH_TYPE_VIDEO, QCAMERA_CH_TYPE_SNAPSHOT})) s"
proof -
  let ?D = "capture_chans \<union> {QCAMERA_CH_TYPE_VIDEO, QCAMERA_CH_TYPE_SNAPSHOT}"
  let ?S = "insert QCAMERA_CH_TYPE_SNAPSHOT capture_chans"
  have D: "insert QCAMERA_CH_TYPE_VIDEO ?S = ?D"
    by auto
  have video: "added QCAMERA_CH_TYPE_VIDEO ?S rc t \<Longrightarrow> wp (if rc \<noteq> NO_ERROR
      then do { delChannel QCAMERA_CH_TYPE_SNAPSHOT True; State_Monad.return rc } else State_Monad.return rc)
      (prepared ?D) t" for rc t
    unfolding added_def D
    by (cases "rc = NO_ERROR") (auto simp: wp_bind wp_return_fun prepared_def [of _ NO_ERROR] intro: del_prepared)
  have rest: "wp (if rc \<noteq> NO_ERROR then State_Monad.return rc
      else do { rc \<leftarrow> addChannel QCAMERA_CH_TYPE_VIDEO;
        if rc \<noteq> NO_ERROR then do { delChannel QCAMERA_CH_TYPE_SNAPSHOT True; State_Monad.return rc }
        else State_Monad.return rc }) (prepared ?D) t" if "added QCAMERA_CH_TYPE_SNAPSHOT capture_chans rc t" for rc t
  proof (cases "rc = NO_ERROR")
    case True
    then have "within ?S t"
      using that by (rule add_ok [rotated])
    then show ?thesis
      unfolding True by (simp only: not_True_eq_False simp_thms if_False wp_bind)
        (rule wp_mono [OF addChannel_added], assumption, rule video)
  qed (use that in \<open>simp add: wp_return prepared_def added_def\<close>)
  have snap: "wp (if big then State_Monad.return NO_ERROR else addChannel QCAMERA_CH_TYPE_SNAPSHOT)
      (added QCAMERA_CH_TYPE_SNAPSHOT capture_chans) t" if "within capture_chans t" for big t
    using within_mono [OF that, of ?S] addChannel_added [OF that] by (cases big) (auto simp: wp_return added_def)
  have quiet: "keeps (within capture_chans) (quiet_features st)"
    by (rule keeps_rules) simp
  show ?thesis
    unfolding prepare_video_def wp_bind wp_asks
    by (rule wp_seq [OF quiet assms], rule wp_mono [OF snap], assumption, rule rest [unfolded wp_bind])
qed

lemma preparePreview_within:
  assumes "within capture_chans s" and "in_mode z h s"
  shows "wp (preparePreview_op st) (prepared (mode_chans z h)) s"
proof (cases "z \<and> \<not> h")
  case True
  have "wp (addChannel QCAMERA_CH_TYPE_ZSL) (prepared (mode_chans z h)) s"
    by (rule wp_mono [OF addChannel_added [OF assms(1)]])
      (use True in \<open>auto simp: added_def prepared_def mode_chans_def elim!: within_mono split: if_splits\<close>)
  with True assms(2) show ?thesis
    by (simp add: preparePreview_op_def wp_bind wp_asks zsl_preview_def in_mode_def)
next
  case False
  let ?V = "if h then capture_chans \<union> {QCAMERA_CH_TYPE_VIDEO, QCAMERA_CH_TYPE_SNAPSHOT} else capture_chans"
  have modes: "insert QCAMERA_CH_TYPE_PREVIEW ?V \<subseteq> mode_chans z h"
    by (auto simp: mode_chans_def)
  have prep: "wp (if h then prepare_video st else State_Monad.return NO_ERROR) (prepared ?V) s"
    using prepare_video_within [OF assms(1)] assms(1) by (simp add: wp_return prepared_def)
  have undo: "wp (if h then do { delChannel QCAMERA_CH_TYPE_SNAPSHOT True; delChannel QCAMERA_CH_TYPE_VIDEO True; skip }
      else skip) (\<lambda>_. prepared (mode_chans z h) rc) t" if "within ?V t" "rc \<noteq> NO_ERROR" for rc t
  proof (cases h)
    case True
    with that show ?thesis
      by (simp add: wp_fun) (rule wp_mono [OF del_within], assumption, rule del_prepared, assumption, auto)
  qed (use that in \<open>simp add: wp_return prepared_def\<close>)
  have add: "wp (addChannel QCAMERA_CH_TYPE_PREVIEW) (\<lambda>rc. wp (if rc \<noteq> NO_ERROR then do {
        (if h then do { delChannel QCAMERA_CH_TYPE_SNAPSHOT True; delChannel QCAMERA_CH_TYPE_VIDEO True; skip } else skip);
        State_Monad.return rc }
      else do { (if \<not> h then do { ext (Wait_deffered MetadataJob); skip } else skip); State_Monad.return rc })
      (prepared (mode_chans z h))) t" if "within ?V t" for t
  proof (rule wp_mono [OF addChannel_added [OF that]])
    fix rc u assume u: "added QCAMERA_CH_TYPE_PREVIEW ?V rc u"
    show "wp (if rc \<noteq> NO_ERROR then do {
        (if h then do { delChannel QCAMERA_CH_TYPE_SNAPSHOT True; delChannel QCAMERA_CH_TYPE_VIDEO True; skip } else skip);
        State_Monad.return rc }
      else do { (if \<not> h then do { ext (Wait_deffered MetadataJob); skip } else skip); State_Monad.return rc })
      (prepared (mode_chans z h)) u"
    proof (cases "rc = NO_ERROR")
      case True
      with add_ok [OF u] have "within (mode_chans z h) u"
        using within_mono modes by blast
      with True show ?thesis
        by (simp add: wp_fun wp_if wp_ext prepared_def within_def)
    next
      case False
      from add_fail [OF u False] False show ?thesis
        by (simp only: if_True not_False_eq_True wp_fun) (rule undo; assumption)
    qed
  qed
  have mode: "zsl_preview (mParameters s) = False" "m_bRecordingHint (mParameters s) = h"
    using False assms(2) by (auto simp: in_mode_def zsl_preview_def)
  show ?thesis
    unfolding preparePreview_op_def wp_bind wp_asks o_apply mode if_False
  proof (rule wp_mono [OF prep])
    fix rc u assume u: "prepared ?V rc u"
    show "wp (if rc \<noteq> NO_ERROR then State_Monad.return rc
      else do { rc \<leftarrow> addChannel QCAMERA_CH_TYPE_PREVIEW;
        (if rc \<noteq> NO_ERROR then do {
          (if h then do { delChannel QCAMERA_CH_TYPE_SNAPSHOT True; delChannel QCAMERA_CH_TYPE_VIDEO True; skip } else skip);
          State_Monad.return rc }
        else do { (if \<not> h then do { ext (Wait_deffered MetadataJob); skip } else skip); State_Monad.return rc }) })
      (prepared (mode_chans z h)) u"
    proof (cases "rc = NO_ERROR")
      case True
      with u have "within ?V u"
        by (simp add: prepared_def)
      from add [OF this] True show ?thesis
        by (simp only: simp_thms if_False wp_bind)
    qed (use u in \<open>simp add: wp_return prepared_def\<close>)
  qed
qed

text \<open>Outside ZSL a picture takes the preview down on every path.\<close>

lemma capture_setup_within:
  assumes "within (insert QCAMERA_CH_TYPE_PREVIEW capture_chans) s"
  shows "wp capture_setup (\<lambda>_. within capture_chans) s"
proof -
  let ?C = "insert QCAMERA_CH_TYPE_PREVIEW capture_chans"
  have add: "keeps (within C) addCaptureChannel" if "capture_chans \<subseteq> C" for C
    using that by (intro keeps_rules) (auto simp: capture_chans_def)
  have rest: "keeps (within capture_chans) (if rc \<noteq> NO_ERROR then State_Monad.return (rc, False)
         else do {
           for_each (\<lambda>j. ext (Wait_deffered j)) [SnapshotJob, MetadataJob, RawdataJob];
           q \<leftarrow> ext (Queue_deffered PostviewJob);
           ext (Wait_deffered PostviewJob);
           State_Monad.return (if q = NO_ERROR then NO_ERROR else UNKNOWN_ERROR, True) })" for rc
    by (rule keeps_rules)+
  show ?thesis
  proof (cases "mLongshotEnabled s")
    case True
    have "keeps (within capture_chans) (do { rc \<leftarrow> addCaptureChannel; State_Monad.return (rc, True) })"
      by (rule keeps_rules add subset_refl)+
    then have "wp (do { drop_preview; rc \<leftarrow> addCaptureChannel; State_Monad.return (rc, True) })
        (\<lambda>_. within capture_chans) s"
      by (subst wp_bind) (rule wp_mono [OF drop_preview_within [OF assms]], rule keeps_wp)
    with True show ?thesis
      by (simp only: capture_setup_def wp_bind_fun wp_asks if_False not_True_eq_False)
  next
    case False
    have "wp (do { rc \<leftarrow> addCaptureChannel; drop_preview;
        if rc \<noteq> NO_ERROR then State_Monad.return (rc, False)
         else do {
           for_each (\<lambda>j. ext (Wait_deffered j)) [SnapshotJob, MetadataJob, RawdataJob];
           q \<leftarrow> ext (Queue_deffered PostviewJob);
           ext (Wait_deffered PostviewJob);
           State_Monad.return (if q = NO_ERROR then NO_ERROR else UNKNOWN_ERROR, True) } })
        (\<lambda>_. within capture_chans) s"
      by (subst wp_bind, rule wp_seq [OF add [OF subset_insertI] assms], subst wp_bind,
          rule wp_mono [OF drop_preview_within], assumption, rule keeps_wp [OF rest])
    with False show ?thesis
      by (simp only: capture_setup_def wp_bind_fun wp_asks if_True not_False_eq_True)
  qed
qed

lemma takePicture_within:
  assumes "within (insert QCAMERA_CH_TYPE_PREVIEW capture_chans) s" and "in_mode False h s"
  shows "wp takePicture_op (\<lambda>_. within capture_chans) s"
proof -
  let ?C = "insert QCAMERA_CH_TYPE_PREVIEW capture_chans"
  have raw: "wp takePicture_raw (\<lambda>_. within capture_chans) t" if "within ?C t" for t
    unfolding takePicture_raw_def
    by (subst wp_bind, rule wp_mono [OF drop_preview_within [OF that]], rule keeps_wp)
      (rule keeps_rules | simp add: capture_chans_def)+
  have processed: "wp takePicture_processed (\<lambda>_. within capture_chans) t" if "within ?C t" for t
    unfolding takePicture_processed_def
    by (subst wp_bind, rule wp_mono [OF capture_setup_within [OF that]], rule keeps_wp)
      (rule keeps_rules | simp)+
  have conf: "keeps (\<lambda>t. within ?C t \<and> in_mode False h t)
      (if adv then configureAdvancedCapture_op else State_Monad.return BAD_VALUE)" for adv
    by (intro keeps_conj keeps_rules) auto
  show ?thesis
    unfolding takePicture_op_def wp_bind wp_asks
    by (rule wp_seq [OF conf]) (use assms in \<open>auto simp: in_mode_def raw processed\<close>)
qed

end
