(* ===== verification/HwiContract.thy ===== *)
theory HwiContract
  imports SMAnswers
begin

text \<open>
  The interface between the camera state machine and the HAL object it drives: what the state machine
  relies on when it says that the preview is stopped. The predicates are abstract here:

  \<open>clean\<close>: none of the channels a preview is made of exists;
  \<open>fits\<close>: the channels that exist are among those of the current mode (ZSL, recording hint);
  \<open>ok\<close>: no mode change is left staged, so no later commit can change the mode behind the channels.

  The laws say what each operation does to them. The lemmas of the locale prove that every handler
  keeps the invariant that a stopped preview, or one stopped for a picture, has no channels. The
  channel model of HwiCore interprets the locale.
\<close>

text \<open>The operations that touch neither the preview channels nor the mode.\<close>

definition plain_call :: "hwi_call \<Rightarrow> bool" where
  "plain_call c = (case c of
     preparePreview \<Rightarrow> False | startPreview \<Rightarrow> False | stopPreview \<Rightarrow> False | release \<Rightarrow> False
   | startRecording \<Rightarrow> False | takePicture \<Rightarrow> False | commitParameterChanges \<Rightarrow> False
   | updateRecordingHintValue b \<Rightarrow> False | _ \<Rightarrow> True)"

text \<open>
  A parameter set leaves no mode change staged, or it is accepted outside recording, where it is committed
  next: a refused set, or one that asks for a restart while recording, stays staged.
\<close>

definition hw_allowed :: "('p \<Rightarrow> bool) \<Rightarrow> 'p hwi \<Rightarrow> sm_event \<Rightarrow> 'p sm_ctx \<Rightarrow> bool" where
  "hw_allowed ok h evt s \<longleftrightarrow>
     (case evt of
        SetParams x \<Rightarrow>
          fst (fst (h_updateParameters h x (m_parent s))) \<noteq> NO_ERROR \<or>
          m_state s \<in> {QCAMERA_SM_STATE_RECORDING, QCAMERA_SM_STATE_VIDEO_PIC_TAKING} \<longrightarrow>
          ok (snd (h_updateParameters h x (m_parent s)))
      | _ \<Rightarrow> True)"

text \<open>Runs in which every event is allowed when it is handled.\<close>

primrec hw_run :: "('p \<Rightarrow> bool) \<Rightarrow> 'p hwi \<Rightarrow> sm_event list \<Rightarrow> 'p sm_ctx \<Rightarrow> bool" where
  "hw_run ok h [] s = True"
| "hw_run ok h (e # es) s = (hw_allowed ok h e s \<and> hw_run ok h es (sm_step h e s))"

locale hwi_contract =
  fixes h :: "'p hwi" and ok pend clean fits :: "'p \<Rightarrow> bool"
  assumes clean_fits: "clean p \<Longrightarrow> fits p"
    and ok_pend: "ok p \<Longrightarrow> pend p"
    and no_restart: "ok p \<Longrightarrow> \<not> h_query h isPreviewRestartEnabled p"
    and plain: "plain_call c \<Longrightarrow> ok p \<Longrightarrow> ok (snd (h_call h st c p))"
      "plain_call c \<Longrightarrow> ok p \<Longrightarrow> clean p \<Longrightarrow> clean (snd (h_call h st c p))"
      "plain_call c \<Longrightarrow> ok p \<Longrightarrow> fits p \<Longrightarrow> fits (snd (h_call h st c p))"
    and send: "ok p \<Longrightarrow> ok (snd (h_sendCommand h st cmd a1 a2 p))"
      "ok p \<Longrightarrow> clean p \<Longrightarrow> clean (snd (h_sendCommand h st cmd a1 a2 p))"
      "ok p \<Longrightarrow> fits p \<Longrightarrow> fits (snd (h_sendCommand h st cmd a1 a2 p))"
    and params: "ok p \<Longrightarrow> ok (snd (h_getParameters h p))"
      "clean p \<Longrightarrow> clean (snd (h_getParameters h p))" "fits p \<Longrightarrow> fits (snd (h_getParameters h p))"
    and face: "ok p \<Longrightarrow> ok (snd (h_registerFaceImage h i c2 p))"
      "clean p \<Longrightarrow> clean (snd (h_registerFaceImage h i c2 p))"
      "ok p \<Longrightarrow> fits p \<Longrightarrow> fits (snd (h_registerFaceImage h i c2 p))"
    and procs: "ok p \<Longrightarrow> ok (h_proc h st a p)" "pend p \<Longrightarrow> pend (h_proc h st a p)"
      "clean p \<Longrightarrow> clean (h_proc h st a p)" "fits p \<Longrightarrow> fits (h_proc h st a p)"
    and unprepare: "clean (h_proc h st unpreparePreview p)"
    and prepare: "ok p \<Longrightarrow> ok (snd (h_call h st preparePreview p))"
      "ok p \<Longrightarrow> clean p \<Longrightarrow> fits (snd (h_call h st preparePreview p))"
      "ok p \<Longrightarrow> clean p \<Longrightarrow> fst (h_call h st preparePreview p) \<noteq> NO_ERROR \<Longrightarrow>
         clean (snd (h_call h st preparePreview p))"
    and start: "ok p \<Longrightarrow> ok (snd (h_call h st startPreview p))"
      "ok p \<Longrightarrow> fits p \<Longrightarrow> fits (snd (h_call h st startPreview p))"
    and stop: "ok p \<Longrightarrow> ok (snd (h_call h st stopPreview p))"
      "pend p \<Longrightarrow> pend (snd (h_call h st stopPreview p))" "clean (snd (h_call h st stopPreview p))"
    and rel: "ok p \<Longrightarrow> ok (snd (h_call h st release p))" "clean (snd (h_call h st release p))"
    and recording: "ok p \<Longrightarrow> fits p \<Longrightarrow> ok (snd (h_call h st startRecording p))"
      "ok p \<Longrightarrow> fits p \<Longrightarrow> fits (snd (h_call h st startRecording p))"
    and take: "ok p \<Longrightarrow> ok (snd (h_call h st takePicture p))"
      "ok p \<Longrightarrow> fits p \<Longrightarrow> fits (snd (h_call h st takePicture p))"
      "ok p \<Longrightarrow> fits p \<Longrightarrow> \<not> h_query h isZSLMode p \<Longrightarrow> \<not> h_query h getRecordingHintValue p \<Longrightarrow>
         clean (snd (h_call h st takePicture p))"
    and hint: "ok p \<Longrightarrow> ok (snd (h_call h st (updateRecordingHintValue b) p))"
      "clean p \<Longrightarrow> clean (snd (h_call h st (updateRecordingHintValue b) p))"
      "ok p \<Longrightarrow> \<not> h_query h getRecordingHintValue (snd (h_call h st (updateRecordingHintValue False) p))"
    and hint_kept: "ok p \<Longrightarrow> h_query h getRecordingHintValue (snd (h_call h st preparePreview p)) =
        h_query h getRecordingHintValue p"
      "ok p \<Longrightarrow> h_query h getRecordingHintValue (snd (h_call h st startPreview p)) =
        h_query h getRecordingHintValue p"
      "h_query h getRecordingHintValue (h_proc h st unpreparePreview p) = h_query h getRecordingHintValue p"
    and upd: "clean p \<Longrightarrow> clean (snd (h_updateParameters h x p))"
      "fits p \<Longrightarrow> fits (snd (h_updateParameters h x p))"
      "ok p \<Longrightarrow> \<not> snd (fst (h_updateParameters h x p)) \<Longrightarrow> ok (snd (h_updateParameters h x p))"
      "ok p \<Longrightarrow> pend (snd (h_updateParameters h x p))"
    and commit: "pend p \<Longrightarrow> ok (snd (h_call h st commitParameterChanges p))"
      "clean p \<Longrightarrow> clean (snd (h_call h st commitParameterChanges p))"
      "ok p \<Longrightarrow> fits p \<Longrightarrow> fits (snd (h_call h st commitParameterChanges p))"
begin

lemmas allowed = hw_allowed_def

lemmas laws = no_restart plain send params face procs unprepare prepare start stop rel recording
  take hint hint_kept upd commit ok_pend clean_fits plain_call_def

definition hw_inv :: "'p sm_ctx \<Rightarrow> bool" where
  "hw_inv s \<longleftrightarrow> ok (m_parent s) \<and> fits (m_parent s) \<and>
     (m_state s \<in> {QCAMERA_SM_STATE_PREVIEW_STOPPED, QCAMERA_SM_STATE_PIC_TAKING} \<longrightarrow> clean (m_parent s))"

lemma inv_PreviewStopped:
  assumes "hw_inv s" and "m_state s = QCAMERA_SM_STATE_PREVIEW_STOPPED" and "hw_allowed ok h evt s"
  shows "wp (procEvtPreviewStoppedState h evt) (\<lambda>_. hw_inv) s"
  using assms by (cases evt; simp add: sm_handlers sm_actions sm_wp hw_inv_def allowed laws split_beta
      split: qcamera_internal_evt.split cam_event_type.split)

lemma inv_PreviewReady:
  assumes "hw_inv s" and "m_state s = QCAMERA_SM_STATE_PREVIEW_READY" and "hw_allowed ok h evt s"
  shows "wp (procEvtPreviewReadyState h evt) (\<lambda>_. hw_inv) s"
  using assms by (cases evt; simp add: sm_handlers sm_actions sm_wp hw_inv_def allowed laws split_beta
      split: qcamera_internal_evt.split cam_event_type.split)

lemma inv_PrepareSnapshot:
  assumes "hw_inv s" and "m_state s = QCAMERA_SM_STATE_PREPARE_SNAPSHOT" and "hw_allowed ok h evt s"
  shows "wp (procEvtPrepareSnapshotState h evt) (\<lambda>_. hw_inv) s"
  using assms by (cases evt; simp add: sm_handlers sm_actions sm_wp hw_inv_def allowed laws split_beta
      split: qcamera_internal_evt.split cam_event_type.split)

lemma inv_PicTaking:
  assumes "hw_inv s" and "m_state s = QCAMERA_SM_STATE_PIC_TAKING" and "hw_allowed ok h evt s"
  shows "wp (procEvtPicTakingState h evt) (\<lambda>_. hw_inv) s"
  using assms by (cases evt; simp add: sm_handlers sm_actions sm_wp hw_inv_def allowed laws split_beta
      split: qcamera_internal_evt.split cam_event_type.split)

lemma inv_Recording:
  assumes "hw_inv s" and "m_state s = QCAMERA_SM_STATE_RECORDING" and "hw_allowed ok h evt s"
  shows "wp (procEvtRecordingState h evt) (\<lambda>_. hw_inv) s"
  using assms by (cases evt; simp add: sm_handlers sm_actions sm_wp hw_inv_def allowed laws split_beta
      split: qcamera_internal_evt.split cam_event_type.split)

lemma inv_VideoPicTaking:
  assumes "hw_inv s" and "m_state s = QCAMERA_SM_STATE_VIDEO_PIC_TAKING" and "hw_allowed ok h evt s"
  shows "wp (procEvtVideoPicTakingState h evt) (\<lambda>_. hw_inv) s"
  using assms by (cases evt; simp add: sm_handlers sm_actions sm_wp hw_inv_def allowed laws split_beta
      split: qcamera_internal_evt.split cam_event_type.split)

lemma inv_PreviewPicTaking:
  assumes "hw_inv s" and "m_state s = QCAMERA_SM_STATE_PREVIEW_PIC_TAKING" and "hw_allowed ok h evt s"
  shows "wp (procEvtPreviewPicTakingState h evt) (\<lambda>_. hw_inv) s"
  using assms by (cases evt; simp add: sm_handlers sm_actions sm_wp hw_inv_def allowed laws split_beta
      split: qcamera_internal_evt.split cam_event_type.split)

text \<open>Leaving the recording mode for a photo: the hint is down, and what is up fits the mode.\<close>

lemma drop_hint_inv:
  assumes "ok (m_parent s)" and "fits (m_parent s)"
    and "\<And>rc p. ok p \<Longrightarrow> fits p \<Longrightarrow> \<not> h_query h getRecordingHintValue p \<Longrightarrow> Q rc (s\<lparr>m_parent := p\<rparr>)"
  shows "wp (drop_recording_hint h) Q s"
  using assms(1,2) assms(3) [of "m_parent s"]
  by (auto simp: drop_recording_hint_def prepare_start_def sm_wp laws intro!: assms(3))

lemma begin_capture_inv:
  assumes "ok (m_parent s)" and "fits (m_parent s)" and "\<not> h_query h getRecordingHintValue (m_parent s)"
  shows "wp (begin_capture h) (\<lambda>rc. wp (reply h TakePicture rc) (\<lambda>_. hw_inv)) s"
  using assms by (simp add: begin_capture_def reply_def sm_wp hw_inv_def laws)

lemma inv_Previewing:
  assumes "hw_inv s" and "m_state s = QCAMERA_SM_STATE_PREVIEWING" and "hw_allowed ok h evt s"
  shows "wp (procEvtPreviewingState h evt) (\<lambda>_. hw_inv) s"
proof (cases "evt = TakePicture")
  case True
  have "wp (procEvtPreviewingState h TakePicture) (\<lambda>_. hw_inv) s"
    using assms unfolding procEvtPreviewingState_def procEvtPreviewingState_b_def
    by (simp add: wp_bind hw_inv_def) (rule drop_hint_inv; simp add: wp_bind begin_capture_inv)
  with True show ?thesis by simp
next
  case False
  with assms show ?thesis
    by (cases evt; simp add: sm_handlers sm_actions sm_wp hw_inv_def allowed laws split_beta
        split: qcamera_internal_evt.split cam_event_type.split)
qed

lemma hw_inv_step:
  assumes "hw_inv s" and "hw_allowed ok h evt s"
  shows "hw_inv (sm_step h evt s)"
proof (rule sm_step_wp)
  note handlers = inv_PreviewStopped [OF assms(1) _ assms(2)] inv_PreviewReady [OF assms(1) _ assms(2)] inv_Previewing [OF assms(1) _ assms(2)]
    inv_PrepareSnapshot [OF assms(1) _ assms(2)] inv_PicTaking [OF assms(1) _ assms(2)] inv_Recording [OF assms(1) _ assms(2)]
    inv_VideoPicTaking [OF assms(1) _ assms(2)] inv_PreviewPicTaking [OF assms(1) _ assms(2)]
  show "wp (stateMachine h evt) (\<lambda>_. hw_inv) s"
    using handlers by (cases "m_state s") (simp_all add: stateMachine_def procEvtOf_def sm_wp)
qed

lemma hw_inv_run: "hw_inv s \<Longrightarrow> hw_run ok h es s \<Longrightarrow> hw_inv (sm_run h es s)"
  by (induction es arbitrary: s) (auto intro: hw_inv_step)

end

end
