(* ===== verification/HwiCore.thy ===== *)
theory HwiCore
  imports HwiFrames HwiContract
begin

text \<open>
  The HAL object the state machine drives, made of the operations of HwiOps, and the proof that it meets
  the interface of HwiContract: the laws of \<open>hwi_contract\<close> hold of it as long as the camera server takes the
  parameter batches it is sent and the early-restart property is off. The interpretation gives the
  invariant of every run: a stopped preview, or one stopped for a picture, has no preview channels.
\<close>

section \<open>The HAL object\<close>

definition core_call :: "qcamera_state_enum_t \<Rightarrow> hwi_call \<Rightarrow> status_t hw" where
  "core_call st c = (case c of
     setPreviewWindow w \<Rightarrow> setPreviewWindow_op w
   | setCallBacks cb \<Rightarrow> setCallBacks_op cb
   | enableMsgType m \<Rightarrow> enableMsgType_op m
   | disableMsgType m \<Rightarrow> disableMsgType_op m
   | commitParameterChanges \<Rightarrow> commitParameterChanges_op
   | putParameters p \<Rightarrow> State_Monad.return NO_ERROR
   | preparePreview \<Rightarrow> preparePreview_op st
   | startPreview \<Rightarrow> startPreview_op
   | stopPreview \<Rightarrow> stopPreview_op
   | release \<Rightarrow> release_op
   | storeMetaDataInBuffers e \<Rightarrow> storeMetaDataInBuffers_op e
   | dump fd \<Rightarrow> State_Monad.return INVALID_OPERATION
   | autoFocus \<Rightarrow> autoFocus_op
   | cancelAutoFocus \<Rightarrow> cancelAutoFocus_op
   | updateThermalLevel l \<Rightarrow> updateThermalLevel_op l
   | startRecording \<Rightarrow> startRecording_op st
   | stopRecording \<Rightarrow> stopRecording_op
   | releaseRecordingFrame p \<Rightarrow> releaseRecordingFrame_op p
   | prepareHardwareForSnapshot af \<Rightarrow> ext (Prepare_snapshot af)
   | takePicture \<Rightarrow> takePicture_op
   | cancelPicture \<Rightarrow> cancelPicture_op
   | takeLiveSnapshot \<Rightarrow> takeLiveSnapshot_op
   | cancelLiveSnapshot \<Rightarrow> cancelLiveSnapshot_op
   | longShot \<Rightarrow> longShot_op
   | stopCaptureChannel d \<Rightarrow> stopCaptureChannel_op d
   | stopChannel ch \<Rightarrow> stopChannel_op ch
   | processAutoFocusEvent i \<Rightarrow> ext (Other_component 10)
   | processPrepSnapshotDoneEvent i \<Rightarrow> State_Monad.return NO_ERROR
   | processFaceDetectionResult i \<Rightarrow> ext (Other_component 11)
   | processHistogramStats i \<Rightarrow> ext (Other_component 12)
   | processZoomEvent i \<Rightarrow> ext (Other_component 13)
   | processASDUpdate i \<Rightarrow> ext (Other_component 14)
   | processAWBUpdate i \<Rightarrow> State_Monad.return NO_ERROR
   | processAEInfo i \<Rightarrow> State_Monad.return NO_ERROR
   | processFocusPositionInfo i \<Rightarrow> State_Monad.return NO_ERROR
   | processFrameIDReset i \<Rightarrow> ext (Other_component 15)
   | processJpegNotify j \<Rightarrow> ext (Other_component 16)
   | sendEvtNotify m e x \<Rightarrow>
       ext (Notify_cb m (case e of CAMERA_ERROR_SERVER_DIED \<Rightarrow> 100 | CAMERA_ERROR_OTHER n \<Rightarrow> n) x)
   | updateRecordingHintValue b \<Rightarrow> updateRecordingHintValue_op b
   | closeNativeHandle p \<Rightarrow> ext (Other_component 17)
   | videoMem_closeNativeHandle p \<Rightarrow> ext (Other_component 18))"

definition playShutter_op :: "unit hw" where
  "playShutter_op = do {
     quiet \<leftarrow> asks (\<lambda>s. notify_cb (mCallbacks s) = None \<or> msgTypeEnabled_op 2 s = 0);
     (if quiet then skip else do { ext (Notify_cb (CAMERA_MSG_OTHER 2) 0 0); skip }) }"

definition core_proc :: "hwi_proc \<Rightarrow> unit hw" where
  "core_proc a = (case a of
     unpreparePreview \<Rightarrow> unpreparePreview_op
   | memoryPool_clear \<Rightarrow> do { ext (Other_component 19); skip }
   | playShutter \<Rightarrow> playShutter_op
   | setMultipleStages b \<Rightarrow> modify (\<lambda>s. s\<lparr>mMultipleStages := b\<rparr>)
   | set_bPreviewStarted b \<Rightarrow> modify (\<lambda>s. s\<lparr>bPreviewStarted := b\<rparr>)
   | set_bRecordStarted b \<Rightarrow> modify (\<lambda>s. s\<lparr>bRecordStarted := b\<rparr>)
   | set_PrepSnapRun b \<Rightarrow> modify (\<lambda>s. s\<lparr>mPrepSnapRun := b\<rparr>))"

definition core_query :: "hwi_query \<Rightarrow> hwi_core \<Rightarrow> bool" where
  "core_query q s = (case q of
     mPreviewWindow_set \<Rightarrow> mPreviewWindow s \<noteq> None
   | isZSLMode \<Rightarrow> m_bZslMode (mParameters s)
   | isLongshotEnabled \<Rightarrow> mLongshotEnabled s
   | isLongshotSnapLimited \<Rightarrow> m_bIsLongshotLimited (mParameters s)
   | isCaptureShutterEnabled \<Rightarrow> prop_shutter s
   | isPreviewRestartEnabled \<Rightarrow> prop_restart s
   | getRecordingHintValue \<Rightarrow> m_bRecordingHint (mParameters s)
   | getMultipleStages \<Rightarrow> mMultipleStages s
   | isNoDisplayMode \<Rightarrow> m_bNoDisplayMode (mParameters s)
   | isAFRunning \<Rightarrow> mFocusScanning (mParameters s) \<and>
       mFocusMode (mParameters s) \<in> {CAM_FOCUS_MODE_AUTO, CAM_FOCUS_MODE_MACRO}
   | mFlashNeeded \<Rightarrow> mFlashNeeded_f s
   | isChromaFlashEnabled \<Rightarrow> ChromaFlash \<in> m_adv (mParameters s)
   | mVideoMem_set \<Rightarrow> mVideoMem s \<noteq> None
   | mStoreMetaDataInFrame_pos \<Rightarrow> 0 <s mStoreMetaDataInFrame s
   | mCameraOpened \<Rightarrow> mCameraOpened_f s)"

definition core_hwi :: "hwi_core hwi" where
  "core_hwi = \<lparr>
     h_call = (\<lambda>st c. run_state (core_call st c)),
     h_proc = (\<lambda>st a s. snd (run_state (core_proc a) s)),
     h_query = core_query,
     h_sendCommand = (\<lambda>st cmd a1 a2. run_state (sendCommand_op st cmd a1)),
     h_updateParameters = (\<lambda>x. run_state (updateParameters_op x)),
     h_getParameters = (\<lambda>s. (flat_params s (mParameters s), s)),
     h_registerFaceImage = (\<lambda>i c. run_state (registerFaceImage_op i c)),
     h_msgTypeEnabled = msgTypeEnabled_op,
     h_malloc = (\<lambda>s. srv_status (mCameraHandle s) (srv_calls s) (Other_component 20) = NO_ERROR)\<rparr>"

section \<open>The interface\<close>

text \<open>The server takes batches, the restart property is off and no mode change is staged.\<close>

definition core_ok :: "hwi_core \<Rightarrow> bool" where
  "core_ok s \<longleftrightarrow> in_mode (m_bZslMode (mParameters s)) (m_bRecordingHint (mParameters s)) s"

definition core_pend :: "hwi_core \<Rightarrow> bool" where
  "core_pend s \<longleftrightarrow> takes_parms (mCameraHandle s) \<and> \<not> prop_restart s"

definition core_fits :: "hwi_core \<Rightarrow> bool" where
  "core_fits s \<longleftrightarrow> within (mode_chans (m_bZslMode (mParameters s)) (m_bRecordingHint (mParameters s))) s"

lemma in_mode_ok: "in_mode z h s \<Longrightarrow> core_ok s"
  and in_mode_fits: "in_mode z h s \<Longrightarrow> core_fits s = within (mode_chans z h) s"
  by (auto simp: core_ok_def core_fits_def in_mode_def)

lemma ok_keeps:
  "(\<And>z h. keeps (in_mode z h) m) \<Longrightarrow> core_ok s \<Longrightarrow> core_ok (snd (run_state m s))"
  unfolding core_ok_def [of s] by (rule in_mode_ok) (rule keepsD)

lemma fits_keeps:
  assumes "\<And>z h. keeps (in_mode z h) m" and "\<And>C. capture_chans \<subseteq> C \<Longrightarrow> keeps (within C) m"
    and "core_ok s" and "core_fits s"
  shows "core_fits (snd (run_state m s))"
proof -
  let ?z = "m_bZslMode (mParameters s)" and ?h = "m_bRecordingHint (mParameters s)"
  have "in_mode ?z ?h (snd (run_state m s))"
    using assms(1) assms(3) by (auto simp: core_ok_def intro: keepsD)
  moreover have "within (mode_chans ?z ?h) (snd (run_state m s))"
    by (rule keepsD [OF assms(2)]) (use assms(4) in \<open>auto simp: core_fits_def mode_chans_def\<close>)
  ultimately show ?thesis by (simp add: in_mode_fits)
qed

lemma capture_mode: "capture_chans \<subseteq> mode_chans z h"
  by (auto simp: mode_chans_def)

lemma keeps_plain:
  "plain_call c \<Longrightarrow> keeps (in_mode z h) (core_call st c)"
  "plain_call c \<Longrightarrow> capture_chans \<subseteq> C \<Longrightarrow> keeps (within C) (core_call st c)"
  by (cases c; simp only: core_call_def plain_call_def hwi_call.case; (rule keeps_rules | assumption | simp))+

lemma pend_rules:
  "log_free core_pend" "keeps core_pend (put_channel c x)"
  by (auto simp: log_free_def core_pend_def put_channel_def intro: keeps_modify)

lemma keeps_pend:
  "keeps core_pend (delChannel c d)" "keeps core_pend (stopChannel_op c)"
  "keeps core_pend unpreparePreview_op" "keeps core_pend stopPreview_op"
proof -
  show del: "keeps core_pend (delChannel c d)" for c d
    unfolding delChannel_def by (rule keeps_rules pend_rules)+
  show stop: "keeps core_pend (stopChannel_op c)" for c
    unfolding stopChannel_op_def by (rule keeps_rules pend_rules)+
  show unprep: "keeps core_pend unpreparePreview_op"
    unfolding unpreparePreview_op_def by (rule keeps_rules del)+
  show "keeps core_pend stopPreview_op"
    unfolding stopPreview_op_def
    by (rule keeps_rules stop unprep | rule keeps_modify | simp add: core_pend_def)+
qed

lemma keeps_procs:
  "keeps (in_mode z h) (core_proc a)" "keeps (within C) (core_proc a)" "keeps core_pend (core_proc a)"
  by (cases a; simp only: core_proc_def hwi_proc.case playShutter_op_def;
      (rule keeps_rules keeps_pend pend_rules | rule keeps_modify | simp add: in_mode_def within_def core_pend_def)+)+

text \<open>None of these touches the parameters, so the channels go on fitting the mode.\<close>

lemma params_rules:
  "log_free (\<lambda>s. mParameters s = X)" "keeps (\<lambda>s. mParameters s = X) (put_channel c x)"
  by (auto simp: log_free_def put_channel_def intro: keeps_modify)

lemma keeps_params_del: "keeps (\<lambda>s. mParameters s = X) (delChannel c d)"
  unfolding delChannel_def by (rule keeps_rules params_rules)+

lemma keeps_params_procs: "keeps (\<lambda>s. mParameters s = X) (core_proc a)"
  by (cases a; simp only: core_proc_def hwi_proc.case playShutter_op_def unpreparePreview_op_def;
      (rule keeps_rules keeps_params_del params_rules | rule keeps_modify | simp)+)+

lemma procs_fits: "core_fits s \<Longrightarrow> core_fits (snd (run_state (core_proc a) s))"
  using keepsD [OF keeps_params_procs refl] keepsD [OF keeps_procs(2)] by (metis core_fits_def)

lemma commit_ok: "core_pend s \<Longrightarrow> wp commitSetBatch (\<lambda>_. core_ok) s"
  by (auto simp: core_pend_def commitSetBatch_def sm_wp core_ok_def in_mode_def settled_def commitParamChanges_def
      takes_parms_def)

lemma stopPreview_frame: "in_mode z h s \<Longrightarrow> wp stopPreview_op (\<lambda>_ t. within capture_chans t \<and> in_mode z h t) s"
  by (simp add: wp_conj stopPreview_within keeps_wp [OF keeps_mode_ops(2)])

lemma prepare_frame:
  assumes "in_mode z h s" and "within capture_chans s"
  shows "wp (preparePreview_op st) (\<lambda>_ t. in_mode z h t \<and> within (mode_chans z h) t) s"
proof -
  have "prepared (mode_chans z h) rc t \<Longrightarrow> within (mode_chans z h) t" for rc t
    by (auto simp: prepared_def intro: within_mono [OF _ capture_mode] split: if_splits)
  then have "wp (preparePreview_op st) (\<lambda>_. within (mode_chans z h)) s"
    by (rule wp_mono [OF preparePreview_within [OF assms(2,1)]])
  then show ?thesis
    by (simp add: wp_conj keeps_wp [OF keeps_prepare(3) assms(1)])
qed

text \<open>Starting a recording in photo mode rebuilds the preview in recording mode.\<close>

lemma startRecording_mode:
  assumes "in_mode z h s" and "within (mode_chans z h) s"
  shows "wp (startRecording_op st) (\<lambda>_ t. in_mode z True t \<and> within (mode_chans z True) t) s"
proof -
  let ?P = "\<lambda>t. in_mode z True t \<and> within (mode_chans z True) t"
  have start: "keeps ?P (if rc = NO_ERROR then startChannel c else State_Monad.return rc)" for rc c
    by (intro keeps_conj keeps_rules)
  have hint: "wp (updateRecordingHintValue_op True) (\<lambda>_ t. in_mode z True t \<and> within capture_chans t) t"
    if "within capture_chans t \<and> in_mode z h t" for t
    using that updateRecordingHint_mode [of z h t True] by (simp add: wp_conj keeps_wp [OF keeps_setters(11)])
  have rebuild: "wp (do { stopPreview_op; updateRecordingHintValue_op True; rc \<leftarrow> preparePreview_op st;
      if rc = NO_ERROR then startChannel QCAMERA_CH_TYPE_PREVIEW else State_Monad.return rc }) (\<lambda>_. ?P) t"
    if "in_mode z h t" for t
    unfolding wp_bind
    by (rule wp_mono [OF stopPreview_frame [OF that]], rule wp_mono [OF hint], assumption,
        rule wp_mono [OF prepare_frame], (elim conjE, assumption)+, rule keeps_wp [OF start], assumption)
  have body: "wp (if h then State_Monad.return NO_ERROR
      else do { stopPreview_op; updateRecordingHintValue_op True; rc \<leftarrow> preparePreview_op st;
        if rc = NO_ERROR then startChannel QCAMERA_CH_TYPE_PREVIEW else State_Monad.return rc }) (\<lambda>_. ?P) t"
    if "in_mode z h t" "within (mode_chans z h) t" for t
    using that rebuild [OF that(1)] by (cases h) (simp_all add: wp_return)
  have fields: "in_mode z h (s\<lparr>mVideoMem := None\<rparr>)" "within (mode_chans z h) (s\<lparr>mVideoMem := None\<rparr>)"
    "(m_bRecordingHint \<circ> mParameters) (s\<lparr>mVideoMem := None\<rparr>) = h"
    using assms by (auto simp: in_mode_def within_def)
  show ?thesis
    unfolding startRecording_op_def wp_bind [of "modify _"] wp_modify wp_bind [of "asks _"] wp_asks fields(3)
    by (subst wp_bind, rule wp_mono [OF body [OF fields(1,2)]], rule keeps_wp [OF start])
qed

text \<open>The hint of a settled mode, as the queries see it.\<close>

lemma hint_keeps:
  assumes "\<And>z h. keeps (in_mode z h) m" and "core_ok s"
  shows "m_bRecordingHint (mParameters (snd (run_state m s))) = m_bRecordingHint (mParameters s)"
  using keepsD [OF assms(1), of "m_bZslMode (mParameters s)" "m_bRecordingHint (mParameters s)"] assms(2)
  by (auto simp: core_ok_def in_mode_def)

lemmas core_simps = core_hwi_def core_call_def core_proc_def core_query_def

lemma core_fields [simp]:
  "h_call core_hwi st c = run_state (core_call st c)"
  "h_proc core_hwi st a s = snd (run_state (core_proc a) s)"
  "h_query core_hwi q s = core_query q s"
  "h_sendCommand core_hwi st cmd a1 a2 = run_state (sendCommand_op st cmd a1)"
  "h_updateParameters core_hwi x = run_state (updateParameters_op x)"
  "snd (h_getParameters core_hwi s) = s"
  "h_registerFaceImage core_hwi i cfg = run_state (registerFaceImage_op i cfg)"
  by (simp_all add: core_hwi_def)

lemma update_facts:
  "within C s \<Longrightarrow> within C (snd (run_state (updateParameters_op x) s))"
  "core_fits s \<Longrightarrow> core_fits (snd (run_state (updateParameters_op x) s))"
  "core_ok s \<Longrightarrow> \<not> snd (fst (run_state (updateParameters_op x) s)) \<Longrightarrow>
     core_ok (snd (run_state (updateParameters_op x) s))"
  "core_ok s \<Longrightarrow> core_pend (snd (run_state (updateParameters_op x) s))"
  using parms_update_settled [of "mParameters s" "parse_params s x"] parms_update_mode [of "parse_params s x" "mParameters s"]
  by (auto simp: updateParameters_op_def within_def core_fits_def core_ok_def in_mode_def core_pend_def
      split: prod.splits)

lemma take_clean:
  assumes "core_ok s" and "core_fits s"
    and "\<not> m_bZslMode (mParameters s)" and "\<not> m_bRecordingHint (mParameters s)"
  shows "within capture_chans (snd (run_state takePicture_op s))"
proof -
  have "in_mode False False s"
    using assms(1,3,4) by (simp add: core_ok_def)
  moreover from this have "within (insert QCAMERA_CH_TYPE_PREVIEW capture_chans) s"
    using assms(2) by (auto simp: in_mode_fits mode_chans_def)
  ultimately show ?thesis
    using wp_run [OF takePicture_within] by blast
qed

lemma prepare_facts:
  assumes "core_ok s" and "within capture_chans s"
  shows "core_fits (snd (run_state (preparePreview_op st) s))"
    "fst (run_state (preparePreview_op st) s) \<noteq> NO_ERROR \<Longrightarrow> within capture_chans (snd (run_state (preparePreview_op st) s))"
proof -
  let ?z = "m_bZslMode (mParameters s)" and ?h = "m_bRecordingHint (mParameters s)"
  have m: "in_mode ?z ?h s"
    using assms(1) by (simp add: core_ok_def)
  show "core_fits (snd (run_state (preparePreview_op st) s))"
    using wp_run [OF prepare_frame [OF m assms(2)], of st] in_mode_fits by blast
  show "within capture_chans (snd (run_state (preparePreview_op st) s))"
    if "fst (run_state (preparePreview_op st) s) \<noteq> NO_ERROR"
    using wp_run [OF preparePreview_within [OF assms(2) m], of st] that by (simp add: prepared_def)
qed

lemma recording_facts:
  assumes "core_ok s" and "core_fits s"
  shows "core_fits (snd (run_state (startRecording_op st) s))" "core_ok (snd (run_state (startRecording_op st) s))"
proof -
  have m: "in_mode (m_bZslMode (mParameters s)) (m_bRecordingHint (mParameters s)) s"
    using assms(1) by (simp add: core_ok_def)
  from assms(2) have "within (mode_chans (m_bZslMode (mParameters s)) (m_bRecordingHint (mParameters s))) s"
    by (simp add: core_fits_def)
  from wp_run [OF startRecording_mode [OF m this], of st]
  show "core_fits (snd (run_state (startRecording_op st) s))" "core_ok (snd (run_state (startRecording_op st) s))"
    using in_mode_fits in_mode_ok by blast+
qed

lemma hint_facts:
  assumes "core_ok s"
  shows "core_ok (snd (run_state (updateRecordingHintValue_op b) s))"
    "m_bRecordingHint (mParameters (snd (run_state (updateRecordingHintValue_op b) s))) = b"
proof -
  have "in_mode (m_bZslMode (mParameters s)) (m_bRecordingHint (mParameters s)) s"
    using assms by (simp add: core_ok_def)
  from wp_run [OF updateRecordingHint_mode [OF this], of b]
  show "core_ok (snd (run_state (updateRecordingHintValue_op b) s))"
    "m_bRecordingHint (mParameters (snd (run_state (updateRecordingHintValue_op b) s))) = b"
    by (auto intro: in_mode_ok simp: in_mode_def)
qed

lemma within_keeps: "keeps (within C) m \<Longrightarrow> within C s \<Longrightarrow> within C (snd (run_state m s))"
  and pend_keeps: "keeps core_pend m \<Longrightarrow> core_pend s \<Longrightarrow> core_pend (snd (run_state m s))"
  by (simp_all add: keeps_def)

lemma core_call_eqs:
  "core_call st preparePreview = preparePreview_op st"
  "core_call st startPreview = startPreview_op"
  "core_call st stopPreview = stopPreview_op"
  "core_call st release = release_op"
  "core_call st startRecording = startRecording_op st"
  "core_call st takePicture = takePicture_op"
  "core_call st commitParameterChanges = commitSetBatch"
  "core_call st (updateRecordingHintValue b) = updateRecordingHintValue_op b"
  "core_proc unpreparePreview = unpreparePreview_op"
  "core_query isPreviewRestartEnabled p = prop_restart p"
  "core_query isZSLMode p = m_bZslMode (mParameters p)"
  "core_query getRecordingHintValue p = m_bRecordingHint (mParameters p)"
  by (simp_all only: core_call_def core_proc_def core_query_def commitParameterChanges_op_def
      hwi_call.case hwi_proc.case hwi_query.case)

lemma hint_false: "core_ok s \<Longrightarrow> \<not> m_bRecordingHint (mParameters (snd (run_state (updateRecordingHintValue_op False) s)))"
  using hint_facts(2) by simp

lemma hint_unprepare:
  "m_bRecordingHint (mParameters (snd (run_state unpreparePreview_op s))) = m_bRecordingHint (mParameters s)"
  using keepsD [OF keeps_params_procs [of "mParameters s" unpreparePreview] refl] by (simp add: core_call_eqs(9))

lemmas law_facts = hint_false hint_unprepare procs_fits update_facts take_clean prepare_facts recording_facts hint_facts hint_keeps
  wp_run [OF stopPreview_within] wp_run [OF release_within] wp_run [OF unprepare_within] wp_run [OF commit_ok]

text \<open>The channel model meets the interface.\<close>

interpretation hal: hwi_contract core_hwi core_ok core_pend "within capture_chans" core_fits
proof (unfold_locales, goal_cases)
  case (1 p) then show ?case by (simp add: core_fits_def within_mono [OF _ capture_mode])
next
  case (2 p) then show ?case by (simp add: core_ok_def in_mode_def core_pend_def)
next
  case (3 p) then show ?case by (simp add: core_ok_def in_mode_def core_query_def)
qed (simp_all only: core_fields core_call_eqs,
    (rule law_facts ok_keeps fits_keeps within_keeps pend_keeps keeps_plain keeps_procs keeps_pend keeps_rules
     | assumption | rule subset_refl keeps_commitSetBatch)+)

end
