(* ===== verification/HwiLeaks.thy ===== *)
theory HwiLeaks
  imports HwiCore
begin

text \<open>
  The channels the camera server holds, read off the log of calls, and the proof that each of them is in
  the channel table: no operation loses a channel it added, on any error path. \<open>hwi_invariant\<close> is the
  interface that carries such a fact from the operations of the HAL object to every run of the state machine.
\<close>

section \<open>From operations to runs\<close>

locale hwi_invariant =
  fixes h :: "'p hwi" and P :: "'p \<Rightarrow> bool"
  assumes calls: "P p \<Longrightarrow> P (snd (h_call h st c p))"
    and procs: "P p \<Longrightarrow> P (h_proc h st a p)"
    and sends: "P p \<Longrightarrow> P (snd (h_sendCommand h st cmd a1 a2 p))"
    and updates: "P p \<Longrightarrow> P (snd (h_updateParameters h x p))"
    and gets: "P p \<Longrightarrow> P (snd (h_getParameters h p))"
    and faces: "P p \<Longrightarrow> P (snd (h_registerFaceImage h i c2 p))"
begin

lemmas kept = calls procs sends updates gets faces

lemma kept_PreviewStopped: "P (m_parent s) \<Longrightarrow> wp (procEvtPreviewStoppedState h evt) (\<lambda>_ t. P (m_parent t)) s"
  by (cases evt; simp add: sm_handlers sm_actions sm_wp kept split_beta
      split: qcamera_internal_evt.split cam_event_type.split)

lemma kept_PreviewReady: "P (m_parent s) \<Longrightarrow> wp (procEvtPreviewReadyState h evt) (\<lambda>_ t. P (m_parent t)) s"
  by (cases evt; simp add: sm_handlers sm_actions sm_wp kept split_beta
      split: qcamera_internal_evt.split cam_event_type.split)

lemma kept_PrepareSnapshot: "P (m_parent s) \<Longrightarrow> wp (procEvtPrepareSnapshotState h evt) (\<lambda>_ t. P (m_parent t)) s"
  by (cases evt; simp add: sm_handlers sm_actions sm_wp kept split_beta
      split: qcamera_internal_evt.split cam_event_type.split)

lemma kept_PicTaking: "P (m_parent s) \<Longrightarrow> wp (procEvtPicTakingState h evt) (\<lambda>_ t. P (m_parent t)) s"
  by (cases evt; simp add: sm_handlers sm_actions sm_wp kept split_beta
      split: qcamera_internal_evt.split cam_event_type.split)

lemma kept_Recording: "P (m_parent s) \<Longrightarrow> wp (procEvtRecordingState h evt) (\<lambda>_ t. P (m_parent t)) s"
  by (cases evt; simp add: sm_handlers sm_actions sm_wp kept split_beta
      split: qcamera_internal_evt.split cam_event_type.split)

lemma kept_VideoPicTaking: "P (m_parent s) \<Longrightarrow> wp (procEvtVideoPicTakingState h evt) (\<lambda>_ t. P (m_parent t)) s"
  by (cases evt; simp add: sm_handlers sm_actions sm_wp kept split_beta
      split: qcamera_internal_evt.split cam_event_type.split)

lemma kept_PreviewPicTaking: "P (m_parent s) \<Longrightarrow> wp (procEvtPreviewPicTakingState h evt) (\<lambda>_ t. P (m_parent t)) s"
  by (cases evt; simp add: sm_handlers sm_actions sm_wp kept split_beta
      split: qcamera_internal_evt.split cam_event_type.split)

lemma kept_actions:
  "keeps (\<lambda>t. P (m_parent t)) (hcall h c)" "keeps (\<lambda>t. P (m_parent t)) (hproc h a)"
  "keeps (\<lambda>t. P (m_parent t)) (hquery h q)" "keeps (\<lambda>t. P (m_parent t)) (set_state st)"
  "keeps (\<lambda>t. P (m_parent t)) (signalAPIResult h r)"
  by (simp_all add: keeps_def hcall_def hproc_def hquery_def set_state_def signalAPIResult_def
      State_Monad.update_def kept split: prod.splits) (metis kept(1) snd_conv)

lemma kept_take: "keeps (\<lambda>t. P (m_parent t)) (procEvtPreviewingState h TakePicture)"
  unfolding procEvtPreviewingState_def procEvtPreviewingState_b_def drop_recording_hint_def begin_capture_def
    prepare_start_def reply_def sm_event.case
  by (rule keeps_rules kept_actions)+

lemma kept_Previewing:
  assumes "P (m_parent s)"
  shows "wp (procEvtPreviewingState h evt) (\<lambda>_ t. P (m_parent t)) s"
proof (cases "evt = TakePicture")
  case True
  with keeps_wp [OF kept_take assms] show ?thesis by simp
next
  case False
  with assms show ?thesis
    by (cases evt; simp add: sm_handlers sm_actions sm_wp kept split_beta
        split: qcamera_internal_evt.split cam_event_type.split)
qed

lemma kept_step: "P (m_parent s) \<Longrightarrow> P (m_parent (sm_step h evt s))"
proof (rule sm_step_wp)
  assume "P (m_parent s)"
  then show "wp (stateMachine h evt) (\<lambda>_ t. P (m_parent t)) s"
    using kept_PreviewStopped [of s evt] kept_PreviewReady [of s evt] kept_Previewing [of s evt]
      kept_PrepareSnapshot [of s evt] kept_PicTaking [of s evt] kept_Recording [of s evt]
      kept_VideoPicTaking [of s evt] kept_PreviewPicTaking [of s evt]
    by (cases "m_state s") (simp_all add: stateMachine_def procEvtOf_def sm_wp)
qed

lemma kept_run: "P (m_parent s) \<Longrightarrow> P (m_parent (sm_run h es s))"
  by (induction es arbitrary: s) (simp_all add: kept_step)

end

section \<open>The channels of the server\<close>

text \<open>The log has the newest call first; the handle of an added channel depends on the calls before it.\<close>

primrec live :: "cam_server \<Rightarrow> srv_call list \<Rightarrow> nat set" where
  "live srv [] = {}"
| "live srv (c # log) =
     (case c of
        Add_channel \<Rightarrow> (if srv_handle srv log c = 0 then live srv log else insert (srv_handle srv log c) (live srv log))
      | Delete_channel h \<Rightarrow> live srv log - {h}
      | _ \<Rightarrow> live srv log)"

text \<open>Every channel the server holds is one of \<open>H\<close> or is in the table.\<close>

definition held :: "nat set \<Rightarrow> hwi_core \<Rightarrow> bool" where
  "held H s \<longleftrightarrow> live (mCameraHandle s) (srv_calls s) \<subseteq> H \<union> m_handle ` ran (m_channels s)"

lemma ran_replace:
  assumes "M c = Some ch" and "f x = f ch"
  shows "f ` ran M \<subseteq> f ` ran (M(c \<mapsto> x))"
proof
  fix i assume "i \<in> f ` ran M"
  then obtain c' y where y: "M c' = Some y" "i = f y"
    by (auto simp: ran_def)
  show "i \<in> f ` ran (M(c \<mapsto> x))"
  proof (cases "c' = c")
    case True
    with y assms have "i = f x" by simp
    then show ?thesis by (auto simp: ran_def)
  next
    case False
    with y show ?thesis by (auto simp: ran_def intro!: imageI)
  qed
qed

lemma ran_remove:
  assumes "M c = Some ch"
  shows "f ` ran M - {f ch} \<subseteq> f ` ran (M(c := None))"
proof
  fix i assume "i \<in> f ` ran M - {f ch}"
  then obtain c' y where y: "M c' = Some y" "i = f y" "f y \<noteq> f ch"
    by (auto simp: ran_def)
  then have "c' \<noteq> c"
    using assms by auto
  with y show "i \<in> f ` ran (M(c := None))"
    by (auto simp: ran_def intro!: imageI)
qed

lemma keepsI: "(\<And>s. P s \<Longrightarrow> wp m (\<lambda>_. P) s) \<Longrightarrow> keeps P m"
  using wp_run by (fastforce simp: keeps_def)

lemma keeps_held_ext: "c \<noteq> Add_channel \<Longrightarrow> keeps (held H) (ext c)"
  by (auto simp: keeps_def held_def ext_def split: srv_call.splits)

lemma keeps_held_handle: "c \<noteq> Add_channel \<Longrightarrow> keeps (held H) (ext_handle c)"
  by (auto simp: keeps_def held_def ext_handle_def split: srv_call.splits)

lemma keeps_held_modify:
  "(\<And>s. mCameraHandle (f s) = mCameraHandle s \<and> srv_calls (f s) = srv_calls s \<and> m_channels (f s) = m_channels s)
   \<Longrightarrow> keeps (held H) (modify f)"
  by (rule keeps_modify) (simp add: held_def)

named_theorems held_rules "programs that keep every held channel held"

lemma held_basic [held_rules]:
  "keeps (held H) (on_params f)" "c \<noteq> Add_channel \<Longrightarrow> keeps (held H) (ext c)"
  "c \<noteq> Add_channel \<Longrightarrow> keeps (held H) (ext_handle c)"
  by (auto simp: on_params_def intro: keeps_held_ext keeps_held_handle keeps_held_modify)

lemmas keeps_basic = keeps_return keeps_bind keeps_if keeps_option keeps_prod keeps_asks keeps_for_each keeps_thermal

lemma held_params [held_rules]:
  "keeps (held H) commitSetBatch" "keeps (held H) (commit_parms ts)" "keeps (held H) (setHistogram_op en)"
  "keeps (held H) (setFaceDetection_op en)" "keeps (held H) (setLongshotEnable_op en)" "keeps (held H) set3ALock_op"
  "keeps (held H) prepareRawStream_op" "keeps (held H) (updateRecordingHintValue_op v)"
  unfolding commitSetBatch_def commit_parms_def setHistogram_op_def setFaceDetection_op_def setLongshotEnable_op_def
    set3ALock_op_def prepareRawStream_op_def updateRecordingHintValue_op_def
  by (rule keeps_basic held_rules | simp)+

lemma held_bundle [held_rules]: "keeps (held H) (set_bundle ch is)"
  by (induction "is") (auto intro!: keeps_basic held_rules split: option.split)

lemma held_config [held_rules]: "keeps (held H) (config_streams ss)"
  by (induction ss) (auto intro!: keeps_basic held_rules)

lemma held_channel [held_rules]:
  "keeps (held H) (bundle_streams ch)" "keeps (held H) (channel_start ch)" "keeps (held H) (channel_stop ch)"
  "keeps (held H) (channel_free ch)" "keeps (held H) (deleteChannel ch)" "keeps (held H) (channel_config ch)"
  "keeps (held H) (channel_addStream ch t d)" "keeps (held H) (linkStream ch src st)" "keeps (held H) (queue_alloc t)"
  unfolding bundle_streams_def channel_start_def channel_stop_def channel_free_def deleteChannel_def
    channel_config_def channel_addStream_def linkStream_def queue_alloc_def
  by (rule keeps_basic held_rules | simp)+

lemma held_addStream [held_rules]: "keeps (held H) (addStreamToChannel ch t)"
  unfolding addStreamToChannel_def by (rule keeps_basic held_rules | simp)+

section \<open>A channel on its way into or out of the table\<close>

text \<open>\<open>yields Q m\<close>: whatever the state, the result of \<open>m\<close> satisfies \<open>Q\<close>.\<close>

definition yields :: "('a \<Rightarrow> bool) \<Rightarrow> ('s, 'a) state \<Rightarrow> bool" where
  "yields Q m \<longleftrightarrow> (\<forall>s. Q (fst (run_state m s)))"

lemma yields_after: "yields R m \<Longrightarrow> (\<And>a. R a \<Longrightarrow> yields Q (f a)) \<Longrightarrow> yields Q (State_Monad.bind m f)"
  by (auto simp: yields_def split: prod.splits) (metis fst_conv)

lemma yields_rules:
  "Q a \<Longrightarrow> yields Q (State_Monad.return a)"
  "(\<And>a. yields Q (f a)) \<Longrightarrow> yields Q (State_Monad.bind m f)"
  "yields Q n \<Longrightarrow> yields Q k \<Longrightarrow> yields Q (if b then n else k)"
  by (auto simp: yields_def split: prod.splits)

lemma yields_wp: "yields Q m \<Longrightarrow> wp m (\<lambda>a _. Q a) s"
  by (simp add: yields_def wp_def split: prod.splits) (metis fst_conv)

lemma held_mono: "held H s \<Longrightarrow> H \<subseteq> K \<Longrightarrow> held K s"
  by (auto simp: held_def)

lemma init_held: "held {} s \<Longrightarrow> wp channel_init (\<lambda>r. held {m_handle (snd r)}) s"
  by (auto simp: channel_init_def sm_wp ext_handle_def held_def)

abbreviation same_handle :: "channel \<Rightarrow> (status_t \<times> channel) hw \<Rightarrow> bool" where
  "same_handle ch \<equiv> yields (\<lambda>r. m_handle (snd r) = m_handle ch)"

lemma drop_handle: "m_handle (drop_linked ch) = m_handle ch"
  by (simp add: drop_linked_def split: option.split)

lemma handle_kept: "same_handle ch (channel_start ch)" "same_handle ch (channel_stop ch)"
    "same_handle ch (channel_addStream ch t d)"
  unfolding channel_start_def channel_stop_def channel_addStream_def
  by (rule yields_rules | simp add: drop_handle)+

lemma handle_addStream: "same_handle ch (addStreamToChannel ch t)"
  unfolding addStreamToChannel_def split_beta
  by (rule yields_rules yields_after [OF handle_kept(3)] | simp)+

lemma handle_add_streams: "same_handle ch (add_streams ch ts)"
proof (induction ts arbitrary: ch)
  case (Cons t ts)
  have "same_handle ch (add_streams ch' ts)" if "m_handle ch' = m_handle ch" for ch'
    using Cons.IH [of ch'] that by simp
  then show ?case
    by (simp add: split_beta) (rule yields_after [OF handle_addStream]; auto intro: yields_rules)
qed (simp add: yields_rules)

text \<open>Destroying a channel takes its handle away from the server.\<close>

lemma free_held: "held (insert (m_handle ch) H) s \<Longrightarrow> wp (channel_free ch) (\<lambda>_. held H) s"
proof -
  let ?K = "insert (m_handle ch) H"
  have del: "held ?K t \<Longrightarrow> m_handle ch' = m_handle ch \<Longrightarrow>
      wp (do { for_each (\<lambda>s. ext (Delete_stream (s_id s))) (own_streams ch'); ext (Delete_channel (m_handle ch'));
        State_Monad.return ch' }) (\<lambda>_. held H) t" for t ch'
    unfolding wp_bind
    by (rule wp_seq [of "held ?K"]) (auto simp: wp_ext wp_return held_def intro: keeps_basic held_rules)
  have stop: "wp (if m_bIsActive ch then do { r \<leftarrow> channel_stop ch; State_Monad.return (snd r) } else State_Monad.return ch)
      (\<lambda>ch' t. m_handle ch' = m_handle ch \<and> held ?K t) s" if "held ?K s"
    using that yields_wp [OF handle_kept(2)] keeps_wp [OF held_channel(3) that]
    by (auto simp: wp_fun wp_conj)
  assume "held ?K s"
  then show ?thesis
    unfolding channel_free_def by (subst wp_bind) (rule wp_mono [OF stop], assumption, elim conjE, rule del)
qed

lemma free_gone: "wp (channel_free ch) (\<lambda>_ t. m_handle ch \<notin> live (mCameraHandle t) (srv_calls t)) s"
proof -
  have any: "(\<And>a t. Q a t) \<Longrightarrow> wp m Q s" for Q m and s :: hwi_core
    by (simp add: wp_def split: prod.split)
  have rest: "m_handle ch' = m_handle ch \<Longrightarrow> wp (do { for_each (\<lambda>s. ext (Delete_stream (s_id s))) (own_streams ch');
      ext (Delete_channel (m_handle ch')); State_Monad.return ch' })
      (\<lambda>_ t. m_handle ch \<notin> live (mCameraHandle t) (srv_calls t)) t" for ch' t
    unfolding wp_bind by (rule any) (simp add: wp_ext wp_return)
  have stop: "wp (if m_bIsActive ch then do { r \<leftarrow> channel_stop ch; State_Monad.return (snd r) } else State_Monad.return ch)
      (\<lambda>ch' t. m_handle ch' = m_handle ch) s"
    using yields_wp [OF handle_kept(2)] by (auto simp: wp_fun)
  show ?thesis
    unfolding channel_free_def by (subst wp_bind) (rule wp_mono [OF stop], rule rest)
qed

lemma free_slot:
  assumes "held {} s" and "m_channels s c = Some ch"
  shows "wp (do { channel_free ch; put_channel c None }) (\<lambda>_ t. held {} t \<and> m_channels t c = None) s"
proof -
  have "wp (channel_free ch) (\<lambda>_ t. held {} t \<and> m_channels t = m_channels s
      \<and> m_handle ch \<notin> live (mCameraHandle t) (srv_calls t)) s"
    unfolding wp_conj
    by (intro conjI free_gone keeps_wp [OF held_channel(4) assms(1)] keeps_wp [of "\<lambda>t. m_channels t = m_channels s"])
      (auto intro: keeps_rules)
  moreover have "wp (put_channel c None) (\<lambda>_ t. held {} t \<and> m_channels t c = None) t"
    if t: "held {} t \<and> m_channels t = m_channels s \<and> m_handle ch \<notin> live (mCameraHandle t) (srv_calls t)" for t
  proof -
    have "live (mCameraHandle t) (srv_calls t) \<subseteq> m_handle ` ran (m_channels s) - {m_handle ch}"
      using t by (auto simp: held_def)
    also have "\<dots> \<subseteq> m_handle ` ran ((m_channels s)(c := None))"
      by (rule ran_remove) (rule assms(2))
    finally show ?thesis
      using t by (simp add: put_channel_def wp_modify held_def)
  qed
  ultimately show ?thesis
    unfolding wp_bind by (rule wp_mono)
qed

lemma put_held:
  "held {m_handle ch} s \<Longrightarrow> m_channels s c = None \<Longrightarrow> wp (put_channel c (Some ch)) (\<lambda>_. held {}) s"
  by (auto simp: put_channel_def wp_modify held_def)

lemma put_back:
  "held {} s \<Longrightarrow> m_channels s c = Some ch \<Longrightarrow> m_handle ch' = m_handle ch \<Longrightarrow>
     wp (put_channel c (Some ch')) (\<lambda>_. held {}) s"
  using ran_replace [of "m_channels s" c ch m_handle ch'] by (auto simp: put_channel_def wp_modify held_def)

lemma delete_slot_held: "held {} s \<Longrightarrow> wp (delete_slot c) (\<lambda>_ t. held {} t \<and> m_channels t c = None) s"
  using free_slot by (cases "m_channels s c") (auto simp: delete_slot_def wp_asks wp_bind wp_return)

text \<open>Replacing a channel of the table by one with its handle, after calls that leave the table alone.\<close>

lemma slot_held:
  assumes "\<And>ch. keeps (held {}) (f ch)" and "\<And>ch M. keeps (\<lambda>t. m_channels t = M) (f ch)"
    and "\<And>ch. yields (\<lambda>r. m_handle (g r) = m_handle ch) (f ch)" and "\<And>r. keeps (held {}) (k r)" and "keeps (held {}) n"
  shows "keeps (held {}) (do { x \<leftarrow> asks (\<lambda>s. m_channels s c);
     case x of None \<Rightarrow> n | Some ch \<Rightarrow> do { r \<leftarrow> f ch; put_channel c (Some (g r)); k r } })"
proof -
  have "wp (do { r \<leftarrow> f ch; put_channel c (Some (g r)); k r }) (\<lambda>_. held {}) s"
    if "held {} s" "m_channels s c = Some ch" for s ch
  proof -
    have "wp (f ch) (\<lambda>r t. m_handle (g r) = m_handle ch \<and> held {} t \<and> m_channels t = m_channels s) s"
      unfolding wp_conj
      by (intro conjI yields_wp assms(3) keeps_wp [OF assms(1) that(1)] keeps_wp [OF assms(2) refl])
    then show ?thesis
      unfolding wp_bind
      by (rule wp_mono) (use that(2) in \<open>auto intro!: wp_mono [OF put_back] keeps_wp [OF assms(4)]\<close>)
  qed
  then have "wp (case x of None \<Rightarrow> n | Some ch \<Rightarrow> do { r \<leftarrow> f ch; put_channel c (Some (g r)); k r }) (\<lambda>_. held {}) s"
    if "held {} s" "m_channels s c = x" for s x
    using that keeps_wp [OF assms(5) that(1)] by (cases x) simp_all
  then show ?thesis
    by (intro keepsI) (simp only: wp_bind wp_asks)
qed

section \<open>The table\<close>

lemma log_free_eq: "log_free (\<lambda>t. m_channels t = M)"
  by (simp add: log_free_def)

lemma held_slots [held_rules]:
  "keeps (held {}) (start_slot c)" "keeps (held {}) (stopChannel_op c)" "keeps (held {}) (startChannel c)"
proof -
  show start: "keeps (held {}) (start_slot c)" for c
    unfolding start_slot_def split_beta
    by (rule slot_held [where g = snd])
      (rule keeps_basic held_rules handle_kept keeps_channel log_free_eq)+
  show "keeps (held {}) (stopChannel_op c)"
    unfolding stopChannel_op_def split_beta
    by (rule slot_held [where g = snd])
      (rule keeps_basic held_rules handle_kept keeps_channel log_free_eq)+
  show "keeps (held {}) (startChannel c)"
    unfolding startChannel_def by (rule keeps_basic held_rules start)+
qed

lemma deleteChannel_handle: "yields (\<lambda>ch'. m_handle ch' = m_handle ch) (deleteChannel ch)"
proof -
  have "yields (\<lambda>ch'. m_handle ch' = m_handle ch)
      (if m_bIsActive ch then do { r \<leftarrow> channel_stop ch; State_Monad.return (snd r) } else State_Monad.return ch)"
    by (rule yields_rules yields_after [OF handle_kept(2)] | simp)+
  then show ?thesis
    unfolding deleteChannel_def channel_free_def by (rule yields_after) (rule yields_rules | assumption)+
qed

lemma held_delChannel [held_rules]: "keeps (held {}) (delChannel c d)"
proof (cases d)
  case True
  have "wp (delChannel c True) (\<lambda>_. held {}) s" if "held {} s" for s
    using that wp_mono [OF free_slot [OF that, of c], of _ "\<lambda>_. held {}"]
    by (cases "m_channels s c") (auto simp: delChannel_def wp_asks wp_fun)
  with True show ?thesis by (auto intro: keepsI)
next
  case False
  have "keeps (held {}) (do { x \<leftarrow> asks (\<lambda>s. m_channels s c);
      case x of None \<Rightarrow> skip | Some ch \<Rightarrow> do { ch' \<leftarrow> deleteChannel ch; put_channel c (Some ch'); skip } })"
    by (rule slot_held [where g = "\<lambda>r. r"])
      (rule keeps_basic held_rules deleteChannel_handle keeps_channel log_free_eq)+
  with False show ?thesis
    by (auto simp: keeps_def delChannel_def asks_def split: option.splits prod.splits)
qed

text \<open>A channel under construction: held outside the table, its slot free.\<close>

definition building :: "qcamera_ch_type_enum_t \<Rightarrow> nat set \<Rightarrow> hwi_core \<Rightarrow> bool" where
  "building c H s \<longleftrightarrow> held H s \<and> within (- {c}) s"

lemma keeps_building: "keeps (held H) m \<Longrightarrow> keeps (within (- {c})) m \<Longrightarrow> keeps (building c H) m"
  by (simp add: keeps_def building_def)

lemma building_init: "building c {} s \<Longrightarrow> wp channel_init (\<lambda>r. building c {m_handle (snd r)}) s"
  unfolding building_def wp_conj
  by (auto intro: init_held keeps_wp [OF keeps_channel(7)] keeps_rules)

lemma building_free: "building c {m_handle ch} s \<Longrightarrow> wp (channel_free ch) (\<lambda>_. held {}) s"
  by (auto simp: building_def intro: free_held)

lemma building_put: "building c {m_handle ch} s \<Longrightarrow> wp (put_channel c (Some ch)) (\<lambda>_. held {}) s"
  by (auto simp: building_def within_def intro: put_held)

lemma building_add:
  assumes "building c {m_handle ch} s" and "same_handle ch m" and "keeps (building c {m_handle ch}) m"
  shows "wp m (\<lambda>r. building c {m_handle (snd r)}) s"
  using wp_mono [of m "\<lambda>r t. m_handle (snd r) = m_handle ch \<and> building c {m_handle ch} t" s]
    yields_wp [OF assms(2)] keeps_wp [OF assms(3,1)]
  by (simp add: wp_conj)

lemma held_add_streams: "keeps (building c H) (add_streams ch ts)" "keeps (building c H) (addStreamToChannel ch t)"
proof -
  have "keeps (held H) (add_streams ch ts)"
    by (induction ts arbitrary: ch) (auto intro!: keeps_basic held_rules)
  then show "keeps (building c H) (add_streams ch ts)" "keeps (building c H) (addStreamToChannel ch t)"
    by (auto intro: keeps_building keeps_rules held_rules)
qed

lemma build_held:
  assumes "held {} s \<and> m_channels s c = None"
  shows "wp (build_channel c ts) (\<lambda>_. held {}) s"
proof -
  have "building c {} s"
    using assms by (auto simp: building_def within_def)
  then show ?thesis
    unfolding build_channel_def wp_bind split_beta
    by (rule wp_mono [OF building_init])
      (auto simp: wp_fun intro!: building_free building_put wp_mono [OF building_add [OF _ handle_add_streams held_add_streams(1)]])
qed

lemma held_addRaw: "keeps (held {}) addRawChannel"
proof (rule keepsI)
  fix s assume "held {} s"
  let ?B = "building QCAMERA_CH_TYPE_RAW"
  have wait: "keeps (?B H) (ext (Wait_deffered j))" for H j
    by (intro keeps_building held_rules keeps_rules) simp
  have slot: "wp (delete_slot QCAMERA_CH_TYPE_RAW) (\<lambda>_. ?B {}) s"
    by (rule wp_mono [OF delete_slot_held [OF \<open>held {} s\<close>]]) (auto simp: building_def within_def)
  note add = wp_mono [OF building_add [OF _ handle_addStream held_add_streams(2)]]
  show "wp addRawChannel (\<lambda>_. held {}) s"
    unfolding addRawChannel_def wp_bind split_beta
    by (rule wp_mono [OF slot], rule wp_mono [OF building_init], assumption)
      (auto simp: wp_fun intro!: building_free add building_put wp_seq [OF wait])
qed

lemma slot_then_build: "held {} s \<Longrightarrow> wp (do { delete_slot c; build_channel c ts }) (\<lambda>_. held {}) s"
  unfolding wp_bind by (rule wp_mono [OF delete_slot_held]) (auto intro: build_held)

text \<open>The ZSL channel replaces the preview channel too.\<close>

lemma held_addZSL: "keeps (held {}) addZSLChannel"
proof (rule keepsI)
  fix s assume s: "held {} s"
  have two: "wp (delete_slot QCAMERA_CH_TYPE_PREVIEW) (\<lambda>_ t. held {} t \<and> m_channels t QCAMERA_CH_TYPE_ZSL = None) t"
    if "held {} t \<and> m_channels t QCAMERA_CH_TYPE_ZSL = None" for t
  proof -
    have "within (- {QCAMERA_CH_TYPE_ZSL}) t"
      using that by (auto simp: within_def)
    from keeps_wp [OF keeps_table(2) this] show ?thesis
      unfolding wp_conj using that wp_mono [OF delete_slot_held] by (auto simp: within_def elim!: wp_mono)
  qed
  show "wp addZSLChannel (\<lambda>_. held {}) s"
    unfolding addZSLChannel_def wp_bind wp_asks
    by (rule wp_mono [OF delete_slot_held [OF s]], rule wp_mono [OF two], assumption, rule build_held)
qed

lemma held_addChannel [held_rules]: "keeps (held {}) (addChannel c)"
proof (cases c)
  case QCAMERA_CH_TYPE_ZSL then show ?thesis by (simp add: addChannel_def held_addZSL)
next
  case QCAMERA_CH_TYPE_RAW then show ?thesis by (simp add: addChannel_def held_addRaw)
next
  case QCAMERA_CH_TYPE_CAPTURE
  have "wp addCaptureChannel (\<lambda>_. held {}) s" if "held {} s" for s
    unfolding addCaptureChannel_def wp_bind wp_asks
    by (rule wp_mono [OF delete_slot_held [OF that]]) (rule build_held)
  with QCAMERA_CH_TYPE_CAPTURE show ?thesis by (auto simp: addChannel_def intro: keepsI)
qed (auto simp: addChannel_def addPreviewChannel_def addVideoChannel_def addSnapshotChannel_def
      addMetaDataChannel_def intro!: keepsI slot_then_build)

lemma held_capture_raw [held_rules]: "keeps (held {}) addCaptureChannel" "keeps (held {}) addRawChannel"
  using held_addChannel [of QCAMERA_CH_TYPE_CAPTURE] held_addRaw by (simp_all add: addChannel_def)

section \<open>Operations\<close>

lemma held_simple [held_rules]:
  "keeps (held {}) (updateThermalLevel_op l)" "keeps (held {}) lock_3A" "keeps (held {}) (configure_bracket t b)"
  "keeps (held {}) configure_zoom" "keeps (held {}) (advancedCapture_op ch b)" "keeps (held {}) needAdjustFPS_op"
  "keeps (held {}) unpreparePreview_op" "keeps (held {}) drop_preview" "keeps (held {}) longShot_op"
  "keeps (held {}) stop_zsl" "keeps (held {}) (longshot_restart b)"
  unfolding updateThermalLevel_op_def lock_3A_def configure_bracket_def configure_zoom_def advancedCapture_op_def
    needAdjustFPS_op_def unpreparePreview_op_def drop_preview_def longShot_op_def stop_zsl_def longshot_restart_def
  by (rule keeps_basic held_rules keeps_held_modify | simp)+

lemma held_capture [held_rules]:
  "keeps (held {}) configureAdvancedCapture_op" "keeps (held {}) unconfigureAdvancedCapture_op"
  "keeps (held {}) (takePicture_zsl n)" "keeps (held {}) capture_setup" "keeps (held {}) (capture_run ch)"
  unfolding configureAdvancedCapture_op_def unconfigureAdvancedCapture_op_def takePicture_zsl_def
    capture_setup_def capture_run_def
  by (rule keeps_basic held_rules keeps_held_modify | simp)+

lemma held_ops [held_rules]:
  "keeps (held {}) startPreview_op" "keeps (held {}) stopPreview_op"
  "keeps (held {}) takePicture_processed" "keeps (held {}) takePicture_raw" "keeps (held {}) takePicture_op"
  "keeps (held {}) cancelPicture_op"
  unfolding startPreview_op_def stopPreview_op_def takePicture_processed_def takePicture_raw_def takePicture_op_def
    cancelPicture_op_def
  by (rule keeps_basic held_rules keeps_held_modify | simp)+

lemma held_sendCommand [held_rules]: "keeps (held {}) (sendCommand_op st cmd a)"
  unfolding sendCommand_op_def
  by (cases cmd; simp only: camera_cmd.case; (rule keeps_basic held_rules keeps_held_modify | simp)+)

lemma held_prepare [held_rules]:
  "keeps (held {}) (quiet_features st)" "keeps (held {}) (prepare_video st)" "keeps (held {}) (preparePreview_op st)"
  unfolding quiet_features_def prepare_video_def preparePreview_op_def
  by (rule keeps_basic held_rules | simp)+

lemma held_call: "keeps (held {}) (core_call st c)"
  unfolding core_call_def setPreviewWindow_op_def setCallBacks_op_def enableMsgType_op_def disableMsgType_op_def
    storeMetaDataInBuffers_op_def autoFocus_op_def cancelAutoFocus_op_def stopCaptureChannel_op_def takeLiveSnapshot_op_def
    cancelLiveSnapshot_op_def stopRecording_op_def releaseRecordingFrame_op_def release_op_def
    commitParameterChanges_op_def startRecording_op_def
  by (cases c; simp only: hwi_call.case; (rule keeps_basic held_rules keeps_held_modify | simp)+)

lemma held_proc: "keeps (held {}) (core_proc a)"
  unfolding core_proc_def playShutter_op_def
  by (cases a; simp only: hwi_proc.case; (rule keeps_basic held_rules keeps_held_modify | simp)+)

lemma held_update: "keeps (held {}) (updateParameters_op x)"
  by (auto simp: keeps_def updateParameters_op_def held_def split: prod.splits)

lemma held_face: "keeps (held {}) (registerFaceImage_op i c)"
  unfolding registerFaceImage_op_def by (rule keeps_basic held_rules | simp)+

text \<open>So every run keeps every channel of the server in the table.\<close>

interpretation leakfree: hwi_invariant core_hwi "held {}"
  by unfold_locales (simp_all add: keepsD [OF held_call] keepsD [OF held_proc] keepsD [OF held_sendCommand]
      keepsD [OF held_update] keepsD [OF held_face])

end
