(* ===== verification/HwiProps.thy ===== *)
theory HwiProps
  imports HwiLeaks SMProps
begin

text \<open>
  What the channel model and the state machine do together: the properties of every run, from the two
  interfaces of HwiContract and HwiLeaks, and the behaviours that break the first of them.
\<close>

section \<open>A HAL object to run\<close>

definition demo_server :: cam_server where
  "demo_server = \<lparr>srv_status = (\<lambda>log c. NO_ERROR), srv_handle = (\<lambda>log c. 1), srv_bundle = (\<lambda>log h. [])\<rparr>"

definition demo_params :: qcam_params where
  "demo_params = \<lparr>m_bZslMode = False, m_bZslMode_new = False, m_bRecordingHint = False, m_bRecordingHint_new = False,
     m_bNeedRestart = False, m_pParamBuf = [], m_map = [KEY_QC_ZSL \<mapsto> VALUE_OFF], m_tempMap = [],
     m_bHistogramEnabled = False, m_faceDetection = False, m_bLongshotEnabled = False, m_bIsLongshotLimited = False,
     m_bNoDisplayMode = False, mFocusMode = CAM_FOCUS_MODE_AUTO, mFocusScanning = False,
     m_thermalMode = QCAMERA_THERMAL_ADJUST_FPS, m_adv = {}, m_processedPicture = True, m_numSnapshots = 1,
     m_advBurst = 1, m_video4k2k = False\<rparr>"

text \<open>Parameter string 1 asks for ZSL.\<close>

definition demo_parse :: "ptr \<Rightarrow> parm_request" where
  "demo_parse x = \<lparr>req = (if x = Some 1 then [KEY_QC_ZSL \<mapsto> VALUE_ON] else Map.empty), rest_rc = NO_ERROR,
     rest_restart = False, rest_parms = []\<rparr>"

definition demo_core :: "cam_server \<Rightarrow> bool \<Rightarrow> hwi_core" where
  "demo_core srv restart = \<lparr>mCameraHandle = srv, srv_calls = [], mParameters = demo_params, m_channels = (\<lambda>c. None),
     mPreviewWindow = Some 7,
     mCallbacks = \<lparr>notify_cb = None, data_cb = None, data_cb_timestamp = None, get_memory = None, cb_user = None\<rparr>,
     mMsgEnabled = 0, mStoreMetaDataInFrame = 0, mLongshotEnabled = False, mPrepSnapRun = False, mActiveAF = False,
     mCancelAutoFocus = False, bPreviewStarted = False, bRecordStarted = False, mFPSReconfigure = False,
     mAdvancedCaptureConfigured = False, mIs3ALocked = False, mMultipleStages = False, mLiveSnapshotThread = False,
     mVideoMem = None, mFlashNeeded_f = False, mCameraOpened_f = True, mThermalLevel = 0,
     parse_params = demo_parse, flat_params = (\<lambda>p. None), prop_restart = restart, prop_shutter = False,
     prop_raw_yuv = False, posted_evts = []\<rparr>"

definition demo_sm :: "cam_server \<Rightarrow> bool \<Rightarrow> qcamera_state_enum_t \<Rightarrow> hwi_core sm_ctx" where
  "demo_sm srv restart st = \<lparr>m_state = st, m_parent = demo_core srv restart, m_apiResultList = [], m_evtResult = None\<rparr>"

text \<open>How a handler runs on the channel model, for evaluation on a concrete object.\<close>

lemmas op_defs = core_call_def core_proc_def core_query_def
  stopCaptureChannel_op_def stopChannel_op_def delChannel_def preparePreview_op_def drop_preview_def
  addChannel_def addPreviewChannel_def addCaptureChannel_def delete_slot_def build_channel_def channel_init_def
  addStreamToChannel_def channel_addStream_def queue_alloc_def alloc_job_def deferred_type_def put_channel_def
  startPreview_op_def updateThermalLevel_op_def commit_parms_def commitSetBatch_def startChannel_def channel_config_def
  start_slot_def channel_start_def bundle_streams_def own_streams_def MAX_STREAM_NUM_IN_BUNDLE_def
  takePicture_op_def takePicture_processed_def capture_setup_def capture_run_def cancelPicture_op_def
  unconfigureAdvancedCapture_op_def channel_stop_def channel_free_def drop_linked_def last_linked_def
  startRecording_op_def stopPreview_op_def unpreparePreview_op_def updateRecordingHintValue_op_def
  setRecordingHintValue_def prepare_video_def quiet_features_def addSnapshotChannel_def addVideoChannel_def
  initBatchUpdate_def AddSetParmEntryToBatch_def commitParamChanges_def zsl_preview_def

lemmas demo_defs = demo_sm_def demo_core_def demo_params_def demo_server_def demo_parse_def

lemma wp_ext_handle: "wp (ext_handle c) Q s \<longleftrightarrow>
    Q (srv_handle (mCameraHandle s) (srv_calls s) c) (s\<lparr>srv_calls := c # srv_calls s\<rparr>)"
  by (simp add: ext_handle_def wp_def)

lemma wp_hcall_core: "wp (hcall core_hwi c) Q s \<longleftrightarrow>
    wp (core_call (m_state s) c) (\<lambda>rc p. Q rc (s\<lparr>m_parent := p\<rparr>)) (m_parent s)"
  by (simp only: wp_hcall core_fields) (simp add: wp_def split_beta)

lemma wp_hproc_core: "wp (hproc core_hwi a) Q s \<longleftrightarrow> wp (core_proc a) (\<lambda>_ p. Q () (s\<lparr>m_parent := p\<rparr>)) (m_parent s)"
  by (simp only: wp_hproc core_fields) (simp add: wp_def split_beta)

lemma wp_hquery_core: "wp (hquery core_hwi q) Q s \<longleftrightarrow> Q (core_query q (m_parent s)) s"
  by (simp only: wp_hquery core_fields)

text \<open>A claim about the end of a run, as nested preconditions.\<close>

primrec wps :: "'p hwi \<Rightarrow> sm_event list \<Rightarrow> ('p sm_ctx \<Rightarrow> bool) \<Rightarrow> 'p sm_ctx \<Rightarrow> bool" where
  "wps h [] Q s = Q s"
| "wps h (e # es) Q s = wp (stateMachine h e) (\<lambda>_. wps h es Q) s"

lemma wps_iff: "wps h es Q s \<longleftrightarrow> Q (sm_run h es s)"
  by (induction es arbitrary: s) (simp_all add: sm_step_def wp_def split: prod.split)

lemmas core_wp = wp_hcall_core wp_hproc_core wp_hquery_core wp_ext_handle wp_return wp_bind wp_get wp_if wp_asks
  wp_modify wp_ext wp_on_params wp_set_state wp_signalAPIResult wp_case_prod wp_update_params

lemma core_malloc: "h_malloc core_hwi s \<longleftrightarrow> srv_status (mCameraHandle s) (srv_calls s) (Other_component 20) = NO_ERROR"
  by (simp add: core_hwi_def)

lemmas core_eval = core_malloc QCAMERA_THERMAL_SHUTDOWN_def drop_recording_hint_def begin_capture_def stateMachine_def procEvtOf_def sm_handlers sm_actions core_wp op_defs demo_defs split_beta

section \<open>Stopped means stopped\<close>


lemma demo_ok: "core_ok (demo_core demo_server False)" "within capture_chans (demo_core srv b)"
  by (auto simp: core_ok_def in_mode_def takes_parms_def settled_def within_def demo_defs)




text \<open>
  RELEASE in the stopped state, after any run from an object that had made no call
  to the server, leaves no channel at the server and none in the table.
\<close>

theorem release_frees_channels:
  assumes "srv_calls (m_parent s) = []" and "m_state (sm_run core_hwi es s) = QCAMERA_SM_STATE_PREVIEW_STOPPED"
  shows "live (mCameraHandle (m_parent (sm_run core_hwi (es @ [Release]) s)))
      (srv_calls (m_parent (sm_run core_hwi (es @ [Release]) s))) = {} \<and>
    m_channels (m_parent (sm_run core_hwi (es @ [Release]) s)) = (\<lambda>c. None)"
proof -
  let ?t = "sm_run core_hwi es s"
  have "wp (stateMachine core_hwi Release) (\<lambda>_ u. m_channels (m_parent u) = (\<lambda>c. None)) ?t"
    using assms(2)
    by (simp add: stateMachine_def procEvtOf_def procEvtPreviewStoppedState_def procEvtPreviewStoppedState_b_def
        procEvtPreviewStoppedState_c_def sm_actions sm_wp core_call_eqs wp_run [OF release_none])
  then have none: "m_channels (m_parent (sm_run core_hwi (es @ [Release]) s)) = (\<lambda>c. None)"
    by (simp add: sm_run_append sm_step_def wp_def split: prod.splits)
  have "held {} (m_parent s)"
    using assms(1) by (simp add: held_def)
  then have "held {} (m_parent (sm_run core_hwi (es @ [Release]) s))"
    by (rule leakfree.kept_run)
  with none show ?thesis
    by (simp add: held_def)
qed

theorem release_frees_channels_witness:
  "m_channels (m_parent (sm_run core_hwi ([] @ [Release]) (demo_sm demo_server False QCAMERA_SM_STATE_PREVIEW_STOPPED)))
     = (\<lambda>c. None)"
  by (rule release_frees_channels [THEN conjunct2]) (simp_all add: demo_defs)

section \<open>What breaks it\<close>

text \<open>
  With the property persist.camera.feature.restart on, the invariant fails: in
  PIC_TAKING, STOP_CAPTURE_CHANNEL restarts the preview and keeps the state, and CANCEL_PICTURE then goes to
  PREVIEW_STOPPED without stopping it. The state machine says the preview is stopped while its channel is up and
  running.
\<close>

theorem early_restart_outlives_cancel:
  "m_state (sm_run core_hwi [StopCaptureChannel, CancelPicture] (demo_sm demo_server True QCAMERA_SM_STATE_PIC_TAKING))
     = QCAMERA_SM_STATE_PREVIEW_STOPPED \<and>
   map_option m_bIsActive (m_channels (m_parent (sm_run core_hwi [StopCaptureChannel, CancelPicture]
     (demo_sm demo_server True QCAMERA_SM_STATE_PIC_TAKING))) QCAMERA_CH_TYPE_PREVIEW) = Some True"
proof -
  have "wps core_hwi [StopCaptureChannel, CancelPicture]
      (\<lambda>s. m_state s = QCAMERA_SM_STATE_PREVIEW_STOPPED \<and>
        map_option m_bIsActive (m_channels (m_parent s) QCAMERA_CH_TYPE_PREVIEW) = Some True)
      (demo_sm demo_server True QCAMERA_SM_STATE_PIC_TAKING)"
    by (simp add: core_eval)
  then show ?thesis
    by (simp only: wps_iff)
qed

text \<open>A server that has no channel left once the recording hint was sent.\<close>

definition full_server :: cam_server where
  "full_server = demo_server\<lparr>srv_handle := (\<lambda>log c. if Set_parms [CAM_INTF_PARM_RECORDING_HINT] \<in> set log then 0 else 1)\<rparr>"

text \<open>
  START_RECORDING in photo mode tears the preview down before it builds the recording
  channels. When the server then refuses a channel the call fails, but the state stays PREVIEWING: no preview
  channel is left, and the recording hint is set.
\<close>

theorem failed_recording_start:
  "m_state (sm_run core_hwi [StartPreview, StartRecording] (demo_sm full_server False QCAMERA_SM_STATE_PREVIEW_STOPPED))
     = QCAMERA_SM_STATE_PREVIEWING \<and>
   m_channels (m_parent (sm_run core_hwi [StartPreview, StartRecording]
     (demo_sm full_server False QCAMERA_SM_STATE_PREVIEW_STOPPED))) QCAMERA_CH_TYPE_PREVIEW = None \<and>
   m_bRecordingHint (mParameters (m_parent (sm_run core_hwi [StartPreview, StartRecording]
     (demo_sm full_server False QCAMERA_SM_STATE_PREVIEW_STOPPED))))"
proof -
  have "wps core_hwi [StartPreview, StartRecording]
      (\<lambda>s. m_state s = QCAMERA_SM_STATE_PREVIEWING \<and> m_channels (m_parent s) QCAMERA_CH_TYPE_PREVIEW = None \<and>
        m_bRecordingHint (mParameters (m_parent s)))
      (demo_sm full_server False QCAMERA_SM_STATE_PREVIEW_STOPPED)"
    by (simp add: core_eval full_server_def)
  then show ?thesis
    by (simp only: wps_iff)
qed

lemma stage_zsl:
  assumes "req r KEY_QC_ZSL = Some VALUE_ON" and "m_map p KEY_QC_ZSL = Some VALUE_OFF"
    and "req r KEY_RECORDING_HINT = None" and "rest_rc r = NO_ERROR"
  shows "fst (parms_update r p) = (NO_ERROR, True)" and "m_bZslMode_new (snd (parms_update r p))"
    and "m_thermalMode (snd (parms_update r p)) = m_thermalMode p"
proof -
  have onoff: "VALUE_OFF \<noteq> VALUE_ON" "ON_OFF_MODES_MAP VALUE_ON = Some True"
    by (simp_all add: VALUE_OFF_def VALUE_ON_def ON_OFF_MODES_MAP_def)
  have fold: "m_thermalMode (fold AddSetParmEntryToBatch ts q) = m_thermalMode q" for ts q
    by (induction ts arbitrary: q) (simp_all add: AddSetParmEntryToBatch_def)
  show "fst (parms_update r p) = (NO_ERROR, True)" "m_bZslMode_new (snd (parms_update r p))"
    "m_thermalMode (snd (parms_update r p)) = m_thermalMode p"
    using assms by (simp_all add: parms_update_def Let_def split_beta setZslMode_def setRecordingHint_def
        other_setters_def initBatchUpdate_def onoff fold AddSetParmEntryToBatch_def)
qed

lemma commit_applies:
  assumes "takes_parms (mCameraHandle s)"
  shows "wp (commit_parms ts) (\<lambda>_ t. m_bZslMode (mParameters t) = m_bZslMode_new (mParameters s)) s"
proof -
  have "keeps (\<lambda>t. mCameraHandle t = mCameraHandle s \<and> m_bZslMode_new (mParameters t) = m_bZslMode_new (mParameters s))
      (for_each (\<lambda>t. on_params (AddSetParmEntryToBatch t)) ts)"
    by (rule keeps_rules)+ (simp add: on_params_def keeps_def modify_def)
  then show ?thesis
    unfolding commit_parms_def wp_bind wp_on_params
    by (rule wp_seq) (use assms in \<open>auto simp: commitSetBatch_def sm_wp initBatchUpdate_def takes_parms_def commitParamChanges_def\<close>)
qed

text \<open>
  While recording, a parameter set that turns ZSL on is refused with BAD_VALUE, and
  the mode does not change. But it stays staged: the next thermal notification commits its own batch and, with it,
  the refused mode, while the channels are those of the old one.
\<close>

theorem refused_params_apply_later:
  assumes "m_state s = QCAMERA_SM_STATE_RECORDING" and "takes_parms (mCameraHandle (m_parent s))"
    and "mCameraOpened_f (m_parent s)" and "m_thermalMode (mParameters (m_parent s)) = QCAMERA_THERMAL_ADJUST_FPS"
    and "req (parse_params (m_parent s) x) KEY_QC_ZSL = Some VALUE_ON"
    and "m_map (mParameters (m_parent s)) KEY_QC_ZSL = Some VALUE_OFF"
    and "req (parse_params (m_parent s) x) KEY_RECORDING_HINT = None"
    and "rest_rc (parse_params (m_parent s) x) = NO_ERROR" and "\<not> m_bZslMode (mParameters (m_parent s))"
  shows "fst (run_state (stateMachine core_hwi (SetParams x)) s) = BAD_VALUE \<and>
    \<not> m_bZslMode (mParameters (m_parent (sm_run core_hwi [SetParams x] s))) \<and>
    m_bZslMode (mParameters (m_parent (sm_run core_hwi [SetParams x, ThermalNotify l] s)))"
proof -
  let ?p = "m_parent s" and ?r = "parse_params (m_parent s) x"
  let ?q = "snd (parms_update ?r (mParameters ?p))"
  note st = stage_zsl [OF assms(5) assms(6) assms(7) assms(8)]
  have upd: "run_state (updateParameters_op x) ?p = ((NO_ERROR, True), ?p\<lparr>mParameters := ?q\<rparr>)"
    using st(1) by (simp add: updateParameters_op_def split_beta)
  have "wp (stateMachine core_hwi (SetParams x)) (\<lambda>rc t. rc = BAD_VALUE \<and>
      m_parent t = ?p\<lparr>mParameters := ?q\<rparr> \<and> m_state t = QCAMERA_SM_STATE_RECORDING) s"
    using assms(1) upd by (simp add: stateMachine_def procEvtOf_def sm_handlers sm_actions sm_wp)
  then have one: "fst (run_state (stateMachine core_hwi (SetParams x)) s) = BAD_VALUE"
      "m_parent (sm_run core_hwi [SetParams x] s) = ?p\<lparr>mParameters := ?q\<rparr>"
      "m_state (sm_run core_hwi [SetParams x] s) = QCAMERA_SM_STATE_RECORDING"
    by (auto simp: sm_step_def wp_def split: prod.splits)
  let ?t = "sm_run core_hwi [SetParams x] s"
  have "wp (updateThermalLevel_op l) (\<lambda>_ p. m_bZslMode (mParameters p)) (m_parent ?t)"
    unfolding updateThermalLevel_op_def one(2)
    using assms(2-4) st(2,3) wp_mono [OF commit_applies] by (simp add: sm_wp) 
  then have "wp (stateMachine core_hwi (ThermalNotify l)) (\<lambda>_ u. m_bZslMode (mParameters (m_parent u))) ?t"
    using one(3)
    by (simp add: stateMachine_def procEvtOf_def sm_handlers sm_actions core_wp core_call_def if_distrib cong: if_cong)
  then have "m_bZslMode (mParameters (m_parent (sm_run core_hwi [SetParams x, ThermalNotify l] s)))"
    by (simp add: sm_step_def wp_def split: prod.splits)
  with one(1,2) assms(9) show ?thesis
    by (simp add: parms_update_mode)
qed

theorem refused_params_apply_later_witness:
  "m_bZslMode (mParameters (m_parent (sm_run core_hwi [SetParams (Some 1), ThermalNotify 1]
     (demo_sm demo_server False QCAMERA_SM_STATE_RECORDING))))"
  using refused_params_apply_later [of "demo_sm demo_server False QCAMERA_SM_STATE_RECORDING" "Some 1" 1]
  by (simp add: demo_defs takes_parms_def KEY_QC_ZSL_def KEY_RECORDING_HINT_def)

text \<open>
  When \<open>preparePreview\<close> fails, on whichever channel and in whichever mode, the
  preview channels are as they were before: none.
\<close>

theorem failed_prepare_adds_nothing:
  assumes "core_ok s" and "within capture_chans s" and "fst (run_state (preparePreview_op st) s) \<noteq> NO_ERROR"
  shows "within capture_chans (snd (run_state (preparePreview_op st) s))"
  by (rule prepare_facts(2) [OF assms])

theorem failed_prepare_adds_nothing_witness:
  "within capture_chans (snd (run_state (preparePreview_op QCAMERA_SM_STATE_PREVIEW_STOPPED)
     (demo_core (demo_server\<lparr>srv_handle := (\<lambda>log c. 0)\<rparr>) False)))"
proof (rule failed_prepare_adds_nothing)
  let ?p = "demo_core (demo_server\<lparr>srv_handle := (\<lambda>log c. 0)\<rparr>) False"
  show "core_ok ?p" "within capture_chans ?p"
    by (auto simp: core_ok_def in_mode_def takes_parms_def settled_def within_def demo_defs)
  have "wp (preparePreview_op QCAMERA_SM_STATE_PREVIEW_STOPPED) (\<lambda>rc _. rc \<noteq> NO_ERROR) ?p"
    by (simp add: core_eval)
  then show "fst (run_state (preparePreview_op QCAMERA_SM_STATE_PREVIEW_STOPPED) ?p) \<noteq> NO_ERROR"
    by (simp add: wp_def split_beta)
qed

end
