(* ===== verification/MmSuperbuf.thy ===== *)
theory MmSuperbuf
  imports CamTypes
begin

text \<open>
  The bundled channel of camera/QCamera2/stack/mm-camera-interface/src/mm_camera_channel.c: the queue of
  super buffers that collects one frame of each stream of the bundle, the matching of incoming frames, the
  reaction to metadata, the flushes, and the command thread that runs them and hands complete super buffers
  to the callback thread.

  The linked list of the queue is a list, a position in it an index. A function that can dereference a null
  pointer or spin returns an option, \<open>None\<close> being that the thread never comes back. Logs stand for what leaves
  the channel: \<open>qbufs\<close> for the buffers given back to their streams, \<open>superbufs\<close> for the super buffers handed to
  the callback thread, \<open>zsl_calls\<close> for the start (\<open>True\<close>) and stop calls to the camera server.
\<close>

section \<open>Frames and metadata\<close>

datatype cam_prep_snapshot_state_t = DO_NOT_NEED_FUTURE_FRAME | NEED_FUTURE_FRAME

record cam_crop_info =
  crop_stream_id :: u32
  crop_left :: u32
  crop_top :: u32

record cam_metadata_info_t =
  is_frame_id_reset :: bool
  is_meta_invalid :: bool
  is_crop_valid :: bool
  crop_data :: "cam_crop_info list"
  is_prep_snapshot_done_valid :: bool
  prep_snapshot_done_state :: cam_prep_snapshot_state_t
  is_good_frame_idx_range_valid :: bool
  min_frame_idx :: u32
  max_frame_idx :: u32

record mm_camera_buf_def_t =
  b_stream_id :: u32
  b_stream_type :: cam_stream_type_t
  b_buf_idx :: u32
  b_buffer :: "cam_metadata_info_t option"

record mm_camera_buf_info_t =
  bi_stream_id :: u32
  bi_frame_idx :: u32
  bi_buf :: "mm_camera_buf_def_t option"

definition no_buf_info :: mm_camera_buf_info_t where
  "no_buf_info = \<lparr>bi_stream_id = 0, bi_frame_idx = 0, bi_buf = None\<rparr>"

section \<open>The channel\<close>

record mm_channel_queue_node_t =
  num_of_bufs :: nat
  super_buf :: "mm_camera_buf_info_t list"
  matched :: bool
  node_frame_idx :: u32

datatype mm_camera_super_buf_notify_mode_t =
  MM_CAMERA_SUPER_BUF_NOTIFY_BURST | MM_CAMERA_SUPER_BUF_NOTIFY_CONTINUOUS

record mm_camera_channel_attr_t =
  notify_mode :: mm_camera_super_buf_notify_mode_t
  water_mark :: u8
  look_back :: u8
  post_frame_skip :: u8
  max_unmatched_frames :: u8

record mm_channel_queue_t =
  que :: "mm_channel_queue_node_t list"
  que_size :: u32
  bundled_streams :: "u32 list"
  attr :: mm_camera_channel_attr_t
  expected_frame_id :: u32
  match_cnt :: u32
  expected_frame_id_without_led :: u32

definition num_streams :: "mm_channel_queue_t \<Rightarrow> nat" where
  "num_streams q = length (bundled_streams q)"

datatype mm_channel_bracketing_state_t =
    MM_CHANNEL_BRACKETING_STATE_OFF
  | MM_CHANNEL_BRACKETING_STATE_WAIT_GOOD_FRAME_IDX
  | MM_CHANNEL_BRACKETING_STATE_ACTIVE

text \<open>
  What the command thread sees of a stream slot: whether it is in use, its handle, the type of its
  \<open>stream_info\<close> (which is null in a slot that was never configured), its server id, and whether it is the
  channel's own stream or one linked from another channel.
\<close>

record stream_slot =
  in_use :: bool
  my_hdl :: u32
  info_type :: "cam_stream_type_t option"
  server_stream_id :: u32
  own_stream :: bool

record mm_channel_t =
  streams :: "stream_slot list"
  superbuf_queue :: mm_channel_queue_t
  super_buf_notify_cb :: bool
  pending_cnt :: u32
  manualZSLSnapshot :: bool
  startZSlSnapshotCalled :: bool
  needLEDFlash :: bool
  previewSkipCnt :: u8
  bracketingState :: mm_channel_bracketing_state_t
  isFlashBracketingEnabled :: bool
  isZoom1xFrameRequested :: bool
  qbufs :: "mm_camera_buf_def_t list"
  superbufs :: "mm_camera_buf_info_t list list"
  zsl_calls :: "bool list"

section \<open>Giving buffers back\<close>

definition get_stream_by_handler :: "mm_channel_t \<Rightarrow> u32 \<Rightarrow> stream_slot option" where
  "get_stream_by_handler ch h = find (\<lambda>s. in_use s \<and> h = my_hdl s) (streams ch)"

text \<open>A linked stream's buffer goes to the stream it is linked from; a buffer of no stream goes nowhere.\<close>

definition mm_channel_qbuf :: "mm_camera_buf_def_t option \<Rightarrow> mm_channel_t \<Rightarrow> mm_channel_t" where
  "mm_channel_qbuf b ch = (case b of
     None \<Rightarrow> ch
   | Some b \<Rightarrow> (case get_stream_by_handler ch (b_stream_id b) of
        None \<Rightarrow> ch
      | Some s \<Rightarrow> ch\<lparr>qbufs := qbufs ch @ [b]\<rparr>))"

definition qbuf_slots :: "(mm_camera_buf_info_t \<Rightarrow> bool) \<Rightarrow> mm_channel_queue_node_t \<Rightarrow> mm_channel_t \<Rightarrow> mm_channel_t" where
  "qbuf_slots P n ch = fold (\<lambda>b. mm_channel_qbuf (bi_buf b)) (filter P (take (num_of_bufs n) (super_buf n))) ch"

definition set_queue :: "mm_channel_queue_t \<Rightarrow> mm_channel_t \<Rightarrow> mm_channel_t" where
  "set_queue q ch = ch\<lparr>superbuf_queue := q\<rparr>"

section \<open>Dequeue and flush\<close>

definition mm_channel_superbuf_dequeue_internal ::
    "bool \<Rightarrow> mm_channel_queue_t \<Rightarrow> mm_channel_queue_node_t option \<times> mm_channel_queue_t" where
  "mm_channel_superbuf_dequeue_internal matched_only q = (case que q of
     [] \<Rightarrow> (None, q)
   | n # ns \<Rightarrow>
       if matched_only \<and> \<not> matched n then (None, q)
       else (Some n, q\<lparr>que := ns, que_size := que_size q - 1,
                       match_cnt := (if matched n then match_cnt q - 1 else match_cnt q)\<rparr>))"

lemma dequeue_shorter:
  "mm_channel_superbuf_dequeue_internal b q = (Some n, q') \<Longrightarrow> length (que q') < length (que q)"
  by (auto simp: mm_channel_superbuf_dequeue_internal_def split: list.splits if_splits)

lemma qbuf_queue [simp]: "superbuf_queue (mm_channel_qbuf b ch) = superbuf_queue ch"
  by (simp add: mm_channel_qbuf_def split: option.split)

lemma qbuf_slots_queue [simp]: "superbuf_queue (qbuf_slots P n ch) = superbuf_queue ch"
proof -
  have "superbuf_queue (fold (\<lambda>b. mm_channel_qbuf (bi_buf b)) bs c) = superbuf_queue c" for bs c
    by (induction bs arbitrary: c) simp_all
  then show ?thesis by (simp add: qbuf_slots_def)
qed

lemma set_queue_queue [simp]: "superbuf_queue (set_queue q ch) = q"
  by (simp add: set_queue_def)

definition has_buf :: "mm_camera_buf_info_t \<Rightarrow> bool" where
  "has_buf b \<longleftrightarrow> bi_buf b \<noteq> None"

definition of_type :: "cam_stream_type_t \<Rightarrow> mm_camera_buf_info_t \<Rightarrow> bool" where
  "of_type t b = (case bi_buf b of None \<Rightarrow> False | Some d \<Rightarrow> t = CAM_STREAM_TYPE_DEFAULT \<or> t = b_stream_type d)"

text \<open>The loop of both flushes: dequeue until there is no more, give the selected buffers back.\<close>

function flush_nodes :: "bool \<Rightarrow> (mm_camera_buf_info_t \<Rightarrow> bool) \<Rightarrow> mm_channel_t \<Rightarrow> mm_channel_t" where
  "flush_nodes matched_only P ch =
     (case mm_channel_superbuf_dequeue_internal matched_only (superbuf_queue ch) of
        (None, q) \<Rightarrow> ch
      | (Some n, q) \<Rightarrow> flush_nodes matched_only P (qbuf_slots P n (set_queue q ch)))"
  by pat_completeness auto
termination
  by (relation "measure (\<lambda>(_, _, ch). length (que (superbuf_queue ch)))") (auto dest!: dequeue_shorter [OF sym])

declare flush_nodes.simps [simp del]

definition mm_channel_superbuf_flush :: "cam_stream_type_t \<Rightarrow> mm_channel_t \<Rightarrow> mm_channel_t" where
  "mm_channel_superbuf_flush t = flush_nodes False (of_type t)"

definition mm_channel_superbuf_flush_matched :: "mm_channel_t \<Rightarrow> mm_channel_t" where
  "mm_channel_superbuf_flush_matched = flush_nodes True has_buf"

text \<open>
  Dropping matched super buffers down to a limit. The loop tests the counter, not the queue: it spins when the
  counter is over the limit and the first super buffer is not matched.
\<close>

partial_function (option) drop_over :: "u32 \<Rightarrow> mm_channel_t \<Rightarrow> mm_channel_t option" where
  "drop_over lim ch =
     (if match_cnt (superbuf_queue ch) \<le> lim then Some ch
      else (case mm_channel_superbuf_dequeue_internal True (superbuf_queue ch) of
              (None, q) \<Rightarrow> drop_over lim ch
            | (Some n, q) \<Rightarrow> drop_over lim (qbuf_slots has_buf n (set_queue q ch))))"

definition mm_channel_superbuf_bufdone_overflow :: "mm_channel_t \<Rightarrow> mm_channel_t option" where
  "mm_channel_superbuf_bufdone_overflow ch = (case notify_mode (attr (superbuf_queue ch)) of
     MM_CAMERA_SUPER_BUF_NOTIFY_CONTINUOUS \<Rightarrow> Some ch
   | MM_CAMERA_SUPER_BUF_NOTIFY_BURST \<Rightarrow> drop_over (ucast (water_mark (attr (superbuf_queue ch)))) ch)"

definition mm_channel_superbuf_skip :: "mm_channel_t \<Rightarrow> mm_channel_t option" where
  "mm_channel_superbuf_skip ch = (case notify_mode (attr (superbuf_queue ch)) of
     MM_CAMERA_SUPER_BUF_NOTIFY_CONTINUOUS \<Rightarrow> Some ch
   | MM_CAMERA_SUPER_BUF_NOTIFY_BURST \<Rightarrow> drop_over (ucast (look_back (attr (superbuf_queue ch)))) ch)"

section \<open>Metadata\<close>

text \<open>
  The search for the snapshot stream reads \<open>stream_info->stream_type\<close> of each slot in turn; a slot without
  \<open>stream_info\<close> in front of the snapshot stream is a null dereference. The id is 0 when there is no snapshot
  stream.
\<close>

fun snapshot_stream_id :: "stream_slot list \<Rightarrow> u32 option" where
  "snapshot_stream_id [] = Some 0"
| "snapshot_stream_id (s # ss) = (case info_type s of
     None \<Rightarrow> None
   | Some t \<Rightarrow> if t = CAM_STREAM_TYPE_SNAPSHOT then Some (server_stream_id s) else snapshot_stream_id ss)"

definition crop_1x_found :: "cam_metadata_info_t \<Rightarrow> u32 \<Rightarrow> bool" where
  "crop_1x_found md sid \<longleftrightarrow> is_crop_valid md \<and>
     (\<exists>c \<in> set (crop_data md). crop_stream_id c = sid \<and> crop_left c = 0 \<and> crop_top c = 0)"

definition set_expected :: "u32 \<Rightarrow> mm_channel_t \<Rightarrow> mm_channel_t" where
  "set_expected e ch = set_queue ((superbuf_queue ch)\<lparr>expected_frame_id := e\<rparr>) ch"

definition max_future_frame_offset :: u32 where
  "max_future_frame_offset = 100"

definition wait_future_frame :: "mm_channel_t \<Rightarrow> mm_channel_t" where
  "wait_future_frame ch = set_expected (expected_frame_id (superbuf_queue ch) + max_future_frame_offset) ch"

text \<open>The metadata of the channel's own metadata stream.\<close>

definition metadata_zoom :: "bool \<Rightarrow> u32 \<Rightarrow> mm_channel_t \<Rightarrow> mm_channel_t" where
  "metadata_zoom found frame ch =
     (if found then set_expected (frame + 1) (ch\<lparr>isZoom1xFrameRequested := False\<rparr>)
      else mm_channel_superbuf_flush_matched (wait_future_frame ch))"

definition metadata_good_frame :: "cam_metadata_info_t \<Rightarrow> mm_channel_t \<Rightarrow> mm_channel_t" where
  "metadata_good_frame md ch =
     (if is_prep_snapshot_done_valid md
      then (if prep_snapshot_done_state md = NEED_FUTURE_FRAME
            then (mm_channel_superbuf_flush CAM_STREAM_TYPE_DEFAULT (wait_future_frame ch))\<lparr>needLEDFlash := True\<rparr>
            else ch\<lparr>needLEDFlash := False\<rparr>)
      else if is_good_frame_idx_range_valid md then set_expected (min_frame_idx md) ch
      else if bracketingState ch = MM_CHANNEL_BRACKETING_STATE_WAIT_GOOD_FRAME_IDX
      then wait_future_frame (mm_channel_superbuf_flush_matched ch)
      else ch)"

definition metadata_bracketing :: "cam_metadata_info_t \<Rightarrow> mm_channel_t \<Rightarrow> mm_channel_t" where
  "metadata_bracketing md ch =
     (if \<not> is_good_frame_idx_range_valid md then ch
      else if isFlashBracketingEnabled ch
      then set_queue ((superbuf_queue ch)\<lparr>expected_frame_id := min_frame_idx md,
             expected_frame_id_without_led := max_frame_idx md\<rparr>) ch
      else (set_expected (min_frame_idx md) ch)\<lparr>bracketingState := MM_CHANNEL_BRACKETING_STATE_ACTIVE\<rparr>)"

definition metadata_own :: "cam_metadata_info_t \<Rightarrow> u32 \<Rightarrow> mm_channel_t \<Rightarrow> (bool \<times> mm_channel_t) option" where
  "metadata_own md frame ch =
     (case snapshot_stream_id (streams ch) of
        None \<Rightarrow> None
      | Some sid \<Rightarrow> Some (
          if is_prep_snapshot_done_valid md \<and> is_good_frame_idx_range_valid md then (False, ch)
          else if isZoom1xFrameRequested ch then (True, metadata_zoom (crop_1x_found md sid) frame ch)
          else (True, metadata_bracketing md (metadata_good_frame md ch))))"

text \<open>The result is \<open>False\<close> for the return code -1.\<close>

definition mm_channel_handle_metadata :: "mm_camera_buf_info_t \<Rightarrow> mm_channel_t \<Rightarrow> (bool \<times> mm_channel_t) option" where
  "mm_channel_handle_metadata info ch =
     (case get_stream_by_handler ch (bi_stream_id info) of
        None \<Rightarrow> Some (False, ch)
      | Some s \<Rightarrow> (case info_type s of
          None \<Rightarrow> Some (False, ch)
        | Some t \<Rightarrow>
            if t \<noteq> CAM_STREAM_TYPE_METADATA then Some (True, ch)
            else (case Option.bind (bi_buf info) b_buffer of
                    None \<Rightarrow> Some (False, ch)
                  | Some md \<Rightarrow>
                      let ch' = (if is_frame_id_reset md
                                 then set_expected 1 (mm_channel_superbuf_flush CAM_STREAM_TYPE_DEFAULT ch) else ch)
                      in if is_meta_invalid md then Some (False, ch')
                         else if own_stream s then metadata_own md (bi_frame_idx info) ch'
                         else Some (True, ch'))))"

section \<open>Matching\<close>

text \<open>
  The walk over the queue for a frame index: the position of the unmatched super buffer with this index, the
  number of unmatched ones passed (in 8 bits), the first of them that is older, the first that is newer.
\<close>

record scan_result =
  sc_pos :: "nat option"
  sc_unmatched :: u8
  sc_last :: "nat option"
  sc_before :: "nat option"

fun sb_scan :: "u32 \<Rightarrow> mm_channel_queue_node_t list \<Rightarrow> nat \<Rightarrow> scan_result \<Rightarrow> scan_result" where
  "sb_scan f [] i r = r"
| "sb_scan f (n # ns) i r =
     (if matched n then sb_scan f ns (Suc i) r
      else if f = node_frame_idx n then r\<lparr>sc_pos := Some i\<rparr>
      else sb_scan f ns (Suc i) (r\<lparr>sc_unmatched := sc_unmatched r + 1,
             sc_last := (if sc_last r = None \<and> node_frame_idx n < f then Some i else sc_last r),
             sc_before := (if sc_before r = None \<and> f < node_frame_idx n then Some i else sc_before r)\<rparr>))"

definition no_scan :: scan_result where
  "no_scan = \<lparr>sc_pos = None, sc_unmatched = 0, sc_last = None, sc_before = None\<rparr>"

definition is_filled :: "mm_camera_buf_info_t \<Rightarrow> bool" where
  "is_filled b \<longleftrightarrow> bi_frame_idx b \<noteq> 0"

definition all_filled :: "mm_channel_queue_node_t \<Rightarrow> bool" where
  "all_filled n \<longleftrightarrow> (\<forall>b \<in> set (take (num_of_bufs n) (super_buf n)). is_filled b)"

definition fill_slot :: "nat \<Rightarrow> mm_camera_buf_info_t \<Rightarrow> mm_channel_queue_node_t \<Rightarrow> mm_channel_queue_node_t" where
  "fill_slot s info n = (let n' = n\<lparr>super_buf := (super_buf n)[s := info]\<rparr> in n'\<lparr>matched := all_filled n'\<rparr>)"

text \<open>Removing the super buffers from one position up to another, giving back what they hold.\<close>

definition drop_range :: "nat \<Rightarrow> nat \<Rightarrow> mm_channel_t \<Rightarrow> mm_channel_t" where
  "drop_range l p ch =
     (let q = superbuf_queue ch
      in fold (qbuf_slots is_filled) (take (p - l) (drop l (que q)))
           (set_queue (q\<lparr>que := take l (que q) @ drop p (que q), que_size := que_size q - of_nat (p - l)\<rparr>) ch))"

definition expect_next :: "u32 \<Rightarrow> mm_channel_t \<Rightarrow> mm_channel_t" where
  "expect_next f ch = set_expected (f + ucast (post_frame_skip (attr (superbuf_queue ch)))) ch"

definition count_match :: "mm_channel_t \<Rightarrow> mm_channel_t" where
  "count_match ch = set_queue ((superbuf_queue ch)\<lparr>match_cnt := match_cnt (superbuf_queue ch) + 1\<rparr>) ch"

definition sb_found :: "nat \<Rightarrow> nat \<Rightarrow> nat option \<Rightarrow> mm_camera_buf_info_t \<Rightarrow> mm_channel_t \<Rightarrow> mm_channel_t" where
  "sb_found s p last_buf info ch =
     (let q = superbuf_queue ch;
          n = fill_slot s info (que q ! p);
          ch1 = set_queue (q\<lparr>que := (que q)[p := n]\<rparr>) ch
      in if \<not> matched n then ch1
         else let ch2 = (if isFlashBracketingEnabled ch1
                         then (set_expected (expected_frame_id_without_led q) ch1)\<lparr>isFlashBracketingEnabled := False\<rparr>
                         else expect_next (bi_frame_idx info) ch1);
                  ch3 = count_match ch2
              in (case last_buf of None \<Rightarrow> ch3 | Some l \<Rightarrow> drop_range l p ch3))"

definition new_node :: "nat \<Rightarrow> nat \<Rightarrow> mm_camera_buf_info_t \<Rightarrow> mm_channel_queue_node_t" where
  "new_node num s info = \<lparr>num_of_bufs = num,
     super_buf = (replicate MAX_STREAM_NUM_IN_BUNDLE no_buf_info)[s := info],
     matched = (num = 1), node_frame_idx = bi_frame_idx info\<rparr>"

text \<open>The new super buffer goes before the first newer unmatched one; \<open>b\<close> is its position.\<close>

definition sb_insert :: "nat \<Rightarrow> nat option \<Rightarrow> mm_camera_buf_info_t \<Rightarrow> mm_channel_t \<Rightarrow> mm_channel_t" where
  "sb_insert s b info ch =
     (let q = superbuf_queue ch;
          n = new_node (num_streams q) s info;
          at = (case b of None \<Rightarrow> length (que q) | Some i \<Rightarrow> i);
          ch1 = set_queue (q\<lparr>que := take at (que q) @ n # drop at (que q), que_size := que_size q + 1\<rparr>) ch
      in if num_streams q = 1 then count_match (expect_next (bi_frame_idx info) ch1) else ch1)"

text \<open>When too many are unmatched the oldest goes, or the incoming frame when it is older than all of them.\<close>

definition sb_not_found :: "bool \<Rightarrow> nat \<Rightarrow> scan_result \<Rightarrow> mm_camera_buf_info_t \<Rightarrow> mm_channel_t \<Rightarrow> mm_channel_t" where
  "sb_not_found mem s r info ch =
     (let full = max_unmatched_frames (attr (superbuf_queue ch)) < sc_unmatched r
      in if full \<and> sc_last r = None then mm_channel_qbuf (bi_buf info) ch
         else let ch1 = (case sc_last r of Some l \<Rightarrow> if full then drop_range l (Suc l) ch else ch | None \<Rightarrow> ch);
                  b = (case (sc_before r, sc_last r) of
                         (Some i, Some l) \<Rightarrow> Some (if full \<and> l < i then i - 1 else i)
                       | (x, _) \<Rightarrow> x)
              in if mem then sb_insert s b info ch1 else mm_channel_qbuf (bi_buf info) ch1)"

definition bundle_index :: "mm_channel_queue_t \<Rightarrow> u32 \<Rightarrow> nat option" where
  "bundle_index q h = find (\<lambda>i. bundled_streams q ! i = h) [0..<num_streams q]"

definition mm_channel_superbuf_comp_and_enqueue ::
    "bool \<Rightarrow> mm_camera_buf_info_t \<Rightarrow> mm_channel_t \<Rightarrow> mm_channel_t option" where
  "mm_channel_superbuf_comp_and_enqueue mem info ch =
     (case bundle_index (superbuf_queue ch) (bi_stream_id info) of
        None \<Rightarrow> Some ch
      | Some s \<Rightarrow> (case mm_channel_handle_metadata info ch of
          None \<Rightarrow> None
        | Some (ok, ch') \<Rightarrow>
            if \<not> ok \<or> bi_frame_idx info < expected_frame_id (superbuf_queue ch')
            then Some (mm_channel_qbuf (bi_buf info) ch')
            else let r = sb_scan (bi_frame_idx info) (que (superbuf_queue ch')) 0 no_scan
                 in Some (case sc_pos r of
                            Some p \<Rightarrow> sb_found s p (sc_last r) info ch'
                          | None \<Rightarrow> sb_not_found mem s r info ch')))"

section \<open>The command thread\<close>

datatype mm_camera_generic_cmd_type_t =
    MM_CAMERA_GENERIC_CMD_TYPE_AE_BRACKETING
  | MM_CAMERA_GENERIC_CMD_TYPE_AF_BRACKETING
  | MM_CAMERA_GENERIC_CMD_TYPE_FLASH_BRACKETING
  | MM_CAMERA_GENERIC_CMD_TYPE_MTF_BRACKETING
  | MM_CAMERA_GENERIC_CMD_TYPE_ZOOM_1X

datatype mm_camera_cmdcb_t =
    CMD_DATA_CB mm_camera_buf_info_t
  | CMD_REQ_DATA_CB u32
  | CMD_START_ZSL
  | CMD_STOP_ZSL
  | CMD_CONFIG_NOTIFY mm_camera_super_buf_notify_mode_t
  | CMD_FLUSH_QUEUE u32 cam_stream_type_t
  | CMD_GENERAL mm_camera_generic_cmd_type_t bool
  | CMD_EXIT

definition MM_CAMERA_POST_FLASH_PREVIEW_SKIP_CNT :: u8 where
  "MM_CAMERA_POST_FLASH_PREVIEW_SKIP_CNT = 3"

definition zsl_call :: "bool \<Rightarrow> mm_channel_t \<Rightarrow> mm_channel_t" where
  "zsl_call start ch = ch\<lparr>zsl_calls := zsl_calls ch @ [start]\<rparr>"

text \<open>A request for \<open>n\<close> super buffers; zero cancels the one before.\<close>

definition proc_request :: "u32 \<Rightarrow> mm_channel_t \<Rightarrow> mm_channel_t option" where
  "proc_request n ch = map_option (\<lambda>ch.
     if 0 < pending_cnt ch \<and> (needLEDFlash ch \<or> bracketingState ch \<noteq> MM_CHANNEL_BRACKETING_STATE_OFF)
        \<and> \<not> manualZSLSnapshot ch \<and> \<not> startZSlSnapshotCalled ch
     then (zsl_call True ch)\<lparr>startZSlSnapshotCalled := True, needLEDFlash := False, previewSkipCnt := 0\<rparr>
     else if pending_cnt ch = 0 \<and> startZSlSnapshotCalled ch \<and> \<not> manualZSLSnapshot ch
     then (zsl_call False ch)\<lparr>startZSlSnapshotCalled := False, needLEDFlash := False,
            bracketingState := MM_CHANNEL_BRACKETING_STATE_OFF\<rparr>
     else ch) (mm_channel_superbuf_skip (ch\<lparr>pending_cnt := n\<rparr>))"

definition proc_general :: "mm_camera_generic_cmd_type_t \<Rightarrow> bool \<Rightarrow> mm_channel_t \<Rightarrow> mm_channel_t" where
  "proc_general t start ch = (case t of
     MM_CAMERA_GENERIC_CMD_TYPE_FLASH_BRACKETING \<Rightarrow> ch\<lparr>isFlashBracketingEnabled := start\<rparr>
   | MM_CAMERA_GENERIC_CMD_TYPE_ZOOM_1X \<Rightarrow> ch\<lparr>isZoom1xFrameRequested := start\<rparr>
   | _ \<Rightarrow> (mm_channel_superbuf_flush CAM_STREAM_TYPE_DEFAULT ch)\<lparr>bracketingState :=
            (if start then MM_CHANNEL_BRACKETING_STATE_WAIT_GOOD_FRAME_IDX else MM_CHANNEL_BRACKETING_STATE_OFF)\<rparr>)"

definition set_notify_mode :: "mm_camera_super_buf_notify_mode_t \<Rightarrow> mm_channel_t \<Rightarrow> mm_channel_t" where
  "set_notify_mode m ch = set_queue ((superbuf_queue ch)
     \<lparr>attr := (attr (superbuf_queue ch))\<lparr>notify_mode := m\<rparr>\<rparr>) ch"

definition proc_flush :: "u32 \<Rightarrow> cam_stream_type_t \<Rightarrow> mm_channel_t \<Rightarrow> mm_channel_t" where
  "proc_flush f t ch = mm_channel_superbuf_flush t (set_expected f ch)"

text \<open>The part of the command that comes before the dispatch.\<close>

definition proc_cmd :: "bool \<Rightarrow> mm_camera_cmdcb_t \<Rightarrow> mm_channel_t \<Rightarrow> mm_channel_t option" where
  "proc_cmd mem c ch = (case c of
     CMD_DATA_CB info \<Rightarrow> mm_channel_superbuf_comp_and_enqueue mem info ch
   | CMD_REQ_DATA_CB n \<Rightarrow> proc_request n ch
   | CMD_START_ZSL \<Rightarrow> Some (zsl_call True (ch\<lparr>manualZSLSnapshot := True\<rparr>))
   | CMD_STOP_ZSL \<Rightarrow> Some (zsl_call False (ch\<lparr>manualZSLSnapshot := False\<rparr>))
   | CMD_CONFIG_NOTIFY m \<Rightarrow> Some (set_notify_mode m ch)
   | CMD_FLUSH_QUEUE f t \<Rightarrow> Some (proc_flush f t ch)
   | CMD_GENERAL t start \<Rightarrow> Some (proc_general t start ch)
   | CMD_EXIT \<Rightarrow> Some ch)"

definition is_burst :: "mm_channel_t \<Rightarrow> bool" where
  "is_burst ch \<longleftrightarrow> notify_mode (attr (superbuf_queue ch)) = MM_CAMERA_SUPER_BUF_NOTIFY_BURST"

definition count_down :: "mm_channel_t \<Rightarrow> mm_channel_t" where
  "count_down ch =
     (if \<not> is_burst ch then ch
      else let ch1 = ch\<lparr>pending_cnt := pending_cnt ch - 1\<rparr>
           in if pending_cnt ch1 = 0 \<and> startZSlSnapshotCalled ch1 \<and> \<not> manualZSLSnapshot ch1
              then (zsl_call False ch1)\<lparr>previewSkipCnt := MM_CAMERA_POST_FLASH_PREVIEW_SKIP_CNT,
                     startZSlSnapshotCalled := False, bracketingState := MM_CHANNEL_BRACKETING_STATE_OFF\<rparr>
              else ch1)"

text \<open>\<open>cbmem\<close> tells whether the node for the callback thread can be allocated.\<close>

definition hand_over :: "(mm_channel_queue_node_t \<Rightarrow> bool) \<Rightarrow> mm_channel_queue_node_t \<Rightarrow> mm_channel_t \<Rightarrow> mm_channel_t" where
  "hand_over cbmem n ch =
     (if super_buf_notify_cb ch \<and> cbmem n
      then ch\<lparr>superbufs := superbufs ch @ [take (num_of_bufs n) (super_buf n)]\<rparr>
      else qbuf_slots (\<lambda>b. True) n ch)"

lemma count_down_queue [simp]: "superbuf_queue (count_down ch) = superbuf_queue ch"
  by (simp add: count_down_def zsl_call_def Let_def)

lemma hand_over_queue [simp]: "superbuf_queue (hand_over m n ch) = superbuf_queue ch"
  by (simp add: hand_over_def)

function dispatch_loop :: "(mm_channel_queue_node_t \<Rightarrow> bool) \<Rightarrow> mm_channel_t \<Rightarrow> mm_channel_t" where
  "dispatch_loop cbmem ch =
     (if 0 < pending_cnt ch \<or> \<not> is_burst ch
      then (case mm_channel_superbuf_dequeue_internal True (superbuf_queue ch) of
              (None, q) \<Rightarrow> ch
            | (Some n, q) \<Rightarrow> dispatch_loop cbmem (hand_over cbmem n (count_down (set_queue q ch))))
      else ch)"
  by pat_completeness auto
termination
  by (relation "measure (\<lambda>(_, ch). length (que (superbuf_queue ch)))") (auto dest!: dequeue_shorter [OF sym])

declare dispatch_loop.simps [simp del]

definition mm_channel_process_stream_buf ::
    "bool \<Rightarrow> (mm_channel_queue_node_t \<Rightarrow> bool) \<Rightarrow> mm_camera_cmdcb_t \<Rightarrow> mm_channel_t \<Rightarrow> mm_channel_t option" where
  "mm_channel_process_stream_buf mem cbmem c ch =
     (case proc_cmd mem c ch of
        None \<Rightarrow> None
      | Some ch1 \<Rightarrow>
          (case c of
             CMD_FLUSH_QUEUE f t \<Rightarrow> Some ch1
           | _ \<Rightarrow> map_option (dispatch_loop cbmem) (mm_channel_superbuf_bufdone_overflow ch1)))"

text \<open>The queue as the start of the channel sets it up.\<close>

definition superbuf_queue_restart :: "u32 list \<Rightarrow> mm_channel_t \<Rightarrow> mm_channel_t" where
  "superbuf_queue_restart hs ch = set_queue ((superbuf_queue ch)\<lparr>que := [], que_size := 0, bundled_streams := hs,
     expected_frame_id := 0, expected_frame_id_without_led := 0\<rparr>) ch"

end
