(* ===== verification/MmSuperbufInv.thy ===== *)
theory MmSuperbufInv
  imports MmSuperbuf "HOL-Library.Multiset"
begin

text \<open>
  The invariant of the superbuf queue and what the queue operations do to it: complete super buffers come
  first, the incomplete ones after them in the order of their frame index; the counters count; a slot that is
  filled holds the frame its super buffer stands for, of the stream the slot is for.

  \<open>sound ch ch'\<close> says that a step of the command thread keeps the invariant, loses and duplicates no buffer,
  and hands over only complete super buffers; every operation but the enqueueing of a frame is sound.
\<close>

section \<open>The invariant\<close>

definition slot_ok :: "u32 \<Rightarrow> u32 \<Rightarrow> mm_camera_buf_info_t \<Rightarrow> bool" where
  "slot_ok h f b \<longleftrightarrow> bi_stream_id b = h \<and> bi_frame_idx b = f \<and> (\<exists>d. bi_buf b = Some d \<and> b_stream_id d = h)"

definition node_ok :: "u32 list \<Rightarrow> mm_channel_queue_node_t \<Rightarrow> bool" where
  "node_ok hs n \<longleftrightarrow> num_of_bufs n = length hs \<and> length (super_buf n) = MAX_STREAM_NUM_IN_BUNDLE \<and>
     length hs \<le> MAX_STREAM_NUM_IN_BUNDLE \<and> node_frame_idx n \<noteq> 0 \<and>
     (\<forall>i < length hs. super_buf n ! i = no_buf_info \<or> slot_ok (hs ! i) (node_frame_idx n) (super_buf n ! i)) \<and>
     (\<exists>i < length hs. is_filled (super_buf n ! i)) \<and> matched n = all_filled n"

text \<open>The queue holds the matched super buffers \<open>ms\<close>, then the unmatched ones \<open>us\<close>.\<close>

definition sb_rep :: "mm_channel_queue_t \<Rightarrow> mm_channel_queue_node_t list \<Rightarrow> mm_channel_queue_node_t list \<Rightarrow> bool" where
  "sb_rep q ms us \<longleftrightarrow> que q = ms @ us \<and> (\<forall>n \<in> set ms. matched n) \<and> (\<forall>n \<in> set us. \<not> matched n) \<and>
     sorted_wrt (\<lambda>a b. node_frame_idx a < node_frame_idx b) us \<and>
     match_cnt q = of_nat (length ms) \<and> que_size q = of_nat (length ms + length us) \<and>
     (\<forall>n \<in> set ms \<union> set us. node_ok (bundled_streams q) n)"

definition few_unmatched :: "mm_channel_queue_t \<Rightarrow> mm_channel_queue_node_t list \<Rightarrow> bool" where
  "few_unmatched q us \<longleftrightarrow> unat (max_unmatched_frames (attr q)) < 255 \<and>
     length us \<le> Suc (unat (max_unmatched_frames (attr q)))"

definition sb_inv :: "mm_channel_queue_t \<Rightarrow> bool" where
  "sb_inv q \<longleftrightarrow> (\<exists>ms us. sb_rep q ms us \<and> few_unmatched q us)"

definition streams_known :: "mm_channel_t \<Rightarrow> bool" where
  "streams_known ch \<longleftrightarrow> (\<forall>h \<in> set (bundled_streams (superbuf_queue ch)). get_stream_by_handler ch h \<noteq> None)"

definition complete :: "u32 list \<Rightarrow> mm_camera_buf_info_t list \<Rightarrow> bool" where
  "complete hs bs \<longleftrightarrow> length bs = length hs \<and>
     (\<exists>f. f \<noteq> 0 \<and> (\<forall>i < length hs. slot_ok (hs ! i) f (bs ! i)))"

definition sb_ok :: "mm_channel_t \<Rightarrow> bool" where
  "sb_ok ch \<longleftrightarrow> streams_known ch \<and> sb_inv (superbuf_queue ch) \<and>
     (\<forall>bs \<in> set (superbufs ch). complete (bundled_streams (superbuf_queue ch)) bs)"

section \<open>Where the buffers are\<close>

definition bufs_of :: "mm_camera_buf_info_t list \<Rightarrow> mm_camera_buf_def_t list" where
  "bufs_of bs = List.map_filter bi_buf bs"

definition node_bufs :: "mm_channel_queue_node_t \<Rightarrow> mm_camera_buf_def_t list" where
  "node_bufs n = bufs_of (take (num_of_bufs n) (super_buf n))"

definition held_bufs :: "mm_channel_queue_node_t list \<Rightarrow> mm_camera_buf_def_t multiset" where
  "held_bufs ns = mset (concat (map node_bufs ns))"

definition accounted :: "mm_channel_t \<Rightarrow> mm_camera_buf_def_t multiset" where
  "accounted ch = held_bufs (que (superbuf_queue ch)) + mset (qbufs ch) + mset (concat (map bufs_of (superbufs ch)))"

lemma held_bufs_simps [simp]:
  "held_bufs [] = {#}" "held_bufs (n # ns) = mset (node_bufs n) + held_bufs ns"
  "held_bufs (ns @ ns') = held_bufs ns + held_bufs ns'"
  by (simp_all add: held_bufs_def)

lemma bufs_of_simps [simp]: "bufs_of [] = []"
  "bufs_of (b # bs) = (case bi_buf b of None \<Rightarrow> bufs_of bs | Some d \<Rightarrow> d # bufs_of bs)"
  "bufs_of (bs @ bs') = bufs_of bs @ bufs_of bs'"
  by (simp_all add: bufs_of_def map_filter_def split: option.split)

section \<open>Giving back\<close>

lemma qbuf_fields [simp]:
  "streams (mm_channel_qbuf b ch) = streams ch" "superbufs (mm_channel_qbuf b ch) = superbufs ch"
  "get_stream_by_handler (mm_channel_qbuf b ch) h = get_stream_by_handler ch h"
  by (simp_all add: mm_channel_qbuf_def get_stream_by_handler_def split: option.split)

lemma qbuf_log:
  "get_stream_by_handler ch (b_stream_id d) \<noteq> None \<Longrightarrow> qbufs (mm_channel_qbuf (Some d) ch) = qbufs ch @ [d]"
  by (auto simp: mm_channel_qbuf_def)

lemma fold_qbuf_fields:
  "streams (fold (\<lambda>b. mm_channel_qbuf (bi_buf b)) bs ch) = streams ch"
  "superbufs (fold (\<lambda>b. mm_channel_qbuf (bi_buf b)) bs ch) = superbufs ch"
  "get_stream_by_handler (fold (\<lambda>b. mm_channel_qbuf (bi_buf b)) bs ch) h = get_stream_by_handler ch h"
  by (induction bs arbitrary: ch) simp_all

lemma fold_qbuf_log:
  assumes "\<forall>d \<in> set (bufs_of bs). get_stream_by_handler ch (b_stream_id d) \<noteq> None"
  shows "qbufs (fold (\<lambda>b. mm_channel_qbuf (bi_buf b)) bs ch) = qbufs ch @ bufs_of bs"
  using assms
proof (induction bs arbitrary: ch)
  case (Cons b bs)
  show ?case
  proof (cases "bi_buf b")
    case None
    then show ?thesis using Cons by (simp add: mm_channel_qbuf_def)
  next
    case (Some d)
    then show ?thesis using Cons qbuf_log [of ch d] by simp
  qed
qed simp

lemma qbuf_slots_fields [simp]:
  "streams (qbuf_slots P n ch) = streams ch" "superbufs (qbuf_slots P n ch) = superbufs ch"
  "get_stream_by_handler (qbuf_slots P n ch) h = get_stream_by_handler ch h"
  by (simp_all add: qbuf_slots_def fold_qbuf_fields)

lemma set_queue_fields [simp]:
  "streams (set_queue q ch) = streams ch" "superbufs (set_queue q ch) = superbufs ch" "qbufs (set_queue q ch) = qbufs ch"
  "get_stream_by_handler (set_queue q ch) h = get_stream_by_handler ch h"
  by (simp_all add: set_queue_def get_stream_by_handler_def)

text \<open>The tests the code uses to pick the filled slots agree on a good node.\<close>

definition picks_filled :: "(mm_camera_buf_info_t \<Rightarrow> bool) \<Rightarrow> bool" where
  "picks_filled P \<longleftrightarrow> (\<forall>b h f. f \<noteq> 0 \<longrightarrow> slot_ok h f b \<longrightarrow> P b)"

lemma picks [simp]: "picks_filled has_buf" "picks_filled is_filled" "picks_filled (\<lambda>b. True)"
  "picks_filled (of_type CAM_STREAM_TYPE_DEFAULT)"
  by (auto simp: picks_filled_def has_buf_def is_filled_def of_type_def slot_ok_def)

lemma bufs_of_filter:
  "\<forall>b \<in> set bs. b = no_buf_info \<or> P b \<Longrightarrow> bufs_of (filter P bs) = bufs_of bs"
  by (induction bs) (auto simp: no_buf_info_def split: option.split)

lemma node_slot:
  assumes "node_ok hs n" and "b \<in> set (take (num_of_bufs n) (super_buf n))"
  shows "b = no_buf_info \<or> (\<exists>i < length hs. slot_ok (hs ! i) (node_frame_idx n) b)"
proof -
  obtain i where "i < num_of_bufs n" "i < length (super_buf n)" "b = super_buf n ! i"
    using assms(2) by (auto simp: in_set_conv_nth)
  then show ?thesis using assms(1) unfolding node_ok_def by metis
qed

lemma node_filter:
  assumes "node_ok hs n" and "picks_filled P"
  shows "bufs_of (filter P (take (num_of_bufs n) (super_buf n))) = node_bufs n"
  unfolding node_bufs_def
proof (rule bufs_of_filter, intro ballI)
  fix b assume "b \<in> set (take (num_of_bufs n) (super_buf n))"
  then show "b = no_buf_info \<or> P b"
    using node_slot [OF assms(1)] assms unfolding picks_filled_def node_ok_def by metis
qed

lemma node_bufs_stream:
  assumes "node_ok hs n" and "d \<in> set (node_bufs n)"
  shows "b_stream_id d \<in> set hs"
proof -
  obtain b where b: "b \<in> set (take (num_of_bufs n) (super_buf n))" "bi_buf b = Some d"
    using assms(2) by (auto simp: node_bufs_def bufs_of_def map_filter_def)
  then show ?thesis
    using node_slot [OF assms(1) b(1)] by (auto simp: no_buf_info_def slot_ok_def)
qed

lemma qbuf_slots_log:
  assumes "node_ok hs n" and "picks_filled P" and "\<forall>h \<in> set hs. get_stream_by_handler ch h \<noteq> None"
  shows "qbufs (qbuf_slots P n ch) = qbufs ch @ node_bufs n"
  unfolding qbuf_slots_def using fold_qbuf_log node_bufs_stream [OF assms(1)] assms(3)
  by (simp add: node_filter [OF assms(1,2)])

section \<open>Sound steps\<close>

text \<open>The frames in the queue, by stream and index, and the number of complete super buffers.\<close>

definition node_frames :: "mm_channel_queue_node_t \<Rightarrow> (u32 \<times> u32) set" where
  "node_frames n = (\<lambda>b. (bi_stream_id b, bi_frame_idx b)) ` {b \<in> set (take (num_of_bufs n) (super_buf n)). is_filled b}"

definition frames :: "mm_channel_t \<Rightarrow> (u32 \<times> u32) set" where
  "frames ch = (\<Union>n \<in> set (que (superbuf_queue ch)). node_frames n)"

definition matches :: "mm_channel_t \<Rightarrow> nat" where
  "matches ch = length (filter matched (que (superbuf_queue ch)))"

definition sound :: "mm_channel_t \<Rightarrow> mm_channel_t \<Rightarrow> bool" where
  "sound ch ch' \<longleftrightarrow> (sb_ok ch \<longrightarrow> sb_ok ch' \<and> accounted ch' = accounted ch \<and> frames ch' \<subseteq> frames ch \<and>
     matches ch' \<le> matches ch \<and> streams ch' = streams ch \<and>
     bundled_streams (superbuf_queue ch') = bundled_streams (superbuf_queue ch))"

named_theorems sound_rules "steps of the command thread that are sound"

lemma sound_refl [sound_rules]: "sound ch ch"
  by (simp add: sound_def)

lemma sound_trans: "sound a b \<Longrightarrow> sound b c \<Longrightarrow> sound a c"
  by (auto simp: sound_def)

text \<open>A change of the flags, of the frame indices expected or of the calls to the server.\<close>

definition same_bufs :: "mm_channel_t \<Rightarrow> mm_channel_t \<Rightarrow> bool" where
  "same_bufs ch ch' \<longleftrightarrow> streams ch' = streams ch \<and> qbufs ch' = qbufs ch \<and> superbufs ch' = superbufs ch \<and>
     que (superbuf_queue ch') = que (superbuf_queue ch) \<and> que_size (superbuf_queue ch') = que_size (superbuf_queue ch) \<and>
     bundled_streams (superbuf_queue ch') = bundled_streams (superbuf_queue ch) \<and>
     match_cnt (superbuf_queue ch') = match_cnt (superbuf_queue ch) \<and>
     max_unmatched_frames (attr (superbuf_queue ch')) = max_unmatched_frames (attr (superbuf_queue ch))"

lemma same_bufs_sound: "same_bufs ch ch' \<Longrightarrow> sound ch ch'"
  by (simp add: same_bufs_def sound_def sb_ok_def sb_inv_def sb_rep_def few_unmatched_def streams_known_def
      get_stream_by_handler_def accounted_def frames_def matches_def)

lemma same_bufs_steps [simp]:
  "same_bufs ch (set_expected e ch)" "same_bufs ch (wait_future_frame ch)" "same_bufs ch (expect_next f ch)"
  "same_bufs ch (zsl_call b ch)" "same_bufs ch (count_down ch)" "same_bufs ch (set_notify_mode m ch)"
  "same_bufs ch (metadata_bracketing md ch)"
  by (simp_all add: same_bufs_def set_expected_def wait_future_frame_def expect_next_def zsl_call_def count_down_def
      set_notify_mode_def metadata_bracketing_def set_queue_def Let_def)

lemma same_bufs_flags [simp]:
  "same_bufs ch (ch\<lparr>pending_cnt := n\<rparr>)" "same_bufs ch (ch\<lparr>manualZSLSnapshot := b\<rparr>)"
  "same_bufs ch (ch\<lparr>startZSlSnapshotCalled := b\<rparr>)" "same_bufs ch (ch\<lparr>needLEDFlash := b\<rparr>)"
  "same_bufs ch (ch\<lparr>previewSkipCnt := k\<rparr>)" "same_bufs ch (ch\<lparr>bracketingState := st\<rparr>)"
  "same_bufs ch (ch\<lparr>isFlashBracketingEnabled := b\<rparr>)" "same_bufs ch (ch\<lparr>isZoom1xFrameRequested := b\<rparr>)"
  by (simp_all add: same_bufs_def)

lemma sound_flags:
  "sound a ch \<Longrightarrow> sound a (ch\<lparr>needLEDFlash := b\<rparr>)" "sound a ch \<Longrightarrow> sound a (ch\<lparr>bracketingState := st\<rparr>)"
  "sound a ch \<Longrightarrow> sound a (set_expected e ch)" "sound a ch \<Longrightarrow> sound a (wait_future_frame ch)"
  "sound a ch \<Longrightarrow> sound a (zsl_call b ch)" "sound a ch \<Longrightarrow> sound a (metadata_bracketing md ch)"
  "sound a ch \<Longrightarrow> sound a (ch\<lparr>startZSlSnapshotCalled := b\<rparr>)" "sound a ch \<Longrightarrow> sound a (ch\<lparr>previewSkipCnt := k\<rparr>)"
  by (erule sound_trans, rule same_bufs_sound, simp)+

section \<open>Dequeue\<close>

lemma dequeue_attr:
  "mm_channel_superbuf_dequeue_internal b q = (x, q') \<Longrightarrow> attr q' = attr q"
  by (auto simp: mm_channel_superbuf_dequeue_internal_def split: list.splits if_splits)

lemma sb_rep_dequeue:
  assumes "sb_rep q ms us" and "mm_channel_superbuf_dequeue_internal b q = (Some n, q')"
  shows "node_ok (bundled_streams q) n \<and> que q = n # que q' \<and> bundled_streams q' = bundled_streams q \<and>
    attr q' = attr q \<and> (b \<longrightarrow> matched n) \<and>
    (\<exists>ms' us'. sb_rep q' ms' us' \<and> length us' \<le> length us)"
proof -
  obtain ns where q: "que q = n # ns" "q' = q\<lparr>que := ns, que_size := que_size q - 1,
      match_cnt := (if matched n then match_cnt q - 1 else match_cnt q)\<rparr>" "b \<longrightarrow> matched n"
    using assms(2) by (auto simp: mm_channel_superbuf_dequeue_internal_def split: list.splits if_splits)
  have "n \<in> set ms \<union> set us" using assms(1) q(1) unfolding sb_rep_def by (metis set_append list.set_intros(1))
  then have n: "node_ok (bundled_streams q) n" using assms(1) by (simp add: sb_rep_def)
  have "\<exists>ms' us'. sb_rep q' ms' us' \<and> length us' \<le> length us"
  proof (cases ms)
    case Nil
    with assms(1) q have us: "us = n # ns" by (simp add: sb_rep_def)
    have rep: "sb_rep q [] (n # ns)" using assms(1) Nil us by simp
    then have "\<not> matched n" by (simp add: sb_rep_def)
    with rep q(2) have "sb_rep q' [] ns" by (simp add: sb_rep_def)
    with us show ?thesis by fastforce
  next
    case (Cons m ms')
    with assms(1) q have "m = n" "ns = ms' @ us" "matched n" by (auto simp: sb_rep_def)
    with Cons assms(1) q have "sb_rep q' ms' us" by (simp add: sb_rep_def)
    then show ?thesis by blast
  qed
  with q n show ?thesis by simp
qed

lemma dequeue_none:
  assumes "sb_rep q ms us" and "mm_channel_superbuf_dequeue_internal b q = (None, q')"
  shows "q' = q" and "ms = []"
  using assms by (cases ms; auto simp: mm_channel_superbuf_dequeue_internal_def sb_rep_def split: list.splits if_splits)+

lemma sb_ok_fields:
  assumes "streams ch' = streams ch" and "superbufs ch' = superbufs ch" and "superbuf_queue ch' = superbuf_queue ch"
  shows "sb_ok ch' = sb_ok ch"
  using assms by (simp add: sb_ok_def streams_known_def get_stream_by_handler_def)

text \<open>Taking the first super buffer off the queue.\<close>

lemma dequeue_ok:
  assumes ok: "sb_ok ch" and deq: "mm_channel_superbuf_dequeue_internal b (superbuf_queue ch) = (Some n, q)"
  shows "sb_ok (set_queue q ch)" and "node_ok (bundled_streams (superbuf_queue ch)) n"
    and "accounted ch = mset (node_bufs n) + accounted (set_queue q ch)"
    and "bundled_streams q = bundled_streams (superbuf_queue ch)" and "b \<longrightarrow> matched n"
    and "attr q = attr (superbuf_queue ch)" and "que (superbuf_queue ch) = n # que q"
proof -
  obtain ms us where "sb_rep (superbuf_queue ch) ms us" "few_unmatched (superbuf_queue ch) us"
    using ok by (auto simp: sb_ok_def sb_inv_def)
  note deq = sb_rep_dequeue [OF this(1) deq] this
  then show "node_ok (bundled_streams (superbuf_queue ch)) n" "bundled_streams q = bundled_streams (superbuf_queue ch)"
    "b \<longrightarrow> matched n" "attr q = attr (superbuf_queue ch)" "que (superbuf_queue ch) = n # que q" by auto
  have "sb_inv q" using deq by (fastforce simp: sb_inv_def few_unmatched_def)
  then show "sb_ok (set_queue q ch)" using ok deq by (simp add: sb_ok_def streams_known_def)
  show "accounted ch = mset (node_bufs n) + accounted (set_queue q ch)"
    using deq by (simp add: accounted_def)
qed

lemma give_back:
  assumes "sb_ok ch" and "node_ok (bundled_streams (superbuf_queue ch)) n" and "picks_filled P"
  shows "sb_ok (qbuf_slots P n ch)" and "accounted (qbuf_slots P n ch) = mset (node_bufs n) + accounted ch"
proof -
  show "sb_ok (qbuf_slots P n ch)" using assms(1) sb_ok_fields [of "qbuf_slots P n ch" ch] by simp
  have "\<forall>h \<in> set (bundled_streams (superbuf_queue ch)). get_stream_by_handler ch h \<noteq> None"
    using assms(1) by (simp add: sb_ok_def streams_known_def)
  then show "accounted (qbuf_slots P n ch) = mset (node_bufs n) + accounted ch"
    using qbuf_slots_log [OF assms(2,3)] by (simp add: accounted_def)
qed

lemma drop_first_sound:
  assumes "picks_filled P" and "mm_channel_superbuf_dequeue_internal b (superbuf_queue ch) = (Some n, q)"
  shows "sound ch (qbuf_slots P n (set_queue q ch))"
  unfolding sound_def
proof
  assume ok: "sb_ok ch"
  note d = dequeue_ok [OF ok assms(2)]
  show "sb_ok (qbuf_slots P n (set_queue q ch)) \<and> accounted (qbuf_slots P n (set_queue q ch)) = accounted ch \<and>
      frames (qbuf_slots P n (set_queue q ch)) \<subseteq> frames ch \<and> matches (qbuf_slots P n (set_queue q ch)) \<le> matches ch \<and>
      streams (qbuf_slots P n (set_queue q ch)) = streams ch \<and>
      bundled_streams (superbuf_queue (qbuf_slots P n (set_queue q ch))) = bundled_streams (superbuf_queue ch)"
    using d give_back [OF d(1) _ assms(1), of n] by (simp add: frames_def matches_def)
qed

lemma flush_nodes_sound [sound_rules]:
  assumes "picks_filled P"
  shows "sound ch (flush_nodes b P ch)"
  using assms
proof (induction b P ch rule: flush_nodes.induct)
  case (1 b P ch)
  show ?case
  proof (cases "mm_channel_superbuf_dequeue_internal b (superbuf_queue ch)")
    case (Pair x q)
    show ?thesis
    proof (cases x)
      case None
      then show ?thesis using Pair by (simp add: flush_nodes.simps [of b P ch] sound_refl)
    next
      case (Some n)
      have "sound (qbuf_slots P n (set_queue q ch)) (flush_nodes b P (qbuf_slots P n (set_queue q ch)))"
        using 1 Pair Some by metis
      then show ?thesis
        using sound_trans [OF drop_first_sound [OF 1(2)]] Pair Some by (simp add: flush_nodes.simps [of b P ch])
    qed
  qed
qed

lemma flush_sound:
  "sound a ch \<Longrightarrow> sound a (mm_channel_superbuf_flush CAM_STREAM_TYPE_DEFAULT ch)"
  "sound a ch \<Longrightarrow> sound a (mm_channel_superbuf_flush_matched ch)"
  unfolding mm_channel_superbuf_flush_def mm_channel_superbuf_flush_matched_def
  by (erule sound_trans, rule flush_nodes_sound, simp)+

section \<open>The loops of the command thread\<close>

text \<open>The loop over the limit ends: while the counter is positive the first super buffer is matched.\<close>

lemma drop_over_ok:
  assumes "sb_ok ch"
  shows "\<exists>ch'. drop_over lim ch = Some ch' \<and> sound ch ch' \<and> match_cnt (superbuf_queue ch') \<le> lim \<and>
    attr (superbuf_queue ch') = attr (superbuf_queue ch)"
  using assms
proof (induction "length (que (superbuf_queue ch))" arbitrary: ch rule: less_induct)
  case less
  show ?case
  proof (cases "match_cnt (superbuf_queue ch) \<le> lim")
    case True
    then show ?thesis by (simp add: drop_over.simps [of lim ch] sound_refl)
  next
    case False
    obtain ms us where rep: "sb_rep (superbuf_queue ch) ms us"
      using less(2) by (auto simp: sb_ok_def sb_inv_def)
    obtain x q where deq: "mm_channel_superbuf_dequeue_internal True (superbuf_queue ch) = (x, q)" by fastforce
    obtain n where n: "x = Some n"
    proof (cases x)
      case None
      then show ?thesis using dequeue_none [OF rep] deq rep False by (simp add: sb_rep_def)
    qed
    let ?c = "qbuf_slots has_buf n (set_queue q ch)"
    have sound: "sound ch ?c" using drop_first_sound deq n by simp
    have "length (que (superbuf_queue ?c)) < length (que (superbuf_queue ch))" using dequeue_shorter deq n by simp
    moreover have "sb_ok ?c" using sound less(2) by (simp add: sound_def)
    ultimately obtain ch' where "drop_over lim ?c = Some ch'" "sound ?c ch'" "match_cnt (superbuf_queue ch') \<le> lim"
      "attr (superbuf_queue ch') = attr (superbuf_queue ?c)" using less(1) by blast
    then show ?thesis using sound sound_trans dequeue_attr [OF deq] deq n False by (auto simp: drop_over.simps [of lim ch])
  qed
qed

lemma matched_complete:
  assumes "node_ok hs n" and "matched n"
  shows "complete hs (take (num_of_bufs n) (super_buf n))"
proof -
  have "slot_ok (hs ! i) (node_frame_idx n) (super_buf n ! i)" if "i < length hs" for i
  proof -
    have "super_buf n ! i \<in> set (take (num_of_bufs n) (super_buf n))"
      using assms(1) that by (auto simp: node_ok_def in_set_conv_nth intro!: exI [of _ i])
    then have "is_filled (super_buf n ! i)" using assms by (simp add: node_ok_def all_filled_def)
    then show ?thesis using assms(1) that by (auto simp: node_ok_def is_filled_def no_buf_info_def)
  qed
  then show ?thesis using assms(1) by (auto simp: complete_def node_ok_def)
qed

lemma hand_over_sound:
  assumes "mm_channel_superbuf_dequeue_internal True (superbuf_queue ch) = (Some n, q)"
  shows "sound ch (hand_over cbmem n (count_down (set_queue q ch)))"
  unfolding sound_def
proof
  assume ok: "sb_ok ch"
  note d = dequeue_ok [OF ok assms]
  have "sound (set_queue q ch) (count_down (set_queue q ch))" by (intro same_bufs_sound) simp
  then have c: "sb_ok (count_down (set_queue q ch))" "accounted (count_down (set_queue q ch)) = accounted (set_queue q ch)"
    "streams (count_down (set_queue q ch)) = streams ch"
    using d(1) by (simp_all add: sound_def)
  have n: "node_ok (bundled_streams (superbuf_queue (count_down (set_queue q ch)))) n" using d(2,4) by simp
  let ?c = "hand_over cbmem n (count_down (set_queue q ch))"
  have "frames ?c \<subseteq> frames ch" "matches ?c \<le> matches ch" "streams ?c = streams ch"
    "bundled_streams (superbuf_queue ?c) = bundled_streams (superbuf_queue ch)"
    using d(4,7) c(3) by (auto simp: frames_def matches_def hand_over_def)
  moreover have "sb_ok ?c \<and> accounted ?c = accounted ch"
  proof (cases "super_buf_notify_cb (count_down (set_queue q ch)) \<and> cbmem n")
    case True
    then show ?thesis using c d matched_complete [OF n] n
      by (auto simp: hand_over_def sb_ok_def streams_known_def get_stream_by_handler_def accounted_def node_bufs_def)
  next
    case False
    then have "hand_over cbmem n (count_down (set_queue q ch)) = qbuf_slots (\<lambda>b. True) n (count_down (set_queue q ch))"
      by (auto simp: hand_over_def)
    then show ?thesis using give_back [OF c(1) n, of "\<lambda>b. True"] c d by simp
  qed
  ultimately show "sb_ok ?c \<and> accounted ?c = accounted ch \<and> frames ?c \<subseteq> frames ch \<and> matches ?c \<le> matches ch \<and>
      streams ?c = streams ch \<and> bundled_streams (superbuf_queue ?c) = bundled_streams (superbuf_queue ch)"
    by blast
qed

lemma dispatch_loop_sound: "sound ch (dispatch_loop cbmem ch)"
proof (induction cbmem ch rule: dispatch_loop.induct)
  case (1 cbmem ch)
  show ?case
  proof (cases "0 < pending_cnt ch \<or> \<not> is_burst ch")
    case True
    obtain x q where deq: "mm_channel_superbuf_dequeue_internal True (superbuf_queue ch) = (x, q)" by fastforce
    show ?thesis
    proof (cases x)
      case None
      then show ?thesis using deq by (simp add: dispatch_loop.simps [of cbmem ch] sound_refl)
    next
      case (Some n)
      have "sound ch (dispatch_loop cbmem (hand_over cbmem n (count_down (set_queue q ch))))"
        using sound_trans [OF hand_over_sound] 1 [OF True] deq Some by metis
      then show ?thesis using deq Some True by (simp add: dispatch_loop.simps [of cbmem ch])
    qed
  qed (simp add: dispatch_loop.simps [of cbmem ch] sound_refl)
qed

lemma dispatch_loop_attr: "attr (superbuf_queue (dispatch_loop cbmem ch)) = attr (superbuf_queue ch)"
proof (induction cbmem ch rule: dispatch_loop.induct)
  case (1 cbmem ch)
  then show ?case using dequeue_attr
    by (fastforce simp: dispatch_loop.simps [of cbmem ch] split: prod.split option.split)
qed

lemma metadata_sound:
  assumes "mm_channel_handle_metadata info ch = Some (ok, ch')"
  shows "sound ch ch'"
proof -
  have zoom: "sound a (metadata_zoom b f c)" if "sound a c" for a b f c
    unfolding metadata_zoom_def using that sound_trans [OF that same_bufs_sound [OF same_bufs_flags(8)]]
    by (auto intro!: sound_flags flush_sound)
  have good: "sound a (metadata_bracketing m (metadata_good_frame m c))" if "sound a c" for a m c
    unfolding metadata_good_frame_def using that by (auto intro!: sound_flags flush_sound)
  have own: "sound a c'" if "sound a c" and "metadata_own m f c = Some (b, c')" for a m f c b c'
    using that by (auto simp: metadata_own_def intro!: zoom good split: option.splits if_splits)
  show ?thesis
    using assms unfolding mm_channel_handle_metadata_def Let_def
    by (auto intro!: sound_refl sound_flags flush_sound elim!: own [rotated] split: option.splits if_splits)
qed

end
