(* ===== verification/MmMatching.thy ===== *)
theory MmMatching
  imports MmSuperbufInv
begin

text \<open>
  The matching of an incoming frame (\<open>mm_channel_superbuf_comp_and_enqueue\<close>): what the walk over a queue that
  meets the invariant finds, and that each of its outcomes keeps the invariant and accounts for the frame.
\<close>

section \<open>The walk\<close>

lemma scan_matched:
  "\<forall>n \<in> set ms. matched n \<Longrightarrow> sb_scan f (ms @ us) i r = sb_scan f us (i + length ms) r"
  by (induction ms arbitrary: i) auto

lemma scan_older:
  assumes "\<forall>n \<in> set os. \<not> matched n \<and> node_frame_idx n < f"
  shows "sb_scan f (os @ us) i r = sb_scan f us (i + length os)
    (r\<lparr>sc_unmatched := sc_unmatched r + of_nat (length os),
       sc_last := (if sc_last r = None \<and> os \<noteq> [] then Some i else sc_last r)\<rparr>)"
  using assms by (induction os arbitrary: i r) (auto simp: ac_simps)

lemma scan_newer:
  assumes "\<forall>n \<in> set us. \<not> matched n \<and> f < node_frame_idx n"
  shows "sb_scan f us i r = r\<lparr>sc_unmatched := sc_unmatched r + of_nat (length us),
       sc_before := (if sc_before r = None \<and> us \<noteq> [] then Some i else sc_before r)\<rparr>"
  using assms by (induction us arbitrary: i r) (auto simp: ac_simps)

text \<open>The unmatched super buffers, split at a frame index.\<close>

lemma split_at_frame:
  fixes us :: "mm_channel_queue_node_t list"
  assumes "sorted_wrt (\<lambda>a b. node_frame_idx a < node_frame_idx b) us"
  shows "\<exists>os ns. (\<forall>n \<in> set os. node_frame_idx n < f) \<and> (\<forall>n \<in> set ns. f < node_frame_idx n) \<and>
    (us = os @ ns \<or> (\<exists>n. node_frame_idx n = f \<and> us = os @ n # ns))"
  using assms
proof (induction us)
  case (Cons u us)
  show ?case
  proof (cases "node_frame_idx u < f")
    case True
    obtain os ns where "\<forall>n \<in> set os. node_frame_idx n < f" "\<forall>n \<in> set ns. f < node_frame_idx n"
      "us = os @ ns \<or> (\<exists>n. node_frame_idx n = f \<and> us = os @ n # ns)"
      using Cons by auto
    with True show ?thesis by (intro exI [of _ "u # os"] exI [of _ ns]) auto
  next
    case False
    then show ?thesis
    proof (cases "node_frame_idx u = f")
      case True
      then show ?thesis using Cons(2) by (intro exI [of _ "[]"] exI [of _ us]) auto
    next
      case ne: False
      then have "\<forall>n \<in> set (u # us). f < node_frame_idx n" using False Cons(2) by (auto intro: less_trans)
      then show ?thesis by (intro exI [of _ "[]"] exI [of _ "u # us"]) auto
    qed
  qed
qed auto

lemma scan_hit:
  assumes "sb_rep q ms (os @ n # ns)" and "\<forall>n \<in> set os. node_frame_idx n < f" and "node_frame_idx n = f"
  shows "sc_pos (sb_scan f (que q) 0 no_scan) = Some (length ms + length os)"
    and "sc_last (sb_scan f (que q) 0 no_scan) = (if os = [] then None else Some (length ms))"
  using assms scan_matched [of ms f "os @ n # ns" 0 no_scan] scan_older [of os f "n # ns" "length ms" no_scan]
  by (auto simp: sb_rep_def no_scan_def)

lemma scan_miss:
  assumes "sb_rep q ms (os @ ns)" and "\<forall>n \<in> set os. node_frame_idx n < f" and "\<forall>n \<in> set ns. f < node_frame_idx n"
  shows "sb_scan f (que q) 0 no_scan = \<lparr>sc_pos = None, sc_unmatched = of_nat (length os + length ns),
     sc_last = (if os = [] then None else Some (length ms)),
     sc_before = (if ns = [] then None else Some (length ms + length os))\<rparr>"
  using assms scan_matched [of ms f "os @ ns" 0 no_scan] scan_older [of os f ns "length ms" no_scan]
    scan_newer [of ns f] by (auto simp: sb_rep_def no_scan_def)

section \<open>Filling a slot\<close>

lemma bufs_of_update:
  assumes "i < length bs" and "bi_buf (bs ! i) = None" and "bi_buf b = Some d"
  shows "mset (bufs_of (bs[i := b])) = add_mset d (mset (bufs_of bs))"
proof -
  have "bs = take i bs @ bs ! i # drop (Suc i) bs" using assms(1) by (rule id_take_nth_drop)
  then have "bufs_of bs = bufs_of (take i bs) @ bufs_of (drop (Suc i) bs)"
    using assms(2) by (metis bufs_of_simps(2,3) option.simps(4))
  then show ?thesis using assms(1,3) by (simp add: upd_conv_take_nth_drop)
qed

lemma fill_node:
  assumes n: "node_ok hs n" and i: "i < length hs" and b: "slot_ok (hs ! i) (node_frame_idx n) b" and d: "bi_buf b = Some d"
  shows "node_ok hs (fill_slot i b n)" and "node_frame_idx (fill_slot i b n) = node_frame_idx n"
    and "\<not> is_filled (super_buf n ! i) \<Longrightarrow> mset (node_bufs (fill_slot i b n)) = add_mset d (mset (node_bufs n))"
proof -
  show ok: "node_ok hs (fill_slot i b n)"
    using n i b by (auto simp: node_ok_def fill_slot_def Let_def nth_list_update slot_ok_def is_filled_def all_filled_def)
  show "node_frame_idx (fill_slot i b n) = node_frame_idx n" by (simp add: fill_slot_def Let_def)
  assume "\<not> is_filled (super_buf n ! i)"
  then have "super_buf n ! i = no_buf_info" using n i by (auto simp: node_ok_def slot_ok_def is_filled_def)
  then have "bi_buf (take (num_of_bufs n) (super_buf n) ! i) = None" "i < length (take (num_of_bufs n) (super_buf n))"
    using n i by (auto simp: node_ok_def no_buf_info_def)
  then show "mset (node_bufs (fill_slot i b n)) = add_mset d (mset (node_bufs n))"
    using bufs_of_update [OF _ _ d] by (simp add: node_bufs_def fill_slot_def Let_def take_update_swap)
qed

lemma new_node_ok:
  assumes "i < length hs" and "length hs \<le> MAX_STREAM_NUM_IN_BUNDLE" and "slot_ok (hs ! i) (bi_frame_idx b) b"
    and "bi_frame_idx b \<noteq> 0" and "bi_buf b = Some d"
  shows "node_ok hs (new_node (length hs) i b)" and "node_frame_idx (new_node (length hs) i b) = bi_frame_idx b"
    and "node_bufs (new_node (length hs) i b) = [d]"
proof -
  let ?e = "replicate (length hs) no_buf_info"
  have len: "i < MAX_STREAM_NUM_IN_BUNDLE" "min (length hs) MAX_STREAM_NUM_IN_BUNDLE = length hs" using assms(1,2) by simp_all
  have tk: "take (length hs) (super_buf (new_node (length hs) i b)) = ?e[i := b]"
    using len by (simp add: new_node_def take_update_swap min.commute)
  have all: "all_filled (new_node (length hs) i b) \<longleftrightarrow> length hs = 1"
  proof
    assume "all_filled (new_node (length hs) i b)"
    then have "\<forall>x \<in> set (?e[i := b]). is_filled x" using tk by (simp add: all_filled_def new_node_def)
    then have *: "\<forall>j < length hs. is_filled (?e[i := b] ! j)" by simp
    show "length hs = 1"
    proof (rule ccontr)
      assume "length hs \<noteq> 1"
      then obtain j where "j < length hs" "j \<noteq> i" using assms(1) by (metis less_one linorder_neqE_nat not_less0 less_Suc0 zero_less_diff gr0I One_nat_def)
      then show False using * by (auto simp: is_filled_def no_buf_info_def)
    qed
  next
    assume "length hs = 1"
    then show "all_filled (new_node (length hs) i b)" using tk assms(1,4) by (simp add: all_filled_def new_node_def is_filled_def)
  qed
  show "node_frame_idx (new_node (length hs) i b) = bi_frame_idx b" by (simp add: new_node_def)
  show "node_ok hs (new_node (length hs) i b)"
    using assms all len by (auto simp: node_ok_def new_node_def nth_list_update is_filled_def intro!: exI [of _ i])
  have "bufs_of ?e = []" by (simp add: bufs_of_def map_filter_def no_buf_info_def)
  moreover have "mset (bufs_of (?e[i := b])) = add_mset d (mset (bufs_of ?e))"
    using assms(1,5) by (intro bufs_of_update) (simp_all add: no_buf_info_def)
  ultimately have "mset (bufs_of (?e[i := b])) = {#d#}" by simp
  then show "node_bufs (new_node (length hs) i b) = [d]" using tk by (simp add: node_bufs_def new_node_def)
qed

section \<open>Removing a stretch of the queue\<close>

lemma fold_slots:
  assumes "\<forall>n \<in> set ns. node_ok hs n" and "\<forall>h \<in> set hs. get_stream_by_handler ch h \<noteq> None"
  shows "qbufs (fold (qbuf_slots is_filled) ns ch) = qbufs ch @ concat (map node_bufs ns)"
    and "superbuf_queue (fold (qbuf_slots is_filled) ns ch) = superbuf_queue ch"
    and "streams (fold (qbuf_slots is_filled) ns ch) = streams ch"
    and "superbufs (fold (qbuf_slots is_filled) ns ch) = superbufs ch"
  using assms
  by (induction ns arbitrary: ch) (auto simp: qbuf_slots_log get_stream_by_handler_def)

lemma drop_range_effect:
  assumes "que (superbuf_queue ch) = xs @ os @ ys" and "\<forall>n \<in> set os. node_ok hs n"
    and "\<forall>h \<in> set hs. get_stream_by_handler ch h \<noteq> None"
  shows "superbuf_queue (drop_range (length xs) (length xs + length os) ch) =
      (superbuf_queue ch)\<lparr>que := xs @ ys, que_size := que_size (superbuf_queue ch) - of_nat (length os)\<rparr>"
    and "qbufs (drop_range (length xs) (length xs + length os) ch) = qbufs ch @ concat (map node_bufs os)"
    and "streams (drop_range (length xs) (length xs + length os) ch) = streams ch"
    and "superbufs (drop_range (length xs) (length xs + length os) ch) = superbufs ch"
  using assms fold_slots [OF assms(2), of "set_queue _ ch"] by (simp_all add: drop_range_def Let_def)

text \<open>A step that changes the queue to a good one with the same bundle, gives some buffers back, and nothing else.\<close>

lemma queue_step:
  assumes ok: "sb_ok ch" and rep: "sb_rep (superbuf_queue ch') ms us" "few_unmatched (superbuf_queue ch') us"
    and "bundled_streams (superbuf_queue ch') = bundled_streams (superbuf_queue ch)"
    and "streams ch' = streams ch" and "superbufs ch' = superbufs ch" and "qbufs ch' = qbufs ch @ bs"
  shows "sb_ok ch'"
    and "accounted ch' = held_bufs (ms @ us) + mset bs + mset (qbufs ch) + mset (concat (map bufs_of (superbufs ch)))"
proof -
  show "sb_ok ch'"
    using assms by (auto simp: sb_ok_def sb_inv_def streams_known_def get_stream_by_handler_def)
  show "accounted ch' = held_bufs (ms @ us) + mset bs + mset (qbufs ch) + mset (concat (map bufs_of (superbufs ch)))"
    using assms by (simp add: accounted_def sb_rep_def)
qed

lemma sb_ok_rep:
  assumes "sb_ok ch"
  obtains ms us where "sb_rep (superbuf_queue ch) ms us" and "few_unmatched (superbuf_queue ch) us"
    and "accounted ch = held_bufs (ms @ us) + mset (qbufs ch) + mset (concat (map bufs_of (superbufs ch)))"
    and "\<forall>h \<in> set (bundled_streams (superbuf_queue ch)). get_stream_by_handler ch h \<noteq> None"
  using assms by (auto simp: sb_ok_def sb_inv_def accounted_def sb_rep_def streams_known_def)

section \<open>The outcomes\<close>

text \<open>The frame's super buffer is there: the slot is filled, and when it was the last one the older ones go.\<close>

lemma found_queue:
  fixes ch ms os n ns s info
  defines "q \<equiv> superbuf_queue ch" and "n' \<equiv> fill_slot s info n"
    and "ch' \<equiv> sb_found s (length ms + length os) (if os = [] then None else Some (length ms)) info ch"
  assumes "que q = ms @ os @ n # ns" and "\<forall>n \<in> set os. node_ok hs n"
    and "\<forall>h \<in> set hs. get_stream_by_handler ch h \<noteq> None"
  shows "que (superbuf_queue ch') = (if matched n' then ms @ n' # ns else ms @ os @ n' # ns) \<and>
    que_size (superbuf_queue ch') = (if matched n' then que_size q - of_nat (length os) else que_size q) \<and>
    match_cnt (superbuf_queue ch') = (if matched n' then match_cnt q + 1 else match_cnt q) \<and>
    qbufs ch' = qbufs ch @ (if matched n' then concat (map node_bufs os) else []) \<and>
    bundled_streams (superbuf_queue ch') = bundled_streams q \<and>
    max_unmatched_frames (attr (superbuf_queue ch')) = max_unmatched_frames (attr q) \<and>
    streams ch' = streams ch \<and> superbufs ch' = superbufs ch"
proof -
  have nth: "que q ! (length ms + length os) = n" "(que q)[length ms + length os := n'] = ms @ os @ n' # ns"
    using assms(4) by (simp_all add: nth_append list_update_append)
  show ?thesis
  proof (cases "matched n'")
    case False
    then show ?thesis using nth by (simp add: ch'_def sb_found_def Let_def n'_def q_def)
  next
    case True
    define ch1 where "ch1 = set_queue (q\<lparr>que := ms @ os @ n' # ns\<rparr>) ch"
    define ch2 where "ch2 = (if isFlashBracketingEnabled ch1
      then (set_expected (expected_frame_id_without_led q) ch1)\<lparr>isFlashBracketingEnabled := False\<rparr>
      else expect_next (bi_frame_idx info) ch1)"
    have "same_bufs ch1 ch2"
      unfolding ch2_def by (auto simp: same_bufs_def set_expected_def expect_next_def set_queue_def)
    then have c: "que (superbuf_queue (count_match ch2)) = ms @ os @ n' # ns"
      "que_size (superbuf_queue (count_match ch2)) = que_size q" "match_cnt (superbuf_queue (count_match ch2)) = match_cnt q + 1"
      "bundled_streams (superbuf_queue (count_match ch2)) = bundled_streams q" "streams (count_match ch2) = streams ch"
      "max_unmatched_frames (attr (superbuf_queue (count_match ch2))) = max_unmatched_frames (attr q)"
      "superbufs (count_match ch2) = superbufs ch" "qbufs (count_match ch2) = qbufs ch"
      by (simp_all add: same_bufs_def count_match_def ch1_def)
    then have st: "\<forall>h \<in> set hs. get_stream_by_handler (count_match ch2) h \<noteq> None"
      using assms(6) by (simp add: get_stream_by_handler_def)
    have ch': "ch' = (case (if os = [] then None else Some (length ms)) of None \<Rightarrow> count_match ch2
        | Some l \<Rightarrow> drop_range l (length ms + length os) (count_match ch2))"
      unfolding ch'_def sb_found_def Let_def q_def [symmetric] nth(1) n'_def [symmetric] nth(2)
        ch1_def [symmetric] ch2_def [symmetric] using True by (simp only: not_True_eq_False if_False)
    show ?thesis
    proof (cases "os = []")
      case True
      then show ?thesis using ch' c \<open>matched n'\<close> by simp
    next
      case False
      then show ?thesis using ch' c \<open>matched n'\<close> drop_range_effect [OF c(1) assms(5) st] by simp
    qed
  qed
qed

lemma found_ok:
  fixes ch ms os i info
  defines "ch' \<equiv> sb_found i (length ms + length os) (if os = [] then None else Some (length ms)) info ch"
  assumes ok: "sb_ok ch" and rep: "sb_rep (superbuf_queue ch) ms (os @ n # ns)"
    and few: "few_unmatched (superbuf_queue ch) (os @ n # ns)"
    and acc: "accounted ch = held_bufs (ms @ os @ n # ns) + mset (qbufs ch) + mset (concat (map bufs_of (superbufs ch)))"
    and known: "\<forall>h \<in> set (bundled_streams (superbuf_queue ch)). get_stream_by_handler ch h \<noteq> None"
    and i: "i < num_streams (superbuf_queue ch)"
    and b: "slot_ok (bundled_streams (superbuf_queue ch) ! i) (node_frame_idx n) info" "bi_buf info = Some d"
  shows "sb_ok ch'" and "\<not> is_filled (super_buf n ! i) \<Longrightarrow> accounted ch' = add_mset d (accounted ch)"
proof -
  let ?hs = "bundled_streams (superbuf_queue ch)" and ?n = "fill_slot i info n"
  have n: "node_ok ?hs n" "\<forall>n \<in> set os. node_ok ?hs n" "que (superbuf_queue ch) = ms @ os @ n # ns"
    using rep by (auto simp: sb_rep_def)
  note f = fill_node [OF n(1) i [unfolded num_streams_def] b] and q = found_queue [OF n(3,2) known, of i info, folded ch'_def]
  let ?us = "if matched ?n then ns else os @ ?n # ns" and ?ms = "if matched ?n then ms @ [?n] else ms"
  have "sb_rep (superbuf_queue ch') ?ms ?us"
    using rep q f(1,2) by (auto simp: sb_rep_def sorted_wrt_append)
  moreover have "few_unmatched (superbuf_queue ch') ?us" using few q by (auto simp: few_unmatched_def)
  ultimately have s: "sb_ok ch'" "accounted ch' = held_bufs (?ms @ ?us) +
      mset (if matched ?n then concat (map node_bufs os) else []) + mset (qbufs ch) + mset (concat (map bufs_of (superbufs ch)))"
    using queue_step [OF ok, of ch' ?ms ?us] q by auto
  then show "sb_ok ch'" by simp
  assume "\<not> is_filled (super_buf n ! i)"
  then show "accounted ch' = add_mset d (accounted ch)"
    using s(2) acc f(3) by (auto simp: held_bufs_def)
qed

text \<open>A new super buffer is inserted at its place in the order.\<close>

lemma single_stream_matched: "node_ok hs n \<Longrightarrow> length hs = 1 \<Longrightarrow> matched n"
  by (auto simp: node_ok_def all_filled_def take_Suc in_set_conv_nth)

lemma insert_ok:
  fixes ch ms os ns i info
  defines "ch' \<equiv> sb_insert i (if ns = [] then None else Some (length ms + length os)) info ch"
  assumes ok: "sb_ok ch" and rep: "sb_rep (superbuf_queue ch) ms (os @ ns)"
    and few: "few_unmatched (superbuf_queue ch) (new_node 0 0 info # os @ ns)"
    and order: "\<forall>n \<in> set os. node_frame_idx n < bi_frame_idx info" "\<forall>n \<in> set ns. bi_frame_idx info < node_frame_idx n"
    and i: "i < num_streams (superbuf_queue ch)" "num_streams (superbuf_queue ch) \<le> MAX_STREAM_NUM_IN_BUNDLE"
    and b: "slot_ok (bundled_streams (superbuf_queue ch) ! i) (bi_frame_idx info) info" "bi_frame_idx info \<noteq> 0"
      "bi_buf info = Some d"
  shows "sb_ok ch'" and "accounted ch' = add_mset d (accounted ch)"
proof -
  let ?q = "superbuf_queue ch" and ?n = "new_node (num_streams (superbuf_queue ch)) i info"
  note n = new_node_ok [OF i [unfolded num_streams_def] b, folded num_streams_def]
  have que: "que ?q = ms @ os @ ns" using rep by (simp add: sb_rep_def)
  define one where "one \<longleftrightarrow> num_streams ?q = 1"
  have at: "(case (if ns = [] then None else Some (length ms + length os)) of None \<Rightarrow> length (que ?q) | Some j \<Rightarrow> j)
      = length ms + length os" using que by simp
  have new: "take (length ms + length os) (que ?q) @ ?n # drop (length ms + length os) (que ?q) = ms @ os @ ?n # ns"
    using que by simp
  have ch': "same_bufs (set_queue (?q\<lparr>que := ms @ os @ ?n # ns, que_size := que_size ?q + 1,
      match_cnt := match_cnt ?q + (if one then 1 else 0)\<rparr>) ch) ch'"
    unfolding ch'_def sb_insert_def Let_def at new one_def
    by (simp add: same_bufs_def count_match_def expect_next_def set_expected_def set_queue_def)
  have "\<forall>n \<in> set (os @ ns). node_ok (bundled_streams ?q) n \<and> \<not> matched n" using rep by (auto simp: sb_rep_def)
  then have single: "one \<longrightarrow> os = [] \<and> ns = []"
    using single_stream_matched by (metis list.set_intros(1) neq_Nil_conv num_streams_def one_def set_append Un_iff)
  have m: "matched ?n = one" by (simp add: new_node_def one_def)
  have rep': "sb_rep (superbuf_queue ch') (if one then ms @ [?n] else ms) (if one then [] else os @ ?n # ns)"
    using rep ch' n(1,2) order m single by (auto simp: sb_rep_def same_bufs_def sorted_wrt_append num_streams_def)
  have few': "few_unmatched (superbuf_queue ch') (if one then [] else os @ ?n # ns)"
    using few ch' by (auto simp: few_unmatched_def same_bufs_def)
  have "bundled_streams (superbuf_queue ch') = bundled_streams ?q" "streams ch' = streams ch"
    "superbufs ch' = superbufs ch" "qbufs ch' = qbufs ch @ []" using ch' by (simp_all add: same_bufs_def)
  note s = queue_step [OF ok rep' few' this]
  show "sb_ok ch'" by (rule s(1))
  have "accounted ch = held_bufs (ms @ os @ ns) + mset (qbufs ch) + mset (concat (map bufs_of (superbufs ch)))"
    using que by (simp add: accounted_def)
  then show "accounted ch' = add_mset d (accounted ch)" using s(2) n(3) single by auto
qed

lemma qbuf_ok:
  assumes "sb_ok ch" and "get_stream_by_handler ch (b_stream_id d) \<noteq> None"
  shows "sb_ok (mm_channel_qbuf (Some d) ch)" and "accounted (mm_channel_qbuf (Some d) ch) = add_mset d (accounted ch)"
  using assms qbuf_log [of ch d] sb_ok_fields [of "mm_channel_qbuf (Some d) ch" ch] by (simp_all add: accounted_def)

text \<open>The oldest unmatched super buffer is released.\<close>

lemma drop_oldest:
  fixes ch ms o1 us
  defines "ch' \<equiv> drop_range (length ms) (Suc (length ms)) ch"
  assumes ok: "sb_ok ch" and rep: "sb_rep (superbuf_queue ch) ms (o1 # us)"
    and few: "few_unmatched (superbuf_queue ch) (o1 # us)"
  shows "sb_ok ch'" and "accounted ch' = accounted ch" and "sb_rep (superbuf_queue ch') ms us"
    and "attr (superbuf_queue ch') = attr (superbuf_queue ch)"
    and "bundled_streams (superbuf_queue ch') = bundled_streams (superbuf_queue ch)"
    and "get_stream_by_handler ch' h = get_stream_by_handler ch h"
proof -
  have known: "\<forall>h \<in> set (bundled_streams (superbuf_queue ch)). get_stream_by_handler ch h \<noteq> None"
    using ok by (simp add: sb_ok_def streams_known_def)
  have "que (superbuf_queue ch) = ms @ [o1] @ us" "\<forall>n \<in> set [o1]. node_ok (bundled_streams (superbuf_queue ch)) n"
    using rep by (simp_all add: sb_rep_def)
  note d = drop_range_effect [OF this known]
  have d: "superbuf_queue ch' = (superbuf_queue ch)\<lparr>que := ms @ us, que_size := que_size (superbuf_queue ch) - 1\<rparr>"
    "qbufs ch' = qbufs ch @ node_bufs o1" "streams ch' = streams ch" "superbufs ch' = superbufs ch"
    using d by (simp_all add: ch'_def)
  show rep': "sb_rep (superbuf_queue ch') ms us" using rep d(1) by (simp add: sb_rep_def)
  show at: "attr (superbuf_queue ch') = attr (superbuf_queue ch)"
    and bs: "bundled_streams (superbuf_queue ch') = bundled_streams (superbuf_queue ch)"
    and "get_stream_by_handler ch' h = get_stream_by_handler ch h"
    using d by (simp_all add: get_stream_by_handler_def)
  have "few_unmatched (superbuf_queue ch') us" using few at by (simp add: few_unmatched_def)
  note s = queue_step [OF ok rep' this bs d(3,4,2)]
  show "sb_ok ch'" by (rule s(1))
  show "accounted ch' = accounted ch" using s(2) rep by (simp add: accounted_def sb_rep_def)
qed

lemma not_found_ok:
  fixes ch ms os ns i info mem
  defines "ch' \<equiv> sb_not_found mem i (sb_scan (bi_frame_idx info) (que (superbuf_queue ch)) 0 no_scan) info ch"
  assumes ok: "sb_ok ch" and rep: "sb_rep (superbuf_queue ch) ms (os @ ns)"
    and few: "few_unmatched (superbuf_queue ch) (os @ ns)"
    and order: "\<forall>n \<in> set os. node_frame_idx n < bi_frame_idx info" "\<forall>n \<in> set ns. bi_frame_idx info < node_frame_idx n"
    and i: "i < num_streams (superbuf_queue ch)" "num_streams (superbuf_queue ch) \<le> MAX_STREAM_NUM_IN_BUNDLE"
    and b: "slot_ok (bundled_streams (superbuf_queue ch) ! i) (bi_frame_idx info) info" "bi_frame_idx info \<noteq> 0"
      "bi_buf info = Some d"
  shows "sb_ok ch' \<and> accounted ch' = add_mset d (accounted ch)"
proof -
  let ?mx = "max_unmatched_frames (attr (superbuf_queue ch))"
  let ?b = "if ns = [] then None else Some (length ms + length os)"
  note sc = scan_miss [OF rep order]
  have len: "length os + length ns \<le> Suc (unat ?mx)" "unat ?mx < 255" using few by (simp_all add: few_unmatched_def)
  then have u: "unat (of_nat (length os + length ns) :: u8) = length os + length ns"
    by (subst unat_of_nat) simp
  define full where "full \<longleftrightarrow> ?mx < (of_nat (length os + length ns) :: u8)"
  have full: "full \<longleftrightarrow> length os + length ns = Suc (unat ?mx)" using len u by (auto simp: full_def word_less_nat_alt)
  have "\<forall>h \<in> set (bundled_streams (superbuf_queue ch)). get_stream_by_handler ch h \<noteq> None"
    using ok by (simp add: sb_ok_def streams_known_def)
  then have known: "get_stream_by_handler ch (b_stream_id d) \<noteq> None"
    using b(1,3) i(1) by (auto simp: slot_ok_def num_streams_def)
  have new: "few_unmatched (superbuf_queue c) (new_node 0 0 info # os' @ ns)"
    if "attr (superbuf_queue c) = attr (superbuf_queue ch)" "length os' + length ns \<le> unat ?mx" for c os'
    using that len by (simp add: few_unmatched_def)
  consider (older) "full" "os = []" | (room) "\<not> full" | (oldest) o1 os' where "full" "os = o1 # os'"
    by (cases os) auto
  then show ?thesis
  proof cases
    case older
    then have "ch' = mm_channel_qbuf (Some d) ch" using b(3) by (simp add: ch'_def sb_not_found_def Let_def sc full_def)
    then show ?thesis using qbuf_ok [OF ok known] by simp
  next
    case room
    then have "ch' = (if mem then sb_insert i ?b info ch else mm_channel_qbuf (Some d) ch)"
      using b(3) unfolding ch'_def sb_not_found_def Let_def sc
      by (auto simp: full_def split: option.split)
    moreover have "few_unmatched (superbuf_queue ch) (new_node 0 0 info # os @ ns)"
      using new [of ch os] room full len by simp
    ultimately show ?thesis using insert_ok [OF ok rep _ order i b] qbuf_ok [OF ok known] by simp
  next
    case oldest
    let ?c = "drop_range (length ms) (Suc (length ms)) ch"
    note dr = drop_oldest [OF ok rep [unfolded oldest(2) append_Cons] few [unfolded oldest(2) append_Cons]]
    have "ch' = (if mem then sb_insert i (if ns = [] then None else Some (length ms + length os')) info ?c
        else mm_channel_qbuf (Some d) ?c)"
      using b(3) oldest unfolding ch'_def sb_not_found_def Let_def sc
      by (auto simp: full_def split: option.split)
    moreover have "few_unmatched (superbuf_queue ?c) (new_node 0 0 info # os' @ ns)"
      using new [of ?c os'] oldest full len dr(4) by simp
    ultimately show ?thesis
      using insert_ok [OF dr(1,3), of info i d] qbuf_ok [OF dr(1), of d] known dr order oldest(2) i b
      by (simp add: num_streams_def)
  qed
qed

section \<open>The frame and nothing else\<close>

text \<open>What a delivered frame may add: its own index to the frames queued, and one complete super buffer.\<close>

definition adds_frame :: "mm_camera_buf_info_t \<Rightarrow> mm_channel_t \<Rightarrow> mm_channel_t \<Rightarrow> bool" where
  "adds_frame info ch ch' \<longleftrightarrow> frames ch' \<subseteq> insert (bi_stream_id info, bi_frame_idx info) (frames ch) \<and>
     matches ch' \<le> Suc (matches ch) \<and> streams ch' = streams ch \<and>
     bundled_streams (superbuf_queue ch') = bundled_streams (superbuf_queue ch)"

lemma adds_frameI:
  assumes "mset (que (superbuf_queue ch')) \<subseteq># add_mset n (mset (que (superbuf_queue ch)))"
    and "node_frames n \<subseteq> insert (bi_stream_id info, bi_frame_idx info) (frames ch)"
    and "streams ch' = streams ch" and "bundled_streams (superbuf_queue ch') = bundled_streams (superbuf_queue ch)"
  shows "adds_frame info ch ch'"
proof -
  have "set (que (superbuf_queue ch')) \<subseteq> insert n (set (que (superbuf_queue ch)))"
    using set_mset_mono [OF assms(1)] by simp
  then have "frames ch' \<subseteq> insert (bi_stream_id info, bi_frame_idx info) (frames ch)"
    using assms(2) by (auto simp: frames_def)
  moreover have "matches ch' \<le> Suc (matches ch)"
  proof -
    have "size (filter_mset matched (mset (que (superbuf_queue ch'))))
        \<le> size (filter_mset matched (add_mset n (mset (que (superbuf_queue ch)))))"
      by (intro size_mset_mono multiset_filter_mono assms(1))
    also have "\<dots> \<le> Suc (size (filter_mset matched (mset (que (superbuf_queue ch)))))" by simp
    finally show ?thesis by (simp add: matches_def flip: size_mset mset_filter)
  qed
  ultimately show ?thesis using assms(3,4) by (simp add: adds_frame_def)
qed

lemma fill_frames:
  "node_frames (fill_slot i info n) \<subseteq> insert (bi_stream_id info, bi_frame_idx info) (node_frames n)"
proof -
  have "set (take k (xs[i := info])) \<subseteq> insert info (set (take k xs))" for k and xs :: "mm_camera_buf_info_t list"
    by (simp add: take_update_swap set_update_subset_insert)
  then show ?thesis by (force simp: node_frames_def fill_slot_def Let_def)
qed

lemma new_frames: "node_frames (new_node k i info) \<subseteq> {(bi_stream_id info, bi_frame_idx info)}"
proof -
  have "set (take k ((replicate MAX_STREAM_NUM_IN_BUNDLE no_buf_info)[i := info])) \<subseteq> insert info {no_buf_info}"
    by (simp add: take_update_swap) (rule order_trans [OF set_update_subset_insert], auto)
  then show ?thesis by (force simp: node_frames_def new_node_def no_buf_info_def is_filled_def)
qed

lemma found_adds:
  assumes "sb_ok ch" and "sb_rep (superbuf_queue ch) ms (os @ n # ns)"
  shows "adds_frame info ch (sb_found i (length ms + length os) (if os = [] then None else Some (length ms)) info ch)"
proof -
  have n: "\<forall>n \<in> set os. node_ok (bundled_streams (superbuf_queue ch)) n" "que (superbuf_queue ch) = ms @ os @ n # ns"
    using assms(2) by (auto simp: sb_rep_def)
  have known: "\<forall>h \<in> set (bundled_streams (superbuf_queue ch)). get_stream_by_handler ch h \<noteq> None"
    using assms(1) by (simp add: sb_ok_def streams_known_def)
  note q = found_queue [OF n(2,1) known, of i info]
  show ?thesis
  proof (rule adds_frameI)
    show "node_frames (fill_slot i info n) \<subseteq> insert (bi_stream_id info, bi_frame_idx info) (frames ch)"
      using fill_frames n(2) by (fastforce simp: frames_def)
  qed (use q n in \<open>auto simp: subset_mset.add_increasing2 intro: mset_subset_eq_add_left\<close>)
qed

lemma insert_adds:
  assumes "frames c \<subseteq> frames ch" and "mset (que (superbuf_queue c)) \<subseteq># mset (que (superbuf_queue ch))" and "streams c = streams ch"
    and "bundled_streams (superbuf_queue c) = bundled_streams (superbuf_queue ch)"
  shows "adds_frame info ch (sb_insert i b info c)"
proof -
  let ?n = "new_node (num_streams (superbuf_queue c)) i info" and ?q = "superbuf_queue c"
  define at where "at = (case b of None \<Rightarrow> length (que ?q) | Some j \<Rightarrow> j)"
  have "same_bufs (set_queue (?q\<lparr>que := take at (que ?q) @ ?n # drop at (que ?q), que_size := que_size ?q + 1,
      match_cnt := match_cnt ?q + (if num_streams ?q = 1 then 1 else 0)\<rparr>) c) (sb_insert i b info c)"
    unfolding sb_insert_def Let_def at_def
    by (simp add: same_bufs_def count_match_def expect_next_def set_expected_def set_queue_def)
  moreover have "mset (take at (que ?q) @ ?n # drop at (que ?q)) = add_mset ?n (mset (que ?q))"
    by (metis append_take_drop_id mset.simps(2) mset_append union_mset_add_mset_right)
  ultimately show ?thesis using assms new_frames [of "num_streams ?q" i info]
    by (intro adds_frameI [where n = ?n]) (auto simp: same_bufs_def)
qed

lemma same_que_adds:
  assumes "mset (que (superbuf_queue c)) \<subseteq># mset (que (superbuf_queue ch))" and "streams c = streams ch"
    and "bundled_streams (superbuf_queue c) = bundled_streams (superbuf_queue ch)"
  shows "adds_frame info ch c"
  using assms new_frames [of 0 0 info]
  by (intro adds_frameI [where n = "new_node 0 0 info"]) (auto intro: subset_mset.order_trans)

lemma not_found_adds:
  assumes ok: "sb_ok ch" and rep: "sb_rep (superbuf_queue ch) ms (os @ ns)"
    and few: "few_unmatched (superbuf_queue ch) (os @ ns)"
    and order: "\<forall>n \<in> set os. node_frame_idx n < bi_frame_idx info" "\<forall>n \<in> set ns. bi_frame_idx info < node_frame_idx n"
  shows "adds_frame info ch (sb_not_found mem i (sb_scan (bi_frame_idx info) (que (superbuf_queue ch)) 0 no_scan) info ch)"
proof -
  note sc = scan_miss [OF rep order]
  define c where "c = (case (if os = [] then None else Some (length ms)) of
      Some l \<Rightarrow> if max_unmatched_frames (attr (superbuf_queue ch)) < (of_nat (length os + length ns) :: u8)
        then drop_range l (Suc l) ch else ch
    | None \<Rightarrow> ch)"
  have c: "mset (que (superbuf_queue c)) \<subseteq># mset (que (superbuf_queue ch)) \<and> streams c = streams ch \<and>
      bundled_streams (superbuf_queue c) = bundled_streams (superbuf_queue ch) \<and> frames c \<subseteq> frames ch"
  proof (cases os)
    case (Cons o1 os')
    have d: "superbuf_queue (drop_range (length ms) (Suc (length ms)) ch) =
        (superbuf_queue ch)\<lparr>que := ms @ os' @ ns, que_size := que_size (superbuf_queue ch) - 1\<rparr>"
        "streams (drop_range (length ms) (Suc (length ms)) ch) = streams ch"
      using rep ok drop_range_effect [of ch ms "[o1]" "os' @ ns" "bundled_streams (superbuf_queue ch)"] Cons
      by (simp_all add: sb_rep_def sb_ok_def streams_known_def)
    have "que (superbuf_queue ch) = ms @ o1 # os' @ ns" using rep Cons by (simp add: sb_rep_def)
    then show ?thesis using d Cons unfolding c_def frames_def by (auto simp: subset_mset.add_increasing2)
  qed (simp add: c_def)
  have "sb_not_found mem i (sb_scan (bi_frame_idx info) (que (superbuf_queue ch)) 0 no_scan) info ch
      \<in> {mm_channel_qbuf (bi_buf info) ch, mm_channel_qbuf (bi_buf info) c} \<union> (\<lambda>b. sb_insert i b info c) ` UNIV"
    unfolding sb_not_found_def Let_def sc c_def by auto
  then show ?thesis using c same_que_adds insert_adds [of c ch] by auto
qed

section \<open>The delivered frame\<close>

text \<open>A frame as the streams deliver it: a positive index, and a buffer of the stream that delivers it.\<close>

definition frame_ok :: "mm_camera_buf_info_t \<Rightarrow> bool" where
  "frame_ok info \<longleftrightarrow> bi_frame_idx info \<noteq> 0 \<and> (\<exists>d. bi_buf info = Some d \<and> b_stream_id d = bi_stream_id info)"

lemma frame_slot: "frame_ok info \<Longrightarrow> slot_ok (bi_stream_id info) (bi_frame_idx info) info"
  by (auto simp: frame_ok_def slot_ok_def)

lemma bundle_indexD:
  assumes "bundle_index q h = Some i"
  shows "i < num_streams q" and "bundled_streams q ! i = h"
  using assms by (auto simp: bundle_index_def find_Some_iff)

lemma unfilled:
  assumes "(bi_stream_id info, bi_frame_idx info) \<notin> frames ch" and "n \<in> set (que (superbuf_queue ch))"
    and "node_ok (bundled_streams (superbuf_queue ch)) n" and "node_frame_idx n = bi_frame_idx info"
    and "i < num_streams (superbuf_queue ch)" and "bundled_streams (superbuf_queue ch) ! i = bi_stream_id info"
  shows "\<not> is_filled (super_buf n ! i)"
proof
  assume fl: "is_filled (super_buf n ! i)"
  then have "slot_ok (bundled_streams (superbuf_queue ch) ! i) (node_frame_idx n) (super_buf n ! i)"
    using assms(3,5) by (auto simp: node_ok_def num_streams_def is_filled_def no_buf_info_def)
  moreover have "super_buf n ! i \<in> set (take (num_of_bufs n) (super_buf n))"
    using assms(3,5) by (auto simp: node_ok_def num_streams_def in_set_conv_nth intro!: exI [of _ i])
  ultimately have "(bi_stream_id info, bi_frame_idx info) \<in> node_frames n"
    using fl assms(4,6) by (force simp: node_frames_def slot_ok_def)
  then show False using assms(1,2) by (auto simp: frames_def)
qed

lemma match_ok:
  fixes ch info mem i
  defines "r \<equiv> sb_scan (bi_frame_idx info) (que (superbuf_queue ch)) 0 no_scan"
  defines "ch' \<equiv> (case sc_pos r of Some p \<Rightarrow> sb_found i p (sc_last r) info ch | None \<Rightarrow> sb_not_found mem i r info ch)"
  assumes ok: "sb_ok ch" and fr: "frame_ok info" "bi_buf info = Some d"
    and i: "bundle_index (superbuf_queue ch) (bi_stream_id info) = Some i" "num_streams (superbuf_queue ch) \<le> MAX_STREAM_NUM_IN_BUNDLE"
  shows "sb_ok ch'" and "adds_frame info ch ch'"
    and "(bi_stream_id info, bi_frame_idx info) \<notin> frames ch \<Longrightarrow> accounted ch' = add_mset d (accounted ch)"
proof -
  obtain ms us where rep: "sb_rep (superbuf_queue ch) ms us" and few: "few_unmatched (superbuf_queue ch) us"
    and acc: "accounted ch = held_bufs (ms @ us) + mset (qbufs ch) + mset (concat (map bufs_of (superbufs ch)))"
    and known: "\<forall>h \<in> set (bundled_streams (superbuf_queue ch)). get_stream_by_handler ch h \<noteq> None"
    using sb_ok_rep [OF ok] .
  note bi = bundle_indexD [OF i(1)]
  have slot: "slot_ok (bundled_streams (superbuf_queue ch) ! i) (bi_frame_idx info) info" "bi_frame_idx info \<noteq> 0"
    using frame_slot [OF fr(1)] bi(2) fr(1) by (simp_all add: frame_ok_def)
  have "sorted_wrt (\<lambda>a b. node_frame_idx a < node_frame_idx b) us" using rep by (simp add: sb_rep_def)
  then obtain os ns where order: "\<forall>n \<in> set os. node_frame_idx n < bi_frame_idx info" "\<forall>n \<in> set ns. bi_frame_idx info < node_frame_idx n"
    and split: "us = os @ ns \<or> (\<exists>n. node_frame_idx n = bi_frame_idx info \<and> us = os @ n # ns)"
    using split_at_frame by blast
  from split have "sb_ok ch' \<and> adds_frame info ch ch' \<and>
      ((bi_stream_id info, bi_frame_idx info) \<notin> frames ch \<longrightarrow> accounted ch' = add_mset d (accounted ch))"
  proof
    assume us: "us = os @ ns"
    have "ch' = sb_not_found mem i r info ch"
      using scan_miss [OF rep [unfolded us] order] by (simp add: ch'_def r_def)
    then show ?thesis
      using not_found_ok [OF ok rep [unfolded us] few [unfolded us] order bi(1) i(2) slot fr(2), of mem, folded r_def]
        not_found_adds [OF ok rep [unfolded us] few [unfolded us] order, of mem i, folded r_def] by simp
  next
    assume "\<exists>n. node_frame_idx n = bi_frame_idx info \<and> us = os @ n # ns"
    then obtain n where n: "node_frame_idx n = bi_frame_idx info" "us = os @ n # ns" by blast
    note us = rep [unfolded n(2)] few [unfolded n(2)] acc [unfolded n(2)]
    have ch': "ch' = sb_found i (length ms + length os) (if os = [] then None else Some (length ms)) info ch"
      unfolding ch'_def r_def using scan_hit [OF us(1) order(1) n(1)] by simp
    have "n \<in> set (que (superbuf_queue ch))" "node_ok (bundled_streams (superbuf_queue ch)) n"
      using us(1) by (auto simp: sb_rep_def)
    then have "\<not> is_filled (super_buf n ! i)" if "(bi_stream_id info, bi_frame_idx info) \<notin> frames ch"
      using unfilled [OF that _ _ n(1) bi] by blast
    then show ?thesis
      using found_ok [OF ok us known bi(1) slot(1) [folded n(1)] fr(2)] found_adds [OF ok us(1), of info i] ch' by simp
  qed
  then show "sb_ok ch'" "adds_frame info ch ch'"
    "(bi_stream_id info, bi_frame_idx info) \<notin> frames ch \<Longrightarrow> accounted ch' = add_mset d (accounted ch)" by blast+
qed

end
