(* ===== verification/MmSuperbufProps.thy ===== *)
theory MmSuperbufProps
  imports MmMatching
begin

text \<open>
  Runs of the command thread of a bundled channel and what they guarantee: every command returns, every super
  buffer handed over is complete, no buffer is lost or given back twice, the queue stays within its limits;
  and the two situations in which the thread never comes back.
\<close>

section \<open>One command\<close>

lemma flush_any:
  assumes "sb_ok ch"
  shows "sb_ok (flush_nodes b P ch) \<and> frames (flush_nodes b P ch) \<subseteq> frames ch \<and> matches (flush_nodes b P ch) \<le> matches ch \<and>
    streams (flush_nodes b P ch) = streams ch \<and>
    bundled_streams (superbuf_queue (flush_nodes b P ch)) = bundled_streams (superbuf_queue ch)"
  using assms
proof (induction b P ch rule: flush_nodes.induct)
  case (1 b P ch)
  obtain x q where deq: "mm_channel_superbuf_dequeue_internal b (superbuf_queue ch) = (x, q)" by fastforce
  show ?case
  proof (cases x)
    case (Some n)
    let ?c = "qbuf_slots P n (set_queue q ch)"
    note d = dequeue_ok [OF 1(2) deq [unfolded Some]]
    have c: "sb_ok ?c" using d(1) sb_ok_fields [of ?c "set_queue q ch"] by simp
    have "frames ?c \<subseteq> frames ch" "matches ?c \<le> matches ch" "streams ?c = streams ch"
      "bundled_streams (superbuf_queue ?c) = bundled_streams (superbuf_queue ch)"
      using d(4,7) by (auto simp: frames_def matches_def)
    with 1(1) [OF deq [symmetric] Some c] show ?thesis using deq Some by (auto simp: flush_nodes.simps [of b P ch])
  qed (use 1(2) deq in \<open>simp add: flush_nodes.simps [of b P ch]\<close>)
qed

text \<open>A channel whose thread can run: the invariant, and a snapshot stream in front of the first unused slot.\<close>

definition ready :: "mm_channel_t \<Rightarrow> bool" where
  "ready ch \<longleftrightarrow> sb_ok ch \<and> num_streams (superbuf_queue ch) \<le> MAX_STREAM_NUM_IN_BUNDLE \<and>
     snapshot_stream_id (streams ch) \<noteq> None \<and> matches ch \<le> 255"

definition cmd_ok :: "mm_camera_cmdcb_t \<Rightarrow> bool" where
  "cmd_ok c = (case c of CMD_DATA_CB info \<Rightarrow> frame_ok info | _ \<Rightarrow> True)"

definition delivered :: "u32 list \<Rightarrow> mm_camera_cmdcb_t \<Rightarrow> mm_camera_buf_def_t multiset" where
  "delivered hs c = (case c of
     CMD_DATA_CB info \<Rightarrow> if bi_stream_id info \<in> set hs then mset (bufs_of [info]) else {#}
   | _ \<Rightarrow> {#})"

definition cmd_frame :: "mm_camera_cmdcb_t \<Rightarrow> (u32 \<times> u32) set" where
  "cmd_frame c = (case c of CMD_DATA_CB info \<Rightarrow> {(bi_stream_id info, bi_frame_idx info)} | _ \<Rightarrow> {})"

definition whole_flush :: "mm_camera_cmdcb_t \<Rightarrow> bool" where
  "whole_flush c = (case c of CMD_FLUSH_QUEUE f t \<Rightarrow> t = CAM_STREAM_TYPE_DEFAULT | _ \<Rightarrow> True)"

definition handles :: "mm_camera_cmdcb_t \<Rightarrow> mm_channel_t \<Rightarrow> mm_channel_t \<Rightarrow> bool" where
  "handles c ch ch' \<longleftrightarrow> sb_ok ch' \<and> frames ch' \<subseteq> cmd_frame c \<union> frames ch \<and> matches ch' \<le> Suc (matches ch) \<and>
     streams ch' = streams ch \<and> bundled_streams (superbuf_queue ch') = bundled_streams (superbuf_queue ch) \<and>
     (whole_flush c \<and> cmd_frame c \<inter> frames ch = {} \<longrightarrow>
        accounted ch' = accounted ch + delivered (bundled_streams (superbuf_queue ch)) c)"

lemma sound_handles:
  assumes "sound ch ch'" and "sb_ok ch" and "delivered (bundled_streams (superbuf_queue ch)) c = {#}"
  shows "handles c ch ch'"
  using assms by (auto simp: sound_def handles_def)

lemma handles_sound:
  assumes "handles c ch ch'" and "sound ch' ch''"
  shows "handles c ch ch''"
  using assms by (auto simp: handles_def sound_def)

lemma metadata_returns:
  assumes "sb_ok ch" and "snapshot_stream_id (streams ch) \<noteq> None"
  shows "mm_channel_handle_metadata info ch \<noteq> None"
proof -
  have "streams (set_expected 1 (mm_channel_superbuf_flush CAM_STREAM_TYPE_DEFAULT ch)) = streams ch"
    using flush_any [OF assms(1)] by (simp add: mm_channel_superbuf_flush_def set_expected_def)
  then show ?thesis using assms(2)
    by (auto simp: mm_channel_handle_metadata_def metadata_own_def Let_def split: option.splits)
qed

lemma bundle_index_None: "bundle_index q h = None \<longleftrightarrow> h \<notin> set (bundled_streams q)"
  by (auto simp: bundle_index_def find_None_iff num_streams_def in_set_conv_nth)

lemma data_handled:
  assumes ready: "ready ch" and fr: "frame_ok info"
  shows "\<exists>ch'. mm_channel_superbuf_comp_and_enqueue mem info ch = Some ch' \<and> handles (CMD_DATA_CB info) ch ch'"
proof (cases "bundle_index (superbuf_queue ch) (bi_stream_id info)")
  case None
  then have "bi_stream_id info \<notin> set (bundled_streams (superbuf_queue ch))" by (simp add: bundle_index_None)
  then have "handles (CMD_DATA_CB info) ch ch" using ready by (auto simp: handles_def ready_def delivered_def)
  then show ?thesis using None by (simp add: mm_channel_superbuf_comp_and_enqueue_def)
next
  case (Some i)
  obtain d where d: "bi_buf info = Some d" "b_stream_id d = bi_stream_id info" using fr by (auto simp: frame_ok_def)
  have hs: "bi_stream_id info \<in> set (bundled_streams (superbuf_queue ch))" 
    using bundle_indexD [OF Some] by (auto simp: num_streams_def in_set_conv_nth)
  have ok: "sb_ok ch" using ready by (simp add: ready_def)
  obtain good ch1 where m: "mm_channel_handle_metadata info ch = Some (good, ch1)"
    using metadata_returns [OF ok, of info] ready unfolding ready_def by fastforce
  have s: "sb_ok ch1" "accounted ch1 = accounted ch" "frames ch1 \<subseteq> frames ch" "matches ch1 \<le> matches ch"
    "streams ch1 = streams ch" "bundled_streams (superbuf_queue ch1) = bundled_streams (superbuf_queue ch)"
    using metadata_sound [OF m] ok by (auto simp: sound_def)
  have new: "(bi_stream_id info, bi_frame_idx info) \<notin> frames ch1" if "cmd_frame (CMD_DATA_CB info) \<inter> frames ch = {}"
    using that s(3) by (auto simp: cmd_frame_def)
  have del: "delivered (bundled_streams (superbuf_queue ch)) (CMD_DATA_CB info) = {#d#}"
    using hs d by (simp add: delivered_def)
  show ?thesis
  proof (cases "\<not> good \<or> bi_frame_idx info < expected_frame_id (superbuf_queue ch1)")
    case True
    then have e: "mm_channel_superbuf_comp_and_enqueue mem info ch = Some (mm_channel_qbuf (Some d) ch1)"
      using Some m d by (simp add: mm_channel_superbuf_comp_and_enqueue_def)
    have "get_stream_by_handler ch1 (b_stream_id d) \<noteq> None" using s(1,6) hs d by (simp add: sb_ok_def streams_known_def)
    note q = qbuf_ok [OF s(1) this]
    have "frames (mm_channel_qbuf (Some d) ch1) = frames ch1" "matches (mm_channel_qbuf (Some d) ch1) = matches ch1"
      by (simp_all add: frames_def matches_def)
    with e q s del show ?thesis by (auto simp: handles_def)
  next
    case False
    let ?r = "sb_scan (bi_frame_idx info) (que (superbuf_queue ch1)) 0 no_scan"
    have i: "bundle_index (superbuf_queue ch1) (bi_stream_id info) = Some i"
      "num_streams (superbuf_queue ch1) \<le> MAX_STREAM_NUM_IN_BUNDLE"
      using Some s(6) ready by (simp_all add: bundle_index_def num_streams_def ready_def)
    note mt = match_ok [OF s(1) fr d(1) i, of mem]
    have "mm_channel_superbuf_comp_and_enqueue mem info ch = Some (case sc_pos ?r of
        Some p \<Rightarrow> sb_found i p (sc_last ?r) info ch1 | None \<Rightarrow> sb_not_found mem i ?r info ch1)"
      using False Some m by (simp add: mm_channel_superbuf_comp_and_enqueue_def Let_def)
    then show ?thesis using mt s new del by (auto simp: handles_def adds_frame_def cmd_frame_def)
  qed
qed

lemma trims_ok:
  assumes "sb_ok ch"
  shows "\<exists>ch'. mm_channel_superbuf_skip ch = Some ch' \<and> sound ch ch'"
    and "\<exists>ch'. mm_channel_superbuf_bufdone_overflow ch = Some ch' \<and> sound ch ch' \<and>
      (is_burst ch \<longrightarrow> match_cnt (superbuf_queue ch') \<le> ucast (water_mark (attr (superbuf_queue ch)))) \<and>
      attr (superbuf_queue ch') = attr (superbuf_queue ch)"
  using drop_over_ok [OF assms] sound_refl
  by (cases "notify_mode (attr (superbuf_queue ch))";
      simp add: mm_channel_superbuf_skip_def mm_channel_superbuf_bufdone_overflow_def is_burst_def; blast)+

lemma request_handled:
  assumes "sb_ok ch"
  shows "\<exists>ch'. proc_request n ch = Some ch' \<and> sound ch ch'"
proof -
  have s: "sound ch (ch\<lparr>pending_cnt := n\<rparr>)" by (intro same_bufs_sound) simp
  then have ok: "sb_ok (ch\<lparr>pending_cnt := n\<rparr>)" using assms by (simp add: sound_def)
  then obtain ch1 where "mm_channel_superbuf_skip (ch\<lparr>pending_cnt := n\<rparr>) = Some ch1" "sound (ch\<lparr>pending_cnt := n\<rparr>) ch1"
    using trims_ok(1) by blast
  then show ?thesis using sound_trans [OF s]
    by (auto simp: proc_request_def intro!: sound_flags)
qed

lemma cmd_handled:
  assumes ready: "ready ch" and c: "cmd_ok c"
  shows "\<exists>ch'. proc_cmd mem c ch = Some ch' \<and> handles c ch ch'"
proof -
  have ok: "sb_ok ch" using ready by (simp add: ready_def)
  show ?thesis
  proof (cases c)
    case (CMD_DATA_CB info)
    then show ?thesis using data_handled [OF ready] c by (simp add: proc_cmd_def cmd_ok_def)
  next
    case (CMD_REQ_DATA_CB n)
    then show ?thesis using request_handled [OF ok] sound_handles [OF _ ok] by (fastforce simp: proc_cmd_def delivered_def)
  next
    case (CMD_FLUSH_QUEUE f t)
    have e: "sound ch (set_expected f ch)" by (intro same_bufs_sound) simp
    then have ok': "sb_ok (set_expected f ch)" using ok by (simp add: sound_def)
    have "sound (set_expected f ch) (proc_flush f t ch)" if "t = CAM_STREAM_TYPE_DEFAULT"
      using flush_nodes_sound that by (simp add: proc_flush_def mm_channel_superbuf_flush_def)
    then have "accounted (proc_flush f t ch) = accounted ch" if "t = CAM_STREAM_TYPE_DEFAULT"
      using sound_trans [OF e] that ok by (simp add: sound_def)
    then have "handles c ch (proc_flush f t ch)"
      using flush_any [OF ok', of False "of_type t"] e ok CMD_FLUSH_QUEUE
      by (auto simp: handles_def proc_flush_def mm_channel_superbuf_flush_def sound_def whole_flush_def delivered_def)
    then show ?thesis using CMD_FLUSH_QUEUE by (simp add: proc_cmd_def)
  next
    case (CMD_GENERAL t b)
    have "sound ch (proc_general t b ch)"
      by (cases t) (auto simp: proc_general_def intro: sound_flags flush_sound sound_refl same_bufs_sound)
    then show ?thesis using sound_handles [OF _ ok] CMD_GENERAL by (simp add: proc_cmd_def delivered_def)
  next
    case CMD_START_ZSL
    then show ?thesis using sound_handles [OF sound_flags(5) [OF same_bufs_sound [OF same_bufs_flags(2)]] ok]
      by (simp add: proc_cmd_def delivered_def)
  next
    case CMD_STOP_ZSL
    then show ?thesis using sound_handles [OF sound_flags(5) [OF same_bufs_sound [OF same_bufs_flags(2)]] ok]
      by (simp add: proc_cmd_def delivered_def)
  next
    case (CMD_CONFIG_NOTIFY m)
    then show ?thesis using sound_handles [OF same_bufs_sound ok, of "set_notify_mode m ch"]
      by (simp add: proc_cmd_def delivered_def)
  qed (use sound_handles [OF sound_refl ok] in \<open>simp add: proc_cmd_def delivered_def\<close>)
qed

section \<open>Limits\<close>

lemma u8_less: "unat (x :: u8) < 256"
  using unsigned_less [of x] by simp

lemma unat_ucast_u8: "unat (ucast (x :: u8) :: u32) = unat x"
  using u8_less [of x] by (simp add: unsigned_ucast_eq take_bit_nat_eq_self)

lemma dispatch_drains:
  assumes "sb_ok ch" and "\<not> is_burst ch"
  shows "matches (dispatch_loop cbmem ch) = 0"
  using assms
proof (induction cbmem ch rule: dispatch_loop.induct)
  case (1 cbmem ch)
  obtain x q where deq: "mm_channel_superbuf_dequeue_internal True (superbuf_queue ch) = (x, q)" by fastforce
  show ?case
  proof (cases x)
    case None
    obtain ms us where "sb_rep (superbuf_queue ch) ms us" using 1(2) by (auto simp: sb_ok_def sb_inv_def)
    then have "matches ch = 0"
      using dequeue_none(2) deq None by (fastforce simp: sb_rep_def matches_def filter_empty_conv)
    then show ?thesis using deq None by (simp add: dispatch_loop.simps [of cbmem ch])
  next
    case (Some n)
    let ?c = "hand_over cbmem n (count_down (set_queue q ch))"
    have s: "sb_ok ?c" using hand_over_sound [OF deq [unfolded Some]] 1(2) by (simp add: sound_def)
    have "\<not> is_burst ?c" using 1(3) dequeue_ok(6) [OF 1(2) deq [unfolded Some]] by (simp add: is_burst_def)
    then show ?thesis using 1(1) [OF _ deq [symmetric] Some s] 1(3) deq Some
      by (simp add: dispatch_loop.simps [of cbmem ch])
  qed
qed

lemma match_cnt_matches:
  assumes "sb_ok ch"
  shows "match_cnt (superbuf_queue ch) = of_nat (matches ch)"
proof -
  obtain ms us where "sb_rep (superbuf_queue ch) ms us" using assms by (auto simp: sb_ok_def sb_inv_def)
  then have "filter matched (que (superbuf_queue ch)) = ms" "match_cnt (superbuf_queue ch) = of_nat (length ms)"
    by (auto simp: sb_rep_def filter_empty_conv)
  then show ?thesis by (simp add: matches_def)
qed

text \<open>The number of complete super buffers the mode lets wait.\<close>

definition match_limit :: "mm_channel_t \<Rightarrow> nat" where
  "match_limit ch = (if is_burst ch then unat (water_mark (attr (superbuf_queue ch))) else 0)"

lemma trimmed:
  assumes "sb_ok ch" and "matches ch \<le> 256"
  shows "\<exists>ch'. map_option (dispatch_loop cbmem) (mm_channel_superbuf_bufdone_overflow ch) = Some ch' \<and> sound ch ch' \<and>
    matches ch' \<le> match_limit ch' \<and> match_limit ch' \<le> 255"
proof -
  obtain ch1 where o: "mm_channel_superbuf_bufdone_overflow ch = Some ch1" "sound ch ch1"
    "is_burst ch \<longrightarrow> match_cnt (superbuf_queue ch1) \<le> ucast (water_mark (attr (superbuf_queue ch)))"
    "attr (superbuf_queue ch1) = attr (superbuf_queue ch)"
    using trims_ok(2) [OF assms(1)] by blast
  have ok1: "sb_ok ch1" "matches ch1 \<le> 256" using o(2) assms by (auto simp: sound_def)
  have d: "sound ch1 (dispatch_loop cbmem ch1)" by (rule dispatch_loop_sound)
  have "matches (dispatch_loop cbmem ch1) \<le> match_limit ch"
  proof (cases "is_burst ch")
    case True
    have "(of_nat (matches ch1) :: u32) \<le> ucast (water_mark (attr (superbuf_queue ch)))"
      using o(3) True match_cnt_matches [OF ok1(1)] by simp
    moreover have "unat (of_nat (matches ch1) :: u32) = matches ch1" using ok1(2) by (subst unat_of_nat) simp
    moreover have "unat (ucast (water_mark (attr (superbuf_queue ch))) :: u32) = unat (water_mark (attr (superbuf_queue ch)))"
      by (rule unat_ucast_u8)
    ultimately have "matches ch1 \<le> unat (water_mark (attr (superbuf_queue ch)))"
      unfolding word_le_nat_alt by metis
    then show ?thesis using d ok1 True by (simp add: sound_def match_limit_def)
  next
    case False
    then have "ch1 = ch" using o(1) by (auto simp: mm_channel_superbuf_bufdone_overflow_def is_burst_def
        split: mm_camera_super_buf_notify_mode_t.splits)
    then show ?thesis using dispatch_drains [OF assms(1) False] by simp
  qed
  moreover have "match_limit (dispatch_loop cbmem ch1) = match_limit ch"
    using o(4) dispatch_loop_attr [of cbmem ch1] by (simp add: match_limit_def is_burst_def)
  moreover have "match_limit ch \<le> 255"
    using u8_less [of "water_mark (attr (superbuf_queue ch))"] by (simp add: match_limit_def)
  ultimately show ?thesis using o(1,2) d sound_trans by fastforce
qed

section \<open>A command and its dispatch\<close>

lemma process_handled:
  assumes ready: "ready ch" and c: "cmd_ok c"
  shows "\<exists>ch'. mm_channel_process_stream_buf mem cbmem c ch = Some ch' \<and> ready ch' \<and> handles c ch ch' \<and>
    ((\<forall>f t. c \<noteq> CMD_FLUSH_QUEUE f t) \<longrightarrow> matches ch' \<le> match_limit ch')"
proof -
  obtain ch1 where p: "proc_cmd mem c ch = Some ch1" "handles c ch ch1" using cmd_handled [OF assms] by blast
  have ok1: "sb_ok ch1" "matches ch1 \<le> 256" using p(2) ready by (auto simp: handles_def ready_def)
  have keep: "ready ch'" if "handles c ch ch'" "matches ch' \<le> 255" for ch'
    using that ready by (auto simp: handles_def ready_def num_streams_def)
  show ?thesis
  proof (cases "\<exists>f t. c = CMD_FLUSH_QUEUE f t")
    case True
    then obtain f t where ft: "c = CMD_FLUSH_QUEUE f t" by blast
    then have "ch1 = flush_nodes False (of_type t) (set_expected f ch)"
      using p(1) by (simp add: proc_cmd_def proc_flush_def mm_channel_superbuf_flush_def)
    moreover have "sound ch (set_expected f ch)" by (intro same_bufs_sound) simp
    ultimately have "matches ch1 \<le> matches ch"
      using flush_any [of "set_expected f ch" False "of_type t"] ready by (auto simp: sound_def ready_def)
    then have "matches ch1 \<le> 255" using ready by (simp add: ready_def)
    then show ?thesis using keep [OF p(2)] p ft by (simp add: mm_channel_process_stream_buf_def)
  next
    case False
    then have e: "mm_channel_process_stream_buf mem cbmem c ch
        = map_option (dispatch_loop cbmem) (mm_channel_superbuf_bufdone_overflow ch1)"
      using p(1) by (cases c) (simp_all add: mm_channel_process_stream_buf_def)
    obtain ch' where "map_option (dispatch_loop cbmem) (mm_channel_superbuf_bufdone_overflow ch1) = Some ch'"
      "sound ch1 ch'" "matches ch' \<le> match_limit ch'" "match_limit ch' \<le> 255" using trimmed [OF ok1] by blast
    then show ?thesis using e keep handles_sound [OF p(2)] by fastforce
  qed
qed

section \<open>Runs\<close>

text \<open>A command with what the allocations made for it give.\<close>

type_synonym thread_cmd = "bool \<times> (mm_channel_queue_node_t \<Rightarrow> bool) \<times> mm_camera_cmdcb_t"

fun sb_run :: "thread_cmd list \<Rightarrow> mm_channel_t \<Rightarrow> mm_channel_t option" where
  "sb_run [] ch = Some ch"
| "sb_run ((mem, cbmem, c) # cs) ch = Option.bind (mm_channel_process_stream_buf mem cbmem c ch) (sb_run cs)"

definition cmds_ok :: "thread_cmd list \<Rightarrow> bool" where
  "cmds_ok cs \<longleftrightarrow> (\<forall>(mem, cbmem, c) \<in> set cs. cmd_ok c)"

text \<open>No stream delivers a frame index twice, and the queue is only flushed as a whole.\<close>

fun fresh_frames :: "(u32 \<times> u32) set \<Rightarrow> thread_cmd list \<Rightarrow> bool" where
  "fresh_frames S [] = True"
| "fresh_frames S ((mem, cbmem, c) # cs) =
     (whole_flush c \<and> cmd_frame c \<inter> S = {} \<and> fresh_frames (cmd_frame c \<union> S) cs)"

fun all_delivered :: "u32 list \<Rightarrow> thread_cmd list \<Rightarrow> mm_camera_buf_def_t multiset" where
  "all_delivered hs [] = {#}"
| "all_delivered hs ((mem, cbmem, c) # cs) = delivered hs c + all_delivered hs cs"

lemma run_ready:
  assumes "ready ch" and "cmds_ok cs"
  shows "\<exists>ch'. sb_run cs ch = Some ch' \<and> ready ch' \<and>
    bundled_streams (superbuf_queue ch') = bundled_streams (superbuf_queue ch)"
  using assms
proof (induction cs arbitrary: ch)
  case (Cons x cs)
  obtain mem cbmem c where x: "x = (mem, cbmem, c)" by (cases x)
  obtain ch1 where "mm_channel_process_stream_buf mem cbmem c ch = Some ch1" "ready ch1" "handles c ch ch1"
    using process_handled [OF Cons.prems(1)] Cons.prems(2) x by (fastforce simp: cmds_ok_def)
  then show ?case using Cons.IH [of ch1] Cons.prems(2) x by (auto simp: cmds_ok_def handles_def)
qed simp

lemma run_accounts:
  assumes "ready ch" and "cmds_ok cs" and "frames ch \<subseteq> S" and "fresh_frames S cs" and "sb_run cs ch = Some ch'"
  shows "accounted ch' = accounted ch + all_delivered (bundled_streams (superbuf_queue ch)) cs"
  using assms
proof (induction cs arbitrary: ch S)
  case (Cons x cs)
  obtain mem cbmem c where x: "x = (mem, cbmem, c)" by (cases x)
  obtain ch1 where p: "mm_channel_process_stream_buf mem cbmem c ch = Some ch1" "ready ch1" "handles c ch ch1"
    using process_handled [OF Cons.prems(1)] Cons.prems(2) x by (fastforce simp: cmds_ok_def)
  have "frames ch1 \<subseteq> cmd_frame c \<union> S" using p(3) Cons.prems(3) by (auto simp: handles_def)
  then have "accounted ch' = accounted ch1 + all_delivered (bundled_streams (superbuf_queue ch1)) cs"
    using Cons.IH [of ch1 "cmd_frame c \<union> S"] p Cons.prems(2,4,5) x by (simp add: cmds_ok_def)
  moreover have "cmd_frame c \<inter> frames ch = {}" "whole_flush c" using Cons.prems(3,4) x by auto
  ultimately show ?case using p(3) x by (simp add: handles_def ac_simps)
qed simp

section \<open>A channel to run\<close>

text \<open>A snapshot stream and a preview stream, bundled.\<close>

definition demo_slot :: "u32 \<Rightarrow> cam_stream_type_t \<Rightarrow> stream_slot" where
  "demo_slot h t = \<lparr>in_use = True, my_hdl = h, info_type = Some t, server_stream_id = h, own_stream = True\<rparr>"

definition demo_chan :: "stream_slot list \<Rightarrow> mm_channel_t" where
  "demo_chan ss = \<lparr>streams = ss,
     superbuf_queue = \<lparr>que = [], que_size = 0, bundled_streams = map my_hdl ss,
       attr = \<lparr>notify_mode = MM_CAMERA_SUPER_BUF_NOTIFY_BURST, water_mark = 1, look_back = 0, post_frame_skip = 0,
         max_unmatched_frames = 3\<rparr>, expected_frame_id = 0, match_cnt = 0, expected_frame_id_without_led = 0\<rparr>,
     super_buf_notify_cb = True, pending_cnt = 1, manualZSLSnapshot = False, startZSlSnapshotCalled = False,
     needLEDFlash = False, previewSkipCnt = 0, bracketingState = MM_CHANNEL_BRACKETING_STATE_OFF,
     isFlashBracketingEnabled = False, isZoom1xFrameRequested = False, qbufs = [], superbufs = [], zsl_calls = []\<rparr>"

definition demo_bundle :: mm_channel_t where
  "demo_bundle = demo_chan [demo_slot 1 CAM_STREAM_TYPE_SNAPSHOT, demo_slot 2 CAM_STREAM_TYPE_PREVIEW]"

definition demo_frame :: "u32 \<Rightarrow> u32 \<Rightarrow> mm_camera_buf_info_t" where
  "demo_frame h f = \<lparr>bi_stream_id = h, bi_frame_idx = f,
     bi_buf = Some \<lparr>b_stream_id = h, b_stream_type = CAM_STREAM_TYPE_DEFAULT, b_buf_idx = 0, b_buffer = None\<rparr>\<rparr>"

definition demo_cmds :: "thread_cmd list" where
  "demo_cmds = [(True, \<lambda>n. True, CMD_DATA_CB (demo_frame 1 5)), (True, \<lambda>n. True, CMD_DATA_CB (demo_frame 2 5))]"

lemmas demo_chan_defs = demo_bundle_def demo_chan_def demo_slot_def demo_cmds_def demo_frame_def

lemma demo_bundle_ready: "ready demo_bundle" "cmds_ok demo_cmds" "frames demo_bundle = {}"
  by (auto simp: ready_def cmds_ok_def cmd_ok_def frame_ok_def sb_ok_def sb_inv_def sb_rep_def few_unmatched_def
      streams_known_def get_stream_by_handler_def num_streams_def matches_def MAX_STREAM_NUM_IN_BUNDLE_def frames_def
      demo_chan_defs)

lemma replicate_four: "replicate 4 x = [x, x, x, x]"
  by (simp add: numeral_eq_Suc)

text \<open>How the thread runs on a concrete channel.\<close>

lemmas sb_eval = mm_channel_process_stream_buf_def proc_cmd_def mm_channel_superbuf_comp_and_enqueue_def bundle_index_def
  num_streams_def mm_channel_handle_metadata_def get_stream_by_handler_def no_scan_def sb_not_found_def sb_insert_def
  sb_found_def fill_slot_def all_filled_def is_filled_def new_node_def no_buf_info_def MAX_STREAM_NUM_IN_BUNDLE_def
  set_queue_def expect_next_def count_match_def set_expected_def mm_channel_superbuf_bufdone_overflow_def
  drop_over.simps dispatch_loop.simps mm_channel_superbuf_dequeue_internal_def is_burst_def hand_over_def
  count_down_def zsl_call_def Let_def replicate_four demo_chan_defs

section \<open>Properties\<close>

text \<open>
  C10. superbuf_thread_returns. Whatever commands the thread of a bundled channel takes, and whatever its
  allocations give, it comes back from each of them: its loops end, it dereferences no null pointer, and the
  queue keeps its invariant (complete super buffers first, the others in frame order, exact counters).
\<close>

theorem superbuf_thread_returns:
  assumes "ready ch" and "cmds_ok cs"
  shows "\<exists>ch'. sb_run cs ch = Some ch' \<and> ready ch'"
  using run_ready [OF assms] by blast

theorem superbuf_thread_returns_witness:
  "\<exists>ch'. sb_run demo_cmds demo_bundle = Some ch' \<and> ready ch'"
  by (rule superbuf_thread_returns [OF demo_bundle_ready(1,2)])

text \<open>
  C8. superbufs_complete. Every super buffer handed to the callback thread, over any run, holds one buffer of each
  bundled stream, in the order of the bundle, and all of them have the same frame index.
\<close>

theorem superbufs_complete:
  assumes "ready ch" and "cmds_ok cs" and "sb_run cs ch = Some ch'" and "bs \<in> set (superbufs ch')"
  shows "map bi_stream_id bs = bundled_streams (superbuf_queue ch) \<and>
    (\<exists>f. f \<noteq> 0 \<and> map bi_frame_idx bs = replicate (num_streams (superbuf_queue ch)) f) \<and>
    None \<notin> set (map bi_buf bs)"
proof -
  have "ready ch'" "bundled_streams (superbuf_queue ch') = bundled_streams (superbuf_queue ch)"
    using run_ready [OF assms(1,2)] assms(3) by auto
  then have "complete (bundled_streams (superbuf_queue ch)) bs" using assms(4) by (auto simp: ready_def sb_ok_def)
  then obtain f where l: "length bs = num_streams (superbuf_queue ch)" "f \<noteq> 0"
    "\<forall>i < length bs. slot_ok (bundled_streams (superbuf_queue ch) ! i) f (bs ! i)"
    by (auto simp: complete_def num_streams_def)
  then have "map bi_stream_id bs = bundled_streams (superbuf_queue ch)"
    "map bi_frame_idx bs = replicate (num_streams (superbuf_queue ch)) f"
    by (auto intro!: nth_equalityI simp: slot_ok_def num_streams_def)
  moreover have "None \<notin> set (map bi_buf bs)" using l(3) by (auto simp: in_set_conv_nth slot_ok_def) (metis option.distinct(1))
  ultimately show ?thesis using l(2) by blast
qed

theorem superbufs_complete_witness:
  "map bi_stream_id [demo_frame 1 5, demo_frame 2 5] = [1, 2]"
proof -
  have run: "Option.bind (sb_run demo_cmds demo_bundle) (\<lambda>ch. Some (superbufs ch)) = Some [[demo_frame 1 5, demo_frame 2 5]]"
    by (simp add: sb_eval)
  then obtain ch where "sb_run demo_cmds demo_bundle = Some ch" "superbufs ch = [[demo_frame 1 5, demo_frame 2 5]]"
    by (auto simp: bind_eq_Some_conv)
  then show ?thesis
    using superbufs_complete [OF demo_bundle_ready(1,2), of ch "[demo_frame 1 5, demo_frame 2 5]"]
    by (simp add: demo_chan_defs)
qed



text \<open>
  C11. superbuf_queue_bounded. After each command but a flush, the queue holds at most as many complete super
  buffers as its water mark in burst mode, none in continuous mode, and at most one more incomplete one than the
  bundle's limit.
\<close>

theorem superbuf_queue_bounded:
  assumes "ready ch" and "cmd_ok c" and "\<forall>f t. c \<noteq> CMD_FLUSH_QUEUE f t"
    and "mm_channel_process_stream_buf mem cbmem c ch = Some ch'"
  shows "length (filter matched (que (superbuf_queue ch'))) \<le>
      (if notify_mode (attr (superbuf_queue ch')) = MM_CAMERA_SUPER_BUF_NOTIFY_BURST
       then unat (water_mark (attr (superbuf_queue ch'))) else 0) \<and>
    length (filter (\<lambda>n. \<not> matched n) (que (superbuf_queue ch'))) \<le>
      unat (max_unmatched_frames (attr (superbuf_queue ch'))) + 1"
proof -
  have r: "ready ch'" "matches ch' \<le> match_limit ch'" using process_handled [OF assms(1,2), of mem cbmem] assms(3,4) by auto
  then obtain ms us where "sb_rep (superbuf_queue ch') ms us" "few_unmatched (superbuf_queue ch') us"
    by (auto simp: ready_def sb_ok_def sb_inv_def)
  then have "length (filter (\<lambda>n. \<not> matched n) (que (superbuf_queue ch'))) \<le> unat (max_unmatched_frames (attr (superbuf_queue ch'))) + 1"
    by (simp add: sb_rep_def few_unmatched_def filter_empty_conv)
  then show ?thesis using r(2) by (simp add: matches_def match_limit_def is_burst_def)
qed

theorem superbuf_queue_bounded_witness:
  "\<exists>ch'. mm_channel_process_stream_buf True (\<lambda>n. True) (CMD_DATA_CB (demo_frame 1 5)) demo_bundle = Some ch' \<and>
     length (filter (\<lambda>n. \<not> matched n) (que (superbuf_queue ch'))) \<le> unat (max_unmatched_frames (attr (superbuf_queue ch'))) + 1"
proof -
  have c: "cmd_ok (CMD_DATA_CB (demo_frame 1 5))" by (simp add: cmd_ok_def frame_ok_def demo_frame_def)
  obtain ch' where "mm_channel_process_stream_buf True (\<lambda>n. True) (CMD_DATA_CB (demo_frame 1 5)) demo_bundle = Some ch'"
    using process_handled [OF demo_bundle_ready(1) c] by blast
  then show ?thesis using superbuf_queue_bounded [OF demo_bundle_ready(1) c] by blast
qed

section \<open>When the thread does not come back\<close>

text \<open>
  Stopping and starting the channel: \<open>mm_channel_stop\<close> frees the super buffers (\<open>cam_queue_deinit\<close>),
  \<open>mm_channel_start\<close> makes an empty queue and sets the bundle and the expected frames; neither resets
  \<open>match_cnt\<close>.
\<close>

lemma drop_over_spins:
  assumes "drop_over lim ch = Some ch'" and "fst (mm_channel_superbuf_dequeue_internal True (superbuf_queue ch)) = None"
  shows "match_cnt (superbuf_queue ch) \<le> lim"
proof -
  have "fst (mm_channel_superbuf_dequeue_internal True (superbuf_queue ch)) = None \<longrightarrow> match_cnt (superbuf_queue ch) \<le> lim"
    by (rule drop_over.raw_induct [OF _ assms(1), where P = "\<lambda>lim ch _.
        fst (mm_channel_superbuf_dequeue_internal True (superbuf_queue ch)) = None \<longrightarrow> match_cnt (superbuf_queue ch) \<le> lim"])
      (fastforce split: if_splits prod.splits option.splits)
  then show ?thesis using assms(2) by simp
qed

text \<open>
  A channel stopped with more complete super buffers waiting than its look-back, and
  started again, never answers the first request for super buffers: the counter still counts the freed ones, and
  the thread spins, holding the lock of the queue.
\<close>

theorem stale_match_count_spins:
  assumes "notify_mode (attr (superbuf_queue ch)) = MM_CAMERA_SUPER_BUF_NOTIFY_BURST"
    and "ucast (look_back (attr (superbuf_queue ch))) < match_cnt (superbuf_queue ch)"
  shows "mm_channel_process_stream_buf mem cbmem (CMD_REQ_DATA_CB n) (superbuf_queue_restart hs ch) = None"
proof -
  let ?c = "(superbuf_queue_restart hs ch)\<lparr>pending_cnt := n\<rparr>"
  have "drop_over (ucast (look_back (attr (superbuf_queue ?c)))) ?c = None"
    using drop_over_spins [of "ucast (look_back (attr (superbuf_queue ?c)))" ?c] assms(2)
    by (cases "drop_over (ucast (look_back (attr (superbuf_queue ?c)))) ?c")
      (auto simp: superbuf_queue_restart_def set_queue_def mm_channel_superbuf_dequeue_internal_def)
  then show ?thesis using assms(1)
    by (simp add: mm_channel_process_stream_buf_def proc_cmd_def proc_request_def mm_channel_superbuf_skip_def
        superbuf_queue_restart_def set_queue_def)
qed

text \<open>The run of the witness: two frames match with nobody asking for them, the channel restarts, and is asked.\<close>

theorem stale_match_count_spins_witness:
  "Option.bind (sb_run demo_cmds (demo_bundle\<lparr>pending_cnt := 0\<rparr>))
     (\<lambda>ch. mm_channel_process_stream_buf True (\<lambda>n. True) (CMD_REQ_DATA_CB 1) (superbuf_queue_restart [1, 2] ch)) = None"
proof -
  have "Option.bind (sb_run demo_cmds (demo_bundle\<lparr>pending_cnt := 0\<rparr>))
      (\<lambda>ch. Some (attr (superbuf_queue ch), match_cnt (superbuf_queue ch)))
    = Some (attr (superbuf_queue demo_bundle), 1)"
    by (simp add: sb_eval)
  then obtain ch where ch: "sb_run demo_cmds (demo_bundle\<lparr>pending_cnt := 0\<rparr>) = Some ch"
    "attr (superbuf_queue ch) = attr (superbuf_queue demo_bundle)" "match_cnt (superbuf_queue ch) = 1"
    by (auto simp: bind_eq_Some_conv)
  then show ?thesis
    using stale_match_count_spins [of ch True "\<lambda>n. True" 1 "[1, 2]"] by (simp add: demo_chan_defs)
qed

text \<open>
  When a slot without \<open>stream_info\<close> comes before any snapshot stream (as in
  a bundle without a snapshot stream and with a slot to spare), the first valid metadata of the channel's own
  metadata stream makes the thread dereference a null pointer.
\<close>

theorem metadata_without_snapshot_crashes:
  assumes "bi_stream_id info \<in> set (bundled_streams (superbuf_queue ch))"
    and "get_stream_by_handler ch (bi_stream_id info) = Some s" and "info_type s = Some CAM_STREAM_TYPE_METADATA"
    and "own_stream s" and "bi_buf info = Some d" and "b_buffer d = Some md" and "\<not> is_meta_invalid md"
    and "\<not> is_frame_id_reset md" and "snapshot_stream_id (streams ch) = None"
  shows "mm_channel_process_stream_buf mem cbmem (CMD_DATA_CB info) ch = None"
proof -
  obtain i where "bundle_index (superbuf_queue ch) (bi_stream_id info) = Some i"
    using assms(1) bundle_index_None by fastforce
  then show ?thesis using assms(2-9)
    by (simp add: mm_channel_process_stream_buf_def proc_cmd_def mm_channel_superbuf_comp_and_enqueue_def
        mm_channel_handle_metadata_def metadata_own_def)
qed

definition demo_meta :: cam_metadata_info_t where
  "demo_meta = \<lparr>is_frame_id_reset = False, is_meta_invalid = False, is_crop_valid = False, crop_data = [],
     is_prep_snapshot_done_valid = False, prep_snapshot_done_state = DO_NOT_NEED_FUTURE_FRAME,
     is_good_frame_idx_range_valid = False, min_frame_idx = 0, max_frame_idx = 0\<rparr>"

theorem metadata_without_snapshot_crashes_witness:
  "mm_channel_process_stream_buf True (\<lambda>n. True)
     (CMD_DATA_CB \<lparr>bi_stream_id = 1, bi_frame_idx = 5, bi_buf = Some \<lparr>b_stream_id = 1,
        b_stream_type = CAM_STREAM_TYPE_METADATA, b_buf_idx = 0, b_buffer = Some demo_meta\<rparr>\<rparr>)
     (demo_chan [demo_slot 1 CAM_STREAM_TYPE_METADATA, (demo_slot 2 CAM_STREAM_TYPE_PREVIEW)\<lparr>info_type := None\<rparr>]) = None"
  by (rule metadata_without_snapshot_crashes [where md = demo_meta and s = "demo_slot 1 CAM_STREAM_TYPE_METADATA"
      and d = "\<lparr>b_stream_id = 1, b_stream_type = CAM_STREAM_TYPE_METADATA, b_buf_idx = 0, b_buffer = Some demo_meta\<rparr>"])
    (simp_all add: get_stream_by_handler_def demo_meta_def demo_chan_defs)

end
