(* ===== verification/MmPlanes.thy ===== *)
theory MmPlanes
  imports CamTypes "HOL-Library.Signed_Division"
begin

unbundle bit_operations_syntax

text \<open>
  The plane layouts of camera/QCamera2/stack/mm-camera-interface/src/mm_camera_stream.c: from the format, the
  dimension and the padding of a stream, the offset, length, stride and scanline of each plane of its buffers,
  and the length of a frame.

  All fields are 32-bit words and the arithmetic wraps, as it does in the compiled code; the signed divisions are
  written with \<open>sdiv\<close> on the signed reading. A Bayer format of the C enum comes in four orders; here the order is
  an argument of the constructor. The macros of the Venus encoder come from a kernel header: they are a record of
  functions, absent when the code is compiled without \<open>VENUS_PRESENT\<close>. A layout is \<open>None\<close> when the function
  returns -1, and the planes are then unchanged.
\<close>

section \<open>Formats, dimensions and planes\<close>

datatype bayer_order = GBRG | GRBG | RGGB | BGGR

datatype cam_format_t =
    CAM_FORMAT_JPEG
  | CAM_FORMAT_YUV_420_NV12
  | CAM_FORMAT_YUV_420_NV21
  | CAM_FORMAT_YUV_420_NV21_ADRENO
  | CAM_FORMAT_YUV_420_YV12
  | CAM_FORMAT_YUV_422_NV16
  | CAM_FORMAT_YUV_422_NV61
  | CAM_FORMAT_YUV_420_NV12_VENUS
  | CAM_FORMAT_YUV_RAW_8BIT_YUYV
  | CAM_FORMAT_YUV_RAW_8BIT_YVYU
  | CAM_FORMAT_YUV_RAW_8BIT_UYVY
  | CAM_FORMAT_YUV_RAW_8BIT_VYUY
  | CAM_FORMAT_BAYER_QCOM_RAW_8BPP bayer_order
  | CAM_FORMAT_BAYER_QCOM_RAW_10BPP bayer_order
  | CAM_FORMAT_BAYER_QCOM_RAW_12BPP bayer_order
  | CAM_FORMAT_BAYER_MIPI_RAW_8BPP bayer_order
  | CAM_FORMAT_BAYER_MIPI_RAW_10BPP bayer_order
  | CAM_FORMAT_BAYER_MIPI_RAW_12BPP bayer_order
  | CAM_FORMAT_BAYER_IDEAL_RAW_QCOM_8BPP bayer_order
  | CAM_FORMAT_BAYER_IDEAL_RAW_QCOM_10BPP bayer_order
  | CAM_FORMAT_BAYER_IDEAL_RAW_QCOM_12BPP bayer_order
  | CAM_FORMAT_BAYER_IDEAL_RAW_MIPI_8BPP bayer_order
  | CAM_FORMAT_BAYER_IDEAL_RAW_MIPI_10BPP bayer_order
  | CAM_FORMAT_BAYER_IDEAL_RAW_MIPI_12BPP bayer_order
  | CAM_FORMAT_BAYER_IDEAL_RAW_PLAIN8_8BPP bayer_order
  | CAM_FORMAT_BAYER_IDEAL_RAW_PLAIN16_8BPP bayer_order
  | CAM_FORMAT_BAYER_IDEAL_RAW_PLAIN16_10BPP bayer_order
  | CAM_FORMAT_BAYER_IDEAL_RAW_PLAIN16_12BPP bayer_order
  | CAM_FORMAT_JPEG_RAW_8BIT
  | CAM_FORMAT_META_RAW_8BIT
  | CAM_FORMAT_META_RAW_10BIT
  | CAM_FORMAT_BAYER_QCOM_RAW_14BPP bayer_order
  | CAM_FORMAT_BAYER_MIPI_RAW_14BPP bayer_order
  | CAM_FORMAT_BAYER_IDEAL_RAW_QCOM_14BPP bayer_order
  | CAM_FORMAT_BAYER_IDEAL_RAW_MIPI_14BPP bayer_order
  | CAM_FORMAT_BAYER_IDEAL_RAW_PLAIN16_14BPP bayer_order

datatype v4l2_pix_fmt =
    V4L2_PIX_FMT_NV12
  | V4L2_PIX_FMT_NV21
  | V4L2_PIX_FMT_SBGGR10
  | V4L2_PIX_FMT_NV61
  | V4L2_PIX_FMT_YUYV
  | V4L2_PIX_FMT_YVYU
  | V4L2_PIX_FMT_UYVY
  | V4L2_PIX_FMT_VYUY
  | V4L2_PIX_FMT_NV16

text \<open>The code 0 of an unknown format is \<open>None\<close>.\<close>

definition mm_stream_get_v4l2_fmt :: "cam_format_t \<Rightarrow> v4l2_pix_fmt option" where
  "mm_stream_get_v4l2_fmt f = (case f of
     CAM_FORMAT_YUV_420_NV12 \<Rightarrow> Some V4L2_PIX_FMT_NV12
   | CAM_FORMAT_YUV_420_NV12_VENUS \<Rightarrow> Some V4L2_PIX_FMT_NV12
   | CAM_FORMAT_YUV_420_NV21 \<Rightarrow> Some V4L2_PIX_FMT_NV21
   | CAM_FORMAT_BAYER_QCOM_RAW_10BPP _ \<Rightarrow> Some V4L2_PIX_FMT_SBGGR10
   | CAM_FORMAT_YUV_422_NV61 \<Rightarrow> Some V4L2_PIX_FMT_NV61
   | CAM_FORMAT_YUV_RAW_8BIT_YUYV \<Rightarrow> Some V4L2_PIX_FMT_YUYV
   | CAM_FORMAT_YUV_RAW_8BIT_YVYU \<Rightarrow> Some V4L2_PIX_FMT_YVYU
   | CAM_FORMAT_YUV_RAW_8BIT_UYVY \<Rightarrow> Some V4L2_PIX_FMT_UYVY
   | CAM_FORMAT_YUV_RAW_8BIT_VYUY \<Rightarrow> Some V4L2_PIX_FMT_VYUY
   | CAM_FORMAT_YUV_420_YV12 \<Rightarrow> Some V4L2_PIX_FMT_NV12
   | CAM_FORMAT_YUV_422_NV16 \<Rightarrow> Some V4L2_PIX_FMT_NV16
   | _ \<Rightarrow> None)"

record cam_dimension_t =
  dim_width :: u32
  dim_height :: u32

record cam_padding_info_t =
  width_padding :: u32
  height_padding :: u32
  plane_padding :: u32

record cam_mp_len_offset_t =
  mp_len :: u32
  mp_offset :: u32
  mp_offset_x :: u32
  mp_offset_y :: u32
  mp_stride :: u32
  mp_scanline :: u32
  mp_width :: u32
  mp_height :: u32

record cam_frame_len_offset_t =
  num_planes :: u32
  mp :: "cam_mp_len_offset_t list"
  frame_len :: u32

record venus_macros =
  VENUS_Y_STRIDE :: "u32 \<Rightarrow> u32"
  VENUS_Y_SCANLINES :: "u32 \<Rightarrow> u32"
  VENUS_UV_STRIDE :: "u32 \<Rightarrow> u32"
  VENUS_UV_SCANLINES :: "u32 \<Rightarrow> u32"
  VENUS_BUFFER_SIZE :: "u32 \<Rightarrow> u32 \<Rightarrow> u32"

definition PAD_TO_SIZE :: "u32 \<Rightarrow> u32 \<Rightarrow> u32" where
  "PAD_TO_SIZE sz padding = (sz + (padding - 1)) AND NOT (padding - 1)"

definition i32_div :: "u32 \<Rightarrow> int \<Rightarrow> u32" where
  "i32_div x k = word_of_int (sint x sdiv k)"

text \<open>A layout writes its planes over the first ones of the array and leaves the others.\<close>

definition set_planes :: "cam_mp_len_offset_t list \<Rightarrow> u32 \<Rightarrow> cam_frame_len_offset_t \<Rightarrow> cam_frame_len_offset_t" where
  "set_planes ps len t = \<lparr>num_planes = of_nat (length ps), mp = ps @ drop (length ps) (mp t), frame_len = len\<rparr>"

definition plane_at :: "u32 \<Rightarrow> u32 \<Rightarrow> u32 \<Rightarrow> u32 \<Rightarrow> u32 \<Rightarrow> cam_mp_len_offset_t" where
  "plane_at len stride scanline w h = \<lparr>mp_len = len, mp_offset = 0, mp_offset_x = 0, mp_offset_y = 0,
     mp_stride = stride, mp_scanline = scanline, mp_width = w, mp_height = h\<rparr>"

definition sum_len :: "cam_mp_len_offset_t list \<Rightarrow> u32" where
  "sum_len ps = sum_list (map mp_len ps)"

definition set_planes_4k :: "cam_mp_len_offset_t list \<Rightarrow> cam_frame_len_offset_t \<Rightarrow> cam_frame_len_offset_t" where
  "set_planes_4k ps = set_planes ps (PAD_TO_SIZE (sum_len ps) 4096)"

section \<open>Preview and postview\<close>

definition yuv420sp_planes :: "u32 \<Rightarrow> u32 \<Rightarrow> cam_dimension_t \<Rightarrow> cam_mp_len_offset_t list" where
  "yuv420sp_planes wpad hpad d =
     (let w = dim_width d; h = dim_height d; h2 = i32_div h 2; stride = PAD_TO_SIZE w wpad
      in [plane_at (stride * PAD_TO_SIZE h hpad) stride (PAD_TO_SIZE h hpad) w h,
          plane_at (stride * PAD_TO_SIZE h2 hpad) stride (PAD_TO_SIZE h2 hpad) w h2])"

definition adreno_planes :: "cam_dimension_t \<Rightarrow> cam_mp_len_offset_t list" where
  "adreno_planes d =
     (let w = dim_width d; h = dim_height d; h2 = i32_div h 2;
          stride = PAD_TO_SIZE w 32; scanline = PAD_TO_SIZE h 32;
          stride2 = PAD_TO_SIZE (i32_div w 2) 32 * 2; scanline2 = PAD_TO_SIZE h2 32
      in [plane_at (PAD_TO_SIZE (stride * scanline) 4096) stride scanline w h,
          plane_at (PAD_TO_SIZE (stride2 * scanline2) 4096) stride2 scanline2 w h2])"

definition yv12_planes :: "cam_dimension_t \<Rightarrow> cam_mp_len_offset_t list" where
  "yv12_planes d =
     (let w = dim_width d; h = dim_height d;
          stride = PAD_TO_SIZE w 16; scanline = PAD_TO_SIZE h 2;
          stride2 = PAD_TO_SIZE (i32_div stride 2) 16; scanline2 = i32_div scanline 2;
          c = plane_at (stride2 * scanline2) stride2 scanline2 (i32_div w 2) (i32_div h 2)
      in [plane_at (stride * scanline) stride scanline w h, c, c])"

definition yuv422_planes :: "cam_dimension_t \<Rightarrow> cam_mp_len_offset_t list" where
  "yuv422_planes d =
     (let w = dim_width d; h = dim_height d; stride = PAD_TO_SIZE w 16;
          p = plane_at (stride * h) stride h w h
      in [p, p])"

definition venus_planes :: "venus_macros \<Rightarrow> cam_dimension_t \<Rightarrow> cam_mp_len_offset_t list" where
  "venus_planes v d =
     (let w = dim_width d; h = dim_height d; stride = VENUS_Y_STRIDE v w; scanline = VENUS_Y_SCANLINES v h
      in [plane_at (stride * scanline) stride scanline w h,
          plane_at (VENUS_BUFFER_SIZE v w h - stride * scanline) (VENUS_UV_STRIDE v w) (VENUS_UV_SCANLINES v h) w h])"

definition venus_layout :: "venus_macros \<Rightarrow> cam_dimension_t \<Rightarrow> cam_frame_len_offset_t \<Rightarrow> cam_frame_len_offset_t" where
  "venus_layout v d = set_planes (venus_planes v d) (VENUS_BUFFER_SIZE v (dim_width d) (dim_height d))"

datatype cam_rotation_t = ROTATE_0 | ROTATE_90 | ROTATE_180 | ROTATE_270

text \<open>The source of a reprocess stream: the type of an online one, or the type and the planes of an offline one.\<close>

datatype reprocess_source =
    ONLINE_REPROCESS cam_stream_type_t
  | OFFLINE_REPROCESS cam_stream_type_t cam_frame_len_offset_t

record cam_stream_info_t =
  si_type :: cam_stream_type_t
  si_fmt :: cam_format_t
  si_dim :: cam_dimension_t
  buf_planes :: cam_frame_len_offset_t
  pp_feature_mask :: u32
  pp_rotation :: cam_rotation_t
  reprocess_source :: reprocess_source
  reprocess_mask :: u32
  tp_meta_max_size :: u32

definition mm_stream_calc_offset_preview ::
    "venus_macros option \<Rightarrow> cam_stream_info_t \<Rightarrow> cam_dimension_t \<Rightarrow> cam_padding_info_t \<Rightarrow>
     cam_frame_len_offset_t \<Rightarrow> cam_frame_len_offset_t option" where
  "mm_stream_calc_offset_preview venus info d pad t =
     (let sp = (if si_type info \<noteq> CAM_STREAM_TYPE_OFFLINE_PROC then yuv420sp_planes 32 2 d
                else yuv420sp_planes (width_padding pad) (height_padding pad) d)
      in case si_fmt info of
           CAM_FORMAT_YUV_420_NV12 \<Rightarrow> Some (set_planes_4k sp t)
         | CAM_FORMAT_YUV_420_NV21 \<Rightarrow> Some (set_planes_4k sp t)
         | CAM_FORMAT_YUV_420_NV21_ADRENO \<Rightarrow> Some (set_planes_4k (adreno_planes d) t)
         | CAM_FORMAT_YUV_420_YV12 \<Rightarrow> Some (set_planes_4k (yv12_planes d) t)
         | CAM_FORMAT_YUV_422_NV16 \<Rightarrow> Some (set_planes_4k (yuv422_planes d) t)
         | CAM_FORMAT_YUV_422_NV61 \<Rightarrow> Some (set_planes_4k (yuv422_planes d) t)
         | CAM_FORMAT_YUV_420_NV12_VENUS \<Rightarrow> map_option (\<lambda>v. venus_layout v d t) venus
         | _ \<Rightarrow> None)"

definition mm_stream_calc_offset_post_view ::
    "venus_macros option \<Rightarrow> cam_format_t \<Rightarrow> cam_dimension_t \<Rightarrow> cam_frame_len_offset_t \<Rightarrow>
     cam_frame_len_offset_t option" where
  "mm_stream_calc_offset_post_view venus f d t = (case f of
     CAM_FORMAT_YUV_420_NV12 \<Rightarrow> Some (set_planes_4k (yuv420sp_planes 64 64 d) t)
   | CAM_FORMAT_YUV_420_NV21 \<Rightarrow> Some (set_planes_4k (yuv420sp_planes 64 64 d) t)
   | CAM_FORMAT_YUV_420_NV21_ADRENO \<Rightarrow> Some (set_planes_4k (adreno_planes d) t)
   | CAM_FORMAT_YUV_420_YV12 \<Rightarrow> Some (set_planes_4k (yv12_planes d) t)
   | CAM_FORMAT_YUV_422_NV16 \<Rightarrow> Some (set_planes_4k (yuv422_planes d) t)
   | CAM_FORMAT_YUV_422_NV61 \<Rightarrow> Some (set_planes_4k (yuv422_planes d) t)
   | CAM_FORMAT_YUV_420_NV12_VENUS \<Rightarrow> map_option (\<lambda>v. venus_layout v d t) venus
   | _ \<Rightarrow> None)"

section \<open>Snapshot\<close>

definition CAM_QCOM_FEATURE_ROTATION :: u32 where
  "CAM_QCOM_FEATURE_ROTATION = 8"

definition CAM_QCOM_FEATURE_TRUEPORTRAIT :: u32 where
  "CAM_QCOM_FEATURE_TRUEPORTRAIT = push_bit 17 1"

text \<open>
  The frame of a snapshot: stride, scanline and the vertical offset of the image in it. A chip of the A family
  pads twice, above and below.
\<close>

record snapshot_frame =
  sf_stride :: u32
  sf_scanline :: u32
  sf_offset_y :: u32

definition snapshot_frame_of :: "bool \<Rightarrow> cam_dimension_t \<Rightarrow> cam_padding_info_t \<Rightarrow> snapshot_frame" where
  "snapshot_frame_of a_family d pad =
     (if a_family
      then let s = PAD_TO_SIZE (dim_height d) 16; oy = s - dim_height d
           in \<lparr>sf_stride = dim_width d, sf_scanline = s + oy, sf_offset_y = oy\<rparr>
      else \<lparr>sf_stride = PAD_TO_SIZE (dim_width d) (width_padding pad),
             sf_scanline = PAD_TO_SIZE (dim_height d) (height_padding pad), sf_offset_y = 0\<rparr>)"

definition snapshot_plane :: "cam_padding_info_t \<Rightarrow> u32 \<Rightarrow> u32 \<Rightarrow> u32 \<Rightarrow> u32 \<Rightarrow> u32 \<Rightarrow> cam_mp_len_offset_t" where
  "snapshot_plane pad oy stride scanline w h = \<lparr>mp_len = PAD_TO_SIZE (stride * scanline) (plane_padding pad),
     mp_offset = PAD_TO_SIZE (stride * oy) (plane_padding pad), mp_offset_x = 0, mp_offset_y = oy,
     mp_stride = stride, mp_scanline = scanline, mp_width = w, mp_height = h\<rparr>"

definition snapshot_planes_420sp :: "snapshot_frame \<Rightarrow> cam_dimension_t \<Rightarrow> cam_padding_info_t \<Rightarrow> cam_mp_len_offset_t list" where
  "snapshot_planes_420sp s d pad =
     [snapshot_plane pad (sf_offset_y s) (sf_stride s) (sf_scanline s) (dim_width d) (dim_height d),
      snapshot_plane pad (sf_offset_y s) (sf_stride s) (i32_div (sf_scanline s) 2) (dim_width d) (i32_div (dim_height d) 2)]"

definition snapshot_planes_yv12 :: "snapshot_frame \<Rightarrow> cam_dimension_t \<Rightarrow> cam_padding_info_t \<Rightarrow> cam_mp_len_offset_t list" where
  "snapshot_planes_yv12 s d pad =
     (let stride2 = PAD_TO_SIZE (i32_div (sf_stride s) 2) 16;
          c = snapshot_plane pad (sf_offset_y s) stride2 (i32_div (sf_scanline s) 2)
                (i32_div (dim_width d) 2) (i32_div (dim_height d) 2)
      in [snapshot_plane pad (sf_offset_y s) (sf_stride s) (sf_scanline s) (dim_width d) (dim_height d), c, c])"

definition snapshot_planes_422 :: "snapshot_frame \<Rightarrow> cam_dimension_t \<Rightarrow> cam_padding_info_t \<Rightarrow> cam_mp_len_offset_t list" where
  "snapshot_planes_422 s d pad =
     (let p = snapshot_plane pad (sf_offset_y s) (sf_stride s) (sf_scanline s) (dim_width d) (dim_height d)
      in [p, p])"

definition snapshot_420sp_layout ::
    "cam_stream_info_t \<Rightarrow> cam_mp_len_offset_t list \<Rightarrow> cam_frame_len_offset_t \<Rightarrow> cam_frame_len_offset_t" where
  "snapshot_420sp_layout info ps t =
     (if reprocess_mask info AND CAM_QCOM_FEATURE_TRUEPORTRAIT \<noteq> 0
      then set_planes ps (PAD_TO_SIZE (sum_len ps + tp_meta_max_size info) 4096) t
      else set_planes_4k ps t)"

definition mm_stream_calc_offset_snapshot ::
    "bool \<Rightarrow> cam_stream_info_t \<Rightarrow> cam_dimension_t \<Rightarrow> cam_padding_info_t \<Rightarrow>
     cam_frame_len_offset_t \<Rightarrow> cam_frame_len_offset_t option" where
  "mm_stream_calc_offset_snapshot a_family info d pad t =
     (let s = snapshot_frame_of a_family d pad
      in case si_fmt info of
           CAM_FORMAT_YUV_420_NV12 \<Rightarrow> Some (snapshot_420sp_layout info (snapshot_planes_420sp s d pad) t)
         | CAM_FORMAT_YUV_420_NV21 \<Rightarrow> Some (snapshot_420sp_layout info (snapshot_planes_420sp s d pad) t)
         | CAM_FORMAT_YUV_420_YV12 \<Rightarrow> Some (set_planes_4k (snapshot_planes_yv12 s d pad) t)
         | CAM_FORMAT_YUV_422_NV16 \<Rightarrow> Some (set_planes_4k (snapshot_planes_422 s d pad) t)
         | CAM_FORMAT_YUV_422_NV61 \<Rightarrow> Some (set_planes_4k (snapshot_planes_422 s d pad) t)
         | _ \<Rightarrow> None)"

section \<open>Raw, video and metadata\<close>

text \<open>A raw plane has stride and scanline in pixels; its width is the length of the plane and its height 1.\<close>

definition raw_layout :: "u32 \<Rightarrow> u32 \<Rightarrow> u32 \<Rightarrow> cam_padding_info_t \<Rightarrow> cam_frame_len_offset_t \<Rightarrow> cam_frame_len_offset_t" where
  "raw_layout stride scanline sz pad =
     (let len = PAD_TO_SIZE sz (plane_padding pad) in set_planes_4k [plane_at len stride scanline len 1])"

definition mm_stream_calc_offset_raw ::
    "cam_format_t \<Rightarrow> cam_dimension_t \<Rightarrow> cam_padding_info_t \<Rightarrow> cam_frame_len_offset_t \<Rightarrow> cam_frame_len_offset_t option" where
  "mm_stream_calc_offset_raw f d pad t =
     (let w = dim_width d; h = dim_height d;
          packed = (let s = PAD_TO_SIZE w 16 in Some (raw_layout s h (s * h * 2) pad t));
          bpp8 = (let s = PAD_TO_SIZE w 16 in Some (raw_layout s h (s * h) pad t));
          qcom10 = (let s = i32_div (w + 11) 12 * 12 in Some (raw_layout s h (i32_div (s * h * 8) 6) pad t));
          qcom12 = (let s = i32_div (w + 9) 10 * 10 in Some (raw_layout s h (i32_div (s * h * 8) 5) pad t));
          mipi10 = (let s = PAD_TO_SIZE (i32_div (w * 5) 4) 8 in Some (raw_layout s h (s * h) pad t));
          mipi12 = (let s = PAD_TO_SIZE w 32 in Some (raw_layout s h (i32_div (s * h * 3) 2) pad t));
          plain16 = (let s = PAD_TO_SIZE w 8 in Some (raw_layout s h (s * h * 2) pad t))
      in case f of
           CAM_FORMAT_YUV_RAW_8BIT_YUYV \<Rightarrow> packed
         | CAM_FORMAT_YUV_RAW_8BIT_YVYU \<Rightarrow> packed
         | CAM_FORMAT_YUV_RAW_8BIT_UYVY \<Rightarrow> packed
         | CAM_FORMAT_YUV_RAW_8BIT_VYUY \<Rightarrow> packed
         | CAM_FORMAT_JPEG_RAW_8BIT \<Rightarrow> packed
         | CAM_FORMAT_META_RAW_8BIT \<Rightarrow> packed
         | CAM_FORMAT_BAYER_QCOM_RAW_8BPP _ \<Rightarrow> bpp8
         | CAM_FORMAT_BAYER_MIPI_RAW_8BPP _ \<Rightarrow> bpp8
         | CAM_FORMAT_BAYER_IDEAL_RAW_QCOM_8BPP _ \<Rightarrow> bpp8
         | CAM_FORMAT_BAYER_IDEAL_RAW_MIPI_8BPP _ \<Rightarrow> bpp8
         | CAM_FORMAT_BAYER_IDEAL_RAW_PLAIN8_8BPP _ \<Rightarrow> bpp8
         | CAM_FORMAT_BAYER_QCOM_RAW_10BPP _ \<Rightarrow> qcom10
         | CAM_FORMAT_BAYER_IDEAL_RAW_QCOM_10BPP _ \<Rightarrow> qcom10
         | CAM_FORMAT_BAYER_QCOM_RAW_12BPP _ \<Rightarrow> qcom12
         | CAM_FORMAT_BAYER_IDEAL_RAW_QCOM_12BPP _ \<Rightarrow> qcom12
         | CAM_FORMAT_BAYER_MIPI_RAW_10BPP _ \<Rightarrow> mipi10
         | CAM_FORMAT_BAYER_IDEAL_RAW_MIPI_10BPP _ \<Rightarrow> mipi10
         | CAM_FORMAT_BAYER_MIPI_RAW_12BPP _ \<Rightarrow> mipi12
         | CAM_FORMAT_BAYER_IDEAL_RAW_MIPI_12BPP _ \<Rightarrow> mipi12
         | CAM_FORMAT_BAYER_IDEAL_RAW_PLAIN16_8BPP _ \<Rightarrow> plain16
         | CAM_FORMAT_BAYER_IDEAL_RAW_PLAIN16_10BPP _ \<Rightarrow> plain16
         | CAM_FORMAT_BAYER_IDEAL_RAW_PLAIN16_12BPP _ \<Rightarrow> plain16
         | _ \<Rightarrow> None)"

text \<open>
  Without Venus the width and height of the second plane are written into the first one, and the second keeps
  what it had.
\<close>

definition video_layout :: "cam_dimension_t \<Rightarrow> cam_frame_len_offset_t \<Rightarrow> cam_frame_len_offset_t" where
  "video_layout d t =
     (let w = dim_width d; h = dim_height d; h2 = i32_div h 2;
          y = plane_at (PAD_TO_SIZE (w * h) 2048) w h w h2;
          c = plane_at (PAD_TO_SIZE (w * h2) 2048) w h2 (mp_width (mp t ! 1)) (mp_height (mp t ! 1))
      in set_planes_4k [y, c] t)"

definition mm_stream_calc_offset_video ::
    "venus_macros option \<Rightarrow> cam_dimension_t \<Rightarrow> cam_frame_len_offset_t \<Rightarrow> cam_frame_len_offset_t" where
  "mm_stream_calc_offset_video venus d t =
     (case venus of Some v \<Rightarrow> venus_layout v d t | None \<Rightarrow> video_layout d t)"

definition mm_stream_calc_offset_metadata ::
    "cam_dimension_t \<Rightarrow> cam_padding_info_t \<Rightarrow> cam_frame_len_offset_t \<Rightarrow> cam_frame_len_offset_t" where
  "mm_stream_calc_offset_metadata d pad =
     (let len = PAD_TO_SIZE (dim_width d * dim_height d) (plane_padding pad)
      in set_planes [plane_at len (dim_width d) (dim_height d) (dim_width d) (dim_height d)] len)"

section \<open>All streams\<close>

definition calc_offset_of_type ::
    "venus_macros option \<Rightarrow> bool \<Rightarrow> cam_stream_type_t \<Rightarrow> cam_stream_info_t \<Rightarrow> cam_dimension_t \<Rightarrow> cam_padding_info_t \<Rightarrow>
     cam_frame_len_offset_t \<Rightarrow> cam_frame_len_offset_t option" where
  "calc_offset_of_type venus a_family ty info d pad t = (case ty of
     CAM_STREAM_TYPE_PREVIEW \<Rightarrow> mm_stream_calc_offset_preview venus info d pad t
   | CAM_STREAM_TYPE_POSTVIEW \<Rightarrow> mm_stream_calc_offset_post_view venus (si_fmt info) d t
   | CAM_STREAM_TYPE_SNAPSHOT \<Rightarrow> mm_stream_calc_offset_snapshot a_family info d pad t
   | CAM_STREAM_TYPE_VIDEO \<Rightarrow> Some (mm_stream_calc_offset_video venus d t)
   | CAM_STREAM_TYPE_RAW \<Rightarrow> mm_stream_calc_offset_raw (si_fmt info) d pad t
   | CAM_STREAM_TYPE_METADATA \<Rightarrow> Some (mm_stream_calc_offset_metadata d pad t)
   | _ \<Rightarrow> None)"

definition mm_stream_calc_offset_postproc ::
    "venus_macros option \<Rightarrow> bool \<Rightarrow> cam_stream_info_t \<Rightarrow> cam_padding_info_t \<Rightarrow>
     cam_frame_len_offset_t \<Rightarrow> cam_frame_len_offset_t option" where
  "mm_stream_calc_offset_postproc venus a_family info pad t = (case reprocess_source info of
     OFFLINE_REPROCESS ty input \<Rightarrow>
       if ty = CAM_STREAM_TYPE_DEFAULT then Some (if frame_len t = 0 then input else t)
       else calc_offset_of_type venus a_family ty info (si_dim info) pad t
   | ONLINE_REPROCESS ty \<Rightarrow> calc_offset_of_type venus a_family ty info (si_dim info) pad t)"

text \<open>The part of a stream object the layout is about.\<close>

record mm_stream_layout =
  stream_info :: cam_stream_info_t
  padding_info :: cam_padding_info_t
  frame_offset :: cam_frame_len_offset_t

definition rotated_dim :: "cam_stream_info_t \<Rightarrow> cam_dimension_t" where
  "rotated_dim info =
     (if pp_feature_mask info AND CAM_QCOM_FEATURE_ROTATION \<noteq> 0 \<and> si_type info \<noteq> CAM_STREAM_TYPE_VIDEO \<and>
         (pp_rotation info = ROTATE_90 \<or> pp_rotation info = ROTATE_270)
      then \<lparr>dim_width = dim_height (si_dim info), dim_height = dim_width (si_dim info)\<rparr>
      else si_dim info)"

text \<open>The result is \<open>False\<close> for the return code -1.\<close>

definition mm_stream_calc_offset ::
    "venus_macros option \<Rightarrow> bool \<Rightarrow> 'a mm_stream_layout_scheme \<Rightarrow> bool \<times> 'a mm_stream_layout_scheme" where
  "mm_stream_calc_offset venus a_family s =
     (let info = stream_info s; t = buf_planes info;
          r = (if si_type info = CAM_STREAM_TYPE_OFFLINE_PROC
               then mm_stream_calc_offset_postproc venus a_family info (padding_info s) t
               else calc_offset_of_type venus a_family (si_type info) info (rotated_dim info) (padding_info s) t);
          t' = (case r of Some t' \<Rightarrow> t' | None \<Rightarrow> t)
      in (r \<noteq> None, s\<lparr>stream_info := info\<lparr>buf_planes := t'\<rparr>, frame_offset := t'\<rparr>))"

text \<open>A sample stream, for the witnesses.\<close>

definition demo_dim :: "u32 \<Rightarrow> u32 \<Rightarrow> cam_dimension_t" where
  "demo_dim w h = \<lparr>dim_width = w, dim_height = h\<rparr>"

definition demo_layout :: "cam_stream_type_t \<Rightarrow> cam_format_t \<Rightarrow> cam_dimension_t \<Rightarrow> mm_stream_layout" where
  "demo_layout ty f d = \<lparr>stream_info = \<lparr>si_type = ty, si_fmt = f, si_dim = d,
      buf_planes = \<lparr>num_planes = 0, mp = replicate 8 (plane_at 0 0 0 0 0), frame_len = 0\<rparr>,
      pp_feature_mask = 0, pp_rotation = ROTATE_0, reprocess_source = ONLINE_REPROCESS CAM_STREAM_TYPE_DEFAULT,
      reprocess_mask = 0, tp_meta_max_size = 0\<rparr>,
    padding_info = \<lparr>width_padding = 32, height_padding = 2, plane_padding = 4096\<rparr>,
    frame_offset = \<lparr>num_planes = 0, mp = [], frame_len = 0\<rparr>\<rparr>"

end
