(* ===== verification/MmPlanesProps.thy ===== *)
theory MmPlanesProps
  imports MmPlanes
begin

text \<open>
  The layouts hold the images they are for: padding rounds up to the next multiple, the planes of a YUV frame and
  the single plane of a raw frame are large enough for the image, and the frame for its planes.
\<close>

section \<open>Word arithmetic without wrap-around\<close>

definition round_up :: "nat \<Rightarrow> nat \<Rightarrow> nat" where
  "round_up n k = (n + (k - 1)) div k * k"

lemma round_up_ge: "0 < k \<Longrightarrow> n \<le> round_up n k"
proof -
  assume k: "0 < k"
  have "round_up n k + (n + (k - 1)) mod k = n + (k - 1)" by (simp add: round_up_def)
  moreover have "(n + (k - 1)) mod k < k" using k by simp
  ultimately show ?thesis using k by linarith
qed

lemma round_up_dvd: "k dvd round_up n k"
  by (simp add: round_up_def)

lemma round_up_least:
  assumes "0 < k" and "k dvd m" and "n \<le> m"
  shows "round_up n k \<le> m"
proof -
  obtain j where j: "m = j * k" using assms(2) by (metis dvd_def mult.commute)
  have "n + (k - 1) < Suc j * k" using assms(1,3) by (simp add: j)
  then have "(n + (k - 1)) div k < Suc j" using assms(1) by (simp only: div_less_iff_less_mult)
  then have "(n + (k - 1)) div k \<le> j" by simp
  then show ?thesis unfolding j round_up_def by (rule mult_right_mono) simp
qed

lemma and_not_mask: "x AND NOT (mask k) = push_bit k (drop_bit k (x :: u32))"
  by (rule bit_word_eqI) (auto simp: bit_simps)

lemma unat_clear_low: "unat (x AND NOT (mask k)) = unat (x :: u32) div 2 ^ k * 2 ^ k"
proof -
  have "unat x div 2 ^ k * 2 ^ k \<le> unat x" by simp
  also have "unat x < 2 ^ 32" using unsigned_less [of x] by simp
  finally have "unat x div 2 ^ k * 2 ^ k < 2 ^ 32" .
  then have "take_bit 32 (push_bit k (drop_bit k (unat x))) = unat x div 2 ^ k * 2 ^ k"
    by (simp add: push_bit_eq_mult drop_bit_eq_div take_bit_nat_eq_self)
  then show ?thesis by (simp only: and_not_mask unsigned_push_bit_eq unat_drop_bit_eq) simp
qed

lemma pad_of_nat:
  assumes "n + 2 ^ k \<le> 2 ^ 32"
  shows "PAD_TO_SIZE (of_nat n) (2 ^ k) = of_nat (round_up n (2 ^ k))"
proof -
  have m: "(2 ^ k :: u32) - 1 = mask k" by (simp add: mask_eq_exp_minus_1)
  have "(mask k :: u32) = of_nat (2 ^ k - 1)" by (simp add: mask_eq_exp_minus_1 of_nat_diff)
  then have "of_nat n + mask k = (of_nat (n + (2 ^ k - 1)) :: u32)" by (simp only: of_nat_add)
  moreover have "n + (2 ^ k - 1) < 2 ^ LENGTH(32)" using assms by (simp add: less_le_trans [of _ "n + 2 ^ k"])
  ultimately have "unat (of_nat n + mask k :: u32) = n + (2 ^ k - 1)" by (simp only: unat_of_nat mod_less)
  then have "unat (PAD_TO_SIZE (of_nat n) (2 ^ k)) = round_up n (2 ^ k)"
    by (simp add: PAD_TO_SIZE_def m unat_clear_low round_up_def)
  then show ?thesis by (metis word_nat_cases unat_of_nat of_nat_unat ucast_id)
qed

lemma i32_div_of_nat:
  assumes "n < 2 ^ 31" and "0 < k"
  shows "i32_div (of_nat n) (int k) = of_nat (n div k)"
proof -
  have "sint (of_nat n :: u32) = int n"
    using assms(1) by (simp add: sint_uint signed_take_bit_int_eq_self unsigned_of_nat take_bit_nat_eq_self)
  moreover have "int n sdiv int k = int (n div k)"
    using assms(2) by (cases "n = 0") (simp_all add: signed_divide_int_def zdiv_int)
  ultimately show ?thesis by (simp add: i32_div_def)
qed

lemma i32_halves: "n < 2 ^ 31 \<Longrightarrow> i32_div (of_nat n) 2 = of_nat (n div 2)"
  using i32_div_of_nat [of n 2] by simp

lemma pad_constants:
  assumes "n \<le> 2 ^ 31"
  shows "PAD_TO_SIZE (of_nat n) 2 = of_nat (round_up n 2)" and "PAD_TO_SIZE (of_nat n) 8 = of_nat (round_up n 8)"
    and "PAD_TO_SIZE (of_nat n) 16 = of_nat (round_up n 16)" and "PAD_TO_SIZE (of_nat n) 32 = of_nat (round_up n 32)"
    and "PAD_TO_SIZE (of_nat n) 64 = of_nat (round_up n 64)" and "PAD_TO_SIZE (of_nat n) 4096 = of_nat (round_up n 4096)"
  using assms pad_of_nat [of n 1] pad_of_nat [of n 3] pad_of_nat [of n 4] pad_of_nat [of n 5] pad_of_nat [of n 6]
    pad_of_nat [of n 12] by simp_all

text \<open>Sides up to 8192 stay within 8192 when they are padded to a power of two up to 8192.\<close>

definition pad_ok :: "u32 \<Rightarrow> bool" where
  "pad_ok p \<longleftrightarrow> (\<exists>k \<le> 13. p = 2 ^ k)"

definition dim_ok :: "cam_dimension_t \<Rightarrow> bool" where
  "dim_ok d \<longleftrightarrow> unat (dim_width d) \<le> 8192 \<and> unat (dim_height d) \<le> 8192 \<and> even (unat (dim_width d))"

lemma pad_okD:
  assumes "pad_ok p"
  obtains k where "k \<le> 13" and "p = 2 ^ k" and "unat p = 2 ^ k"
proof -
  obtain k where k: "k \<le> 13" "p = 2 ^ k" using assms by (auto simp: pad_ok_def)
  have "(2 :: nat) ^ k < 2 ^ 32" using k(1) by (intro power_strict_increasing) simp_all
  moreover have "p = of_nat (2 ^ k)" using k(2) by simp
  ultimately have "unat p = 2 ^ k" by (simp only: unat_of_nat) simp
  with k show thesis by (rule that)
qed

lemma side_padded: "n \<le> 8192 \<Longrightarrow> k \<le> 13 \<Longrightarrow> round_up n (2 ^ k) \<le> 8192"
  using round_up_least [of "2 ^ k" 8192 n] le_imp_power_dvd [of k 13 "2 :: nat"] by simp

lemma pad_side:
  assumes "pad_ok p" and "n \<le> 8192"
  shows "PAD_TO_SIZE (of_nat n) p = of_nat (round_up n (unat p))" and "n \<le> round_up n (unat p)"
    and "round_up n (unat p) \<le> 8192"
proof -
  obtain k where k: "k \<le> 13" "p = 2 ^ k" "unat p = 2 ^ k" using assms(1) by (rule pad_okD)
  have "(2 :: nat) ^ k \<le> 2 ^ 13" using k(1) by (intro power_increasing) simp_all
  then have "n + 2 ^ k \<le> 2 ^ 32" using assms(2) by simp
  then show "PAD_TO_SIZE (of_nat n) p = of_nat (round_up n (unat p))" using k by (simp add: pad_of_nat)
  show "n \<le> round_up n (unat p)" "round_up n (unat p) \<le> 8192"
    using k assms(2) by (simp_all add: round_up_ge side_padded)
qed

lemma pad_ok_constants: "pad_ok 2" "pad_ok 8" "pad_ok 16" "pad_ok 32" "pad_ok 64" "pad_ok 4096"
proof -
  show "pad_ok 2" unfolding pad_ok_def by (rule exI [of _ 1]) simp
  show "pad_ok 8" unfolding pad_ok_def by (rule exI [of _ 3]) simp
  show "pad_ok 16" unfolding pad_ok_def by (rule exI [of _ 4]) simp
  show "pad_ok 32" unfolding pad_ok_def by (rule exI [of _ 5]) simp
  show "pad_ok 64" unfolding pad_ok_def by (rule exI [of _ 6]) simp
  show "pad_ok 4096" unfolding pad_ok_def by (rule exI [of _ 12]) simp
qed

lemma unat_of_nat_small: "n < 2 ^ 32 \<Longrightarrow> unat (of_nat n :: u32) = n"
  by (simp add: unsigned_of_nat take_bit_nat_eq_self)

section \<open>Planes\<close>

definition plane_ok :: "cam_mp_len_offset_t \<Rightarrow> bool" where
  "plane_ok p \<longleftrightarrow> unat (mp_width p) \<le> unat (mp_stride p) \<and> unat (mp_height p) \<le> unat (mp_scanline p) \<and>
     unat (mp_stride p) * unat (mp_scanline p) \<le> unat (mp_len p) \<and> mp_offset p = 0"

definition frame_planes :: "cam_frame_len_offset_t \<Rightarrow> cam_mp_len_offset_t list" where
  "frame_planes t = take (unat (num_planes t)) (mp t)"

definition planes_len :: "cam_mp_len_offset_t list \<Rightarrow> nat" where
  "planes_len ps = sum_list (map (\<lambda>p. unat (mp_len p)) ps)"

definition frame_fits :: "cam_frame_len_offset_t \<Rightarrow> bool" where
  "frame_fits t \<longleftrightarrow> list_all plane_ok (frame_planes t) \<and> planes_len (frame_planes t) \<le> unat (frame_len t) \<and>
     4096 dvd unat (frame_len t)"

definition small_plane :: "cam_mp_len_offset_t \<Rightarrow> bool" where
  "small_plane p \<longleftrightarrow> plane_ok p \<and> unat (mp_len p) \<le> 2 ^ 27"

lemma sum_len_nat: "sum_len ps = of_nat (planes_len ps)"
  by (induction ps) (simp_all add: sum_len_def planes_len_def)

lemma set_planes_planes: "length ps \<le> 3 \<Longrightarrow> frame_planes (set_planes ps l t) = ps"
  by (simp add: frame_planes_def set_planes_def unat_of_nat_small)

lemma small_planes_len: "list_all small_plane ps \<Longrightarrow> planes_len ps \<le> length ps * 2 ^ 27"
  by (induction ps) (auto simp: planes_len_def small_plane_def)

lemma padded_frame_fits:
  assumes "list_all small_plane ps" and "length ps \<le> 3" and "unat x \<le> 2 ^ 28"
  shows "frame_fits (set_planes ps (PAD_TO_SIZE (sum_len ps + x) 4096) t)"
proof -
  let ?n = "planes_len ps + unat x"
  have "length ps * 2 ^ 27 \<le> 3 * 2 ^ 27" using assms(2) by (rule mult_le_mono1)
  with small_planes_len [OF assms(1)] assms(3) have n: "?n \<le> 2 ^ 30" by simp
  have "sum_len ps + x = of_nat ?n" by (simp add: sum_len_nat)
  then have "PAD_TO_SIZE (sum_len ps + x) 4096 = of_nat (round_up ?n 4096)"
    using n pad_constants(6) [of ?n] by (simp del: of_nat_add)
  moreover have "round_up ?n 4096 \<le> 2 ^ 30" using n by (intro round_up_least) simp_all
  ultimately have "unat (PAD_TO_SIZE (sum_len ps + x) 4096) = round_up ?n 4096" by (simp add: unat_of_nat_small)
  moreover have "list_all plane_ok ps" using assms(1) by (simp add: list_all_iff small_plane_def)
  ultimately show ?thesis using round_up_ge [of 4096 ?n] assms(2)
    by (simp add: frame_fits_def set_planes_planes round_up_dvd) (simp add: set_planes_def round_up_dvd)
qed

lemma set_planes_4k_fits:
  assumes "list_all small_plane ps" and "length ps \<le> 3"
  shows "frame_fits (set_planes_4k ps t)"
  using padded_frame_fits [OF assms, of 0] by (simp add: set_planes_4k_def)

lemma area_le: "s \<le> 8192 \<Longrightarrow> c \<le> 8192 \<Longrightarrow> s * c \<le> (67108864 :: nat)"
  using mult_le_mono [of s 8192 c 8192] by simp

lemma plane_at_small:
  assumes "w \<le> s" and "h \<le> c" and "s \<le> 8192" and "c \<le> 8192"
  shows "small_plane (plane_at (of_nat s * of_nat c) (of_nat s) (of_nat c) (of_nat w) (of_nat h))"
    and "small_plane (plane_at (PAD_TO_SIZE (of_nat s * of_nat c) 4096) (of_nat s) (of_nat c) (of_nat w) (of_nat h))"
proof -
  note a = area_le [OF assms(3,4)]
  have l: "(of_nat s * of_nat c :: u32) = of_nat (s * c)" by simp
  have r: "round_up (s * c) 4096 \<le> 67108864" using a by (intro round_up_least) simp_all
  show "small_plane (plane_at (of_nat s * of_nat c) (of_nat s) (of_nat c) (of_nat w) (of_nat h))"
    unfolding l using assms a by (simp add: small_plane_def plane_ok_def plane_at_def unat_of_nat_small del: of_nat_mult)
  have "PAD_TO_SIZE (of_nat (s * c)) 4096 = of_nat (round_up (s * c) 4096)" using a by (intro pad_constants) simp
  then show "small_plane (plane_at (PAD_TO_SIZE (of_nat s * of_nat c) 4096) (of_nat s) (of_nat c) (of_nat w) (of_nat h))"
    unfolding l using assms r round_up_ge [of 4096 "s * c"]
    by (simp add: small_plane_def plane_ok_def plane_at_def unat_of_nat_small del: of_nat_mult)
qed

lemma dim_okD:
  assumes "dim_ok d"
  obtains w h where "d = \<lparr>dim_width = of_nat w, dim_height = of_nat h\<rparr>" and "w \<le> 8192" and "h \<le> 8192" and "even w"
proof -
  have "d = \<lparr>dim_width = of_nat (unat (dim_width d)), dim_height = of_nat (unat (dim_height d))\<rparr>" by (cases d) simp
  with assms that show thesis unfolding dim_ok_def by blast
qed

lemma yuv420sp_small:
  assumes "dim_ok d" and "pad_ok a" and "pad_ok b"
  shows "list_all small_plane (yuv420sp_planes a b d)"
  using assms(1)
proof (rule dim_okD)
  fix w h assume d: "d = \<lparr>dim_width = of_nat w, dim_height = of_nat h\<rparr>" "w \<le> 8192" "h \<le> 8192"
  moreover have "h div 2 \<le> 8192" using d(3) by simp
  ultimately show ?thesis
    using pad_side [OF assms(2), of w] pad_side [OF assms(3), of h] pad_side [OF assms(3), of "h div 2"]
    by (simp add: yuv420sp_planes_def Let_def i32_halves plane_at_small)
qed

lemma adreno_small:
  assumes "dim_ok d"
  shows "list_all small_plane (adreno_planes d)"
  using assms
proof (rule dim_okD)
  fix w h assume d: "d = \<lparr>dim_width = of_nat w, dim_height = of_nat h\<rparr>" "w \<le> 8192" "h \<le> 8192" "even w"
  let ?s = "round_up (w div 2) 32"
  have s: "w div 2 \<le> ?s" "?s \<le> 4096" using d(2) round_up_ge [of 32 "w div 2"] round_up_least [of 32 4096 "w div 2"] by simp_all
  then have "w \<le> ?s * 2" "?s * 2 \<le> 8192" using d(4) by (auto elim: evenE)
  moreover have "PAD_TO_SIZE (of_nat (w div 2)) 32 * 2 = of_nat (?s * 2)" using d(2) by (simp add: pad_constants)
  moreover have "h div 2 \<le> 8192" using d(3) by simp
  ultimately show ?thesis
    using d pad_side [OF pad_ok_constants(4), of w] pad_side [OF pad_ok_constants(4), of h]
      pad_side [OF pad_ok_constants(4), of "h div 2"]
    by (simp add: adreno_planes_def Let_def i32_halves plane_at_small del: of_nat_mult)
qed

lemma yv12_sizes:
  assumes "w \<le> s" and "s \<le> (8192 :: nat)"
  shows "w div 2 \<le> round_up (s div 2) 16" and "round_up (s div 2) 16 \<le> 8192"
proof -
  have "w div 2 \<le> s div 2" "s div 2 \<le> 8192" using assms by linarith+
  then show "w div 2 \<le> round_up (s div 2) 16" "round_up (s div 2) 16 \<le> 8192"
    using round_up_ge [of 16 "s div 2"] round_up_least [of 16 8192 "s div 2"] by auto
qed

lemma yv12_small:
  assumes "dim_ok d"
  shows "list_all small_plane (yv12_planes d)"
  using assms
proof (rule dim_okD)
  fix w h assume d: "d = \<lparr>dim_width = of_nat w, dim_height = of_nat h\<rparr>" "w \<le> 8192" "h \<le> 8192"
  let ?s = "round_up w 16" and ?c = "round_up h 2"
  have s: "w \<le> ?s" "?s \<le> 8192" "h \<le> ?c" "?c \<le> 8192"
    using pad_side [OF pad_ok_constants(3) d(2)] pad_side [OF pad_ok_constants(1) d(3)] by simp_all
  then have "h div 2 \<le> ?c div 2" "?c div 2 \<le> 8192" by linarith+
  then show ?thesis using d s yv12_sizes [OF s(1,2)]
    by (simp add: yv12_planes_def Let_def i32_halves pad_constants plane_at_small)
qed

lemma yuv422_small:
  assumes "dim_ok d"
  shows "list_all small_plane (yuv422_planes d)"
  using assms
proof (rule dim_okD)
  fix w h assume d: "d = \<lparr>dim_width = of_nat w, dim_height = of_nat h\<rparr>" "w \<le> 8192" "h \<le> 8192"
  then show ?thesis using pad_side [OF pad_ok_constants(3) d(2)]
    by (simp add: yuv422_planes_def Let_def plane_at_small)
qed

lemma planes_lengths [simp]:
  "length (yuv420sp_planes a b d) = 2" "length (adreno_planes d) = 2" "length (yv12_planes d) = 3"
  "length (yuv422_planes d) = 2"
  by (simp_all add: yuv420sp_planes_def adreno_planes_def yv12_planes_def yuv422_planes_def Let_def)

section \<open>Snapshots\<close>

lemma snapshot_plane_small:
  assumes "pad_ok (plane_padding pad)" and "w \<le> s" and "h \<le> c" and "s \<le> 8192" and "c \<le> 8192"
  shows "small_plane (snapshot_plane pad 0 (of_nat s) (of_nat c) (of_nat w) (of_nat h))"
  using assms(1)
proof (rule pad_okD)
  fix k assume k: "k \<le> 13" "plane_padding pad = 2 ^ k"
  note a = area_le [OF assms(4,5)]
  have k13: "(2 :: nat) ^ k \<le> 2 ^ 13" using k(1) by (intro power_increasing) simp_all
  have l: "(of_nat s * of_nat c :: u32) = of_nat (s * c)" by simp
  have "(2 :: nat) ^ k dvd 2 ^ 26" using k(1) by (intro le_imp_power_dvd) simp
  then have r: "round_up (s * c) (2 ^ k) \<le> 2 ^ 26" using a by (intro round_up_least) simp_all
  have "PAD_TO_SIZE (of_nat (s * c)) (2 ^ k) = of_nat (round_up (s * c) (2 ^ k))" using a k13 by (intro pad_of_nat) simp
  moreover have "PAD_TO_SIZE 0 (2 ^ k) = 0"
    using pad_of_nat [of 0 k] k13 by (simp add: round_up_def)
  ultimately show ?thesis
    unfolding snapshot_plane_def l using assms k(2) r round_up_ge [of "2 ^ k" "s * c"]
    by (simp add: small_plane_def plane_ok_def unat_of_nat_small del: of_nat_mult)
qed

text \<open>The three snapshot layouts on a chip that does not pad twice.\<close>

lemma snapshot_planes_small:
  assumes "dim_ok d" and "pad_ok (width_padding pad)" and "pad_ok (height_padding pad)" and "pad_ok (plane_padding pad)"
  shows "list_all small_plane (snapshot_planes_420sp (snapshot_frame_of False d pad) d pad)"
    and "list_all small_plane (snapshot_planes_yv12 (snapshot_frame_of False d pad) d pad)"
    and "list_all small_plane (snapshot_planes_422 (snapshot_frame_of False d pad) d pad)"
proof -
  obtain w h where d: "d = \<lparr>dim_width = of_nat w, dim_height = of_nat h\<rparr>" "w \<le> 8192" "h \<le> 8192"
    using assms(1) by (rule dim_okD)
  let ?s = "round_up w (unat (width_padding pad))" and ?c = "round_up h (unat (height_padding pad))"
  have f: "snapshot_frame_of False d pad = \<lparr>sf_stride = of_nat ?s, sf_scanline = of_nat ?c, sf_offset_y = 0\<rparr>"
    using d pad_side(1) [OF assms(2) d(2)] pad_side(1) [OF assms(3) d(3)] by (simp add: snapshot_frame_of_def)
  have s: "w \<le> ?s" "?s \<le> 8192" "h \<le> ?c" "?c \<le> 8192"
    using pad_side [OF assms(2) d(2)] pad_side [OF assms(3) d(3)] by simp_all
  then have "h div 2 \<le> ?c div 2" "?c div 2 \<le> 8192" by linarith+
  then show "list_all small_plane (snapshot_planes_420sp (snapshot_frame_of False d pad) d pad)"
    "list_all small_plane (snapshot_planes_yv12 (snapshot_frame_of False d pad) d pad)"
    "list_all small_plane (snapshot_planes_422 (snapshot_frame_of False d pad) d pad)"
    unfolding f using d s yv12_sizes [OF s(1,2)] snapshot_plane_small [OF assms(4)]
    by (simp_all add: snapshot_planes_420sp_def snapshot_planes_yv12_def snapshot_planes_422_def Let_def i32_halves
        pad_constants)
qed

lemma snapshot_lengths [simp]:
  "length (snapshot_planes_420sp s d pad) = 2" "length (snapshot_planes_yv12 s d pad) = 3"
  "length (snapshot_planes_422 s d pad) = 2"
  by (simp_all add: snapshot_planes_420sp_def snapshot_planes_yv12_def snapshot_planes_422_def Let_def)

section \<open>Raw frames\<close>

text \<open>The pixels of a group and the bytes it takes, for the formats a raw stream accepts.\<close>

definition raw_packing :: "cam_format_t \<Rightarrow> (nat \<times> nat) option" where
  "raw_packing f = (case f of
     CAM_FORMAT_YUV_RAW_8BIT_YUYV \<Rightarrow> Some (1, 2)
   | CAM_FORMAT_YUV_RAW_8BIT_YVYU \<Rightarrow> Some (1, 2)
   | CAM_FORMAT_YUV_RAW_8BIT_UYVY \<Rightarrow> Some (1, 2)
   | CAM_FORMAT_YUV_RAW_8BIT_VYUY \<Rightarrow> Some (1, 2)
   | CAM_FORMAT_JPEG_RAW_8BIT \<Rightarrow> Some (1, 1)
   | CAM_FORMAT_META_RAW_8BIT \<Rightarrow> Some (1, 1)
   | CAM_FORMAT_BAYER_QCOM_RAW_8BPP _ \<Rightarrow> Some (1, 1)
   | CAM_FORMAT_BAYER_MIPI_RAW_8BPP _ \<Rightarrow> Some (1, 1)
   | CAM_FORMAT_BAYER_IDEAL_RAW_QCOM_8BPP _ \<Rightarrow> Some (1, 1)
   | CAM_FORMAT_BAYER_IDEAL_RAW_MIPI_8BPP _ \<Rightarrow> Some (1, 1)
   | CAM_FORMAT_BAYER_IDEAL_RAW_PLAIN8_8BPP _ \<Rightarrow> Some (1, 1)
   | CAM_FORMAT_BAYER_QCOM_RAW_10BPP _ \<Rightarrow> Some (6, 8)
   | CAM_FORMAT_BAYER_IDEAL_RAW_QCOM_10BPP _ \<Rightarrow> Some (6, 8)
   | CAM_FORMAT_BAYER_QCOM_RAW_12BPP _ \<Rightarrow> Some (5, 8)
   | CAM_FORMAT_BAYER_IDEAL_RAW_QCOM_12BPP _ \<Rightarrow> Some (5, 8)
   | CAM_FORMAT_BAYER_MIPI_RAW_10BPP _ \<Rightarrow> Some (4, 5)
   | CAM_FORMAT_BAYER_IDEAL_RAW_MIPI_10BPP _ \<Rightarrow> Some (4, 5)
   | CAM_FORMAT_BAYER_MIPI_RAW_12BPP _ \<Rightarrow> Some (2, 3)
   | CAM_FORMAT_BAYER_IDEAL_RAW_MIPI_12BPP _ \<Rightarrow> Some (2, 3)
   | CAM_FORMAT_BAYER_IDEAL_RAW_PLAIN16_8BPP _ \<Rightarrow> Some (1, 2)
   | CAM_FORMAT_BAYER_IDEAL_RAW_PLAIN16_10BPP _ \<Rightarrow> Some (1, 2)
   | CAM_FORMAT_BAYER_IDEAL_RAW_PLAIN16_12BPP _ \<Rightarrow> Some (1, 2)
   | _ \<Rightarrow> None)"

definition raw_fits :: "cam_format_t \<Rightarrow> nat \<Rightarrow> nat \<Rightarrow> cam_frame_len_offset_t \<Rightarrow> bool" where
  "raw_fits f w h t = (case raw_packing f of
     None \<Rightarrow> False
   | Some (px, bytes) \<Rightarrow> w * h * bytes \<le> unat (mp_len (mp t ! 0)) * px \<and>
       unat (mp_len (mp t ! 0)) \<le> unat (frame_len t) \<and> 4096 dvd unat (frame_len t))"

lemma raw_layout_len:
  assumes "pad_ok (plane_padding pad)" and "n \<le> 2 ^ 28"
  shows "n \<le> unat (mp_len (mp (raw_layout s c (of_nat n) pad t) ! 0)) \<and>
    unat (mp_len (mp (raw_layout s c (of_nat n) pad t) ! 0)) \<le> unat (frame_len (raw_layout s c (of_nat n) pad t)) \<and>
    4096 dvd unat (frame_len (raw_layout s c (of_nat n) pad t))"
  using assms(1)
proof (rule pad_okD)
  fix k assume k: "k \<le> 13" "plane_padding pad = 2 ^ k"
  have k13: "(2 :: nat) ^ k \<le> 2 ^ 13" using k(1) by (intro power_increasing) simp_all
  let ?m = "round_up n (2 ^ k)"
  have "(2 :: nat) ^ k dvd 2 ^ 28" using k(1) by (intro le_imp_power_dvd) simp
  then have m: "?m \<le> 2 ^ 28" "n \<le> ?m" using assms(2) by (simp_all add: round_up_least round_up_ge)
  have f: "round_up ?m 4096 \<le> 2 ^ 28" "?m \<le> round_up ?m 4096" using m(1) by (simp_all add: round_up_least round_up_ge)
  have "PAD_TO_SIZE (of_nat n) (2 ^ k) = of_nat ?m" using assms(2) k13 by (intro pad_of_nat) simp
  moreover have "PAD_TO_SIZE (of_nat ?m) 4096 = of_nat (round_up ?m 4096)" using m(1) by (intro pad_constants) simp
  ultimately show ?thesis
    using m f k(2) by (simp add: raw_layout_def set_planes_4k_def set_planes_def plane_at_def sum_len_def
        unat_of_nat_small round_up_dvd Let_def)
qed

lemma area14_le: "s \<le> 16384 \<Longrightarrow> c \<le> 8192 \<Longrightarrow> s * c \<le> (134217728 :: nat)"
  using mult_le_mono [of s 16384 c 8192] by simp

lemma raw_fitsI:
  assumes "pad_ok (plane_padding pad)" and "raw_packing f = Some (px, bytes)" and "n \<le> 2 ^ 28"
    and "w * h * bytes \<le> n * px"
  shows "raw_fits f w h (raw_layout s c (of_nat n) pad t)"
proof -
  note r = raw_layout_len [OF assms(1,3), of s c t]
  then have "w * h * bytes \<le> unat (mp_len (mp (raw_layout s c (of_nat n) pad t) ! 0)) * px"
    using assms(4) by (meson mult_le_mono1 order_trans)
  then show ?thesis using r assms(2) by (simp add: raw_fits_def)
qed

text \<open>The sizes of the seven kinds of layout, in bytes, are at least those of the image.\<close>

lemma grouped_stride:
  assumes "0 < (k :: nat)"
  shows "w \<le> (w + (k - 1)) div k * k" and "(w + (k - 1)) div k * k \<le> w + (k - 1)"
  using assms round_up_ge [of k w] by (simp_all add: round_up_def)

lemma exact_size:
  assumes "w \<le> s" and "d dvd s * k" and "0 < d"
  shows "w * h * k \<le> s * h * k div d * (d :: nat)"
proof -
  have "d dvd s * h * k" using assms(2) by (metis dvd_mult dvd_mult2 mult.assoc mult.commute)
  then have "s * h * k div d * d = s * h * k" by simp
  then show ?thesis using assms(1) by (simp add: mult_le_mono1)
qed

lemma raw_sizes:
  fixes w h :: nat
  assumes "w \<le> 8192" and "h \<le> 8192"
  shows "round_up w 16 * h * 2 \<le> 2 ^ 28" and "w * h \<le> round_up w 16 * h"
    and "(w + 11) div 12 * 12 * h * 8 \<le> 2 ^ 30" and "w * h * 8 \<le> (w + 11) div 12 * 12 * h * 8 div 6 * 6"
    and "(w + 9) div 10 * 10 * h * 8 \<le> 2 ^ 30" and "w * h * 8 \<le> (w + 9) div 10 * 10 * h * 8 div 5 * 5"
    and "round_up (w * 5 div 4) 8 * h \<le> 2 ^ 28" and "4 dvd w \<Longrightarrow> w * h * 5 \<le> round_up (w * 5 div 4) 8 * h * 4"
    and "round_up w 32 * h * 3 \<le> 2 ^ 28" and "w * h * 3 \<le> round_up w 32 * h * 3 div 2 * 2"
    and "round_up w 8 * h * 2 \<le> 2 ^ 28" and "w * h \<le> round_up w 8 * h"
proof -
  have r: "w \<le> round_up w 16" "round_up w 16 \<le> 8192" "w \<le> round_up w 32" "round_up w 32 \<le> 8192"
    "w \<le> round_up w 8" "round_up w 8 \<le> 8192"
    using assms(1) by (simp_all add: round_up_ge round_up_least)
  note a = area_le [OF r(2) assms(2)] area_le [OF r(4) assms(2)] area_le [OF r(6) assms(2)]
  show "round_up w 16 * h * 2 \<le> 2 ^ 28" by (rule order_trans [OF mult_le_mono1 [OF a(1)]]) simp
  show "round_up w 32 * h * 3 \<le> 2 ^ 28" by (rule order_trans [OF mult_le_mono1 [OF a(2)]]) simp
  show "round_up w 8 * h * 2 \<le> 2 ^ 28" by (rule order_trans [OF mult_le_mono1 [OF a(3)]]) simp
  show "w * h \<le> round_up w 16 * h" "w * h \<le> round_up w 8 * h" using r by (simp_all add: mult_le_mono1)
  have s: "w \<le> (w + 11) div 12 * 12" "(w + 11) div 12 * 12 \<le> 16384" "w \<le> (w + 9) div 10 * 10" "(w + 9) div 10 * 10 \<le> 16384"
    using grouped_stride [of 12 w] grouped_stride [of 10 w] assms(1) by simp_all
  note b = area14_le [OF s(2) assms(2)] area14_le [OF s(4) assms(2)]
  show "(w + 11) div 12 * 12 * h * 8 \<le> 2 ^ 30" by (rule order_trans [OF mult_le_mono1 [OF b(1)]]) simp
  show "(w + 9) div 10 * 10 * h * 8 \<le> 2 ^ 30" by (rule order_trans [OF mult_le_mono1 [OF b(2)]]) simp
  show "w * h * 8 \<le> (w + 11) div 12 * 12 * h * 8 div 6 * 6" "w * h * 8 \<le> (w + 9) div 10 * 10 * h * 8 div 5 * 5"
    using s by (intro exact_size; simp)+
  have "2 dvd round_up w 32 * 3" by (simp add: round_up_def)
  with r(3) show "w * h * 3 \<le> round_up w 32 * h * 3 div 2 * 2" by (intro exact_size) simp_all
  have m: "w * 5 div 4 \<le> round_up (w * 5 div 4) 8" "round_up (w * 5 div 4) 8 \<le> 10240"
    using assms(1) by (auto intro: round_up_ge round_up_least)
  have "round_up (w * 5 div 4) 8 \<le> 16384" using m(2) by simp
  from area14_le [OF this assms(2)] show "round_up (w * 5 div 4) 8 * h \<le> 2 ^ 28" by simp
  show "w * h * 5 \<le> round_up (w * 5 div 4) 8 * h * 4" if "4 dvd w"
  proof -
    have "w * 5 = w * 5 div 4 * 4" using that by simp
    then have "w * 5 \<le> round_up (w * 5 div 4) 8 * 4" using m(1) by linarith
    from mult_le_mono1 [OF this, of h] show ?thesis by (simp add: algebra_simps)
  qed
qed

text \<open>The seven kinds in of-nat form.\<close>

lemma raw_words:
  fixes w h :: nat
  assumes "w \<le> 8192" and "h \<le> 8192"
  defines "W \<equiv> of_nat w :: u32" and "H \<equiv> of_nat h :: u32"
  shows "PAD_TO_SIZE W 16 * H * 2 = of_nat (round_up w 16 * h * 2)"
    and "PAD_TO_SIZE W 16 * H = of_nat (round_up w 16 * h)"
    and "i32_div (i32_div (W + 11) 12 * 12 * H * 8) 6 = of_nat ((w + 11) div 12 * 12 * h * 8 div 6)"
    and "i32_div (i32_div (W + 9) 10 * 10 * H * 8) 5 = of_nat ((w + 9) div 10 * 10 * h * 8 div 5)"
    and "PAD_TO_SIZE (i32_div (W * 5) 4) 8 * H = of_nat (round_up (w * 5 div 4) 8 * h)"
    and "i32_div (PAD_TO_SIZE W 32 * H * 3) 2 = of_nat (round_up w 32 * h * 3 div 2)"
    and "PAD_TO_SIZE W 8 * H * 2 = of_nat (round_up w 8 * h * 2)"
proof -
  note z = raw_sizes [OF assms(1,2)]
  show "PAD_TO_SIZE W 16 * H * 2 = of_nat (round_up w 16 * h * 2)" "PAD_TO_SIZE W 16 * H = of_nat (round_up w 16 * h)"
    "PAD_TO_SIZE W 8 * H * 2 = of_nat (round_up w 8 * h * 2)"
    using assms(1) by (simp_all add: W_def H_def pad_constants)
  have "i32_div (of_nat (w + 11)) (int 12) = of_nat ((w + 11) div 12)" using assms(1) by (intro i32_div_of_nat) simp_all
  then have "i32_div (W + 11) 12 * 12 * H * 8 = of_nat ((w + 11) div 12 * 12 * h * 8)" by (simp add: W_def H_def)
  then show "i32_div (i32_div (W + 11) 12 * 12 * H * 8) 6 = of_nat ((w + 11) div 12 * 12 * h * 8 div 6)"
    using i32_div_of_nat [of "(w + 11) div 12 * 12 * h * 8" 6] z(3) by simp
  have "i32_div (of_nat (w + 9)) (int 10) = of_nat ((w + 9) div 10)" using assms(1) by (intro i32_div_of_nat) simp_all
  then have "i32_div (W + 9) 10 * 10 * H * 8 = of_nat ((w + 9) div 10 * 10 * h * 8)" by (simp add: W_def H_def)
  then show "i32_div (i32_div (W + 9) 10 * 10 * H * 8) 5 = of_nat ((w + 9) div 10 * 10 * h * 8 div 5)"
    using i32_div_of_nat [of "(w + 9) div 10 * 10 * h * 8" 5] z(5) by simp
  have "i32_div (of_nat (w * 5)) (int 4) = of_nat (w * 5 div 4)" using assms(1) by (intro i32_div_of_nat) simp_all
  then show "PAD_TO_SIZE (i32_div (W * 5) 4) 8 * H = of_nat (round_up (w * 5 div 4) 8 * h)"
    using assms(1) by (simp add: W_def H_def pad_constants)
  have "PAD_TO_SIZE W 32 * H * 3 = of_nat (round_up w 32 * h * 3)" using assms(1) by (simp add: W_def H_def pad_constants)
  then show "i32_div (PAD_TO_SIZE W 32 * H * 3) 2 = of_nat (round_up w 32 * h * 3 div 2)"
    using i32_div_of_nat [of "round_up w 32 * h * 3" 2] z(9) by simp
qed

section \<open>The properties\<close>

text \<open>
  \<open>PAD_TO_SIZE\<close>, an addition and a mask, is rounding up to the next multiple when the padding
  is a power of two and the sum does not wrap.
\<close>

theorem pad_rounds_up:
  assumes "unat p = 2 ^ k" and "unat n + unat p \<le> 2 ^ 32"
  shows "unat (PAD_TO_SIZE n p) = (unat n + (unat p - 1)) div unat p * unat p"
proof -
  have "p = of_nat (unat p)" by simp
  then have p: "p = 2 ^ k" by (simp only: assms(1) of_nat_power of_nat_numeral)
  have n: "n = of_nat (unat n)" by simp
  have "round_up (unat n) (2 ^ k) \<le> unat n + (2 ^ k - 1)" by (simp add: round_up_def)
  also have "\<dots> < 2 ^ 32" using assms by (simp add: less_le_trans [of _ "unat n + 2 ^ k"])
  finally have r: "round_up (unat n) (2 ^ k) < 2 ^ 32" .
  have "PAD_TO_SIZE n p = of_nat (round_up (unat n) (2 ^ k))"
    using assms pad_of_nat [of "unat n" k] p by simp
  with r have "unat (PAD_TO_SIZE n p) = round_up (unat n) (2 ^ k)" by (simp add: unat_of_nat_small)
  then show ?thesis by (simp only: assms(1) round_up_def)
qed

theorem pad_rounds_up_witness: "unat (PAD_TO_SIZE 1080 32) = 1088"
  using pad_rounds_up [of 32 5 1080] by simp

lemma yuv_layout_fits:
  assumes "ty \<in> {CAM_STREAM_TYPE_PREVIEW, CAM_STREAM_TYPE_POSTVIEW, CAM_STREAM_TYPE_SNAPSHOT}"
    and "dim_ok d" and "pad_ok (width_padding pad)" and "pad_ok (height_padding pad)" and "pad_ok (plane_padding pad)"
    and "unat (tp_meta_max_size info) \<le> 2 ^ 28" and "si_fmt info \<noteq> CAM_FORMAT_YUV_420_NV12_VENUS"
    and "calc_offset_of_type venus False ty info d pad t = Some t'"
  shows "frame_fits t'"
proof -
  note small = yuv420sp_small [OF assms(2)] adreno_small [OF assms(2)] yv12_small [OF assms(2)] yuv422_small [OF assms(2)]
    snapshot_planes_small [OF assms(2-5)] pad_ok_constants assms(3,4)
  have tp: "frame_fits (snapshot_420sp_layout info ps t)" if "list_all small_plane ps" "length ps \<le> 3" for ps t
    using padded_frame_fits [OF that assms(6)] set_planes_4k_fits [OF that] by (simp add: snapshot_420sp_layout_def)
  consider "ty = CAM_STREAM_TYPE_PREVIEW" | "ty = CAM_STREAM_TYPE_POSTVIEW" | "ty = CAM_STREAM_TYPE_SNAPSHOT"
    using assms(1) by auto
  then show ?thesis
  proof cases
    case 1
    have "pred_option frame_fits (mm_stream_calc_offset_preview venus info d pad t)"
      using assms(7) by (cases "si_fmt info") (simp_all add: mm_stream_calc_offset_preview_def set_planes_4k_fits small)
    then show ?thesis using 1 assms(8) by (simp add: calc_offset_of_type_def)
  next
    case 2
    have "pred_option frame_fits (mm_stream_calc_offset_post_view venus (si_fmt info) d t)"
      using assms(7) by (cases "si_fmt info") (simp_all add: mm_stream_calc_offset_post_view_def set_planes_4k_fits small)
    then show ?thesis using 2 assms(8) by (simp add: calc_offset_of_type_def)
  next
    case 3
    have "pred_option frame_fits (mm_stream_calc_offset_snapshot False info d pad t)"
      by (cases "si_fmt info") (simp_all add: mm_stream_calc_offset_snapshot_def Let_def set_planes_4k_fits tp small)
    then show ?thesis using 3 assms(8) by (simp add: calc_offset_of_type_def)
  qed
qed



lemma raw_layout_fits:
  assumes "w \<le> 8192" and "h \<le> 8192" and "4 dvd w" and "pad_ok (plane_padding pad)"
    and "mm_stream_calc_offset_raw f \<lparr>dim_width = of_nat w, dim_height = of_nat h\<rparr> pad t = Some t'"
  shows "raw_fits f w h t'"
proof -
  note z = raw_sizes [OF assms(1,2)] and e = raw_words [OF assms(1,2)] and fit = raw_fitsI [OF assms(4)]
  have c: "(w + 11) div 12 * 12 * h * 8 div 6 \<le> 2 ^ 28"
    "(w + 9) div 10 * 10 * h * 8 div 5 \<le> 2 ^ 28" "round_up w 32 * h * 3 div 2 \<le> 2 ^ 28"
    using z(1,3,5,9) by simp_all
  have b: "round_up w 16 * h \<le> 2 ^ 28" using z(1) by (rule order_trans [rotated]) simp
  have m: "w * h * 2 \<le> round_up w 16 * h * 2 * 1" "w * h * 1 \<le> round_up w 16 * h * 2 * 1"
    "w * h * 1 \<le> round_up w 16 * h * 1" "w * h * 2 \<le> round_up w 8 * h * 2 * 1"
    using z(2,12) by linarith+
  let ?W = "of_nat w :: u32" and ?H = "of_nat h :: u32" and ?fits = "\<lambda>g s sz. raw_fits g w h (raw_layout s (of_nat h) sz pad t)"
  have 1: "raw_packing g = Some (1, 2) \<Longrightarrow> ?fits g s (PAD_TO_SIZE ?W 16 * ?H * 2)" for g s
    unfolding e(1) by (rule fit [OF _ z(1) m(1)])
  have 2: "raw_packing g = Some (1, 1) \<Longrightarrow> ?fits g s (PAD_TO_SIZE ?W 16 * ?H * 2)" for g s
    unfolding e(1) by (rule fit [OF _ z(1) m(2)])
  have 3: "raw_packing g = Some (1, 1) \<Longrightarrow> ?fits g s (PAD_TO_SIZE ?W 16 * ?H)" for g s
    unfolding e(2) by (rule fit [OF _ b m(3)])
  have 4: "raw_packing g = Some (6, 8) \<Longrightarrow> ?fits g s (i32_div (i32_div (?W + 11) 12 * 12 * ?H * 8) 6)" for g s
    unfolding e(3) by (rule fit [OF _ c(1) z(4)])
  have 5: "raw_packing g = Some (5, 8) \<Longrightarrow> ?fits g s (i32_div (i32_div (?W + 9) 10 * 10 * ?H * 8) 5)" for g s
    unfolding e(4) by (rule fit [OF _ c(2) z(6)])
  have 6: "raw_packing g = Some (4, 5) \<Longrightarrow> ?fits g s (PAD_TO_SIZE (i32_div (?W * 5) 4) 8 * ?H)" for g s
    unfolding e(5) by (rule fit [OF _ z(7) z(8) [OF assms(3)]])
  have 7: "raw_packing g = Some (2, 3) \<Longrightarrow> ?fits g s (i32_div (PAD_TO_SIZE ?W 32 * ?H * 3) 2)" for g s
    unfolding e(6) by (rule fit [OF _ c(3) z(10)])
  have 8: "raw_packing g = Some (1, 2) \<Longrightarrow> ?fits g s (PAD_TO_SIZE ?W 8 * ?H * 2)" for g s
    unfolding e(7) by (rule fit [OF _ z(11) m(4)])
  note fits = 1 2 3 6 7 8 4 [simplified] 5 [simplified]
  have "pred_option (raw_fits f w h) (mm_stream_calc_offset_raw f \<lparr>dim_width = ?W, dim_height = ?H\<rparr> pad t)"
    by (cases f) (simp_all add: mm_stream_calc_offset_raw_def Let_def raw_packing_def fits del: of_nat_mult of_nat_add)
  then show ?thesis using assms(5) by simp
qed

text \<open>
  For a raw stream with sides up to 8192 and a width that is a multiple of four, the plane of a
  successful layout is large enough for the packed pixels of its format, and the frame, of whole pages, for the
  plane; nothing wraps around.
\<close>

theorem raw_frame_fits:
  assumes "si_type (stream_info s) = CAM_STREAM_TYPE_RAW"
    and "unat (dim_width (rotated_dim (stream_info s))) = w" and "unat (dim_height (rotated_dim (stream_info s))) = h"
    and "w \<le> 8192" and "h \<le> 8192" and "4 dvd w" and "pad_ok (plane_padding (padding_info s))"
    and "mm_stream_calc_offset venus a_family s = (True, s')"
  shows "raw_fits (si_fmt (stream_info s)) w h (frame_offset s')"
proof -
  have "d = \<lparr>dim_width = of_nat (unat (dim_width d)), dim_height = of_nat (unat (dim_height d))\<rparr>" for d :: cam_dimension_t
    by (cases d) simp
  then have d: "rotated_dim (stream_info s) = \<lparr>dim_width = of_nat w, dim_height = of_nat h\<rparr>"
    unfolding assms(2,3) [symmetric] .
  have "mm_stream_calc_offset_raw (si_fmt (stream_info s)) (rotated_dim (stream_info s)) (padding_info s)
      (buf_planes (stream_info s)) = Some (frame_offset s')"
    using assms(1,8) by (auto simp: mm_stream_calc_offset_def calc_offset_of_type_def Let_def split: if_splits)
  then show ?thesis unfolding d by (rule raw_layout_fits [OF assms(4-7)])
qed

theorem raw_frame_fits_witness:
  "raw_fits (CAM_FORMAT_BAYER_MIPI_RAW_10BPP BGGR) 4208 3120 (frame_offset (snd (mm_stream_calc_offset None False
     (demo_layout CAM_STREAM_TYPE_RAW (CAM_FORMAT_BAYER_MIPI_RAW_10BPP BGGR) (demo_dim 4208 3120)))))"
proof -
  let ?s = "demo_layout CAM_STREAM_TYPE_RAW (CAM_FORMAT_BAYER_MIPI_RAW_10BPP BGGR) (demo_dim 4208 3120)"
  have "mm_stream_calc_offset None False ?s = (True, snd (mm_stream_calc_offset None False ?s))"
    by (simp add: mm_stream_calc_offset_def demo_layout_def calc_offset_of_type_def mm_stream_calc_offset_raw_def Let_def)
  from raw_frame_fits [OF _ _ _ _ _ _ _ this, of 4208 3120] show ?thesis
    using pad_ok_constants by (simp add: demo_layout_def rotated_dim_def demo_dim_def)
qed

text \<open>
  The 10-bit MIPI layout pads its scanlines to 8 bytes, although the format's comment
  asks for 16: at a width of 2592 pixels a scanline takes 3240 bytes.
\<close>

theorem raw_scanline_unaligned:
  "mm_stream_calc_offset_raw (CAM_FORMAT_BAYER_MIPI_RAW_10BPP order) (demo_dim 2592 h) pad t =
     Some (raw_layout 3240 h (3240 * h) pad t) \<and> \<not> 16 dvd (3240 :: nat)"
  by (simp add: mm_stream_calc_offset_raw_def demo_dim_def Let_def i32_div_def PAD_TO_SIZE_def)

text \<open>
  Without Venus a video layout leaves the width and height of the second plane as
  they were and gives the first plane half its height.
\<close>

theorem video_second_plane_unset:
  "mp_height (mp (mm_stream_calc_offset_video None d t) ! 0) = i32_div (dim_height d) 2 \<and>
   mp_width (mp (mm_stream_calc_offset_video None d t) ! 1) = mp_width (mp t ! 1) \<and>
   mp_height (mp (mm_stream_calc_offset_video None d t) ! 1) = mp_height (mp t ! 1)"
  by (simp add: mm_stream_calc_offset_video_def video_layout_def Let_def set_planes_4k_def set_planes_def plane_at_def)

end
