(* ===== verification/MmStream.thy ===== *)
theory MmStream
  imports MmPlanes MmSuperbuf
begin

text \<open>
  The stream object of camera/QCamera2/stack/mm-camera-interface/src/mm_camera_stream.c: its state machine, the
  registration of its buffers with the kernel, the reference counts that decide when a buffer goes back, and the
  path of a frame from the kernel to the channel and to the callbacks.

  The answers of the kernel, of the camera server and of the memory operations supplied by the client are a record
  \<open>stream_env\<close>, given to each step. \<open>kernel_bufs\<close> are the buffers the driver owns by the V4L2 rules (queued by a
  successful QBUF, taken out by DQBUF, all released by STREAMOFF); the code does not see it. Logs stand for what a
  stream hands on: \<open>ch_posts\<close> and \<open>linked_posts\<close> for the commands posted to its channel and to the channel it is
  linked to, \<open>app_queue\<close> for the frames its own command thread has yet to dispatch, \<open>app_calls\<close> for the callbacks made.
\<close>

section \<open>The stream object\<close>

datatype mm_stream_state_type_t =
    MM_STREAM_STATE_NOTUSED
  | MM_STREAM_STATE_INITED
  | MM_STREAM_STATE_ACQUIRED
  | MM_STREAM_STATE_CFG
  | MM_STREAM_STATE_BUFFED
  | MM_STREAM_STATE_REG
  | MM_STREAM_STATE_ACTIVE

record mm_stream_buf_status_t =
  buf_refcnt :: u8
  initial_reg_flag :: bool
  in_kernel :: bool

text \<open>A registered callback is its count: below zero it is called for ever.\<close>

record mm_stream_t = mm_stream_layout +
  st_hdl :: u32
  st_server_id :: u32
  st_fd :: int
  st_state :: mm_stream_state_type_t
  cmd_active :: bool
  buf_cb :: "int option list"
  buf_num :: u8
  st_buf :: "mm_camera_buf_def_t list option"
  buf_status :: "mm_stream_buf_status_t list option"
  is_bundled :: bool
  is_linked :: bool
  queued_buffer_count :: u8
  preview_skip :: u8
  polled :: bool
  kernel_bufs :: "nat set"
  ch_posts :: "mm_camera_buf_info_t list"
  linked_posts :: "mm_camera_buf_info_t list"
  app_queue :: "mm_camera_buf_info_t list"
  app_calls :: "(nat \<times> nat) list"

definition MM_CAMERA_STREAM_BUF_CB_MAX :: nat where
  "MM_CAMERA_STREAM_BUF_CB_MAX = 4"

definition MM_CAMERA_MAX_NUM_FRAMES :: u8 where
  "MM_CAMERA_MAX_NUM_FRAMES = 24"

text \<open>
  The answers of a step. A negative number is a failure; \<open>e_get_bufs\<close> gives the buffers and which of them go to
  the kernel at once, or an error code; \<open>e_alloc\<close> tells whether memory is left; \<open>e_invalidate\<close> and \<open>e_clean\<close> are absent
  when the client supplies no such operation.
\<close>

record stream_env =
  e_dev_name :: bool
  e_open :: int
  e_ext_mode :: "int \<times> u32"
  e_ctrl :: int
  e_s_fmt :: int
  e_get_bufs :: "int + (mm_camera_buf_def_t \<times> bool) list"
  e_put_bufs :: int
  e_alloc :: bool
  e_reqbufs :: int
  e_qbuf :: "nat \<Rightarrow> int"
  e_invalidate :: "(nat \<Rightarrow> int) option"
  e_streamon :: int
  e_streamoff :: int
  e_dqbuf :: "(nat \<times> u32) option"
  e_clean :: "(nat \<Rightarrow> int) option"

record mm_camera_stream_config_t =
  cfg_info :: cam_stream_info_t
  cfg_num_bufs :: u32
  cfg_padding :: cam_padding_info_t
  cfg_cb :: bool

section \<open>Buffers and the kernel\<close>

definition upd_status :: "nat \<Rightarrow> (mm_stream_buf_status_t \<Rightarrow> mm_stream_buf_status_t) \<Rightarrow> mm_stream_t \<Rightarrow> mm_stream_t" where
  "upd_status i f s = s\<lparr>buf_status := map_option (\<lambda>bs. bs[i := f (bs ! i)]) (buf_status s)\<rparr>"

definition refcnt :: "mm_stream_t \<Rightarrow> nat \<Rightarrow> u8" where
  "refcnt s i = (case buf_status s of None \<Rightarrow> 0 | Some bs \<Rightarrow> buf_refcnt (bs ! i))"

definition add_ref :: "nat \<Rightarrow> mm_stream_t \<Rightarrow> mm_stream_t" where
  "add_ref i = upd_status i (\<lambda>b. b\<lparr>buf_refcnt := buf_refcnt b + 1\<rparr>)"

definition drop_ref :: "nat \<Rightarrow> mm_stream_t \<Rightarrow> mm_stream_t" where
  "drop_ref i = upd_status i (\<lambda>b. b\<lparr>buf_refcnt := buf_refcnt b - 1\<rparr>)"

definition set_in_kernel :: "bool \<Rightarrow> nat \<Rightarrow> mm_stream_t \<Rightarrow> mm_stream_t" where
  "set_in_kernel v i = upd_status i (\<lambda>b. b\<lparr>in_kernel := v\<rparr>)"

text \<open>The poll entry of the stream is written before the poll thread is told, and telling it never fails.\<close>

definition poll_add :: "mm_stream_t \<Rightarrow> mm_stream_t" where
  "poll_add s = s\<lparr>polled := True\<rparr>"

definition poll_del :: "mm_stream_t \<Rightarrow> mm_stream_t" where
  "poll_del s = s\<lparr>polled := False\<rparr>"

text \<open>The count goes up before the ioctl and down again when it fails; the poll starts with the first buffer.\<close>

definition mm_stream_qbuf :: "stream_env \<Rightarrow> mm_camera_buf_def_t \<Rightarrow> mm_stream_t \<Rightarrow> int \<times> mm_stream_t" where
  "mm_stream_qbuf e b s =
     (let i = unat (b_buf_idx b); inv = (case e_invalidate e of None \<Rightarrow> 0 | Some f \<Rightarrow> f i)
      in if inv < 0 then (inv, s)
         else let n = queued_buffer_count s + 1;
                  s1 = s\<lparr>queued_buffer_count := n\<rparr>;
                  s2 = (if n = 1 then poll_add s1 else s1);
                  rc = e_qbuf e i
              in if rc < 0
                 then let s3 = s2\<lparr>queued_buffer_count := n - 1\<rparr>
                      in (rc, if n - 1 = 0 then poll_del s3 else s3)
                 else (rc, s2\<lparr>kernel_bufs := insert i (kernel_bufs s2)\<rparr>))"

definition mm_stream_buf_done :: "stream_env \<Rightarrow> mm_camera_buf_def_t \<Rightarrow> mm_stream_t \<Rightarrow> int \<times> mm_stream_t" where
  "mm_stream_buf_done e b s =
     (let i = unat (b_buf_idx b)
      in if refcnt s i = 0 then (-1, s)
         else let s1 = drop_ref i s
              in if refcnt s1 i = 0
                 then let (rc, s2) = mm_stream_qbuf e b s1
                      in (rc, if rc < 0 then s2 else set_in_kernel True i s2)
                 else (0, s1))"

definition mm_stream_request_buf :: "stream_env \<Rightarrow> mm_stream_t \<Rightarrow> int" where
  "mm_stream_request_buf e s = (if MM_CAMERA_MAX_NUM_FRAMES < buf_num s then -1 else e_reqbufs e)"

text \<open>The buffers are queued in order, up to the first failure.\<close>

fun reg_loop :: "stream_env \<Rightarrow> nat \<Rightarrow> mm_camera_buf_def_t list \<Rightarrow> mm_stream_t \<Rightarrow> int \<times> mm_stream_t" where
  "reg_loop e i [] s = (0, s)"
| "reg_loop e i (b # bs) s =
     (if (case buf_status s of None \<Rightarrow> False | Some st \<Rightarrow> initial_reg_flag (st ! i))
      then let (rc, s1) = mm_stream_qbuf e b s
           in if rc \<noteq> 0 then (rc, s1)
              else reg_loop e (Suc i) bs (upd_status i (\<lambda>x. x\<lparr>buf_refcnt := 0, in_kernel := True\<rparr>) s1)
      else reg_loop e (Suc i) bs (upd_status i (\<lambda>x. x\<lparr>buf_refcnt := 1, in_kernel := False\<rparr>) s))"

definition mm_stream_reg_buf :: "stream_env \<Rightarrow> mm_stream_t \<Rightarrow> int \<times> mm_stream_t" where
  "mm_stream_reg_buf e s =
     (let rc = mm_stream_request_buf e s
      in if rc \<noteq> 0 then (rc, s)
         else (case st_buf s of
                 None \<Rightarrow> (0, s\<lparr>queued_buffer_count := 0\<rparr>)
               | Some bs \<Rightarrow> reg_loop e 0 (take (unat (buf_num s)) bs) (s\<lparr>queued_buffer_count := 0\<rparr>)))"

definition mm_stream_unreg_buf :: "stream_env \<Rightarrow> mm_stream_t \<Rightarrow> int \<times> mm_stream_t" where
  "mm_stream_unreg_buf e s =
     (e_reqbufs e, s\<lparr>buf_status := map_option (map (\<lambda>b. b\<lparr>buf_refcnt := 0, in_kernel := False\<rparr>)) (buf_status s)\<rparr>)"

definition mm_stream_deinit_bufs :: "stream_env \<Rightarrow> mm_stream_t \<Rightarrow> int \<times> mm_stream_t" where
  "mm_stream_deinit_bufs e s =
     (if st_buf s = None then (0, s) else (e_put_bufs e, s\<lparr>st_buf := None, buf_status := None\<rparr>))"

definition mm_stream_init_bufs :: "stream_env \<Rightarrow> mm_stream_t \<Rightarrow> int \<times> mm_stream_t" where
  "mm_stream_init_bufs e s =
     (let s1 = snd (mm_stream_deinit_bufs e s)
      in case e_get_bufs e of
           Inl rc \<Rightarrow> (rc, s1)
         | Inr bfs \<Rightarrow>
             let own = (\<lambda>b. b\<lparr>b_stream_id := st_hdl s1, b_stream_type := si_type (stream_info s1)\<rparr>);
                 s2 = s1\<lparr>buf_num := of_nat (length bfs), st_buf := Some (map fst bfs)\<rparr>
             in if \<not> e_alloc e then (-1, snd (mm_stream_deinit_bufs e s2))
                else (0, s2\<lparr>st_buf := Some (map (own \<circ> fst) bfs),
                       buf_status := Some (map (\<lambda>b. \<lparr>buf_refcnt = 0, initial_reg_flag = snd b, in_kernel = False\<rparr>) bfs)\<rparr>))"

section \<open>Callbacks\<close>

text \<open>One slot of the dispatch: the callback takes a reference; a counted callback disappears with its last call.\<close>

definition call_cb :: "nat \<Rightarrow> nat \<Rightarrow> mm_stream_t \<Rightarrow> mm_stream_t" where
  "call_cb i k s = (case buf_cb s ! k of
     None \<Rightarrow> s
   | Some n \<Rightarrow>
       let s1 = (if n \<noteq> 0 then (add_ref i s)\<lparr>app_calls := app_calls s @ [(k, i)]\<rparr> else s)
       in if 0 < n then s1\<lparr>buf_cb := (buf_cb s1)[k := (if n - 1 = 0 then None else Some (n - 1))]\<rparr> else s1)"

definition mm_stream_dispatch_app_data :: "stream_env \<Rightarrow> mm_camera_buf_def_t \<Rightarrow> mm_stream_t \<Rightarrow> mm_stream_t" where
  "mm_stream_dispatch_app_data e b s =
     snd (mm_stream_buf_done e b (fold (call_cb (unat (b_buf_idx b))) [0..<MM_CAMERA_STREAM_BUF_CB_MAX] s))"

text \<open>
  Releasing the command thread posts an exit command and joins it: the thread first dispatches the frames still in
  its queue. Without memory for the command the thread is left running.
\<close>

definition dispatch_info :: "stream_env \<Rightarrow> mm_camera_buf_info_t \<Rightarrow> mm_stream_t \<Rightarrow> mm_stream_t" where
  "dispatch_info e info s = (case bi_buf info of Some b \<Rightarrow> mm_stream_dispatch_app_data e b s | None \<Rightarrow> s)"

definition release_cmd_thread :: "stream_env \<Rightarrow> mm_stream_t \<Rightarrow> mm_stream_t" where
  "release_cmd_thread e s =
     (if \<not> e_alloc e then s
      else (fold (dispatch_info e) (app_queue s) (s\<lparr>app_queue := []\<rparr>))\<lparr>cmd_active := False\<rparr>)"

section \<open>Configuration, start and stop\<close>

definition mm_stream_sync_info :: "venus_macros option \<Rightarrow> bool \<Rightarrow> stream_env \<Rightarrow> mm_stream_t \<Rightarrow> int \<times> mm_stream_t" where
  "mm_stream_sync_info venus a_family e s =
     (let (ok, s1) = mm_stream_calc_offset venus a_family s in (if ok then e_ctrl e else -1, s1))"

definition mm_stream_set_fmt :: "stream_env \<Rightarrow> mm_stream_t \<Rightarrow> int" where
  "mm_stream_set_fmt e s =
     (if dim_width (si_dim (stream_info s)) = 0 \<or> dim_height (si_dim (stream_info s)) = 0 then -1 else e_s_fmt e)"

definition mm_stream_config ::
    "venus_macros option \<Rightarrow> bool \<Rightarrow> stream_env \<Rightarrow> mm_camera_stream_config_t \<Rightarrow> mm_stream_t \<Rightarrow> int \<times> mm_stream_t" where
  "mm_stream_config venus a_family e c s =
     (let (rc, s1) = mm_stream_sync_info venus a_family e (s\<lparr>stream_info := cfg_info c, buf_num := ucast (cfg_num_bufs c),
              padding_info := cfg_padding c, buf_cb := (buf_cb s)[0 := (if cfg_cb c then Some (-1) else None)]\<rparr>)
      in (if rc = 0 then mm_stream_set_fmt e s1 else rc, s1))"

definition mm_stream_set_ext_mode :: "stream_env \<Rightarrow> mm_stream_t \<Rightarrow> int \<times> mm_stream_t" where
  "mm_stream_set_ext_mode e s =
     (if fst (e_ext_mode e) = 0 then (0, s\<lparr>st_server_id := snd (e_ext_mode e)\<rparr>) else (fst (e_ext_mode e), s))"

definition mm_stream_streamon :: "stream_env \<Rightarrow> mm_stream_t \<Rightarrow> int \<times> mm_stream_t" where
  "mm_stream_streamon e s = (e_streamon e, if e_streamon e < 0 then poll_del s else s)"

definition mm_stream_streamoff :: "stream_env \<Rightarrow> mm_stream_t \<Rightarrow> int \<times> mm_stream_t" where
  "mm_stream_streamoff e s =
     (e_streamoff e, (poll_del s)\<lparr>kernel_bufs := (if e_streamoff e < 0 then kernel_bufs s else {})\<rparr>)"

text \<open>Everything is zeroed; what was handed on before stays with its holders.\<close>

definition mm_stream_release :: "mm_stream_t \<Rightarrow> mm_stream_t" where
  "mm_stream_release s = s\<lparr>st_hdl := 0, st_server_id := 0, st_fd := 0, st_state := MM_STREAM_STATE_NOTUSED,
     cmd_active := False, buf_cb := replicate MM_CAMERA_STREAM_BUF_CB_MAX None, buf_num := 0, st_buf := None,
     buf_status := None, is_bundled := False, is_linked := False, queued_buffer_count := 0\<rparr>"

definition has_cb :: "mm_stream_t \<Rightarrow> bool" where
  "has_cb s \<longleftrightarrow> (\<exists>c \<in> set (buf_cb s). c \<noteq> None)"

section \<open>The state machine\<close>

datatype mm_stream_evt_type_t =
    MM_STREAM_EVT_ACQUIRE
  | MM_STREAM_EVT_RELEASE
  | MM_STREAM_EVT_SET_FMT mm_camera_stream_config_t
  | MM_STREAM_EVT_GET_BUF
  | MM_STREAM_EVT_PUT_BUF
  | MM_STREAM_EVT_REG_BUF
  | MM_STREAM_EVT_UNREG_BUF
  | MM_STREAM_EVT_START
  | MM_STREAM_EVT_STOP
  | MM_STREAM_EVT_QBUF mm_camera_buf_def_t
  | MM_STREAM_EVT_SET_PARM bool
  | MM_STREAM_EVT_GET_PARM bool
  | MM_STREAM_EVT_DO_ACTION bool
  | MM_STREAM_EVT_GET_QUEUED_BUF_COUNT

text \<open>Parameters given to the server; \<open>False\<close> is a null pointer.\<close>

definition mm_stream_parm :: "stream_env \<Rightarrow> bool \<Rightarrow> int" where
  "mm_stream_parm e given = (if given then e_ctrl e else -1)"

definition set_st :: "mm_stream_state_type_t \<Rightarrow> int \<times> mm_stream_t \<Rightarrow> int \<times> mm_stream_t" where
  "set_st x r = (fst r, (snd r)\<lparr>st_state := x\<rparr>)"

definition set_st_ok :: "mm_stream_state_type_t \<Rightarrow> int \<times> mm_stream_t \<Rightarrow> int \<times> mm_stream_t" where
  "set_st_ok x r = (if fst r = 0 then set_st x r else r)"

definition mm_stream_fsm_inited :: "stream_env \<Rightarrow> mm_stream_evt_type_t \<Rightarrow> mm_stream_t \<Rightarrow> int \<times> mm_stream_t" where
  "mm_stream_fsm_inited e evt s = (case evt of
     MM_STREAM_EVT_ACQUIRE \<Rightarrow>
       if \<not> e_dev_name e then (-1, s)
       else let s1 = s\<lparr>st_fd := e_open e\<rparr>
            in if e_open e \<le> 0 then (-1, s1)
               else let (rc, s2) = mm_stream_set_ext_mode e s1
                    in if rc = 0 then (rc, s2\<lparr>st_state := MM_STREAM_STATE_ACQUIRED\<rparr>) else (rc, s2\<lparr>st_fd := 0\<rparr>)
   | _ \<Rightarrow> (0, s))"

definition mm_stream_fsm_acquired ::
    "venus_macros option \<Rightarrow> bool \<Rightarrow> stream_env \<Rightarrow> mm_stream_evt_type_t \<Rightarrow> mm_stream_t \<Rightarrow> int \<times> mm_stream_t" where
  "mm_stream_fsm_acquired venus a_family e evt s = (case evt of
     MM_STREAM_EVT_SET_FMT c \<Rightarrow> set_st MM_STREAM_STATE_CFG (mm_stream_config venus a_family e c s)
   | MM_STREAM_EVT_RELEASE \<Rightarrow> (0, mm_stream_release s)
   | MM_STREAM_EVT_SET_PARM p \<Rightarrow> (mm_stream_parm e p, s)
   | MM_STREAM_EVT_GET_PARM p \<Rightarrow> (mm_stream_parm e p, s)
   | _ \<Rightarrow> (0, s))"

definition mm_stream_fsm_cfg ::
    "venus_macros option \<Rightarrow> bool \<Rightarrow> stream_env \<Rightarrow> mm_stream_evt_type_t \<Rightarrow> mm_stream_t \<Rightarrow> int \<times> mm_stream_t" where
  "mm_stream_fsm_cfg venus a_family e evt s = (case evt of
     MM_STREAM_EVT_SET_FMT c \<Rightarrow> set_st MM_STREAM_STATE_CFG (mm_stream_config venus a_family e c s)
   | MM_STREAM_EVT_RELEASE \<Rightarrow> (0, mm_stream_release s)
   | MM_STREAM_EVT_SET_PARM p \<Rightarrow> (mm_stream_parm e p, s)
   | MM_STREAM_EVT_GET_PARM p \<Rightarrow> (mm_stream_parm e p, s)
   | MM_STREAM_EVT_GET_BUF \<Rightarrow> set_st_ok MM_STREAM_STATE_BUFFED (mm_stream_init_bufs e s)
   | _ \<Rightarrow> (0, s))"

definition mm_stream_fsm_buffed :: "stream_env \<Rightarrow> mm_stream_evt_type_t \<Rightarrow> mm_stream_t \<Rightarrow> int \<times> mm_stream_t" where
  "mm_stream_fsm_buffed e evt s = (case evt of
     MM_STREAM_EVT_PUT_BUF \<Rightarrow> set_st MM_STREAM_STATE_CFG (mm_stream_deinit_bufs e s)
   | MM_STREAM_EVT_REG_BUF \<Rightarrow> set_st_ok MM_STREAM_STATE_REG (mm_stream_reg_buf e s)
   | MM_STREAM_EVT_SET_PARM p \<Rightarrow> (mm_stream_parm e p, s)
   | MM_STREAM_EVT_GET_PARM p \<Rightarrow> (mm_stream_parm e p, s)
   | _ \<Rightarrow> (0, s))"

definition stream_start :: "stream_env \<Rightarrow> mm_stream_t \<Rightarrow> int \<times> mm_stream_t" where
  "stream_start e s =
     (let s1 = (if has_cb s then s\<lparr>cmd_active := True, app_queue := []\<rparr> else s);
          (rc, s2) = mm_stream_streamon e (s1\<lparr>st_state := MM_STREAM_STATE_ACTIVE\<rparr>)
      in if rc \<noteq> 0
         then (rc, (if has_cb s then release_cmd_thread e s2 else s2)\<lparr>st_state := MM_STREAM_STATE_REG\<rparr>)
         else (rc, s2))"

definition mm_stream_fsm_reg :: "stream_env \<Rightarrow> mm_stream_evt_type_t \<Rightarrow> mm_stream_t \<Rightarrow> int \<times> mm_stream_t" where
  "mm_stream_fsm_reg e evt s = (case evt of
     MM_STREAM_EVT_UNREG_BUF \<Rightarrow> set_st MM_STREAM_STATE_BUFFED (mm_stream_unreg_buf e s)
   | MM_STREAM_EVT_START \<Rightarrow> stream_start e s
   | MM_STREAM_EVT_SET_PARM p \<Rightarrow> (mm_stream_parm e p, s)
   | MM_STREAM_EVT_GET_PARM p \<Rightarrow> (mm_stream_parm e p, s)
   | _ \<Rightarrow> (0, s))"

definition stream_stop :: "stream_env \<Rightarrow> mm_stream_t \<Rightarrow> int \<times> mm_stream_t" where
  "stream_stop e s =
     (let (rc, s1) = mm_stream_streamoff e s;
          s2 = (if has_cb s1 then release_cmd_thread e s1 else s1)
      in (rc, s2\<lparr>st_state := MM_STREAM_STATE_REG\<rparr>))"

definition mm_stream_fsm_active :: "stream_env \<Rightarrow> mm_stream_evt_type_t \<Rightarrow> mm_stream_t \<Rightarrow> int \<times> mm_stream_t" where
  "mm_stream_fsm_active e evt s = (case evt of
     MM_STREAM_EVT_QBUF b \<Rightarrow> mm_stream_buf_done e b s
   | MM_STREAM_EVT_GET_QUEUED_BUF_COUNT \<Rightarrow> (sint (queued_buffer_count s), s)
   | MM_STREAM_EVT_STOP \<Rightarrow> stream_stop e s
   | MM_STREAM_EVT_SET_PARM p \<Rightarrow> (mm_stream_parm e p, s)
   | MM_STREAM_EVT_GET_PARM p \<Rightarrow> (mm_stream_parm e p, s)
   | MM_STREAM_EVT_DO_ACTION p \<Rightarrow> (mm_stream_parm e p, s)
   | _ \<Rightarrow> (0, s))"

definition mm_stream_fsm_fn ::
    "venus_macros option \<Rightarrow> bool \<Rightarrow> stream_env \<Rightarrow> mm_stream_evt_type_t \<Rightarrow> mm_stream_t \<Rightarrow> int \<times> mm_stream_t" where
  "mm_stream_fsm_fn venus a_family e evt s = (case st_state s of
     MM_STREAM_STATE_NOTUSED \<Rightarrow> (-1, s)
   | MM_STREAM_STATE_INITED \<Rightarrow> mm_stream_fsm_inited e evt s
   | MM_STREAM_STATE_ACQUIRED \<Rightarrow> mm_stream_fsm_acquired venus a_family e evt s
   | MM_STREAM_STATE_CFG \<Rightarrow> mm_stream_fsm_cfg venus a_family e evt s
   | MM_STREAM_STATE_BUFFED \<Rightarrow> mm_stream_fsm_buffed e evt s
   | MM_STREAM_STATE_REG \<Rightarrow> mm_stream_fsm_reg e evt s
   | MM_STREAM_STATE_ACTIVE \<Rightarrow> mm_stream_fsm_active e evt s)"

section \<open>Frames\<close>

text \<open>
  Dequeuing a frame: the count goes down and the poll stops with the last one; then the cache is cleaned. The
  result is the return code and the frame.
\<close>

definition mm_stream_read_msm_frame ::
    "stream_env \<Rightarrow> mm_stream_t \<Rightarrow> int \<times> mm_camera_buf_info_t option \<times> mm_stream_t" where
  "mm_stream_read_msm_frame e s = (case e_dqbuf e of
     None \<Rightarrow> (-1, None, s)
   | Some (i, seq) \<Rightarrow>
       let n = queued_buffer_count s - 1;
           s1 = s\<lparr>queued_buffer_count := n, kernel_bufs := kernel_bufs s - {i}\<rparr>;
           s2 = (if n = 0 then poll_del s1 else s1);
           b = (the (st_buf s) ! i)\<lparr>b_stream_id := st_hdl s, b_buf_idx := of_nat i\<rparr>;
           s3 = s2\<lparr>st_buf := map_option (\<lambda>bs. bs[i := b]) (st_buf s2)\<rparr>;
           rc = (case e_clean e of None \<Rightarrow> 0 | Some f \<Rightarrow> f i)
       in (rc, Some \<lparr>bi_stream_id = st_hdl s, bi_frame_idx = seq, bi_buf = Some b\<rparr>, s3))"

text \<open>\<open>m1\<close>, \<open>m2\<close>, \<open>m3\<close> tell whether the nodes for the channel, the linked channel and the own thread can be allocated.\<close>

definition mm_stream_handle_rcvd_buf ::
    "stream_env \<Rightarrow> bool \<times> bool \<times> bool \<Rightarrow> mm_camera_buf_info_t \<Rightarrow> mm_camera_buf_def_t \<Rightarrow> bool \<Rightarrow> mm_stream_t \<Rightarrow> mm_stream_t" where
  "mm_stream_handle_rcvd_buf e mem info b cb s =
     (let (m1, m2, m3) = mem;
          s1 = (if is_bundled s \<and> m1 then s\<lparr>ch_posts := ch_posts s @ [info]\<rparr> else s);
          s2 = (if is_linked s1
                then let r = add_ref (unat (b_buf_idx b)) s1
                     in if m2 then r\<lparr>linked_posts := linked_posts r @ [info]\<rparr> else r
                else s1)
      in if preview_skip s2 \<noteq> 0 \<and> si_type (stream_info s2) = CAM_STREAM_TYPE_PREVIEW
         then snd (mm_stream_buf_done e b (s2\<lparr>preview_skip := preview_skip s2 - 1\<rparr>))
         else if cb \<and> cmd_active s2 \<and> m3 then s2\<lparr>app_queue := app_queue s2 @ [info]\<rparr>
         else s2)"

definition mm_stream_data_notify :: "stream_env \<Rightarrow> bool \<times> bool \<times> bool \<Rightarrow> mm_stream_t \<Rightarrow> mm_stream_t" where
  "mm_stream_data_notify e mem s =
     (if st_state s \<noteq> MM_STREAM_STATE_ACTIVE then s
      else (case mm_stream_read_msm_frame e s of
              (rc, Some info, s1) \<Rightarrow>
                if rc \<noteq> 0 then s1
                else (case bi_buf info of
                        None \<Rightarrow> s1
                      | Some b \<Rightarrow>
                          let i = unat (b_buf_idx b);
                              s2 = set_in_kernel False i s1;
                              s3 = (if is_bundled s2 then add_ref i s2 else s2);
                              s4 = (if has_cb s3 then add_ref i s3 else s3)
                          in mm_stream_handle_rcvd_buf e mem info b (has_cb s1) s4)
            | (rc, None, s1) \<Rightarrow> s1))"

text \<open>The command thread takes the first frame of its queue.\<close>

definition stream_thread_round :: "stream_env \<Rightarrow> mm_stream_t \<Rightarrow> mm_stream_t" where
  "stream_thread_round e s = (case app_queue s of
     info # rest \<Rightarrow> dispatch_info e info (s\<lparr>app_queue := rest\<rparr>)
   | [] \<Rightarrow> s)"

fun first_free_cb :: "int option list \<Rightarrow> nat option" where
  "first_free_cb [] = None"
| "first_free_cb (c # cs) = (if c = None then Some 0 else map_option Suc (first_free_cb cs))"

definition mm_stream_reg_buf_cb :: "int \<Rightarrow> mm_stream_t \<Rightarrow> int \<times> mm_stream_t" where
  "mm_stream_reg_buf_cb count s = (case first_free_cb (buf_cb s) of
     None \<Rightarrow> (-1, s)
   | Some k \<Rightarrow> (0, s\<lparr>buf_cb := (buf_cb s)[k := Some count]\<rparr>))"

end
