(* ===== verification/MmStreamProps.thy ===== *)
theory MmStreamProps
  imports MmStream
begin

text \<open>
  What holds of a stream object in every run: its resources follow its state whatever the kernel and the server
  answer; while it streams, every buffer is accounted for by its reference count; and what its error paths leave.
\<close>

section \<open>Runs\<close>

datatype stream_action =
    Fsm stream_env mm_stream_evt_type_t
  | Notify stream_env "bool \<times> bool \<times> bool"
  | Round stream_env
  | RegCb int
  | SetFlags bool bool u8

text \<open>The last one is the channel's: bundling and linking the stream, and the count of preview frames to skip.\<close>

definition stream_step :: "venus_macros option \<Rightarrow> bool \<Rightarrow> stream_action \<Rightarrow> mm_stream_t \<Rightarrow> mm_stream_t" where
  "stream_step venus a_family a s = (case a of
     Fsm e evt \<Rightarrow> snd (mm_stream_fsm_fn venus a_family e evt s)
   | Notify e mem \<Rightarrow> mm_stream_data_notify e mem s
   | Round e \<Rightarrow> stream_thread_round e s
   | RegCb n \<Rightarrow> snd (mm_stream_reg_buf_cb n s)
   | SetFlags bundled linked skip \<Rightarrow> s\<lparr>is_bundled := bundled, is_linked := linked, preview_skip := skip\<rparr>)"

definition stream_run :: "venus_macros option \<Rightarrow> bool \<Rightarrow> stream_action list \<Rightarrow> mm_stream_t \<Rightarrow> mm_stream_t" where
  "stream_run venus a_family = fold (stream_step venus a_family)"

section \<open>Resources\<close>

text \<open>The device is open from the acquisition to the release; buffers exist from BUFFED on, with a status each.\<close>

definition resources :: "mm_stream_t \<Rightarrow> bool" where
  "resources s \<longleftrightarrow>
     (0 < st_fd s \<longleftrightarrow> st_state s \<notin> {MM_STREAM_STATE_NOTUSED, MM_STREAM_STATE_INITED}) \<and>
     (st_buf s \<noteq> None \<longleftrightarrow> st_state s \<in> {MM_STREAM_STATE_BUFFED, MM_STREAM_STATE_REG, MM_STREAM_STATE_ACTIVE}) \<and>
     map_option length (buf_status s) = map_option length (st_buf s)"

definition alike :: "mm_stream_t \<Rightarrow> mm_stream_t \<Rightarrow> bool" where
  "alike s s' \<longleftrightarrow> st_hdl s' = st_hdl s \<and> st_fd s' = st_fd s \<and> st_state s' = st_state s \<and>
     map_option length (st_buf s') = map_option length (st_buf s) \<and>
     map_option length (buf_status s') = map_option length (buf_status s)"

lemma alike_refl [simp]: "alike s s"
  by (simp add: alike_def)

lemma alike_trans: "alike s t \<Longrightarrow> alike t u \<Longrightarrow> alike s u"
  by (simp add: alike_def)

lemma alike_resources: "alike s s' \<Longrightarrow> resources s \<Longrightarrow> resources s'"
  by (auto simp: alike_def resources_def)

lemma upd_status_alike [simp]: "alike s (upd_status i f s)"
  by (simp add: alike_def upd_status_def option.map_comp comp_def)

lemma refs_alike [simp]: "alike s (add_ref i s)" "alike s (drop_ref i s)" "alike s (set_in_kernel v i s)"
  by (simp_all add: add_ref_def drop_ref_def set_in_kernel_def)

lemma qbuf_alike: "alike s (snd (mm_stream_qbuf e b s))"
  by (simp add: alike_def mm_stream_qbuf_def Let_def poll_add_def poll_del_def)

lemma buf_done_alike: "alike s (snd (mm_stream_buf_done e b s))"
proof (cases "refcnt s (unat (b_buf_idx b)) = 0")
  case False
  obtain rc s2 where q: "mm_stream_qbuf e b (drop_ref (unat (b_buf_idx b)) s) = (rc, s2)" by fastforce
  have "alike (drop_ref (unat (b_buf_idx b)) s) s2" using qbuf_alike [of _ e b] q by (metis snd_conv)
  with refs_alike(2) have "alike s s2" by (rule alike_trans)
  then have "alike s (set_in_kernel True (unat (b_buf_idx b)) s2)" by (rule alike_trans) simp
  with \<open>alike s s2\<close> show ?thesis using False q by (simp add: mm_stream_buf_done_def Let_def)
qed (simp add: mm_stream_buf_done_def Let_def)

lemma call_cb_alike: "alike s (call_cb i k s)"
proof -
  have "alike s (s'\<lparr>buf_cb := c, app_calls := a\<rparr>)" if "alike s s'" for s' c a using that by (simp add: alike_def)
  from this [of s] this [of "add_ref i s"] show ?thesis
    by (auto simp: call_cb_def Let_def alike_def upd_status_def add_ref_def option.map_comp comp_def split: option.splits)
qed

lemma fold_alike: "(\<And>x s. alike s (f x s)) \<Longrightarrow> alike s (fold f xs s)"
  by (induction xs arbitrary: s) (auto intro: alike_trans)

lemma dispatch_alike: "alike s (mm_stream_dispatch_app_data e b s)"
  unfolding mm_stream_dispatch_app_data_def
  by (rule alike_trans [OF fold_alike buf_done_alike]) (rule call_cb_alike)

lemma dispatch_info_alike: "alike s (dispatch_info e info s)"
  by (simp add: dispatch_info_def dispatch_alike split: option.split)

lemma release_thread_alike: "alike s (release_cmd_thread e s)"
proof -
  have "alike s (s'\<lparr>cmd_active := False\<rparr>)" if "alike (s\<lparr>app_queue := []\<rparr>) s'" for s' using that by (simp add: alike_def)
  then show ?thesis
    by (simp add: release_cmd_thread_def fold_alike dispatch_info_alike)
qed

lemma reg_loop_alike: "alike s (snd (reg_loop e i bs s))"
proof (induction bs arbitrary: i s)
  case (Cons b bs)
  obtain rc s1 where q: "mm_stream_qbuf e b s = (rc, s1)" by fastforce
  then have "alike s s1" using qbuf_alike by (metis snd_conv)
  then show ?case using Cons q by (auto intro: alike_trans [OF _ alike_trans [OF upd_status_alike]] alike_trans [OF upd_status_alike])
qed simp

lemma if_alike: "alike s t \<Longrightarrow> alike s t' \<Longrightarrow> alike s (if P then t else t')"
  by simp

lemma handle_alike: "alike t (mm_stream_handle_rcvd_buf e mem info b cb t)"
proof -
  obtain m1 m2 m3 where mem: "mem = (m1, m2, m3)" by (cases mem)
  define s1 where "s1 = (if is_bundled t \<and> m1 then t\<lparr>ch_posts := ch_posts t @ [info]\<rparr> else t)"
  define s2 where "s2 = (if is_linked s1
      then let r = add_ref (unat (b_buf_idx b)) s1 in if m2 then r\<lparr>linked_posts := linked_posts r @ [info]\<rparr> else r
      else s1)"
  have e: "mm_stream_handle_rcvd_buf e mem info b cb t =
      (if preview_skip s2 \<noteq> 0 \<and> si_type (stream_info s2) = CAM_STREAM_TYPE_PREVIEW
       then snd (mm_stream_buf_done e b (s2\<lparr>preview_skip := preview_skip s2 - 1\<rparr>))
       else if cb \<and> cmd_active s2 \<and> m3 then s2\<lparr>app_queue := app_queue s2 @ [info]\<rparr> else s2)"
    unfolding s2_def s1_def mem mm_stream_handle_rcvd_buf_def Let_def prod.case by (rule refl)
  have post: "alike t r \<Longrightarrow> alike t (r\<lparr>linked_posts := p\<rparr>)" for r p by (simp add: alike_def)
  have s1: "alike t s1" by (simp add: s1_def alike_def)
  have "alike t (add_ref (unat (b_buf_idx b)) s1)" by (rule alike_trans [OF s1 refs_alike(1)])
  then have s2: "alike t s2" using s1 unfolding s2_def Let_def by (intro if_alike post)
  have "alike t (s2\<lparr>preview_skip := preview_skip s2 - 1\<rparr>)" using s2 by (simp add: alike_def)
  then have "alike t (snd (mm_stream_buf_done e b (s2\<lparr>preview_skip := preview_skip s2 - 1\<rparr>)))"
    by (rule alike_trans) (rule buf_done_alike)
  moreover have "alike t (s2\<lparr>app_queue := app_queue s2 @ [info]\<rparr>)" using s2 by (simp add: alike_def)
  ultimately show ?thesis unfolding e using s2 by (intro if_alike)
qed

text \<open>The references a received frame gets before it is handed on.\<close>

definition take_refs :: "nat \<Rightarrow> mm_stream_t \<Rightarrow> mm_stream_t" where
  "take_refs i s = (let s2 = set_in_kernel False i s; s3 = (if is_bundled s2 then add_ref i s2 else s2)
     in if has_cb s3 then add_ref i s3 else s3)"

lemma take_refs_alike: "alike s (take_refs i s)"
  unfolding take_refs_def Let_def
  by (intro if_alike alike_trans [OF _ refs_alike(1)]) (simp_all add: alike_trans [OF refs_alike(3) refs_alike(1)])

lemma data_notify_eq:
  "mm_stream_data_notify e mem s =
     (if st_state s \<noteq> MM_STREAM_STATE_ACTIVE then s
      else (case mm_stream_read_msm_frame e s of
              (rc, Some info, s1) \<Rightarrow>
                if rc \<noteq> 0 then s1
                else (case bi_buf info of
                        None \<Rightarrow> s1
                      | Some b \<Rightarrow> mm_stream_handle_rcvd_buf e mem info b (has_cb s1) (take_refs (unat (b_buf_idx b)) s1))
            | (rc, None, s1) \<Rightarrow> s1))"
  by (simp add: mm_stream_data_notify_def take_refs_def Let_def split: option.split prod.split)

lemma data_notify_alike: "alike s (mm_stream_data_notify e mem s)"
proof -
  obtain rc x s1 where r: "mm_stream_read_msm_frame e s = (rc, x, s1)" by (cases "mm_stream_read_msm_frame e s")
  have s1: "alike s s1" using r
    by (auto simp: mm_stream_read_msm_frame_def Let_def alike_def poll_del_def option.map_comp comp_def split: option.splits if_splits)
  have "alike s (mm_stream_handle_rcvd_buf e mem info b cb (take_refs i s1))" for info b cb i
    by (rule alike_trans [OF s1 alike_trans [OF take_refs_alike handle_alike]])
  then show ?thesis using s1 r by (simp add: data_notify_eq split: option.split)
qed

text \<open>The one thing asked of the client: its buffer allocation returns a nonzero code when it fails.\<close>

definition env_ok :: "stream_env \<Rightarrow> bool" where
  "env_ok e \<longleftrightarrow> e_get_bufs e \<noteq> Inl 0"

definition action_ok :: "stream_action \<Rightarrow> bool" where
  "action_ok a = (case a of Fsm e evt \<Rightarrow> env_ok e | _ \<Rightarrow> True)"

lemma calc_offset_rest:
  "mm_stream_calc_offset venus a_family (s :: mm_stream_t) = (ok, s1) \<Longrightarrow> alike s s1"
  by (auto simp: mm_stream_calc_offset_def Let_def alike_def)

lemma config_alike: "alike s (snd (mm_stream_config venus a_family e c s))"
proof -
  let ?t = "s\<lparr>stream_info := cfg_info c, buf_num := ucast (cfg_num_bufs c), padding_info := cfg_padding c,
    buf_cb := (buf_cb s)[0 := (if cfg_cb c then Some (-1) else None)]\<rparr>"
  have "alike s ?t" by (simp add: alike_def)
  moreover have "alike ?t (snd (mm_stream_config venus a_family e c s))"
    using calc_offset_rest [of venus a_family ?t]
    by (auto simp: mm_stream_config_def mm_stream_sync_info_def split: prod.split)
  ultimately show ?thesis by (rule alike_trans)
qed

lemma init_bufs_shape:
  assumes "mm_stream_init_bufs e s = (rc, s')" and "env_ok e" and "resources s"
  shows "st_fd s' = st_fd s" and "st_state s' = st_state s"
    and "st_buf s' \<noteq> None \<longleftrightarrow> rc = 0" and "map_option length (buf_status s') = map_option length (st_buf s')"
  using assms
  by (auto simp: mm_stream_init_bufs_def mm_stream_deinit_bufs_def env_ok_def resources_def Let_def split: sum.splits if_splits)

lemma fsm_resources:
  assumes "resources s" and "env_ok e"
  shows "resources (snd (mm_stream_fsm_fn venus a_family e evt s))"
proof (cases "st_state s")
  case MM_STREAM_STATE_NOTUSED
  then show ?thesis using assms by (simp add: mm_stream_fsm_fn_def)
next
  case MM_STREAM_STATE_INITED
  then show ?thesis using assms
    by (cases evt) (auto simp: mm_stream_fsm_fn_def mm_stream_fsm_inited_def mm_stream_set_ext_mode_def resources_def Let_def)
next
  case MM_STREAM_STATE_ACQUIRED
  have "resources ((snd (mm_stream_config venus a_family e c s))\<lparr>st_state := MM_STREAM_STATE_CFG\<rparr>)" for c
    using config_alike [of s venus a_family e c] assms(1) MM_STREAM_STATE_ACQUIRED by (auto simp: alike_def resources_def)
  then show ?thesis using assms MM_STREAM_STATE_ACQUIRED
    by (cases evt) (simp_all add: mm_stream_fsm_fn_def mm_stream_fsm_acquired_def set_st_def mm_stream_release_def resources_def)
next
  case MM_STREAM_STATE_CFG
  have "resources ((snd (mm_stream_config venus a_family e c s))\<lparr>st_state := MM_STREAM_STATE_CFG\<rparr>)" for c
    using config_alike [of s venus a_family e c] assms(1) MM_STREAM_STATE_CFG by (auto simp: alike_def resources_def)
  moreover obtain rc s' where i: "mm_stream_init_bufs e s = (rc, s')" by fastforce
  note sh = init_bufs_shape [OF i assms(2,1)]
  have "resources (snd (set_st_ok MM_STREAM_STATE_BUFFED (rc, s')))"
    using sh assms(1) MM_STREAM_STATE_CFG by (auto simp: set_st_ok_def set_st_def resources_def)
  ultimately show ?thesis using assms MM_STREAM_STATE_CFG i
    by (cases evt) (simp_all add: mm_stream_fsm_fn_def mm_stream_fsm_cfg_def set_st_def mm_stream_release_def resources_def)
next
  case MM_STREAM_STATE_BUFFED
  have "alike s (snd (mm_stream_reg_buf e s))"
    using reg_loop_alike [of "s\<lparr>queued_buffer_count := 0\<rparr>" e 0]
    by (auto simp: mm_stream_reg_buf_def Let_def alike_def split: option.split)
  then have "resources (snd (set_st_ok MM_STREAM_STATE_REG (mm_stream_reg_buf e s)))"
    using assms(1) MM_STREAM_STATE_BUFFED by (auto simp: set_st_ok_def set_st_def alike_def resources_def)
  then show ?thesis using assms MM_STREAM_STATE_BUFFED
    by (cases evt) (auto simp: mm_stream_fsm_fn_def mm_stream_fsm_buffed_def set_st_def mm_stream_deinit_bufs_def resources_def)
next
  case MM_STREAM_STATE_REG
  have "alike s ((release_cmd_thread e (poll_del (s\<lparr>cmd_active := True, app_queue := [], st_state := MM_STREAM_STATE_ACTIVE\<rparr>)))\<lparr>st_state := st_state s\<rparr>)"
    "alike s ((release_cmd_thread e (s\<lparr>cmd_active := True, app_queue := [], st_state := MM_STREAM_STATE_ACTIVE\<rparr>))\<lparr>st_state := st_state s\<rparr>)"
    using release_thread_alike [of "poll_del (s\<lparr>cmd_active := True, app_queue := [], st_state := MM_STREAM_STATE_ACTIVE\<rparr>)" e]
      release_thread_alike [of "s\<lparr>cmd_active := True, app_queue := [], st_state := MM_STREAM_STATE_ACTIVE\<rparr>" e]
    by (simp_all add: alike_def poll_del_def)
  then have "resources (snd (stream_start e s))" using assms(1) MM_STREAM_STATE_REG
    by (auto simp: stream_start_def mm_stream_streamon_def Let_def alike_def resources_def poll_del_def)
  then show ?thesis using assms MM_STREAM_STATE_REG
    by (cases evt) (auto simp: mm_stream_fsm_fn_def mm_stream_fsm_reg_def set_st_def mm_stream_unreg_buf_def resources_def
        option.map_comp comp_def)
next
  case MM_STREAM_STATE_ACTIVE
  let ?off = "snd (mm_stream_streamoff e s)"
  have off: "alike s ?off" by (simp add: mm_stream_streamoff_def alike_def poll_del_def)
  have "alike s (if has_cb ?off then release_cmd_thread e ?off else ?off)"
    using off alike_trans [OF off release_thread_alike] by (intro if_alike)
  then have "resources (snd (stream_stop e s))" using assms(1) MM_STREAM_STATE_ACTIVE
    by (auto simp: stream_stop_def Let_def alike_def resources_def split: prod.split)
  moreover have "resources (snd (mm_stream_buf_done e b s))" for b
    by (rule alike_resources [OF buf_done_alike assms(1)])
  ultimately show ?thesis using assms MM_STREAM_STATE_ACTIVE
    by (cases evt) (simp_all add: mm_stream_fsm_fn_def mm_stream_fsm_active_def)
qed

lemma step_resources:
  assumes "resources s" and "action_ok a"
  shows "resources (stream_step venus a_family a s)"
proof (cases a)
  case (Fsm e evt)
  then show ?thesis using assms fsm_resources by (simp add: stream_step_def action_ok_def)
next
  case (Notify e mem)
  then show ?thesis using alike_resources [OF data_notify_alike assms(1)] by (simp add: stream_step_def)
next
  case (Round e)
  have "alike s (stream_thread_round e s)"
  proof (cases "app_queue s")
    case (Cons info rest)
    have "alike s (s\<lparr>app_queue := rest\<rparr>)" by (simp add: alike_def)
    from alike_trans [OF this dispatch_info_alike] Cons show ?thesis by (simp add: stream_thread_round_def)
  qed (simp add: stream_thread_round_def)
  then show ?thesis using alike_resources assms(1) Round by (auto simp: stream_step_def)
next
  case (RegCb n)
  have "alike s (snd (mm_stream_reg_buf_cb n s))" by (simp add: mm_stream_reg_buf_cb_def alike_def split: option.split)
  then show ?thesis using alike_resources assms(1) RegCb by (auto simp: stream_step_def)
qed (use assms in \<open>simp add: stream_step_def resources_def\<close>)

definition fresh_stream :: "u32 \<Rightarrow> mm_stream_layout \<Rightarrow> mm_stream_t" where
  "fresh_stream h l = \<lparr>stream_info = stream_info l, padding_info = padding_info l, frame_offset = frame_offset l,
     st_hdl = h, st_server_id = 0, st_fd = 0, st_state = MM_STREAM_STATE_INITED, cmd_active = False,
     buf_cb = replicate MM_CAMERA_STREAM_BUF_CB_MAX None, buf_num = 0, st_buf = None, buf_status = None,
     is_bundled = False, is_linked = False, queued_buffer_count = 0, preview_skip = 0, polled = False,
     kernel_bufs = {}, ch_posts = [], linked_posts = [], app_queue = [], app_calls = []\<rparr>"

text \<open>
  C14. stream_resources. In every run of a stream object from its initialisation, with any events in any order and
  any answers of the kernel, the server and the client's memory operations, the device is open exactly from the
  acquisition to the release, and buffers (with a status for each) exist exactly in the states BUFFED, REG and
  ACTIVE.
\<close>

theorem stream_resources:
  assumes "list_all action_ok as" and "stream_run venus a_family as (fresh_stream h l) = s"
  shows "(0 < st_fd s \<longleftrightarrow> st_state s \<notin> {MM_STREAM_STATE_NOTUSED, MM_STREAM_STATE_INITED}) \<and>
    (st_buf s \<noteq> None \<longleftrightarrow> st_state s \<in> {MM_STREAM_STATE_BUFFED, MM_STREAM_STATE_REG, MM_STREAM_STATE_ACTIVE}) \<and>
    map_option length (buf_status s) = map_option length (st_buf s)"
proof -
  have "resources (stream_run venus a_family as s0)" if "resources s0" "list_all action_ok as" for s0 as
    using that by (induction as arbitrary: s0) (simp_all add: stream_run_def step_resources)
  moreover have "resources (fresh_stream h l)" by (simp add: resources_def fresh_stream_def)
  ultimately have "resources s" using assms by blast
  then show ?thesis by (simp only: resources_def)
qed

definition open_env :: stream_env where
  "open_env = \<lparr>e_dev_name = True, e_open = 5, e_ext_mode = (0, 1), e_ctrl = 0, e_s_fmt = 0,
     e_get_bufs = Inr [(\<lparr>b_stream_id = 0, b_stream_type = CAM_STREAM_TYPE_DEFAULT, b_buf_idx = 0, b_buffer = None\<rparr>, True)],
     e_put_bufs = 0, e_alloc = True, e_reqbufs = 0, e_qbuf = (\<lambda>_. 0), e_invalidate = None, e_streamon = 0,
     e_streamoff = 0, e_dqbuf = None, e_clean = None\<rparr>"

definition open_session :: "stream_action list" where
  "open_session = map (Fsm open_env) [MM_STREAM_EVT_ACQUIRE,
     MM_STREAM_EVT_SET_FMT \<lparr>cfg_info = stream_info (demo_layout CAM_STREAM_TYPE_PREVIEW CAM_FORMAT_YUV_420_NV21 (demo_dim 640 480)),
       cfg_num_bufs = 1, cfg_padding = padding_info (demo_layout CAM_STREAM_TYPE_PREVIEW CAM_FORMAT_YUV_420_NV21 (demo_dim 640 480)),
       cfg_cb = True\<rparr>,
     MM_STREAM_EVT_GET_BUF]"

definition opened :: mm_stream_t where
  "opened = stream_run None False open_session
     (fresh_stream 1 (demo_layout CAM_STREAM_TYPE_PREVIEW CAM_FORMAT_YUV_420_NV21 (demo_dim 640 480)))"

lemma open_session_ok: "list_all action_ok open_session"
  by (simp add: open_session_def action_ok_def env_ok_def open_env_def)

theorem stream_resources_witness:
  "st_state opened = MM_STREAM_STATE_BUFFED \<and> 0 < st_fd opened \<and> st_buf opened \<noteq> None \<and>
   map_option length (buf_status opened) = map_option length (st_buf opened)"
proof -
  have st: "st_state opened = MM_STREAM_STATE_BUFFED" by code_simp
  show ?thesis using stream_resources [OF open_session_ok opened_def [symmetric]] by (simp add: st)
qed

end
