(* ===== verification/MmStreamRefs.thy ===== *)
theory MmStreamRefs
  imports MmStreamProps "HOL-Library.Multiset"
begin

text \<open>
  The reference counts of a streaming stream: while nothing fails, each buffer is either owned by the kernel, with
  count zero, or held by exactly as many holders (the channel, the linked channel, callbacks, the stream's own
  thread) as its count says, and it returns to the kernel when the last holder gives it back.
\<close>

section \<open>The state of the buffers\<close>

text \<open>
  \<open>core s n r K\<close>: the stream has \<open>n\<close> buffers, \<open>r\<close> are their reference counts and \<open>K\<close> those in the kernel, as seen by
  the driver, by the status, by the count of queued buffers and by the poll thread.
\<close>

definition core :: "mm_stream_t \<Rightarrow> nat \<Rightarrow> (nat \<Rightarrow> nat) \<Rightarrow> nat set \<Rightarrow> bool" where
  "core s n r K \<longleftrightarrow> n \<le> 24 \<and> K \<subseteq> {..<n} \<and> kernel_bufs s = K \<and> queued_buffer_count s = of_nat (card K) \<and>
     (polled s \<longleftrightarrow> K \<noteq> {}) \<and> map_option length (st_buf s) = Some n \<and> map_option length (buf_status s) = Some n \<and>
     (\<forall>i < n. unat (refcnt s i) = r i) \<and> (\<forall>i < n. in_kernel (the (buf_status s) ! i) \<longleftrightarrow> i \<in> K)"

text \<open>The fields that have nothing to do with the buffers.\<close>

definition same_rest :: "mm_stream_t \<Rightarrow> mm_stream_t \<Rightarrow> bool" where
  "same_rest s s' \<longleftrightarrow> st_state s' = st_state s \<and> stream_info s' = stream_info s \<and> buf_cb s' = buf_cb s \<and>
     cmd_active s' = cmd_active s \<and> is_bundled s' = is_bundled s \<and> is_linked s' = is_linked s \<and>
     preview_skip s' = preview_skip s \<and> st_hdl s' = st_hdl s \<and> ch_posts s' = ch_posts s \<and>
     linked_posts s' = linked_posts s \<and> app_queue s' = app_queue s \<and> app_calls s' = app_calls s"

lemma same_rest_refl [simp]: "same_rest s s"
  by (simp add: same_rest_def)

lemma same_rest_trans: "same_rest s t \<Longrightarrow> same_rest t u \<Longrightarrow> same_rest s u"
  by (simp add: same_rest_def)

lemma same_rest_has_cb: "same_rest s s' \<Longrightarrow> has_cb s' = has_cb s"
  by (simp add: same_rest_def has_cb_def)

lemma coreI_same:
  assumes "core s n r K" and "buf_status s' = buf_status s" and "map_option length (st_buf s') = map_option length (st_buf s)"
    and "queued_buffer_count s' = queued_buffer_count s" and "polled s' = polled s" and "kernel_bufs s' = kernel_bufs s"
  shows "core s' n r K"
  using assms by (simp add: core_def refcnt_def)

lemma core_status:
  assumes "core s n r K"
  obtains st where "buf_status s = Some st" and "length st = n" and "\<And>i. i < n \<Longrightarrow> unat (buf_refcnt (st ! i)) = r i"
    and "\<And>i. i < n \<Longrightarrow> in_kernel (st ! i) \<longleftrightarrow> i \<in> K"
  using assms by (auto simp: core_def refcnt_def)

lemma core_add_ref:
  assumes "core s n r K" and "i < n" and "r i < 255"
  shows "core (add_ref i s) n (r(i := r i + 1)) K" and "same_rest s (add_ref i s)"
proof -
  show "same_rest s (add_ref i s)" by (simp add: same_rest_def add_ref_def upd_status_def)
  obtain st where st: "buf_status s = Some st" "length st = n" "\<And>i. i < n \<Longrightarrow> unat (buf_refcnt (st ! i)) = r i"
    "\<And>i. i < n \<Longrightarrow> in_kernel (st ! i) \<longleftrightarrow> i \<in> K" using core_status [OF assms(1)] by blast
  have "unat (buf_refcnt (st ! i) + 1) = r i + 1" using assms(2,3) st(3) [of i] by (simp add: unat_word_ariths)
  then have "unat (buf_refcnt (st[i := (st ! i)\<lparr>buf_refcnt := buf_refcnt (st ! i) + 1\<rparr>] ! j)) = (r(i := r i + 1)) j"
    if "j < n" for j using that assms(2) st(2,3) by (cases "j = i") simp_all
  moreover have "in_kernel (st[i := (st ! i)\<lparr>buf_refcnt := buf_refcnt (st ! i) + 1\<rparr>] ! j) \<longleftrightarrow> j \<in> K" if "j < n" for j
    using that assms(2) st(2,4) by (cases "j = i") simp_all
  ultimately show "core (add_ref i s) n (r(i := r i + 1)) K"
    using assms(1) st(1,2) by (simp add: core_def add_ref_def upd_status_def refcnt_def)
qed

lemma core_drop_ref:
  assumes "core s n r K" and "i < n" and "0 < r i"
  shows "core (drop_ref i s) n (r(i := r i - 1)) K" and "same_rest s (drop_ref i s)"
proof -
  show "same_rest s (drop_ref i s)" by (simp add: same_rest_def drop_ref_def upd_status_def)
  obtain st where st: "buf_status s = Some st" "length st = n" "\<And>i. i < n \<Longrightarrow> unat (buf_refcnt (st ! i)) = r i"
    "\<And>i. i < n \<Longrightarrow> in_kernel (st ! i) \<longleftrightarrow> i \<in> K" using core_status [OF assms(1)] by blast
  have "buf_refcnt (st ! i) \<noteq> 0" using assms(2,3) st(3) [of i] by auto
  then have "unat (buf_refcnt (st ! i) - 1) = r i - 1" using assms(2) st(3) [of i] by (simp add: unat_minus_one)
  then have "unat (buf_refcnt (st[i := (st ! i)\<lparr>buf_refcnt := buf_refcnt (st ! i) - 1\<rparr>] ! j)) = (r(i := r i - 1)) j"
    if "j < n" for j using that assms(2) st(2,3) by (cases "j = i") simp_all
  moreover have "in_kernel (st[i := (st ! i)\<lparr>buf_refcnt := buf_refcnt (st ! i) - 1\<rparr>] ! j) \<longleftrightarrow> j \<in> K" if "j < n" for j
    using that assms(2) st(2,4) by (cases "j = i") simp_all
  ultimately show "core (drop_ref i s) n (r(i := r i - 1)) K"
    using assms(1) st(1,2) by (simp add: core_def drop_ref_def upd_status_def refcnt_def)
qed

text \<open>An environment in which queuing, cache operations and allocations succeed.\<close>

definition coop :: "stream_env \<Rightarrow> nat \<Rightarrow> bool" where
  "coop e i \<longleftrightarrow> e_qbuf e i = 0 \<and> (case e_invalidate e of None \<Rightarrow> True | Some f \<Rightarrow> 0 \<le> f i) \<and>
     (case e_clean e of None \<Rightarrow> True | Some f \<Rightarrow> f i = 0)"

lemma card_word: "n \<le> (24 :: nat) \<Longrightarrow> K \<subseteq> {..<n} \<Longrightarrow> card K \<le> 24"
  using card_mono [of "{..<n}" K] by simp

lemma core_qbuf:
  assumes "core s n r K" and "i < n" and "i \<notin> K" and "unat (b_buf_idx b) = i" and "coop e i"
  shows "\<exists>s'. mm_stream_qbuf e b s = (0, s') \<and> core (set_in_kernel True i s') n r (insert i K) \<and> same_rest s s' \<and>
    buf_status s' = buf_status s"
proof -
  let ?s' = "s\<lparr>queued_buffer_count := queued_buffer_count s + 1, polled := True, kernel_bufs := insert i (kernel_bufs s)\<rparr>"
  have K: "finite K" "card K \<le> 24" "kernel_bufs s = K" "queued_buffer_count s = of_nat (card K)" "polled s \<longleftrightarrow> K \<noteq> {}"
    using assms(1) card_word finite_subset by (auto simp: core_def)
  have n1: "queued_buffer_count s + 1 = 1 \<longleftrightarrow> K = {}"
  proof -
    have "(of_nat (card K) :: u8) = 0 \<longleftrightarrow> card K = 0"
      using K(2) by (auto simp: word_of_nat_eq_0_iff dest: dvd_imp_le)
    then show ?thesis using K(1,4) by simp
  qed
  have q: "mm_stream_qbuf e b s = (0, ?s')"
    using assms(4,5) n1 K(5) by (auto simp: mm_stream_qbuf_def Let_def coop_def poll_add_def split: option.split)
  obtain st where st: "buf_status s = Some st" "length st = n" "\<And>i. i < n \<Longrightarrow> unat (buf_refcnt (st ! i)) = r i"
    "\<And>i. i < n \<Longrightarrow> in_kernel (st ! i) \<longleftrightarrow> i \<in> K" using core_status [OF assms(1)] by blast
  have "unat (buf_refcnt (st[i := (st ! i)\<lparr>in_kernel := True\<rparr>] ! j)) = r j"
    "in_kernel (st[i := (st ! i)\<lparr>in_kernel := True\<rparr>] ! j) \<longleftrightarrow> j \<in> insert i K" if "j < n" for j
    using that assms(2) st by (cases "j = i"; simp)+
  then have "core (set_in_kernel True i ?s') n r (insert i K)"
    using assms(1,2,3) st(1,2) K by (simp add: core_def set_in_kernel_def upd_status_def refcnt_def)
  moreover have "same_rest s ?s'" by (simp add: same_rest_def)
  moreover have "buf_status ?s' = buf_status s" by simp
  ultimately show ?thesis using q by blast
qed

lemma core_done:
  assumes "core s n r K" and "i < n" and "0 < r i" and "i \<notin> K" and "unat (b_buf_idx b) = i" and "coop e i"
  shows "core (snd (mm_stream_buf_done e b s)) n (r(i := r i - 1)) (if r i = 1 then insert i K else K)"
    and "same_rest s (snd (mm_stream_buf_done e b s))"
proof -
  note d = core_drop_ref [OF assms(1-3)]
  have ri: "unat (refcnt s i) = r i" "unat (refcnt (drop_ref i s) i) = r i - 1"
    using assms(1,2) d(1) by (auto simp: core_def)
  then have pos: "refcnt s i \<noteq> 0" using assms(3) by auto
  have zero: "refcnt (drop_ref i s) i = 0 \<longleftrightarrow> r i = 1" using ri(2) assms(3) by (metis One_nat_def Suc_pred diff_is_0_eq le_numeral_extra(4) unsigned_eq_0_iff)
  obtain s' where q: "mm_stream_qbuf e b (drop_ref i s) = (0, s')" "core (set_in_kernel True i s') n (r(i := r i - 1)) (insert i K)"
    "same_rest (drop_ref i s) s'" using core_qbuf [OF d(1) assms(2,4,5,6)] by blast
  have r': "same_rest s (set_in_kernel True i s')"
    using same_rest_trans [OF d(2) q(3)] by (simp add: same_rest_def set_in_kernel_def upd_status_def)
  have e: "mm_stream_buf_done e b s = (if r i = 1 then (0, set_in_kernel True i s') else (0, drop_ref i s))"
    using pos zero q(1) assms(5) by (simp add: mm_stream_buf_done_def Let_def)
  show "core (snd (mm_stream_buf_done e b s)) n (r(i := r i - 1)) (if r i = 1 then insert i K else K)"
    using e q(2) d(1) by (cases "r i = 1") simp_all
  show "same_rest s (snd (mm_stream_buf_done e b s))" using e r' d(2) by simp
qed

section \<open>Taking a frame out\<close>

lemma core_read:
  assumes "core s n r K" and "i \<in> K" and "e_dqbuf e = Some (i, sq)" and "coop e i"
  obtains b s1 where "mm_stream_read_msm_frame e s = (0, Some \<lparr>bi_stream_id = st_hdl s, bi_frame_idx = sq, bi_buf = Some b\<rparr>, s1)"
    and "unat (b_buf_idx b) = i" and "core (set_in_kernel False i s1) n r (K - {i})" and "same_rest s s1"
proof -
  let ?b = "(the (st_buf s) ! i)\<lparr>b_stream_id := st_hdl s, b_buf_idx := of_nat i\<rparr>"
  let ?s1 = "s\<lparr>queued_buffer_count := queued_buffer_count s - 1, kernel_bufs := kernel_bufs s - {i}, polled := K - {i} \<noteq> {},
    st_buf := map_option (\<lambda>bs. bs[i := ?b]) (st_buf s)\<rparr>"
  have K: "finite K" "card K \<le> 24" "kernel_bufs s = K" "queued_buffer_count s = of_nat (card K)" "polled s \<longleftrightarrow> K \<noteq> {}" "i < n" "n \<le> 24"
    using assms(1,2) card_word finite_subset by (auto simp: core_def)
  have pos: "0 < card K" using assms(2) K(1) by (auto simp: card_gt_0_iff)
  then have q: "queued_buffer_count s - 1 = of_nat (card (K - {i}))"
    using assms(2) K(1,4) by (simp add: of_nat_diff)
  have "(of_nat (card (K - {i})) :: u8) = 0 \<longleftrightarrow> card (K - {i}) = 0"
    using K(2) assms(2) by (auto simp: word_of_nat_eq_0_iff dest: dvd_imp_le)
  then have z: "queued_buffer_count s - 1 = 0 \<longleftrightarrow> K - {i} = {}" using q K(1) by simp
  have bi: "unat (b_buf_idx ?b) = i" using K(6,7) by (simp add: unsigned_of_nat take_bit_nat_eq_self)
  have "mm_stream_read_msm_frame e s = (0, Some \<lparr>bi_stream_id = st_hdl s, bi_frame_idx = sq, bi_buf = Some ?b\<rparr>, ?s1)"
    using assms(2-4) z K(5) by (auto simp: mm_stream_read_msm_frame_def Let_def coop_def poll_del_def split: option.split)
  moreover obtain st where st: "buf_status s = Some st" "length st = n" "\<And>i. i < n \<Longrightarrow> unat (buf_refcnt (st ! i)) = r i"
    "\<And>i. i < n \<Longrightarrow> in_kernel (st ! i) \<longleftrightarrow> i \<in> K" using core_status [OF assms(1)] by blast
  have "unat (buf_refcnt (st[i := (st ! i)\<lparr>in_kernel := False\<rparr>] ! j)) = r j"
    "in_kernel (st[i := (st ! i)\<lparr>in_kernel := False\<rparr>] ! j) \<longleftrightarrow> j \<in> K - {i}" if "j < n" for j
    using that K(6) st by (cases "j = i"; simp)+
  then have "core (set_in_kernel False i ?s1) n r (K - {i})"
    using assms(1) st(1,2) K(3) q by (auto simp: core_def set_in_kernel_def upd_status_def refcnt_def option.map_comp comp_def)
  moreover have "same_rest s ?s1" by (simp add: same_rest_def)
  ultimately show thesis using that bi by blast
qed

definition buf_index :: "mm_camera_buf_info_t \<Rightarrow> nat" where
  "buf_index info = (case bi_buf info of Some b \<Rightarrow> unat (b_buf_idx b) | None \<Rightarrow> 0)"

text \<open>What a stream has handed out: to its channel, to the linked channel, to the callbacks.\<close>

definition handed :: "mm_stream_t \<Rightarrow> nat multiset" where
  "handed s = image_mset buf_index (mset (ch_posts s) + mset (linked_posts s)) + image_mset snd (mset (app_calls s))"

definition waiting :: "mm_stream_t \<Rightarrow> nat \<Rightarrow> nat" where
  "waiting s i = count (image_mset buf_index (mset (app_queue s))) i"

text \<open>Callbacks without a limit, as the client registers them, and at least one.\<close>

definition cbs_ok :: "mm_stream_t \<Rightarrow> bool" where
  "cbs_ok s \<longleftrightarrow> length (buf_cb s) = MM_CAMERA_STREAM_BUF_CB_MAX \<and> list_all (\<lambda>c. c = None \<or> c = Some (-1)) (buf_cb s) \<and>
     has_cb s \<and> cmd_active s"

definition session :: "nat multiset \<Rightarrow> nat multiset \<Rightarrow> nat \<Rightarrow> mm_stream_t \<Rightarrow> bool" where
  "session init ret n s \<longleftrightarrow> st_state s = MM_STREAM_STATE_ACTIVE \<and> cbs_ok s \<and>
     list_all (\<lambda>info. bi_buf info \<noteq> None \<and> buf_index info < n) (app_queue s) \<and>
     (\<exists>r. core s n r {i. i < n \<and> r i = 0} \<and>
       (\<forall>i < n. r i + count ret i = count init i + count (handed s) i + waiting s i \<and>
          count ret i \<le> count init i + count (handed s) i \<and> r i + 4 * waiting s i \<le> 7))"

lemma sessionI:
  assumes "st_state s = MM_STREAM_STATE_ACTIVE" and "cbs_ok s"
    and "list_all (\<lambda>info. bi_buf info \<noteq> None \<and> buf_index info < n) (app_queue s)"
    and "core s n r K" and "K = {i. i < n \<and> r i = 0}"
    and "\<And>i. i < n \<Longrightarrow> r i + count ret i = count init i + count (handed s) i + waiting s i"
    and "\<And>i. i < n \<Longrightarrow> count ret i \<le> count init i + count (handed s) i" and "\<And>i. i < n \<Longrightarrow> r i + 4 * waiting s i \<le> 7"
  shows "session init ret n s"
  unfolding session_def using assms by blast

lemma cbs_ok_same: "same_rest s s' \<Longrightarrow> cbs_ok s' = cbs_ok s"
  by (simp add: same_rest_def cbs_ok_def has_cb_def)

section \<open>Giving back and dispatching\<close>

lemma session_give:
  assumes "session init ret n s" and "unat (b_buf_idx b) = i" and "i < n" and "coop e i"
    and "count ret i < count init i + count (handed s) i"
  shows "session init (add_mset i ret) n (snd (mm_stream_buf_done e b s))"
proof -
  obtain r where s: "st_state s = MM_STREAM_STATE_ACTIVE" "cbs_ok s"
    "list_all (\<lambda>info. bi_buf info \<noteq> None \<and> buf_index info < n) (app_queue s)" "core s n r {i. i < n \<and> r i = 0}"
    "\<forall>i < n. r i + count ret i = count init i + count (handed s) i + waiting s i \<and>
       count ret i \<le> count init i + count (handed s) i \<and> r i + 4 * waiting s i \<le> 7"
    using assms(1) by (auto simp: session_def)
  have ri: "0 < r i" using s(5) assms(3,5) by (metis add_cancel_right_left add_le_cancel_left leD le_add1 neq0_conv)
  let ?s' = "snd (mm_stream_buf_done e b s)"
  note d = core_done [OF s(4) assms(3) ri _ assms(2,4)]
  have rest: "same_rest s ?s'" using d(2) ri by simp
  have same: "handed ?s' = handed s" "waiting ?s' = waiting s" "app_queue ?s' = app_queue s" "st_state ?s' = st_state s"
    using rest by (simp_all add: same_rest_def handed_def waiting_def fun_eq_iff)
  show ?thesis
  proof (rule sessionI)
    show "core ?s' n (r(i := r i - 1)) (if r i = 1 then insert i {i. i < n \<and> r i = 0} else {i. i < n \<and> r i = 0})"
      using d(1) ri by simp
    show "(if r i = 1 then insert i {i. i < n \<and> r i = 0} else {i. i < n \<and> r i = 0}) = {j. j < n \<and> (r(i := r i - 1)) j = 0}"
      using assms(3) ri by auto
    show "(r(i := r i - 1)) j + count (add_mset i ret) j = count init j + count (handed ?s') j + waiting ?s' j" if "j < n" for j
      using s(5) that ri same by (cases "j = i") auto
    show "count (add_mset i ret) j \<le> count init j + count (handed ?s') j" if "j < n" for j
      using s(5) that assms(5) same by (cases "j = i") auto
    show "(r(i := r i - 1)) j + 4 * waiting ?s' j \<le> 7" if "j < n" for j
      using s(5) that same by (cases "j = i") (auto simp: le_diff_conv intro: order_trans [OF add_right_mono])
  qed (use s same cbs_ok_same [OF rest] in simp_all)
qed

lemma fold_call_cb:
  assumes "core s n r K" and "i < n" and "r i + length ks \<le> 255"
    and "\<And>k. k \<in> set ks \<Longrightarrow> buf_cb s ! k = None \<or> buf_cb s ! k = Some (-1)"
  defines "ks' \<equiv> filter (\<lambda>k. buf_cb s ! k \<noteq> None) ks"
  shows "core (fold (call_cb i) ks s) n (r(i := r i + length ks')) K"
    and "same_rest (s\<lparr>app_calls := app_calls s @ map (\<lambda>k. (k, i)) ks'\<rparr>) (fold (call_cb i) ks s)"
  using assms(1-4) unfolding ks'_def
proof (induction ks arbitrary: s r)
  case (Cons k ks)
  { case 1 then show ?case
    proof (cases "buf_cb s ! k")
      case None
      then have "call_cb i k s = s" by (simp add: call_cb_def)
      then show ?thesis using Cons(1) [of s r] 1 None by simp
    next
      case (Some c)
      let ?t = "(add_ref i s)\<lparr>app_calls := app_calls s @ [(k, i)]\<rparr>"
      have t: "call_cb i k s = ?t" using Some 1(4) [of k] by (simp add: call_cb_def)
      have "core (add_ref i s) n (r(i := r i + 1)) K" using 1 by (intro core_add_ref) simp_all
      then have c: "core ?t n (r(i := r i + 1)) K" by (rule coreI_same) simp_all
      have bt: "buf_cb ?t = buf_cb s" by (simp add: add_ref_def upd_status_def)
      have "core (fold (call_cb i) ks ?t) n ((r(i := r i + 1))(i := (r(i := r i + 1)) i +
          length (filter (\<lambda>k. buf_cb ?t ! k \<noteq> None) ks))) K"
        by (rule Cons(1) [of ?t "r(i := r i + 1)"]) (use c 1 bt in \<open>simp_all del: fun_upd_apply\<close>, use 1 in simp)
      then have "core (fold (call_cb i) ks ?t) n ((r(i := r i + 1))(i := (r(i := r i + 1)) i +
          length (filter (\<lambda>k. buf_cb s ! k \<noteq> None) ks))) K" unfolding bt .
      moreover have "(r(i := r i + 1))(i := (r(i := r i + 1)) i + length xs) = r(i := r i + length (k # xs))" for xs
        by (simp add: fun_eq_iff)
      moreover have "filter (\<lambda>k. buf_cb s ! k \<noteq> None) (k # ks) = k # filter (\<lambda>k. buf_cb s ! k \<noteq> None) ks"
        "fold (call_cb i) (k # ks) s = fold (call_cb i) ks ?t" using Some t by simp_all
      ultimately show ?thesis by (simp only:)
    qed }
  { case 2 then show ?case
    proof (cases "buf_cb s ! k")
      case None
      then have "call_cb i k s = s" by (simp add: call_cb_def)
      then show ?thesis using Cons(2) [of s r] 2 None by simp
    next
      case (Some c)
      let ?t = "(add_ref i s)\<lparr>app_calls := app_calls s @ [(k, i)]\<rparr>"
      have t: "call_cb i k s = ?t" using Some 2(4) [of k] by (simp add: call_cb_def)
      have "core (add_ref i s) n (r(i := r i + 1)) K" using 2 by (intro core_add_ref) simp_all
      then have c: "core ?t n (r(i := r i + 1)) K" by (rule coreI_same) simp_all
      have bt: "buf_cb ?t = buf_cb s" by (simp add: add_ref_def upd_status_def)
      have "same_rest (?t\<lparr>app_calls := app_calls ?t @ map (\<lambda>k. (k, i)) (filter (\<lambda>k. buf_cb ?t ! k \<noteq> None) ks)\<rparr>)
          (fold (call_cb i) ks ?t)"
        by (rule Cons(2) [of ?t "r(i := r i + 1)"]) (use c 2 bt in \<open>simp_all del: fun_upd_apply\<close>, use 2 in simp)
      then have "same_rest (?t\<lparr>app_calls := app_calls ?t @ map (\<lambda>k. (k, i)) (filter (\<lambda>k. buf_cb s ! k \<noteq> None) ks)\<rparr>)
          (fold (call_cb i) ks ?t)" unfolding bt .
      then show ?thesis using t Some by (simp add: same_rest_def add_ref_def upd_status_def)
    qed }
qed simp_all

lemma session_dispatch:
  assumes "session init ret n (s\<lparr>app_queue := info # app_queue s\<rparr>)" and "bi_buf info = Some b" and "coop e (unat (b_buf_idx b))"
  shows "session init ret n (mm_stream_dispatch_app_data e b s)"
proof -
  let ?s0 = "s\<lparr>app_queue := info # app_queue s\<rparr>" and ?i = "unat (b_buf_idx b)"
  have bi: "buf_index info = ?i" using assms(2) by (simp add: buf_index_def)
  obtain r where s: "st_state s = MM_STREAM_STATE_ACTIVE" "cbs_ok s" "?i < n"
    "list_all (\<lambda>info. bi_buf info \<noteq> None \<and> buf_index info < n) (app_queue s)" "core ?s0 n r {i. i < n \<and> r i = 0}"
    "\<And>i. i < n \<Longrightarrow> r i + count ret i = count init i + count (handed s) i + waiting ?s0 i \<and>
       count ret i \<le> count init i + count (handed s) i \<and> r i + 4 * waiting ?s0 i \<le> 7"
    using assms(1) bi by (auto simp: session_def cbs_ok_def has_cb_def handed_def)
  have w: "waiting ?s0 j = waiting s j + (if j = ?i then 1 else 0)" for j by (simp add: waiting_def bi)
  have ri: "0 < r ?i" "r ?i \<le> 3" using s(6) [OF s(3)] w [of ?i] by auto
  have c0: "core s n r {i. i < n \<and> r i = 0}" using s(5) by (rule coreI_same) simp_all
  let ?ks = "[0..<MM_CAMERA_STREAM_BUF_CB_MAX]"
  let ?n = "length (filter (\<lambda>k. buf_cb s ! k \<noteq> None) ?ks)"
  have n4: "?n \<le> 4" using length_filter_le [of _ ?ks] by (simp add: MM_CAMERA_STREAM_BUF_CB_MAX_def)
  have cb: "buf_cb s ! k = None \<or> buf_cb s ! k = Some (-1)" if "k \<in> set ?ks" for k
    using s(2) that by (auto simp: cbs_ok_def list_all_iff)
  let ?t = "fold (call_cb ?i) ?ks s" and ?r = "r(?i := r ?i + ?n)"
  have len: "r ?i + length ?ks \<le> 255" using ri by (simp add: MM_CAMERA_STREAM_BUF_CB_MAX_def)
  note f = fold_call_cb [OF c0 s(3) len cb]
  have calls: "app_calls ?t = app_calls s @ map (\<lambda>k. (k, ?i)) (filter (\<lambda>k. buf_cb s ! k \<noteq> None) ?ks)"
    using f(2) by (simp add: same_rest_def)
  have nK: "?i \<notin> {i. i < n \<and> r i = 0}" using ri by simp
  have "0 < ?r ?i" using ri by simp
  note d = core_done [OF f(1) s(3) this nK refl assms(3)]
  let ?u = "snd (mm_stream_buf_done e b ?t)"
  have rest: "same_rest (s\<lparr>app_calls := app_calls ?t\<rparr>) ?u" using same_rest_trans [OF f(2) d(2)] calls by simp
  have rep: "image_mset snd (mset (map (\<lambda>k. (k, ?i)) xs)) = replicate_mset (length xs) ?i" for xs :: "nat list"
    by (induction xs) simp_all
  have "app_calls ?u = app_calls ?t" using rest by (simp add: same_rest_def)
  then have "image_mset snd (mset (app_calls ?u)) = image_mset snd (mset (app_calls s)) + replicate_mset ?n ?i"
    unfolding calls by (simp only: mset_append image_mset_union rep)
  then have h: "count (handed ?u) j = count (handed s) j + (if j = ?i then ?n else 0)" for j
    using rest by (simp add: same_rest_def handed_def)
  have same: "app_queue ?u = app_queue s" "waiting ?u = waiting s" "st_state ?u = st_state s"
    using rest by (simp_all add: same_rest_def waiting_def fun_eq_iff)
  have cok: "cbs_ok ?u" using s(2) rest by (simp add: same_rest_def cbs_ok_def has_cb_def)
  have b: "r ?i + ?n - 1 + 4 * waiting s ?i \<le> 7"
  proof -
    have "r ?i + 4 * waiting s ?i \<le> 3" using s(6) [OF s(3)] w [of ?i] by simp
    then show ?thesis using n4 by linarith
  qed
  have e: "r ?i + ?n - 1 + count ret ?i = count init ?i + (count (handed s) ?i + ?n) + waiting s ?i"
  proof -
    have "r ?i + count ret ?i = count init ?i + count (handed s) ?i + waiting s ?i + 1" using s(6) [OF s(3)] w [of ?i] by simp
    then show ?thesis using ri(1) by linarith
  qed
  show ?thesis unfolding mm_stream_dispatch_app_data_def
  proof (rule sessionI)
    show "core ?u n (?r(?i := ?r ?i - 1)) (if ?r ?i = 1 then insert ?i {i. i < n \<and> r i = 0} else {i. i < n \<and> r i = 0})"
      by (rule d(1))
    show "(if ?r ?i = 1 then insert ?i {i. i < n \<and> r i = 0} else {i. i < n \<and> r i = 0}) = {j. j < n \<and> (?r(?i := ?r ?i - 1)) j = 0}"
      using s(3) ri by auto
    show "(?r(?i := ?r ?i - 1)) j + count ret j = count init j + count (handed ?u) j + waiting ?u j" if "j < n" for j
      using s(6) [OF that] w [of j] same h [of j] e by (cases "j = ?i") simp_all
    show "count ret j \<le> count init j + count (handed ?u) j" if "j < n" for j using s(6) [OF that] h [of j] by simp
    show "(?r(?i := ?r ?i - 1)) j + 4 * waiting ?u j \<le> 7" if "j < n" for j
      using s(6) [OF that] w [of j] same b by (cases "j = ?i") simp_all
  qed (use s same cok in simp_all)
qed

section \<open>A frame arrives\<close>

definition refs_taken :: "mm_stream_t \<Rightarrow> nat" where
  "refs_taken s = (if is_bundled s then 1 else 0) + (if is_linked s then 1 else 0)"

lemma same_rest_in_kernel: "same_rest s (set_in_kernel v i s)"
  by (simp add: same_rest_def set_in_kernel_def upd_status_def)

text \<open>The references of a new frame, and the posts.\<close>

lemma frame_refs:
  assumes "core (set_in_kernel False i s) n r K" and "i < n" and "r i = 0" and "has_cb s"
    and "bi_buf info = Some b" and "unat (b_buf_idx b) = i"
  defines "t \<equiv> take_refs i s"
  defines "t1 \<equiv> (if is_bundled t then t\<lparr>ch_posts := ch_posts t @ [info]\<rparr> else t)"
  defines "t2 \<equiv> (if is_linked t1 then (add_ref i t1)\<lparr>linked_posts := linked_posts (add_ref i t1) @ [info]\<rparr> else t1)"
  shows "core t2 n (r(i := refs_taken s + 1)) K" and "same_rest (s\<lparr>ch_posts := ch_posts t2, linked_posts := linked_posts t2\<rparr>) t2"
    and "count (handed t2) j = count (handed s) j + (if j = i then refs_taken s else 0)"
proof -
  define u where "u = set_in_kernel False i s"
  define v where "v = (if is_bundled u then add_ref i u else u)"
  let ?k = "if is_bundled s then 1 else 0 :: nat"
  have u: "same_rest s u" by (simp only: u_def same_rest_in_kernel)
  have b: "is_bundled u = is_bundled s" using u by (simp add: same_rest_def)
  have cu: "core u n r K" using assms(1) by (simp only: u_def)
  have r1: "r i < 255" using assms(3) by simp
  have v: "core v n (r(i := ?k)) K" "same_rest s v"
  proof -
    show "core v n (r(i := ?k)) K"
      using cu core_add_ref(1) [OF cu assms(2) r1] assms(3) b by (cases "is_bundled s") (simp_all add: v_def fun_upd_idem)
    show "same_rest s v" using u same_rest_trans [OF u core_add_ref(2) [OF cu assms(2) r1]] by (simp add: v_def)
  qed
  have "has_cb v" using same_rest_has_cb [OF v(2)] assms(4) by simp
  then have te: "t = add_ref i v" by (simp add: t_def take_refs_def Let_def u_def [symmetric] v_def [symmetric])
  have k1: "(r(i := ?k)) i < 255" by simp
  have "(r(i := ?k))(i := (r(i := ?k)) i + 1) = r(i := ?k + 1)" by (simp add: fun_eq_iff)
  then have t: "core t n (r(i := ?k + 1)) K" "same_rest s t"
    using core_add_ref [OF v(1) assms(2) k1] same_rest_trans [OF v(2)] te by (simp_all only:)
  have t1: "core t1 n (r(i := ?k + 1)) K" using t(1) by (rule coreI_same) (simp_all add: t1_def)
  have t1r: "same_rest (s\<lparr>ch_posts := ch_posts t1\<rparr>) t1" using t(2) by (simp add: t1_def same_rest_def)
  have l: "is_linked t1 = is_linked s" using t1r by (simp add: same_rest_def)
  let ?w = "add_ref i t1"
  have k2: "(r(i := ?k + 1)) i < 255" by simp
  have "(r(i := ?k + 1))(i := (r(i := ?k + 1)) i + 1) = r(i := ?k + 1 + 1)" by (simp add: fun_eq_iff)
  then have w: "core ?w n (r(i := ?k + 1 + 1)) K" "same_rest t1 ?w"
    using core_add_ref [OF t1 assms(2) k2] by (simp_all only:)
  have "core (?w\<lparr>linked_posts := linked_posts ?w @ [info]\<rparr>) n (r(i := ?k + 1 + 1)) K" using w(1) by (rule coreI_same) simp_all
  then show "core t2 n (r(i := refs_taken s + 1)) K"
    using t1 l by (cases "is_linked s") (simp_all add: t2_def refs_taken_def)
  show "same_rest (s\<lparr>ch_posts := ch_posts t2, linked_posts := linked_posts t2\<rparr>) t2"
    using w(2) t1r by (simp add: t2_def same_rest_def)
  have bi: "buf_index info = i" using assms(5,6) by (simp add: buf_index_def)
  have "count (handed t1) j = count (handed s) j + (if j = i then ?k else 0)"
    using t(2) bi by (cases "is_bundled s") (simp_all add: t1_def handed_def same_rest_def)
  moreover have "count (handed t2) j = count (handed t1) j + (if j = i then if is_linked s then 1 else 0 else 0)"
    using w(2) bi l by (cases "is_linked s") (simp_all add: t2_def handed_def same_rest_def)
  ultimately show "count (handed t2) j = count (handed s) j + (if j = i then refs_taken s else 0)"
    by (simp add: refs_taken_def)
qed

lemma session_notify:
  assumes "session init ret n s"
    and "case e_dqbuf e of None \<Rightarrow> True | Some (i, sq) \<Rightarrow> i \<in> kernel_bufs s \<and> coop e i"
  shows "session init ret n (mm_stream_data_notify e (True, True, True) s)"
proof (cases "e_dqbuf e")
  case None
  then show ?thesis using assms(1) by (simp add: data_notify_eq mm_stream_read_msm_frame_def)
next
  case (Some x)
  obtain i sq where x: "x = (i, sq)" by fastforce
  obtain r where s: "st_state s = MM_STREAM_STATE_ACTIVE" "cbs_ok s"
    "list_all (\<lambda>info. bi_buf info \<noteq> None \<and> buf_index info < n) (app_queue s)" "core s n r {i. i < n \<and> r i = 0}"
    "\<forall>i < n. r i + count ret i = count init i + count (handed s) i + waiting s i \<and>
       count ret i \<le> count init i + count (handed s) i \<and> r i + 4 * waiting s i \<le> 7"
    using assms(1) by (auto simp: session_def)
  let ?K = "{i. i < n \<and> r i = 0}"
  have i: "i < n" "r i = 0" "coop e i" using assms(2) Some x s(4) by (auto simp: core_def)
  obtain b s1 where rd: "mm_stream_read_msm_frame e s = (0, Some \<lparr>bi_stream_id = st_hdl s, bi_frame_idx = sq, bi_buf = Some b\<rparr>, s1)"
    "unat (b_buf_idx b) = i" "core (set_in_kernel False i s1) n r (?K - {i})" "same_rest s s1"
    using core_read [OF s(4) _ _ i(3), of sq] i Some x by blast
  define info where "info = \<lparr>bi_stream_id = st_hdl s, bi_frame_idx = sq, bi_buf = Some b\<rparr>"
  have ib: "bi_buf info = Some b" "buf_index info = i" using rd(2) by (simp_all add: info_def buf_index_def)
  have cb: "has_cb s1" using s(2) same_rest_has_cb [OF rd(4)] by (simp add: cbs_ok_def)
  define t where "t = take_refs i s1"
  define t1 where "t1 = (if is_bundled t then t\<lparr>ch_posts := ch_posts t @ [info]\<rparr> else t)"
  define t2 where "t2 = (if is_linked t1 then (add_ref i t1)\<lparr>linked_posts := linked_posts (add_ref i t1) @ [info]\<rparr> else t1)"
  note f = frame_refs [OF rd(3) i(1,2) cb ib(1) rd(2), folded t_def, folded t1_def, folded t2_def]
  define k where "k = refs_taken s1"
  have same: "st_state t2 = st_state s" "cbs_ok t2 = cbs_ok s" "app_queue t2 = app_queue s" "cmd_active t2"
    and h: "count (handed t2) j = count (handed s) j + (if j = i then k else 0)" for j
    using f(2) rd(4) s(2) f(3) [of j] by (simp_all add: same_rest_def cbs_ok_def has_cb_def handed_def k_def)
  have e: "mm_stream_data_notify e (True, True, True) s =
      (if preview_skip t2 \<noteq> 0 \<and> si_type (stream_info t2) = CAM_STREAM_TYPE_PREVIEW
       then snd (mm_stream_buf_done e b (t2\<lparr>preview_skip := preview_skip t2 - 1\<rparr>))
       else t2\<lparr>app_queue := app_queue t2 @ [info]\<rparr>)"
  proof -
    have "mm_stream_data_notify e (True, True, True) s = mm_stream_handle_rcvd_buf e (True, True, True) info b True t"
      using s(1) rd(1,2) cb by (simp add: data_notify_eq info_def t_def)
    also have "\<dots> = (if preview_skip t2 \<noteq> 0 \<and> si_type (stream_info t2) = CAM_STREAM_TYPE_PREVIEW
       then snd (mm_stream_buf_done e b (t2\<lparr>preview_skip := preview_skip t2 - 1\<rparr>))
       else if cmd_active t2 then t2\<lparr>app_queue := app_queue t2 @ [info]\<rparr> else t2)"
      unfolding t2_def t1_def mm_stream_handle_rcvd_buf_def Let_def prod.case simp_thms if_True rd(2) by (rule TrueI)
    finally show ?thesis using same(4) by simp
  qed
  have held: "count ret j \<le> count init j + count (handed s) j" "r i = 0 \<Longrightarrow> waiting s i = 0"
    "r j + count ret j = count init j + count (handed s) j + waiting s j" "r j + 4 * waiting s j \<le> 7" if "j < n" for j
    using s(5) that i(1) by (auto dest: spec [of _ i] spec [of _ j])
  have k2: "k \<le> 2" by (simp add: k_def refs_taken_def)
  show ?thesis
  proof (cases "preview_skip t2 \<noteq> 0 \<and> si_type (stream_info t2) = CAM_STREAM_TYPE_PREVIEW")
    case True
    let ?t = "t2\<lparr>preview_skip := preview_skip t2 - 1\<rparr>" and ?r = "r(i := k + 1)"
    let ?d = "snd (mm_stream_buf_done e b ?t)"
    have c: "core ?t n ?r (?K - {i})" using coreI_same [OF f(1)] by (simp add: k_def)
    have d: "core ?d n (?r(i := ?r i - 1)) (if ?r i = 1 then insert i (?K - {i}) else ?K - {i})" "same_rest ?t ?d"
      using core_done [OF c i(1) _ _ rd(2) i(3)] by simp_all
    have ds: "st_state ?d = st_state s" "cbs_ok ?d" "app_queue ?d = app_queue s" "waiting ?d = waiting s"
      "handed ?d = handed t2"
      using d(2) same s(2) by (simp_all add: same_rest_def cbs_ok_def has_cb_def waiting_def handed_def fun_eq_iff)
    have "session init ret n ?d"
    proof (rule sessionI)
      show "core ?d n (?r(i := ?r i - 1)) (if ?r i = 1 then insert i (?K - {i}) else ?K - {i})" by (rule d(1))
      show "(if ?r i = 1 then insert i (?K - {i}) else ?K - {i}) = {j. j < n \<and> (?r(i := ?r i - 1)) j = 0}"
        using i by auto
      show "(?r(i := ?r i - 1)) j + count ret j = count init j + count (handed ?d) j + waiting ?d j" if "j < n" for j
        using held(3) [OF that] held(3) [OF i(1)] i(2) h [of j] ds by (cases "j = i") simp_all
      show "count ret j \<le> count init j + count (handed ?d) j" if "j < n" for j using held(1) [OF that] h [of j] ds by simp
      show "(?r(i := ?r i - 1)) j + 4 * waiting ?d j \<le> 7" if "j < n" for j
        using held(4) [OF that] held(2) [OF that] i(2) k2 ds by (cases "j = i") simp_all
    qed (use s ds in simp_all)
    then show ?thesis using e True by simp
  next
    case False
    let ?t = "t2\<lparr>app_queue := app_queue t2 @ [info]\<rparr>" and ?r = "r(i := k + 1)"
    have c: "core ?t n ?r (?K - {i})" using coreI_same [OF f(1)] by (simp add: k_def)
    have w: "waiting ?t j = waiting s j + (if j = i then 1 else 0)" for j using same ib by (simp add: waiting_def)
    have ht: "handed ?t = handed t2" by (simp add: handed_def)
    have "session init ret n ?t"
    proof (rule sessionI)
      show "core ?t n ?r (?K - {i})" by (rule c)
      show "?K - {i} = {j. j < n \<and> ?r j = 0}" by auto
      show "?r j + count ret j = count init j + count (handed ?t) j + waiting ?t j" if "j < n" for j
        using held(3) [OF that] held(3) [OF i(1)] i(2) h [of j] ht w [of j] by (cases "j = i") simp_all
      show "count ret j \<le> count init j + count (handed ?t) j" if "j < n" for j using held(1) [OF that] h [of j] ht by simp
      show "?r j + 4 * waiting ?t j \<le> 7" if "j < n" for j
        using held(4) [OF that] held(2) [OF that] i(2) k2 w [of j] by (cases "j = i") simp_all
    qed (use s same ib i in \<open>simp_all add: cbs_ok_def has_cb_def\<close>)
    then show ?thesis using e False by simp
  qed
qed

section \<open>Registration and the whole session\<close>

lemma core_hold:
  assumes "core s n r K" and "i < n" and "i \<notin> K"
  shows "core (upd_status i (\<lambda>x. x\<lparr>buf_refcnt := 1, in_kernel := False\<rparr>) s) n (r(i := 1)) K"
proof -
  obtain st where st: "buf_status s = Some st" "length st = n" "\<And>i. i < n \<Longrightarrow> unat (buf_refcnt (st ! i)) = r i"
    "\<And>i. i < n \<Longrightarrow> in_kernel (st ! i) \<longleftrightarrow> i \<in> K" using core_status [OF assms(1)] by blast
  have "unat (buf_refcnt (st[i := (st ! i)\<lparr>buf_refcnt := 1, in_kernel := False\<rparr>] ! j)) = (r(i := 1)) j"
    "in_kernel (st[i := (st ! i)\<lparr>buf_refcnt := 1, in_kernel := False\<rparr>] ! j) \<longleftrightarrow> j \<in> K" if "j < n" for j
    using that assms(2,3) st by (cases "j = i"; simp)+
  then show ?thesis using assms(1) st(1,2) by (simp add: core_def upd_status_def refcnt_def)
qed

lemma upd_same_rest: "same_rest s (upd_status i f s)"
  by (simp add: same_rest_def upd_status_def)

definition flag_of :: "mm_stream_t \<Rightarrow> nat \<Rightarrow> bool" where
  "flag_of s i = initial_reg_flag (the (buf_status s) ! i)"

lemma flag_of_upd:
  assumes "\<And>x. initial_reg_flag (f x) = initial_reg_flag x" and "buf_status s = Some st" and "j < length st"
  shows "flag_of (upd_status i f s) j = flag_of s j"
  using assms by (cases "j = i") (simp_all add: flag_of_def upd_status_def)

lemma reg_loop_core:
  assumes "core s n r K" and "i + length bs = n" and "\<And>j. i \<le> j \<Longrightarrow> r j = 0 \<and> j \<notin> K"
    and "\<And>m. m < length bs \<Longrightarrow> unat (b_buf_idx (bs ! m)) = i + m" and "list_all (coop e) [0..<n]"
  shows "\<exists>s'. reg_loop e i bs s = (0, s') \<and> same_rest s s' \<and>
    core s' n (\<lambda>j. if j < i \<or> n \<le> j then r j else if flag_of s j then 0 else 1) (K \<union> {j. i \<le> j \<and> j < n \<and> flag_of s j})"
  using assms(1-4)
proof (induction bs arbitrary: i s r K)
  case Nil
  then have "(\<lambda>j. if j < i \<or> n \<le> j then r j else if flag_of s j then 0 else 1) = r" "K \<union> {j. i \<le> j \<and> j < n \<and> flag_of s j} = K"
    by (auto simp: fun_eq_iff)
  then show ?case using Nil(1) by (simp only: reg_loop.simps) simp
next
  case (Cons b bs)
  have i: "i < n" "i \<notin> K" "r i = 0" "unat (b_buf_idx b) = i" "coop e i"
    using Cons.prems assms(5) by (auto simp: list_all_iff dest: meta_spec [of _ 0])
  obtain st where st: "buf_status s = Some st" "length st = n" "\<And>i. i < n \<Longrightarrow> unat (buf_refcnt (st ! i)) = r i"
    "\<And>i. i < n \<Longrightarrow> in_kernel (st ! i) \<longleftrightarrow> i \<in> K" using core_status [OF Cons.prems(1)] by blast
  have idx: "unat (b_buf_idx (bs ! m)) = Suc i + m" if "m < length bs" for m
    using Cons.prems(4) [of "Suc m"] that by simp
  have fl: "(case buf_status s of None \<Rightarrow> False | Some st \<Rightarrow> initial_reg_flag (st ! i)) = flag_of s i"
    using st(1) by (simp add: flag_of_def)
  show ?case
  proof (cases "flag_of s i")
    case True
    obtain s1 where q: "mm_stream_qbuf e b s = (0, s1)" "core (set_in_kernel True i s1) n r (insert i K)" "same_rest s s1"
      "buf_status s1 = buf_status s" using core_qbuf [OF Cons.prems(1) i(1,2,4,5)] by blast
    let ?t = "upd_status i (\<lambda>x. x\<lparr>buf_refcnt := 0, in_kernel := True\<rparr>) s1"
    have "buf_refcnt (st ! i) = 0" using st(3) [OF i(1)] i(3) by (simp add: unsigned_eq_0_iff)
    then have "(st ! i)\<lparr>buf_refcnt := 0, in_kernel := True\<rparr> = (st ! i)\<lparr>in_kernel := True\<rparr>" by (cases "st ! i") simp
    then have t: "?t = set_in_kernel True i s1" using q(4) st(1) by (simp add: set_in_kernel_def upd_status_def)
    have f: "flag_of ?t j = flag_of s j" if "j < n" for j
      using flag_of_upd [of "\<lambda>x. x\<lparr>buf_refcnt := 0, in_kernel := True\<rparr>" s1 st j] q(4) st that by (simp add: flag_of_def)
    have "\<And>j. Suc i \<le> j \<Longrightarrow> r j = 0 \<and> j \<notin> insert i K" using Cons.prems(3) by auto
    from Cons.IH [OF q(2) _ this idx, folded t] Cons.prems(2)
    obtain s' where s': "reg_loop e (Suc i) bs ?t = (0, s')" "same_rest ?t s'"
      "core s' n (\<lambda>j. if j < Suc i \<or> n \<le> j then r j else if flag_of ?t j then 0 else 1)
         (insert i K \<union> {j. Suc i \<le> j \<and> j < n \<and> flag_of ?t j})" by auto
    have "(\<lambda>j. if j < Suc i \<or> n \<le> j then r j else if flag_of ?t j then 0 else 1) =
        (\<lambda>j. if j < i \<or> n \<le> j then r j else if flag_of s j then 0 else 1)"
      using f i(3) True by (auto simp: fun_eq_iff less_Suc_eq)
    moreover have "insert i K \<union> {j. Suc i \<le> j \<and> j < n \<and> flag_of ?t j} = K \<union> {j. i \<le> j \<and> j < n \<and> flag_of s j}"
      using f i(1) True by (auto simp: Suc_le_eq order_le_less)
    moreover have "same_rest s s'" using same_rest_trans [OF q(3) same_rest_trans [OF upd_same_rest s'(2)]] .
    moreover have "reg_loop e i (b # bs) s = (0, s')" using fl True q(1) s'(1) by simp
    ultimately show ?thesis using s'(3) by auto
  next
    case False
    let ?t = "upd_status i (\<lambda>x. x\<lparr>buf_refcnt := 1, in_kernel := False\<rparr>) s"
    have f: "flag_of ?t j = flag_of s j" if "j < n" for j
      using flag_of_upd [of "\<lambda>x. x\<lparr>buf_refcnt := 1, in_kernel := False\<rparr>" s st j] st that by simp
    have "\<And>j. Suc i \<le> j \<Longrightarrow> (r(i := 1)) j = 0 \<and> j \<notin> K" using Cons.prems(3) by auto
    from Cons.IH [OF core_hold [OF Cons.prems(1) i(1,2)] _ this idx] Cons.prems(2)
    obtain s' where s': "reg_loop e (Suc i) bs ?t = (0, s')" "same_rest ?t s'"
      "core s' n (\<lambda>j. if j < Suc i \<or> n \<le> j then (r(i := 1)) j else if flag_of ?t j then 0 else 1)
         (K \<union> {j. Suc i \<le> j \<and> j < n \<and> flag_of ?t j})" by auto
    have "(\<lambda>j. if j < Suc i \<or> n \<le> j then (r(i := 1)) j else if flag_of ?t j then 0 else 1) =
        (\<lambda>j. if j < i \<or> n \<le> j then r j else if flag_of s j then 0 else 1)"
      using f i(1) False by (auto simp: fun_eq_iff less_Suc_eq)
    moreover have "K \<union> {j. Suc i \<le> j \<and> j < n \<and> flag_of ?t j} = K \<union> {j. i \<le> j \<and> j < n \<and> flag_of s j}"
      using f False by (auto simp: Suc_le_eq order_le_less)
    moreover have "same_rest s s'" using same_rest_trans [OF upd_same_rest s'(2)] .
    moreover have "reg_loop e i (b # bs) s = (0, s')" using fl False s'(1) by simp
    ultimately show ?thesis using s'(3) by auto
  qed
qed

text \<open>A stream with buffers that are not registered yet, and nothing handed out.\<close>

definition buffed_ok :: "nat \<Rightarrow> mm_stream_t \<Rightarrow> bool" where
  "buffed_ok n s \<longleftrightarrow> st_state s = MM_STREAM_STATE_BUFFED \<and> core (s\<lparr>queued_buffer_count := 0\<rparr>) n (\<lambda>_. 0) {} \<and>
     buf_num s = of_nat n \<and> (\<forall>i < n. unat (b_buf_idx (the (st_buf s) ! i)) = i) \<and>
     length (buf_cb s) = MM_CAMERA_STREAM_BUF_CB_MAX \<and> list_all (\<lambda>c. c = None \<or> c = Some (-1)) (buf_cb s) \<and> has_cb s \<and>
     app_queue s = [] \<and> handed s = {#}"

text \<open>The buffers the client keeps at the registration.\<close>

definition kept :: "nat \<Rightarrow> mm_stream_t \<Rightarrow> nat multiset" where
  "kept n s = mset (filter (\<lambda>i. \<not> flag_of s i) [0..<n])"

definition started :: "venus_macros option \<Rightarrow> bool \<Rightarrow> stream_env \<Rightarrow> mm_stream_t \<Rightarrow> mm_stream_t" where
  "started venus a_family e s = stream_run venus a_family [Fsm e MM_STREAM_EVT_REG_BUF, Fsm e MM_STREAM_EVT_START] s"

lemma count_filter: "count (mset (filter P [0..<n])) i = (if i < n \<and> P i then 1 else 0)"
  by (induction n) (auto simp: less_Suc_eq)

lemma flag_of_queued [simp]: "flag_of (s\<lparr>queued_buffer_count := x\<rparr>) = flag_of s"
  by (simp add: flag_of_def fun_eq_iff)

lemma session_started:
  assumes "buffed_ok n s" and "list_all (coop e) [0..<n]" and "e_reqbufs e = 0" and "e_streamon e = 0"
  shows "session (kept n s) {#} n (started venus a_family e s)"
proof -
  let ?s = "s\<lparr>queued_buffer_count := 0\<rparr>" and ?bs = "the (st_buf s)"
  have s: "st_state s = MM_STREAM_STATE_BUFFED" "core ?s n (\<lambda>_. 0) {}" "buf_num s = of_nat n" "handed s = {#}"
    "\<And>i. i < n \<Longrightarrow> unat (b_buf_idx (?bs ! i)) = i" "app_queue s = []" "has_cb s"
    "length (buf_cb s) = MM_CAMERA_STREAM_BUF_CB_MAX" "list_all (\<lambda>c. c = None \<or> c = Some (-1)) (buf_cb s)"
    using assms(1) by (auto simp: buffed_ok_def)
  have b: "st_buf s = Some ?bs" "length ?bs = n" "n \<le> 24" using s(2) by (auto simp: core_def)
  have n: "unat (buf_num s) = n" using b(3) s(3) by (simp add: unsigned_of_nat take_bit_nat_eq_self)
  then have "\<not> MM_CAMERA_MAX_NUM_FRAMES < buf_num s" using b(3) by (simp add: MM_CAMERA_MAX_NUM_FRAMES_def word_less_nat_alt)
  then have rq: "mm_stream_request_buf e s = 0" using assms(3) by (simp add: mm_stream_request_buf_def)
  obtain s' where l: "reg_loop e 0 ?bs ?s = (0, s')" "same_rest ?s s'"
    "core s' n (\<lambda>j. if n \<le> j then 0 else if flag_of s j then 0 else 1) {j. j < n \<and> flag_of s j}"
    using reg_loop_core [OF s(2), of 0 ?bs e] b(2) s(5) assms(2) by (auto cong: if_cong)
  have reg: "mm_stream_reg_buf e s = (0, s')" using rq b n l(1) by (cases "st_buf s") (simp_all add: mm_stream_reg_buf_def)
  let ?r = "\<lambda>j. if n \<le> j then 0 else if flag_of s j then 0 else 1 :: nat"
  let ?t = "s'\<lparr>st_state := MM_STREAM_STATE_ACTIVE, cmd_active := True, app_queue := []\<rparr>"
  have cb: "has_cb s'" using same_rest_has_cb [OF l(2)] s(7) by (simp add: has_cb_def)
  have st: "started venus a_family e s = ?t"
    using s(1) reg cb assms(4)
    by (simp add: started_def stream_run_def stream_step_def mm_stream_fsm_fn_def mm_stream_fsm_buffed_def set_st_ok_def
        set_st_def mm_stream_fsm_reg_def stream_start_def mm_stream_streamon_def has_cb_def)
  have h: "handed ?t = {#}" "app_queue ?t = []" "buf_cb ?t = buf_cb s" using l(2) s(4,6) by (simp_all add: same_rest_def handed_def)
  show ?thesis unfolding st
  proof (rule sessionI)
    show "core ?t n ?r {j. j < n \<and> flag_of s j}" using coreI_same [OF l(3)] by simp
    show "{j. j < n \<and> flag_of s j} = {i. i < n \<and> ?r i = 0}" by auto
    show "?r i + count {#} i = count (kept n s) i + count (handed ?t) i + waiting ?t i" if "i < n" for i
      using that h by (simp add: kept_def count_filter waiting_def)
    show "?r i + 4 * waiting ?t i \<le> 7" if "i < n" for i using h by (simp add: waiting_def)
  qed (use h s in \<open>simp_all add: cbs_ok_def has_cb_def\<close>)
qed

text \<open>
  What may happen while it streams: frames of buffers the kernel owns, rounds of the stream's thread, changes of
  the flags, and holders giving back what they hold.
\<close>

fun session_ok ::
    "venus_macros option \<Rightarrow> bool \<Rightarrow> nat multiset \<Rightarrow> nat multiset \<Rightarrow> nat \<Rightarrow> mm_stream_t \<Rightarrow> stream_action list \<Rightarrow> bool" where
  "session_ok venus a_family init ret n s [] = True"
| "session_ok venus a_family init ret n s (a # as) = (case a of
     Fsm e (MM_STREAM_EVT_QBUF b) \<Rightarrow>
       unat (b_buf_idx b) < n \<and> coop e (unat (b_buf_idx b)) \<and>
       count ret (unat (b_buf_idx b)) < count init (unat (b_buf_idx b)) + count (handed s) (unat (b_buf_idx b)) \<and>
       session_ok venus a_family init (add_mset (unat (b_buf_idx b)) ret) n (stream_step venus a_family a s) as
   | Notify e mem \<Rightarrow>
       mem = (True, True, True) \<and>
       (case e_dqbuf e of None \<Rightarrow> True | Some (i, sq) \<Rightarrow> i \<in> kernel_bufs s \<and> coop e i) \<and>
       session_ok venus a_family init ret n (stream_step venus a_family a s) as
   | Round e \<Rightarrow> list_all (coop e) [0..<n] \<and> session_ok venus a_family init ret n (stream_step venus a_family a s) as
   | SetFlags p q k \<Rightarrow> session_ok venus a_family init ret n (stream_step venus a_family a s) as
   | _ \<Rightarrow> False)"

fun returned :: "stream_action list \<Rightarrow> nat multiset" where
  "returned [] = {#}"
| "returned (a # as) = (case a of Fsm e (MM_STREAM_EVT_QBUF b) \<Rightarrow> {#unat (b_buf_idx b)#} | _ \<Rightarrow> {#}) + returned as"

lemma session_run:
  assumes "session init ret n s" and "session_ok venus a_family init ret n s as"
  shows "session init (ret + returned as) n (stream_run venus a_family as s)"
  using assms
proof (induction as arbitrary: s ret)
  case (Cons a as)
  let ?s = "stream_step venus a_family a s"
  have act: "st_state s = MM_STREAM_STATE_ACTIVE" using Cons.prems(1) by (simp add: session_def)
  have goon: "session init (ret + returned (a # as)) n (stream_run venus a_family (a # as) s)"
    if "session init (ret + x) n ?s" "session_ok venus a_family init (ret + x) n ?s as"
      "(case a of Fsm e (MM_STREAM_EVT_QBUF b) \<Rightarrow> {#unat (b_buf_idx b)#} | _ \<Rightarrow> {#}) = x" for x
    using Cons.IH [OF that(1,2)] that(3) by (simp add: stream_run_def add.assoc)
  show ?case
  proof (cases a)
    case (Fsm e evt)
    then obtain b where evt: "evt = MM_STREAM_EVT_QBUF b" using Cons.prems(2) by (cases evt) simp_all
    have "?s = snd (mm_stream_buf_done e b s)"
      using Fsm evt act by (simp add: stream_step_def mm_stream_fsm_fn_def mm_stream_fsm_active_def)
    then show ?thesis using session_give [OF Cons.prems(1) refl] Cons.prems(2) Fsm evt
      by (intro goon [of "{#unat (b_buf_idx b)#}"]) simp_all
  next
    case (Notify e mem)
    then have a: "a = Notify e (True, True, True)" using Cons.prems(2) by simp
    then have "session init ret n ?s" using session_notify [OF Cons.prems(1), of e] Cons.prems(2) by (simp add: stream_step_def)
    then show ?thesis using a Cons.prems(2) by (intro goon [of "{#}"]) simp_all
  next
    case (Round e)
    have "session init ret n (stream_thread_round e s)"
    proof (cases "app_queue s")
      case (Cons info rest)
      obtain b where b: "bi_buf info = Some b" "buf_index info < n" "buf_index info = unat (b_buf_idx b)"
        using Cons.prems(1) Cons by (auto simp: session_def buf_index_def split: option.splits)
      have "(s\<lparr>app_queue := rest\<rparr>)\<lparr>app_queue := info # app_queue (s\<lparr>app_queue := rest\<rparr>)\<rparr> = s" using Cons by (cases s) simp
      then have "session init ret n ((s\<lparr>app_queue := rest\<rparr>)\<lparr>app_queue := info # app_queue (s\<lparr>app_queue := rest\<rparr>)\<rparr>)"
        using Cons.prems(1) by (simp only:)
      moreover have "coop e (unat (b_buf_idx b))" using Cons.prems(2) Round b by (simp add: list_all_iff)
      ultimately have "session init ret n (mm_stream_dispatch_app_data e b (s\<lparr>app_queue := rest\<rparr>))"
        using session_dispatch b(1) by blast
      then show ?thesis using Cons b(1) by (simp add: stream_thread_round_def dispatch_info_def)
    qed (use Cons.prems(1) in \<open>simp add: stream_thread_round_def\<close>)
    then show ?thesis using Round Cons.prems(2) by (intro goon [of "{#}"]) (simp_all add: stream_step_def)
  next
    case (SetFlags p q k)
    let ?t = "s\<lparr>is_bundled := p, is_linked := q, preview_skip := k\<rparr>"
    have same: "core ?t n r K = core s n r K" for r K by (simp add: core_def refcnt_def)
    have "session init ret n ?t = session init ret n s"
      by (simp add: session_def same cbs_ok_def has_cb_def handed_def waiting_def)
    then have "session init ret n ?s" using Cons.prems(1) SetFlags by (simp add: stream_step_def)
    then show ?thesis using SetFlags Cons.prems(2) by (intro goon [of "{#}"]) simp_all
  qed (use Cons.prems(2) in simp)
qed (simp add: stream_run_def)

section \<open>The property\<close>

text \<open>
  C12. buffers_accounted. When registration and start succeed and nothing fails afterwards, then after any sequence of
  frames, dispatches, flag changes and returns by holders of what they hold, each buffer's reference count is the
  number of its holders (what the client kept, what the channels and callbacks were given and have not given back,
  what the stream's own thread has yet to dispatch); a buffer is in the kernel exactly when its count is zero; the
  stream's count of queued buffers is the kernel's, and the poll thread listens exactly when it is not zero.
\<close>

theorem buffers_accounted:
  assumes "buffed_ok n s" and "list_all (coop e) [0..<n]" and "e_reqbufs e = 0" and "e_streamon e = 0"
    and "session_ok venus a_family (kept n s) {#} n (started venus a_family e s) as"
    and "stream_run venus a_family as (started venus a_family e s) = t"
  shows "(\<forall>i < n. unat (refcnt t i) + count (returned as) i = count (kept n s) i + count (handed t) i + waiting t i \<and>
      (i \<in> kernel_bufs t \<longleftrightarrow> refcnt t i = 0)) \<and>
    unat (queued_buffer_count t) = card (kernel_bufs t) \<and> (polled t \<longleftrightarrow> kernel_bufs t \<noteq> {})"
proof -
  have "session (kept n s) ({#} + returned as) n t"
    unfolding assms(6) [symmetric] by (rule session_run [OF session_started [OF assms(1-4)] assms(5)])
  then obtain r where r: "core t n r {i. i < n \<and> r i = 0}"
    "\<forall>i < n. r i + count (returned as) i = count (kept n s) i + count (handed t) i + waiting t i"
    by (auto simp: session_def)
  have u: "unat (refcnt t i) = r i" if "i < n" for i using r(1) that by (simp add: core_def)
  then have z: "refcnt t i = 0 \<longleftrightarrow> r i = 0" if "i < n" for i using that by (metis unsigned_eq_0_iff)
  have K: "kernel_bufs t = {i. i < n \<and> r i = 0}" "queued_buffer_count t = of_nat (card (kernel_bufs t))" "n \<le> 24"
    "polled t \<longleftrightarrow> kernel_bufs t \<noteq> {}" using r(1) by (auto simp: core_def)
  then have "card (kernel_bufs t) \<le> 24" using card_word [OF K(3), of "kernel_bufs t"] by auto
  then have "unat (queued_buffer_count t) = card (kernel_bufs t)"
    using K(2) by (simp add: unsigned_of_nat take_bit_nat_eq_self)
  then show ?thesis using r(2) u z K(1,4) by auto
qed

definition demo_env :: stream_env where
  "demo_env = \<lparr>e_dev_name = True, e_open = 5, e_ext_mode = (0, 1), e_ctrl = 0, e_s_fmt = 0, e_get_bufs = Inl (-1),
     e_put_bufs = 0, e_alloc = True, e_reqbufs = 0, e_qbuf = (\<lambda>_. 0), e_invalidate = None, e_streamon = 0,
     e_streamoff = 0, e_dqbuf = None, e_clean = None\<rparr>"

definition demo_buf :: "u32 \<Rightarrow> mm_camera_buf_def_t" where
  "demo_buf i = \<lparr>b_stream_id = 1, b_stream_type = CAM_STREAM_TYPE_PREVIEW, b_buf_idx = i, b_buffer = None\<rparr>"

text \<open>A preview stream with three buffers, one of them kept by the display.\<close>

definition demo_stream :: mm_stream_t where
  "demo_stream = (fresh_stream 1 (demo_layout CAM_STREAM_TYPE_PREVIEW CAM_FORMAT_YUV_420_NV21 (demo_dim 640 480)))
     \<lparr>st_fd := 5, st_state := MM_STREAM_STATE_BUFFED, buf_cb := [Some (-1), None, None, None], buf_num := 3,
      is_bundled := True, st_buf := Some [demo_buf 0, demo_buf 1, demo_buf 2],
      buf_status := Some [\<lparr>buf_refcnt = 0, initial_reg_flag = True, in_kernel = False\<rparr>,
        \<lparr>buf_refcnt = 0, initial_reg_flag = True, in_kernel = False\<rparr>,
        \<lparr>buf_refcnt = 0, initial_reg_flag = False, in_kernel = False\<rparr>]\<rparr>"

definition demo_session :: "stream_action list" where
  "demo_session = [Notify (demo_env\<lparr>e_dqbuf := Some (0, 1)\<rparr>) (True, True, True), Round demo_env,
     Fsm demo_env (MM_STREAM_EVT_QBUF (demo_buf 0))]"

lemma demo_stream_ok: "buffed_ok 3 demo_stream" "list_all (coop demo_env) [0..<3]"
proof -
  have "i < 3 \<longleftrightarrow> i = 0 \<or> i = 1 \<or> i = 2" for i :: nat by auto
  then show "buffed_ok 3 demo_stream"
    by (simp add: buffed_ok_def core_def refcnt_def demo_stream_def fresh_stream_def demo_buf_def has_cb_def handed_def
        MM_CAMERA_STREAM_BUF_CB_MAX_def nth_Cons')
  show "list_all (coop demo_env) [0..<3]" by (simp add: list_all_iff coop_def demo_env_def)
qed

lemma demo_run_ok:
  "session_ok None False (kept 3 demo_stream) {#} 3 (started None False demo_env demo_stream) demo_session"
  by code_simp

theorem buffers_accounted_witness:
  "unat (refcnt (stream_run None False demo_session (started None False demo_env demo_stream)) 0) + 1 =
     count (handed (stream_run None False demo_session (started None False demo_env demo_stream))) 0 +
     waiting (stream_run None False demo_session (started None False demo_env demo_stream)) 0"
proof -
  have "e_reqbufs demo_env = 0" "e_streamon demo_env = 0" by (simp_all add: demo_env_def)
  from buffers_accounted [OF demo_stream_ok this demo_run_ok refl]
  have "unat (refcnt (stream_run None False demo_session (started None False demo_env demo_stream)) 0) +
      count (returned demo_session) 0 = count (kept 3 demo_stream) 0 +
      count (handed (stream_run None False demo_session (started None False demo_env demo_stream))) 0 +
      waiting (stream_run None False demo_session (started None False demo_env demo_stream)) 0" by simp
  moreover have "count (returned demo_session) 0 = 1" by (simp add: demo_session_def demo_buf_def)
  moreover have "count (kept 3 demo_stream) 0 = 0"
    by (simp add: kept_def count_filter flag_of_def demo_stream_def)
  ultimately show ?thesis by simp
qed

section \<open>Error paths\<close>

text \<open>The events a state handles.\<close>

definition stream_handles :: "mm_stream_state_type_t \<Rightarrow> mm_stream_evt_type_t \<Rightarrow> bool" where
  "stream_handles x evt = (case evt of
     MM_STREAM_EVT_ACQUIRE \<Rightarrow> x = MM_STREAM_STATE_INITED
   | MM_STREAM_EVT_RELEASE \<Rightarrow> x \<in> {MM_STREAM_STATE_ACQUIRED, MM_STREAM_STATE_CFG}
   | MM_STREAM_EVT_SET_FMT c \<Rightarrow> x \<in> {MM_STREAM_STATE_ACQUIRED, MM_STREAM_STATE_CFG}
   | MM_STREAM_EVT_GET_BUF \<Rightarrow> x = MM_STREAM_STATE_CFG
   | MM_STREAM_EVT_PUT_BUF \<Rightarrow> x = MM_STREAM_STATE_BUFFED
   | MM_STREAM_EVT_REG_BUF \<Rightarrow> x = MM_STREAM_STATE_BUFFED
   | MM_STREAM_EVT_UNREG_BUF \<Rightarrow> x = MM_STREAM_STATE_REG
   | MM_STREAM_EVT_START \<Rightarrow> x = MM_STREAM_STATE_REG
   | MM_STREAM_EVT_STOP \<Rightarrow> x = MM_STREAM_STATE_ACTIVE
   | MM_STREAM_EVT_QBUF b \<Rightarrow> x = MM_STREAM_STATE_ACTIVE
   | MM_STREAM_EVT_SET_PARM p \<Rightarrow> x \<notin> {MM_STREAM_STATE_NOTUSED, MM_STREAM_STATE_INITED}
   | MM_STREAM_EVT_GET_PARM p \<Rightarrow> x \<notin> {MM_STREAM_STATE_NOTUSED, MM_STREAM_STATE_INITED}
   | MM_STREAM_EVT_DO_ACTION p \<Rightarrow> x = MM_STREAM_STATE_ACTIVE
   | MM_STREAM_EVT_GET_QUEUED_BUF_COUNT \<Rightarrow> x = MM_STREAM_STATE_ACTIVE)"

text \<open>
  An event a used stream does not handle in its state changes nothing and is answered
  with 0, the code of success: a buffer given back to a stopped stream is reported as queued.
\<close>

theorem unhandled_events_succeed:
  assumes "st_state s \<noteq> MM_STREAM_STATE_NOTUSED" and "\<not> stream_handles (st_state s) evt"
  shows "mm_stream_fsm_fn venus a_family e evt s = (0, s)"
  using assms
  by (cases "st_state s"; cases evt; simp add: mm_stream_fsm_fn_def stream_handles_def mm_stream_fsm_inited_def
      mm_stream_fsm_acquired_def mm_stream_fsm_cfg_def mm_stream_fsm_buffed_def mm_stream_fsm_reg_def mm_stream_fsm_active_def)

theorem unhandled_events_succeed_witness:
  "mm_stream_fsm_fn None False demo_env (MM_STREAM_EVT_QBUF (demo_buf 0)) demo_stream = (0, demo_stream)"
  by (rule unhandled_events_succeed) (simp_all add: demo_stream_def stream_handles_def)

text \<open>
  When the registration of the second buffer fails, the way back that the channel
  takes (stop, unregister, put the buffers) does nothing to the kernel: it still owns the first buffer, whose
  memory the client has been told to release, and the poll thread still listens to the stream.
\<close>

theorem failed_registration_leaks:
  assumes "st_state s = MM_STREAM_STATE_BUFFED" and "core (s\<lparr>queued_buffer_count := 0\<rparr>) n (\<lambda>_. 0) {}" and "2 \<le> n"
    and "st_buf s = Some (b0 # b1 # bs)" and "unat (b_buf_idx b0) = 0" and "unat (b_buf_idx b1) = 1"
    and "flag_of s 0" and "flag_of s 1" and "buf_num s = of_nat n" and "e_reqbufs e = 0" and "e_invalidate e = None"
    and "e_qbuf e 0 = 0" and "e_qbuf e 1 < 0"
    and "stream_run venus a_family (map (Fsm e) [MM_STREAM_EVT_REG_BUF, MM_STREAM_EVT_STOP, MM_STREAM_EVT_UNREG_BUF,
      MM_STREAM_EVT_PUT_BUF]) s = t"
  shows "st_state t = MM_STREAM_STATE_CFG \<and> st_buf t = None \<and> kernel_bufs t = {0} \<and> polled t"
proof -
  have c: "n \<le> 24" "kernel_bufs s = {}" "\<not> polled s" "length bs + 2 = n" using assms(2,4) by (auto simp: core_def)
  have "unat (buf_num s) = n" using c(1) assms(9) by (simp add: unsigned_of_nat take_bit_nat_eq_self)
  then have n: "unat (buf_num s) = Suc (Suc (length bs))" "\<not> MM_CAMERA_MAX_NUM_FRAMES < buf_num s"
    using c(1,4) by (simp_all add: MM_CAMERA_MAX_NUM_FRAMES_def word_less_nat_alt)
  obtain st where st: "buf_status s = Some st" "length st = n" using assms(2) by (auto simp: core_def)
  let ?s = "s\<lparr>queued_buffer_count := 0\<rparr>"
  let ?s1 = "?s\<lparr>queued_buffer_count := 1, polled := True, kernel_bufs := {0}\<rparr>"
  let ?t = "upd_status 0 (\<lambda>x. x\<lparr>buf_refcnt := 0, in_kernel := True\<rparr>) ?s1"
  have q0: "mm_stream_qbuf e b0 ?s = (0, ?s1)"
    using assms(5,11,12) c(2) by (simp add: mm_stream_qbuf_def poll_add_def)
  have "mm_stream_qbuf e b1 ?t = (e_qbuf e 1, ?t\<lparr>queued_buffer_count := 1\<rparr>)"
    using assms(6,11,13) by (simp add: mm_stream_qbuf_def upd_status_def Let_def)
  moreover have f: "initial_reg_flag (st ! 0)" "initial_reg_flag (st ! 1)" using assms(7,8) st by (simp_all add: flag_of_def)
  moreover have "buf_status ?s = Some st" "buf_status ?t = Some (st[0 := (st ! 0)\<lparr>buf_refcnt := 0, in_kernel := True\<rparr>])"
    using st by (simp_all add: upd_status_def)
  ultimately have "reg_loop e 0 (b0 # b1 # bs') ?s = (e_qbuf e 1, ?t\<lparr>queued_buffer_count := 1\<rparr>)" for bs'
    using q0 assms(13) by simp
  moreover have "mm_stream_request_buf e s = 0" using n(2) assms(10) by (simp add: mm_stream_request_buf_def)
  ultimately have "mm_stream_reg_buf e s = (e_qbuf e 1, ?t\<lparr>queued_buffer_count := 1\<rparr>)"
    using assms(4) n(1) by (simp add: mm_stream_reg_buf_def)
  moreover have "kernel_bufs (?t\<lparr>queued_buffer_count := 1\<rparr>) = {0}" "polled (?t\<lparr>queued_buffer_count := 1\<rparr>)"
    "st_state (?t\<lparr>queued_buffer_count := 1\<rparr>) = st_state s" "st_buf (?t\<lparr>queued_buffer_count := 1\<rparr>) = st_buf s"
    by (simp_all add: upd_status_def)
  ultimately obtain s' where s': "mm_stream_reg_buf e s = (e_qbuf e 1, s')" "kernel_bufs s' = {0}" "polled s'"
    "st_state s' = st_state s" "st_buf s' = st_buf s" by blast
  have "stream_step venus a_family (Fsm e MM_STREAM_EVT_REG_BUF) s = s'"
    using assms(1,13) s'(1) by (simp add: stream_step_def mm_stream_fsm_fn_def mm_stream_fsm_buffed_def set_st_ok_def)
  moreover have "stream_step venus a_family (Fsm e evt) s' = s'"
    if "evt = MM_STREAM_EVT_STOP \<or> evt = MM_STREAM_EVT_UNREG_BUF" for evt
    using that assms(1) s'(4) by (auto simp: stream_step_def mm_stream_fsm_fn_def mm_stream_fsm_buffed_def)
  moreover have "stream_step venus a_family (Fsm e MM_STREAM_EVT_PUT_BUF) s' =
      s'\<lparr>st_buf := None, buf_status := None, st_state := MM_STREAM_STATE_CFG\<rparr>"
    using assms(1,4) s'(4,5)
    by (simp add: stream_step_def mm_stream_fsm_fn_def mm_stream_fsm_buffed_def set_st_def mm_stream_deinit_bufs_def)
  ultimately have "t = s'\<lparr>st_buf := None, buf_status := None, st_state := MM_STREAM_STATE_CFG\<rparr>"
    unfolding assms(14) [symmetric] stream_run_def by simp
  then show ?thesis using s'(2,3) by simp
qed

theorem failed_registration_leaks_witness:
  "kernel_bufs (stream_run None False (map (Fsm (demo_env\<lparr>e_qbuf := (\<lambda>i. if i = 1 then -1 else 0)\<rparr>))
     [MM_STREAM_EVT_REG_BUF, MM_STREAM_EVT_STOP, MM_STREAM_EVT_UNREG_BUF, MM_STREAM_EVT_PUT_BUF]) demo_stream) = {0}"
proof -
  have "core (demo_stream\<lparr>queued_buffer_count := 0\<rparr>) 3 (\<lambda>_. 0) {}" using demo_stream_ok(1) by (simp add: buffed_ok_def)
  from failed_registration_leaks [OF _ this, of "demo_buf 0" "demo_buf 1" "[demo_buf 2]"
      "demo_env\<lparr>e_qbuf := (\<lambda>i. if i = 1 then -1 else 0)\<rparr>" None False, OF _ _ _ _ _ _ _ _ _ _ _ _ refl]
  show ?thesis by (simp add: demo_stream_def demo_buf_def demo_env_def flag_of_def)
qed

end
