(* ===== verification/MmHandles.thy ===== *)
theory MmHandles
  imports CamTypes "HOL-Library.Word"
begin

text \<open>
  The handles of cameras, channels and streams (camera/QCamera2/stack/mm-camera-interface/src/mm_camera_interface.c):
  a 16-bit count of the handles given out, which skips 0, over the 8-bit index of the object in its table.
\<close>

unbundle bit_operations_syntax

type_synonym u16 = "16 word"

definition mm_camera_util_generate_handler :: "u8 \<Rightarrow> u16 \<Rightarrow> u32 \<times> u16" where
  "mm_camera_util_generate_handler index g =
     (let g1 = g + 1; g2 = (if g1 = 0 then g1 + 1 else g1)
      in (push_bit 8 (ucast g2) OR ucast index, g2))"

definition mm_camera_util_get_index_by_handler :: "u32 \<Rightarrow> u8" where
  "mm_camera_util_get_index_by_handler handler = ucast (handler AND 0xff)"

text \<open>The handles given out for a list of indexes, in order.\<close>

fun handles :: "u16 \<Rightarrow> u8 list \<Rightarrow> u32 list" where
  "handles g [] = []"
| "handles g (i # is) = (let (h, g') = mm_camera_util_generate_handler i g in h # handles g' is)"

text \<open>The count read off a handle.\<close>

definition handle_count :: "u32 \<Rightarrow> nat" where
  "handle_count h = unat (drop_bit 8 h)"

lemma low_byte: "(0xff :: u32) = mask 8"
  by (simp add: mask_eq_exp_minus_1)

lemma handle_parts:
  "mm_camera_util_get_index_by_handler (push_bit 8 (ucast (g :: u16)) OR ucast i) = i"
  "handle_count (push_bit 8 (ucast (g :: u16)) OR ucast i) = unat g"
proof -
  show "mm_camera_util_get_index_by_handler (push_bit 8 (ucast (g :: u16)) OR ucast i) = i"
    unfolding mm_camera_util_get_index_by_handler_def low_byte
    by (rule bit_word_eqI) (auto simp: bit_simps)
  have "drop_bit 8 (push_bit 8 (ucast g) OR ucast i :: u32) = ucast g"
    by (rule bit_word_eqI) (auto simp: bit_simps dest: bit_imp_le_length)
  then show "handle_count (push_bit 8 (ucast (g :: u16)) OR ucast i) = unat g"
    by (simp add: handle_count_def unsigned_ucast_eq take_bit_nat_eq_self unsigned_less [THEN order_less_le_trans])
qed

lemma next_count:
  fixes g :: u16
  shows "unat (if g + 1 = 0 then g + 1 + 1 else g + 1) = unat g mod 65535 + 1"
proof (cases "unat g < 65535")
  case True
  then have "unat (g + 1) = unat g + 1" by (simp add: unat_word_ariths)
  then show ?thesis using True by (auto simp flip: unat_eq_zero)
next
  case False
  then have "unat g = 65535" using unsigned_less [of g, where 'a = nat] by simp
  have "g = of_nat (unat g)" by simp
  then have "g = of_nat 65535" by (simp only: \<open>unat g = 65535\<close>)
  then show ?thesis by simp
qed

lemma handle_counts: "map handle_count (handles g is) = map (\<lambda>k. (unat g + k) mod 65535 + 1) [0..<length is]"
proof (induction "is" arbitrary: g)
  case (Cons i "is")
  obtain h g' where h: "mm_camera_util_generate_handler i g = (h, g')" by (rule prod.exhaust)
  then have c: "handle_count h = unat g mod 65535 + 1" "unat g' = unat g mod 65535 + 1"
    using next_count [of g] handle_parts(2) by (auto simp: mm_camera_util_generate_handler_def Let_def)
  have "(unat g' + k) mod 65535 = (unat g + Suc k) mod 65535" for k
    using c(2) mod_add_left_eq [of "unat g" 65535 "Suc k"] by simp
  then have "map handle_count (handles g' is) = map (\<lambda>k. (unat g + Suc k) mod 65535 + 1) [0..<length is]"
    using Cons.IH [of g'] by simp
  also have "\<dots> = map (\<lambda>k. (unat g + k) mod 65535 + 1) [1..<Suc (length is)]"
    by (simp add: map_Suc_upt [symmetric] del: upt_Suc)
  finally show ?case using h c(1) by (simp add: upt_conv_Cons del: upt_Suc)
qed simp

lemma mod_shift_inj:
  assumes "(a + j) mod n = (a + k) mod (n :: nat)" and "j \<le> k" and "k < n"
  shows "j = k"
proof -
  have "n dvd (a + k) - (a + j)" using assms(1,2) mod_eq_dvd_iff_nat [of "a + j" "a + k" n] by simp
  moreover have "\<not> n dvd k - j" if "j \<noteq> k" using nat_dvd_not_less [of "k - j" n] that assms(2,3) by simp
  ultimately show ?thesis using assms(2) by auto
qed

lemma handle_index: "mm_camera_util_generate_handler i g = (h, g') \<Longrightarrow> mm_camera_util_get_index_by_handler h = i"
  using handle_parts(1) by (auto simp: mm_camera_util_generate_handler_def Let_def)

lemma handles_positive:
  assumes "mm_camera_util_generate_handler i g = (h, g')"
  shows "0 < h"
proof -
  have "handle_count h = unat g mod 65535 + 1"
    using assms next_count [of g] handle_parts(2) by (auto simp: mm_camera_util_generate_handler_def Let_def)
  then have "h \<noteq> 0" by (auto simp: handle_count_def)
  then show ?thesis by (simp add: word_gt_0)
qed

text \<open>
  C18. handles_distinct. The index of an object is read back from its handle, no handle is 0, and any 65535 handles
  given out one after the other are different, whatever objects they are for.
\<close>

theorem handles_distinct:
  assumes "length is \<le> 65535"
  shows "map mm_camera_util_get_index_by_handler (handles g is) = is \<and> distinct (handles g is) \<and> 0 \<notin> set (handles g is)"
proof -
  have index: "map mm_camera_util_get_index_by_handler (handles g is) = is"
    using handle_parts(1) by (induction "is" arbitrary: g) (auto simp: mm_camera_util_generate_handler_def Let_def)
  have "inj_on (\<lambda>k. (unat g + k) mod 65535 + 1) {0..<length is}"
  proof (rule inj_onI)
    fix j k assume jk: "j \<in> {0..<length is}" "k \<in> {0..<length is}" "(unat g + j) mod 65535 + 1 = (unat g + k) mod 65535 + 1"
    then show "j = k" using assms mod_shift_inj [of "unat g" j 65535 k] mod_shift_inj [of "unat g" k 65535 j]
      by (cases "j \<le> k") simp_all
  qed
  then have "distinct (map handle_count (handles g is))" by (simp add: handle_counts distinct_map)
  moreover have "0 \<notin> set (map handle_count (handles g is))" by (auto simp: handle_counts)
  moreover have "handle_count 0 = 0" by (simp add: handle_count_def)
  ultimately show ?thesis using index by (force simp: distinct_map image_iff)
qed

theorem handles_distinct_witness:
  "handles 65534 [3, 7, 7] = [0xFFFF03, 0x107, 0x207] \<and> distinct (handles 65534 [3, 7, 7]) \<and>
   map mm_camera_util_get_index_by_handler (handles 65534 [3, 7, 7]) = [3, 7, 7]"
proof -
  have "handles 65534 [3, 7, 7] = [0xFFFF03, 0x107, 0x207]" by code_simp
  then show ?thesis using handles_distinct [of "[3, 7, 7]" 65534] by simp
qed

end
