(* ===== verification/MmChannel.thy ===== *)
theory MmChannel
  imports MmStream MmHandles
begin

text \<open>
  The channel object of camera/QCamera2/stack/mm-camera-interface/src/mm_camera_channel.c around its command thread:
  its state machine, its streams, which it adds, links, deletes and configures, the start of all streams with its
  roll-back, the stop, and the commands it posts to its thread.

  A slot of the stream array holds the stream object of MmStream with the pointers to channels and streams, which
  are indexes here (a channel of the camera, a slot of a channel); a null pointer is \<open>None\<close>. \<open>c_work\<close> is what the
  command thread of MmSuperbuf works on, \<open>c_cmds\<close> its queue, which exists while \<open>c_thread\<close> holds. The result \<open>None\<close>
  of an operation is a crash (a null pointer, or a command for a thread whose queue is gone) or a wait that never
  ends. A command and the queue node that carries it are one allocation.
\<close>

section \<open>Channels and their streams\<close>

record ch_slot =
  strm :: mm_stream_t
  ch_obj :: "nat option"
  linked_stream :: "(nat \<times> nat) option"
  linked_obj :: "nat option"

datatype mm_channel_state_type_t =
    MM_CHANNEL_STATE_NOTUSED
  | MM_CHANNEL_STATE_STOPPED
  | MM_CHANNEL_STATE_ACTIVE
  | MM_CHANNEL_STATE_PAUSED

record mm_channel_obj =
  c_hdl :: u32
  c_state :: mm_channel_state_type_t
  c_streams :: "ch_slot list"
  c_active :: bool
  c_work :: mm_channel_t
  c_thread :: bool
  c_cmds :: "mm_camera_cmdcb_t list"

record chan_sys =
  g_handler_history_count :: u16
  chs :: "mm_channel_obj list"

text \<open>The answers: per slot and event those of the kernel, the server and the client; memory for commands and frames.\<close>

record chan_env =
  e_slot :: "nat \<times> nat \<Rightarrow> mm_stream_evt_type_t \<Rightarrow> stream_env"
  e_cmd :: "mm_camera_cmdcb_t \<Rightarrow> bool"
  e_node :: bool
  e_cbnode :: "mm_channel_queue_node_t \<Rightarrow> bool"
  e_map :: int

definition zero_buf_planes :: cam_frame_len_offset_t where
  "zero_buf_planes = \<lparr>num_planes = 0, mp = replicate 8 (plane_at 0 0 0 0 0), frame_len = 0\<rparr>"

text \<open>A zeroed stream. Its \<open>stream_info\<close> is a null pointer, so its contents do not matter.\<close>

definition zero_stream :: mm_stream_t where
  "zero_stream = \<lparr>stream_info = \<lparr>si_type = CAM_STREAM_TYPE_DEFAULT, si_fmt = CAM_FORMAT_YUV_420_NV12,
       si_dim = \<lparr>dim_width = 0, dim_height = 0\<rparr>, buf_planes = zero_buf_planes, pp_feature_mask = 0, pp_rotation = ROTATE_0,
       reprocess_source = ONLINE_REPROCESS CAM_STREAM_TYPE_DEFAULT, reprocess_mask = 0, tp_meta_max_size = 0\<rparr>,
     padding_info = \<lparr>width_padding = 0, height_padding = 0, plane_padding = 0\<rparr>, frame_offset = zero_buf_planes,
     st_hdl = 0, st_server_id = 0, st_fd = 0, st_state = MM_STREAM_STATE_NOTUSED, cmd_active = False,
     buf_cb = replicate MM_CAMERA_STREAM_BUF_CB_MAX None, buf_num = 0, st_buf = None, buf_status = None,
     is_bundled = False, is_linked = False, queued_buffer_count = 0, preview_skip = 0, polled = False,
     kernel_bufs = {}, ch_posts = [], linked_posts = [], app_queue = [], app_calls = []\<rparr>"

definition zero_slot :: ch_slot where
  "zero_slot = \<lparr>strm = zero_stream, ch_obj = None, linked_stream = None, linked_obj = None\<rparr>"

definition used :: "ch_slot \<Rightarrow> bool" where
  "used sl \<longleftrightarrow> st_state (strm sl) \<noteq> MM_STREAM_STATE_NOTUSED"

text \<open>The pointer to \<open>stream_info\<close> is set when a stream is configured, which moves it to CFG.\<close>

definition has_info :: "ch_slot \<Rightarrow> bool" where
  "has_info sl \<longleftrightarrow> st_state (strm sl) \<notin> {MM_STREAM_STATE_NOTUSED, MM_STREAM_STATE_INITED, MM_STREAM_STATE_ACQUIRED}"

definition slot_at :: "nat \<times> nat \<Rightarrow> chan_sys \<Rightarrow> ch_slot" where
  "slot_at p y = c_streams (chs y ! fst p) ! snd p"

definition upd_ch :: "nat \<Rightarrow> (mm_channel_obj \<Rightarrow> mm_channel_obj) \<Rightarrow> chan_sys \<Rightarrow> chan_sys" where
  "upd_ch c f y = y\<lparr>chs := (chs y)[c := f (chs y ! c)]\<rparr>"

definition upd_slot :: "nat \<times> nat \<Rightarrow> (ch_slot \<Rightarrow> ch_slot) \<Rightarrow> chan_sys \<Rightarrow> chan_sys" where
  "upd_slot p f = upd_ch (fst p) (\<lambda>ch. ch\<lparr>c_streams := (c_streams ch)[snd p := f (c_streams ch ! snd p)]\<rparr>)"

definition own :: "nat \<Rightarrow> ch_slot \<Rightarrow> bool" where
  "own c sl \<longleftrightarrow> ch_obj sl = Some c"

text \<open>The first slot in use with a handle (\<open>mm_channel_util_get_stream_by_handler\<close>).\<close>

definition find_slot :: "u32 \<Rightarrow> ch_slot list \<Rightarrow> nat option" where
  "find_slot h sls = find (\<lambda>i. used (sls ! i) \<and> h = st_hdl (strm (sls ! i))) [0..<length sls]"

text \<open>An event for the stream in a slot; a release zeroes the whole slot.\<close>

definition put_strm :: "mm_stream_t \<Rightarrow> ch_slot \<Rightarrow> ch_slot" where
  "put_strm s sl = (if st_state s = MM_STREAM_STATE_NOTUSED
     then \<lparr>strm = s, ch_obj = None, linked_stream = None, linked_obj = None\<rparr> else sl\<lparr>strm := s\<rparr>)"

definition stream_evt ::
    "venus_macros option \<Rightarrow> bool \<Rightarrow> chan_env \<Rightarrow> nat \<times> nat \<Rightarrow> mm_stream_evt_type_t \<Rightarrow> chan_sys \<Rightarrow> int \<times> chan_sys" where
  "stream_evt venus a_family e p evt y =
     (let (rc, s) = mm_stream_fsm_fn venus a_family (e_slot e p evt) evt (strm (slot_at p y))
      in (rc, upd_slot p (put_strm s) y))"

section \<open>Commands\<close>

text \<open>Giving a buffer back: to the slot's stream, or to the one it is linked from.\<close>

definition redirect :: "nat \<Rightarrow> nat \<Rightarrow> chan_sys \<Rightarrow> nat \<times> nat" where
  "redirect c i y = (let sl = slot_at (c, i) y in if own c sl then (c, i)
     else case linked_stream sl of Some p \<Rightarrow> p | None \<Rightarrow> (c, i))"

definition channel_qbuf ::
    "venus_macros option \<Rightarrow> bool \<Rightarrow> chan_env \<Rightarrow> nat \<Rightarrow> mm_camera_buf_def_t \<Rightarrow> chan_sys \<Rightarrow> int \<times> chan_sys" where
  "channel_qbuf venus a_family e c b y = (case find_slot (b_stream_id b) (c_streams (chs y ! c)) of
     None \<Rightarrow> (-1, y)
   | Some i \<Rightarrow> stream_evt venus a_family e (redirect c i y) (MM_STREAM_EVT_QBUF b) y)"

definition slot_view :: "nat \<Rightarrow> ch_slot \<Rightarrow> stream_slot" where
  "slot_view c sl = \<lparr>in_use = used sl, my_hdl = st_hdl (strm sl),
     info_type = (if has_info sl then Some (si_type (stream_info (strm sl))) else None),
     server_stream_id = st_server_id (strm sl), own_stream = own c sl\<rparr>"

text \<open>The command thread runs one command: the buffers it gives back reach their streams.\<close>

definition run_cmd ::
    "venus_macros option \<Rightarrow> bool \<Rightarrow> chan_env \<Rightarrow> nat \<Rightarrow> mm_camera_cmdcb_t \<Rightarrow> chan_sys \<Rightarrow> chan_sys option" where
  "run_cmd venus a_family e c cmd y =
     (let w = (c_work (chs y ! c))\<lparr>streams := map (slot_view c) (c_streams (chs y ! c)), qbufs := []\<rparr>
      in map_option (\<lambda>w'. fold (\<lambda>b z. snd (channel_qbuf venus a_family e c b z)) (qbufs w')
                            (upd_ch c (\<lambda>ch. ch\<lparr>c_work := w'\<rparr>) y))
           (mm_channel_process_stream_buf (e_node e) (e_cbnode e) cmd w))"

fun run_cmds ::
    "venus_macros option \<Rightarrow> bool \<Rightarrow> chan_env \<Rightarrow> nat \<Rightarrow> mm_camera_cmdcb_t list \<Rightarrow> chan_sys \<Rightarrow> chan_sys option" where
  "run_cmds venus a_family e c [] y = Some y"
| "run_cmds venus a_family e c (cmd # cmds) y =
     (case run_cmd venus a_family e c cmd y of None \<Rightarrow> None | Some z \<Rightarrow> run_cmds venus a_family e c cmds z)"

definition post_cmd :: "chan_env \<Rightarrow> nat \<Rightarrow> mm_camera_cmdcb_t \<Rightarrow> chan_sys \<Rightarrow> (int \<times> chan_sys) option" where
  "post_cmd e c cmd y =
     (if \<not> e_cmd e cmd then Some (-1, y)
      else if \<not> c_thread (chs y ! c) then None
      else Some (0, upd_ch c (\<lambda>ch. ch\<lparr>c_cmds := c_cmds ch @ [cmd]\<rparr>) y))"

definition mm_channel_request_super_buf :: "chan_env \<Rightarrow> nat \<Rightarrow> u32 \<Rightarrow> chan_sys \<Rightarrow> (int \<times> chan_sys) option" where
  "mm_channel_request_super_buf e c n = post_cmd e c (CMD_REQ_DATA_CB n)"

definition mm_channel_cancel_super_buf_request :: "chan_env \<Rightarrow> nat \<Rightarrow> chan_sys \<Rightarrow> (int \<times> chan_sys) option" where
  "mm_channel_cancel_super_buf_request e c = post_cmd e c (CMD_REQ_DATA_CB 0)"

definition mm_channel_config_notify_mode :: "chan_env \<Rightarrow> nat \<Rightarrow> mm_camera_super_buf_notify_mode_t \<Rightarrow> chan_sys \<Rightarrow> (int \<times> chan_sys) option" where
  "mm_channel_config_notify_mode e c m = post_cmd e c (CMD_CONFIG_NOTIFY m)"

definition mm_channel_start_zsl_snapshot :: "chan_env \<Rightarrow> nat \<Rightarrow> chan_sys \<Rightarrow> (int \<times> chan_sys) option" where
  "mm_channel_start_zsl_snapshot e c = post_cmd e c CMD_START_ZSL"

definition mm_channel_stop_zsl_snapshot :: "chan_env \<Rightarrow> nat \<Rightarrow> chan_sys \<Rightarrow> (int \<times> chan_sys) option" where
  "mm_channel_stop_zsl_snapshot e c = post_cmd e c CMD_STOP_ZSL"

definition mm_channel_proc_general_cmd :: "chan_env \<Rightarrow> nat \<Rightarrow> mm_camera_generic_cmd_type_t \<Rightarrow> bool \<Rightarrow> chan_sys \<Rightarrow> (int \<times> chan_sys) option" where
  "mm_channel_proc_general_cmd e c t start = post_cmd e c (CMD_GENERAL t start)"

text \<open>A flush waits until the thread has run it, and so everything before it.\<close>

definition mm_channel_flush_super_buf_queue ::
    "venus_macros option \<Rightarrow> bool \<Rightarrow> chan_env \<Rightarrow> nat \<Rightarrow> u32 \<Rightarrow> cam_stream_type_t \<Rightarrow> chan_sys \<Rightarrow> (int \<times> chan_sys) option" where
  "mm_channel_flush_super_buf_queue venus a_family e c f t y =
     (if \<not> e_cmd e (CMD_FLUSH_QUEUE f t) then Some (-1, y)
      else if \<not> c_thread (chs y ! c) then None
      else map_option (Pair 0) (run_cmds venus a_family e c (c_cmds (chs y ! c) @ [CMD_FLUSH_QUEUE f t])
             (upd_ch c (\<lambda>ch. ch\<lparr>c_cmds := []\<rparr>) y)))"

text \<open>Releasing the thread: it runs what is in its queue and exits; without memory for the command it stays.\<close>

definition release_ch_thread ::
    "venus_macros option \<Rightarrow> bool \<Rightarrow> chan_env \<Rightarrow> nat \<Rightarrow> chan_sys \<Rightarrow> chan_sys option" where
  "release_ch_thread venus a_family e c y =
     (if \<not> e_cmd e CMD_EXIT then Some y
      else map_option (upd_ch c (\<lambda>ch. ch\<lparr>c_thread := False\<rparr>))
             (run_cmds venus a_family e c (c_cmds (chs y ! c)) (upd_ch c (\<lambda>ch. ch\<lparr>c_cmds := []\<rparr>) y)))"

definition queue_deinit :: "nat \<Rightarrow> chan_sys \<Rightarrow> chan_sys" where
  "queue_deinit c = upd_ch c (\<lambda>ch. ch\<lparr>c_work := set_queue ((superbuf_queue (c_work ch))\<lparr>que := [], que_size := 0\<rparr>) (c_work ch)\<rparr>)"

section \<open>Streams of a channel\<close>

text \<open>\<open>h\<close> is the handle given out; it is used up also when the stream cannot be acquired.\<close>

definition free_slot :: "ch_slot list \<Rightarrow> nat option" where
  "free_slot sls = find (\<lambda>i. \<not> used (sls ! i)) [0..<length sls]"

definition mm_channel_add_stream ::
    "venus_macros option \<Rightarrow> bool \<Rightarrow> chan_env \<Rightarrow> nat \<Rightarrow> chan_sys \<Rightarrow> u32 \<times> chan_sys" where
  "mm_channel_add_stream venus a_family e c y = (case free_slot (c_streams (chs y ! c)) of
     None \<Rightarrow> (0, y)
   | Some i \<Rightarrow>
       let (h, g) = mm_camera_util_generate_handler (of_nat i) (g_handler_history_count y);
           y1 = upd_slot (c, i) (\<lambda>_. zero_slot\<lparr>strm := zero_stream\<lparr>st_hdl := h, st_state := MM_STREAM_STATE_INITED\<rparr>,
                  ch_obj := Some c\<rparr>) (y\<lparr>g_handler_history_count := g\<rparr>);
           (rc, y2) = stream_evt venus a_family e (c, i) MM_STREAM_EVT_ACQUIRE y1
       in if rc = 0 then (h, y2) else (0, upd_slot (c, i) (\<lambda>_. zero_slot) y2))"

text \<open>A linked stream is a copy of the stream object that remembers where it comes from.\<close>

definition mm_channel_link_stream :: "nat \<Rightarrow> nat \<Rightarrow> u32 \<Rightarrow> chan_sys \<Rightarrow> u32 \<times> chan_sys" where
  "mm_channel_link_stream c c' h y = (case find_slot h (c_streams (chs y ! c')) of
     None \<Rightarrow> (0, y)
   | Some j \<Rightarrow> (case free_slot (c_streams (chs y ! c)) of
        None \<Rightarrow> (0, y)
      | Some i \<Rightarrow> (st_hdl (strm (slot_at (c', j) y)),
                   upd_slot (c, i) (\<lambda>_. (slot_at (c', j) y)\<lparr>linked_stream := Some (c', j)\<rparr>) y)))"

definition unlink :: "nat \<times> nat \<Rightarrow> chan_sys \<Rightarrow> chan_sys" where
  "unlink p y = (case linked_stream (slot_at p y) of
     None \<Rightarrow> y
   | Some q \<Rightarrow> upd_slot q (\<lambda>sl. sl\<lparr>strm := (strm sl)\<lparr>is_linked := False\<rparr>, linked_obj := None\<rparr>) y)"

definition mm_channel_del_stream ::
    "venus_macros option \<Rightarrow> bool \<Rightarrow> chan_env \<Rightarrow> nat \<Rightarrow> u32 \<Rightarrow> chan_sys \<Rightarrow> int \<times> chan_sys" where
  "mm_channel_del_stream venus a_family e c h y = (case find_slot h (c_streams (chs y ! c)) of
     None \<Rightarrow> (-1, y)
   | Some i \<Rightarrow>
       if own c (slot_at (c, i) y) then stream_evt venus a_family e (c, i) MM_STREAM_EVT_RELEASE y
       else (0, upd_slot (c, i) (\<lambda>_. zero_slot) (unlink (c, i) y)))"

text \<open>Events for an own stream; a linked one is left alone.\<close>

definition own_stream_evt ::
    "venus_macros option \<Rightarrow> bool \<Rightarrow> chan_env \<Rightarrow> nat \<Rightarrow> u32 \<Rightarrow> mm_stream_evt_type_t \<Rightarrow> chan_sys \<Rightarrow> int \<times> chan_sys" where
  "own_stream_evt venus a_family e c h evt y = (case find_slot h (c_streams (chs y ! c)) of
     None \<Rightarrow> (-1, y)
   | Some i \<Rightarrow> if own c (slot_at (c, i) y) then stream_evt venus a_family e (c, i) evt y else (0, y))"

definition mm_channel_config_stream ::
    "venus_macros option \<Rightarrow> bool \<Rightarrow> chan_env \<Rightarrow> nat \<Rightarrow> u32 \<Rightarrow> mm_camera_stream_config_t \<Rightarrow> chan_sys \<Rightarrow> int \<times> chan_sys" where
  "mm_channel_config_stream venus a_family e c h cfg = own_stream_evt venus a_family e c h (MM_STREAM_EVT_SET_FMT cfg)"

definition mm_channel_set_stream_parm ::
    "venus_macros option \<Rightarrow> bool \<Rightarrow> chan_env \<Rightarrow> nat \<Rightarrow> u32 \<Rightarrow> bool \<Rightarrow> chan_sys \<Rightarrow> int \<times> chan_sys" where
  "mm_channel_set_stream_parm venus a_family e c h p = own_stream_evt venus a_family e c h (MM_STREAM_EVT_SET_PARM p)"

definition mm_channel_get_stream_parm ::
    "venus_macros option \<Rightarrow> bool \<Rightarrow> chan_env \<Rightarrow> nat \<Rightarrow> u32 \<Rightarrow> bool \<Rightarrow> chan_sys \<Rightarrow> int \<times> chan_sys" where
  "mm_channel_get_stream_parm venus a_family e c h p = own_stream_evt venus a_family e c h (MM_STREAM_EVT_GET_PARM p)"

definition mm_channel_do_stream_action ::
    "venus_macros option \<Rightarrow> bool \<Rightarrow> chan_env \<Rightarrow> nat \<Rightarrow> u32 \<Rightarrow> bool \<Rightarrow> chan_sys \<Rightarrow> int \<times> chan_sys" where
  "mm_channel_do_stream_action venus a_family e c h p = own_stream_evt venus a_family e c h (MM_STREAM_EVT_DO_ACTION p)"

definition mm_channel_get_queued_buf_count ::
    "venus_macros option \<Rightarrow> bool \<Rightarrow> chan_env \<Rightarrow> nat \<Rightarrow> u32 \<Rightarrow> chan_sys \<Rightarrow> int \<times> chan_sys" where
  "mm_channel_get_queued_buf_count venus a_family e c h y = (case find_slot h (c_streams (chs y ! c)) of
     None \<Rightarrow> (-1, y)
   | Some i \<Rightarrow> stream_evt venus a_family e (redirect c i y) MM_STREAM_EVT_GET_QUEUED_BUF_COUNT y)"

text \<open>The streams with a handle, each found by its handle again.\<close>

definition streams_by_handle :: "ch_slot list \<Rightarrow> nat option list" where
  "streams_by_handle sls = map (\<lambda>sl. find_slot (st_hdl (strm sl)) sls) (filter (\<lambda>sl. 0 < st_hdl (strm sl)) sls)"

definition mm_channel_get_bundle_info :: "nat \<Rightarrow> chan_sys \<Rightarrow> (int \<times> u32 list) option" where
  "mm_channel_get_bundle_info c y =
     (let sls = c_streams (chs y ! c); found = takeWhile (\<lambda>x. x \<noteq> None) (streams_by_handle sls)
      in if list_ex (\<lambda>x. \<not> has_info (sls ! the x)) found then None
         else if length found < length (streams_by_handle sls) then Some (-1, [])
         else Some (0, map (\<lambda>i. st_server_id (strm (sls ! i)))
                (filter (\<lambda>i. si_type (stream_info (strm (sls ! i))) \<noteq> CAM_STREAM_TYPE_METADATA \<and> own c (sls ! i))
                  (map the found))))"

section \<open>Start and stop\<close>

text \<open>
  The streams to start or stop, and the position of the channel's own metadata stream among them: the last one
  of that type, 0 when there is none.
\<close>

definition channel_streams :: "ch_slot list \<Rightarrow> nat list" where
  "channel_streams sls = map the (filter (\<lambda>x. x \<noteq> None) (streams_by_handle sls))"

definition meta_stream_idx :: "nat \<Rightarrow> ch_slot list \<Rightarrow> nat list \<Rightarrow> nat" where
  "meta_stream_idx c sls objs =
     last (0 # filter (\<lambda>k. si_type (stream_info (strm (sls ! (objs ! k)))) = CAM_STREAM_TYPE_METADATA \<and> own c (sls ! (objs ! k)))
               [0..<length objs])"

definition exchange :: "nat \<Rightarrow> nat \<Rightarrow> 'a list \<Rightarrow> 'a list" where
  "exchange i j xs = xs[i := xs ! j, j := xs ! i]"

definition link_back :: "nat \<Rightarrow> nat \<times> nat \<Rightarrow> chan_sys \<Rightarrow> chan_sys" where
  "link_back c p y = (case linked_stream (slot_at p y) of
     None \<Rightarrow> y
   | Some q \<Rightarrow> upd_slot q (\<lambda>sl. sl\<lparr>strm := (strm sl)\<lparr>is_linked := True\<rparr>, linked_obj := Some c\<rparr>) y)"

text \<open>One own stream: its buffers are allocated and registered, and it is started, up to the first failure.\<close>

definition start_stream ::
    "venus_macros option \<Rightarrow> bool \<Rightarrow> chan_env \<Rightarrow> nat \<times> nat \<Rightarrow> chan_sys \<Rightarrow> int \<times> chan_sys" where
  "start_stream venus a_family e p y =
     (if st_state (strm (slot_at p y)) = MM_STREAM_STATE_ACTIVE then (-1, y)
      else let (rc1, y1) = stream_evt venus a_family e p MM_STREAM_EVT_GET_BUF y
           in if rc1 \<noteq> 0 then (rc1, y1)
              else let (rc2, y2) = stream_evt venus a_family e p MM_STREAM_EVT_REG_BUF y1
                   in if rc2 \<noteq> 0 then (rc2, y2) else stream_evt venus a_family e p MM_STREAM_EVT_START y2)"

text \<open>The result has the streams reached, the one that failed included.\<close>

fun start_loop ::
    "venus_macros option \<Rightarrow> bool \<Rightarrow> chan_env \<Rightarrow> nat \<Rightarrow> nat list \<Rightarrow> chan_sys \<Rightarrow> int \<times> nat list \<times> chan_sys" where
  "start_loop venus a_family e c [] y = (0, [], y)"
| "start_loop venus a_family e c (i # is) y =
     (let (rc, y1) = (if own c (slot_at (c, i) y) then start_stream venus a_family e (c, i) y else (0, link_back c (c, i) y))
      in if rc \<noteq> 0 then (rc, [i], y1)
         else let (rc', js, y2) = start_loop venus a_family e c is y1 in (rc', i # js, y2))"

text \<open>A linked stream that is dropped: the super buffers of the given type are flushed while the bundle is active.\<close>

definition drop_linked_stream ::
    "venus_macros option \<Rightarrow> bool \<Rightarrow> chan_env \<Rightarrow> nat \<Rightarrow> nat \<Rightarrow> cam_stream_type_t \<Rightarrow> chan_sys \<Rightarrow> chan_sys option" where
  "drop_linked_stream venus a_family e c i t y =
     (let y1 = unlink (c, i) y
      in map_option (upd_slot (c, i) (\<lambda>_. zero_slot))
           (if c_active (chs y ! c) then map_option snd (mm_channel_flush_super_buf_queue venus a_family e c 0 t y1)
            else Some y1))"

definition stop_stream ::
    "venus_macros option \<Rightarrow> bool \<Rightarrow> chan_env \<Rightarrow> nat \<times> nat \<Rightarrow> chan_sys \<Rightarrow> chan_sys" where
  "stop_stream venus a_family e p y =
     snd (stream_evt venus a_family e p MM_STREAM_EVT_UNREG_BUF (snd (stream_evt venus a_family e p MM_STREAM_EVT_STOP y)))"

definition put_stream_buf ::
    "venus_macros option \<Rightarrow> bool \<Rightarrow> chan_env \<Rightarrow> nat \<times> nat \<Rightarrow> chan_sys \<Rightarrow> chan_sys" where
  "put_stream_buf venus a_family e p y = snd (stream_evt venus a_family e p MM_STREAM_EVT_PUT_BUF y)"

text \<open>The roll-back flushes with the type of the stream that failed, not of the one it drops.\<close>

fun rollback_loop ::
    "venus_macros option \<Rightarrow> bool \<Rightarrow> chan_env \<Rightarrow> nat \<Rightarrow> cam_stream_type_t \<Rightarrow> nat list \<Rightarrow> chan_sys \<Rightarrow> chan_sys option" where
  "rollback_loop venus a_family e c t [] y = Some y"
| "rollback_loop venus a_family e c t (i # is) y =
     (if own c (slot_at (c, i) y)
      then rollback_loop venus a_family e c t is
             (put_stream_buf venus a_family e (c, i) (stop_stream venus a_family e (c, i) y))
      else (case drop_linked_stream venus a_family e c i t y of
              None \<Rightarrow> None
            | Some z \<Rightarrow> rollback_loop venus a_family e c t is z))"

definition zero_attr :: mm_camera_channel_attr_t where
  "zero_attr = \<lparr>notify_mode = MM_CAMERA_SUPER_BUF_NOTIFY_BURST, water_mark = 0, look_back = 0, post_frame_skip = 0,
     max_unmatched_frames = 0\<rparr>"

definition zero_bundle :: "mm_channel_obj \<Rightarrow> mm_channel_obj" where
  "zero_bundle ch = ch\<lparr>c_active := False, c_work := (c_work ch)\<lparr>super_buf_notify_cb := False,
     superbuf_queue := \<lparr>que = [], que_size = 0, bundled_streams = [], attr = zero_attr, expected_frame_id = 0,
       match_cnt = 0, expected_frame_id_without_led = 0\<rparr>\<rparr>\<rparr>"

text \<open>The bundle: its queue, the flag of the own streams, and the command thread.\<close>

definition set_bundle_up :: "nat \<Rightarrow> nat list \<Rightarrow> chan_sys \<Rightarrow> chan_sys" where
  "set_bundle_up c objs y =
     (if super_buf_notify_cb (c_work (chs y ! c))
      then upd_ch c (\<lambda>ch. ch\<lparr>
             c_work := superbuf_queue_restart (map (\<lambda>i. st_hdl (strm (c_streams ch ! i))) objs) (c_work ch),
             c_streams := map (\<lambda>i. let sl = c_streams ch ! i
                                   in if i \<in> set objs \<and> own c sl then sl\<lparr>strm := (strm sl)\<lparr>is_bundled := True\<rparr>\<rparr> else sl)
                              [0..<length (c_streams ch)],
             c_active := True, c_thread := True, c_cmds := []\<rparr>) y
      else y)"

definition mm_channel_start ::
    "venus_macros option \<Rightarrow> bool \<Rightarrow> chan_env \<Rightarrow> nat \<Rightarrow> chan_sys \<Rightarrow> (int \<times> chan_sys) option" where
  "mm_channel_start venus a_family e c y =
     (let sls = c_streams (chs y ! c); objs0 = channel_streams sls; m = meta_stream_idx c sls objs0;
          objs = (if 0 < m then exchange 0 m objs0 else objs0)
      in if list_ex (\<lambda>i. \<not> has_info (sls ! i)) objs then None
         else let (rc, reached, y1) = start_loop venus a_family e c objs (set_bundle_up c objs y)
              in if rc = 0 then Some (0, y1)
                 else let t = si_type (stream_info (strm (slot_at (c, last reached) y1)))
                      in case rollback_loop venus a_family e c t reached y1 of
                           None \<Rightarrow> None
                         | Some y2 \<Rightarrow>
                             if c_active (chs y2 ! c)
                             then map_option (\<lambda>z. (rc, upd_ch c zero_bundle z)) (release_ch_thread venus a_family e c y2)
                             else Some (rc, y2))"

fun stop_loop ::
    "venus_macros option \<Rightarrow> bool \<Rightarrow> chan_env \<Rightarrow> nat \<Rightarrow> nat list \<Rightarrow> chan_sys \<Rightarrow> chan_sys option" where
  "stop_loop venus a_family e c [] y = Some y"
| "stop_loop venus a_family e c (i # is) y =
     (if own c (slot_at (c, i) y) then stop_loop venus a_family e c is (stop_stream venus a_family e (c, i) y)
      else (case drop_linked_stream venus a_family e c i (si_type (stream_info (strm (slot_at (c, i) y)))) y of
              None \<Rightarrow> None
            | Some z \<Rightarrow> stop_loop venus a_family e c is z))"

definition mm_channel_stop ::
    "venus_macros option \<Rightarrow> bool \<Rightarrow> chan_env \<Rightarrow> nat \<Rightarrow> chan_sys \<Rightarrow> (int \<times> chan_sys) option" where
  "mm_channel_stop venus a_family e c y =
     (let sls = c_streams (chs y ! c); objs0 = channel_streams sls; m = meta_stream_idx c sls objs0;
          objs = (if m + 1 < length objs0 then exchange (length objs0 - 1) m objs0 else objs0)
      in if list_ex (\<lambda>i. \<not> has_info (sls ! i)) objs then None
         else case stop_loop venus a_family e c objs y of
                None \<Rightarrow> None
              | Some y1 \<Rightarrow>
                  (case (if c_active (chs y1 ! c)
                         then map_option (queue_deinit c) (release_ch_thread venus a_family e c y1) else Some y1) of
                     None \<Rightarrow> None
                   | Some y2 \<Rightarrow>
                       Some (0, fold (\<lambda>i z. if own c (slot_at (c, i) z) then put_stream_buf venus a_family e (c, i) z else z)
                                  objs y2)))"

section \<open>The state machine\<close>

text \<open>\<open>Adv\<close> is the bracketing and zoom events; \<open>Buf\<close> the mapping of a buffer, \<open>True\<close> for one of an offline input.\<close>

datatype mm_channel_evt_type_t =
    MM_CHANNEL_EVT_ADD_STREAM
  | MM_CHANNEL_EVT_DEL_STREAM u32
  | MM_CHANNEL_EVT_LINK_STREAM nat u32
  | MM_CHANNEL_EVT_CONFIG_STREAM u32 mm_camera_stream_config_t
  | MM_CHANNEL_EVT_GET_BUNDLE_INFO
  | MM_CHANNEL_EVT_START
  | MM_CHANNEL_EVT_STOP
  | MM_CHANNEL_EVT_PAUSE
  | MM_CHANNEL_EVT_RESUME
  | MM_CHANNEL_EVT_REQUEST_SUPER_BUF u32
  | MM_CHANNEL_EVT_CANCEL_REQUEST_SUPER_BUF
  | MM_CHANNEL_EVT_FLUSH_SUPER_BUF_QUEUE u32
  | MM_CHANNEL_EVT_CONFIG_NOTIFY_MODE mm_camera_super_buf_notify_mode_t
  | MM_CHANNEL_EVT_START_ZSL_SNAPSHOT
  | MM_CHANNEL_EVT_STOP_ZSL_SNAPSHOT
  | MM_CHANNEL_EVT_MAP_STREAM_BUF u32 bool
  | MM_CHANNEL_EVT_UNMAP_STREAM_BUF u32 bool
  | MM_CHANNEL_EVT_SET_STREAM_PARM u32 bool
  | MM_CHANNEL_EVT_GET_STREAM_PARM u32 bool
  | MM_CHANNEL_EVT_DO_STREAM_ACTION u32 bool
  | MM_CHANNEL_EVT_DELETE
  | MM_CHANNEL_EVT_ADVANCED mm_camera_generic_cmd_type_t bool
  | MM_CHANNEL_EVT_GET_STREAM_QUEUED_BUF_COUNT u32

text \<open>The result: the return code, the handle written through \<open>out_val\<close>, and the streams of the bundle.\<close>

record evt_result =
  r_rc :: int
  r_out :: u32
  r_bundle :: "u32 list"

definition rc_only :: "int \<Rightarrow> evt_result" where
  "rc_only rc = \<lparr>r_rc = rc, r_out = 0, r_bundle = []\<rparr>"

definition ret_rc :: "int \<times> chan_sys \<Rightarrow> (evt_result \<times> chan_sys) option" where
  "ret_rc r = Some (rc_only (fst r), snd r)"

definition ret_opt :: "(int \<times> chan_sys) option \<Rightarrow> (evt_result \<times> chan_sys) option" where
  "ret_opt r = map_option (map_prod rc_only id) r"

definition ret_hdl :: "u32 \<times> chan_sys \<Rightarrow> (evt_result \<times> chan_sys) option" where
  "ret_hdl r = Some ((rc_only 0)\<lparr>r_out := fst r\<rparr>, snd r)"

text \<open>A buffer is mapped for an own stream that exists; the message to the server gives the code.\<close>

definition mm_channel_map_stream_buf :: "chan_env \<Rightarrow> nat \<Rightarrow> u32 \<Rightarrow> chan_sys \<Rightarrow> int" where
  "mm_channel_map_stream_buf e c h y = (case find_slot h (c_streams (chs y ! c)) of
     None \<Rightarrow> -1
   | Some i \<Rightarrow> if own c (slot_at (c, i) y) then e_map e else 0)"

definition mm_channel_unmap_stream_buf :: "chan_env \<Rightarrow> nat \<Rightarrow> u32 \<Rightarrow> chan_sys \<Rightarrow> int" where
  "mm_channel_unmap_stream_buf e c h y = (case find_slot h (c_streams (chs y ! c)) of
     None \<Rightarrow> -1
   | Some i \<Rightarrow> if own c (slot_at (c, i) y) then e_map e else 0)"

definition set_c_state :: "mm_channel_state_type_t \<Rightarrow> nat \<Rightarrow> chan_sys \<Rightarrow> chan_sys" where
  "set_c_state st c = upd_ch c (\<lambda>ch. ch\<lparr>c_state := st\<rparr>)"

definition mm_channel_fsm_fn_stopped ::
    "venus_macros option \<Rightarrow> bool \<Rightarrow> chan_env \<Rightarrow> nat \<Rightarrow> mm_channel_evt_type_t \<Rightarrow> chan_sys \<Rightarrow> (evt_result \<times> chan_sys) option" where
  "mm_channel_fsm_fn_stopped venus a_family e c evt y = (case evt of
     MM_CHANNEL_EVT_ADD_STREAM \<Rightarrow> ret_hdl (mm_channel_add_stream venus a_family e c y)
   | MM_CHANNEL_EVT_LINK_STREAM c' h \<Rightarrow> ret_hdl (mm_channel_link_stream c c' h y)
   | MM_CHANNEL_EVT_DEL_STREAM h \<Rightarrow> ret_rc (mm_channel_del_stream venus a_family e c h y)
   | MM_CHANNEL_EVT_START \<Rightarrow>
       ret_opt (map_option (\<lambda>(rc, z). (rc, if rc = 0 then set_c_state MM_CHANNEL_STATE_ACTIVE c z else z))
         (mm_channel_start venus a_family e c y))
   | MM_CHANNEL_EVT_CONFIG_STREAM h cfg \<Rightarrow> ret_rc (mm_channel_config_stream venus a_family e c h cfg y)
   | MM_CHANNEL_EVT_GET_BUNDLE_INFO \<Rightarrow>
       map_option (\<lambda>(rc, ids). ((rc_only rc)\<lparr>r_bundle := ids\<rparr>, y)) (mm_channel_get_bundle_info c y)
   | MM_CHANNEL_EVT_DELETE \<Rightarrow> ret_rc (0, set_c_state MM_CHANNEL_STATE_NOTUSED c y)
   | MM_CHANNEL_EVT_SET_STREAM_PARM h p \<Rightarrow> ret_rc (mm_channel_set_stream_parm venus a_family e c h p y)
   | MM_CHANNEL_EVT_GET_STREAM_PARM h p \<Rightarrow> ret_rc (mm_channel_get_stream_parm venus a_family e c h p y)
   | MM_CHANNEL_EVT_DO_STREAM_ACTION h p \<Rightarrow> ret_rc (mm_channel_do_stream_action venus a_family e c h p y)
   | MM_CHANNEL_EVT_GET_STREAM_QUEUED_BUF_COUNT h \<Rightarrow> ret_rc (mm_channel_get_queued_buf_count venus a_family e c h y)
   | MM_CHANNEL_EVT_MAP_STREAM_BUF h off \<Rightarrow> ret_rc (mm_channel_map_stream_buf e c h y, y)
   | MM_CHANNEL_EVT_UNMAP_STREAM_BUF h off \<Rightarrow> ret_rc (mm_channel_unmap_stream_buf e c h y, y)
   | _ \<Rightarrow> ret_rc (0, y))"

definition mm_channel_fsm_fn_active ::
    "venus_macros option \<Rightarrow> bool \<Rightarrow> chan_env \<Rightarrow> nat \<Rightarrow> mm_channel_evt_type_t \<Rightarrow> chan_sys \<Rightarrow> (evt_result \<times> chan_sys) option" where
  "mm_channel_fsm_fn_active venus a_family e c evt y = (case evt of
     MM_CHANNEL_EVT_STOP \<Rightarrow>
       ret_opt (map_option (\<lambda>(rc, z). (rc, set_c_state MM_CHANNEL_STATE_STOPPED c z)) (mm_channel_stop venus a_family e c y))
   | MM_CHANNEL_EVT_REQUEST_SUPER_BUF n \<Rightarrow> ret_opt (mm_channel_request_super_buf e c n y)
   | MM_CHANNEL_EVT_CANCEL_REQUEST_SUPER_BUF \<Rightarrow> ret_opt (mm_channel_cancel_super_buf_request e c y)
   | MM_CHANNEL_EVT_FLUSH_SUPER_BUF_QUEUE f \<Rightarrow>
       ret_opt (mm_channel_flush_super_buf_queue venus a_family e c f CAM_STREAM_TYPE_DEFAULT y)
   | MM_CHANNEL_EVT_START_ZSL_SNAPSHOT \<Rightarrow> ret_opt (mm_channel_start_zsl_snapshot e c y)
   | MM_CHANNEL_EVT_STOP_ZSL_SNAPSHOT \<Rightarrow> ret_opt (mm_channel_stop_zsl_snapshot e c y)
   | MM_CHANNEL_EVT_CONFIG_NOTIFY_MODE m \<Rightarrow> ret_opt (mm_channel_config_notify_mode e c m y)
   | MM_CHANNEL_EVT_SET_STREAM_PARM h p \<Rightarrow> ret_rc (mm_channel_set_stream_parm venus a_family e c h p y)
   | MM_CHANNEL_EVT_GET_STREAM_PARM h p \<Rightarrow> ret_rc (mm_channel_get_stream_parm venus a_family e c h p y)
   | MM_CHANNEL_EVT_DO_STREAM_ACTION h p \<Rightarrow> ret_rc (mm_channel_do_stream_action venus a_family e c h p y)
   | MM_CHANNEL_EVT_GET_STREAM_QUEUED_BUF_COUNT h \<Rightarrow> ret_rc (mm_channel_get_queued_buf_count venus a_family e c h y)
   | MM_CHANNEL_EVT_MAP_STREAM_BUF h off \<Rightarrow> ret_rc (if off then mm_channel_map_stream_buf e c h y else 0, y)
   | MM_CHANNEL_EVT_UNMAP_STREAM_BUF h off \<Rightarrow> ret_rc (if off then mm_channel_unmap_stream_buf e c h y else 0, y)
   | MM_CHANNEL_EVT_ADVANCED t start \<Rightarrow> ret_opt (mm_channel_proc_general_cmd e c t start y)
   | _ \<Rightarrow> ret_rc (0, y))"

definition mm_channel_fsm_fn ::
    "venus_macros option \<Rightarrow> bool \<Rightarrow> chan_env \<Rightarrow> nat \<Rightarrow> mm_channel_evt_type_t \<Rightarrow> chan_sys \<Rightarrow> (evt_result \<times> chan_sys) option" where
  "mm_channel_fsm_fn venus a_family e c evt y = (case c_state (chs y ! c) of
     MM_CHANNEL_STATE_NOTUSED \<Rightarrow> ret_rc (-1, y)
   | MM_CHANNEL_STATE_STOPPED \<Rightarrow> mm_channel_fsm_fn_stopped venus a_family e c evt y
   | MM_CHANNEL_STATE_ACTIVE \<Rightarrow> mm_channel_fsm_fn_active venus a_family e c evt y
   | MM_CHANNEL_STATE_PAUSED \<Rightarrow> ret_rc (0, y))"

section \<open>Frames and threads\<close>

text \<open>Posting the frames a stream has handed on: to its own channel and to the one it is linked to.\<close>

definition post_frames :: "nat option \<Rightarrow> mm_camera_buf_info_t list \<Rightarrow> chan_sys \<Rightarrow> chan_sys option" where
  "post_frames co infos y =
     (if infos = [] then Some y
      else case co of
             None \<Rightarrow> None
           | Some c \<Rightarrow> if c_thread (chs y ! c)
                       then Some (upd_ch c (\<lambda>ch. ch\<lparr>c_cmds := c_cmds ch @ map CMD_DATA_CB infos\<rparr>) y) else None)"

text \<open>The polling thread brings a frame of the stream in a slot.\<close>

definition frame_arrives :: "stream_env \<Rightarrow> bool \<times> bool \<times> bool \<Rightarrow> nat \<times> nat \<Rightarrow> chan_sys \<Rightarrow> chan_sys option" where
  "frame_arrives e mem p y =
     (let sl = slot_at p y;
          s = mm_stream_data_notify e mem ((strm sl)\<lparr>ch_posts := [], linked_posts := []\<rparr>)
      in case post_frames (ch_obj sl) (ch_posts s) (upd_slot p (\<lambda>sl. sl\<lparr>strm := s\<rparr>) y) of
           None \<Rightarrow> None
         | Some y1 \<Rightarrow> post_frames (linked_obj sl) (linked_posts s) y1)"

text \<open>The command threads of a stream and of a channel take the next command.\<close>

definition stream_round :: "stream_env \<Rightarrow> nat \<times> nat \<Rightarrow> chan_sys \<Rightarrow> chan_sys" where
  "stream_round e p = upd_slot p (\<lambda>sl. sl\<lparr>strm := stream_thread_round e (strm sl)\<rparr>)"

definition channel_round :: "venus_macros option \<Rightarrow> bool \<Rightarrow> chan_env \<Rightarrow> nat \<Rightarrow> chan_sys \<Rightarrow> chan_sys option" where
  "channel_round venus a_family e c y = (case c_cmds (chs y ! c) of
     [] \<Rightarrow> Some y
   | cmd # cmds \<Rightarrow> run_cmd venus a_family e c cmd (upd_ch c (\<lambda>ch. ch\<lparr>c_cmds := cmds\<rparr>) y))"

end
