(* ===== verification/MmCamera.thy ===== *)
theory MmCamera
  imports MmChannel
begin

text \<open>
  A camera and its channels (camera/QCamera2/stack/mm-camera-interface/src/mm_camera.c) and the interface the HAL
  calls (mm_camera_interface.c): the routing from handles to channels and streams, channels that are added and
  deleted, the events of the camera server, the messages whose reply is such an event, and the cameras that are
  opened, shared by count and closed.

  An operation on the channels of a camera works on the \<open>chan_sys\<close> of MmChannel; one on the camera itself works on
  \<open>mm_camera_obj_t\<close>, and the interface on \<open>mm_camera_ctrl_t\<close>, which has the cameras by index and the count of the
  handles given out. The locks are not modelled: each operation holds them from its lookup to its end.
\<close>

section \<open>Channels of a camera\<close>

definition MM_CAMERA_CHANNEL_MAX :: nat where
  "MM_CAMERA_CHANNEL_MAX = 16"

definition zero_channel :: mm_channel_obj where
  "zero_channel = \<lparr>c_hdl = 0, c_state = MM_CHANNEL_STATE_NOTUSED,
     c_streams = replicate MAX_STREAM_NUM_IN_BUNDLE zero_slot, c_active = False,
     c_work = \<lparr>streams = [], superbuf_queue = \<lparr>que = [], que_size = 0, bundled_streams = [], attr = zero_attr,
         expected_frame_id = 0, match_cnt = 0, expected_frame_id_without_led = 0\<rparr>,
       super_buf_notify_cb = False, pending_cnt = 0, manualZSLSnapshot = False, startZSlSnapshotCalled = False,
       needLEDFlash = False, previewSkipCnt = 0, bracketingState = MM_CHANNEL_BRACKETING_STATE_OFF,
       isFlashBracketingEnabled = False, isZoom1xFrameRequested = False, qbufs = [], superbufs = [], zsl_calls = []\<rparr>,
     c_thread = False, c_cmds = []\<rparr>"

definition mm_camera_util_get_channel_by_handler :: "u32 \<Rightarrow> chan_sys \<Rightarrow> nat option" where
  "mm_camera_util_get_channel_by_handler h y = find (\<lambda>c. h = c_hdl (chs y ! c)) [0..<length (chs y)]"

definition mm_channel_init :: "mm_camera_channel_attr_t option \<Rightarrow> bool \<Rightarrow> mm_channel_obj \<Rightarrow> mm_channel_obj" where
  "mm_channel_init a cb ch =
     (let w = (c_work ch)\<lparr>super_buf_notify_cb := cb\<rparr>;
          q = (case a of None \<Rightarrow> superbuf_queue w | Some a \<Rightarrow> (superbuf_queue w)\<lparr>attr := a\<rparr>)
      in ch\<lparr>c_work := set_queue q w, c_state := MM_CHANNEL_STATE_STOPPED\<rparr>)"

definition mm_camera_add_channel :: "mm_camera_channel_attr_t option \<Rightarrow> bool \<Rightarrow> chan_sys \<Rightarrow> u32 \<times> chan_sys" where
  "mm_camera_add_channel a cb y =
     (case find (\<lambda>c. c_state (chs y ! c) = MM_CHANNEL_STATE_NOTUSED) [0..<length (chs y)] of
        None \<Rightarrow> (0, y)
      | Some c \<Rightarrow>
          let (h, g) = mm_camera_util_generate_handler (of_nat c) (g_handler_history_count y)
          in (h, upd_ch c (\<lambda>_. mm_channel_init a cb (zero_channel\<lparr>c_hdl := h, c_state := MM_CHANNEL_STATE_STOPPED\<rparr>))
                   (y\<lparr>g_handler_history_count := g\<rparr>)))"

text \<open>An operation on a channel: find it by its handle, and give it the event.\<close>

definition chan_call ::
    "venus_macros option \<Rightarrow> bool \<Rightarrow> chan_env \<Rightarrow> u32 \<Rightarrow> mm_channel_evt_type_t \<Rightarrow> chan_sys \<Rightarrow> (evt_result \<times> chan_sys) option" where
  "chan_call venus a_family e h evt y = (case mm_camera_util_get_channel_by_handler h y of
     None \<Rightarrow> Some (rc_only (-1), y)
   | Some c \<Rightarrow> mm_channel_fsm_fn venus a_family e c evt y)"

text \<open>A channel is zeroed with its streams whatever state it is in; the handle of no channel in use is 0.\<close>

definition mm_camera_del_channel ::
    "venus_macros option \<Rightarrow> bool \<Rightarrow> chan_env \<Rightarrow> u32 \<Rightarrow> chan_sys \<Rightarrow> (int \<times> chan_sys) option" where
  "mm_camera_del_channel venus a_family e h y = (case mm_camera_util_get_channel_by_handler h y of
     None \<Rightarrow> Some (-1, y)
   | Some c \<Rightarrow> map_option (\<lambda>(r, z). (r_rc r, upd_ch c (\<lambda>_. zero_channel) z))
                (mm_channel_fsm_fn venus a_family e c MM_CHANNEL_EVT_DELETE y))"

definition rc_of :: "(evt_result \<times> chan_sys) option \<Rightarrow> (int \<times> chan_sys) option" where
  "rc_of = map_option (map_prod r_rc id)"

definition hdl_of :: "(evt_result \<times> chan_sys) option \<Rightarrow> (u32 \<times> chan_sys) option" where
  "hdl_of = map_option (map_prod r_out id)"

definition mm_camera_qbuf ::
    "venus_macros option \<Rightarrow> bool \<Rightarrow> chan_env \<Rightarrow> u32 \<Rightarrow> mm_camera_buf_def_t \<Rightarrow> chan_sys \<Rightarrow> (int \<times> chan_sys) option" where
  "mm_camera_qbuf venus a_family e h b y = (case mm_camera_util_get_channel_by_handler h y of
     None \<Rightarrow> Some (-1, y)
   | Some c \<Rightarrow> Some (channel_qbuf venus a_family e c b y))"

definition mm_camera_get_queued_buf_count ::
    "venus_macros option \<Rightarrow> bool \<Rightarrow> chan_env \<Rightarrow> u32 \<Rightarrow> u32 \<Rightarrow> chan_sys \<Rightarrow> (int \<times> chan_sys) option" where
  "mm_camera_get_queued_buf_count venus a_family e h s y =
     rc_of (chan_call venus a_family e h (MM_CHANNEL_EVT_GET_STREAM_QUEUED_BUF_COUNT s) y)"

text \<open>With the streams of the bundle.\<close>

definition mm_camera_get_bundle_info ::
    "venus_macros option \<Rightarrow> bool \<Rightarrow> chan_env \<Rightarrow> u32 \<Rightarrow> chan_sys \<Rightarrow> ((int \<times> u32 list) \<times> chan_sys) option" where
  "mm_camera_get_bundle_info venus a_family e h y =
     map_option (map_prod (\<lambda>r. (r_rc r, r_bundle r)) id) (chan_call venus a_family e h MM_CHANNEL_EVT_GET_BUNDLE_INFO y)"

definition mm_camera_link_stream ::
    "venus_macros option \<Rightarrow> bool \<Rightarrow> chan_env \<Rightarrow> u32 \<Rightarrow> u32 \<Rightarrow> u32 \<Rightarrow> chan_sys \<Rightarrow> (u32 \<times> chan_sys) option" where
  "mm_camera_link_stream venus a_family e h s linked y =
     (case (mm_camera_util_get_channel_by_handler linked y, mm_camera_util_get_channel_by_handler h y) of
        (Some c, Some owner) \<Rightarrow> hdl_of (mm_channel_fsm_fn venus a_family e c (MM_CHANNEL_EVT_LINK_STREAM owner s) y)
      | _ \<Rightarrow> Some (0, y))"

definition mm_camera_add_stream ::
    "venus_macros option \<Rightarrow> bool \<Rightarrow> chan_env \<Rightarrow> u32 \<Rightarrow> chan_sys \<Rightarrow> (u32 \<times> chan_sys) option" where
  "mm_camera_add_stream venus a_family e h y = hdl_of (chan_call venus a_family e h MM_CHANNEL_EVT_ADD_STREAM y)"

definition mm_camera_del_stream ::
    "venus_macros option \<Rightarrow> bool \<Rightarrow> chan_env \<Rightarrow> u32 \<Rightarrow> u32 \<Rightarrow> chan_sys \<Rightarrow> (int \<times> chan_sys) option" where
  "mm_camera_del_stream venus a_family e h s y = rc_of (chan_call venus a_family e h (MM_CHANNEL_EVT_DEL_STREAM s) y)"

definition mm_camera_start_zsl_snapshot_ch ::
    "venus_macros option \<Rightarrow> bool \<Rightarrow> chan_env \<Rightarrow> u32 \<Rightarrow> chan_sys \<Rightarrow> (int \<times> chan_sys) option" where
  "mm_camera_start_zsl_snapshot_ch venus a_family e h y =
     rc_of (chan_call venus a_family e h MM_CHANNEL_EVT_START_ZSL_SNAPSHOT y)"

definition mm_camera_stop_zsl_snapshot_ch ::
    "venus_macros option \<Rightarrow> bool \<Rightarrow> chan_env \<Rightarrow> u32 \<Rightarrow> chan_sys \<Rightarrow> (int \<times> chan_sys) option" where
  "mm_camera_stop_zsl_snapshot_ch venus a_family e h y =
     rc_of (chan_call venus a_family e h MM_CHANNEL_EVT_STOP_ZSL_SNAPSHOT y)"

definition mm_camera_config_stream ::
    "venus_macros option \<Rightarrow> bool \<Rightarrow> chan_env \<Rightarrow> u32 \<Rightarrow> u32 \<Rightarrow> mm_camera_stream_config_t \<Rightarrow> chan_sys \<Rightarrow> (int \<times> chan_sys) option" where
  "mm_camera_config_stream venus a_family e h s cfg y =
     rc_of (chan_call venus a_family e h (MM_CHANNEL_EVT_CONFIG_STREAM s cfg) y)"

definition mm_camera_start_channel ::
    "venus_macros option \<Rightarrow> bool \<Rightarrow> chan_env \<Rightarrow> u32 \<Rightarrow> chan_sys \<Rightarrow> (int \<times> chan_sys) option" where
  "mm_camera_start_channel venus a_family e h y = rc_of (chan_call venus a_family e h MM_CHANNEL_EVT_START y)"

text \<open>Stopping a channel that does not exist succeeds.\<close>

definition mm_camera_stop_channel ::
    "venus_macros option \<Rightarrow> bool \<Rightarrow> chan_env \<Rightarrow> u32 \<Rightarrow> chan_sys \<Rightarrow> (int \<times> chan_sys) option" where
  "mm_camera_stop_channel venus a_family e h y = (case mm_camera_util_get_channel_by_handler h y of
     None \<Rightarrow> Some (0, y)
   | Some c \<Rightarrow> rc_of (mm_channel_fsm_fn venus a_family e c MM_CHANNEL_EVT_STOP y))"

definition mm_camera_request_super_buf ::
    "venus_macros option \<Rightarrow> bool \<Rightarrow> chan_env \<Rightarrow> u32 \<Rightarrow> u32 \<Rightarrow> chan_sys \<Rightarrow> (int \<times> chan_sys) option" where
  "mm_camera_request_super_buf venus a_family e h n y =
     rc_of (chan_call venus a_family e h (MM_CHANNEL_EVT_REQUEST_SUPER_BUF n) y)"

definition mm_camera_cancel_super_buf_request ::
    "venus_macros option \<Rightarrow> bool \<Rightarrow> chan_env \<Rightarrow> u32 \<Rightarrow> chan_sys \<Rightarrow> (int \<times> chan_sys) option" where
  "mm_camera_cancel_super_buf_request venus a_family e h y =
     rc_of (chan_call venus a_family e h MM_CHANNEL_EVT_CANCEL_REQUEST_SUPER_BUF y)"

definition mm_camera_flush_super_buf_queue ::
    "venus_macros option \<Rightarrow> bool \<Rightarrow> chan_env \<Rightarrow> u32 \<Rightarrow> u32 \<Rightarrow> chan_sys \<Rightarrow> (int \<times> chan_sys) option" where
  "mm_camera_flush_super_buf_queue venus a_family e h f y =
     rc_of (chan_call venus a_family e h (MM_CHANNEL_EVT_FLUSH_SUPER_BUF_QUEUE f) y)"

definition mm_camera_config_channel_notify ::
    "venus_macros option \<Rightarrow> bool \<Rightarrow> chan_env \<Rightarrow> u32 \<Rightarrow> mm_camera_super_buf_notify_mode_t \<Rightarrow> chan_sys \<Rightarrow> (int \<times> chan_sys) option" where
  "mm_camera_config_channel_notify venus a_family e h m y =
     rc_of (chan_call venus a_family e h (MM_CHANNEL_EVT_CONFIG_NOTIFY_MODE m) y)"

text \<open>Parameters of a stream; \<open>False\<close> is a null pointer.\<close>

definition mm_camera_set_stream_parms ::
    "venus_macros option \<Rightarrow> bool \<Rightarrow> chan_env \<Rightarrow> u32 \<Rightarrow> u32 \<Rightarrow> bool \<Rightarrow> chan_sys \<Rightarrow> (int \<times> chan_sys) option" where
  "mm_camera_set_stream_parms venus a_family e h s p y =
     rc_of (chan_call venus a_family e h (MM_CHANNEL_EVT_SET_STREAM_PARM s p) y)"

definition mm_camera_get_stream_parms ::
    "venus_macros option \<Rightarrow> bool \<Rightarrow> chan_env \<Rightarrow> u32 \<Rightarrow> u32 \<Rightarrow> bool \<Rightarrow> chan_sys \<Rightarrow> (int \<times> chan_sys) option" where
  "mm_camera_get_stream_parms venus a_family e h s p y =
     rc_of (chan_call venus a_family e h (MM_CHANNEL_EVT_GET_STREAM_PARM s p) y)"

definition mm_camera_do_stream_action ::
    "venus_macros option \<Rightarrow> bool \<Rightarrow> chan_env \<Rightarrow> u32 \<Rightarrow> u32 \<Rightarrow> bool \<Rightarrow> chan_sys \<Rightarrow> (int \<times> chan_sys) option" where
  "mm_camera_do_stream_action venus a_family e h s p y =
     rc_of (chan_call venus a_family e h (MM_CHANNEL_EVT_DO_STREAM_ACTION s p) y)"

text \<open>\<open>off\<close> tells whether the buffer is an offline input.\<close>

definition mm_camera_map_stream_buf ::
    "venus_macros option \<Rightarrow> bool \<Rightarrow> chan_env \<Rightarrow> u32 \<Rightarrow> u32 \<Rightarrow> bool \<Rightarrow> chan_sys \<Rightarrow> (int \<times> chan_sys) option" where
  "mm_camera_map_stream_buf venus a_family e h s off y =
     rc_of (chan_call venus a_family e h (MM_CHANNEL_EVT_MAP_STREAM_BUF s off) y)"

definition mm_camera_unmap_stream_buf ::
    "venus_macros option \<Rightarrow> bool \<Rightarrow> chan_env \<Rightarrow> u32 \<Rightarrow> u32 \<Rightarrow> bool \<Rightarrow> chan_sys \<Rightarrow> (int \<times> chan_sys) option" where
  "mm_camera_unmap_stream_buf venus a_family e h s off y =
     rc_of (chan_call venus a_family e h (MM_CHANNEL_EVT_UNMAP_STREAM_BUF s off) y)"

text \<open>Advanced captures; the flag starts or stops one.\<close>

datatype mm_camera_advanced_capture_t =
    MM_CAMERA_AF_BRACKETING
  | MM_CAMERA_AE_BRACKETING
  | MM_CAMERA_FLASH_BRACKETING
  | MM_CAMERA_MTF_BRACKETING
  | MM_CAMERA_ZOOM_1X

definition mm_camera_channel_advanced_capture ::
    "venus_macros option \<Rightarrow> bool \<Rightarrow> chan_env \<Rightarrow> mm_camera_advanced_capture_t \<Rightarrow> u32 \<Rightarrow> bool \<Rightarrow> chan_sys \<Rightarrow> (int \<times> chan_sys) option" where
  "mm_camera_channel_advanced_capture venus a_family e t h start y = rc_of (chan_call venus a_family e h
     (MM_CHANNEL_EVT_ADVANCED (case t of
        MM_CAMERA_AF_BRACKETING \<Rightarrow> MM_CAMERA_GENERIC_CMD_TYPE_AF_BRACKETING
      | MM_CAMERA_AE_BRACKETING \<Rightarrow> MM_CAMERA_GENERIC_CMD_TYPE_AE_BRACKETING
      | MM_CAMERA_FLASH_BRACKETING \<Rightarrow> MM_CAMERA_GENERIC_CMD_TYPE_FLASH_BRACKETING
      | MM_CAMERA_MTF_BRACKETING \<Rightarrow> MM_CAMERA_GENERIC_CMD_TYPE_MTF_BRACKETING
      | MM_CAMERA_ZOOM_1X \<Rightarrow> MM_CAMERA_GENERIC_CMD_TYPE_ZOOM_1X) start) y)"

section \<open>The camera object\<close>

text \<open>The status of an event is whether it is the code for success; an entry of the event table has a callback and its user data.\<close>

record mm_camera_event_t =
  server_event_type :: u32
  status_ok :: bool

record mm_camera_obj_t =
  cam_hdl :: u32
  ref_count :: int
  ctrl_fd :: int
  ds_fd :: int
  cam_ch :: "mm_channel_obj list"
  evt_entries :: "(bool \<times> nat option) list"
  reg_count :: int
  evt_polled :: bool
  evt_rcvd :: mm_camera_event_t
  evt_queue :: "mm_camera_event_t list"
  evt_calls :: "(nat \<times> mm_camera_event_t) list"

definition zero_event :: mm_camera_event_t where
  "zero_event = \<lparr>server_event_type = 0, status_ok = False\<rparr>"

definition MM_CAMERA_EVT_ENTRY_MAX :: nat where
  "MM_CAMERA_EVT_ENTRY_MAX = 4"

definition zero_camera :: mm_camera_obj_t where
  "zero_camera = \<lparr>cam_hdl = 0, ref_count = 0, ctrl_fd = 0, ds_fd = 0,
     cam_ch = replicate MM_CAMERA_CHANNEL_MAX zero_channel,
     evt_entries = replicate MM_CAMERA_EVT_ENTRY_MAX (False, None), reg_count = 0, evt_polled = False,
     evt_rcvd = zero_event, evt_queue = [], evt_calls = []\<rparr>"

definition CAM_EVENT_TYPE_MAP_UNMAP_DONE :: u32 where "CAM_EVENT_TYPE_MAP_UNMAP_DONE = 1"
definition CAM_EVENT_TYPE_REPROCESS_STAGE_DONE :: u32 where "CAM_EVENT_TYPE_REPROCESS_STAGE_DONE = 8"
definition CAM_EVENT_TYPE_DAEMON_DIED :: u32 where "CAM_EVENT_TYPE_DAEMON_DIED = 16"
definition CAM_EVENT_TYPE_INT_TAKE_PIC :: u32 where "CAM_EVENT_TYPE_INT_TAKE_PIC = 32"

text \<open>What the driver reports: a command of the notification event with its status, or anything else.\<close>

datatype kernel_event =
    K_MAP_UNMAP_DONE bool
  | K_REPROCESS_STAGE_DONE
  | K_INT_TAKE_PIC
  | K_SHUTDOWN
  | K_OTHER

definition mm_camera_enqueue_evt :: "bool \<Rightarrow> mm_camera_event_t \<Rightarrow> mm_camera_obj_t \<Rightarrow> int \<times> mm_camera_obj_t" where
  "mm_camera_enqueue_evt mem ev o1 = (if mem then (0, o1\<lparr>evt_queue := evt_queue o1 @ [ev]\<rparr>) else (-1, o1))"

definition mm_camera_event_notify :: "bool \<Rightarrow> kernel_event \<Rightarrow> mm_camera_obj_t \<Rightarrow> mm_camera_obj_t" where
  "mm_camera_event_notify mem k o1 =
     (let enq = (\<lambda>t. snd (mm_camera_enqueue_evt mem (zero_event\<lparr>server_event_type := t\<rparr>) o1))
      in case k of
        K_MAP_UNMAP_DONE ok \<Rightarrow> o1\<lparr>evt_rcvd := \<lparr>server_event_type = CAM_EVENT_TYPE_MAP_UNMAP_DONE, status_ok = ok\<rparr>\<rparr>
      | K_REPROCESS_STAGE_DONE \<Rightarrow> enq CAM_EVENT_TYPE_REPROCESS_STAGE_DONE
      | K_INT_TAKE_PIC \<Rightarrow> enq CAM_EVENT_TYPE_INT_TAKE_PIC
      | K_SHUTDOWN \<Rightarrow> enq CAM_EVENT_TYPE_DAEMON_DIED
      | K_OTHER \<Rightarrow> o1)"

definition mm_camera_dispatch_app_event :: "mm_camera_event_t \<Rightarrow> mm_camera_obj_t \<Rightarrow> mm_camera_obj_t" where
  "mm_camera_dispatch_app_event ev o1 = o1\<lparr>evt_calls := evt_calls o1 @
     map (\<lambda>i. (i, ev)) (filter (\<lambda>i. fst (evt_entries o1 ! i)) [0..<length (evt_entries o1)])\<rparr>"

text \<open>The event thread takes the next event of its queue.\<close>

definition evt_thread_round :: "mm_camera_obj_t \<Rightarrow> mm_camera_obj_t" where
  "evt_thread_round o1 = (case evt_queue o1 of
     [] \<Rightarrow> o1 | ev # evs \<Rightarrow> mm_camera_dispatch_app_event ev (o1\<lparr>evt_queue := evs\<rparr>))"

text \<open>An entry is free when its user data is a null pointer; \<open>cb\<close> tells whether a callback is given.\<close>

definition mm_camera_register_event_notify_internal ::
    "bool \<Rightarrow> nat option \<Rightarrow> mm_camera_obj_t \<Rightarrow> int \<times> mm_camera_obj_t" where
  "mm_camera_register_event_notify_internal cb ud o1 =
     (let es = evt_entries o1; first = (\<lambda>u. find (\<lambda>i. snd (es ! i) = u) [0..<length es])
      in if cb
         then (case first None of
                 None \<Rightarrow> (-1, o1)
               | Some i \<Rightarrow> (0, o1\<lparr>evt_entries := es[i := (True, ud)], reg_count := reg_count o1 + 1\<rparr>))
         else (case first ud of
                 None \<Rightarrow> (-1, o1)
               | Some i \<Rightarrow> (0, o1\<lparr>evt_entries := es[i := (False, None)], reg_count := reg_count o1 - 1\<rparr>)))"

section \<open>Messages to the camera server\<close>

text \<open>
  Waiting for an event: the kernel events that arrive while it waits are handled one by one, and the wait times out
  when no more arrive. The stored event is reset at the end.
\<close>

fun wait_loop :: "bool \<Rightarrow> u32 \<Rightarrow> kernel_event list \<Rightarrow> mm_camera_obj_t \<Rightarrow> mm_camera_obj_t" where
  "wait_loop mem wanted [] o1 =
     (if server_event_type (evt_rcvd o1) AND wanted \<noteq> 0 then o1
      else o1\<lparr>evt_rcvd := (evt_rcvd o1)\<lparr>status_ok := False\<rparr>\<rparr>)"
| "wait_loop mem wanted (k # ks) o1 =
     (if server_event_type (evt_rcvd o1) AND wanted \<noteq> 0 then o1
      else wait_loop mem wanted ks (mm_camera_event_notify mem k o1))"

definition mm_camera_util_wait_for_event ::
    "bool \<Rightarrow> u32 \<Rightarrow> kernel_event list \<Rightarrow> mm_camera_obj_t \<Rightarrow> bool \<times> mm_camera_obj_t" where
  "mm_camera_util_wait_for_event mem wanted ks o1 =
     (let o2 = wait_loop mem wanted ks o1 in (status_ok (evt_rcvd o2), o2\<lparr>evt_rcvd := zero_event\<rparr>))"

text \<open>\<open>sent\<close> is the result of the socket; \<open>ks\<close> the events that arrive while the reply is awaited.\<close>

definition mm_camera_util_sendmsg :: "bool \<Rightarrow> int \<Rightarrow> kernel_event list \<Rightarrow> mm_camera_obj_t \<Rightarrow> int \<times> mm_camera_obj_t" where
  "mm_camera_util_sendmsg mem sent ks o1 =
     (if 0 < sent
      then let (ok, o2) = mm_camera_util_wait_for_event mem CAM_EVENT_TYPE_MAP_UNMAP_DONE ks o1
           in (if ok then 0 else -1, o2)
      else (-1, o1))"

definition mm_camera_map_buf :: "bool \<Rightarrow> int \<Rightarrow> kernel_event list \<Rightarrow> mm_camera_obj_t \<Rightarrow> int \<times> mm_camera_obj_t" where
  "mm_camera_map_buf = mm_camera_util_sendmsg"

definition mm_camera_unmap_buf :: "bool \<Rightarrow> int \<Rightarrow> kernel_event list \<Rightarrow> mm_camera_obj_t \<Rightarrow> int \<times> mm_camera_obj_t" where
  "mm_camera_unmap_buf = mm_camera_util_sendmsg"

section \<open>Opening and closing\<close>

text \<open>The control device is tried again while it answers with an I/O error, at most the given number of times.\<close>

fun open_ctrl :: "(nat \<Rightarrow> int \<times> bool) \<Rightarrow> nat \<Rightarrow> int" where
  "open_ctrl f 0 = 0"
| "open_ctrl f (Suc n) = (let (fd, eio) = f n in if 0 < fd \<or> \<not> eio \<or> n = 0 then fd else open_ctrl f n)"

fun open_ds :: "(nat \<Rightarrow> int) \<Rightarrow> nat \<Rightarrow> int" where
  "open_ds f 0 = 0"
| "open_ds f (Suc n) = (if 0 < f n \<or> n = 0 then f n else open_ds f n)"

definition MM_CAMERA_DEV_OPEN_TRIES :: nat where
  "MM_CAMERA_DEV_OPEN_TRIES = 20"

record cam_env =
  e_ctrl_open :: "nat \<Rightarrow> int \<times> bool"
  e_ds_open :: "nat \<Rightarrow> int"
  e_ioctl :: int
  e_mem :: bool

definition mm_camera_evt_sub :: "cam_env \<Rightarrow> bool \<Rightarrow> mm_camera_obj_t \<Rightarrow> int \<times> mm_camera_obj_t" where
  "mm_camera_evt_sub e reg o1 = (if e_ioctl e < 0 then (e_ioctl e, o1) else (0, o1\<lparr>evt_polled := reg\<rparr>))"

text \<open>\<open>dev\<close> tells whether the camera has a device name; what was opened before a failure is closed.\<close>

definition mm_camera_open :: "cam_env \<Rightarrow> bool \<Rightarrow> mm_camera_obj_t \<Rightarrow> int \<times> mm_camera_obj_t" where
  "mm_camera_open e dev o1 =
     (if \<not> dev then (-1, o1)
      else let o2 = o1\<lparr>ctrl_fd := open_ctrl (e_ctrl_open e) MM_CAMERA_DEV_OPEN_TRIES\<rparr>
           in if ctrl_fd o2 \<le> 0 then (-1, o2)
              else let o3 = o2\<lparr>ds_fd := open_ds (e_ds_open e) MM_CAMERA_DEV_OPEN_TRIES\<rparr>
                   in if ds_fd o3 \<le> 0 then (-1, o3\<lparr>ctrl_fd := 0\<rparr>)
                      else (0, snd (mm_camera_evt_sub e True o3)))"

text \<open>The event thread runs what is in its queue before it is joined; the channels are left as they are.\<close>

definition mm_camera_close :: "cam_env \<Rightarrow> mm_camera_obj_t \<Rightarrow> int \<times> mm_camera_obj_t" where
  "mm_camera_close e o1 =
     (let o2 = (snd (mm_camera_evt_sub e False o1))\<lparr>evt_polled := False\<rparr>;
          o3 = (if e_mem e then fold mm_camera_dispatch_app_event (evt_queue o2) (o2\<lparr>evt_queue := []\<rparr>) else o2)
      in (0, o3\<lparr>ctrl_fd := (if 0 < ctrl_fd o3 then 0 else ctrl_fd o3), ds_fd := (if 0 < ds_fd o3 then 0 else ds_fd o3)\<rparr>))"

text \<open>Requests to the driver that leave the object alone.\<close>

definition mm_camera_util_s_ctrl :: "int \<Rightarrow> int" where
  "mm_camera_util_s_ctrl rc = (if 0 \<le> rc then 0 else -1)"

definition mm_camera_util_g_ctrl :: "int \<Rightarrow> int" where
  "mm_camera_util_g_ctrl rc = (if 0 \<le> rc then 0 else -1)"

definition mm_camera_set_parms :: "int \<Rightarrow> bool \<Rightarrow> int" where
  "mm_camera_set_parms ioctl given = (if given then mm_camera_util_s_ctrl ioctl else -1)"

definition mm_camera_get_parms :: "int \<Rightarrow> bool \<Rightarrow> int" where
  "mm_camera_get_parms ioctl given = (if given then mm_camera_util_g_ctrl ioctl else -1)"

end
