(* ===== verification/MmChannelProps.thy ===== *)
theory MmChannelProps
  imports MmCamera MmStreamProps
begin

text \<open>
  What holds of the channels of a camera in every run: the streams follow the state of their channel, whatever the
  kernel and the server answer and whatever other channels and threads do, and a start is all or nothing.
\<close>

section \<open>What an event does to the state and the handle of a stream\<close>

text \<open>The states in which a stream has its format.\<close>

definition configured :: "mm_stream_state_type_t set" where
  "configured = {MM_STREAM_STATE_CFG, MM_STREAM_STATE_BUFFED, MM_STREAM_STATE_REG, MM_STREAM_STATE_ACTIVE}"

lemma alike_hdl: "alike s t \<Longrightarrow> st_hdl t = st_hdl s \<and> st_state t = st_state s"
  by (simp add: alike_def)

lemma bufs_rest:
  "st_hdl (snd (mm_stream_deinit_bufs e s)) = st_hdl s" "st_state (snd (mm_stream_deinit_bufs e s)) = st_state s"
  "st_hdl (snd (mm_stream_init_bufs e s)) = st_hdl s" "st_state (snd (mm_stream_init_bufs e s)) = st_state s"
  "st_hdl (snd (mm_stream_unreg_buf e s)) = st_hdl s" "st_state (snd (mm_stream_unreg_buf e s)) = st_state s"
  by (simp_all add: mm_stream_init_bufs_def mm_stream_deinit_bufs_def mm_stream_unreg_buf_def Let_def split: sum.split)

lemma reg_buf_rest:
  "st_hdl (snd (mm_stream_reg_buf e s)) = st_hdl s" "st_state (snd (mm_stream_reg_buf e s)) = st_state s"
  using alike_hdl [OF reg_loop_alike [of "s\<lparr>queued_buffer_count := 0\<rparr>" e 0 "take (unat (buf_num s)) (the (st_buf s))"]]
  by (auto simp: mm_stream_reg_buf_def Let_def split: option.split)

lemma release_thread_rest:
  "st_hdl (release_cmd_thread e s) = st_hdl s" "st_state (release_cmd_thread e s) = st_state s"
  using alike_hdl [OF release_thread_alike [of s e]] by simp_all

lemma start_rest:
  "st_hdl (snd (stream_start e s)) = st_hdl s"
  "st_state (snd (stream_start e s)) = (if fst (stream_start e s) = 0 then MM_STREAM_STATE_ACTIVE else MM_STREAM_STATE_REG)"
  by (simp_all add: stream_start_def mm_stream_streamon_def Let_def release_thread_rest poll_del_def)

lemma stop_rest:
  "st_hdl (snd (stream_stop e s)) = st_hdl s" "st_state (snd (stream_stop e s)) = MM_STREAM_STATE_REG"
  by (simp_all add: stream_stop_def mm_stream_streamoff_def Let_def release_thread_rest poll_del_def)

lemmas stream_rests = bufs_rest reg_buf_rest start_rest stop_rest
  alike_hdl [OF config_alike, THEN conjunct1] alike_hdl [OF buf_done_alike, THEN conjunct1]
  alike_hdl [OF buf_done_alike, THEN conjunct2]

lemmas fsm_defs = mm_stream_fsm_fn_def mm_stream_fsm_inited_def mm_stream_fsm_acquired_def mm_stream_fsm_cfg_def
  mm_stream_fsm_buffed_def mm_stream_fsm_reg_def mm_stream_fsm_active_def set_st_def set_st_ok_def

text \<open>The state and the handle a stream has after an event.\<close>

abbreviation after_evt :: "venus_macros option \<Rightarrow> bool \<Rightarrow> stream_env \<Rightarrow> mm_stream_evt_type_t \<Rightarrow> mm_stream_t \<Rightarrow> mm_stream_state_type_t" where
  "after_evt venus a_family e evt s \<equiv> st_state (snd (mm_stream_fsm_fn venus a_family e evt s))"

lemma fsm_hdl:
  assumes "evt \<noteq> MM_STREAM_EVT_RELEASE"
  shows "st_hdl (snd (mm_stream_fsm_fn venus a_family e evt s)) = st_hdl s"
  using assms by (cases "st_state s"; cases evt) (simp_all add: fsm_defs stream_rests mm_stream_set_ext_mode_def Let_def)

lemma fsm_used:
  assumes "evt \<noteq> MM_STREAM_EVT_RELEASE"
  shows "after_evt venus a_family e evt s = MM_STREAM_STATE_NOTUSED \<longleftrightarrow> st_state s = MM_STREAM_STATE_NOTUSED"
  using assms by (cases "st_state s"; cases evt) (simp_all add: fsm_defs stream_rests mm_stream_set_ext_mode_def Let_def)

text \<open>Events that leave the state alone, and those that move it along.\<close>

lemma fsm_same:
  assumes "(\<exists>b. evt = MM_STREAM_EVT_QBUF b) \<or> (\<exists>p. evt \<in> {MM_STREAM_EVT_SET_PARM p, MM_STREAM_EVT_GET_PARM p, MM_STREAM_EVT_DO_ACTION p}) \<or>
    evt = MM_STREAM_EVT_GET_QUEUED_BUF_COUNT"
  shows "after_evt venus a_family e evt s = st_state s"
  using assms by (cases "st_state s") (auto simp: fsm_defs stream_rests)

lemma fsm_moves:
  "st_state s \<in> configured \<Longrightarrow> after_evt venus a_family e MM_STREAM_EVT_STOP s =
     (if st_state s = MM_STREAM_STATE_ACTIVE then MM_STREAM_STATE_REG else st_state s)"
  "st_state s \<in> configured \<Longrightarrow> after_evt venus a_family e MM_STREAM_EVT_UNREG_BUF s =
     (if st_state s = MM_STREAM_STATE_REG then MM_STREAM_STATE_BUFFED else st_state s)"
  "st_state s \<in> configured \<Longrightarrow> after_evt venus a_family e MM_STREAM_EVT_PUT_BUF s =
     (if st_state s = MM_STREAM_STATE_BUFFED then MM_STREAM_STATE_CFG else st_state s)"
  by (auto simp: configured_def fsm_defs stream_rests)

lemma fsm_start_moves:
  "st_state s = MM_STREAM_STATE_CFG \<Longrightarrow> after_evt venus a_family e MM_STREAM_EVT_GET_BUF s =
     (if fst (mm_stream_fsm_fn venus a_family e MM_STREAM_EVT_GET_BUF s) = 0 then MM_STREAM_STATE_BUFFED else MM_STREAM_STATE_CFG)"
  "st_state s = MM_STREAM_STATE_BUFFED \<Longrightarrow> after_evt venus a_family e MM_STREAM_EVT_REG_BUF s =
     (if fst (mm_stream_fsm_fn venus a_family e MM_STREAM_EVT_REG_BUF s) = 0 then MM_STREAM_STATE_REG else MM_STREAM_STATE_BUFFED)"
  "st_state s = MM_STREAM_STATE_REG \<Longrightarrow> after_evt venus a_family e MM_STREAM_EVT_START s =
     (if fst (mm_stream_fsm_fn venus a_family e MM_STREAM_EVT_START s) = 0 then MM_STREAM_STATE_ACTIVE else MM_STREAM_STATE_REG)"
  by (simp_all add: fsm_defs stream_rests)

lemma fsm_acquire:
  assumes "st_state s = MM_STREAM_STATE_INITED"
  shows "after_evt venus a_family e MM_STREAM_EVT_ACQUIRE s =
    (if fst (mm_stream_fsm_fn venus a_family e MM_STREAM_EVT_ACQUIRE s) = 0 then MM_STREAM_STATE_ACQUIRED else MM_STREAM_STATE_INITED)"
  using assms by (simp add: fsm_defs mm_stream_set_ext_mode_def Let_def)

lemma fsm_config:
  "st_state s \<in> {MM_STREAM_STATE_ACQUIRED, MM_STREAM_STATE_CFG} \<Longrightarrow>
     after_evt venus a_family e (MM_STREAM_EVT_SET_FMT cfg) s = MM_STREAM_STATE_CFG"
  by (auto simp: fsm_defs)

lemma fsm_release:
  "st_state s \<in> {MM_STREAM_STATE_ACQUIRED, MM_STREAM_STATE_CFG} \<Longrightarrow>
     after_evt venus a_family e MM_STREAM_EVT_RELEASE s = MM_STREAM_STATE_NOTUSED"
  by (auto simp: fsm_defs mm_stream_release_def)

section \<open>What an operation leaves alone\<close>

text \<open>
  \<open>keeps Z A y z\<close>: from \<open>y\<close> to \<open>z\<close> no channel changes its state, every slot outside \<open>Z\<close> holds the same stream, in the
  same state unless it is in \<open>A\<close>, and a slot of \<open>Z\<close> may have been emptied.
\<close>

definition ident :: "ch_slot \<Rightarrow> (u32 \<times> nat option) option" where
  "ident sl = (if used sl then Some (st_hdl (strm sl), ch_obj sl) else None)"

abbreviation st :: "chan_sys \<Rightarrow> nat \<times> nat \<Rightarrow> mm_stream_state_type_t" where
  "st y p \<equiv> st_state (strm (slot_at p y))"

definition in_range :: "nat \<times> nat \<Rightarrow> chan_sys \<Rightarrow> bool" where
  "in_range p y \<longleftrightarrow> fst p < length (chs y) \<and> snd p < length (c_streams (chs y ! fst p))"

definition slot_keeps :: "(nat \<times> nat) set \<Rightarrow> (nat \<times> nat) set \<Rightarrow> chan_sys \<Rightarrow> chan_sys \<Rightarrow> nat \<times> nat \<Rightarrow> bool" where
  "slot_keeps Z A y z p \<longleftrightarrow> (p \<in> Z \<and> \<not> used (slot_at p z)) \<or>
     (ident (slot_at p z) = ident (slot_at p y) \<and> (p \<notin> A \<longrightarrow> st z p = st y p))"

definition keeps :: "(nat \<times> nat) set \<Rightarrow> (nat \<times> nat) set \<Rightarrow> chan_sys \<Rightarrow> chan_sys \<Rightarrow> bool" where
  "keeps Z A y z \<longleftrightarrow> length (chs z) = length (chs y) \<and>
     (\<forall>c < length (chs y). c_state (chs z ! c) = c_state (chs y ! c) \<and>
        length (c_streams (chs z ! c)) = length (c_streams (chs y ! c))) \<and>
     (\<forall>p. in_range p y \<longrightarrow> slot_keeps Z A y z p)"

lemma pairs_keptI:
  assumes "length (chs z) = length (chs y)"
    and "\<And>c. c < length (chs y) \<Longrightarrow> c_state (chs z ! c) = c_state (chs y ! c) \<and>
        length (c_streams (chs z ! c)) = length (c_streams (chs y ! c))"
    and "\<And>p. in_range p y \<Longrightarrow> slot_keeps Z A y z p"
  shows "keeps Z A y z"
  using assms unfolding keeps_def by blast

lemma pairs_keptD: "keeps Z A y z \<Longrightarrow> in_range p y \<Longrightarrow> slot_keeps Z A y z p"
  unfolding keeps_def by blast

lemma keeps_shape:
  "keeps Z A y z \<Longrightarrow> length (chs z) = length (chs y)"
  "keeps Z A y z \<Longrightarrow> c < length (chs y) \<Longrightarrow> c_state (chs z ! c) = c_state (chs y ! c)"
  "keeps Z A y z \<Longrightarrow> c < length (chs y) \<Longrightarrow> length (c_streams (chs z ! c)) = length (c_streams (chs y ! c))"
  unfolding keeps_def by blast+

lemma keeps_refl [simp]: "keeps Z A y y"
  by (rule pairs_keptI) (simp_all add: slot_keeps_def)

lemma keeps_range: "keeps Z A y z \<Longrightarrow> in_range p z \<longleftrightarrow> in_range p y"
  using keeps_shape(1,3) [of Z A y z] by (auto simp: in_range_def)

lemma ident_used: "ident a = ident b \<Longrightarrow> used a \<longleftrightarrow> used b"
  by (auto simp: ident_def split: if_splits)

lemma keeps_mono: "keeps Z A y z \<Longrightarrow> Z \<subseteq> Z' \<Longrightarrow> A \<subseteq> A' \<Longrightarrow> keeps Z' A' y z"
  unfolding keeps_def slot_keeps_def by blast

lemma keeps_trans:
  assumes a: "keeps Z A x y" and b: "keeps Z A y z"
  shows "keeps Z A x z"
proof (rule pairs_keptI)
  fix p assume p: "in_range p x"
  have "slot_keeps Z A x y p" "slot_keeps Z A y z p"
    using pairs_keptD [OF a p] pairs_keptD [OF b] p keeps_range [OF a] by simp_all
  then show "slot_keeps Z A x z p" using ident_used [of "slot_at p z" "slot_at p y"] by (auto simp: slot_keeps_def)
qed (use keeps_shape [OF a] keeps_shape [OF b] in simp_all)

text \<open>A slot that is not emptied keeps its owner and its handle; one in use stays in use.\<close>

lemma pairs_kept_slot:
  assumes "keeps Z A y z" and "in_range p y" and "p \<notin> Z"
  shows "used (slot_at p z) \<longleftrightarrow> used (slot_at p y)"
    and "used (slot_at p y) \<Longrightarrow> ch_obj (slot_at p z) = ch_obj (slot_at p y) \<and> st_hdl (strm (slot_at p z)) = st_hdl (strm (slot_at p y))"
    and "p \<notin> A \<Longrightarrow> st z p = st y p"
  using pairs_keptD [OF assms(1,2)] assms(3) by (auto simp: slot_keeps_def ident_def split: if_splits)

lemma slot_at_upd_ch:
  "fst p < length (chs y) \<Longrightarrow> slot_at p (upd_ch c f y) = (if fst p = c then c_streams (f (chs y ! c)) ! snd p else slot_at p y)"
  by (simp add: slot_at_def upd_ch_def nth_list_update)

lemma upd_ch_shape:
  "length (chs (upd_ch c f y)) = length (chs y)"
  "chs (upd_ch c f y) ! d = (if d = c \<and> c < length (chs y) then f (chs y ! c) else chs y ! d)"
  by (simp add: upd_ch_def) (cases "c < length (chs y)"; simp add: upd_ch_def nth_list_update list_update_beyond)

lemma slot_at_upd_slot:
  "in_range p y \<Longrightarrow> slot_at p (upd_slot q f y) = (if p = q then f (slot_at p y) else slot_at p y)"
  by (cases p; cases q) (auto simp: slot_at_def upd_slot_def upd_ch_shape in_range_def nth_list_update)

lemma keeps_upd_ch:
  assumes "c_state (f (chs y ! c)) = c_state (chs y ! c)" and "c_streams (f (chs y ! c)) = c_streams (chs y ! c)"
  shows "keeps {} {} y (upd_ch c f y)"
proof (rule pairs_keptI)
  fix p assume "in_range p y"
  then have "slot_at p (upd_ch c f y) = slot_at p y"
    using assms(2) by (simp add: slot_at_def upd_ch_shape in_range_def)
  then show "slot_keeps {} {} y (upd_ch c f y) p" by (simp add: slot_keeps_def)
qed (simp_all add: upd_ch_shape assms)

lemma upd_slot_shape:
  "length (chs (upd_slot q f y)) = length (chs y)"
  "c_state (chs (upd_slot q f y) ! d) = c_state (chs y ! d)"
  "length (c_streams (chs (upd_slot q f y) ! d)) = length (c_streams (chs y ! d))"
  by (simp_all add: upd_slot_def upd_ch_shape)

lemma keeps_upd_slot:
  assumes "ident (f (slot_at q y)) = ident (slot_at q y)" and "q \<notin> A \<Longrightarrow> st_state (strm (f (slot_at q y))) = st y q"
  shows "keeps {} A y (upd_slot q f y)"
  by (rule pairs_keptI) (use assms in \<open>auto simp: slot_keeps_def upd_slot_shape slot_at_upd_slot\<close>)

lemma keeps_empty_slot: "q \<in> Z \<Longrightarrow> keeps Z A y (upd_slot q (\<lambda>_. zero_slot) y)"
  by (rule pairs_keptI) (auto simp: slot_keeps_def upd_slot_shape slot_at_upd_slot used_def zero_slot_def zero_stream_def)

section \<open>Events and commands\<close>

lemma put_strm_ident:
  assumes "st_hdl s = st_hdl (strm sl)" and "st_state s = MM_STREAM_STATE_NOTUSED \<longleftrightarrow> st_state (strm sl) = MM_STREAM_STATE_NOTUSED"
  shows "ident (put_strm s sl) = ident sl"
  using assms by (auto simp: put_strm_def ident_def used_def)

lemma put_strm_strm [simp]: "strm (put_strm s sl) = s"
  by (simp add: put_strm_def)

lemma stream_evt_eq:
  "stream_evt venus a_family e p evt y =
     (fst (mm_stream_fsm_fn venus a_family (e_slot e p evt) evt (strm (slot_at p y))),
      upd_slot p (put_strm (snd (mm_stream_fsm_fn venus a_family (e_slot e p evt) evt (strm (slot_at p y))))) y)"
  by (simp add: stream_evt_def Let_def split: prod.split)

lemma stream_evt_keeps:
  assumes "evt \<noteq> MM_STREAM_EVT_RELEASE"
  shows "keeps {} {p} y (snd (stream_evt venus a_family e p evt y))"
  unfolding stream_evt_eq snd_conv
  by (rule keeps_upd_slot) (simp_all add: put_strm_ident fsm_hdl [OF assms] fsm_used [OF assms])

lemma stream_evt_st:
  "in_range p y \<Longrightarrow> st (snd (stream_evt venus a_family e p evt y)) p =
     after_evt venus a_family (e_slot e p evt) evt (strm (slot_at p y))"
  by (simp add: stream_evt_eq slot_at_upd_slot)

lemma stream_evt_quiet:
  assumes "after_evt venus a_family (e_slot e p evt) evt (strm (slot_at p y)) = st y p" and "evt \<noteq> MM_STREAM_EVT_RELEASE"
  shows "keeps {} {} y (snd (stream_evt venus a_family e p evt y))"
  unfolding stream_evt_eq snd_conv
  by (rule keeps_upd_slot) (simp_all add: put_strm_ident fsm_hdl [OF assms(2)] fsm_used [OF assms(2)] assms(1))

lemma channel_qbuf_keeps: "keeps {} {} y (snd (channel_qbuf venus a_family e c b y))"
  by (auto simp: channel_qbuf_def intro!: stream_evt_quiet fsm_same split: option.split)

lemma qbufs_keep: "keeps {} {} y (fold (\<lambda>b z. snd (channel_qbuf venus a_family e c b z)) bs y)"
  by (induction bs arbitrary: y) (auto intro: keeps_trans [OF channel_qbuf_keeps])

lemma run_cmd_keeps: "run_cmd venus a_family e c cmd y = Some z \<Longrightarrow> keeps {} {} y z"
  unfolding run_cmd_def Let_def
  by (auto intro: keeps_trans [OF keeps_upd_ch qbufs_keep])

lemma run_cmds_keep: "run_cmds venus a_family e c cmds y = Some z \<Longrightarrow> keeps {} {} y z"
  by (induction cmds arbitrary: y) (auto intro: keeps_trans run_cmd_keeps split: option.splits)

lemma flush_keeps: "mm_channel_flush_super_buf_queue venus a_family e c f t y = Some (rc, z) \<Longrightarrow> keeps {} {} y z"
  by (auto simp: mm_channel_flush_super_buf_queue_def split: if_splits
      dest!: run_cmds_keep elim!: keeps_trans [OF keeps_upd_ch, rotated 2])

lemma post_cmd_keeps: "post_cmd e c cmd y = Some (rc, z) \<Longrightarrow> keeps {} {} y z"
  by (auto simp: post_cmd_def split: if_splits intro: keeps_upd_ch)

lemma release_ch_thread_keeps:
  assumes "release_ch_thread venus a_family e c y = Some z"
  shows "keeps {} {} y z"
proof -
  have "keeps {} {} y (upd_ch c (\<lambda>ch. ch\<lparr>c_thread := False\<rparr>) w)"
    if "run_cmds venus a_family e c (c_cmds (chs y ! c)) (upd_ch c (\<lambda>ch. ch\<lparr>c_cmds := []\<rparr>) y) = Some w" for w
    using keeps_trans [OF keeps_trans [OF keeps_upd_ch run_cmds_keep [OF that]] keeps_upd_ch] by simp
  then show ?thesis using assms by (auto simp: release_ch_thread_def split: if_splits)
qed

lemma link_keeps: "keeps {} {} y (link_back c p y)" "keeps {} {} y (unlink p y)"
  by (auto simp: link_back_def unlink_def ident_def used_def intro!: keeps_upd_slot split: option.split)

lemma drop_linked_keeps:
  assumes "drop_linked_stream venus a_family e c i t y = Some z" and "(c, i) \<in> Z"
  shows "keeps Z A y z"
proof -
  have k: "keeps Z A y (upd_slot (c, i) (\<lambda>_. zero_slot) w)" if "keeps {} {} (unlink (c, i) y) w" for w
    by (rule keeps_trans [OF keeps_mono [OF link_keeps(2)] keeps_trans [OF keeps_mono [OF that] keeps_empty_slot [OF assms(2)]]]) auto
  show ?thesis using assms(1) k [OF keeps_refl]
    by (auto simp: drop_linked_stream_def Let_def split: if_splits intro!: k dest!: flush_keeps)
qed

section \<open>Starting the streams of a channel\<close>

lemma start_stream_keeps: "keeps {} {p} y (snd (start_stream venus a_family e p y))"
proof -
  let ?evt = "\<lambda>evt y. stream_evt venus a_family e p evt y"
  have k: "evt \<noteq> MM_STREAM_EVT_RELEASE \<Longrightarrow> keeps {} {p} w w' \<Longrightarrow> keeps {} {p} w (snd (?evt evt w'))" for evt w w'
    by (rule keeps_trans [OF _ stream_evt_keeps])
  show ?thesis
    by (auto simp: start_stream_def Let_def split: prod.split) (metis (no_types) k keeps_refl mm_stream_evt_type_t.distinct snd_conv)+
qed

lemma start_stream_st:
  assumes p: "in_range p y" and cfg: "st y p \<in> {MM_STREAM_STATE_CFG, MM_STREAM_STATE_ACTIVE}"
    and s: "start_stream venus a_family e p y = (rc, z)"
  shows "st z p \<in> configured \<and> (rc = 0 \<longrightarrow> st z p = MM_STREAM_STATE_ACTIVE)"
proof (cases "st y p = MM_STREAM_STATE_ACTIVE")
  case True
  then show ?thesis using s by (auto simp: start_stream_def configured_def)
next
  case False
  then have c0: "st y p = MM_STREAM_STATE_CFG" using cfg by simp
  let ?evt = "\<lambda>evt y. stream_evt venus a_family e p evt y"
  obtain rc1 y1 where e1: "?evt MM_STREAM_EVT_GET_BUF y = (rc1, y1)" by (rule prod.exhaust)
  obtain rc2 y2 where e2: "?evt MM_STREAM_EVT_REG_BUF y1 = (rc2, y2)" by (rule prod.exhaust)
  obtain rc3 y3 where e3: "?evt MM_STREAM_EVT_START y2 = (rc3, y3)" by (rule prod.exhaust)
  have r: "in_range p y1" "in_range p y2"
    using keeps_range [OF stream_evt_keeps [of MM_STREAM_EVT_GET_BUF p y venus a_family e]]
      keeps_range [OF stream_evt_keeps [of MM_STREAM_EVT_REG_BUF p y1 venus a_family e]] p e1 e2 by simp_all
  have c1: "st y1 p = (if rc1 = 0 then MM_STREAM_STATE_BUFFED else MM_STREAM_STATE_CFG)"
    using stream_evt_st [OF p, of venus a_family e MM_STREAM_EVT_GET_BUF] fsm_start_moves(1) [OF c0] e1 by (simp add: stream_evt_eq)
  have c2: "st y2 p = (if rc2 = 0 then MM_STREAM_STATE_REG else MM_STREAM_STATE_BUFFED)" if "rc1 = 0"
    using stream_evt_st [OF r(1), of venus a_family e MM_STREAM_EVT_REG_BUF] fsm_start_moves(2) [of "strm (slot_at p y1)"] c1 e2 that
    by (simp add: stream_evt_eq)
  have c3: "st y3 p = (if rc3 = 0 then MM_STREAM_STATE_ACTIVE else MM_STREAM_STATE_REG)" if "rc1 = 0" "rc2 = 0"
    using stream_evt_st [OF r(2), of venus a_family e MM_STREAM_EVT_START] fsm_start_moves(3) [of "strm (slot_at p y2)"] c2 e3 that
    by (simp add: stream_evt_eq)
  show ?thesis using s c0 c1 c2 c3 e1 e2 e3 by (auto simp: start_stream_def configured_def Let_def split: if_splits)
qed

text \<open>A slot in use whose stream belongs to the channel it is in.\<close>

definition mine :: "chan_sys \<Rightarrow> nat \<times> nat \<Rightarrow> bool" where
  "mine y p \<longleftrightarrow> used (slot_at p y) \<and> own (fst p) (slot_at p y)"

lemma keeps_mine: "keeps Z A y z \<Longrightarrow> in_range p y \<Longrightarrow> p \<notin> Z \<Longrightarrow> mine z p \<longleftrightarrow> mine y p"
  using pairs_kept_slot(1,2) [of Z A y z p] by (auto simp: mine_def own_def)

lemma start_loop_result:
  assumes "\<And>i. i \<in> set is \<Longrightarrow> in_range (c, i) y \<and> used (slot_at (c, i) y)"
    and "\<And>i. i \<in> set is \<Longrightarrow> mine y (c, i) \<Longrightarrow> st y (c, i) \<in> {MM_STREAM_STATE_CFG, MM_STREAM_STATE_ACTIVE}"
    and "start_loop venus a_family e c is y = (rc, js, z)"
  shows "keeps {} ({c} \<times> set js) y z \<and> set js \<subseteq> set is \<and> (rc = 0 \<longrightarrow> js = is) \<and> (rc \<noteq> 0 \<longrightarrow> js \<noteq> []) \<and>
    (\<forall>i \<in> set js. mine y (c, i) \<longrightarrow> st z (c, i) \<in> configured \<and> (rc = 0 \<longrightarrow> st z (c, i) = MM_STREAM_STATE_ACTIVE))"
  using assms
proof (induction "is" arbitrary: y rc js z)
  case (Cons i "is")
  have i: "in_range (c, i) y" "used (slot_at (c, i) y)" using Cons.prems(1) [of i] by simp_all
  define r where "r = (if own c (slot_at (c, i) y) then start_stream venus a_family e (c, i) y else (0, link_back c (c, i) y))"
  obtain rc1 y1 where r1: "r = (rc1, y1)" by (rule prod.exhaust)
  have k1: "keeps {} {(c, i)} y y1"
    using r1 start_stream_keeps [of "(c, i)" y venus a_family e] keeps_mono [OF link_keeps(1) [of y c "(c, i)"], of "{}" "{(c, i)}"]
    by (auto simp: r_def split: if_splits)
  have m1: "mine y1 p \<longleftrightarrow> mine y p" if "in_range p y" for p using keeps_mine [OF k1 that] by simp
  have st1: "st y1 (c, i) \<in> configured \<and> (rc1 = 0 \<longrightarrow> st y1 (c, i) = MM_STREAM_STATE_ACTIVE)" if "mine y (c, i)"
    using that r1 start_stream_st [OF i(1) Cons.prems(2) [of i], of venus a_family e rc1 y1] by (simp add: r_def mine_def)
  show ?case
  proof (cases "rc1 = 0")
    case False
    then have "rc = rc1" "js = [i]" "z = y1" using Cons.prems(3) r1 by (auto simp: r_def [symmetric])
    then show ?thesis using k1 st1 False by simp
  next
    case True
    obtain rc2 ks y2 where l: "start_loop venus a_family e c is y1 = (rc2, ks, y2)" by (rule prod_cases3)
    then have res: "rc = rc2" "js = i # ks" "z = y2" using Cons.prems(3) r1 True by (auto simp: r_def [symmetric])
    have "in_range (c, j) y1 \<and> used (slot_at (c, j) y1)" if "j \<in> set is" for j
      using Cons.prems(1) [of j] that keeps_range [OF k1] pairs_kept_slot(1) [OF k1] by simp
    moreover have "st y1 (c, j) \<in> {MM_STREAM_STATE_CFG, MM_STREAM_STATE_ACTIVE}" if "j \<in> set is" "mine y1 (c, j)" for j
      using Cons.prems(1,2) [of j] that m1 [of "(c, j)"] pairs_kept_slot(3) [OF k1, of "(c, j)"] st1 True by (cases "j = i") auto
    ultimately have ih: "keeps {} ({c} \<times> set ks) y1 y2" "set ks \<subseteq> set is" "rc2 = 0 \<longrightarrow> ks = is"
        "\<forall>j \<in> set ks. mine y1 (c, j) \<longrightarrow> st y2 (c, j) \<in> configured \<and> (rc2 = 0 \<longrightarrow> st y2 (c, j) = MM_STREAM_STATE_ACTIVE)"
      using Cons.IH [OF _ _ l] by blast+
    have "keeps {} ({c} \<times> set js) y z"
      using keeps_trans [OF keeps_mono [OF k1] keeps_mono [OF ih(1)], of "{}" "{c} \<times> set js"] res by auto
    moreover have "st z (c, i) \<in> configured \<and> (rc = 0 \<longrightarrow> st z (c, i) = MM_STREAM_STATE_ACTIVE)" if "mine y (c, i)"
    proof (cases "i \<in> set ks")
      case True
      then show ?thesis using ih(4) m1 [OF i(1)] that res by simp
    next
      case False
      then have "st y2 (c, i) = st y1 (c, i)" using pairs_kept_slot(3) [OF ih(1)] keeps_range [OF k1] i(1) by simp
      then show ?thesis using st1 that True res by (simp add: configured_def)
    qed
    moreover have "\<forall>j \<in> set ks. mine y (c, j) \<longrightarrow> st z (c, j) \<in> configured \<and> (rc = 0 \<longrightarrow> st z (c, j) = MM_STREAM_STATE_ACTIVE)"
      using ih(2,4) m1 Cons.prems(1) res by auto
    ultimately show ?thesis using ih(2,3) res by auto
  qed
qed simp

section \<open>Stopping them\<close>

lemma evt_in_range: "evt \<noteq> MM_STREAM_EVT_RELEASE \<Longrightarrow> in_range p y \<Longrightarrow> in_range p (snd (stream_evt venus a_family e p evt y))"
  using keeps_range [OF stream_evt_keeps] by blast

lemma stop_stream_result:
  shows "keeps {} {p} y (stop_stream venus a_family e p y)"
    and "in_range p y \<Longrightarrow> st y p \<in> configured \<Longrightarrow>
      st (stop_stream venus a_family e p y) p \<in> {MM_STREAM_STATE_CFG, MM_STREAM_STATE_BUFFED}"
proof -
  let ?y1 = "snd (stream_evt venus a_family e p MM_STREAM_EVT_STOP y)"
  have "keeps {} {p} y ?y1" "keeps {} {p} ?y1 (stop_stream venus a_family e p y)"
    unfolding stop_stream_def by (rule stream_evt_keeps; simp)+
  then show "keeps {} {p} y (stop_stream venus a_family e p y)" by (rule keeps_trans)
  assume p: "in_range p y" and cfg: "st y p \<in> configured"
  have "st ?y1 p \<in> configured \<and> st ?y1 p \<noteq> MM_STREAM_STATE_ACTIVE"
    using cfg stream_evt_st [OF p, of venus a_family e MM_STREAM_EVT_STOP] fsm_moves(1) [of "strm (slot_at p y)"]
    by (auto simp: configured_def)
  then show "st (stop_stream venus a_family e p y) p \<in> {MM_STREAM_STATE_CFG, MM_STREAM_STATE_BUFFED}"
    using stream_evt_st [OF evt_in_range [OF _ p], of MM_STREAM_EVT_STOP venus a_family e MM_STREAM_EVT_UNREG_BUF]
      fsm_moves(2) [of "strm (slot_at p ?y1)"]
    by (auto simp: stop_stream_def configured_def)
qed

lemma put_stream_buf_result:
  shows "keeps {} {p} y (put_stream_buf venus a_family e p y)"
    and "in_range p y \<Longrightarrow> st y p \<in> {MM_STREAM_STATE_CFG, MM_STREAM_STATE_BUFFED} \<Longrightarrow>
      st (put_stream_buf venus a_family e p y) p = MM_STREAM_STATE_CFG"
proof -
  show "keeps {} {p} y (put_stream_buf venus a_family e p y)"
    unfolding put_stream_buf_def by (rule stream_evt_keeps) simp
  assume p: "in_range p y" and cfg: "st y p \<in> {MM_STREAM_STATE_CFG, MM_STREAM_STATE_BUFFED}"
  then show "st (put_stream_buf venus a_family e p y) p = MM_STREAM_STATE_CFG"
    using stream_evt_st [OF p, of venus a_family e MM_STREAM_EVT_PUT_BUF] fsm_moves(3) [of "strm (slot_at p y)"]
    by (auto simp: put_stream_buf_def configured_def)
qed

text \<open>
  One round of a loop over the slots of a channel: it keeps everything but its slot, which ends in \<open>T\<close> when it was in
  \<open>S\<close>; a slot that is not the channel's own may be emptied.
\<close>

lemma loop_round:
  assumes "keeps Z {(c, i)} y y1" and "keeps Z ({c} \<times> set is) y1 z"
    and "\<And>j. j \<in> set is \<Longrightarrow> (c, j) \<notin> Z \<Longrightarrow> st z (c, j) \<in> T"
    and "(c, i) \<notin> Z \<Longrightarrow> in_range (c, i) y \<and> st y1 (c, i) \<in> T"
  shows "keeps Z ({c} \<times> set (i # is)) y z \<and> (\<forall>j \<in> set (i # is). (c, j) \<notin> Z \<longrightarrow> st z (c, j) \<in> T)"
proof -
  have "keeps Z ({c} \<times> set (i # is)) y z"
    using keeps_trans [OF keeps_mono [OF assms(1)] keeps_mono [OF assms(2)], of Z "{c} \<times> set (i # is)"] by auto
  moreover have "st z (c, i) \<in> T" if "(c, i) \<notin> Z" "i \<notin> set is"
    using assms(4) that pairs_kept_slot(3) [OF assms(2), of "(c, i)"] keeps_range [OF assms(1)] by simp
  ultimately show ?thesis using assms(3) by auto
qed

lemma rollback_result:
  assumes "\<And>i. i \<in> set is \<Longrightarrow> (c, i) \<notin> Z \<Longrightarrow> in_range (c, i) y \<and> mine y (c, i) \<and> st y (c, i) \<in> configured"
    and "rollback_loop venus a_family e c t is y = Some z"
  shows "keeps Z ({c} \<times> set is) y z \<and> (\<forall>i \<in> set is. (c, i) \<notin> Z \<longrightarrow> st z (c, i) \<in> {MM_STREAM_STATE_CFG})"
  using assms
proof (induction "is" arbitrary: y)
  case (Cons i "is")
  let ?w = "stop_stream venus a_family e (c, i) y"
  define y1 where "y1 = (if own c (slot_at (c, i) y) then Some (put_stream_buf venus a_family e (c, i) ?w)
    else drop_linked_stream venus a_family e c i t y)"
  obtain y2 where y2: "y1 = Some y2" "rollback_loop venus a_family e c t is y2 = Some z"
    using Cons.prems(2) by (auto simp: y1_def split: if_splits option.splits)
  have own: "own c (slot_at (c, i) y)" if "(c, i) \<notin> Z" using Cons.prems(1) [of i] that by (simp add: mine_def)
  have "keeps {} {(c, i)} y (put_stream_buf venus a_family e (c, i) ?w)"
    by (rule keeps_trans [OF stop_stream_result(1) put_stream_buf_result(1)])
  then have k: "keeps Z {(c, i)} y y2"
    using y2(1) own drop_linked_keeps [of venus a_family e c i t y y2 Z "{(c, i)}"] keeps_mono [of "{}" "{(c, i)}" y y2 Z "{(c, i)}"]
    by (auto simp: y1_def split: if_splits)
  have s: "st y2 (c, i) = MM_STREAM_STATE_CFG" if "(c, i) \<notin> Z"
    using y2(1) own [OF that] Cons.prems(1) [of i] that stop_stream_result(2) [of "(c, i)" y venus a_family e]
      put_stream_buf_result(2) [of "(c, i)" ?w venus a_family e] keeps_range [OF stop_stream_result(1) [of "(c, i)" y venus a_family e]]
    by (simp add: y1_def)
  have "in_range (c, j) y2 \<and> mine y2 (c, j) \<and> st y2 (c, j) \<in> configured" if "j \<in> set is" "(c, j) \<notin> Z" for j
    using Cons.prems(1) [of j] that keeps_range [OF k] keeps_mine [OF k] pairs_kept_slot(3) [OF k, of "(c, j)"] s
    by (cases "j = i") (auto simp: configured_def)
  then have ih: "keeps Z ({c} \<times> set is) y2 z \<and> (\<forall>i \<in> set is. (c, i) \<notin> Z \<longrightarrow> st z (c, i) \<in> {MM_STREAM_STATE_CFG})"
    by (rule Cons.IH) (use y2(2) in simp_all)
  show ?case by (rule loop_round [OF k]) (use ih Cons.prems(1) [of i] s in auto)
qed simp

lemma stop_loop_result:
  assumes "\<And>i. i \<in> set is \<Longrightarrow> (c, i) \<notin> Z \<Longrightarrow> in_range (c, i) y \<and> mine y (c, i) \<and> st y (c, i) \<in> configured"
    and "stop_loop venus a_family e c is y = Some z"
  shows "keeps Z ({c} \<times> set is) y z \<and>
    (\<forall>i \<in> set is. (c, i) \<notin> Z \<longrightarrow> st z (c, i) \<in> {MM_STREAM_STATE_CFG, MM_STREAM_STATE_BUFFED})"
  using assms
proof (induction "is" arbitrary: y)
  case (Cons i "is")
  let ?t = "si_type (stream_info (strm (slot_at (c, i) y)))"
  define y1 where "y1 = (if own c (slot_at (c, i) y) then Some (stop_stream venus a_family e (c, i) y)
    else drop_linked_stream venus a_family e c i ?t y)"
  obtain y2 where y2: "y1 = Some y2" "stop_loop venus a_family e c is y2 = Some z"
    using Cons.prems(2) by (auto simp: y1_def split: if_splits option.splits)
  have own: "own c (slot_at (c, i) y)" if "(c, i) \<notin> Z" using Cons.prems(1) [of i] that by (simp add: mine_def)
  have k: "keeps Z {(c, i)} y y2"
    using y2(1) own drop_linked_keeps [of venus a_family e c i ?t y y2 Z "{(c, i)}"] stop_stream_result(1) [of "(c, i)" y venus a_family e]
      keeps_mono [of "{}" "{(c, i)}" y y2 Z "{(c, i)}"]
    by (auto simp: y1_def split: if_splits)
  have s: "st y2 (c, i) \<in> {MM_STREAM_STATE_CFG, MM_STREAM_STATE_BUFFED}" if "(c, i) \<notin> Z"
    using y2(1) own [OF that] Cons.prems(1) [of i] that stop_stream_result(2) [of "(c, i)" y venus a_family e] by (simp add: y1_def)
  have "in_range (c, j) y2 \<and> mine y2 (c, j) \<and> st y2 (c, j) \<in> configured" if "j \<in> set is" "(c, j) \<notin> Z" for j
    using Cons.prems(1) [of j] that keeps_range [OF k] keeps_mine [OF k] pairs_kept_slot(3) [OF k, of "(c, j)"] s
    by (cases "j = i") (auto simp: configured_def)
  then have ih: "keeps Z ({c} \<times> set is) y2 z \<and>
      (\<forall>i \<in> set is. (c, i) \<notin> Z \<longrightarrow> st z (c, i) \<in> {MM_STREAM_STATE_CFG, MM_STREAM_STATE_BUFFED})"
    by (rule Cons.IH) (use y2(2) in simp_all)
  show ?case by (rule loop_round [OF k]) (use ih Cons.prems(1) [of i] s in auto)
qed simp

lemma put_loop_result:
  assumes "\<And>i. i \<in> set is \<Longrightarrow> (c, i) \<notin> Z \<Longrightarrow>
      in_range (c, i) y \<and> mine y (c, i) \<and> st y (c, i) \<in> {MM_STREAM_STATE_CFG, MM_STREAM_STATE_BUFFED}"
  shows "keeps Z ({c} \<times> set is) y
      (fold (\<lambda>i z. if own c (slot_at (c, i) z) then put_stream_buf venus a_family e (c, i) z else z) is y) \<and>
    (\<forall>i \<in> set is. (c, i) \<notin> Z \<longrightarrow>
      st (fold (\<lambda>i z. if own c (slot_at (c, i) z) then put_stream_buf venus a_family e (c, i) z else z) is y) (c, i) \<in> {MM_STREAM_STATE_CFG})"
  using assms
proof (induction "is" arbitrary: y)
  case (Cons i "is")
  define y2 where "y2 = (if own c (slot_at (c, i) y) then put_stream_buf venus a_family e (c, i) y else y)"
  have own: "own c (slot_at (c, i) y)" if "(c, i) \<notin> Z" using Cons.prems [of i] that by (simp add: mine_def)
  have k: "keeps Z {(c, i)} y y2"
    using put_stream_buf_result(1) [of "(c, i)" y venus a_family e] keeps_mono [of "{}" "{(c, i)}" y y2 Z "{(c, i)}"]
    by (auto simp: y2_def)
  have s: "st y2 (c, i) = MM_STREAM_STATE_CFG" if "(c, i) \<notin> Z"
    using own [OF that] Cons.prems [of i] that put_stream_buf_result(2) [of "(c, i)" y venus a_family e] by (simp add: y2_def)
  have "in_range (c, j) y2 \<and> mine y2 (c, j) \<and> st y2 (c, j) \<in> {MM_STREAM_STATE_CFG, MM_STREAM_STATE_BUFFED}"
    if "j \<in> set is" "(c, j) \<notin> Z" for j
    using Cons.prems [of j] that keeps_range [OF k] keeps_mine [OF k] pairs_kept_slot(3) [OF k, of "(c, j)"] s
    by (cases "j = i") auto
  note ih = Cons.IH [OF this]
  show ?case unfolding fold_Cons comp_def y2_def [symmetric]
    by (rule loop_round [OF k]) (use ih Cons.prems [of i] s in auto)
qed simp

section \<open>A start is all or nothing\<close>

lemma set_bundle_up_keeps: "keeps {} {} y (set_bundle_up c objs y)"
proof (rule pairs_keptI)
  fix p assume "in_range p y"
  then show "slot_keeps {} {} y (set_bundle_up c objs y) p"
    by (cases p) (auto simp: slot_keeps_def set_bundle_up_def slot_at_def upd_ch_shape in_range_def Let_def ident_def used_def
        cong: if_cong split: if_splits)
qed (auto simp: set_bundle_up_def upd_ch_shape)

text \<open>A stream that is found by its own handle; a second one with the same handle is hidden.\<close>

definition found :: "ch_slot list \<Rightarrow> nat \<Rightarrow> bool" where
  "found sls i \<longleftrightarrow> find_slot (st_hdl (strm (sls ! i))) sls = Some i"

lemma find_slot_SomeD: "find_slot h sls = Some j \<Longrightarrow> j < length sls \<and> used (sls ! j) \<and> st_hdl (strm (sls ! j)) = h"
  by (auto simp: find_slot_def find_Some_iff)

lemma set_channel_streams: "j \<in> set (channel_streams sls) \<longleftrightarrow> found sls j \<and> 0 < st_hdl (strm (sls ! j))"
proof
  assume "j \<in> set (channel_streams sls)"
  then obtain sl where "sl \<in> set sls" "0 < st_hdl (strm sl)" "find_slot (st_hdl (strm sl)) sls = Some j"
    by (auto simp: channel_streams_def streams_by_handle_def)
  then show "found sls j \<and> 0 < st_hdl (strm (sls ! j))"
    using find_slot_SomeD [of "st_hdl (strm sl)" sls j] by (simp add: found_def)
next
  assume j: "found sls j \<and> 0 < st_hdl (strm (sls ! j))"
  then have "sls ! j \<in> set sls" by (auto simp: found_def dest: find_slot_SomeD)
  then have "Some j \<in> set (filter (\<lambda>x. x \<noteq> None) (streams_by_handle sls))"
    using j by (force simp: streams_by_handle_def found_def)
  then show "j \<in> set (channel_streams sls)" unfolding channel_streams_def by force
qed

lemma set_exchange: "i < length xs \<Longrightarrow> j < length xs \<Longrightarrow> set (exchange i j xs) = set xs"
  unfolding exchange_def using set_swap [of i xs j] by simp

lemma last_filter_upt: "last (0 # filter P [0..<n]) < max 1 n"
proof -
  have "last (0 # filter P [0..<n]) \<in> set (0 # filter P [0..<n])" by (rule last_in_set) simp
  then show ?thesis by (auto simp del: last.simps)
qed

lemma meta_idx: "meta_stream_idx c sls objs < max 1 (length objs)"
  unfolding meta_stream_idx_def by (rule last_filter_upt)

lemma start_objs: "set (if 0 < meta_stream_idx c sls objs then exchange 0 (meta_stream_idx c sls objs) objs else objs) = set objs"
  using set_exchange [of 0 objs "meta_stream_idx c sls objs"] meta_idx [of c sls objs] by (cases "objs = []") (auto simp: max_def split: if_splits)

lemma stop_objs:
  "set (if meta_stream_idx c sls objs + 1 < length objs then exchange (length objs - 1) (meta_stream_idx c sls objs) objs else objs) = set objs"
  using set_exchange [of "length objs - 1" objs "meta_stream_idx c sls objs"] by auto

text \<open>The slots of a channel that hold no stream of its own; a stop or a roll-back may empty them.\<close>

definition others :: "nat \<Rightarrow> chan_sys \<Rightarrow> (nat \<times> nat) set" where
  "others c y = {p. fst p = c \<and> \<not> mine y p}"

lemma not_others: "(c, i) \<notin> others c y \<longleftrightarrow> mine y (c, i)"
  by (simp add: others_def)

lemma channel_start_result:
  assumes c: "c < length (chs y)"
    and fresh: "\<And>i. in_range (c, i) y \<Longrightarrow> mine y (c, i) \<Longrightarrow> st y (c, i) \<in> {MM_STREAM_STATE_ACQUIRED, MM_STREAM_STATE_CFG}"
    and start: "mm_channel_start venus a_family e c y = Some (rc, z)"
  defines "objs \<equiv> channel_streams (c_streams (chs y ! c))"
  shows "keeps (if rc = 0 then {} else others c y) ({c} \<times> set objs) y z \<and>
    (\<forall>i \<in> set objs. mine y (c, i) \<longrightarrow> st z (c, i) = (if rc = 0 then MM_STREAM_STATE_ACTIVE else MM_STREAM_STATE_CFG))"
proof -
  define ks where "ks = (if 0 < meta_stream_idx c (c_streams (chs y ! c)) objs
    then exchange 0 (meta_stream_idx c (c_streams (chs y ! c)) objs) objs else objs)"
  have set_ks: "set ks = set objs" unfolding ks_def by (rule start_objs)
  define w where "w = set_bundle_up c ks y"
  obtain rc1 js y1 where l: "start_loop venus a_family e c ks w = (rc1, js, y1)" by (rule prod_cases3)
  have info: "\<And>i. i \<in> set ks \<Longrightarrow> has_info (c_streams (chs y ! c) ! i)"
    using start unfolding mm_channel_start_def Let_def objs_def [symmetric] ks_def [symmetric]
    by (auto simp: list_ex_iff split: if_splits)
  have in_objs: "in_range (c, i) y \<and> used (slot_at (c, i) y)" if "i \<in> set ks" for i
    using that set_ks c set_channel_streams [of i "c_streams (chs y ! c)"]
    by (auto simp: objs_def found_def in_range_def slot_at_def dest: find_slot_SomeD)
  have kw: "keeps {} {} y w" unfolding w_def by (rule set_bundle_up_keeps)
  have cfg: "st w (c, i) = MM_STREAM_STATE_CFG" if "i \<in> set ks" "mine y (c, i)" for i
    using info [OF that(1)] in_objs [OF that(1)] fresh [of i] that(2) pairs_kept_slot(3) [OF kw, of "(c, i)"]
    by (auto simp: has_info_def slot_at_def)
  have iw: "in_range (c, i) w \<and> used (slot_at (c, i) w)" "mine w (c, i) \<longleftrightarrow> mine y (c, i)" if "i \<in> set ks" for i
    using in_objs [OF that] keeps_range [OF kw] pairs_kept_slot(1) [OF kw] keeps_mine [OF kw] by simp_all
  have loop: "keeps {} ({c} \<times> set js) w y1" "set js \<subseteq> set ks" "rc1 = 0 \<longrightarrow> js = ks"
      "\<forall>i \<in> set js. mine w (c, i) \<longrightarrow> st y1 (c, i) \<in> configured \<and> (rc1 = 0 \<longrightarrow> st y1 (c, i) = MM_STREAM_STATE_ACTIVE)"
    using start_loop_result [OF _ _ l] iw cfg by (simp_all add: l) blast+
  have k1: "keeps {} ({c} \<times> set objs) y y1"
    using keeps_trans [OF keeps_mono [OF kw] keeps_mono [OF loop(1)], of "{}" "{c} \<times> set objs"] loop(2) set_ks by auto
  show ?thesis
  proof (cases "rc1 = 0")
    case True
    then have "rc = 0" "z = y1"
      using start unfolding mm_channel_start_def Let_def objs_def [symmetric] ks_def [symmetric] w_def [symmetric]
      by (auto simp: l split: if_splits)
    then show ?thesis using k1 loop(3,4) True iw(2) set_ks by auto
  next
    case False
    let ?Z = "others c y"
    obtain t y2 where r: "rollback_loop venus a_family e c t js y1 = Some y2" "rc = rc1"
        "z = y2 \<or> (\<exists>w. release_ch_thread venus a_family e c y2 = Some w \<and> z = upd_ch c zero_bundle w)"
      using start False unfolding mm_channel_start_def Let_def objs_def [symmetric] ks_def [symmetric] w_def [symmetric]
      by (auto simp: l split: if_splits option.splits)
    have "in_range (c, i) y1 \<and> mine y1 (c, i) \<and> st y1 (c, i) \<in> configured" if "i \<in> set js" "(c, i) \<notin> ?Z" for i
      using that loop(2,4) iw in_objs keeps_range [OF k1] keeps_mine [OF k1] by (auto simp: not_others)
    then have rb: "keeps ?Z ({c} \<times> set js) y1 y2" "\<forall>i \<in> set js. (c, i) \<notin> ?Z \<longrightarrow> st y2 (c, i) = MM_STREAM_STATE_CFG"
      using rollback_result [OF _ r(1), of ?Z] by auto
    have "keeps {} {} w (upd_ch c zero_bundle w)" for w by (rule keeps_upd_ch) (simp_all add: zero_bundle_def)
    then have kz: "keeps {} {} y2 z" using r(3) keeps_trans [OF release_ch_thread_keeps] by auto
    have k2: "keeps ?Z ({c} \<times> set objs) y y2"
      using keeps_trans [OF keeps_mono [OF k1] keeps_mono [OF rb(1)], of ?Z "{c} \<times> set objs"] loop(2) set_ks by auto
    have "st z (c, i) = MM_STREAM_STATE_CFG" if i: "i \<in> set objs" "mine y (c, i)" for i
    proof -
      have n: "(c, i) \<notin> ?Z" "in_range (c, i) y" using i in_objs set_ks by (simp_all add: not_others)
      have "st y2 (c, i) = MM_STREAM_STATE_CFG"
      proof (cases "i \<in> set js")
        case False
        then have "st y2 (c, i) = st w (c, i)"
          using pairs_kept_slot(3) [OF rb(1), of "(c, i)"] pairs_kept_slot(3) [OF loop(1), of "(c, i)"] n
            keeps_range [OF kw] keeps_range [OF k1] by simp
        then show ?thesis using cfg i set_ks by simp
      qed (use rb(2) n in simp)
      then show ?thesis using pairs_kept_slot(3) [OF kz, of "(c, i)"] keeps_range [OF k2] n by simp
    qed
    moreover have "keeps ?Z ({c} \<times> set objs) y z"
      using keeps_trans [OF k2 keeps_mono [OF kz]] by simp
    ultimately show ?thesis using False r(2) by simp
  qed
qed

lemma channel_stop_result:
  assumes c: "c < length (chs y)"
    and run: "\<And>i. i \<in> set (channel_streams (c_streams (chs y ! c))) \<Longrightarrow> mine y (c, i) \<Longrightarrow> st y (c, i) \<in> configured"
    and stop: "mm_channel_stop venus a_family e c y = Some (rc, z)"
  defines "objs \<equiv> channel_streams (c_streams (chs y ! c))"
  shows "keeps (others c y) ({c} \<times> set objs) y z \<and> (\<forall>i \<in> set objs. mine y (c, i) \<longrightarrow> st z (c, i) = MM_STREAM_STATE_CFG)"
proof -
  let ?m = "meta_stream_idx c (c_streams (chs y ! c)) objs"
  define ks where "ks = (if ?m + 1 < length objs then exchange (length objs - 1) ?m objs else objs)"
  let ?put = "fold (\<lambda>i z. if own c (slot_at (c, i) z) then put_stream_buf venus a_family e (c, i) z else z) ks"
  let ?Z = "others c y"
  have set_ks: "set ks = set objs" unfolding ks_def by (rule stop_objs)
  have in_objs: "in_range (c, i) y" if "i \<in> set ks" for i
    using that set_ks c set_channel_streams [of i "c_streams (chs y ! c)"]
    by (auto simp: objs_def found_def in_range_def dest: find_slot_SomeD)
  obtain y1 y2 where s: "stop_loop venus a_family e c ks y = Some y1" "z = ?put y2"
      "y2 = y1 \<or> (\<exists>w. release_ch_thread venus a_family e c y1 = Some w \<and> y2 = queue_deinit c w)"
    using stop unfolding mm_channel_stop_def Let_def objs_def [symmetric] ks_def [symmetric]
    by (auto split: if_splits option.splits)
  have l: "keeps ?Z ({c} \<times> set ks) y y1"
      "\<forall>i \<in> set ks. (c, i) \<notin> ?Z \<longrightarrow> st y1 (c, i) \<in> {MM_STREAM_STATE_CFG, MM_STREAM_STATE_BUFFED}"
    using stop_loop_result [OF _ s(1), of ?Z] in_objs run set_ks by (auto simp: not_others objs_def)
  have "keeps {} {} w (queue_deinit c w)" for w unfolding queue_deinit_def by (rule keeps_upd_ch) simp_all
  then have k: "keeps {} {} y1 y2" using s(3) keeps_trans [OF release_ch_thread_keeps] by auto
  have k2: "keeps ?Z ({c} \<times> set ks) y y2" using keeps_trans [OF l(1) keeps_mono [OF k]] by simp
  have "in_range (c, i) y2 \<and> mine y2 (c, i) \<and> st y2 (c, i) \<in> {MM_STREAM_STATE_CFG, MM_STREAM_STATE_BUFFED}"
    if "i \<in> set ks" "(c, i) \<notin> ?Z" for i
    using that l in_objs keeps_range [OF k2] keeps_range [OF l(1)] keeps_mine [OF k2] pairs_kept_slot(3) [OF k, of "(c, i)"]
    by (auto simp: not_others)
  from put_loop_result [OF this]
  have "keeps ?Z ({c} \<times> set ks) y2 z" "\<forall>i \<in> set ks. (c, i) \<notin> ?Z \<longrightarrow> st z (c, i) = MM_STREAM_STATE_CFG"
    using s(2) by auto
  then show ?thesis using keeps_trans [OF k2] set_ks by (auto simp: not_others)
qed

section \<open>Runs\<close>

text \<open>
  What happens to the channels of a camera: channels come and go, events reach them by handle, buffers come back,
  frames arrive, and the command threads of streams and channels run. \<open>q\<close> is a slot, \<open>c\<close> a channel.
\<close>

datatype chan_action =
    AddChannel "mm_camera_channel_attr_t option" bool
  | DelChannel chan_env u32
  | Call chan_env u32 mm_channel_evt_type_t
  | Qbuf chan_env u32 mm_camera_buf_def_t
  | FrameArrives stream_env "bool \<times> bool \<times> bool" "nat \<times> nat"
  | StreamRound stream_env "nat \<times> nat"
  | ChannelRound chan_env nat
  | AddCallback int "nat \<times> nat"

definition chan_step :: "venus_macros option \<Rightarrow> bool \<Rightarrow> chan_action \<Rightarrow> chan_sys \<Rightarrow> chan_sys option" where
  "chan_step venus a_family a y = (case a of
     AddChannel at cb \<Rightarrow> Some (snd (mm_camera_add_channel at cb y))
   | DelChannel e h \<Rightarrow> map_option snd (mm_camera_del_channel venus a_family e h y)
   | Call e h evt \<Rightarrow> map_option snd (chan_call venus a_family e h evt y)
   | Qbuf e h b \<Rightarrow> map_option snd (mm_camera_qbuf venus a_family e h b y)
   | FrameArrives e mem q \<Rightarrow> frame_arrives e mem q y
   | StreamRound e q \<Rightarrow> Some (stream_round e q y)
   | ChannelRound e c \<Rightarrow> channel_round venus a_family e c y
   | AddCallback n q \<Rightarrow> Some (upd_slot q (\<lambda>sl. sl\<lparr>strm := snd (mm_stream_reg_buf_cb n (strm sl))\<rparr>) y))"

text \<open>The one thing asked of the client: it links a stream only from the channel the stream belongs to.\<close>

definition link_ok :: "chan_action \<Rightarrow> chan_sys \<Rightarrow> bool" where
  "link_ok a y = (case a of
     Call e h (MM_CHANNEL_EVT_LINK_STREAM c s) \<Rightarrow>
       c < length (chs y) \<and> (case find_slot s (c_streams (chs y ! c)) of None \<Rightarrow> True | Some j \<Rightarrow> own c (slot_at (c, j) y))
   | _ \<Rightarrow> True)"

fun chan_run :: "venus_macros option \<Rightarrow> bool \<Rightarrow> chan_action list \<Rightarrow> chan_sys \<Rightarrow> chan_sys option" where
  "chan_run venus a_family [] y = Some y"
| "chan_run venus a_family (a # as) y =
     (case chan_step venus a_family a y of None \<Rightarrow> None | Some z \<Rightarrow> chan_run venus a_family as z)"

fun links_ok :: "venus_macros option \<Rightarrow> bool \<Rightarrow> chan_action list \<Rightarrow> chan_sys \<Rightarrow> bool" where
  "links_ok venus a_family [] y = True"
| "links_ok venus a_family (a # as) y = (link_ok a y \<and>
     (case chan_step venus a_family a y of None \<Rightarrow> True | Some z \<Rightarrow> links_ok venus a_family as z))"

definition camera_chans :: "u16 \<Rightarrow> chan_sys" where
  "camera_chans g = \<lparr>g_handler_history_count = g, chs = replicate MM_CAMERA_CHANNEL_MAX zero_channel\<rparr>"

section \<open>The streams follow their channel\<close>

text \<open>
  In a stopped channel every own stream is acquired or configured and has no buffers; in an active one every own
  stream streams, except those that cannot be found by their handle.
\<close>

definition slot_ok :: "nat \<Rightarrow> mm_channel_state_type_t \<Rightarrow> ch_slot list \<Rightarrow> nat \<Rightarrow> bool" where
  "slot_ok c s sls i \<longleftrightarrow> (used (sls ! i) \<longrightarrow> 0 < st_hdl (strm (sls ! i)) \<and>
     (own c (sls ! i) \<longrightarrow>
       (s = MM_CHANNEL_STATE_STOPPED \<longrightarrow> st_state (strm (sls ! i)) \<in> {MM_STREAM_STATE_ACQUIRED, MM_STREAM_STATE_CFG}) \<and>
       (s = MM_CHANNEL_STATE_ACTIVE \<longrightarrow> (if found sls i then st_state (strm (sls ! i)) = MM_STREAM_STATE_ACTIVE
          else st_state (strm (sls ! i)) \<in> {MM_STREAM_STATE_ACQUIRED, MM_STREAM_STATE_CFG}))))"

definition chan_ok :: "nat \<Rightarrow> mm_channel_obj \<Rightarrow> bool" where
  "chan_ok c ch \<longleftrightarrow> (\<forall>i < length (c_streams ch). slot_ok c (c_state ch) (c_streams ch) i)"

definition chans_ok :: "chan_sys \<Rightarrow> bool" where
  "chans_ok y \<longleftrightarrow> (\<forall>c < length (chs y). chan_ok c (chs y ! c))"

text \<open>Whether a channel is fine is a matter of its state and of what \<open>ident\<close> and \<open>st\<close> show of its slots.\<close>

definition skel :: "ch_slot \<Rightarrow> (u32 \<times> nat option) option \<times> mm_stream_state_type_t" where
  "skel sl = (ident sl, st_state (strm sl))"

lemma skel_parts:
  assumes "skel a = skel b"
  shows "used a \<longleftrightarrow> used b" and "used b \<Longrightarrow> st_hdl (strm a) = st_hdl (strm b) \<and> (own c a \<longleftrightarrow> own c b)"
    and "st_state (strm a) = st_state (strm b)"
  using assms by (auto simp: skel_def ident_def own_def split: if_splits)

lemma ident_parts:
  assumes "ident a = ident b"
  shows "used a \<longleftrightarrow> used b" and "used b \<Longrightarrow> st_hdl (strm a) = st_hdl (strm b)" and "used b \<Longrightarrow> ch_obj a = ch_obj b"
  using assms by (auto simp: ident_def split: if_splits)

lemma found_cong:
  assumes l: "length sls' = length sls" and s: "\<And>j. j < length sls \<Longrightarrow> ident (sls' ! j) = ident (sls ! j)"
    and i: "i < length sls" "used (sls ! i)"
  shows "found sls' i \<longleftrightarrow> found sls i"
proof -
  have "find (\<lambda>j. used (sls' ! j) \<and> x = st_hdl (strm (sls' ! j))) [0..<length sls] =
      find (\<lambda>j. used (sls ! j) \<and> x = st_hdl (strm (sls ! j))) [0..<length sls]" for x
    by (rule find_cong) (use ident_parts [OF s] in auto)
  then show ?thesis using ident_parts(2) [OF s [OF i(1)] i(2)] l by (simp add: found_def find_slot_def)
qed

lemma slot_ok_cong:
  assumes l: "length sls' = length sls" and s: "\<And>j. j < length sls \<Longrightarrow> skel (sls' ! j) = skel (sls ! j)" and i: "i < length sls"
  shows "slot_ok c x sls' i \<longleftrightarrow> slot_ok c x sls i"
  using skel_parts [OF s [OF i]] found_cong [OF l _ i] s by (auto simp: slot_ok_def skel_def)

lemma keeps_skel:
  assumes "keeps Z A y z" and "in_range p y" and "p \<notin> Z" and "p \<notin> A"
  shows "skel (slot_at p z) = skel (slot_at p y)"
  using pairs_keptD [OF assms(1,2)] assms(3,4) by (auto simp: slot_keeps_def skel_def)

lemma keeps_other_channels:
  assumes k: "keeps Z A y z" and d: "d < length (chs y)" "\<And>i. (d, i) \<notin> Z \<and> (d, i) \<notin> A"
  shows "chan_ok d (chs z ! d) \<longleftrightarrow> chan_ok d (chs y ! d)"
proof -
  have l: "length (c_streams (chs z ! d)) = length (c_streams (chs y ! d))" using keeps_shape(3) [OF k d(1)] .
  have "skel (c_streams (chs z ! d) ! j) = skel (c_streams (chs y ! d) ! j)" if "j < length (c_streams (chs y ! d))" for j
    using keeps_skel [OF k, of "(d, j)"] that d by (simp add: in_range_def slot_at_def)
  from slot_ok_cong [OF l this] show ?thesis using keeps_shape(2) [OF k d(1)] l by (simp add: chan_ok_def)
qed

lemma chans_ok_keeps: "chans_ok y \<Longrightarrow> keeps {} {} y z \<Longrightarrow> chans_ok z"
  using keeps_other_channels [of "{}" "{}" y z] keeps_shape(1) [of "{}" "{}" y z] by (auto simp: chans_ok_def)

text \<open>One channel changed: it is enough that it is fine afterwards.\<close>

lemma chans_ok_upd: "chans_ok y \<Longrightarrow> chan_ok c (f (chs y ! c)) \<Longrightarrow> chans_ok (upd_ch c f y)"
  by (auto simp: chans_ok_def upd_ch_shape)

lemma chans_okD: "chans_ok y \<Longrightarrow> in_range p y \<Longrightarrow> slot_ok (fst p) (c_state (chs y ! fst p)) (c_streams (chs y ! fst p)) (snd p)"
  by (auto simp: chans_ok_def chan_ok_def in_range_def)

text \<open>A slot of a stopped channel is filled.\<close>

lemma upd_slot_const: "upd_slot p f y = upd_slot p (\<lambda>_. f (slot_at p y)) y"
  by (simp add: upd_slot_def upd_ch_def slot_at_def)

lemma stopped_fill:
  assumes "chans_ok y" and s: "c_state (chs y ! c) = MM_CHANNEL_STATE_STOPPED" and r: "in_range (c, i) y"
    and x: "used x \<Longrightarrow> 0 < st_hdl (strm x) \<and> (own c x \<longrightarrow> st_state (strm x) \<in> {MM_STREAM_STATE_ACQUIRED, MM_STREAM_STATE_CFG})"
  shows "chans_ok (upd_slot (c, i) (\<lambda>_. x) y)"
  unfolding upd_slot_def
proof (rule chans_ok_upd [OF assms(1)])
  have "slot_ok c MM_CHANNEL_STATE_STOPPED ((c_streams (chs y ! c))[i := x]) j" if "j < length (c_streams (chs y ! c))" for j
    using chans_okD [OF assms(1), of "(c, j)"] s r x that by (cases "j = i") (simp_all add: in_range_def slot_ok_def)
  then show "chan_ok (fst (c, i)) ((chs y ! fst (c, i))\<lparr>c_streams := (c_streams (chs y ! fst (c, i)))[snd (c, i) := x]\<rparr>)"
    using s by (simp add: chan_ok_def)
qed

lemma upd_slot_twice: "in_range p y \<Longrightarrow> upd_slot p f (upd_slot p (\<lambda>_. x) y) = upd_slot p (\<lambda>_. f x) y"
  by (simp add: upd_slot_def upd_ch_def in_range_def)

lemma zero_slot_unused [simp]: "\<not> used zero_slot"
  by (simp add: zero_slot_def zero_stream_def used_def)

section \<open>Events of a stopped channel\<close>

text \<open>Each of these is an event for an own stream, or a command posted to the thread.\<close>

lemmas chan_ops = mm_channel_config_stream_def mm_channel_set_stream_parm_def mm_channel_get_stream_parm_def
  mm_channel_do_stream_action_def mm_channel_request_super_buf_def mm_channel_cancel_super_buf_request_def
  mm_channel_config_notify_mode_def mm_channel_start_zsl_snapshot_def mm_channel_stop_zsl_snapshot_def
  mm_channel_proc_general_cmd_def


lemma handler_pos: "mm_camera_util_generate_handler i g = (h, g') \<Longrightarrow> 0 < h"
  by (rule handles_positive)

lemma add_stream_ok:
  assumes "chans_ok y" and "c < length (chs y)" and s: "c_state (chs y ! c) = MM_CHANNEL_STATE_STOPPED"
  shows "chans_ok (snd (mm_channel_add_stream venus a_family e c y))"
proof (cases "free_slot (c_streams (chs y ! c))")
  case (Some i)
  then have r: "in_range (c, i) y" using assms(2) by (auto simp: free_slot_def in_range_def find_Some_iff)
  obtain h g where h: "mm_camera_util_generate_handler (of_nat i) (g_handler_history_count y) = (h, g)" by (rule prod.exhaust)
  let ?y0 = "y\<lparr>g_handler_history_count := g\<rparr>"
  let ?s = "zero_stream\<lparr>st_hdl := h, st_state := MM_STREAM_STATE_INITED\<rparr>"
  let ?x = "zero_slot\<lparr>strm := ?s, ch_obj := Some c\<rparr>"
  let ?r = "mm_stream_fsm_fn venus a_family (e_slot e (c, i) MM_STREAM_EVT_ACQUIRE) MM_STREAM_EVT_ACQUIRE ?s"
  have y0: "chans_ok ?y0" "in_range (c, i) ?y0" using assms(1) r by (simp_all add: chans_ok_def in_range_def)
  have at: "slot_at (c, i) (upd_slot (c, i) (\<lambda>_. ?x) ?y0) = ?x" using slot_at_upd_slot [OF y0(2)] by simp
  have e: "snd (mm_channel_add_stream venus a_family e c y) =
      upd_slot (c, i) (\<lambda>_. if fst ?r = 0 then put_strm (snd ?r) ?x else zero_slot) ?y0"
    using Some h by (simp add: mm_channel_add_stream_def Let_def stream_evt_eq at upd_slot_twice [OF y0(2)])
  have "st_hdl (snd ?r) = h" by (simp add: fsm_hdl)
  then have "used (put_strm (snd ?r) ?x) \<Longrightarrow> fst ?r = 0 \<Longrightarrow> 0 < st_hdl (strm (put_strm (snd ?r) ?x)) \<and>
      st_state (strm (put_strm (snd ?r) ?x)) \<in> {MM_STREAM_STATE_ACQUIRED, MM_STREAM_STATE_CFG}"
    using handler_pos [OF h] fsm_acquire [of ?s venus a_family "e_slot e (c, i) MM_STREAM_EVT_ACQUIRE"] by simp
  then show ?thesis unfolding e by (intro stopped_fill y0) (use s in \<open>auto split: if_splits\<close>)
qed (use assms in \<open>simp add: mm_channel_add_stream_def\<close>)

lemma link_stream_ok:
  assumes ok: "chans_ok y" and c: "c < length (chs y)" and s: "c_state (chs y ! c) = MM_CHANNEL_STATE_STOPPED"
    and own: "c' < length (chs y)" "\<And>j. find_slot h (c_streams (chs y ! c')) = Some j \<Longrightarrow> own c' (slot_at (c', j) y)"
  shows "chans_ok (snd (mm_channel_link_stream c c' h y))"
proof (cases "find_slot h (c_streams (chs y ! c'))")
  case (Some j)
  have j: "in_range (c', j) y" "used (slot_at (c', j) y)"
    using find_slot_SomeD [OF Some] own(1) by (simp_all add: in_range_def slot_at_def)
  show ?thesis
  proof (cases "free_slot (c_streams (chs y ! c))")
    case (Some i)
    then have r: "in_range (c, i) y" using c by (auto simp: free_slot_def in_range_def find_Some_iff)
    have "slot_ok c' (c_state (chs y ! c')) (c_streams (chs y ! c')) j" using chans_okD [OF ok j(1)] by simp
    moreover have "own c' (slot_at (c', j) y)" using own(2) \<open>find_slot h _ = Some j\<close> .
    ultimately have "chans_ok (upd_slot (c, i) (\<lambda>_. (slot_at (c', j) y)\<lparr>linked_stream := Some (c', j)\<rparr>) y)"
      by (intro stopped_fill [OF ok s r]) (use j(2) s in \<open>auto simp: slot_ok_def slot_at_def used_def own_def\<close>)
    then show ?thesis using Some \<open>find_slot h _ = Some j\<close> by (simp add: mm_channel_link_stream_def)
  qed (use ok \<open>find_slot h _ = Some j\<close> in \<open>simp add: mm_channel_link_stream_def\<close>)
qed (use ok in \<open>simp add: mm_channel_link_stream_def\<close>)

lemma stopped_evt_ok:
  assumes ok: "chans_ok y" and s: "c_state (chs y ! c) = MM_CHANNEL_STATE_STOPPED" and r: "in_range (c, i) y"
    and own: "own c (slot_at (c, i) y)" "used (slot_at (c, i) y)"
    and evt: "evt = MM_STREAM_EVT_RELEASE \<or> (\<exists>cfg. evt = MM_STREAM_EVT_SET_FMT cfg)"
  shows "chans_ok (snd (stream_evt venus a_family e (c, i) evt y))"
proof -
  let ?s = "strm (slot_at (c, i) y)" and ?r = "mm_stream_fsm_fn venus a_family (e_slot e (c, i) evt) evt (strm (slot_at (c, i) y))"
  have st: "st y (c, i) \<in> {MM_STREAM_STATE_ACQUIRED, MM_STREAM_STATE_CFG}" "0 < st_hdl ?s"
    using chans_okD [OF ok r] s own by (simp_all add: slot_ok_def slot_at_def)
  show ?thesis unfolding stream_evt_eq snd_conv
    unfolding upd_slot_const [of _ "put_strm (snd ?r)"]
  proof (rule stopped_fill [OF ok s r])
    assume "used (put_strm (snd ?r) (slot_at (c, i) y))"
    then have "after_evt venus a_family (e_slot e (c, i) evt) evt ?s \<noteq> MM_STREAM_STATE_NOTUSED" by (simp add: used_def)
    then have n: "evt \<noteq> MM_STREAM_EVT_RELEASE" using fsm_release [OF st(1)] by auto
    then obtain cfg where "evt = MM_STREAM_EVT_SET_FMT cfg" using evt by auto
    then show "0 < st_hdl (strm (put_strm (snd ?r) (slot_at (c, i) y))) \<and> (own c (put_strm (snd ?r) (slot_at (c, i) y)) \<longrightarrow>
        st_state (strm (put_strm (snd ?r) (slot_at (c, i) y))) \<in> {MM_STREAM_STATE_ACQUIRED, MM_STREAM_STATE_CFG})"
      using fsm_config [OF st(1)] fsm_hdl [OF n] st(2) by simp
  qed
qed

lemma found_slot_range: "find_slot h (c_streams (chs y ! c)) = Some i \<Longrightarrow> c < length (chs y) \<Longrightarrow> in_range (c, i) y \<and> used (slot_at (c, i) y)"
  by (auto simp: in_range_def slot_at_def dest: find_slot_SomeD)

lemma del_stream_ok:
  assumes ok: "chans_ok y" and c: "c < length (chs y)" and s: "c_state (chs y ! c) = MM_CHANNEL_STATE_STOPPED"
  shows "chans_ok (snd (mm_channel_del_stream venus a_family e c h y))"
proof (cases "find_slot h (c_streams (chs y ! c))")
  case (Some i)
  note i = found_slot_range [OF Some c]
  have "chans_ok (upd_slot (c, i) (\<lambda>_. zero_slot) (unlink (c, i) y))"
    using i keeps_range [OF link_keeps(2)] keeps_shape(2) [OF link_keeps(2) c] s
    by (intro stopped_fill chans_ok_keeps [OF ok link_keeps(2)]) simp_all
  then show ?thesis using Some i stopped_evt_ok [OF ok s] by (simp add: mm_channel_del_stream_def)
qed (use ok in \<open>simp add: mm_channel_del_stream_def\<close>)

lemma own_evt_quiet:
  assumes "\<exists>p. evt \<in> {MM_STREAM_EVT_SET_PARM p, MM_STREAM_EVT_GET_PARM p, MM_STREAM_EVT_DO_ACTION p}"
  shows "keeps {} {} y (snd (own_stream_evt venus a_family e c h evt y))"
  using assms by (auto simp: own_stream_evt_def intro!: stream_evt_quiet fsm_same split: option.split)

lemma queued_count_quiet: "keeps {} {} y (snd (mm_channel_get_queued_buf_count venus a_family e c h y))"
  by (auto simp: mm_channel_get_queued_buf_count_def intro!: stream_evt_quiet fsm_same split: option.split)

lemma config_ok:
  assumes ok: "chans_ok y" and c: "c < length (chs y)" and s: "c_state (chs y ! c) = MM_CHANNEL_STATE_STOPPED"
  shows "chans_ok (snd (own_stream_evt venus a_family e c h (MM_STREAM_EVT_SET_FMT cfg) y))"
  using found_slot_range [OF _ c, of h] stopped_evt_ok [OF ok s] ok
  by (auto simp: own_stream_evt_def split: option.split)

section \<open>Start and stop in a run\<close>

lemma keeps_mine_back:
  assumes "keeps (others c y) A y z" and "in_range (c, i) y" and "mine z (c, i)"
  shows "mine y (c, i)"
proof -
  have "ident (slot_at (c, i) z) = ident (slot_at (c, i) y)"
    using pairs_keptD [OF assms(1,2)] assms(3) by (auto simp: slot_keeps_def mine_def)
  from ident_parts [OF this] show ?thesis using assms(3) by (auto simp: mine_def own_def)
qed

lemma keeps_hdl:
  assumes "chans_ok y" and "keeps Z A y z" and "in_range (c, i) y" and "used (slot_at (c, i) z)"
  shows "0 < st_hdl (strm (slot_at (c, i) z))"
  using pairs_keptD [OF assms(2,3)] chans_okD [OF assms(1,3)] assms(4)
  by (auto simp: slot_keeps_def ident_def slot_ok_def slot_at_def split: if_splits)

lemma set_c_state_slots: "c_streams (chs (set_c_state x c z) ! d) = c_streams (chs z ! d)" "length (chs (set_c_state x c z)) = length (chs z)"
  by (simp_all add: set_c_state_def upd_ch_shape)

text \<open>One channel changes its streams, then its state; the others keep theirs.\<close>

lemma one_channel:
  assumes ok: "chans_ok y" and k: "keeps Z A y z" and za: "Z \<union> A \<subseteq> {c} \<times> UNIV" and c: "c < length (chs y)"
    and new: "\<And>i. i < length (c_streams (chs y ! c)) \<Longrightarrow> mine z (c, i) \<Longrightarrow>
      (x = MM_CHANNEL_STATE_STOPPED \<longrightarrow> st z (c, i) \<in> {MM_STREAM_STATE_ACQUIRED, MM_STREAM_STATE_CFG}) \<and>
      (x = MM_CHANNEL_STATE_ACTIVE \<longrightarrow> (if found (c_streams (chs z ! c)) i then st z (c, i) = MM_STREAM_STATE_ACTIVE
          else st z (c, i) \<in> {MM_STREAM_STATE_ACQUIRED, MM_STREAM_STATE_CFG}))"
    and w: "chs w ! c = (chs z ! c)\<lparr>c_state := x\<rparr>" "length (chs w) = length (chs z)" "\<And>d. d \<noteq> c \<Longrightarrow> chs w ! d = chs z ! d"
  shows "chans_ok w"
proof -
  have "chan_ok d (chs w ! d)" if "d < length (chs w)" for d
  proof (cases "d = c")
    case True
    have l: "length (c_streams (chs z ! c)) = length (c_streams (chs y ! c))" using keeps_shape(3) [OF k c] .
    have "slot_ok c x (c_streams (chs z ! c)) i" if "i < length (c_streams (chs y ! c))" for i
      using new [OF that] keeps_hdl [OF ok k, of c i] that c
      by (auto simp: slot_ok_def mine_def in_range_def slot_at_def)
    then show ?thesis using True w(1) l by (simp add: chan_ok_def)
  next
    case False
    then have "(d, i) \<notin> Z \<and> (d, i) \<notin> A" for i using za by auto
    then show ?thesis using keeps_other_channels [OF k, of d] False w that keeps_shape(1) [OF k] ok by (simp add: chans_ok_def)
  qed
  then show ?thesis by (simp add: chans_ok_def)
qed

lemma stopped_slots:
  assumes "chans_ok y" and "c_state (chs y ! c) = MM_CHANNEL_STATE_STOPPED" and "in_range (c, i) y" and "mine y (c, i)"
  shows "st y (c, i) \<in> {MM_STREAM_STATE_ACQUIRED, MM_STREAM_STATE_CFG}"
  using chans_okD [OF assms(1,3)] assms(2,4) by (simp add: slot_ok_def mine_def slot_at_def)

lemma active_slots:
  assumes "chans_ok y" and "c_state (chs y ! c) = MM_CHANNEL_STATE_ACTIVE" and "in_range (c, i) y" and "mine y (c, i)"
  shows "if found (c_streams (chs y ! c)) i then st y (c, i) = MM_STREAM_STATE_ACTIVE
    else st y (c, i) \<in> {MM_STREAM_STATE_ACQUIRED, MM_STREAM_STATE_CFG}"
  using chans_okD [OF assms(1,3)] assms(2,4) by (auto simp: slot_ok_def mine_def slot_at_def split: if_splits)

lemma in_objs:
  assumes "chans_ok y" and "in_range (c, i) y" and "used (slot_at (c, i) y)"
  shows "i \<in> set (channel_streams (c_streams (chs y ! c))) \<longleftrightarrow> found (c_streams (chs y ! c)) i"
  using chans_okD [OF assms(1,2)] assms(3) by (auto simp: set_channel_streams slot_ok_def slot_at_def)

lemma start_ok:
  assumes ok: "chans_ok y" and c: "c < length (chs y)" and s: "c_state (chs y ! c) = MM_CHANNEL_STATE_STOPPED"
    and start: "mm_channel_start venus a_family e c y = Some (rc, z)"
  shows "chans_ok (if rc = 0 then set_c_state MM_CHANNEL_STATE_ACTIVE c z else z)"
proof -
  let ?objs = "set (channel_streams (c_streams (chs y ! c)))" and ?Z = "if rc = 0 then {} else others c y"
  have r: "keeps ?Z ({c} \<times> ?objs) y z"
      "\<forall>i \<in> ?objs. mine y (c, i) \<longrightarrow> st z (c, i) = (if rc = 0 then MM_STREAM_STATE_ACTIVE else MM_STREAM_STATE_CFG)"
    using channel_start_result [OF c _ start] stopped_slots [OF ok s] by blast+
  have r': "keeps (others c y) ({c} \<times> ?objs) y z" using keeps_mono [OF r(1)] by (auto split: if_splits)
  have za: "?Z \<union> {c} \<times> ?objs \<subseteq> {c} \<times> UNIV" by (auto simp: others_def)
  define x where "x = (if rc = 0 then MM_CHANNEL_STATE_ACTIVE else MM_CHANNEL_STATE_STOPPED)"
  show ?thesis
  proof (rule one_channel [OF ok r(1) za c, of x])
    fix i assume i: "i < length (c_streams (chs y ! c))" "mine z (c, i)"
    then have y: "in_range (c, i) y" "mine y (c, i)" "(c, i) \<notin> others c y"
      using c keeps_mine_back [OF r', of i] by (simp_all add: in_range_def not_others)
    have hidden: "st z (c, i) \<in> {MM_STREAM_STATE_ACQUIRED, MM_STREAM_STATE_CFG}" if "i \<notin> ?objs"
      using pairs_kept_slot(3) [OF r' y(1,3)] stopped_slots [OF ok s y(1,2)] that by simp
    have "found (c_streams (chs z ! c)) i \<longleftrightarrow> i \<in> ?objs" if "rc = 0"
    proof -
      have u: "used (c_streams (chs y ! c) ! i)" using y(2) by (simp add: mine_def slot_at_def)
      have "ident (c_streams (chs z ! c) ! j) = ident (c_streams (chs y ! c) ! j)" if "j < length (c_streams (chs y ! c))" for j
        using pairs_keptD [OF r(1), of "(c, j)"] that c \<open>rc = 0\<close> by (simp add: slot_keeps_def in_range_def slot_at_def)
      then have "found (c_streams (chs z ! c)) i \<longleftrightarrow> found (c_streams (chs y ! c)) i"
        using found_cong [OF keeps_shape(3) [OF r(1) c] _ i(1) u] by simp
      then show ?thesis using in_objs [OF ok y(1)] y(2) by (simp add: mine_def)
    qed
    then show "(x = MM_CHANNEL_STATE_STOPPED \<longrightarrow> st z (c, i) \<in> {MM_STREAM_STATE_ACQUIRED, MM_STREAM_STATE_CFG}) \<and>
        (x = MM_CHANNEL_STATE_ACTIVE \<longrightarrow> (if found (c_streams (chs z ! c)) i then st z (c, i) = MM_STREAM_STATE_ACTIVE
          else st z (c, i) \<in> {MM_STREAM_STATE_ACQUIRED, MM_STREAM_STATE_CFG}))"
      using r(2) y(2) hidden by (cases "i \<in> ?objs") (auto simp: x_def split: if_splits)
  qed (use keeps_shape(1,2) [OF r(1)] c s in \<open>auto simp: x_def set_c_state_def upd_ch_shape\<close>)
qed

lemma stop_ok:
  assumes ok: "chans_ok y" and c: "c < length (chs y)" and s: "c_state (chs y ! c) = MM_CHANNEL_STATE_ACTIVE"
    and stop: "mm_channel_stop venus a_family e c y = Some (rc, z)"
  shows "chans_ok (set_c_state MM_CHANNEL_STATE_STOPPED c z)"
proof -
  let ?objs = "set (channel_streams (c_streams (chs y ! c)))"
  have "st y (c, i) \<in> configured" if "i \<in> ?objs" "mine y (c, i)" for i
    using that active_slots [OF ok s, of i] c
    by (auto simp: set_channel_streams configured_def in_range_def found_def dest: find_slot_SomeD split: if_splits)
  then have r: "keeps (others c y) ({c} \<times> ?objs) y z" "\<forall>i \<in> ?objs. mine y (c, i) \<longrightarrow> st z (c, i) = MM_STREAM_STATE_CFG"
    using channel_stop_result [OF c _ stop] by blast+
  have za: "others c y \<union> {c} \<times> ?objs \<subseteq> {c} \<times> UNIV" by (auto simp: others_def)
  show ?thesis
  proof (rule one_channel [OF ok r(1) za c, of MM_CHANNEL_STATE_STOPPED])
    fix i assume i: "i < length (c_streams (chs y ! c))" "mine z (c, i)"
    then have y: "in_range (c, i) y" "mine y (c, i)" "(c, i) \<notin> others c y"
      using c keeps_mine_back [OF r(1), of i] by (simp_all add: in_range_def not_others)
    have "st z (c, i) \<in> {MM_STREAM_STATE_ACQUIRED, MM_STREAM_STATE_CFG}"
    proof (cases "i \<in> ?objs")
      case False
      then have "\<not> found (c_streams (chs y ! c)) i" using in_objs [OF ok y(1)] y(2) by (simp add: mine_def)
      then show ?thesis using pairs_kept_slot(3) [OF r(1) y(1,3)] False active_slots [OF ok s y(1,2)] by simp
    qed (use r(2) y(2) in simp)
    then show "(MM_CHANNEL_STATE_STOPPED = MM_CHANNEL_STATE_STOPPED \<longrightarrow> st z (c, i) \<in> {MM_STREAM_STATE_ACQUIRED, MM_STREAM_STATE_CFG}) \<and>
        (MM_CHANNEL_STATE_STOPPED = MM_CHANNEL_STATE_ACTIVE \<longrightarrow> (if found (c_streams (chs z ! c)) i then st z (c, i) = MM_STREAM_STATE_ACTIVE
          else st z (c, i) \<in> {MM_STREAM_STATE_ACQUIRED, MM_STREAM_STATE_CFG}))" by simp
  qed (use keeps_shape(1) [OF r(1)] c in \<open>auto simp: set_c_state_def upd_ch_shape\<close>)
qed

section \<open>Every step\<close>

lemma same_but_count: "chs z = chs y \<Longrightarrow> chans_ok z \<longleftrightarrow> chans_ok y"
  by (simp add: chans_ok_def)

lemma map_buf_rets: "ret_rc (r, y) = Some (x, z) \<Longrightarrow> z = y" "ret_rc p = Some (x, z) \<Longrightarrow> z = snd p" "ret_hdl q = Some (x, z) \<Longrightarrow> z = snd q"
  "ret_opt u = Some (x, z) \<Longrightarrow> \<exists>rc. u = Some (rc, z)"
  by (auto simp: ret_rc_def ret_hdl_def ret_opt_def)

lemma slot_ok_unused_channel: "slot_ok c x sls i \<Longrightarrow> slot_ok c MM_CHANNEL_STATE_NOTUSED sls i"
  by (simp add: slot_ok_def)

lemma delete_ok:
  assumes ok: "chans_ok y"
  shows "chans_ok (set_c_state MM_CHANNEL_STATE_NOTUSED c y)"
proof (cases "c < length (chs y)")
  case True
  then have "chan_ok c (chs y ! c)" using ok by (simp add: chans_ok_def)
  then have "chan_ok c ((chs y ! c)\<lparr>c_state := MM_CHANNEL_STATE_NOTUSED\<rparr>)"
    by (auto simp: chan_ok_def intro: slot_ok_unused_channel)
  then show ?thesis unfolding set_c_state_def by (rule chans_ok_upd [OF ok])
qed (use ok in \<open>simp add: set_c_state_def upd_ch_def list_update_beyond\<close>)

lemma stopped_ok:
  assumes ok: "chans_ok y" and c: "c < length (chs y)" and s: "c_state (chs y ! c) = MM_CHANNEL_STATE_STOPPED"
    and evt: "mm_channel_fsm_fn_stopped venus a_family e c evt y = Some (r, z)"
    and link: "\<And>c' h j. evt = MM_CHANNEL_EVT_LINK_STREAM c' h \<Longrightarrow> c' < length (chs y) \<and>
      (find_slot h (c_streams (chs y ! c')) = Some j \<longrightarrow> own c' (slot_at (c', j) y))"
  shows "chans_ok z"
proof -
  note quiet = chans_ok_keeps [OF ok own_evt_quiet] chans_ok_keeps [OF ok queued_count_quiet]
  note rets = map_buf_rets
  show ?thesis
  proof (cases evt)
    case MM_CHANNEL_EVT_ADD_STREAM
    then show ?thesis using evt add_stream_ok [OF ok c s] by (auto simp: mm_channel_fsm_fn_stopped_def chan_ops dest!: rets(3))
  next
    case (MM_CHANNEL_EVT_LINK_STREAM c' h)
    then show ?thesis using evt link_stream_ok [OF ok c s, of c' h] link by (auto simp: mm_channel_fsm_fn_stopped_def chan_ops dest!: rets(3))
  next
    case (MM_CHANNEL_EVT_DEL_STREAM h)
    then show ?thesis using evt del_stream_ok [OF ok c s] by (auto simp: mm_channel_fsm_fn_stopped_def chan_ops dest!: rets(2))
  next
    case (MM_CHANNEL_EVT_CONFIG_STREAM h cfg)
    then show ?thesis using evt config_ok [OF ok c s] by (auto simp: mm_channel_fsm_fn_stopped_def chan_ops dest!: rets(2))
  next
    case MM_CHANNEL_EVT_START
    then obtain rc w where "mm_channel_start venus a_family e c y = Some (rc, w)"
        "z = (if rc = 0 then set_c_state MM_CHANNEL_STATE_ACTIVE c w else w)"
      using evt by (auto simp: mm_channel_fsm_fn_stopped_def chan_ops dest!: rets(4))
    then show ?thesis using start_ok [OF ok c s] by blast
  next
    case MM_CHANNEL_EVT_DELETE
    then show ?thesis using evt delete_ok [OF ok] by (auto simp: mm_channel_fsm_fn_stopped_def chan_ops dest!: rets(1))
  qed (use evt ok in \<open>auto simp: mm_channel_fsm_fn_stopped_def chan_ops dest!: rets(2) intro: quiet\<close>)
qed

lemma active_ok:
  assumes ok: "chans_ok y" and c: "c < length (chs y)" and s: "c_state (chs y ! c) = MM_CHANNEL_STATE_ACTIVE"
    and evt: "mm_channel_fsm_fn_active venus a_family e c evt y = Some (r, z)"
  shows "chans_ok z"
proof (cases "evt = MM_CHANNEL_EVT_STOP")
  case True
  then obtain rc w where "mm_channel_stop venus a_family e c y = Some (rc, w)" "z = set_c_state MM_CHANNEL_STATE_STOPPED c w"
    using evt by (auto simp: mm_channel_fsm_fn_active_def chan_ops dest!: map_buf_rets(4))
  then show ?thesis using stop_ok [OF ok c s] by blast
next
  case False
  then have "keeps {} {} y z" using evt
    by (cases evt) (auto simp: mm_channel_fsm_fn_active_def chan_ops dest!: map_buf_rets(2,4)
        intro: own_evt_quiet queued_count_quiet flush_keeps post_cmd_keeps split: if_splits)
  then show ?thesis by (rule chans_ok_keeps [OF ok])
qed

lemma fsm_ok:
  assumes ok: "chans_ok y" and c: "c < length (chs y)"
    and evt: "mm_channel_fsm_fn venus a_family e c evt y = Some (r, z)"
    and link: "\<And>c' h j. evt = MM_CHANNEL_EVT_LINK_STREAM c' h \<Longrightarrow> c' < length (chs y) \<and>
      (find_slot h (c_streams (chs y ! c')) = Some j \<longrightarrow> own c' (slot_at (c', j) y))"
  shows "chans_ok z"
proof (cases "c_state (chs y ! c)")
  case MM_CHANNEL_STATE_STOPPED
  then show ?thesis using stopped_ok [OF ok c _ _ link] evt by (simp add: mm_channel_fsm_fn_def)
next
  case MM_CHANNEL_STATE_ACTIVE
  then show ?thesis using active_ok [OF ok c] evt by (simp add: mm_channel_fsm_fn_def)
qed (use ok evt in \<open>auto simp: mm_channel_fsm_fn_def dest!: map_buf_rets(2)\<close>)

lemma zero_channel_ok: "chan_ok c (ch\<lparr>c_streams := replicate n zero_slot\<rparr>)"
  by (simp add: chan_ok_def slot_ok_def)

lemma get_channel_range: "mm_camera_util_get_channel_by_handler h y = Some c \<Longrightarrow> c < length (chs y)"
  by (auto simp: mm_camera_util_get_channel_by_handler_def find_Some_iff)

lemma alike_keeps:
  assumes "alike (strm (slot_at q y)) s"
  shows "keeps {} {} y (upd_slot q (\<lambda>sl. sl\<lparr>strm := s\<rparr>) y)"
  using alike_hdl [OF assms] by (intro keeps_upd_slot) (simp_all add: ident_def used_def)

lemma thread_round_alike: "alike s (stream_thread_round e s)"
proof (cases "app_queue s")
  case (Cons i infos)
  have "alike s (s\<lparr>app_queue := infos\<rparr>)" by (simp add: alike_def)
  then show ?thesis using Cons alike_trans [OF _ dispatch_info_alike] by (simp add: stream_thread_round_def)
qed (simp add: stream_thread_round_def)

lemma post_frames_keeps: "post_frames co infos y = Some z \<Longrightarrow> keeps {} {} y z"
  by (auto simp: post_frames_def split: if_splits option.splits intro!: keeps_upd_ch)

lemma frame_keeps:
  assumes "frame_arrives e mem q y = Some z"
  shows "keeps {} {} y z"
proof -
  let ?t = "(strm (slot_at q y))\<lparr>ch_posts := [], linked_posts := []\<rparr>"
  let ?s = "mm_stream_data_notify e mem ?t"
  have "alike (strm (slot_at q y)) ?t" by (simp add: alike_def)
  then have "alike (strm (slot_at q y)) ?s" by (rule alike_trans) (rule data_notify_alike)
  then have "keeps {} {} y (upd_slot q (\<lambda>sl. sl\<lparr>strm := ?s\<rparr>) y)" by (rule alike_keeps)
  then show ?thesis using assms
    by (auto simp: frame_arrives_def Let_def split: option.splits intro: keeps_trans dest!: post_frames_keeps)
qed

lemma chan_step_ok:
  assumes ok: "chans_ok y" and link: "link_ok a y" and step: "chan_step venus a_family a y = Some z"
  shows "chans_ok z"
proof (cases a)
  case (AddChannel at cb)
  have "chans_ok (upd_ch c (\<lambda>_. mm_channel_init at cb (zero_channel\<lparr>c_hdl := h, c_state := s\<rparr>)) (y\<lparr>g_handler_history_count := g\<rparr>))" for c h s g
    by (rule chans_ok_upd) (simp_all add: same_but_count [of _ y] ok chan_ok_def slot_ok_def mm_channel_init_def zero_channel_def Let_def)
  then show ?thesis using step ok AddChannel
    by (auto simp: chan_step_def mm_camera_add_channel_def Let_def split: option.splits prod.splits)
next
  case (DelChannel e h)
  show ?thesis
  proof (cases "mm_camera_util_get_channel_by_handler h y")
    case (Some c)
    then obtain r w where w: "mm_channel_fsm_fn venus a_family e c MM_CHANNEL_EVT_DELETE y = Some (r, w)" "z = upd_ch c (\<lambda>_. zero_channel) w"
      using step DelChannel by (auto simp: chan_step_def mm_camera_del_channel_def)
    have "chans_ok w" by (rule fsm_ok [OF ok get_channel_range [OF Some] w(1)]) simp
    then show ?thesis unfolding w(2) by (rule chans_ok_upd) (simp add: chan_ok_def slot_ok_def zero_channel_def)
  qed (use step ok DelChannel in \<open>simp add: chan_step_def mm_camera_del_channel_def\<close>)
next
  case (Call e h evt)
  show ?thesis
  proof (cases "mm_camera_util_get_channel_by_handler h y")
    case (Some c)
    then obtain r where "mm_channel_fsm_fn venus a_family e c evt y = Some (r, z)"
      using step Call by (auto simp: chan_step_def chan_call_def)
    then show ?thesis by (rule fsm_ok [OF ok get_channel_range [OF Some]]) (use link Call in \<open>auto simp: link_ok_def split: option.splits\<close>)
  qed (use step ok Call in \<open>simp add: chan_step_def chan_call_def\<close>)
next
  case (Qbuf e h b)
  show ?thesis
  proof (cases "mm_camera_util_get_channel_by_handler h y")
    case (Some c)
    then have "z = snd (channel_qbuf venus a_family e c b y)" using step Qbuf by (simp add: chan_step_def mm_camera_qbuf_def)
    then show ?thesis using chans_ok_keeps [OF ok channel_qbuf_keeps] by simp
  qed (use step ok Qbuf in \<open>simp add: chan_step_def mm_camera_qbuf_def\<close>)
next
  case (FrameArrives e mem q)
  then show ?thesis using step chans_ok_keeps [OF ok frame_keeps] by (auto simp: chan_step_def)
next
  case (StreamRound e q)
  have "stream_round e q y = upd_slot q (\<lambda>sl. sl\<lparr>strm := stream_thread_round e (strm (slot_at q y))\<rparr>) y"
    unfolding stream_round_def upd_slot_const [of q "\<lambda>sl. sl\<lparr>strm := stream_thread_round e (strm sl)\<rparr>"]
    by (simp add: upd_slot_def upd_ch_def slot_at_def)
  then have z: "z = upd_slot q (\<lambda>sl. sl\<lparr>strm := stream_thread_round e (strm (slot_at q y))\<rparr>) y"
    using step StreamRound by (simp add: chan_step_def)
  show ?thesis unfolding z by (rule chans_ok_keeps [OF ok alike_keeps [OF thread_round_alike]])
next
  case (ChannelRound e c)
  have "keeps {} {} y (upd_ch c (\<lambda>ch. ch\<lparr>c_cmds := cmds\<rparr>) y)" for cmds by (rule keeps_upd_ch) simp_all
  then have "keeps {} {} y z" using step ChannelRound
    by (auto simp: chan_step_def channel_round_def intro: keeps_trans dest!: run_cmd_keeps split: list.splits)
  then show ?thesis by (rule chans_ok_keeps [OF ok])
next
  case (AddCallback n q)
  have same: "st_hdl (snd (mm_stream_reg_buf_cb n s)) = st_hdl s \<and> st_state (snd (mm_stream_reg_buf_cb n s)) = st_state s" for s
    by (simp add: mm_stream_reg_buf_cb_def split: option.split)
  have "keeps {} {} y (upd_slot q (\<lambda>sl. sl\<lparr>strm := snd (mm_stream_reg_buf_cb n (strm sl))\<rparr>) y)"
    by (intro keeps_upd_slot) (simp_all add: ident_def used_def same)
  then show ?thesis using step AddCallback chans_ok_keeps [OF ok] by (simp add: chan_step_def)
qed

lemma chan_run_ok:
  "chans_ok y \<Longrightarrow> links_ok venus a_family as y \<Longrightarrow> chan_run venus a_family as y = Some z \<Longrightarrow> chans_ok z"
  by (induction as arbitrary: y) (auto split: option.splits dest: chan_step_ok)

lemma camera_chans_ok: "chans_ok (camera_chans g)"
  by (simp add: chans_ok_def camera_chans_def chan_ok_def slot_ok_def zero_channel_def)

section \<open>Properties\<close>

text \<open>A run used as an example: a channel with a callback for super buffers, and one stream in it, configured.\<close>

declare drop_over.simps [code]

definition chan_env_with :: "stream_env \<Rightarrow> chan_env" where
  "chan_env_with e = \<lparr>e_slot = (\<lambda>_ _. e), e_cmd = (\<lambda>_. True), e_node = True, e_cbnode = (\<lambda>_. True), e_map = 0\<rparr>"

definition preview_config :: mm_camera_stream_config_t where
  "preview_config = \<lparr>cfg_info = stream_info (demo_layout CAM_STREAM_TYPE_PREVIEW CAM_FORMAT_YUV_420_NV21 (demo_dim 640 480)),
    cfg_num_bufs = 1, cfg_padding = padding_info (demo_layout CAM_STREAM_TYPE_PREVIEW CAM_FORMAT_YUV_420_NV21 (demo_dim 640 480)),
    cfg_cb = False\<rparr>"

definition one_stream :: "chan_action list" where
  "one_stream = [AddChannel None True, Call (chan_env_with open_env) 0x100 MM_CHANNEL_EVT_ADD_STREAM,
     Call (chan_env_with open_env) 0x100 (MM_CHANNEL_EVT_CONFIG_STREAM 0x200 preview_config)]"

text \<open>A start when the driver agrees to stream, and when it does not.\<close>

definition start_with :: "int \<Rightarrow> chan_action" where
  "start_with rc = Call (chan_env_with (open_env\<lparr>e_streamon := rc\<rparr>)) 0x100 MM_CHANNEL_EVT_START"

definition started_chans :: chan_sys where
  "started_chans = the (chan_run None False (one_stream @ [start_with 0]) (camera_chans 0))"

definition configured_chans :: chan_sys where
  "configured_chans = the (chan_run None False one_stream (camera_chans 0))"

lemma demo_runs:
  "chan_run None False one_stream (camera_chans 0) = Some configured_chans"
  "chan_run None False (one_stream @ [start_with 0]) (camera_chans 0) = Some started_chans"
proof -
  have "chan_run None False one_stream (camera_chans 0) \<noteq> None" by code_simp
  then show "chan_run None False one_stream (camera_chans 0) = Some configured_chans" by (auto simp: configured_chans_def)
  have "chan_run None False (one_stream @ [start_with 0]) (camera_chans 0) \<noteq> None" by code_simp
  then show "chan_run None False (one_stream @ [start_with 0]) (camera_chans 0) = Some started_chans"
    by (auto simp: started_chans_def)
qed

text \<open>
  C15. streams_follow_channel. In every run of a camera's channels the streams follow the state of the channel they
  belong to: in a stopped channel each is acquired or configured, without buffers and not streaming, and in an active
  one each streams (save one that is hidden by another with the same handle, which was never started). No answer of
  the kernel, the server or the client, no failed start, no event for another channel and no thread breaks this, as
  long as streams are linked only from the channel they belong to.
\<close>

theorem streams_follow_channel:
  assumes "links_ok venus a_family as (camera_chans g)" and "chan_run venus a_family as (camera_chans g) = Some y"
    and "in_range (c, i) y" and "used (slot_at (c, i) y)" and "own c (slot_at (c, i) y)"
  shows "case c_state (chs y ! c) of
      MM_CHANNEL_STATE_STOPPED \<Rightarrow> st y (c, i) \<in> {MM_STREAM_STATE_ACQUIRED, MM_STREAM_STATE_CFG}
    | MM_CHANNEL_STATE_ACTIVE \<Rightarrow>
        if find_slot (st_hdl (strm (slot_at (c, i) y))) (c_streams (chs y ! c)) = Some i then st y (c, i) = MM_STREAM_STATE_ACTIVE
        else st y (c, i) \<in> {MM_STREAM_STATE_ACQUIRED, MM_STREAM_STATE_CFG}
    | _ \<Rightarrow> True"
proof -
  have ok: "chans_ok y" by (rule chan_run_ok [OF camera_chans_ok assms(1,2)])
  have m: "mine y (c, i)" using assms(4,5) by (simp add: mine_def)
  show ?thesis
    using stopped_slots [OF ok _ assms(3) m] active_slots [OF ok _ assms(3) m]
    by (auto simp: found_def slot_at_def split: mm_channel_state_type_t.split if_splits)
qed

theorem streams_follow_channel_witness:
  "chan_run None False (one_stream @ [start_with 0]) (camera_chans 0) = Some started_chans \<and>
   c_state (chs started_chans ! 0) = MM_CHANNEL_STATE_ACTIVE \<and> st started_chans (0, 0) = MM_STREAM_STATE_ACTIVE"
proof -
  have links: "links_ok None False (one_stream @ [start_with 0]) (camera_chans 0)" by code_simp
  have slot: "in_range (0, 0) started_chans" "used (slot_at (0, 0) started_chans)" "own 0 (slot_at (0, 0) started_chans)"
    by code_simp+
  have act: "c_state (chs started_chans ! 0) = MM_CHANNEL_STATE_ACTIVE" by code_simp
  have found: "find_slot (st_hdl (strm (slot_at (0, 0) started_chans))) (c_streams (chs started_chans ! 0)) = Some 0"
    by code_simp
  show ?thesis using streams_follow_channel [OF links demo_runs(2) slot] demo_runs(2) act found by simp
qed




end
