(* ===== verification/MmInterface.thy ===== *)
theory MmInterface
  imports MmCamera
begin

text \<open>
  The interface of the camera library to the HAL (mm_camera_interface.c): the table of cameras, opening and closing
  by reference count, the operations of the vtable, each of which finds its camera by handle, and the sorting of
  the sensors.
\<close>

section \<open>The table of cameras\<close>

text \<open>A sensor faces back, front, or another way.\<close>

datatype facing_t = CAMERA_FACING_BACK | CAMERA_FACING_FRONT | CAMERA_FACING_OTHER

record sensor_t =
  facing :: facing_t
  orientation :: nat
  is_yuv :: bool
  video_dev_name :: string

record mm_camera_ctrl_t =
  num_cam :: nat
  cam_obj :: "mm_camera_obj_t option list"
  sensors :: "sensor_t list"
  g_count :: u16

definition mm_camera_util_get_dev_name :: "u32 \<Rightarrow> mm_camera_ctrl_t \<Rightarrow> string option" where
  "mm_camera_util_get_dev_name h y =
     (let i = unat (mm_camera_util_get_index_by_handler h)
      in if i < length (sensors y) then Some (video_dev_name (sensors y ! i)) else None)"

definition mm_camera_util_get_camera_by_handler :: "u32 \<Rightarrow> mm_camera_ctrl_t \<Rightarrow> nat option" where
  "mm_camera_util_get_camera_by_handler h y =
     (let i = unat (mm_camera_util_get_index_by_handler h)
      in if i < length (cam_obj y)
         then (case cam_obj y ! i of Some o1 \<Rightarrow> if h = cam_hdl o1 then Some i else None | None \<Rightarrow> None)
         else None)"

section \<open>Opening and closing a camera\<close>

text \<open>\<open>pip\<close> is the property that allows two cameras at the same time.\<close>

definition check_cam_access :: "bool \<Rightarrow> nat \<Rightarrow> mm_camera_ctrl_t \<Rightarrow> bool" where
  "check_cam_access pip i y =
     (if num_cam y = 2 \<and> i < 2
      then cam_obj y ! (1 - i) = None \<or> (pip \<and> (is_yuv (sensors y ! i) \<or> is_yuv (sensors y ! (1 - i))))
      else True)"

text \<open>The result is the handle of the camera, if it can be opened; \<open>alloc\<close> tells whether there is memory for it.\<close>

definition camera_open :: "cam_env \<Rightarrow> bool \<Rightarrow> u8 \<Rightarrow> mm_camera_ctrl_t \<Rightarrow> u32 option \<times> mm_camera_ctrl_t" where
  "camera_open e alloc idx y =
     (let i = unat idx
      in if num_cam y \<le> i then (None, y)
         else (case cam_obj y ! i of
                 Some o1 \<Rightarrow> (Some (cam_hdl o1), y\<lparr>cam_obj := (cam_obj y)[i := Some (o1\<lparr>ref_count := ref_count o1 + 1\<rparr>)]\<rparr>)
               | None \<Rightarrow>
                   if \<not> alloc then (None, y)
                   else let (h, g) = mm_camera_util_generate_handler idx (g_count y);
                            (rc, o1) = mm_camera_open e (mm_camera_util_get_dev_name h y \<noteq> None)
                                         (zero_camera\<lparr>ref_count := 1, cam_hdl := h\<rparr>)
                        in if rc \<noteq> 0 then (None, y\<lparr>g_count := g, cam_obj := (cam_obj y)[i := None]\<rparr>)
                           else (Some h, y\<lparr>g_count := g, cam_obj := (cam_obj y)[i := Some o1]\<rparr>)))"

definition mm_camera_intf_close :: "cam_env \<Rightarrow> u32 \<Rightarrow> mm_camera_ctrl_t \<Rightarrow> int \<times> mm_camera_ctrl_t" where
  "mm_camera_intf_close e h y = (case mm_camera_util_get_camera_by_handler h y of
     None \<Rightarrow> (-1, y)
   | Some k \<Rightarrow>
       let o1 = the (cam_obj y ! k); n = ref_count o1 - 1
       in if 0 < n then (0, y\<lparr>cam_obj := (cam_obj y)[k := Some (o1\<lparr>ref_count := n\<rparr>)]\<rparr>)
          else (fst (mm_camera_close e (o1\<lparr>ref_count := n\<rparr>)), y\<lparr>cam_obj := (cam_obj y)[k := None]\<rparr>))"

section \<open>The operations of the vtable\<close>

text \<open>Each finds the camera of its handle; for an unknown handle it gives its error value and does nothing.\<close>

definition with_camera ::
    "u32 \<Rightarrow> 'a \<Rightarrow> (nat \<Rightarrow> mm_camera_ctrl_t \<Rightarrow> ('a \<times> mm_camera_ctrl_t) option) \<Rightarrow> mm_camera_ctrl_t \<Rightarrow> ('a \<times> mm_camera_ctrl_t) option" where
  "with_camera h err f y = (case mm_camera_util_get_camera_by_handler h y of None \<Rightarrow> Some (err, y) | Some k \<Rightarrow> f k y)"

definition on_camera :: "(mm_camera_obj_t \<Rightarrow> 'a \<times> mm_camera_obj_t) \<Rightarrow> nat \<Rightarrow> mm_camera_ctrl_t \<Rightarrow> ('a \<times> mm_camera_ctrl_t) option" where
  "on_camera f k y = (let (r, o1) = f (the (cam_obj y ! k)) in Some (r, y\<lparr>cam_obj := (cam_obj y)[k := Some o1]\<rparr>))"

text \<open>An operation on the channels of the camera.\<close>

definition on_channels ::
    "(chan_sys \<Rightarrow> ('a \<times> chan_sys) option) \<Rightarrow> nat \<Rightarrow> mm_camera_ctrl_t \<Rightarrow> ('a \<times> mm_camera_ctrl_t) option" where
  "on_channels f k y =
     (let o1 = the (cam_obj y ! k)
      in map_option (\<lambda>(r, z). (r, y\<lparr>g_count := g_handler_history_count z, cam_obj := (cam_obj y)[k := Some (o1\<lparr>cam_ch := chs z\<rparr>)]\<rparr>))
           (f \<lparr>g_handler_history_count = g_count y, chs = cam_ch o1\<rparr>))"

definition mm_camera_intf_query_capability :: "int \<Rightarrow> u32 \<Rightarrow> mm_camera_ctrl_t \<Rightarrow> (int \<times> mm_camera_ctrl_t) option" where
  "mm_camera_intf_query_capability ioctl h = with_camera h (-1) (on_camera (Pair ioctl))"

definition mm_camera_intf_set_parms :: "int \<Rightarrow> u32 \<Rightarrow> bool \<Rightarrow> mm_camera_ctrl_t \<Rightarrow> (int \<times> mm_camera_ctrl_t) option" where
  "mm_camera_intf_set_parms ioctl h p = with_camera h (-1) (on_camera (Pair (mm_camera_set_parms ioctl p)))"

definition mm_camera_intf_get_parms :: "int \<Rightarrow> u32 \<Rightarrow> bool \<Rightarrow> mm_camera_ctrl_t \<Rightarrow> (int \<times> mm_camera_ctrl_t) option" where
  "mm_camera_intf_get_parms ioctl h p = with_camera h (-1) (on_camera (Pair (mm_camera_get_parms ioctl p)))"

definition mm_camera_intf_do_auto_focus :: "int \<Rightarrow> u32 \<Rightarrow> mm_camera_ctrl_t \<Rightarrow> (int \<times> mm_camera_ctrl_t) option" where
  "mm_camera_intf_do_auto_focus ioctl h = with_camera h (-1) (on_camera (Pair (mm_camera_util_s_ctrl ioctl)))"

definition mm_camera_intf_cancel_auto_focus :: "int \<Rightarrow> u32 \<Rightarrow> mm_camera_ctrl_t \<Rightarrow> (int \<times> mm_camera_ctrl_t) option" where
  "mm_camera_intf_cancel_auto_focus ioctl h = with_camera h (-1) (on_camera (Pair (mm_camera_util_s_ctrl ioctl)))"

definition mm_camera_intf_prepare_snapshot :: "int \<Rightarrow> u32 \<Rightarrow> mm_camera_ctrl_t \<Rightarrow> (int \<times> mm_camera_ctrl_t) option" where
  "mm_camera_intf_prepare_snapshot ioctl h = with_camera h (-1) (on_camera (Pair (mm_camera_util_s_ctrl ioctl)))"

definition mm_camera_intf_register_event_notify ::
    "u32 \<Rightarrow> bool \<Rightarrow> nat option \<Rightarrow> mm_camera_ctrl_t \<Rightarrow> (int \<times> mm_camera_ctrl_t) option" where
  "mm_camera_intf_register_event_notify h cb ud =
     with_camera h (-1) (on_camera (mm_camera_register_event_notify_internal cb ud))"

definition mm_camera_intf_map_buf ::
    "bool \<Rightarrow> int \<Rightarrow> kernel_event list \<Rightarrow> u32 \<Rightarrow> mm_camera_ctrl_t \<Rightarrow> (int \<times> mm_camera_ctrl_t) option" where
  "mm_camera_intf_map_buf mem sent ks h = with_camera h (-1) (on_camera (mm_camera_map_buf mem sent ks))"

definition mm_camera_intf_unmap_buf ::
    "bool \<Rightarrow> int \<Rightarrow> kernel_event list \<Rightarrow> u32 \<Rightarrow> mm_camera_ctrl_t \<Rightarrow> (int \<times> mm_camera_ctrl_t) option" where
  "mm_camera_intf_unmap_buf mem sent ks h = with_camera h (-1) (on_camera (mm_camera_unmap_buf mem sent ks))"

definition mm_camera_intf_add_channel ::
    "u32 \<Rightarrow> mm_camera_channel_attr_t option \<Rightarrow> bool \<Rightarrow> mm_camera_ctrl_t \<Rightarrow> (u32 \<times> mm_camera_ctrl_t) option" where
  "mm_camera_intf_add_channel h a cb = with_camera h 0 (on_channels (Some \<circ> mm_camera_add_channel a cb))"

definition mm_camera_intf_del_channel ::
    "venus_macros option \<Rightarrow> bool \<Rightarrow> chan_env \<Rightarrow> u32 \<Rightarrow> u32 \<Rightarrow> mm_camera_ctrl_t \<Rightarrow> (int \<times> mm_camera_ctrl_t) option" where
  "mm_camera_intf_del_channel venus a_family e h c =
     with_camera h (-1) (on_channels (mm_camera_del_channel venus a_family e c))"

definition mm_camera_intf_get_bundle_info ::
    "venus_macros option \<Rightarrow> bool \<Rightarrow> chan_env \<Rightarrow> u32 \<Rightarrow> u32 \<Rightarrow> mm_camera_ctrl_t \<Rightarrow> ((int \<times> u32 list) \<times> mm_camera_ctrl_t) option" where
  "mm_camera_intf_get_bundle_info venus a_family e h c =
     with_camera h (-1, []) (on_channels (mm_camera_get_bundle_info venus a_family e c))"

definition mm_camera_intf_qbuf ::
    "venus_macros option \<Rightarrow> bool \<Rightarrow> chan_env \<Rightarrow> u32 \<Rightarrow> u32 \<Rightarrow> mm_camera_buf_def_t \<Rightarrow> mm_camera_ctrl_t \<Rightarrow> (int \<times> mm_camera_ctrl_t) option" where
  "mm_camera_intf_qbuf venus a_family e h c b =
     with_camera h (-1) (on_channels (mm_camera_qbuf venus a_family e c b))"

definition mm_camera_intf_get_queued_buf_count ::
    "venus_macros option \<Rightarrow> bool \<Rightarrow> chan_env \<Rightarrow> u32 \<Rightarrow> u32 \<Rightarrow> u32 \<Rightarrow> mm_camera_ctrl_t \<Rightarrow> (int \<times> mm_camera_ctrl_t) option" where
  "mm_camera_intf_get_queued_buf_count venus a_family e h c s =
     with_camera h (-1) (on_channels (mm_camera_get_queued_buf_count venus a_family e c s))"

definition mm_camera_intf_link_stream ::
    "venus_macros option \<Rightarrow> bool \<Rightarrow> chan_env \<Rightarrow> u32 \<Rightarrow> u32 \<Rightarrow> u32 \<Rightarrow> u32 \<Rightarrow> mm_camera_ctrl_t \<Rightarrow> (u32 \<times> mm_camera_ctrl_t) option" where
  "mm_camera_intf_link_stream venus a_family e h c s linked =
     with_camera h 0 (on_channels (mm_camera_link_stream venus a_family e c s linked))"

definition mm_camera_intf_add_stream ::
    "venus_macros option \<Rightarrow> bool \<Rightarrow> chan_env \<Rightarrow> u32 \<Rightarrow> u32 \<Rightarrow> mm_camera_ctrl_t \<Rightarrow> (u32 \<times> mm_camera_ctrl_t) option" where
  "mm_camera_intf_add_stream venus a_family e h c =
     with_camera h 0 (on_channels (mm_camera_add_stream venus a_family e c))"

definition mm_camera_intf_del_stream ::
    "venus_macros option \<Rightarrow> bool \<Rightarrow> chan_env \<Rightarrow> u32 \<Rightarrow> u32 \<Rightarrow> u32 \<Rightarrow> mm_camera_ctrl_t \<Rightarrow> (int \<times> mm_camera_ctrl_t) option" where
  "mm_camera_intf_del_stream venus a_family e h c s =
     with_camera h (-1) (on_channels (mm_camera_del_stream venus a_family e c s))"

definition mm_camera_intf_config_stream ::
    "venus_macros option \<Rightarrow> bool \<Rightarrow> chan_env \<Rightarrow> u32 \<Rightarrow> u32 \<Rightarrow> u32 \<Rightarrow> mm_camera_stream_config_t \<Rightarrow> mm_camera_ctrl_t \<Rightarrow> (int \<times> mm_camera_ctrl_t) option" where
  "mm_camera_intf_config_stream venus a_family e h c s cfg =
     with_camera h (-1) (on_channels (mm_camera_config_stream venus a_family e c s cfg))"

definition mm_camera_intf_start_channel ::
    "venus_macros option \<Rightarrow> bool \<Rightarrow> chan_env \<Rightarrow> u32 \<Rightarrow> u32 \<Rightarrow> mm_camera_ctrl_t \<Rightarrow> (int \<times> mm_camera_ctrl_t) option" where
  "mm_camera_intf_start_channel venus a_family e h c =
     with_camera h (-1) (on_channels (mm_camera_start_channel venus a_family e c))"

definition mm_camera_intf_stop_channel ::
    "venus_macros option \<Rightarrow> bool \<Rightarrow> chan_env \<Rightarrow> u32 \<Rightarrow> u32 \<Rightarrow> mm_camera_ctrl_t \<Rightarrow> (int \<times> mm_camera_ctrl_t) option" where
  "mm_camera_intf_stop_channel venus a_family e h c =
     with_camera h (-1) (on_channels (mm_camera_stop_channel venus a_family e c))"

definition mm_camera_intf_request_super_buf ::
    "venus_macros option \<Rightarrow> bool \<Rightarrow> chan_env \<Rightarrow> u32 \<Rightarrow> u32 \<Rightarrow> u32 \<Rightarrow> mm_camera_ctrl_t \<Rightarrow> (int \<times> mm_camera_ctrl_t) option" where
  "mm_camera_intf_request_super_buf venus a_family e h c n =
     with_camera h (-1) (on_channels (mm_camera_request_super_buf venus a_family e c n))"

definition mm_camera_intf_cancel_super_buf_request ::
    "venus_macros option \<Rightarrow> bool \<Rightarrow> chan_env \<Rightarrow> u32 \<Rightarrow> u32 \<Rightarrow> mm_camera_ctrl_t \<Rightarrow> (int \<times> mm_camera_ctrl_t) option" where
  "mm_camera_intf_cancel_super_buf_request venus a_family e h c =
     with_camera h (-1) (on_channels (mm_camera_cancel_super_buf_request venus a_family e c))"

definition mm_camera_intf_flush_super_buf_queue ::
    "venus_macros option \<Rightarrow> bool \<Rightarrow> chan_env \<Rightarrow> u32 \<Rightarrow> u32 \<Rightarrow> u32 \<Rightarrow> mm_camera_ctrl_t \<Rightarrow> (int \<times> mm_camera_ctrl_t) option" where
  "mm_camera_intf_flush_super_buf_queue venus a_family e h c f =
     with_camera h (-1) (on_channels (mm_camera_flush_super_buf_queue venus a_family e c f))"

definition mm_camera_intf_start_zsl_snapshot ::
    "venus_macros option \<Rightarrow> bool \<Rightarrow> chan_env \<Rightarrow> u32 \<Rightarrow> u32 \<Rightarrow> mm_camera_ctrl_t \<Rightarrow> (int \<times> mm_camera_ctrl_t) option" where
  "mm_camera_intf_start_zsl_snapshot venus a_family e h c =
     with_camera h (-1) (on_channels (mm_camera_start_zsl_snapshot_ch venus a_family e c))"

definition mm_camera_intf_stop_zsl_snapshot ::
    "venus_macros option \<Rightarrow> bool \<Rightarrow> chan_env \<Rightarrow> u32 \<Rightarrow> u32 \<Rightarrow> mm_camera_ctrl_t \<Rightarrow> (int \<times> mm_camera_ctrl_t) option" where
  "mm_camera_intf_stop_zsl_snapshot venus a_family e h c =
     with_camera h (-1) (on_channels (mm_camera_stop_zsl_snapshot_ch venus a_family e c))"

definition mm_camera_intf_configure_notify_mode ::
    "venus_macros option \<Rightarrow> bool \<Rightarrow> chan_env \<Rightarrow> u32 \<Rightarrow> u32 \<Rightarrow> mm_camera_super_buf_notify_mode_t \<Rightarrow> mm_camera_ctrl_t \<Rightarrow> (int \<times> mm_camera_ctrl_t) option" where
  "mm_camera_intf_configure_notify_mode venus a_family e h c m =
     with_camera h (-1) (on_channels (mm_camera_config_channel_notify venus a_family e c m))"

definition mm_camera_intf_set_stream_parms ::
    "venus_macros option \<Rightarrow> bool \<Rightarrow> chan_env \<Rightarrow> u32 \<Rightarrow> u32 \<Rightarrow> u32 \<Rightarrow> bool \<Rightarrow> mm_camera_ctrl_t \<Rightarrow> (int \<times> mm_camera_ctrl_t) option" where
  "mm_camera_intf_set_stream_parms venus a_family e h c s p =
     with_camera h (-1) (on_channels (mm_camera_set_stream_parms venus a_family e c s p))"

definition mm_camera_intf_get_stream_parms ::
    "venus_macros option \<Rightarrow> bool \<Rightarrow> chan_env \<Rightarrow> u32 \<Rightarrow> u32 \<Rightarrow> u32 \<Rightarrow> bool \<Rightarrow> mm_camera_ctrl_t \<Rightarrow> (int \<times> mm_camera_ctrl_t) option" where
  "mm_camera_intf_get_stream_parms venus a_family e h c s p =
     with_camera h (-1) (on_channels (mm_camera_get_stream_parms venus a_family e c s p))"

definition mm_camera_intf_map_stream_buf ::
    "venus_macros option \<Rightarrow> bool \<Rightarrow> chan_env \<Rightarrow> u32 \<Rightarrow> u32 \<Rightarrow> u32 \<Rightarrow> bool \<Rightarrow> mm_camera_ctrl_t \<Rightarrow> (int \<times> mm_camera_ctrl_t) option" where
  "mm_camera_intf_map_stream_buf venus a_family e h c s off =
     with_camera h (-1) (on_channels (mm_camera_map_stream_buf venus a_family e c s off))"

definition mm_camera_intf_unmap_stream_buf ::
    "venus_macros option \<Rightarrow> bool \<Rightarrow> chan_env \<Rightarrow> u32 \<Rightarrow> u32 \<Rightarrow> u32 \<Rightarrow> bool \<Rightarrow> mm_camera_ctrl_t \<Rightarrow> (int \<times> mm_camera_ctrl_t) option" where
  "mm_camera_intf_unmap_stream_buf venus a_family e h c s off =
     with_camera h (-1) (on_channels (mm_camera_unmap_stream_buf venus a_family e c s off))"

definition mm_camera_intf_process_advanced_capture ::
    "venus_macros option \<Rightarrow> bool \<Rightarrow> chan_env \<Rightarrow> u32 \<Rightarrow> mm_camera_advanced_capture_t \<Rightarrow> u32 \<Rightarrow> bool \<Rightarrow> mm_camera_ctrl_t \<Rightarrow> (int \<times> mm_camera_ctrl_t) option" where
  "mm_camera_intf_process_advanced_capture venus a_family e h t c start =
     with_camera h (-1) (on_channels (mm_camera_channel_advanced_capture venus a_family e t c start))"

section \<open>The order of the sensors\<close>

definition zero_sensor :: sensor_t where
  "zero_sensor = \<lparr>facing = CAMERA_FACING_BACK, orientation = 0, is_yuv = False, video_dev_name = []\<rparr>"

text \<open>Cameras at the back first, then those at the front; nothing moves when there is another kind.\<close>

definition sort_camera_info :: "nat \<Rightarrow> mm_camera_ctrl_t \<Rightarrow> mm_camera_ctrl_t" where
  "sort_camera_info n y =
     (let cams = take n (sensors y);
          found = filter (\<lambda>s. facing s = CAMERA_FACING_BACK) cams @ filter (\<lambda>s. facing s = CAMERA_FACING_FRONT) cams
      in if length found = n then y\<lparr>sensors := found @ replicate (length (sensors y) - n) zero_sensor\<rparr> else y)"

end
