(* ===== verification/MmInterfaceProps.thy ===== *)
theory MmInterfaceProps
  imports MmInterface "HOL-Library.Multiset"
begin

text \<open>
  What holds of the interface: a camera is there exactly while its opens outnumber its closes, the sensors are sorted
  stably, and what a reply that comes too late does to the next request.
\<close>

section \<open>Cameras are shared by count\<close>

text \<open>
  What the HAL and the driver do to the table of cameras. An operation on channels is any function on the channels of
  the camera, and so covers all of those of the vtable.
\<close>

datatype intf_action =
    Open cam_env bool u8
  | Close cam_env u32
  | Register u32 bool "nat option"
  | Message bool int "kernel_event list" u32
  | KernelEvent bool kernel_event nat
  | EventThread nat
  | OnChannels "chan_sys \<Rightarrow> (int \<times> chan_sys) option" u32

text \<open>One step, with the holders of each camera: an open that gives a handle is one more, a close that succeeds one less.\<close>

definition intf_step :: "intf_action \<Rightarrow> (nat \<Rightarrow> int) \<times> mm_camera_ctrl_t \<Rightarrow> ((nat \<Rightarrow> int) \<times> mm_camera_ctrl_t) option" where
  "intf_step a x = (let (held, y) = x in case a of
     Open e alloc idx \<Rightarrow>
       let (r, y1) = camera_open e alloc idx y
       in Some (if r \<noteq> None then held(unat idx := held (unat idx) + 1) else held, y1)
   | Close e h \<Rightarrow>
       let (rc, y1) = mm_camera_intf_close e h y; k = unat (mm_camera_util_get_index_by_handler h)
       in Some (if rc = 0 then held(k := held k - 1) else held, y1)
   | Register h cb ud \<Rightarrow> map_option (Pair held \<circ> snd) (mm_camera_intf_register_event_notify h cb ud y)
   | Message mem sent ks h \<Rightarrow> map_option (Pair held \<circ> snd) (mm_camera_intf_map_buf mem sent ks h y)
   | KernelEvent mem ev k \<Rightarrow> Some (held, if k < length (cam_obj y)
       then y\<lparr>cam_obj := (cam_obj y)[k := map_option (mm_camera_event_notify mem ev) (cam_obj y ! k)]\<rparr> else y)
   | EventThread k \<Rightarrow> Some (held, if k < length (cam_obj y)
       then y\<lparr>cam_obj := (cam_obj y)[k := map_option evt_thread_round (cam_obj y ! k)]\<rparr> else y)
   | OnChannels f h \<Rightarrow> map_option (Pair held \<circ> snd) (with_camera h (-1) (on_channels f) y))"

fun intf_run :: "intf_action list \<Rightarrow> (nat \<Rightarrow> int) \<times> mm_camera_ctrl_t \<Rightarrow> ((nat \<Rightarrow> int) \<times> mm_camera_ctrl_t) option" where
  "intf_run [] x = Some x"
| "intf_run (a # as) x = (case intf_step a x of None \<Rightarrow> None | Some z \<Rightarrow> intf_run as z)"

text \<open>The table before the first open: \<open>n\<close> cameras are there, in tables with room for more.\<close>

definition no_cameras :: "nat \<Rightarrow> sensor_t list \<Rightarrow> u16 \<Rightarrow> mm_camera_ctrl_t" where
  "no_cameras n ss g = \<lparr>num_cam = n, cam_obj = replicate (length ss) None, sensors = ss, g_count = g\<rparr>"

definition camera_held :: "nat \<Rightarrow> int \<Rightarrow> mm_camera_obj_t option \<Rightarrow> bool" where
  "camera_held k held x \<longleftrightarrow> (case x of
     None \<Rightarrow> held = 0
   | Some o1 \<Rightarrow> 0 < held \<and> ref_count o1 = held \<and> 0 < ctrl_fd o1 \<and> 0 < ds_fd o1 \<and>
       unat (mm_camera_util_get_index_by_handler (cam_hdl o1)) = k)"

definition table_ok :: "(nat \<Rightarrow> int) \<times> mm_camera_ctrl_t \<Rightarrow> bool" where
  "table_ok x \<longleftrightarrow> num_cam (snd x) \<le> length (cam_obj (snd x)) \<and> length (sensors (snd x)) = length (cam_obj (snd x)) \<and>
     (\<forall>k < length (cam_obj (snd x)). camera_held k (fst x k) (cam_obj (snd x) ! k))"

text \<open>What the operations on a camera object leave alone.\<close>

definition same_camera :: "mm_camera_obj_t \<Rightarrow> mm_camera_obj_t \<Rightarrow> bool" where
  "same_camera a b \<longleftrightarrow> cam_hdl b = cam_hdl a \<and> ref_count b = ref_count a \<and> ctrl_fd b = ctrl_fd a \<and> ds_fd b = ds_fd a"

lemma same_camera_trans: "same_camera a b \<Longrightarrow> same_camera b c \<Longrightarrow> same_camera a c"
  by (simp add: same_camera_def)

lemma event_notify_same: "same_camera o1 (mm_camera_event_notify mem ev o1)"
  by (cases ev) (simp_all add: same_camera_def mm_camera_event_notify_def mm_camera_enqueue_evt_def)

lemma wait_same: "same_camera o1 (wait_loop mem wanted ks o1)"
proof (induction ks arbitrary: o1)
  case (Cons k ks)
  have "same_camera o1 (wait_loop mem wanted ks (mm_camera_event_notify mem k o1))"
    by (rule same_camera_trans [OF event_notify_same Cons.IH])
  then show ?case by (simp add: same_camera_def)
qed (simp add: same_camera_def)

lemma sendmsg_same: "same_camera o1 (snd (mm_camera_util_sendmsg mem sent ks o1))"
  using wait_same [of o1 mem CAM_EVENT_TYPE_MAP_UNMAP_DONE ks]
  by (simp add: mm_camera_util_sendmsg_def mm_camera_util_wait_for_event_def Let_def same_camera_def)

lemma register_same: "same_camera o1 (snd (mm_camera_register_event_notify_internal cb ud o1))"
  by (auto simp: mm_camera_register_event_notify_internal_def Let_def same_camera_def split: option.split)

lemma thread_same: "same_camera o1 (evt_thread_round o1)"
  by (simp add: evt_thread_round_def mm_camera_dispatch_app_event_def same_camera_def split: list.split)

lemma camera_held_same: "same_camera a b \<Longrightarrow> camera_held k n (Some a) \<Longrightarrow> camera_held k n (Some b)"
  by (simp add: same_camera_def camera_held_def)

lemma table_ok_upd:
  assumes "table_ok (held, y)" and "k < length (cam_obj y) \<Longrightarrow> camera_held k n x"
  shows "table_ok (held(k := n), y\<lparr>g_count := g, cam_obj := (cam_obj y)[k := x]\<rparr>)"
  using assms by (auto simp: table_ok_def nth_list_update)

lemma table_ok_same:
  assumes "table_ok (held, y)" and "k < length (cam_obj y) \<Longrightarrow> camera_held k (held k) x"
  shows "table_ok (held, y\<lparr>g_count := g, cam_obj := (cam_obj y)[k := x]\<rparr>)"
  using table_ok_upd [OF assms] by simp

lemma get_camera: "mm_camera_util_get_camera_by_handler h y = Some k \<Longrightarrow>
  k < length (cam_obj y) \<and> k = unat (mm_camera_util_get_index_by_handler h) \<and> (\<exists>o1. cam_obj y ! k = Some o1 \<and> h = cam_hdl o1)"
  by (auto simp: mm_camera_util_get_camera_by_handler_def Let_def split: if_splits option.splits)

lemma opened:
  assumes "mm_camera_open e dev (zero_camera\<lparr>ref_count := 1, cam_hdl := h\<rparr>) = (0, o1)"
  shows "cam_hdl o1 = h \<and> ref_count o1 = 1 \<and> 0 < ctrl_fd o1 \<and> 0 < ds_fd o1"
  using assms by (auto simp: mm_camera_open_def mm_camera_evt_sub_def Let_def split: if_splits)

lemma open_ok:
  assumes ok: "table_ok (held, y)" and r: "camera_open e alloc idx y = (r, z)"
  shows "table_ok (if r \<noteq> None then held(unat idx := held (unat idx) + 1) else held, z)"
proof (cases "num_cam y \<le> unat idx")
  case False
  let ?i = "unat idx"
  have i: "?i < length (cam_obj y)" using ok False by (simp add: table_ok_def)
  then have held: "camera_held ?i (held ?i) (cam_obj y ! ?i)" using ok by (simp add: table_ok_def)
  show ?thesis
  proof (cases "cam_obj y ! ?i")
    case (Some o1)
    then have "camera_held ?i (held ?i + 1) (Some (o1\<lparr>ref_count := ref_count o1 + 1\<rparr>))" using held by (simp add: camera_held_def)
    then have "table_ok (held(?i := held ?i + 1), y\<lparr>g_count := g_count y, cam_obj := (cam_obj y)[?i := Some (o1\<lparr>ref_count := ref_count o1 + 1\<rparr>)]\<rparr>)"
      by (rule table_ok_upd [OF ok])
    then show ?thesis using r False Some by (auto simp: camera_open_def Let_def)
  next
    case None
    then have h0: "held ?i = 0" using held by (simp add: camera_held_def)
    obtain h g where h: "mm_camera_util_generate_handler idx (g_count y) = (h, g)" by (rule prod.exhaust)
    obtain rc o1 where o1: "mm_camera_open e (mm_camera_util_get_dev_name h y \<noteq> None) (zero_camera\<lparr>ref_count := 1, cam_hdl := h\<rparr>) = (rc, o1)"
      by (rule prod.exhaust)
    have "camera_held ?i 1 (Some o1)" if "rc = 0"
      using opened [of e "mm_camera_util_get_dev_name h y \<noteq> None" h o1] o1 that handle_index [OF h] by (simp add: camera_held_def)
    then have "table_ok (held(?i := held ?i + 1), y\<lparr>g_count := g, cam_obj := (cam_obj y)[?i := Some o1]\<rparr>)" if "rc = 0"
      using table_ok_upd [OF ok, of ?i 1 "Some o1" g] that h0 by simp
    moreover have "table_ok (held, y\<lparr>g_count := g, cam_obj := (cam_obj y)[?i := None]\<rparr>)"
      using table_ok_same [OF ok, of ?i None g] h0 by (simp add: camera_held_def)
    ultimately show ?thesis using r False None h o1 ok by (auto simp: camera_open_def Let_def split: if_splits)
  qed
qed (use r ok in \<open>simp add: camera_open_def Let_def\<close>)

lemma close_ok:
  assumes ok: "table_ok (held, y)" and r: "mm_camera_intf_close e h y = (rc, z)"
  shows "table_ok (if rc = 0 then held(unat (mm_camera_util_get_index_by_handler h) :=
    held (unat (mm_camera_util_get_index_by_handler h)) - 1) else held, z)"
proof (cases "mm_camera_util_get_camera_by_handler h y")
  case (Some k)
  then obtain o1 where k: "k < length (cam_obj y)" "k = unat (mm_camera_util_get_index_by_handler h)" "cam_obj y ! k = Some o1"
    using get_camera by blast
  then have held: "camera_held k (held k) (Some o1)" using ok by (auto simp: table_ok_def)
  let ?n = "ref_count o1 - 1"
  let ?x = "if 0 < ?n then Some (o1\<lparr>ref_count := ?n\<rparr>) else None"
  have "camera_held k (held k - 1) ?x" using held by (auto simp: camera_held_def)
  then have "table_ok (held(k := held k - 1), y\<lparr>g_count := g_count y, cam_obj := (cam_obj y)[k := ?x]\<rparr>)"
    by (rule table_ok_upd [OF ok])
  then show ?thesis using r Some k by (auto simp: mm_camera_intf_close_def mm_camera_close_def Let_def split: if_splits)
qed (use r ok in \<open>auto simp: mm_camera_intf_close_def\<close>)

lemma on_camera_ok:
  assumes ok: "table_ok (held, y)" and f: "\<And>o1. same_camera o1 (snd (f o1))"
    and r: "with_camera h err (on_camera f) y = Some (x, z)"
  shows "table_ok (held, z)"
proof (cases "mm_camera_util_get_camera_by_handler h y")
  case (Some k)
  then obtain o1 where k: "k < length (cam_obj y)" "cam_obj y ! k = Some o1" using get_camera by blast
  then have "camera_held k (held k) (Some (snd (f o1)))" using ok camera_held_same [OF f] by (auto simp: table_ok_def)
  then have "table_ok (held, y\<lparr>g_count := g_count y, cam_obj := (cam_obj y)[k := Some (snd (f o1))]\<rparr>)"
    by (rule table_ok_same [OF ok])
  then show ?thesis using r Some k by (auto simp: with_camera_def on_camera_def split: prod.splits)
qed (use r ok in \<open>simp add: with_camera_def\<close>)

lemma on_channels_ok:
  assumes ok: "table_ok (held, y)" and r: "with_camera h err (on_channels f) y = Some (x, z)"
  shows "table_ok (held, z)"
proof (cases "mm_camera_util_get_camera_by_handler h y")
  case (Some k)
  then obtain o1 where k: "k < length (cam_obj y)" "cam_obj y ! k = Some o1" using get_camera by blast
  then have "camera_held k (held k) (Some (o1\<lparr>cam_ch := cs\<rparr>))" for cs using ok by (auto simp: table_ok_def camera_held_def)
  then have "table_ok (held, y\<lparr>g_count := g, cam_obj := (cam_obj y)[k := Some (o1\<lparr>cam_ch := cs\<rparr>)]\<rparr>)" for g cs
    by (rule table_ok_same [OF ok])
  then show ?thesis using r Some k by (auto simp: with_camera_def on_channels_def Let_def)
qed (use r ok in \<open>simp add: with_camera_def\<close>)

lemma thread_ok:
  assumes ok: "table_ok (held, y)" and f: "\<And>o1. same_camera o1 (f o1)"
  shows "table_ok (held, if k < length (cam_obj y) then y\<lparr>cam_obj := (cam_obj y)[k := map_option f (cam_obj y ! k)]\<rparr> else y)"
proof (cases "k < length (cam_obj y)")
  case True
  then have "camera_held k (held k) (cam_obj y ! k)" using ok by (simp add: table_ok_def)
  then have "camera_held k (held k) (map_option f (cam_obj y ! k))"
    using camera_held_same [OF f] by (cases "cam_obj y ! k") (simp_all add: camera_held_def)
  then have "table_ok (held, y\<lparr>g_count := g_count y, cam_obj := (cam_obj y)[k := map_option f (cam_obj y ! k)]\<rparr>)"
    by (rule table_ok_same [OF ok])
  then show ?thesis using True by simp
qed (use ok in simp)

lemma intf_step_ok:
  assumes ok: "table_ok (held, y)" and step: "intf_step a (held, y) = Some z"
  shows "table_ok z"
proof (cases a)
  case (Open e alloc idx)
  then show ?thesis using step open_ok [OF ok] by (auto simp: intf_step_def Let_def split: prod.splits)
next
  case (Close e h)
  then show ?thesis using step close_ok [OF ok] by (auto simp: intf_step_def Let_def split: prod.splits)
next
  case (Register h cb ud)
  then show ?thesis using step on_camera_ok [OF ok register_same]
    by (auto simp: intf_step_def mm_camera_intf_register_event_notify_def)
next
  case (Message mem sent ks h)
  then show ?thesis using step on_camera_ok [OF ok sendmsg_same]
    by (auto simp: intf_step_def mm_camera_intf_map_buf_def mm_camera_map_buf_def)
next
  case (KernelEvent mem ev k)
  then show ?thesis using step thread_ok [OF ok, of "mm_camera_event_notify mem ev" k] event_notify_same by (auto simp: intf_step_def)
next
  case (EventThread k)
  then show ?thesis using step thread_ok [OF ok, of evt_thread_round k] thread_same by (auto simp: intf_step_def)
next
  case (OnChannels f h)
  then show ?thesis using step on_channels_ok [OF ok] by (auto simp: intf_step_def)
qed

lemma intf_run_ok: "table_ok x \<Longrightarrow> intf_run as x = Some z \<Longrightarrow> table_ok z"
  by (induction as arbitrary: x) (auto split: option.splits dest: intf_step_ok)

lemma intf_step_length:
  assumes "intf_step a (held, y) = Some (held', z)"
  shows "length (cam_obj z) = length (cam_obj y)"
  using assms
  by (cases a) (auto simp: intf_step_def camera_open_def mm_camera_intf_close_def with_camera_def on_camera_def on_channels_def Let_def
      mm_camera_intf_register_event_notify_def mm_camera_intf_map_buf_def split: prod.splits option.splits if_splits)

lemma run_length: "intf_run as (held, y) = Some (held', z) \<Longrightarrow> length (cam_obj z) = length (cam_obj y)"
  by (induction as arbitrary: held y) (auto split: option.splits dest: intf_step_length)

text \<open>
  C17. cameras_counted. Whatever is done through the interface, a camera is there exactly while more handles to it were
  opened than closed: then its count is that number, its two descriptors are open, and the index in its handle is its
  place in the table. The last close takes it away, and a failed open leaves nothing behind.
\<close>

theorem cameras_counted:
  assumes "n \<le> length ss" and "intf_run as (\<lambda>_. 0, no_cameras n ss g) = Some (held, y)" and "k < length ss"
  shows "case cam_obj y ! k of
      None \<Rightarrow> held k = 0
    | Some o1 \<Rightarrow> 0 < held k \<and> ref_count o1 = held k \<and> 0 < ctrl_fd o1 \<and> 0 < ds_fd o1 \<and>
        unat (mm_camera_util_get_index_by_handler (cam_hdl o1)) = k"
proof -
  have "table_ok (\<lambda>_. 0, no_cameras n ss g)" using assms(1) by (simp add: table_ok_def no_cameras_def camera_held_def)
  then have "table_ok (held, y)" by (rule intf_run_ok [OF _ assms(2)])
  moreover have "length (cam_obj y) = length ss" using run_length [OF assms(2)] by (simp add: no_cameras_def)
  ultimately show ?thesis using assms(3) by (simp add: table_ok_def camera_held_def)
qed

definition demo_sensor :: "facing_t \<Rightarrow> nat \<Rightarrow> sensor_t" where
  "demo_sensor f n = \<lparr>facing = f, orientation = n, is_yuv = False, video_dev_name = ''video''\<rparr>"

definition demo_cam_env :: cam_env where
  "demo_cam_env = \<lparr>e_ctrl_open = (\<lambda>n. if n = 19 then (-1, True) else (7, False)), e_ds_open = (\<lambda>_. 8), e_ioctl = 0, e_mem = True\<rparr>"

definition demo_sensors :: "sensor_t list" where
  "demo_sensors = [demo_sensor CAMERA_FACING_FRONT 1, demo_sensor CAMERA_FACING_BACK 2, demo_sensor CAMERA_FACING_FRONT 3]"

theorem cameras_counted_witness:
  "map_option (\<lambda>(held, y). (held 0, held 1, cam_obj y ! 0 = None, map_option ref_count (cam_obj y ! 1)))
     (intf_run [Open demo_cam_env True 1, Open demo_cam_env True 0, Open demo_cam_env True 1, Close demo_cam_env 0x200]
       (\<lambda>_. 0, no_cameras 2 demo_sensors 0)) = Some (0, 2, True, Some 2)"
proof -
  let ?as = "[Open demo_cam_env True 1, Open demo_cam_env True 0, Open demo_cam_env True 1, Close demo_cam_env 0x200]"
  have n: "2 \<le> length demo_sensors" "0 < length demo_sensors" "1 < length demo_sensors" by (simp_all add: demo_sensors_def)
  have r: "map_option (\<lambda>(held, y). (held 0, held 1, cam_obj y ! 1 = None)) (intf_run ?as (\<lambda>_. 0, no_cameras 2 demo_sensors 0)) = Some (0, 2, False)"
    by code_simp
  then obtain held y where run: "intf_run ?as (\<lambda>_. 0, no_cameras 2 demo_sensors 0) = Some (held, y)"
    and held: "held 0 = 0" "held 1 = 2" "cam_obj y ! 1 \<noteq> None" by auto
  show ?thesis using cameras_counted [OF n(1) run n(2)] cameras_counted [OF n(1) run n(3)] run held
    by (auto split: option.splits)
qed

section \<open>Replies that come late\<close>

text \<open>An event that is not the reply to a message.\<close>

definition no_reply :: "kernel_event \<Rightarrow> bool" where
  "no_reply k = (case k of K_MAP_UNMAP_DONE _ \<Rightarrow> False | _ \<Rightarrow> True)"

lemma no_reply_rcvd: "no_reply k \<Longrightarrow> evt_rcvd (mm_camera_event_notify mem k o1) = evt_rcvd o1"
  by (cases k) (simp_all add: no_reply_def mm_camera_event_notify_def mm_camera_enqueue_evt_def)

lemma wait_no_reply:
  "list_all no_reply ks \<Longrightarrow> server_event_type (evt_rcvd o1) AND wanted = 0 \<Longrightarrow> \<not> status_ok (evt_rcvd (wait_loop mem wanted ks o1))"
  by (induction ks arbitrary: o1) (simp_all add: no_reply_rcvd)

lemma wait_stored: "server_event_type (evt_rcvd o1) AND wanted \<noteq> 0 \<Longrightarrow> wait_loop mem wanted ks o1 = o1"
  by (cases ks) simp_all

text \<open>
  C35. late_reply_answers_next. The reply to a request that timed out is stored when it comes, and taken for the answer
  to the next request, which returns its status at once, whatever the server answers to it (the events \<open>ks2\<close>).
\<close>

theorem late_reply_answers_next:
  assumes "evt_rcvd o1 = zero_event" and "list_all no_reply ks1" and "0 < sent1" and "0 < sent2"
  shows "fst (mm_camera_map_buf mem sent1 ks1 o1) = -1 \<and>
    fst (mm_camera_unmap_buf mem sent2 ks2
      (mm_camera_event_notify mem (K_MAP_UNMAP_DONE ok) (snd (mm_camera_map_buf mem sent1 ks1 o1)))) = (if ok then 0 else -1)"
proof -
  let ?o2 = "snd (mm_camera_map_buf mem sent1 ks1 o1)"
  let ?o3 = "mm_camera_event_notify mem (K_MAP_UNMAP_DONE ok) ?o2"
  have "\<not> status_ok (evt_rcvd (wait_loop mem CAM_EVENT_TYPE_MAP_UNMAP_DONE ks1 o1))"
    using assms(1,2) by (intro wait_no_reply) (simp_all add: zero_event_def)
  then have first: "fst (mm_camera_map_buf mem sent1 ks1 o1) = -1"
    using assms(3) by (simp add: mm_camera_map_buf_def mm_camera_util_sendmsg_def mm_camera_util_wait_for_event_def Let_def)
  have e: "evt_rcvd ?o3 = \<lparr>server_event_type = CAM_EVENT_TYPE_MAP_UNMAP_DONE, status_ok = ok\<rparr>"
    by (simp add: mm_camera_event_notify_def)
  then have "wait_loop mem CAM_EVENT_TYPE_MAP_UNMAP_DONE ks2 ?o3 = ?o3"
    by (intro wait_stored) (simp add: CAM_EVENT_TYPE_MAP_UNMAP_DONE_def)
  then show ?thesis using first e assms(4)
    by (simp add: mm_camera_unmap_buf_def mm_camera_util_sendmsg_def mm_camera_util_wait_for_event_def Let_def)
qed

theorem late_reply_answers_next_witness:
  "fst (mm_camera_unmap_buf True 1 [K_MAP_UNMAP_DONE True] (mm_camera_event_notify True (K_MAP_UNMAP_DONE False)
     (snd (mm_camera_map_buf True 1 [K_INT_TAKE_PIC] zero_camera)))) = -1"
proof -
  have "evt_rcvd zero_camera = zero_event" "list_all no_reply [K_INT_TAKE_PIC]" "0 < (1 :: int)"
    by (simp_all add: zero_camera_def no_reply_def)
  from late_reply_answers_next [OF this this(3), of True "[K_MAP_UNMAP_DONE True]" False] show ?thesis by simp
qed

section \<open>The order of the sensors\<close>

definition facing_rank :: "sensor_t \<Rightarrow> nat" where
  "facing_rank s = (case facing s of CAMERA_FACING_BACK \<Rightarrow> 0 | CAMERA_FACING_FRONT \<Rightarrow> 1 | CAMERA_FACING_OTHER \<Rightarrow> 2)"

lemma sort_facing:
  assumes "\<forall>s \<in> set ss. facing s \<noteq> CAMERA_FACING_OTHER"
  shows "sort_key facing_rank ss =
    filter (\<lambda>s. facing s = CAMERA_FACING_BACK) ss @ filter (\<lambda>s. facing s = CAMERA_FACING_FRONT) ss"
proof -
  have two: "facing s = CAMERA_FACING_BACK \<or> facing s = CAMERA_FACING_FRONT" if "s \<in> set ss" for s
    using assms that by (cases "facing s") auto
  show ?thesis
  proof (rule properties_for_sort_key)
    show "mset (filter (\<lambda>s. facing s = CAMERA_FACING_BACK) ss @ filter (\<lambda>s. facing s = CAMERA_FACING_FRONT) ss) = mset ss"
      using two by (induction ss) auto
    show "sorted (map facing_rank (filter (\<lambda>s. facing s = CAMERA_FACING_BACK) ss @ filter (\<lambda>s. facing s = CAMERA_FACING_FRONT) ss))"
      by (induction ss) (auto simp: sorted_append facing_rank_def)
    fix k assume "k \<in> set (filter (\<lambda>s. facing s = CAMERA_FACING_BACK) ss @ filter (\<lambda>s. facing s = CAMERA_FACING_FRONT) ss)"
    show "filter (\<lambda>s. facing_rank k = facing_rank s) (filter (\<lambda>s. facing s = CAMERA_FACING_BACK) ss @ filter (\<lambda>s. facing s = CAMERA_FACING_FRONT) ss) =
        filter (\<lambda>s. facing_rank k = facing_rank s) ss"
    proof (cases "facing k")
      case CAMERA_FACING_OTHER
      then show ?thesis using two by (auto simp: facing_rank_def filter_empty_conv split: facing_t.splits)
    next
      case CAMERA_FACING_BACK
      have "filter (\<lambda>s. facing_rank k = facing_rank s) (filter (\<lambda>s. facing s = CAMERA_FACING_FRONT) ss) = []"
        using CAMERA_FACING_BACK by (simp add: filter_empty_conv facing_rank_def)
      moreover have "filter (\<lambda>s. facing_rank k = facing_rank s) (filter (\<lambda>s. facing s = CAMERA_FACING_BACK) ss) =
          filter (\<lambda>s. facing_rank k = facing_rank s) ss"
        unfolding filter_filter using CAMERA_FACING_BACK
        by (intro filter_cong) (auto simp: facing_rank_def split: facing_t.splits)
      ultimately show ?thesis by simp
    next
      case CAMERA_FACING_FRONT
      have "filter (\<lambda>s. facing_rank k = facing_rank s) (filter (\<lambda>s. facing s = CAMERA_FACING_BACK) ss) = []"
        using CAMERA_FACING_FRONT by (simp add: filter_empty_conv facing_rank_def)
      moreover have "filter (\<lambda>s. facing_rank k = facing_rank s) (filter (\<lambda>s. facing s = CAMERA_FACING_FRONT) ss) =
          filter (\<lambda>s. facing_rank k = facing_rank s) ss"
        unfolding filter_filter using CAMERA_FACING_FRONT
        by (intro filter_cong) (auto simp: facing_rank_def split: facing_t.splits)
      ultimately show ?thesis by simp
    qed
  qed
qed

text \<open>
  C36. sensors_sorted. When every camera faces back or front, the cameras are stably sorted with those at the back first:
  none is lost or doubled, and cameras that face the same way keep their order.
\<close>

theorem sensors_sorted:
  assumes "n \<le> length (sensors y)" and "list_all (\<lambda>s. facing s \<noteq> CAMERA_FACING_OTHER) (take n (sensors y))"
  shows "take n (sensors (sort_camera_info n y)) = sort_key facing_rank (take n (sensors y))"
proof -
  have "sort_key facing_rank (take n (sensors y)) =
      filter (\<lambda>s. facing s = CAMERA_FACING_BACK) (take n (sensors y)) @ filter (\<lambda>s. facing s = CAMERA_FACING_FRONT) (take n (sensors y))"
    using assms(2) by (intro sort_facing) (simp add: list_all_iff)
  moreover have "length (sort_key facing_rank (take n (sensors y))) = n" using assms(1) by simp
  ultimately show ?thesis by (simp add: sort_camera_info_def Let_def)
qed

theorem sensors_sorted_witness:
  "take 3 (sensors (sort_camera_info 3 (no_cameras 3 demo_sensors 0))) =
     [demo_sensor CAMERA_FACING_BACK 2, demo_sensor CAMERA_FACING_FRONT 1, demo_sensor CAMERA_FACING_FRONT 3]"
proof -
  have "3 \<le> length (sensors (no_cameras 3 demo_sensors 0))"
    "list_all (\<lambda>s. facing s \<noteq> CAMERA_FACING_OTHER) (take 3 (sensors (no_cameras 3 demo_sensors 0)))"
    by (simp_all add: no_cameras_def demo_sensors_def demo_sensor_def)
  from sensors_sorted [OF this] show ?thesis
    by (simp add: no_cameras_def demo_sensors_def demo_sensor_def facing_rank_def)
qed

end
