(* ===== verification/LocHeap.thy ===== *)
theory LocHeap
  imports Prelude "HOL-Library.Multiset"
begin

text \<open>
  The heap of gps/utils/LocHeap.cpp: a binary tree that is ordered from parent to child only, with the size of
  each subtree in its root. A new node goes into the smaller subtree; the top leaves by moving data up along the
  higher ranking children, and the node that disappears is a leaf.

  The nodes own pointers to the client's objects (\<open>LocRankable\<close>), so \<open>'a\<close> stands for those pointers: equality is
  equality of addresses, and \<open>outRanks\<close>, which the client implements, is an argument. The locale \<open>rankable\<close> is
  what the heap relies on from it.
\<close>

section \<open>The tree\<close>

datatype 'a LocHeapNode =
    Null
  | LocHeapNode (mSize: int) (mLeft: "'a LocHeapNode") (mData: 'a) (mRight: "'a LocHeapNode")

definition new_node :: "'a \<Rightarrow> 'a LocHeapNode" where
  "new_node x = LocHeapNode 1 Null x Null"

text \<open>\<open>swap\<close> exchanges the data of two nodes and leaves the links alone; this puts data into a node.\<close>

fun put_data :: "'a \<Rightarrow> 'a LocHeapNode \<Rightarrow> 'a LocHeapNode" where
  "put_data x Null = Null"
| "put_data x (LocHeapNode n l d r) = LocHeapNode n l x r"

lemma put_data_size [simp]: "size (put_data x t) = size t"
  by (cases t) simp_all

fun node_push :: "('a \<Rightarrow> 'a \<Rightarrow> bool) \<Rightarrow> 'a \<Rightarrow> 'a LocHeapNode \<Rightarrow> 'a LocHeapNode" where
  "node_push outr x Null = new_node x"
| "node_push outr x (LocHeapNode n l d r) =
     (let (top, low) = (if outr x d then (x, d) else (d, x))
      in if l = Null then LocHeapNode (n + 1) (new_node low) top r
         else if r = Null then LocHeapNode (n + 1) l top (new_node low)
         else if mSize l \<le> mSize r then LocHeapNode (n + 1) (node_push outr low l) top r
         else LocHeapNode (n + 1) l top (node_push outr low r))"

text \<open>The result of \<open>pop\<close> is the data of the node taken out and the tree that is left.\<close>

function node_pop :: "('a \<Rightarrow> 'a \<Rightarrow> bool) \<Rightarrow> 'a LocHeapNode \<Rightarrow> 'a option \<times> 'a LocHeapNode" where
  "node_pop outr Null = (None, Null)"
| "node_pop outr (LocHeapNode n l d r) =
     (if l = Null \<and> r = Null then (Some d, Null)
      else if l = Null \<or> (r \<noteq> Null \<and> \<not> outr (mData l) (mData r))
      then let (x, r') = node_pop outr (put_data d r) in (x, LocHeapNode (n - 1) l (mData r) r')
      else let (x, l') = node_pop outr (put_data d l) in (x, LocHeapNode (n - 1) l' (mData l) r))"
  by pat_completeness auto
termination
  by (relation "measure (size \<circ> snd)") auto

fun node_remove :: "('a \<Rightarrow> 'a \<Rightarrow> bool) \<Rightarrow> 'a \<Rightarrow> 'a LocHeapNode \<Rightarrow> 'a option \<times> 'a LocHeapNode" where
  "node_remove outr x Null = (None, Null)"
| "node_remove outr x (LocHeapNode n l d r) =
     (if x = d then node_pop outr (LocHeapNode n l d r)
      else if outr x d then (None, LocHeapNode n l d r)
      else (case node_remove outr x l of
              (Some y, l') \<Rightarrow> (Some y, LocHeapNode (n - 1) l' d r)
            | (None, l') \<Rightarrow>
                (case node_remove outr x r of
                   (Some y, r') \<Rightarrow> (Some y, LocHeapNode (n - 1) l' d r')
                 | (None, r') \<Rightarrow> (None, LocHeapNode n l' d r'))))"

fun checkNodes :: "('a \<Rightarrow> 'a \<Rightarrow> bool) \<Rightarrow> 'a LocHeapNode \<Rightarrow> bool" where
  "checkNodes outr Null = True"
| "checkNodes outr (LocHeapNode n l d r) =
     ((l = Null \<or> \<not> outr (mData l) d \<and> checkNodes outr l) \<and>
      (r = Null \<or> \<not> outr (mData r) d \<and> checkNodes outr r) \<and>
      n - (if l = Null then 0 else mSize l) - (if r = Null then 0 else mSize r) = 1)"

section \<open>The heap\<close>

text \<open>\<open>LocHeap\<close> is a pointer to its tree.\<close>

definition heap_push :: "('a \<Rightarrow> 'a \<Rightarrow> bool) \<Rightarrow> 'a \<Rightarrow> 'a LocHeapNode \<Rightarrow> 'a LocHeapNode" where
  "heap_push outr x t = (if t = Null then new_node x else node_push outr x t)"

definition heap_peek :: "'a LocHeapNode \<Rightarrow> 'a option" where
  "heap_peek t = (if t = Null then None else Some (mData t))"

definition heap_pop :: "('a \<Rightarrow> 'a \<Rightarrow> bool) \<Rightarrow> 'a LocHeapNode \<Rightarrow> 'a option \<times> 'a LocHeapNode" where
  "heap_pop outr t = (if t = Null then (None, Null) else node_pop outr t)"

definition heap_remove :: "('a \<Rightarrow> 'a \<Rightarrow> bool) \<Rightarrow> 'a \<Rightarrow> 'a LocHeapNode \<Rightarrow> 'a option \<times> 'a LocHeapNode" where
  "heap_remove outr x t = (if t = Null then (None, Null) else node_remove outr x t)"

definition getTreeSize :: "'a LocHeapNode \<Rightarrow> int" where
  "getTreeSize t = (if t = Null then 0 else mSize t)"

section \<open>The invariant\<close>

fun mset_heap :: "'a LocHeapNode \<Rightarrow> 'a multiset" where
  "mset_heap Null = {#}"
| "mset_heap (LocHeapNode n l d r) = add_mset d (mset_heap l + mset_heap r)"

text \<open>\<open>above outr d t\<close>: no data of the tree outranks \<open>d\<close>.\<close>

definition above :: "('a \<Rightarrow> 'a \<Rightarrow> bool) \<Rightarrow> 'a \<Rightarrow> 'a LocHeapNode \<Rightarrow> bool" where
  "above outr d t \<longleftrightarrow> (\<forall>x \<in># mset_heap t. \<not> outr x d)"

fun heap_ok :: "('a \<Rightarrow> 'a \<Rightarrow> bool) \<Rightarrow> 'a LocHeapNode \<Rightarrow> bool" where
  "heap_ok outr Null = True"
| "heap_ok outr (LocHeapNode n l d r) =
     (above outr d l \<and> above outr d r \<and> heap_ok outr l \<and> heap_ok outr r \<and>
      n = int (size (mset_heap (LocHeapNode n l d r))))"

lemma above_simps [simp]:
  "above outr d Null"
  "above outr d (LocHeapNode n l e r) \<longleftrightarrow> \<not> outr e d \<and> above outr d l \<and> above outr d r"
  by (auto simp: above_def)

lemma mset_heap_empty [simp]: "mset_heap t = {#} \<longleftrightarrow> t = Null"
  by (cases t) simp_all

lemma heap_ok_size: "heap_ok outr t \<Longrightarrow> t \<noteq> Null \<Longrightarrow> mSize t = int (size (mset_heap t))"
  by (cases t) simp_all

text \<open>What push, pop and remove do to the contents and the sizes; the order is not needed for these.\<close>

lemma mset_push: "mset_heap (node_push outr x t) = add_mset x (mset_heap t)"
  by (induction outr x t rule: node_push.induct) (auto simp: new_node_def Let_def)

lemma mset_put: "t \<noteq> Null \<Longrightarrow> add_mset (mData t) (mset_heap (put_data x t)) = add_mset x (mset_heap t)"
  by (cases t) auto

lemma put_data_Null [simp]: "put_data x t = Null \<longleftrightarrow> t = Null"
  by (cases t) simp_all

lemma mData_put [simp]: "t \<noteq> Null \<Longrightarrow> mData (put_data x t) = x"
  by (cases t) simp_all

lemma node_pop_data: "t \<noteq> Null \<Longrightarrow> fst (node_pop outr t) = Some (mData t)"
proof (induction outr t rule: node_pop.induct)
  case (2 outr n l d r)
  then show ?case by (auto simp: Let_def split: prod.split)
qed simp

lemma mset_pop: "t \<noteq> Null \<Longrightarrow> add_mset (mData t) (mset_heap (snd (node_pop outr t))) = mset_heap t"
proof (induction outr t rule: node_pop.induct)
  case (2 outr n l d r)
  have put: "add_mset (mData u) (add_mset d (M + mset_heap u')) = add_mset d (M + mset_heap u)"
    if "u \<noteq> Null" "add_mset d (mset_heap u') = mset_heap (put_data d u)" for u u' M
  proof -
    have "add_mset (mData u) (add_mset d (M + mset_heap u')) = M + add_mset (mData u) (mset_heap (put_data d u))"
      using that(2) by (simp flip: that(2))
    also have "\<dots> = add_mset d (M + mset_heap u)" by (simp add: mset_put [OF that(1)])
    finally show ?thesis .
  qed
  show ?case
  proof (cases "l = Null \<and> r = Null")
    case False
    then show ?thesis
    proof (cases "l = Null \<or> (r \<noteq> Null \<and> \<not> outr (mData l) (mData r))")
      case True
      then have "r \<noteq> Null" using False by auto
      then show ?thesis using put [of r _ "mset_heap l"] "2.IH"(1) True False
        by (auto simp: Let_def split: prod.split)
    next
      case other: False
      then have "l \<noteq> Null" by simp
      then show ?thesis using put [of l _ "mset_heap r"] "2.IH"(2) other False
        by (auto simp: Let_def add.commute split: prod.split)
    qed
  qed auto
qed simp

text \<open>Only the data of the top may be out of order, as it is while data moves up during a pop.\<close>

definition children_ok :: "('a \<Rightarrow> 'a \<Rightarrow> bool) \<Rightarrow> 'a LocHeapNode \<Rightarrow> bool" where
  "children_ok outr t \<longleftrightarrow> heap_ok outr (mLeft t) \<and> heap_ok outr (mRight t) \<and> mSize t = int (size (mset_heap t))"

lemma children_put:
  assumes "heap_ok outr t" and "t \<noteq> Null"
  shows "children_ok outr (put_data d t)"
  using assms by (cases t) (simp_all add: children_ok_def)

lemma remove_missing: "node_remove outr x t = (None, t') \<Longrightarrow> t' = t"
proof (induction outr x t arbitrary: t' rule: node_remove.induct)
  case (2 outr x n l d r)
  show ?case
  proof (cases "x = d")
    case True
    then show ?thesis using 2 node_pop_data [of "LocHeapNode n l d r" outr] by simp
  next
    case False
    then show ?thesis using 2 by (auto split: if_splits prod.splits option.splits)
  qed
qed simp

lemma remove_found: "node_remove outr x t = (Some y, t') \<Longrightarrow> y = x \<and> add_mset x (mset_heap t') = mset_heap t"
proof (induction outr x t arbitrary: t' rule: node_remove.induct)
  case (2 outr x n l d r)
  show ?case
  proof (cases "x = d")
    case True
    then have "node_pop outr (LocHeapNode n l d r) = (Some y, t')" using 2 by simp
    then show ?thesis
      using node_pop_data [of "LocHeapNode n l d r" outr] mset_pop [of "LocHeapNode n l d r" outr] True by simp
  next
    case False
    then show ?thesis using 2 by (auto split: if_splits prod.splits option.splits dest: remove_missing)
  qed
qed simp

section \<open>What the client promises and what the heap gives\<close>

text \<open>\<open>outRanks\<close> is a strict order in which incomparable objects are equally ranked.\<close>

locale rankable =
  fixes outr :: "'a \<Rightarrow> 'a \<Rightarrow> bool"
  assumes asym: "outr x y \<Longrightarrow> \<not> outr y x"
    and either: "outr x z \<Longrightarrow> outr x y \<or> outr y z"
begin

lemma irrefl [simp]: "\<not> outr x x"
  using asym [of x x] by blast

lemma above_trans: "above outr d t \<Longrightarrow> \<not> outr d e \<Longrightarrow> above outr e t"
  using either by (auto simp: above_def)

lemma above_push: "above outr d (node_push outr x t) \<longleftrightarrow> above outr d t \<and> \<not> outr x d"
  by (auto simp: above_def mset_push)

lemma above_new [simp]: "above outr d (new_node x) \<longleftrightarrow> \<not> outr x d"
  by (simp add: new_node_def)

lemma heap_new [simp]: "heap_ok outr (new_node x)"
  by (simp add: new_node_def)

lemma push_ok: "heap_ok outr t \<Longrightarrow> heap_ok outr (node_push outr x t)"
proof (induction t arbitrary: x)
  case (LocHeapNode n l d r)
  define top low where "top = (if outr x d then x else d)" and "low = (if outr x d then d else x)"
  have low: "\<not> outr low top" using asym by (auto simp: top_def low_def)
  have "\<not> outr d top" using asym by (auto simp: top_def)
  then have sub: "above outr top l" "above outr top r" using LocHeapNode.prems above_trans by auto
  have n: "n = 1 + int (size (mset_heap l)) + int (size (mset_heap r))" using LocHeapNode.prems by simp
  have "mset_heap (new_node low) = {#low#}" by (simp add: new_node_def)
  moreover have "(if outr x d then (x, d) else (d, x)) = (top, low)" by (simp add: top_def low_def)
  ultimately show ?case using LocHeapNode sub low n above_push by (auto simp: mset_push Let_def)
qed simp

lemma top_above: "heap_ok outr t \<Longrightarrow> t \<noteq> Null \<Longrightarrow> above outr (mData t) t"
  by (cases t) simp_all

lemma pop_ok: "children_ok outr t \<Longrightarrow> t \<noteq> Null \<Longrightarrow> heap_ok outr (snd (node_pop outr t))"
proof (induction t rule: measure_induct_rule [of size])
  case (less t)
  obtain n l d r where t: "t = LocHeapNode n l d r" using less.prems(2) by (cases t) auto
  have IH: "heap_ok outr (snd (node_pop outr (put_data d u)))" if "u \<in> {l, r}" "heap_ok outr u" "u \<noteq> Null" for u
    using less.IH [of "put_data d u"] children_put [OF that(2,3)] that t by auto
  have ok: "heap_ok outr l" "heap_ok outr r" and n: "n = 1 + int (size (mset_heap l)) + int (size (mset_heap r))"
    using less.prems(1) t by (simp_all add: children_ok_def)
  have one: "heap_ok outr (LocHeapNode m v' (mData v) u) \<and> heap_ok outr (LocHeapNode m u (mData v) v')"
    if v: "v \<noteq> Null" "heap_ok outr v" and v': "heap_ok outr v'" "add_mset d (mset_heap v') = mset_heap (put_data d v)"
      and u: "heap_ok outr u" "above outr (mData v) u" and m: "m = int (size (mset_heap u)) + int (size (mset_heap v))"
    for m u v v'
  proof -
    obtain k a x b where k: "v = LocHeapNode k a x b" using v(1) by (cases v) auto
    then have "mset_heap v' = mset_heap a + mset_heap b" using v'(2) by simp
    moreover have "above outr x a" "above outr x b" using v(2) k by simp_all
    ultimately show ?thesis using u v' m k by (auto simp: above_def)
  qed
  have popped: "add_mset d (mset_heap (snd (node_pop outr (put_data d v)))) = mset_heap (put_data d v)"
    if "v \<noteq> Null" for v using mset_pop [of "put_data d v" outr] that by simp
  have side: "above outr x u" if "heap_ok outr u" "u = Null \<or> \<not> outr (mData u) x" for u x
  proof (cases "u = Null")
    case False
    then show ?thesis using that above_trans [OF top_above [OF that(1)]] by blast
  qed simp
  consider "l = Null" "r = Null" | "r \<noteq> Null" "l = Null \<or> \<not> outr (mData l) (mData r)"
    | "l \<noteq> Null" "r = Null \<or> outr (mData l) (mData r)" by blast
  then show ?case
  proof cases
    case 1
    then show ?thesis using t by simp
  next
    case 2
    then have "heap_ok outr (snd (node_pop outr (put_data d r)))" using IH [of r] ok by simp
    then have "heap_ok outr (LocHeapNode (n - 1) l (mData r) (snd (node_pop outr (put_data d r))))"
      using one [OF 2(1) ok(2) _ popped [OF 2(1)] ok(1) side] ok(1) 2 n by simp
    then show ?thesis using 2 t by (auto simp: Let_def split: prod.split)
  next
    case 3
    then have "heap_ok outr (snd (node_pop outr (put_data d l)))" using IH [of l] ok by simp
    moreover have "r = Null \<or> \<not> outr (mData r) (mData l)" using 3 asym by blast
    ultimately have "heap_ok outr (LocHeapNode (n - 1) (snd (node_pop outr (put_data d l))) (mData l) r)"
      using one [OF 3(1) ok(1) _ popped [OF 3(1)] ok(2) side] ok(2) n by simp
    then show ?thesis using 3 t by (auto simp: Let_def split: prod.split)
  qed
qed

lemma heap_ok_children: "heap_ok outr t \<Longrightarrow> t \<noteq> Null \<Longrightarrow> children_ok outr t"
  by (cases t) (simp_all add: children_ok_def)

lemma fewer_data:
  assumes "add_mset x M = N"
  shows "set_mset M \<subseteq> set_mset N" and "size N = Suc (size M)"
  using assms by auto

lemma heap_ok_smaller:
  assumes "heap_ok outr (LocHeapNode n l d r)"
  shows "heap_ok outr l' \<Longrightarrow> add_mset x (mset_heap l') = mset_heap l \<Longrightarrow> heap_ok outr (LocHeapNode (n - 1) l' d r)"
    and "heap_ok outr r' \<Longrightarrow> add_mset x (mset_heap r') = mset_heap r \<Longrightarrow> heap_ok outr (LocHeapNode (n - 1) l d r')"
  using assms fewer_data [of x "mset_heap l'" "mset_heap l"] fewer_data [of x "mset_heap r'" "mset_heap r"]
  by (auto simp: above_def)

lemma remove_ok: "heap_ok outr t \<Longrightarrow> heap_ok outr (snd (node_remove outr x t))"
proof (induction t)
  case (LocHeapNode n l d r)
  note ok = LocHeapNode.prems
  show ?case
  proof (cases "x = d \<or> outr x d")
    case True
    then have "snd (node_remove outr x (LocHeapNode n l d r)) = snd (node_pop outr (LocHeapNode n l d r)) \<or>
        snd (node_remove outr x (LocHeapNode n l d r)) = LocHeapNode n l d r"
      by (cases "x = d") (simp_all del: node_pop.simps)
    then show ?thesis using pop_ok [OF heap_ok_children [OF ok]] ok by (auto simp del: node_pop.simps node_remove.simps heap_ok.simps)
  next
    case False
    obtain z l' where l: "node_remove outr x l = (z, l')" by (rule prod.exhaust)
    obtain w r' where r: "node_remove outr x r = (w, r')" by (rule prod.exhaust)
    have sub: "heap_ok outr l'" "heap_ok outr r'" using LocHeapNode l r by simp_all
    show ?thesis
    proof (cases z)
      case (Some y)
      then have "heap_ok outr (LocHeapNode (n - 1) l' d r)"
        using heap_ok_smaller(1) [OF ok sub(1), of x] remove_found [of outr x l y l'] l by simp
      then show ?thesis using False l Some by simp
    next
      case None
      then have "l' = l" using l remove_missing [of outr x l l'] by simp
      moreover have "heap_ok outr (LocHeapNode (n - 1) l d r')" if "w = Some y" for y
        using heap_ok_smaller(2) [OF ok sub(2), of x] remove_found [of outr x r y r'] r that by simp
      moreover have "r' = r" if "w = None" using r that remove_missing [of outr x r r'] by simp
      ultimately show ?thesis using False l r None ok by (cases w) simp_all
    qed
  qed
qed simp

lemma remove_finds: "heap_ok outr t \<Longrightarrow> x \<in># mset_heap t \<Longrightarrow> fst (node_remove outr x t) = Some x"
proof (induction t)
  case (LocHeapNode n l d r)
  show ?case
  proof (cases "x = d")
    case True
    then show ?thesis using node_pop_data [of "LocHeapNode n l d r" outr] by simp
  next
    case False
    obtain z l' where l: "node_remove outr x l = (z, l')" by (rule prod.exhaust)
    obtain w r' where r: "node_remove outr x r = (w, r')" by (rule prod.exhaust)
    have x: "x \<in># mset_heap l \<or> x \<in># mset_heap r" "\<not> outr x d"
      using LocHeapNode.prems False by (auto simp: above_def)
    have z: "z = Some x" if "x \<in># mset_heap l" using LocHeapNode that l by simp
    have w: "w = Some x" if "x \<in># mset_heap r" using LocHeapNode that r by simp
    show ?thesis
    proof (cases z)
      case (Some y)
      then have "y = x" using remove_found [of outr x l y l'] l by simp
      then show ?thesis using False x(2) l Some by simp
    next
      case None
      then have "w = Some x" using x(1) z w by blast
      then show ?thesis using False x(2) l r None by simp
    qed
  qed
qed simp

lemma top_ranks: "heap_ok outr t \<Longrightarrow> x \<in># mset_heap t \<Longrightarrow> \<not> outr x (mData t)"
  by (cases t) (auto simp: above_def)

lemma check_decides: "checkNodes outr t \<longleftrightarrow> heap_ok outr t"
proof (induction t)
  case (LocHeapNode n l d r)
  have side: "(u = Null \<or> \<not> outr (mData u) d \<and> checkNodes outr u) \<longleftrightarrow> above outr d u \<and> heap_ok outr u"
    if "checkNodes outr u \<longleftrightarrow> heap_ok outr u" for u
  proof (cases "u = Null")
    case False
    have "\<not> outr (mData u) d" if "above outr d u" using that False by (cases u) simp_all
    moreover have "above outr d u" if "\<not> outr (mData u) d" "heap_ok outr u"
      by (rule above_trans [OF top_above [OF that(2) False] that(1)])
    ultimately show ?thesis using that False by blast
  qed simp
  have size: "(if u = Null then 0 else mSize u) = int (size (mset_heap u))" if "heap_ok outr u" for u
    using heap_ok_size [OF that] by (cases "u = Null") simp_all
  show ?case
    unfolding checkNodes.simps heap_ok.simps side [OF LocHeapNode.IH(1)] side [OF LocHeapNode.IH(2)]
    using size [of l] size [of r] by auto
qed simp

end

section \<open>A queue by rank\<close>

datatype 'a rank_op = Push 'a | Pop | Remove 'a

text \<open>
  What a queue by rank promises of one operation: \<open>M\<close> and \<open>M'\<close> are its contents before and after, \<open>res\<close> what it
  returns. Among equally ranked objects a pop may return any.
\<close>

definition rank_spec :: "('a \<Rightarrow> 'a \<Rightarrow> bool) \<Rightarrow> 'a rank_op \<Rightarrow> 'a multiset \<Rightarrow> 'a option \<Rightarrow> 'a multiset \<Rightarrow> bool" where
  "rank_spec outr op M res M' = (case op of
     Push x \<Rightarrow> res = None \<and> M' = add_mset x M
   | Pop \<Rightarrow> (case res of
        None \<Rightarrow> M = {#} \<and> M' = {#}
      | Some x \<Rightarrow> M = add_mset x M' \<and> (\<forall>y \<in># M'. \<not> outr y x))
   | Remove x \<Rightarrow> (if x \<in># M then res = Some x \<and> M = add_mset x M' else res = None \<and> M' = M))"

fun rank_trace :: "('a \<Rightarrow> 'a \<Rightarrow> bool) \<Rightarrow> 'a multiset \<Rightarrow> 'a rank_op list \<Rightarrow> 'a option list \<Rightarrow> 'a multiset \<Rightarrow> bool" where
  "rank_trace outr M [] rs M' = (rs = [] \<and> M' = M)"
| "rank_trace outr M (op # ops) [] M' = False"
| "rank_trace outr M (op # ops) (r # rs) M' = (\<exists>M1. rank_spec outr op M r M1 \<and> rank_trace outr M1 ops rs M')"

definition rank_step :: "('a \<Rightarrow> 'q \<Rightarrow> 'q) \<Rightarrow> ('q \<Rightarrow> 'a option \<times> 'q) \<Rightarrow> ('a \<Rightarrow> 'q \<Rightarrow> 'a option \<times> 'q) \<Rightarrow>
    'a rank_op \<Rightarrow> 'q \<Rightarrow> 'a option \<times> 'q" where
  "rank_step push pop remove op q = (case op of
     Push x \<Rightarrow> (None, push x q)
   | Pop \<Rightarrow> pop q
   | Remove x \<Rightarrow> remove x q)"

fun rank_run :: "('a \<Rightarrow> 'q \<Rightarrow> 'q) \<Rightarrow> ('q \<Rightarrow> 'a option \<times> 'q) \<Rightarrow> ('a \<Rightarrow> 'q \<Rightarrow> 'a option \<times> 'q) \<Rightarrow>
    'a rank_op list \<Rightarrow> 'q \<Rightarrow> 'a option list \<times> 'q" where
  "rank_run push pop remove [] q = ([], q)"
| "rank_run push pop remove (op # ops) q =
     (let (r, q1) = rank_step push pop remove op q; (rs, q2) = rank_run push pop remove ops q1 in (r # rs, q2))"

locale rank_queue = rankable outr for outr :: "'a \<Rightarrow> 'a \<Rightarrow> bool" +
  fixes push :: "'a \<Rightarrow> 'q \<Rightarrow> 'q"
    and peek :: "'q \<Rightarrow> 'a option"
    and pop :: "'q \<Rightarrow> 'a option \<times> 'q"
    and remove :: "'a \<Rightarrow> 'q \<Rightarrow> 'a option \<times> 'q"
    and inv :: "'q \<Rightarrow> bool"
    and contents :: "'q \<Rightarrow> 'a multiset"
  assumes push_law: "inv q \<Longrightarrow> inv (push x q) \<and> contents (push x q) = add_mset x (contents q)"
    and peek_none: "inv q \<Longrightarrow> peek q = None \<longleftrightarrow> contents q = {#}"
    and peek_top: "inv q \<Longrightarrow> peek q = Some x \<Longrightarrow> x \<in># contents q \<and> (\<forall>y \<in># contents q. \<not> outr y x)"
    and pop_law: "inv q \<Longrightarrow> pop q = (r, q') \<Longrightarrow>
      inv q' \<and> r = peek q \<and> (case r of None \<Rightarrow> contents q' = {#} | Some x \<Rightarrow> contents q = add_mset x (contents q'))"
    and remove_law: "inv q \<Longrightarrow> remove x q = (r, q') \<Longrightarrow>
      inv q' \<and> (if x \<in># contents q then r = Some x \<and> contents q = add_mset x (contents q') else r = None \<and> q' = q)"
begin

lemma step_refines:
  assumes "inv q" and "rank_step push pop remove op q = (r, q')"
  shows "inv q' \<and> rank_spec outr op (contents q) r (contents q')"
proof (cases op)
  case (Push x)
  then show ?thesis using assms push_law by (auto simp: rank_step_def rank_spec_def)
next
  case Pop
  then have p: "pop q = (r, q')" using assms(2) by (simp add: rank_step_def)
  note l = pop_law [OF assms(1) p]
  show ?thesis
  proof (cases r)
    case None
    then show ?thesis using l peek_none [OF assms(1)] Pop by (auto simp: rank_spec_def)
  next
    case (Some x)
    then have "\<forall>y \<in># contents q. \<not> outr y x" using l peek_top [OF assms(1)] by simp
    moreover have "contents q = add_mset x (contents q')" "inv q'" using l Some by auto
    ultimately show ?thesis using Some Pop by (simp add: rank_spec_def)
  qed
next
  case (Remove x)
  then have "remove x q = (r, q')" using assms(2) by (simp add: rank_step_def)
  from remove_law [OF assms(1) this] show ?thesis using Remove by (cases "x \<in># contents q") (auto simp: rank_spec_def)
qed

lemma run_refines:
  "inv q \<Longrightarrow> rank_run push pop remove ops q = (rs, q') \<Longrightarrow>
    inv q' \<and> rank_trace outr (contents q) ops rs (contents q')"
proof (induction ops arbitrary: q rs)
  case (Cons op ops)
  obtain r q1 where s: "rank_step push pop remove op q = (r, q1)" by (rule prod.exhaust)
  obtain rs' q2 where t: "rank_run push pop remove ops q1 = (rs', q2)" by (rule prod.exhaust)
  have "rs = r # rs'" "q' = q2" using Cons.prems(2) s t by simp_all
  then show ?case using step_refines [OF Cons.prems(1) s] Cons.IH [of q1 rs'] t by auto
qed simp

end

text \<open>A heap over a client that keeps its promise is a queue by rank.\<close>

context rankable
begin

sublocale heap: rank_queue outr "heap_push outr" heap_peek "heap_pop outr" "heap_remove outr" "heap_ok outr" mset_heap
proof
  fix q :: "'a LocHeapNode" and x
  assume ok: "heap_ok outr q"
  show "heap_ok outr (heap_push outr x q) \<and> mset_heap (heap_push outr x q) = add_mset x (mset_heap q)"
    using push_ok [OF ok] mset_push [of outr x q] by (simp add: heap_push_def new_node_def)
  show "heap_peek q = None \<longleftrightarrow> mset_heap q = {#}" by (simp add: heap_peek_def)
  show "x \<in># mset_heap q \<and> (\<forall>y \<in># mset_heap q. \<not> outr y x)" if "heap_peek q = Some x"
    using that top_ranks [OF ok] by (cases q) (auto simp: heap_peek_def)
  show "heap_ok outr q' \<and> r = heap_peek q \<and>
      (case r of None \<Rightarrow> mset_heap q' = {#} | Some x \<Rightarrow> mset_heap q = add_mset x (mset_heap q'))"
    if "heap_pop outr q = (r, q')" for r q'
    using that pop_ok [OF heap_ok_children [OF ok]] node_pop_data [of q outr] mset_pop [of q outr]
    by (cases "q = Null") (auto simp: heap_pop_def heap_peek_def)
  show "heap_ok outr q' \<and> (if x \<in># mset_heap q then r = Some x \<and> mset_heap q = add_mset x (mset_heap q')
      else r = None \<and> q' = q)" if "heap_remove outr x q = (r, q')" for r q'
  proof (cases "q = Null")
    case False
    then have n: "node_remove outr x q = (r, q')" using that by (simp add: heap_remove_def)
    then have "r = Some x" if "x \<in># mset_heap q" using remove_finds [OF ok that] by simp
    moreover have "r = None" if "x \<notin># mset_heap q" using remove_found [of outr x q _ q'] n that union_single_eq_member by (cases r) fastforce+
    ultimately show ?thesis
      using n remove_ok [OF ok, of x] remove_found [of outr x q x q'] remove_missing [of outr x q q'] by auto
  qed (use that in \<open>simp add: heap_remove_def\<close>)
qed

end

end
