(* ===== verification/LocTimer.thy ===== *)
theory LocTimer
  imports LocHeap CamTypes
begin

text \<open>
  The timers of gps/utils/LocTimer.cpp: clients start and stop timers, the thread of the message task keeps them in
  a heap of LocHeap by their time and keeps the kernel's timer set to the soonest one, and the polling thread
  turns its expiry into a message.

  One container is modelled (the code has two that are independent, one for timers and one for alarms). Times are
  seconds and nanoseconds since boot; a boot time stays far below the range of an \<open>int\<close>, so they are numbers here.
  A delegate is its address and its time, which never changes; addresses are not used twice. What the client and
  the polling thread do under the client's lock is one step; \<open>callbacks\<close> logs the calls of \<open>timeOutCallback\<close>.
\<close>

section \<open>Timers and their container\<close>

record timespec =
  tv_sec :: int
  tv_nsec :: int

record LocTimerDelegate =
  d_addr :: nat
  mFutureTime :: timespec

text \<open>Only the seconds count: the timer with the smaller time ranks higher.\<close>

definition ranks :: "LocTimerDelegate \<Rightarrow> LocTimerDelegate \<Rightarrow> int" where
  "ranks x y = tv_sec (mFutureTime y) - tv_sec (mFutureTime x)"

definition outRanks :: "LocTimerDelegate \<Rightarrow> LocTimerDelegate \<Rightarrow> bool" where
  "outRanks x y \<longleftrightarrow> 0 < ranks x y"

datatype timer_msg =
    MsgTimerPush LocTimerDelegate
  | MsgTimerRemove LocTimerDelegate
  | MsgTimerExpire

text \<open>
  \<open>armed\<close> is the setting of the kernel's timer and \<open>polled\<close> whether the polling thread listens to it; \<open>woken\<close> says
  that \<open>epoll_wait\<close> has returned its expiry and the container has not been told yet. \<open>mTimer\<close> is the delegate of each
  client, \<open>mClient\<close> the client of each delegate.
\<close>

record LocTimerContainer =
  mTree :: "LocTimerDelegate LocHeapNode"
  armed :: "timespec option"
  polled :: bool
  woken :: bool
  mQ :: "timer_msg list"
  mTimer :: "nat \<Rightarrow> LocTimerDelegate option"
  mClient :: "nat \<Rightarrow> nat option"
  next_addr :: nat
  callbacks :: "nat list"

definition sendMsg :: "timer_msg \<Rightarrow> LocTimerContainer \<Rightarrow> LocTimerContainer" where
  "sendMsg m s = s\<lparr>mQ := mQ s @ [m]\<rparr>"

definition getSoonestTimer :: "LocTimerContainer \<Rightarrow> LocTimerDelegate option" where
  "getSoonestTimer s = heap_peek (mTree s)"

definition updateSoonestTime :: "LocTimerDelegate option \<Rightarrow> LocTimerContainer \<Rightarrow> LocTimerContainer" where
  "updateSoonestTime priorTop s =
     (let curTop = getSoonestTimer s
      in if curTop = priorTop then s
         else case curTop of
                None \<Rightarrow> s\<lparr>polled := False, armed := None\<rparr>
              | Some t \<Rightarrow>
                  if priorTop = None \<or> outRanks t (the priorTop)
                  then s\<lparr>polled := True, armed := Some (mFutureTime t)\<rparr> else s)"

section \<open>Starting and stopping\<close>

definition future_time :: "timespec \<Rightarrow> u32 \<Rightarrow> timespec" where
  "future_time now ms =
     (let s = tv_sec now + int (unat (ms div 1000)); n = tv_nsec now + int (unat (ms mod 1000)) * 1000000
      in if n \<ge> 1000000000 then \<lparr>tv_sec = s + n div 1000000000, tv_nsec = n mod 1000000000\<rparr>
         else \<lparr>tv_sec = s, tv_nsec = n\<rparr>)"

definition timer_start :: "timespec \<Rightarrow> nat \<Rightarrow> u32 \<Rightarrow> LocTimerContainer \<Rightarrow> bool \<times> LocTimerContainer" where
  "timer_start now c ms s = (case mTimer s c of
     Some _ \<Rightarrow> (False, s)
   | None \<Rightarrow>
       let d = \<lparr>d_addr = next_addr s, mFutureTime = future_time now ms\<rparr>
       in (True, (sendMsg (MsgTimerPush d) s)\<lparr>mTimer := (mTimer s)(c := Some d),
            mClient := (mClient s)(d_addr d := Some c), next_addr := next_addr s + 1\<rparr>))"

text \<open>Stopping takes the delegate from its client and asks the message task to remove and delete it.\<close>

definition destroyLocked :: "LocTimerDelegate \<Rightarrow> LocTimerContainer \<Rightarrow> LocTimerContainer" where
  "destroyLocked d s = sendMsg (MsgTimerRemove d) (s\<lparr>mClient := (mClient s)(d_addr d := None)\<rparr>)"

definition timer_stop :: "nat \<Rightarrow> LocTimerContainer \<Rightarrow> bool \<times> LocTimerContainer" where
  "timer_stop c s = (case mTimer s c of
     None \<Rightarrow> (False, s)
   | Some d \<Rightarrow> (True, destroyLocked d (s\<lparr>mTimer := (mTimer s)(c := None)\<rparr>)))"

section \<open>Expiry\<close>

definition delegate_expire :: "LocTimerDelegate \<Rightarrow> LocTimerContainer \<Rightarrow> LocTimerContainer" where
  "delegate_expire d s = (case mClient s (d_addr d) of
     None \<Rightarrow> s
   | Some c \<Rightarrow> let (ok, s1) = timer_stop c s in if ok then s1\<lparr>callbacks := callbacks s1 @ [c]\<rparr> else s1)"

definition popIfOutRanks :: "LocTimerDelegate \<Rightarrow> LocTimerDelegate LocHeapNode \<Rightarrow>
    LocTimerDelegate option \<times> LocTimerDelegate LocHeapNode" where
  "popIfOutRanks timer t =
     (if t \<noteq> Null \<and> \<not> outRanks timer (the (heap_peek t)) then heap_pop outRanks t else (None, t))"

text \<open>The timers an expiry pops, in order, and the heap that is left; the first one is popped unseen.\<close>

lemma pop_smaller: "heap_pop outr t = (Some x, t') \<Longrightarrow> size (mset_heap t') < size (mset_heap t)"
  using mset_pop [of t outr] by (cases "t = Null") (auto simp: heap_pop_def dest: arg_cong [of _ _ size])

function pop_expired :: "LocTimerDelegate \<Rightarrow> LocTimerDelegate LocHeapNode \<Rightarrow>
    LocTimerDelegate list \<times> LocTimerDelegate LocHeapNode" where
  "pop_expired now t = (case popIfOutRanks now t of
     (None, t1) \<Rightarrow> ([], t1)
   | (Some x, t1) \<Rightarrow> let (xs, t2) = pop_expired now t1 in (x # xs, t2))"
  by pat_completeness auto
termination
  by (relation "measure (\<lambda>(_, t). size (mset_heap t))") (auto simp: popIfOutRanks_def pop_smaller [OF sym] split: if_splits)

declare pop_expired.simps [simp del]

definition timer_of_now :: "timespec \<Rightarrow> LocTimerDelegate" where
  "timer_of_now now = \<lparr>d_addr = 0, mFutureTime = now\<rparr>"

definition proc_expire :: "timespec \<Rightarrow> LocTimerContainer \<Rightarrow> LocTimerContainer" where
  "proc_expire now s =
     (case heap_pop outRanks (mTree s) of
        (None, t) \<Rightarrow> updateSoonestTime None (s\<lparr>mTree := t\<rparr>)
      | (Some x, t) \<Rightarrow>
          let (xs, t1) = pop_expired (timer_of_now now) t
          in updateSoonestTime None (fold delegate_expire (x # xs) (s\<lparr>mTree := t1\<rparr>)))"

section \<open>The two threads\<close>

definition proc_push :: "LocTimerDelegate \<Rightarrow> LocTimerContainer \<Rightarrow> LocTimerContainer" where
  "proc_push d s = updateSoonestTime (getSoonestTimer s) (s\<lparr>mTree := heap_push outRanks d (mTree s)\<rparr>)"

text \<open>When the timer is not in the heap the result is null, which equals the prior top of an empty heap.\<close>

definition proc_remove :: "LocTimerDelegate \<Rightarrow> LocTimerContainer \<Rightarrow> LocTimerContainer" where
  "proc_remove d s =
     (let (r, t) = heap_remove outRanks d (mTree s); s1 = s\<lparr>mTree := t\<rparr>
      in if getSoonestTimer s = r then updateSoonestTime None s1 else s1)"

definition proc_msg :: "timespec \<Rightarrow> timer_msg \<Rightarrow> LocTimerContainer \<Rightarrow> LocTimerContainer" where
  "proc_msg now m s = (case m of
     MsgTimerPush d \<Rightarrow> proc_push d s
   | MsgTimerRemove d \<Rightarrow> proc_remove d s
   | MsgTimerExpire \<Rightarrow> proc_expire now s)"

definition msg_round :: "timespec \<Rightarrow> LocTimerContainer \<Rightarrow> LocTimerContainer" where
  "msg_round now s = (case mQ s of [] \<Rightarrow> s | m # ms \<Rightarrow> proc_msg now m (s\<lparr>mQ := ms\<rparr>))"

definition reached :: "timespec \<Rightarrow> timespec \<Rightarrow> bool" where
  "reached t now \<longleftrightarrow> tv_sec t < tv_sec now \<or> tv_sec t = tv_sec now \<and> tv_nsec t \<le> tv_nsec now"

definition poll_returns :: "timespec \<Rightarrow> LocTimerContainer \<Rightarrow> LocTimerContainer" where
  "poll_returns now s =
     (if polled s \<and> (case armed s of Some t \<Rightarrow> reached t now | None \<Rightarrow> False) then s\<lparr>woken := True\<rparr> else s)"

definition container_expire :: "LocTimerContainer \<Rightarrow> LocTimerContainer" where
  "container_expire s = (if woken s then sendMsg MsgTimerExpire (s\<lparr>woken := False, armed := None, polled := False\<rparr>) else s)"

end
