(* ===== verification/LocTimerProps.thy ===== *)
theory LocTimerProps
  imports LocTimer
begin

text \<open>
  The heap of timers behaves as a queue by rank, the kernel is always set to the soonest timer, and what an expiry
  takes out: every timer whose second has come, but also the soonest one whatever its time.
\<close>

section \<open>Timers are rankable\<close>

interpretation timers: rankable outRanks
  by unfold_locales (auto simp: outRanks_def ranks_def)

text \<open>
  C19. loc_heap_is_rank_queue. Every sequence of pushes, pops and removals on an empty \<open>LocHeap\<close> of timers returns
  what a queue by rank may return (a pop gives a timer no other outranks, a removal finds a timer that is there)
  and leaves its contents; and the heap's own check of order and sizes succeeds.
\<close>

theorem loc_heap_is_rank_queue:
  "rank_trace outRanks {#} ops (fst (rank_run (heap_push outRanks) (heap_pop outRanks) (heap_remove outRanks) ops Null))
     (mset_heap (snd (rank_run (heap_push outRanks) (heap_pop outRanks) (heap_remove outRanks) ops Null))) \<and>
   checkNodes outRanks (snd (rank_run (heap_push outRanks) (heap_pop outRanks) (heap_remove outRanks) ops Null))"
  using timers.heap.run_refines [of Null ops, OF _ prod.collapse [symmetric]] by (simp add: timers.check_decides)

section \<open>Runs\<close>

datatype timer_action =
    Start timespec nat u32
  | Stop nat
  | Round timespec
  | PollReturns timespec
  | PollExpires

definition timer_step :: "timer_action \<Rightarrow> LocTimerContainer \<Rightarrow> LocTimerContainer" where
  "timer_step a s = (case a of
     Start now c ms \<Rightarrow> snd (timer_start now c ms s)
   | Stop c \<Rightarrow> snd (timer_stop c s)
   | Round now \<Rightarrow> msg_round now s
   | PollReturns now \<Rightarrow> poll_returns now s
   | PollExpires \<Rightarrow> container_expire s)"

definition timers_init :: LocTimerContainer where
  "timers_init = \<lparr>mTree = Null, armed = None, polled = False, woken = False, mQ = [], mTimer = (\<lambda>_. None),
     mClient = (\<lambda>_. None), next_addr = 1, callbacks = []\<rparr>"

definition timer_run :: "timer_action list \<Rightarrow> LocTimerContainer" where
  "timer_run as = fold timer_step as timers_init"

section \<open>The soonest timer\<close>

lemma peek_push:
  "heap_peek (heap_push outr x t) = (case heap_peek t of None \<Rightarrow> Some x | Some d \<Rightarrow> Some (if outr x d then x else d))"
  by (cases t) (auto simp: heap_peek_def heap_push_def new_node_def Let_def)

lemma peek_remove:
  assumes "heap_remove outr x t = (r, t')" and "heap_peek t \<noteq> r"
  shows "heap_peek t' = heap_peek t"
proof (cases t)
  case (LocHeapNode n l d u)
  show ?thesis
  proof (cases "x = d")
    case True
    have "r = fst (heap_remove outr x t)" using assms(1) by simp
    also have "\<dots> = Some d" using LocHeapNode True node_pop_data [of t outr] by (simp add: heap_remove_def)
    finally show ?thesis using assms(2) LocHeapNode by (simp add: heap_peek_def)
  next
    case False
    then show ?thesis using assms(1) LocHeapNode
      by (auto simp: heap_remove_def heap_peek_def split: if_splits prod.splits option.splits)
  qed
qed (use assms in \<open>simp add: heap_remove_def\<close>)

text \<open>The setting agrees with the soonest timer.\<close>

definition is_set :: "LocTimerContainer \<Rightarrow> bool" where
  "is_set s \<longleftrightarrow> (case getSoonestTimer s of None \<Rightarrow> True | Some t \<Rightarrow> polled s \<and> armed s = Some (mFutureTime t))"

definition timers_ok :: "LocTimerContainer \<Rightarrow> bool" where
  "timers_ok s \<longleftrightarrow> heap_ok outRanks (mTree s) \<and> (is_set s \<or> woken s \<or> MsgTimerExpire \<in> set (mQ s))"

lemma update_None: "is_set (updateSoonestTime None s)"
  by (auto simp: is_set_def updateSoonestTime_def getSoonestTimer_def Let_def split: option.split)

lemma update_rest [simp]:
  "mTree (updateSoonestTime p s) = mTree s" "woken (updateSoonestTime p s) = woken s" "mQ (updateSoonestTime p s) = mQ s"
  by (simp_all add: updateSoonestTime_def Let_def split: option.split)

lemma proc_push_ok:
  assumes "timers_ok s"
  shows "timers_ok (proc_push d s)"
proof -
  have "heap_ok outRanks (heap_push outRanks d (mTree s))"
    using assms timers.heap.push_law by (simp add: timers_ok_def)
  moreover have "is_set (proc_push d s)" if "is_set s"
    using that by (auto simp: proc_push_def is_set_def updateSoonestTime_def getSoonestTimer_def peek_push Let_def split: option.split)
  ultimately show ?thesis using assms by (auto simp: timers_ok_def proc_push_def)
qed

lemma proc_remove_ok:
  assumes "timers_ok s"
  shows "timers_ok (proc_remove d s)"
proof -
  obtain r t where r: "heap_remove outRanks d (mTree s) = (r, t)" by (rule prod.exhaust)
  have ok: "heap_ok outRanks t" using timers.heap.remove_law [OF _ r] assms by (simp add: timers_ok_def)
  show ?thesis
  proof (cases "getSoonestTimer s = r")
    case True
    then show ?thesis using r ok update_None by (simp add: proc_remove_def timers_ok_def)
  next
    case False
    then have "heap_peek t = heap_peek (mTree s)" using peek_remove [OF r] by (simp add: getSoonestTimer_def)
    then have "is_set (s\<lparr>mTree := t\<rparr>) \<longleftrightarrow> is_set s" by (simp add: is_set_def getSoonestTimer_def split: option.split)
    then show ?thesis using False r ok assms by (simp add: proc_remove_def timers_ok_def)
  qed
qed

lemma pop_expired_takes:
  "heap_ok outRanks t \<Longrightarrow> pop_expired now t = (xs, t') \<Longrightarrow>
    heap_ok outRanks t' \<and> mset_heap t = mset xs + mset_heap t' \<and> (\<forall>x \<in> set xs. \<not> outRanks now x) \<and>
    (\<forall>y \<in># mset_heap t'. outRanks now y)"
proof (induction now t arbitrary: xs t' rule: pop_expired.induct)
  case (1 now t)
  obtain r t1 where p: "popIfOutRanks now t = (r, t1)" by (rule prod.exhaust)
  show ?case
  proof (cases r)
    case None
    then have r: "xs = []" "t' = t1" using "1.prems"(2) p by (simp_all add: pop_expired.simps [of now t])
    have "t1 = t \<and> (t = Null \<or> outRanks now (mData t))"
      using p None node_pop_data [of t outRanks] by (auto simp: popIfOutRanks_def heap_peek_def heap_pop_def split: if_splits)
    moreover have "outRanks now y" if "y \<in># mset_heap t" "outRanks now (mData t)" for y
      using timers.top_ranks [OF "1.prems"(1) that(1)] that(2) timers.either by blast
    ultimately show ?thesis using r "1.prems"(1) by auto
  next
    case (Some x)
    obtain ys t2 where y: "pop_expired now t1 = (ys, t2)" by (rule prod.exhaust)
    then have r: "xs = x # ys" "t' = t2" using "1.prems"(2) p Some by (simp_all add: pop_expired.simps [of now t])
    have h: "heap_pop outRanks t = (Some x, t1)" "t \<noteq> Null" "\<not> outRanks now (the (heap_peek t))"
      using p Some by (auto simp: popIfOutRanks_def split: if_splits)
    have l: "heap_ok outRanks t1" "heap_peek t = Some x" "mset_heap t = add_mset x (mset_heap t1)"
      using timers.heap.pop_law [OF "1.prems"(1) h(1)] by simp_all
    show ?thesis using "1.IH" [OF p [symmetric] Some l(1) y] l h(3) r by simp
  qed
qed

lemma expire_rest [simp]:
  "mTree (delegate_expire d s) = mTree s"
  by (auto simp: delegate_expire_def timer_stop_def destroyLocked_def sendMsg_def split: option.split)

lemma fold_expire_rest [simp]: "mTree (fold delegate_expire ds s) = mTree s"
  by (induction ds arbitrary: s) simp_all

lemma proc_expire_ok:
  assumes "heap_ok outRanks (mTree s)"
  shows "timers_ok (proc_expire now s)"
proof -
  obtain r t where p: "heap_pop outRanks (mTree s) = (r, t)" by (rule prod.exhaust)
  have "heap_ok outRanks t" using timers.heap.pop_law [OF assms p] by simp
  then have "heap_ok outRanks (mTree (proc_expire now s))"
    using p pop_expired_takes by (auto simp: proc_expire_def split: option.split prod.split)
  moreover have "is_set (proc_expire now s)"
    using update_None by (auto simp: proc_expire_def split: option.split prod.split)
  ultimately show ?thesis by (simp add: timers_ok_def)
qed

lemma step_ok:
  assumes "timers_ok s"
  shows "timers_ok (timer_step a s)"
proof (cases a)
  case (Round now)
  show ?thesis
  proof (cases "mQ s")
    case (Cons m ms)
    show ?thesis
    proof (cases m)
      case MsgTimerExpire
      then show ?thesis using Round Cons assms proc_expire_ok [of "s\<lparr>mQ := ms\<rparr>" now]
        by (simp add: timer_step_def msg_round_def proc_msg_def timers_ok_def)
    next
      case (MsgTimerPush d)
      then have "timers_ok (s\<lparr>mQ := ms\<rparr>)" using assms Cons by (simp add: timers_ok_def is_set_def getSoonestTimer_def cong: option.case_cong)
      from proc_push_ok [OF this] show ?thesis using Round Cons MsgTimerPush by (simp add: timer_step_def msg_round_def proc_msg_def)
    next
      case (MsgTimerRemove d)
      then have "timers_ok (s\<lparr>mQ := ms\<rparr>)" using assms Cons by (simp add: timers_ok_def is_set_def getSoonestTimer_def cong: option.case_cong)
      from proc_remove_ok [OF this] show ?thesis using Round Cons MsgTimerRemove by (simp add: timer_step_def msg_round_def proc_msg_def)
    qed
  qed (use assms Round in \<open>simp add: timer_step_def msg_round_def\<close>)
qed (use assms in \<open>auto simp: timer_step_def timers_ok_def is_set_def getSoonestTimer_def timer_start_def timer_stop_def
      destroyLocked_def sendMsg_def poll_returns_def container_expire_def Let_def split: option.splits\<close>)


definition secs :: "int \<Rightarrow> timespec" where
  "secs n = \<lparr>tv_sec = n, tv_nsec = 0\<rparr>"


section \<open>Expiry\<close>

text \<open>
  In every run, an expiry message takes from the heap the soonest timer, whatever its time, and
  every other one whose second has come; the others stay.
\<close>

theorem expiry_takes:
  assumes "mQ (timer_run as) = MsgTimerExpire # ms" and "getSoonestTimer (timer_run as) = Some t"
  shows "mset_heap (mTree (timer_run (as @ [Round now]))) =
    filter_mset (\<lambda>d. tv_sec now < tv_sec (mFutureTime d)) (mset_heap (mTree (timer_run as)) - {#t#})"
proof -
  let ?s = "timer_run as"
  have "timers_ok (fold timer_step as s)" if "timers_ok s" for s
    using that by (induction as arbitrary: s) (simp_all add: step_ok)
  then have ok: "heap_ok outRanks (mTree ?s)"
    by (simp add: timer_run_def timers_ok_def timers_init_def is_set_def getSoonestTimer_def heap_peek_def)
  obtain r u where p: "heap_pop outRanks (mTree ?s) = (r, u)" by (rule prod.exhaust)
  then have l: "heap_ok outRanks u" "r = Some t" "mset_heap (mTree ?s) = add_mset t (mset_heap u)"
    using timers.heap.pop_law [OF ok p] assms(2) by (auto simp: getSoonestTimer_def)
  obtain xs v where x: "pop_expired (timer_of_now now) u = (xs, v)" by (rule prod.exhaust)
  have "mTree (timer_run (as @ [Round now])) = v"
    using assms(1) p l(2) x by (simp add: timer_run_def timer_step_def msg_round_def proc_msg_def proc_expire_def)
  moreover have "mset_heap u = mset xs + mset_heap v" "\<forall>x \<in> set xs. tv_sec (mFutureTime x) \<le> tv_sec now"
      "\<forall>y \<in># mset_heap v. tv_sec now < tv_sec (mFutureTime y)"
    using pop_expired_takes [OF l(1) x] by (auto simp: outRanks_def ranks_def timer_of_now_def)
  moreover have "filter_mset (\<lambda>d. tv_sec now < tv_sec (mFutureTime d)) (mset xs) = {#}"
    using calculation(3) by (auto simp: filter_empty_conv simp flip: mset_filter)
  moreover have "filter_mset (\<lambda>d. tv_sec now < tv_sec (mFutureTime d)) (mset_heap v) = mset_heap v"
    using calculation(4) by (simp add: filter_mset_eq_conv)
  ultimately show ?thesis using l(3) by simp
qed

definition woken_run :: "timer_action list" where
  "woken_run = [Start (secs 100) 1 10000, Start (secs 100) 2 90000, Round (secs 100), Round (secs 100), PollReturns (secs 110), PollExpires]"

theorem expiry_takes_witness:
  "mset_heap (mTree (timer_run (woken_run @ [Round (secs 110)]))) = {#\<lparr>d_addr = 2, mFutureTime = secs 190\<rparr>#}"
proof -
  have "mQ (timer_run woken_run) = [MsgTimerExpire]" by code_simp
  moreover have "getSoonestTimer (timer_run woken_run) = Some \<lparr>d_addr = 1, mFutureTime = secs 110\<rparr>" by code_simp
  moreover have "mTree (timer_run woken_run) = LocHeapNode 2 (new_node \<lparr>d_addr = 2, mFutureTime = secs 190\<rparr>)
      \<lparr>d_addr = 1, mFutureTime = secs 110\<rparr> Null" by code_simp
  ultimately show ?thesis using expiry_takes [of woken_run "[]" _ "secs 110"] by (simp add: new_node_def secs_def)
qed

text \<open>
  A client that stops its timer while the expiry is on its way makes the next
  timer expire at once: here the timer of client 2, started for at least 11 seconds, calls back after 10.
\<close>

theorem stopped_timer_expires_next_early:
  assumes "11000 \<le> ms"
  shows "callbacks (timer_run [Start (secs 100) 1 10000, Start (secs 100) 2 ms, Round (secs 100), Round (secs 100),
    PollReturns (secs 110), Stop 1, PollExpires, Round (secs 110), Round (secs 110)]) = [2]"
proof -
  obtain T N where f: "future_time (secs 100) ms = \<lparr>tv_sec = T, tv_nsec = N\<rparr>" by (cases "future_time (secs 100) ms")
  have "11 \<le> unat (ms div 1000)" using assms by (simp add: unat_div word_le_nat_alt)
  then have "11 \<le> int (unat (ms div 1000))" by linarith
  moreover have "100 + int (unat (ms div 1000)) \<le> tv_sec (future_time (secs 100) ms)"
    by (simp add: future_time_def secs_def Let_def pos_imp_zdiv_nonneg_iff)
  moreover have "tv_sec (future_time (secs 100) ms) = T" by (simp add: f)
  ultimately have T: "110 < T" by linarith
  have g: "future_time (secs 100) 10000 = \<lparr>tv_sec = 110, tv_nsec = 0\<rparr>" by code_simp
  show ?thesis using T
    by (simp add: timer_run_def timer_step_def timers_init_def timer_start_def timer_stop_def destroyLocked_def sendMsg_def
        msg_round_def proc_msg_def proc_push_def proc_remove_def proc_expire_def heap_push_def heap_pop_def heap_remove_def
        heap_peek_def getSoonestTimer_def updateSoonestTime_def new_node_def outRanks_def ranks_def f [unfolded secs_def] g [unfolded secs_def] poll_returns_def
        reached_def container_expire_def delegate_expire_def pop_expired.simps popIfOutRanks_def secs_def Let_def)
qed

definition early_client :: "nat list" where
  "early_client = callbacks (timer_run [Start (secs 100) 1 10000, Start (secs 100) 2 90000, Round (secs 100), Round (secs 100),
    PollReturns (secs 110), Stop 1, PollExpires, Round (secs 110), Round (secs 110)])"

theorem stopped_timer_expires_next_early_witness: "early_client = [2]"
  using stopped_timer_expires_next_early [of 90000] by (simp add: early_client_def)

text \<open>
  C37. future_time_exact. The time of a timer started at a normalised time is normalised, and exactly the duration
  in milliseconds later.
\<close>

theorem future_time_exact:
  assumes "0 \<le> tv_nsec now" and "tv_nsec now < 1000000000" and "future_time now ms = t"
  shows "0 \<le> tv_nsec t \<and> tv_nsec t < 1000000000 \<and>
    tv_sec t * 1000000000 + tv_nsec t = tv_sec now * 1000000000 + tv_nsec now + int (unat ms) * 1000000"
proof -
  have "int (unat ms) = 1000 * int (unat (ms div 1000)) + int (unat (ms mod 1000))"
    by (simp add: unat_div unat_mod zdiv_int zmod_int)
  moreover have "unat (ms mod 1000) < 1000" by (simp add: unat_mod)
  ultimately show ?thesis using assms by (auto simp: future_time_def Let_def)
qed

theorem future_time_exact_witness:
  "future_time \<lparr>tv_sec = 7, tv_nsec = 999000000\<rparr> 1500 = \<lparr>tv_sec = 9, tv_nsec = 499000000\<rparr> \<and>
   tv_nsec (future_time \<lparr>tv_sec = 7, tv_nsec = 999000000\<rparr> 1500) < 1000000000"
proof -
  have "future_time \<lparr>tv_sec = 7, tv_nsec = 999000000\<rparr> 1500 = \<lparr>tv_sec = 9, tv_nsec = 499000000\<rparr>" by code_simp
  then show ?thesis using future_time_exact [of "\<lparr>tv_sec = 7, tv_nsec = 999000000\<rparr>" 1500] by simp
qed

end
