(* ===== verification/LocAgps.thy ===== *)
theory LocAgps
  imports CamTypes
begin

text \<open>
  The data connections of the location engine (gps/loc_api/libloc_api_50001/loc_eng_agps.cpp): subscribers ask for a
  network interface and give it up, a state machine of four states asks the framework (or, for emergency calls, the
  data services) for it, and tells the subscribers what became of it.

  The list of subscribers is the list of the objects, newest first (gps/utils/linked_list.c). \<open>calls\<close> logs what the
  machine tells the world. The code compares with a subscriber it has already deleted, and reads an address of
  sixteen bytes out of objects that have none: what such reads find is part of the environment \<open>agps_env\<close>
  (\<open>freed\<close>, \<open>stray_ip6\<close>), with the answers of the data services.
\<close>

section \<open>Subscribers and notifications\<close>

datatype AgpsRsrcStatus =
    RSRC_SUBSCRIBE
  | RSRC_UNSUBSCRIBE
  | RSRC_GRANTED
  | RSRC_RELEASED
  | RSRC_DENIED
  | RSRC_STATUS_MAX

datatype servicerType =
    servicerTypeNoCbParam
  | servicerTypeAgps
  | servicerTypeExt

datatype AGpsStatusValue =
    GPS_REQUEST_AGPS_DATA_CONN
  | GPS_RELEASE_AGPS_DATA_CONN

datatype AGpsExtType =
    AGPS_TYPE_INVALID
  | AGPS_TYPE_ANY
  | AGPS_TYPE_SUPL
  | AGPS_TYPE_C2K
  | AGPS_TYPE_WWAN_ANY
  | AGPS_TYPE_WIFI
  | AGPS_TYPE_SUPL_ES

text \<open>The class of a subscriber with the members it adds; an absent string is a null pointer.\<close>

datatype subscriber_class =
    BITSubscriber (mIPv6Addr: "u8 list")
  | ATLSubscriber (mBackwardCompatibleMode: bool)
  | WIFISubscriber (mSSID: "string option") (mPassword: "string option")
  | DSSubscriber

record Subscriber =
  ID :: u32
  sub_class :: subscriber_class
  mIsInactive :: bool

definition isInactive :: "Subscriber \<Rightarrow> bool" where
  "isInactive s = (case sub_class s of
     WIFISubscriber a b \<Rightarrow> mIsInactive s
   | DSSubscriber \<Rightarrow> mIsInactive s
   | _ \<Rightarrow> False)"

definition waitForCloseComplete :: "Subscriber \<Rightarrow> bool" where
  "waitForCloseComplete s = (case sub_class s of
     WIFISubscriber a b \<Rightarrow> True
   | DSSubscriber \<Rightarrow> True
   | _ \<Rightarrow> False)"

text \<open>\<open>clone\<close> constructs a new object from the members, which is active.\<close>

definition clone :: "Subscriber \<Rightarrow> Subscriber" where
  "clone s = s\<lparr>mIsInactive := False\<rparr>"

definition BROADCAST_ALL :: u32 where
  "BROADCAST_ALL = 0x80000000"

definition BROADCAST_ACTIVE :: u32 where
  "BROADCAST_ACTIVE = 0x80000001"

definition BROADCAST_INACTIVE :: u32 where
  "BROADCAST_INACTIVE = 0x80000002"

record Notification =
  rcver :: "Subscriber option"
  groupID :: u32
  rsrcStatus :: AgpsRsrcStatus
  postNotifyDelete :: bool

definition to_group :: "u32 \<Rightarrow> AgpsRsrcStatus \<Rightarrow> bool \<Rightarrow> Notification" where
  "to_group g st del = \<lparr>rcver = None, groupID = g, rsrcStatus = st, postNotifyDelete = del\<rparr>"

definition to_sub :: "Subscriber \<Rightarrow> AgpsRsrcStatus \<Rightarrow> bool \<Rightarrow> Notification" where
  "to_sub s st del = \<lparr>rcver = Some s, groupID = -1, rsrcStatus = st, postNotifyDelete = del\<rparr>"

text \<open>What the environment answers during one step.\<close>

record agps_env =
  stray_ip6 :: "Subscriber \<Rightarrow> u8 list"
  freed :: "nat \<Rightarrow> u32 \<times> u8 list"
  clone_ok :: bool
  call_ret :: int

text \<open>
  The members \<open>equals\<close> reads of the subscriber it is given: \<open>n\<close> subscribers have been deleted since the notification
  was made, so a receiver is gone once \<open>n\<close> is not 0.
\<close>

definition read_sub :: "agps_env \<Rightarrow> nat \<Rightarrow> Subscriber \<Rightarrow> u32 \<times> u8 list" where
  "read_sub e n s =
     (if n = 0 then (ID s, (case sub_class s of BITSubscriber a \<Rightarrow> a | _ \<Rightarrow> stray_ip6 e s)) else freed e n)"

text \<open>\<open>strncmp\<close> over the sixteen bytes of an address finds no difference.\<close>

definition same_ip6 :: "u8 list \<Rightarrow> u8 list \<Rightarrow> bool" where
  "same_ip6 a b = (takeWhile (\<lambda>x. x \<noteq> 0) (take 16 a) = takeWhile (\<lambda>x. x \<noteq> 0) (take 16 b))"

definition INADDR_NONE :: u32 where
  "INADDR_NONE = 0xffffffff"

definition equals :: "Subscriber \<Rightarrow> u32 \<times> u8 list \<Rightarrow> bool" where
  "equals s r = (case sub_class s of
     BITSubscriber a \<Rightarrow> ID s = fst r \<and> (INADDR_NONE \<noteq> ID s \<or> same_ip6 a (snd r))
   | _ \<Rightarrow> ID s = fst r)"

definition forMe :: "agps_env \<Rightarrow> nat \<Rightarrow> Notification \<Rightarrow> Subscriber \<Rightarrow> bool" where
  "forMe e n nt s = (case rcver nt of
     Some r \<Rightarrow> equals s (read_sub e n r)
   | None \<Rightarrow> BROADCAST_ALL = groupID nt \<or> (BROADCAST_ACTIVE = groupID nt \<and> \<not> isInactive s)
             \<or> (BROADCAST_INACTIVE = groupID nt \<and> isInactive s))"

section \<open>The state machine\<close>

text \<open>The pointers to state objects are the names of the states; each state has all four.\<close>

datatype agps_state =
    AgpsReleasedState
  | AgpsPendingState
  | AgpsAcquiredState
  | AgpsReleasingState

datatype dmn_status =
    GPSONE_LOC_API_IF_REQUEST_SUCCESS
  | GPSONE_LOC_API_IF_RELEASE_SUCCESS
  | GPSONE_LOC_API_IF_FAILURE

text \<open>
  What leaves the machine: the status callback of the framework (with type, whether an address family is set, and
  the wireless network), the data services, the modem (open and close status of a connection), the daemons, and
  messages to the engine's own queue.
\<close>

datatype agps_call =
    PlainCallback
  | StatusCallback AGpsStatusValue AGpsExtType bool string string
  | OpenAndStartDataCall
  | StopDataCall
  | CloseDataCall
  | AtlOpenStatus u32 bool "string option" int AGpsExtType
  | AtlCloseStatus u32 bool
  | DataConn u32 dmn_status
  | RequestATL u32 AGpsExtType
  | RequestSuplES u32
  | StartTimer nat

record AgpsStateMachine =
  mSubscribers :: "Subscriber list"
  mServicer :: servicerType
  mStatePtr :: agps_state
  mType :: AGpsExtType
  mAPN :: "string option"
  mBearer :: int
  mEnforceSingleSubscriber :: bool
  is_ds :: bool
  mRetries :: u8
  calls :: "agps_call list"

definition add_call :: "agps_call \<Rightarrow> AgpsStateMachine \<Rightarrow> AgpsStateMachine" where
  "add_call c m = m\<lparr>calls := calls m @ [c]\<rparr>"

definition AGPS_APN_BEARER_INVALID :: int where
  "AGPS_APN_BEARER_INVALID = -1"

definition new_machine :: "servicerType \<Rightarrow> AGpsExtType \<Rightarrow> bool \<Rightarrow> AgpsStateMachine" where
  "new_machine sv t single = \<lparr>mSubscribers = [], mServicer = sv, mStatePtr = AgpsReleasedState, mType = t, mAPN = None,
     mBearer = AGPS_APN_BEARER_INVALID, mEnforceSingleSubscriber = single, is_ds = False, mRetries = 0, calls = []\<rparr>"

definition new_ds_machine :: AgpsStateMachine where
  "new_ds_machine = (new_machine servicerTypeExt AGPS_TYPE_INVALID False)\<lparr>is_ds := True, mRetries := 0\<rparr>"

definition setAPN :: "string option \<Rightarrow> nat \<Rightarrow> AgpsStateMachine \<Rightarrow> AgpsStateMachine" where
  "setAPN apn len m = m\<lparr>mAPN := (case apn of Some a \<Rightarrow> Some (take len a) | None \<Rightarrow> None)\<rparr>"

subsection \<open>Telling a subscriber\<close>

text \<open>\<open>informStatus\<close>, of the machine for emergency calls.\<close>

definition informStatus :: "AgpsRsrcStatus \<Rightarrow> u32 \<Rightarrow> AgpsStateMachine \<Rightarrow> AgpsStateMachine" where
  "informStatus st i m = (case st of
     RSRC_UNSUBSCRIBE \<Rightarrow> add_call (AtlCloseStatus i True) m
   | RSRC_RELEASED \<Rightarrow> add_call CloseDataCall m
   | RSRC_DENIED \<Rightarrow> add_call (RequestATL i AGPS_TYPE_SUPL) (m\<lparr>mRetries := 0\<rparr>)
   | RSRC_GRANTED \<Rightarrow> add_call (AtlOpenStatus i True None AGPS_APN_BEARER_INVALID AGPS_TYPE_INVALID) m
   | _ \<Rightarrow> m)"

definition LOC_ENG_IF_REQUEST_SENDER_ID_GPSONE_DAEMON :: u32 where
  "LOC_ENG_IF_REQUEST_SENDER_ID_GPSONE_DAEMON = 3"

definition bit_notify :: "AgpsRsrcStatus \<Rightarrow> AgpsStateMachine \<Rightarrow> bool \<times> AgpsStateMachine" where
  "bit_notify st m = (let dc = DataConn LOC_ENG_IF_REQUEST_SENDER_ID_GPSONE_DAEMON in case st of
     RSRC_UNSUBSCRIBE \<Rightarrow> (True, add_call (dc GPSONE_LOC_API_IF_RELEASE_SUCCESS) m)
   | RSRC_RELEASED \<Rightarrow> (True, add_call (dc GPSONE_LOC_API_IF_RELEASE_SUCCESS) m)
   | RSRC_DENIED \<Rightarrow> (True, add_call (dc GPSONE_LOC_API_IF_FAILURE) m)
   | RSRC_GRANTED \<Rightarrow> (True, add_call (dc GPSONE_LOC_API_IF_REQUEST_SUCCESS) m)
   | _ \<Rightarrow> (False, m))"

definition atl_notify :: "u32 \<Rightarrow> bool \<Rightarrow> AgpsRsrcStatus \<Rightarrow> AgpsStateMachine \<Rightarrow> bool \<times> AgpsStateMachine" where
  "atl_notify i bc st m = (let t = (if bc then AGPS_TYPE_INVALID else mType m) in case st of
     RSRC_UNSUBSCRIBE \<Rightarrow> (True, add_call (AtlCloseStatus i True) m)
   | RSRC_RELEASED \<Rightarrow> (True, add_call (AtlCloseStatus i True) m)
   | RSRC_DENIED \<Rightarrow> (True, add_call (AtlOpenStatus i False (mAPN m) (mBearer m) t) m)
   | RSRC_GRANTED \<Rightarrow> (True, add_call (AtlOpenStatus i True (mAPN m) (mBearer m) t) m)
   | _ \<Rightarrow> (False, m))"

definition wifi_notify :: "u32 \<Rightarrow> AgpsRsrcStatus \<Rightarrow> AgpsStateMachine \<Rightarrow> bool \<times> AgpsStateMachine" where
  "wifi_notify i st m = (case st of
     RSRC_UNSUBSCRIBE \<Rightarrow> (True, m)
   | RSRC_RELEASED \<Rightarrow> (True, add_call (DataConn i GPSONE_LOC_API_IF_RELEASE_SUCCESS) m)
   | RSRC_DENIED \<Rightarrow> (True, add_call (DataConn i GPSONE_LOC_API_IF_FAILURE) m)
   | RSRC_GRANTED \<Rightarrow> (True, add_call (DataConn i GPSONE_LOC_API_IF_REQUEST_SUCCESS) m)
   | _ \<Rightarrow> (False, m))"

definition ds_notify :: "u32 \<Rightarrow> AgpsRsrcStatus \<Rightarrow> AgpsStateMachine \<Rightarrow> bool \<times> AgpsStateMachine" where
  "ds_notify i st m = (case st of
     RSRC_SUBSCRIBE \<Rightarrow> (False, m)
   | RSRC_STATUS_MAX \<Rightarrow> (False, m)
   | _ \<Rightarrow> (True, informStatus st i m))"

definition notifyRsrcStatus :: "agps_env \<Rightarrow> nat \<Rightarrow> Notification \<Rightarrow> Subscriber \<Rightarrow> AgpsStateMachine \<Rightarrow> bool \<times> AgpsStateMachine" where
  "notifyRsrcStatus e n nt s m =
     (if forMe e n nt s then
        (case sub_class s of
           BITSubscriber a \<Rightarrow> bit_notify (rsrcStatus nt) m
         | ATLSubscriber bc \<Rightarrow> atl_notify (ID s) bc (rsrcStatus nt) m
         | WIFISubscriber a b \<Rightarrow> wifi_notify (ID s) (rsrcStatus nt) m
         | DSSubscriber \<Rightarrow> ds_notify (ID s) (rsrcStatus nt) m)
      else (False, m))"

subsection \<open>The list of subscribers\<close>

definition linked_list_add :: "'a \<Rightarrow> 'a list \<Rightarrow> 'a list" where
  "linked_list_add x xs = x # xs"

text \<open>The first element the callback accepts, which is taken out when \<open>rm\<close> holds; the callback may change the state.\<close>

fun linked_list_search :: "('a \<Rightarrow> 's \<Rightarrow> bool \<times> 's) \<Rightarrow> bool \<Rightarrow> 'a list \<Rightarrow> 's \<Rightarrow> 'a option \<times> 'a list \<times> 's" where
  "linked_list_search eq rm [] s = (None, [], s)"
| "linked_list_search eq rm (x # xs) s =
     (let (b, s1) = eq x s in
      if b then (Some x, (if rm then xs else x # xs), s1)
      else let (r, ys, s2) = linked_list_search eq rm xs s1 in (r, x # ys, s2))"

definition hasSubscriber :: "agps_env \<Rightarrow> Notification \<Rightarrow> Subscriber \<Rightarrow> unit \<Rightarrow> bool \<times> unit" where
  "hasSubscriber e nt s u = (forMe e 0 nt s, ())"

definition find_subscriber :: "agps_env \<Rightarrow> Notification \<Rightarrow> AgpsStateMachine \<Rightarrow> Subscriber option" where
  "find_subscriber e nt m = fst (linked_list_search (hasSubscriber e nt) False (mSubscribers m) ())"

definition notifySubscriber :: "agps_env \<Rightarrow> nat \<Rightarrow> Notification \<Rightarrow> Subscriber \<Rightarrow> AgpsStateMachine \<Rightarrow> bool \<times> AgpsStateMachine" where
  "notifySubscriber e n nt s m = (let (b, m1) = notifyRsrcStatus e n nt s m in (b \<and> postNotifyDelete nt, m1))"

lemma search_shortens [termination_simp]:
  "linked_list_search eq True xs s = (Some x, ys, s') \<Longrightarrow> length ys < length xs"
  by (induction xs arbitrary: s ys) (auto split: prod.splits if_splits)

text \<open>Deletes subscribers one by one until a search finds none; \<open>n\<close> counts the deleted ones.\<close>

function notify_delete_loop :: "agps_env \<Rightarrow> nat \<Rightarrow> Notification \<Rightarrow> AgpsStateMachine \<Rightarrow> AgpsStateMachine" where
  "notify_delete_loop e n nt m =
     (let (r, ys, m1) = linked_list_search (notifySubscriber e n nt) True (mSubscribers m) m;
          m2 = m1\<lparr>mSubscribers := ys\<rparr>
      in case r of None \<Rightarrow> m2 | Some s \<Rightarrow> notify_delete_loop e (Suc n) nt m2)"
  by pat_completeness auto
termination
  by (relation "measure (\<lambda>(e, n, nt, m). length (mSubscribers m))") (auto dest: search_shortens [OF sym])

declare notify_delete_loop.simps [simp del]

definition notifySubscribers :: "agps_env \<Rightarrow> Notification \<Rightarrow> AgpsStateMachine \<Rightarrow> AgpsStateMachine" where
  "notifySubscribers e nt m =
     (if postNotifyDelete nt then notify_delete_loop e 0 nt m
      else let (r, ys, m1) = linked_list_search (notifySubscriber e 0 nt) False (mSubscribers m) m in m1)"

definition addSubscriber :: "agps_env \<Rightarrow> Subscriber \<Rightarrow> AgpsStateMachine \<Rightarrow> AgpsStateMachine" where
  "addSubscriber e s m =
     (if find_subscriber e (to_sub s RSRC_STATUS_MAX False) m = None \<and> clone_ok e
      then m\<lparr>mSubscribers := linked_list_add (clone s) (mSubscribers m)\<rparr> else m)"

definition hasSubscribers :: "AgpsStateMachine \<Rightarrow> bool" where
  "hasSubscribers m = (mSubscribers m \<noteq> [])"

definition first_active :: "agps_env \<Rightarrow> AgpsStateMachine \<Rightarrow> Subscriber option" where
  "first_active e m = find_subscriber e (to_group BROADCAST_ACTIVE RSRC_STATUS_MAX False) m"

definition hasActiveSubscribers :: "agps_env \<Rightarrow> AgpsStateMachine \<Rightarrow> bool" where
  "hasActiveSubscribers e m = (first_active e m \<noteq> None)"

definition dropAllSubscribers :: "AgpsStateMachine \<Rightarrow> AgpsStateMachine" where
  "dropAllSubscribers m = m\<lparr>mSubscribers := []\<rparr>"

text \<open>\<open>setInactive\<close> of the subscriber at a place in the list.\<close>

definition setInactive :: "nat \<Rightarrow> AgpsStateMachine \<Rightarrow> AgpsStateMachine" where
  "setInactive k m = (let s = mSubscribers m ! k; m1 = m\<lparr>mSubscribers := (mSubscribers m)[k := s\<lparr>mIsInactive := True\<rparr>]\<rparr> in
     case sub_class s of
       WIFISubscriber a b \<Rightarrow> m1
     | DSSubscriber \<Rightarrow> informStatus RSRC_UNSUBSCRIBE (ID s) m1
     | _ \<Rightarrow> m)"

end
