(* ===== verification/LocAgpsStates.thy ===== *)
theory LocAgpsStates
  imports LocAgps
begin

text \<open>
  The four states of the data connection and the operations of the state machine, of the one for the framework and
  the one for emergency calls (loc_eng_agps.cpp, \<open>AgpsReleasedState\<close> to \<open>DSStateMachine\<close>).

  The event \<open>RSRC_SUBSCRIBE\<close> comes with the subscriber of the caller, \<open>RSRC_UNSUBSCRIBE\<close> with an element of the
  list, given by its place, and the three answers with nothing.
\<close>

section \<open>Asking for the connection\<close>

definition LOC_API_ADAPTER_ERR_SUCCESS :: int where
  "LOC_API_ADAPTER_ERR_SUCCESS = 0"

definition LOC_API_ADAPTER_ERR_UNSUPPORTED :: int where
  "LOC_API_ADAPTER_ERR_UNSUPPORTED = 2"

definition LOC_API_ADAPTER_ERR_ENGINE_BUSY :: int where
  "LOC_API_ADAPTER_ERR_ENGINE_BUSY = 6"

definition MAX_START_DATA_CALL_RETRIES :: u8 where
  "MAX_START_DATA_CALL_RETRIES = 4"

definition DATA_CALL_RETRY_DELAY_MSEC :: nat where
  "DATA_CALL_RETRY_DELAY_MSEC = 500"

text \<open>The callback of the emergency machine's servicer.\<close>

definition dataCallCb :: "agps_env \<Rightarrow> AGpsStatusValue \<Rightarrow> AgpsStateMachine \<Rightarrow> int \<times> AgpsStateMachine" where
  "dataCallCb e action m =
     (if action = GPS_REQUEST_AGPS_DATA_CONN then (call_ret e, add_call OpenAndStartDataCall m)
      else (0, add_call StopDataCall m))"

definition base_sendRsrcRequest :: "agps_env \<Rightarrow> AGpsStatusValue \<Rightarrow> AgpsStateMachine \<Rightarrow> int \<times> AgpsStateMachine" where
  "base_sendRsrcRequest e action m =
     (let s = first_active e m in
      if (s = None) = (GPS_RELEASE_AGPS_DATA_CONN = action) then
        let (ssid, password) = (case s of
               Some t \<Rightarrow> (case sub_class t of
                  WIFISubscriber a b \<Rightarrow> ((case a of Some x \<Rightarrow> x | None \<Rightarrow> ''''), (case b of Some x \<Rightarrow> x | None \<Rightarrow> ''''))
                | _ \<Rightarrow> ('''', ''''))
             | None \<Rightarrow> ('''', ''''));
            c = (case mServicer m of
                servicerTypeNoCbParam \<Rightarrow> PlainCallback
              | _ \<Rightarrow> StatusCallback action (mType m) (s \<noteq> None) ssid password)
        in (0, add_call c m)
      else (0, m))"

text \<open>
  \<open>loc_timer_start\<close> returns a handle, which is not null since the callback is not; the code takes that for an error.
\<close>

definition ds_sendRsrcRequest :: "agps_env \<Rightarrow> AGpsStatusValue \<Rightarrow> AgpsStateMachine \<Rightarrow> int \<times> AgpsStateMachine" where
  "ds_sendRsrcRequest e action m =
     (let connHandle = (case first_active e m of Some s \<Rightarrow> ID s | None \<Rightarrow> - 1);
          (ret, m1) = dataCallCb e action m
      in if ret = LOC_API_ADAPTER_ERR_ENGINE_BUSY then
           let m2 = m1\<lparr>mRetries := mRetries m1 + 1\<rparr> in
           if mRetries m2 > MAX_START_DATA_CALL_RETRIES then (ret, informStatus RSRC_DENIED connHandle m2)
           else (- 1, add_call (StartTimer DATA_CALL_RETRY_DELAY_MSEC) m2)
         else if ret = LOC_API_ADAPTER_ERR_UNSUPPORTED then (ret, informStatus RSRC_DENIED connHandle m1)
         else if ret = LOC_API_ADAPTER_ERR_SUCCESS then (ret, m1)
         else if ret = - 1 then (ret, informStatus RSRC_DENIED connHandle m1)
         else (ret, m1))"

definition sendRsrcRequest :: "agps_env \<Rightarrow> AGpsStatusValue \<Rightarrow> AgpsStateMachine \<Rightarrow> int \<times> AgpsStateMachine" where
  "sendRsrcRequest e action m = (if is_ds m then ds_sendRsrcRequest e action m else base_sendRsrcRequest e action m)"

section \<open>The states\<close>

datatype rsrc_event =
    Subscribing Subscriber
  | Unsubscribing nat
  | Answered AgpsRsrcStatus

text \<open>The part the three states share that have subscribers to let go.\<close>

definition let_go :: "agps_env \<Rightarrow> nat \<Rightarrow> AgpsStateMachine \<Rightarrow> AgpsStateMachine" where
  "let_go e k m = (let s = mSubscribers m ! k in
     if waitForCloseComplete s then setInactive k m
     else notifySubscribers e (to_sub s RSRC_UNSUBSCRIBE True) m)"

definition released_event :: "agps_env \<Rightarrow> rsrc_event \<Rightarrow> AgpsStateMachine \<Rightarrow> agps_state \<times> AgpsStateMachine" where
  "released_event e ev m = (case ev of
     Subscribing s \<Rightarrow>
       let m1 = addSubscriber e s m; (ret, m2) = sendRsrcRequest e GPS_REQUEST_AGPS_DATA_CONN m1
       in (if ret = 0 then AgpsPendingState else AgpsReleasedState, m2)
   | Unsubscribing k \<Rightarrow>
       let s = mSubscribers m ! k
       in (AgpsReleasedState, snd (notifyRsrcStatus e 0 (to_sub s RSRC_UNSUBSCRIBE False) s m))
   | Answered st \<Rightarrow> (AgpsReleasedState, m))"

definition pending_event :: "agps_env \<Rightarrow> rsrc_event \<Rightarrow> AgpsStateMachine \<Rightarrow> agps_state \<times> AgpsStateMachine" where
  "pending_event e ev m = (case ev of
     Subscribing s \<Rightarrow> (AgpsPendingState, addSubscriber e s m)
   | Unsubscribing k \<Rightarrow>
       let m1 = let_go e k m in
       if \<not> hasSubscribers m1 then (AgpsReleasedState, snd (sendRsrcRequest e GPS_RELEASE_AGPS_DATA_CONN m1))
       else if \<not> hasActiveSubscribers e m1 then
         (AgpsReleasingState, snd (sendRsrcRequest e GPS_RELEASE_AGPS_DATA_CONN m1))
       else (AgpsPendingState, m1)
   | Answered st \<Rightarrow> (case st of
       RSRC_GRANTED \<Rightarrow> (AgpsAcquiredState, notifySubscribers e (to_group BROADCAST_ACTIVE RSRC_GRANTED False) m)
     | RSRC_DENIED \<Rightarrow> (AgpsReleasedState, notifySubscribers e (to_group BROADCAST_ALL RSRC_DENIED True) m)
     | _ \<Rightarrow> (AgpsPendingState, m)))"

definition acquired_event :: "agps_env \<Rightarrow> rsrc_event \<Rightarrow> AgpsStateMachine \<Rightarrow> agps_state \<times> AgpsStateMachine" where
  "acquired_event e ev m = (case ev of
     Subscribing s \<Rightarrow>
       (AgpsAcquiredState, addSubscriber e s (snd (notifyRsrcStatus e 0 (to_sub s RSRC_GRANTED False) s m)))
   | Unsubscribing k \<Rightarrow>
       let m1 = let_go e k m in
       if \<not> hasSubscribers m1 then (AgpsReleasedState, snd (sendRsrcRequest e GPS_RELEASE_AGPS_DATA_CONN m1))
       else if \<not> hasActiveSubscribers e m1 then
         (AgpsReleasingState, snd (sendRsrcRequest e GPS_RELEASE_AGPS_DATA_CONN m1))
       else (AgpsAcquiredState, m1)
   | Answered st \<Rightarrow> (case st of
       RSRC_RELEASED \<Rightarrow> (AgpsReleasedState, notifySubscribers e (to_group BROADCAST_ALL RSRC_RELEASED True) m)
     | _ \<Rightarrow> (AgpsAcquiredState, m)))"

text \<open>A denial here is a subscriber that left before the framework denied the connection.\<close>

definition releasing_event :: "agps_env \<Rightarrow> rsrc_event \<Rightarrow> AgpsStateMachine \<Rightarrow> agps_state \<times> AgpsStateMachine" where
  "releasing_event e ev m = (case ev of
     Subscribing s \<Rightarrow> (AgpsReleasingState, addSubscriber e s m)
   | Unsubscribing k \<Rightarrow>
       let m1 = let_go e k m in (if \<not> hasSubscribers m1 then AgpsReleasedState else AgpsReleasingState, m1)
   | Answered st \<Rightarrow>
       if st = RSRC_DENIED \<or> st = RSRC_RELEASED then
         let m1 = notifySubscribers e (to_group BROADCAST_INACTIVE st True) m in
         if hasActiveSubscribers e m1 then (AgpsPendingState, snd (sendRsrcRequest e GPS_REQUEST_AGPS_DATA_CONN m1))
         else (AgpsReleasedState, m1)
       else (AgpsReleasingState, m))"

text \<open>\<open>mStatePtr = mStatePtr->onRsrcEvent(event, data)\<close>.\<close>

definition state_event :: "agps_env \<Rightarrow> rsrc_event \<Rightarrow> AgpsStateMachine \<Rightarrow> AgpsStateMachine" where
  "state_event e ev m =
     (let (st, m1) = (case mStatePtr m of
          AgpsReleasedState \<Rightarrow> released_event e ev m
        | AgpsPendingState \<Rightarrow> pending_event e ev m
        | AgpsAcquiredState \<Rightarrow> acquired_event e ev m
        | AgpsReleasingState \<Rightarrow> releasing_event e ev m)
      in m1\<lparr>mStatePtr := st\<rparr>)"

section \<open>The operations of the machine\<close>

definition base_onRsrcEvent :: "agps_env \<Rightarrow> AgpsRsrcStatus \<Rightarrow> AgpsStateMachine \<Rightarrow> AgpsStateMachine" where
  "base_onRsrcEvent e ev m =
     (if ev \<in> {RSRC_GRANTED, RSRC_RELEASED, RSRC_DENIED} then state_event e (Answered ev) m else m)"

text \<open>A release that leaves the state as it is counts as a denial.\<close>

definition ds_onRsrcEvent :: "agps_env \<Rightarrow> AgpsRsrcStatus \<Rightarrow> AgpsStateMachine \<Rightarrow> AgpsStateMachine" where
  "ds_onRsrcEvent e ev m = (case ev of
     RSRC_GRANTED \<Rightarrow> state_event e (Answered RSRC_GRANTED) m
   | RSRC_RELEASED \<Rightarrow>
       let m1 = state_event e (Answered RSRC_RELEASED) m in
       if mStatePtr m1 \<noteq> mStatePtr m then m1 else state_event e (Answered RSRC_DENIED) m1
   | RSRC_DENIED \<Rightarrow> state_event e (Answered RSRC_DENIED) m
   | _ \<Rightarrow> m)"

definition onRsrcEvent :: "agps_env \<Rightarrow> AgpsRsrcStatus \<Rightarrow> AgpsStateMachine \<Rightarrow> AgpsStateMachine" where
  "onRsrcEvent e ev m = (if is_ds m then ds_onRsrcEvent e ev m else base_onRsrcEvent e ev m)"

definition subscribeRsrc :: "agps_env \<Rightarrow> Subscriber \<Rightarrow> AgpsStateMachine \<Rightarrow> AgpsStateMachine" where
  "subscribeRsrc e s m =
     (if mEnforceSingleSubscriber m \<and> hasSubscribers m
      then snd (notifySubscriber e 0 (to_group BROADCAST_ALL RSRC_DENIED True) s m)
      else state_event e (Subscribing s) m)"

text \<open>The place of the first subscriber that is equal to the given one.\<close>

fun place_of :: "(Subscriber \<Rightarrow> bool) \<Rightarrow> Subscriber list \<Rightarrow> nat option" where
  "place_of P [] = None"
| "place_of P (x # xs) = (if P x then Some 0 else map_option Suc (place_of P xs))"

definition unsubscribeRsrc :: "agps_env \<Rightarrow> Subscriber \<Rightarrow> AgpsStateMachine \<Rightarrow> bool \<times> AgpsStateMachine" where
  "unsubscribeRsrc e s m = (case place_of (forMe e 0 (to_sub s RSRC_STATUS_MAX False)) (mSubscribers m) of
     Some k \<Rightarrow> (True, state_event e (Unsubscribing k) m)
   | None \<Rightarrow> (False, m))"

definition retryCallback :: "agps_env \<Rightarrow> AgpsStateMachine \<Rightarrow> AgpsStateMachine" where
  "retryCallback e m = (case first_active e m of Some s \<Rightarrow> add_call (RequestSuplES (ID s)) m | None \<Rightarrow> m)"

end
