(* ===== verification/LocAgpsMsgs.thy ===== *)
theory LocAgpsMsgs
  imports LocAgpsStates
begin

text \<open>
  The messages of the location engine that reach the data connections (gps/loc_api/libloc_api_50001/loc_eng.cpp and
  LocEngAdapter.cpp), the requests of the daemons (loc_eng_dmn_conn_handler.cpp) and the answers of the
  framework. The engine has four state machines; a message is processed by the engine's thread, and what a
  machine posts (\<open>RequestATL\<close>, \<open>RequestSuplES\<close>) goes to the end of the same queue. The result \<open>None\<close> is a null
  pointer that is followed.
\<close>

section \<open>The machines of the engine\<close>

datatype nif = Agnss | Internet | Wifi | Ds

datatype loc_msg =
    LocEngReqRelBIT AGpsExtType u32 "u8 list option" bool
  | LocEngSuplEsOpened
  | LocEngSuplEsClosed
  | LocEngRequestSuplEs u32
  | LocEngRequestATL u32 AGpsExtType
  | LocEngReleaseATL u32
  | LocEngReqRelWifi AGpsExtType u32 "string option" "string option" bool
  | LocEngAtlOpenSuccess "nif option" string int
  | LocEngAtlClosed "nif option"
  | LocEngAtlOpenFailed "nif option"
  | LocEngDataClientInit int
  | LocEngUp

record loc_eng_data =
  agnss_nif :: "AgpsStateMachine option"
  internet_nif :: "AgpsStateMachine option"
  wifi_nif :: "AgpsStateMachine option"
  ds_nif :: "AgpsStateMachine option"
  has_adapter :: bool
  agps_status_cb :: bool
  mSupportsAgpsRequests :: bool
  modem :: "agps_call list"
  msg_q :: "loc_msg list"

definition machine :: "nif \<Rightarrow> loc_eng_data \<Rightarrow> AgpsStateMachine option" where
  "machine n y = (case n of Agnss \<Rightarrow> agnss_nif y | Internet \<Rightarrow> internet_nif y | Wifi \<Rightarrow> wifi_nif y | Ds \<Rightarrow> ds_nif y)"

definition put_machine :: "nif \<Rightarrow> AgpsStateMachine \<Rightarrow> loc_eng_data \<Rightarrow> loc_eng_data" where
  "put_machine n m y = (case n of
     Agnss \<Rightarrow> y\<lparr>agnss_nif := Some m\<rparr>
   | Internet \<Rightarrow> y\<lparr>internet_nif := Some m\<rparr>
   | Wifi \<Rightarrow> y\<lparr>wifi_nif := Some m\<rparr>
   | Ds \<Rightarrow> y\<lparr>ds_nif := Some m\<rparr>)"

definition getAgpsStateMachine :: "loc_eng_data \<Rightarrow> AGpsExtType \<Rightarrow> nif option" where
  "getAgpsStateMachine y t =
     (let n = (case t of
          AGPS_TYPE_WIFI \<Rightarrow> Wifi
        | AGPS_TYPE_INVALID \<Rightarrow> Agnss
        | AGPS_TYPE_SUPL \<Rightarrow> Agnss
        | AGPS_TYPE_SUPL_ES \<Rightarrow> (if ds_nif y \<noteq> None then Ds else Agnss)
        | _ \<Rightarrow> Internet)
      in if machine n y = None then None else Some n)"

text \<open>The adapter's \<open>requestATL\<close> and \<open>requestSuplES\<close> post only when the adapter supports them.\<close>

fun posted :: "agps_call list \<Rightarrow> loc_msg list" where
  "posted [] = []"
| "posted (RequestATL i t # cs) = LocEngRequestATL i t # posted cs"
| "posted (RequestSuplES i # cs) = LocEngRequestSuplEs i # posted cs"
| "posted (c # cs) = posted cs"

definition post :: "loc_msg list \<Rightarrow> loc_eng_data \<Rightarrow> loc_eng_data" where
  "post ms y = y\<lparr>msg_q := msg_q y @ (if mSupportsAgpsRequests y then ms else [])\<rparr>"

definition on_machine :: "nif \<Rightarrow> (AgpsStateMachine \<Rightarrow> 'r \<times> AgpsStateMachine) \<Rightarrow> loc_eng_data \<Rightarrow> ('r \<times> loc_eng_data) option" where
  "on_machine n f y = (case machine n y of
     None \<Rightarrow> None
   | Some m \<Rightarrow> let (r, m1) = f m in
       Some (r, post (posted (drop (length (calls m)) (calls m1))) (put_machine n m1 y)))"

definition run_machine :: "nif \<Rightarrow> (AgpsStateMachine \<Rightarrow> AgpsStateMachine) \<Rightarrow> loc_eng_data \<Rightarrow> loc_eng_data option" where
  "run_machine n f y = map_option snd (on_machine n (\<lambda>m. ((), f m)) y)"

definition tell_modem :: "agps_call \<Rightarrow> loc_eng_data \<Rightarrow> loc_eng_data" where
  "tell_modem c y = y\<lparr>modem := modem y @ [c]\<rparr>"

section \<open>The messages\<close>

definition bit_sub :: "u32 \<Rightarrow> u8 list option \<Rightarrow> Subscriber" where
  "bit_sub ipv4 ipv6 = \<lparr>ID = ipv4, sub_class = BITSubscriber (case ipv6 of None \<Rightarrow> [0] | Some a \<Rightarrow> take 16 a),
     mIsInactive = False\<rparr>"

definition atl_sub :: "u32 \<Rightarrow> bool \<Rightarrow> Subscriber" where
  "atl_sub i bc = \<lparr>ID = i, sub_class = ATLSubscriber bc, mIsInactive = False\<rparr>"

definition SSID_BUF_SIZE :: nat where
  "SSID_BUF_SIZE = 33"

text \<open>Both the message and the subscriber copy the strings with \<open>strlcpy\<close>.\<close>

definition wifi_sub :: "u32 \<Rightarrow> string option \<Rightarrow> string option \<Rightarrow> Subscriber" where
  "wifi_sub sender ssid password = \<lparr>ID = sender,
     sub_class = WIFISubscriber (map_option (take (SSID_BUF_SIZE - 1)) ssid) (map_option (take (SSID_BUF_SIZE - 1)) password),
     mIsInactive = False\<rparr>"

definition ds_sub :: "u32 \<Rightarrow> Subscriber" where
  "ds_sub i = \<lparr>ID = i, sub_class = DSSubscriber, mIsInactive = False\<rparr>"

definition proc_ReqRelBIT :: "agps_env \<Rightarrow> AGpsExtType \<Rightarrow> u32 \<Rightarrow> u8 list option \<Rightarrow> bool \<Rightarrow> loc_eng_data \<Rightarrow> loc_eng_data option" where
  "proc_ReqRelBIT e t ipv4 ipv6 isReq y = (case getAgpsStateMachine y t of
     None \<Rightarrow> None
   | Some n \<Rightarrow>
       if isReq then run_machine n (subscribeRsrc e (bit_sub ipv4 ipv6)) y
       else run_machine n (\<lambda>m. snd (unsubscribeRsrc e (bit_sub ipv4 ipv6) m)) y)"

definition proc_SuplEsOpened :: "agps_env \<Rightarrow> loc_eng_data \<Rightarrow> loc_eng_data option" where
  "proc_SuplEsOpened e y = (if ds_nif y \<noteq> None then run_machine Ds (onRsrcEvent e RSRC_GRANTED) y else Some y)"

definition proc_SuplEsClosed :: "agps_env \<Rightarrow> loc_eng_data \<Rightarrow> loc_eng_data option" where
  "proc_SuplEsClosed e y = (if ds_nif y \<noteq> None then run_machine Ds (onRsrcEvent e RSRC_RELEASED) y else Some y)"

definition proc_RequestSuplEs :: "agps_env \<Rightarrow> u32 \<Rightarrow> loc_eng_data \<Rightarrow> loc_eng_data option" where
  "proc_RequestSuplEs e i y =
     (if ds_nif y \<noteq> None then run_machine Ds (subscribeRsrc e (ds_sub i)) y
      else if agnss_nif y \<noteq> None then run_machine Agnss (subscribeRsrc e (atl_sub i False)) y
      else Some (tell_modem (AtlOpenStatus i False None (- 1) AGPS_TYPE_INVALID) y))"

definition proc_RequestATL :: "agps_env \<Rightarrow> u32 \<Rightarrow> AGpsExtType \<Rightarrow> loc_eng_data \<Rightarrow> loc_eng_data option" where
  "proc_RequestATL e i t y = (case getAgpsStateMachine y t of
     Some n \<Rightarrow> run_machine n (subscribeRsrc e (atl_sub i (AGPS_TYPE_INVALID = t))) y
   | None \<Rightarrow> Some (tell_modem (AtlOpenStatus i False None (- 1) t) y))"

text \<open>One of the three attempts to find the connection: the machine, when it is there and has it.\<close>

definition try_release :: "agps_env \<Rightarrow> nif \<Rightarrow> Subscriber \<Rightarrow> loc_eng_data \<Rightarrow> bool \<times> loc_eng_data" where
  "try_release e n s y = (case on_machine n (unsubscribeRsrc e s) y of None \<Rightarrow> (False, y) | Some r \<Rightarrow> r)"

definition proc_ReleaseATL :: "agps_env \<Rightarrow> u32 \<Rightarrow> loc_eng_data \<Rightarrow> loc_eng_data option" where
  "proc_ReleaseATL e i y =
     (let (b1, y1) = try_release e Agnss (atl_sub i False) y in
      if b1 then Some y1 else
      let (b2, y2) = try_release e Internet (atl_sub i False) y1 in
      if b2 then Some y2 else
      let (b3, y3) = try_release e Ds (ds_sub i) y2 in
      if b3 then Some y3 else Some (tell_modem (AtlCloseStatus i False) y3))"

definition proc_ReqRelWifi ::
  "agps_env \<Rightarrow> AGpsExtType \<Rightarrow> u32 \<Rightarrow> string option \<Rightarrow> string option \<Rightarrow> bool \<Rightarrow> loc_eng_data \<Rightarrow> loc_eng_data option" where
  "proc_ReqRelWifi e t sender ssid password isReq y =
     (if wifi_nif y \<noteq> None then
        (let s = wifi_sub sender ssid password in
         if isReq then run_machine Wifi (subscribeRsrc e s) y
         else run_machine Wifi (\<lambda>m. snd (unsubscribeRsrc e s m)) y)
      else Some (tell_modem (AtlOpenStatus sender False None (- 1) t) y))"

definition proc_AtlOpenSuccess :: "agps_env \<Rightarrow> nif option \<Rightarrow> string \<Rightarrow> int \<Rightarrow> loc_eng_data \<Rightarrow> loc_eng_data option" where
  "proc_AtlOpenSuccess e sm apn bearer y = (case sm of
     None \<Rightarrow> None
   | Some n \<Rightarrow> run_machine n (\<lambda>m. onRsrcEvent e RSRC_GRANTED (setAPN (Some apn) (length apn) (m\<lparr>mBearer := bearer\<rparr>))) y)"

definition proc_AtlClosed :: "agps_env \<Rightarrow> nif option \<Rightarrow> loc_eng_data \<Rightarrow> loc_eng_data option" where
  "proc_AtlClosed e sm y = (case sm of None \<Rightarrow> None | Some n \<Rightarrow> run_machine n (onRsrcEvent e RSRC_RELEASED) y)"

definition proc_AtlOpenFailed :: "agps_env \<Rightarrow> nif option \<Rightarrow> loc_eng_data \<Rightarrow> loc_eng_data option" where
  "proc_AtlOpenFailed e sm y = (case sm of None \<Rightarrow> None | Some n \<Rightarrow> run_machine n (onRsrcEvent e RSRC_DENIED) y)"

definition proc_DataClientInit :: "int \<Rightarrow> loc_eng_data \<Rightarrow> loc_eng_data" where
  "proc_DataClientInit ret y = (if ret = 0 then y\<lparr>ds_nif := Some new_ds_machine\<rparr> else y)"

text \<open>What the restart of the modem does to the connections.\<close>

definition loc_eng_handle_engine_up :: "loc_eng_data \<Rightarrow> loc_eng_data" where
  "loc_eng_handle_engine_up y =
     (if agps_status_cb y
      then y\<lparr>agnss_nif := map_option dropAllSubscribers (agnss_nif y),
             internet_nif := map_option dropAllSubscribers (internet_nif y)\<rparr>
      else y)"

definition proc :: "agps_env \<Rightarrow> loc_msg \<Rightarrow> loc_eng_data \<Rightarrow> loc_eng_data option" where
  "proc e msg y = (case msg of
     LocEngReqRelBIT t v4 v6 b \<Rightarrow> proc_ReqRelBIT e t v4 v6 b y
   | LocEngSuplEsOpened \<Rightarrow> proc_SuplEsOpened e y
   | LocEngSuplEsClosed \<Rightarrow> proc_SuplEsClosed e y
   | LocEngRequestSuplEs i \<Rightarrow> proc_RequestSuplEs e i y
   | LocEngRequestATL i t \<Rightarrow> proc_RequestATL e i t y
   | LocEngReleaseATL i \<Rightarrow> proc_ReleaseATL e i y
   | LocEngReqRelWifi t i a b r \<Rightarrow> proc_ReqRelWifi e t i a b r y
   | LocEngAtlOpenSuccess sm apn bearer \<Rightarrow> proc_AtlOpenSuccess e sm apn bearer y
   | LocEngAtlClosed sm \<Rightarrow> proc_AtlClosed e sm y
   | LocEngAtlOpenFailed sm \<Rightarrow> proc_AtlOpenFailed e sm y
   | LocEngDataClientInit ret \<Rightarrow> Some (proc_DataClientInit ret y)
   | LocEngUp \<Rightarrow> Some (loc_eng_handle_engine_up y))"

section \<open>Who posts them\<close>

text \<open>The interface of the framework. The machine is looked up when the message is made.\<close>

definition MAX_APN_LEN :: nat where
  "MAX_APN_LEN = 100"

definition send :: "loc_msg \<Rightarrow> loc_eng_data \<Rightarrow> loc_eng_data" where
  "send msg y = y\<lparr>msg_q := msg_q y @ [msg]\<rparr>"

definition loc_eng_agps_open :: "AGpsExtType \<Rightarrow> string option \<Rightarrow> int \<Rightarrow> loc_eng_data \<Rightarrow> int \<times> loc_eng_data" where
  "loc_eng_agps_open t apn bearer y =
     (if \<not> (has_adapter y \<and> agps_status_cb y) then (- 1, y)
      else case apn of
        None \<Rightarrow> (0, y)
      | Some a \<Rightarrow> (0, send (LocEngAtlOpenSuccess (getAgpsStateMachine y t) (take MAX_APN_LEN a) bearer) y))"

definition loc_eng_agps_closed :: "AGpsExtType \<Rightarrow> loc_eng_data \<Rightarrow> int \<times> loc_eng_data" where
  "loc_eng_agps_closed t y =
     (if \<not> (has_adapter y \<and> agps_status_cb y) then (- 1, y)
      else (0, send (LocEngAtlClosed (getAgpsStateMachine y t)) y))"

definition loc_eng_agps_open_failed :: "AGpsExtType \<Rightarrow> loc_eng_data \<Rightarrow> int \<times> loc_eng_data" where
  "loc_eng_agps_open_failed t y =
     (if \<not> (has_adapter y \<and> agps_status_cb y) then (- 1, y)
      else (0, send (LocEngAtlOpenFailed (getAgpsStateMachine y t)) y))"

text \<open>\<open>caps\<close>: the capabilities have MSA or MSB; \<open>emergency\<close>: emergency calls use a connection of their own.\<close>

definition loc_eng_agps_init :: "bool \<Rightarrow> bool \<Rightarrow> int \<Rightarrow> bool \<Rightarrow> loc_eng_data \<Rightarrow> loc_eng_data" where
  "loc_eng_agps_init caps emergency ret callbacks y =
     (if \<not> has_adapter y \<or> agps_status_cb y \<or> \<not> callbacks then y
      else let y1 = y\<lparr>agps_status_cb := True,
                      internet_nif := Some (new_machine servicerTypeAgps AGPS_TYPE_WWAN_ANY False),
                      wifi_nif := Some (new_machine servicerTypeAgps AGPS_TYPE_WIFI True)\<rparr> in
        if caps then
          let y2 = y1\<lparr>agnss_nif := Some (new_machine servicerTypeAgps AGPS_TYPE_SUPL False)\<rparr> in
          if mSupportsAgpsRequests y2 \<and> emergency then send (LocEngDataClientInit ret) y2 else y2
        else y1)"

text \<open>The modem's requests, through the adapter.\<close>

definition requestATL :: "u32 \<Rightarrow> AGpsExtType \<Rightarrow> loc_eng_data \<Rightarrow> bool \<times> loc_eng_data" where
  "requestATL i t y = (mSupportsAgpsRequests y, post [LocEngRequestATL i t] y)"

definition releaseATL :: "u32 \<Rightarrow> loc_eng_data \<Rightarrow> bool \<times> loc_eng_data" where
  "releaseATL i y = (mSupportsAgpsRequests y, post [LocEngReleaseATL i] y)"

definition requestSuplES :: "u32 \<Rightarrow> loc_eng_data \<Rightarrow> bool \<times> loc_eng_data" where
  "requestSuplES i y = (mSupportsAgpsRequests y, post [LocEngRequestSuplEs i] y)"

definition reportDataCallOpened :: "loc_eng_data \<Rightarrow> bool \<times> loc_eng_data" where
  "reportDataCallOpened y = (mSupportsAgpsRequests y, post [LocEngSuplEsOpened] y)"

definition reportDataCallClosed :: "loc_eng_data \<Rightarrow> bool \<times> loc_eng_data" where
  "reportDataCallClosed y = (mSupportsAgpsRequests y, post [LocEngSuplEsClosed] y)"

text \<open>The requests of the daemons, with the numbers of the message.\<close>

datatype if_request_type = IF_REQUEST_TYPE_SUPL | IF_REQUEST_TYPE_WIFI | IF_REQUEST_TYPE_ANY | IF_REQUEST_TYPE_INVALID

definition if_type :: "if_request_type \<Rightarrow> AGpsExtType option" where
  "if_type t = (case t of
     IF_REQUEST_TYPE_SUPL \<Rightarrow> Some AGPS_TYPE_SUPL
   | IF_REQUEST_TYPE_WIFI \<Rightarrow> Some AGPS_TYPE_WIFI
   | IF_REQUEST_TYPE_ANY \<Rightarrow> Some AGPS_TYPE_ANY
   | IF_REQUEST_TYPE_INVALID \<Rightarrow> None)"

definition if_message ::
  "bool \<Rightarrow> if_request_type \<Rightarrow> u32 \<Rightarrow> u32 \<Rightarrow> u8 list \<Rightarrow> string \<Rightarrow> string \<Rightarrow> loc_eng_data \<Rightarrow> int \<times> loc_eng_data" where
  "if_message isReq t sender ipv4 ipv6 ssid password y = (case if_type t of
     None \<Rightarrow> (- 1, y)
   | Some ty \<Rightarrow>
       if sender \<in> {0, 1, 2} then (0, send (LocEngReqRelWifi ty sender (Some ssid) (Some password) isReq) y)
       else if sender = LOC_ENG_IF_REQUEST_SENDER_ID_GPSONE_DAEMON then
         (0, send (LocEngReqRelBIT ty ipv4 (Some ipv6) isReq) y)
       else (- 1, y))"

text \<open>Only the request checks that there is an engine (\<open>loc_api_handle\<close>).\<close>

definition loc_eng_dmn_conn_loc_api_server_if_request_handler ::
  "bool \<Rightarrow> if_request_type \<Rightarrow> u32 \<Rightarrow> u32 \<Rightarrow> u8 list \<Rightarrow> string \<Rightarrow> string \<Rightarrow> loc_eng_data \<Rightarrow> (int \<times> loc_eng_data) option" where
  "loc_eng_dmn_conn_loc_api_server_if_request_handler handle t sender ipv4 ipv6 ssid password y =
     (if \<not> handle then Some (1, y) else Some (if_message True t sender ipv4 ipv6 ssid password y))"

definition loc_eng_dmn_conn_loc_api_server_if_release_handler ::
  "bool \<Rightarrow> if_request_type \<Rightarrow> u32 \<Rightarrow> u32 \<Rightarrow> u8 list \<Rightarrow> string \<Rightarrow> string \<Rightarrow> loc_eng_data \<Rightarrow> (int \<times> loc_eng_data) option" where
  "loc_eng_dmn_conn_loc_api_server_if_release_handler handle t sender ipv4 ipv6 ssid password y =
     (let (rc, y1) = if_message False t sender ipv4 ipv6 ssid password y in
      if \<not> handle \<and> rc = 0 then None else Some (rc, y1))"

section \<open>The engine's thread\<close>

text \<open>The thread takes the oldest message; a retry timer that expires runs its callback on the thread of the timers.\<close>

definition agps_thread_step :: "agps_env \<Rightarrow> loc_eng_data \<Rightarrow> loc_eng_data option" where
  "agps_thread_step e y = (case msg_q y of [] \<Rightarrow> Some y | msg # ms \<Rightarrow> proc e msg (y\<lparr>msg_q := ms\<rparr>))"

definition delay_callback :: "agps_env \<Rightarrow> loc_eng_data \<Rightarrow> loc_eng_data option" where
  "delay_callback e y = run_machine Ds (retryCallback e) y"

end
