(* ===== verification/LocAgpsInv.thy ===== *)
theory LocAgpsInv
  imports LocAgpsMsgs
begin

text \<open>
  The invariant of the data connections: the state of a machine fits its subscribers and what the framework was asked
  last, in every run of the engine's thread.
\<close>

section \<open>Searches\<close>

lemma find_subscriber_find: "find_subscriber e nt m = find (forMe e 0 nt) (mSubscribers m)"
proof -
  have "fst (linked_list_search (hasSubscriber e nt) False xs ()) = find (forMe e 0 nt) xs" for xs
    by (induction xs) (auto simp: hasSubscriber_def split: prod.splits)
  then show ?thesis by (simp add: find_subscriber_def)
qed

lemma forMe_group [simp]:
  "forMe e n (to_group BROADCAST_ALL st del) s"
  "forMe e n (to_group BROADCAST_ACTIVE st del) s = (\<not> isInactive s)"
  "forMe e n (to_group BROADCAST_INACTIVE st del) s = isInactive s"
  by (simp_all add: forMe_def to_group_def BROADCAST_ALL_def BROADCAST_ACTIVE_def BROADCAST_INACTIVE_def)

lemma notification_fields [simp]:
  "rsrcStatus (to_group g st del) = st" "postNotifyDelete (to_group g st del) = del"
  "rsrcStatus (to_sub s st del) = st" "postNotifyDelete (to_sub s st del) = del"
  by (simp_all add: to_group_def to_sub_def)

lemma first_active_find: "first_active e m = find (\<lambda>s. \<not> isInactive s) (mSubscribers m)"
proof -
  have "forMe e 0 (to_group BROADCAST_ACTIVE RSRC_STATUS_MAX False) = (\<lambda>s. \<not> isInactive s)" by (rule ext) simp
  then show ?thesis by (simp add: first_active_def find_subscriber_find)
qed

lemma hasActive_iff [simp]: "hasActiveSubscribers e m = (\<exists>s \<in> set (mSubscribers m). \<not> isInactive s)"
  by (auto simp: hasActiveSubscribers_def first_active_find find_None_iff2 find_None_iff)

lemma equals_itself [simp]: "equals s (read_sub e 0 s)"
  by (simp add: equals_def read_sub_def same_ip6_def split: subscriber_class.split)

lemma forMe_itself [simp]: "forMe e 0 (to_sub s st del) s"
  by (simp add: forMe_def to_sub_def)

lemma place_of_Some: "place_of P xs = Some k \<Longrightarrow> k < length xs \<and> P (xs ! k)"
  by (induction xs arbitrary: k) (auto split: if_splits)

lemma place_of_None: "place_of P xs = None \<longleftrightarrow> (\<forall>x \<in> set xs. \<not> P x)"
  by (induction xs) auto

section \<open>What a notification changes\<close>

text \<open>The calls that do not ask the framework for anything.\<close>

definition aside :: "agps_call list \<Rightarrow> bool" where
  "aside cs = (\<forall>c \<in> set cs. case c of StatusCallback a t b x y \<Rightarrow> False | _ \<Rightarrow> True)"

lemma aside_simps [simp]: "aside []" "aside (xs @ ys) = (aside xs \<and> aside ys)"
  by (auto simp: aside_def)

text \<open>All that a notification may change is the list of subscribers, the retries and the calls.\<close>

definition tells :: "AgpsStateMachine \<Rightarrow> AgpsStateMachine \<Rightarrow> bool" where
  "tells m m' = (mServicer m' = mServicer m \<and> mStatePtr m' = mStatePtr m \<and> mType m' = mType m
     \<and> mEnforceSingleSubscriber m' = mEnforceSingleSubscriber m \<and> is_ds m' = is_ds m
     \<and> (\<exists>cs. calls m' = calls m @ cs \<and> aside cs))"

lemma tells_refl [simp]: "tells m m"
  by (simp add: tells_def exI [of _ "[]"])

lemma tells_trans: "tells a b \<Longrightarrow> tells b c \<Longrightarrow> tells a c"
  unfolding tells_def by (metis aside_simps(2) append.assoc)

lemma tells_list [simp]: "tells m (m'\<lparr>mSubscribers := xs\<rparr>) = tells m m'"
  by (simp add: tells_def)

lemma tells_from_list [simp]: "tells (m\<lparr>mSubscribers := xs\<rparr>) m' = tells m m'"
  by (simp add: tells_def)

lemma tells_call [simp]: "tells m (add_call c m) = aside [c]"
  by (simp add: tells_def add_call_def)

lemma informStatus_tells: "tells m (informStatus st i m) \<and> mSubscribers (informStatus st i m) = mSubscribers m"
  by (simp add: informStatus_def tells_def add_call_def aside_def split: AgpsRsrcStatus.split)

lemma notify_tells:
  "tells m (snd (notifyRsrcStatus e n nt s m)) \<and> mSubscribers (snd (notifyRsrcStatus e n nt s m)) = mSubscribers m"
  using informStatus_tells
  by (auto simp: notifyRsrcStatus_def bit_notify_def atl_notify_def wifi_notify_def ds_notify_def Let_def
      add_call_def tells_def aside_def split: subscriber_class.split AgpsRsrcStatus.split)

lemma notifySubscriber_snd: "snd (notifySubscriber e n nt s m) = snd (notifyRsrcStatus e n nt s m)"
  by (simp add: notifySubscriber_def split: prod.split)

lemma notifySubscriber_fst: "fst (notifySubscriber e n nt s m) = (fst (notifyRsrcStatus e n nt s m) \<and> postNotifyDelete nt)"
  by (simp add: notifySubscriber_def split: prod.split)

text \<open>A subscriber a notification is for takes it, when it is an answer or the unsubscription.\<close>

lemma notify_fst: "st \<in> {RSRC_UNSUBSCRIBE, RSRC_GRANTED, RSRC_RELEASED, RSRC_DENIED} \<Longrightarrow> rsrcStatus nt = st \<Longrightarrow>
   fst (notifyRsrcStatus e n nt s m) = forMe e n nt s"
  by (auto simp: notifyRsrcStatus_def bit_notify_def atl_notify_def wifi_notify_def ds_notify_def Let_def
      split: subscriber_class.split)

lemma search_tells:
  "linked_list_search (notifySubscriber e n nt) rm xs m = (r, ys, m') \<Longrightarrow>
     tells m m' \<and> mSubscribers m' = mSubscribers m"
proof (induction xs arbitrary: m r ys)
  case Nil
  then show ?case by simp
next
  case (Cons x xs)
  obtain b m1 where n: "notifySubscriber e n nt x m = (b, m1)" by fastforce
  have m1: "tells m m1 \<and> mSubscribers m1 = mSubscribers m"
    using notify_tells [of m e n nt x] notifySubscriber_snd [of e n nt x m] n by simp
  show ?case
  proof (cases b)
    case True
    then show ?thesis using Cons.prems n m1 by simp
  next
    case False
    then obtain r' ys' where "linked_list_search (notifySubscriber e n nt) rm xs m1 = (r', ys', m')"
      using Cons.prems n by (auto split: prod.splits)
    from Cons.IH [OF this] m1 show ?thesis by (auto intro: tells_trans)
  qed
qed

text \<open>The search takes out the first subscriber the notification is for, or there is none.\<close>

lemma search_takes:
  assumes "rsrcStatus nt \<in> {RSRC_UNSUBSCRIBE, RSRC_RELEASED, RSRC_DENIED}" and "postNotifyDelete nt"
  shows "linked_list_search (notifySubscriber e n nt) True xs m = (r, ys, m') \<Longrightarrow>
     (case r of None \<Rightarrow> ys = xs \<and> (\<forall>x \<in> set xs. \<not> forMe e n nt x)
      | Some s \<Rightarrow> forMe e n nt s \<and> (\<exists>as bs. xs = as @ s # bs \<and> ys = as @ bs))"
proof (induction xs arbitrary: m r ys m')
  case Nil
  then show ?case by simp
next
  case (Cons x xs)
  obtain b m1 where n: "notifySubscriber e n nt x m = (b, m1)" by fastforce
  have b: "b = forMe e n nt x"
    using notifySubscriber_fst [of e n nt x m] notify_fst [OF _ refl, of nt e n x m] assms n by auto
  show ?case
  proof (cases b)
    case True
    then have "r = Some x \<and> ys = xs" using Cons.prems n by simp
    then show ?thesis using True b by (auto intro: exI [of _ "[]"])
  next
    case False
    obtain r' ys' m2 where q: "linked_list_search (notifySubscriber e n nt) True xs m1 = (r', ys', m2)"
      using prod_cases3 by blast
    then have z: "r = r'" "ys = x # ys'" using Cons.prems n False by auto
    show ?thesis
    proof (cases r')
      case None
      then show ?thesis using Cons.IH [OF q] z False b by simp
    next
      case (Some s)
      then have "forMe e n nt s \<and> (\<exists>as bs. xs = as @ s # bs \<and> ys' = as @ bs)" using Cons.IH [OF q] by simp
      then obtain as bs where "forMe e n nt s" "xs = as @ s # bs" "ys' = as @ bs" by blast
      then show ?thesis using z Some by (auto intro: exI [of _ "x # as"])
    qed
  qed
qed

lemma delete_loop_tells: "tells m (notify_delete_loop e n nt m)"
proof (induction e n nt m rule: notify_delete_loop.induct)
  case (1 e n nt m)
  obtain r ys m1 where q: "linked_list_search (notifySubscriber e n nt) True (mSubscribers m) m = (r, ys, m1)"
    using prod_cases3 by blast
  have t: "tells m m1" using search_tells [OF q] by simp
  show ?case
  proof (cases r)
    case None
    then show ?thesis using t by (simp add: notify_delete_loop.simps [of e n nt m] q)
  next
    case (Some s)
    have "tells m1 (notify_delete_loop e (Suc n) nt (m1\<lparr>mSubscribers := ys\<rparr>))"
      using "1.IH" [OF q [symmetric] refl refl refl Some] by simp
    from tells_trans [OF t this] Some show ?thesis by (simp add: notify_delete_loop.simps [of e n nt m] q)
  qed
qed

lemma notifySubscribers_tells: "tells m (notifySubscribers e nt m)"
proof (cases "postNotifyDelete nt")
  case True
  then show ?thesis by (simp add: notifySubscribers_def delete_loop_tells)
next
  case False
  obtain r ys m1 where q: "linked_list_search (notifySubscriber e 0 nt) False (mSubscribers m) m = (r, ys, m1)"
    using prod_cases3 by blast
  show ?thesis using False search_tells [OF q] by (simp add: notifySubscribers_def q)
qed

lemma notifySubscribers_keeps: "\<not> postNotifyDelete nt \<Longrightarrow> mSubscribers (notifySubscribers e nt m) = mSubscribers m"
proof -
  assume "\<not> postNotifyDelete nt"
  moreover obtain r ys m1 where q: "linked_list_search (notifySubscriber e 0 nt) False (mSubscribers m) m = (r, ys, m1)"
    using prod_cases3 by blast
  ultimately show ?thesis using search_tells [OF q] by (simp add: notifySubscribers_def q)
qed

text \<open>A broadcast that deletes leaves the subscribers it is not for.\<close>

lemma delete_loop_group:
  "(\<And>i. forMe e i nt = forMe e 0 nt) \<Longrightarrow> rsrcStatus nt \<in> {RSRC_UNSUBSCRIBE, RSRC_RELEASED, RSRC_DENIED} \<Longrightarrow>
   postNotifyDelete nt \<Longrightarrow>
   mSubscribers (notify_delete_loop e n nt m) = filter (\<lambda>s. \<not> forMe e 0 nt s) (mSubscribers m)"
proof (induction e n nt m rule: notify_delete_loop.induct)
  case (1 e n nt m)
  note any = "1.prems"(1)
  obtain r ys m1 where q: "linked_list_search (notifySubscriber e n nt) True (mSubscribers m) m = (r, ys, m1)"
    using prod_cases3 by blast
  note taken = search_takes [OF "1.prems"(2,3) q, unfolded any [of n]]
  show ?case
  proof (cases r)
    case None
    then show ?thesis using taken by (simp add: notify_delete_loop.simps [of e n nt m] q)
  next
    case (Some s)
    then obtain as bs where s: "forMe e 0 nt s" "mSubscribers m = as @ s # bs" "ys = as @ bs" using taken by auto
    have "mSubscribers (notify_delete_loop e (Suc n) nt (m1\<lparr>mSubscribers := ys\<rparr>)) = filter (\<lambda>s. \<not> forMe e 0 nt s) ys"
      using "1.IH" [OF q [symmetric] refl refl refl Some any "1.prems"(2,3)] by simp
    moreover have "notify_delete_loop e n nt m = notify_delete_loop e (Suc n) nt (m1\<lparr>mSubscribers := ys\<rparr>)"
      using Some by (simp add: notify_delete_loop.simps [of e n nt m] q)
    ultimately show ?thesis using s by simp
  qed
qed

lemma broadcast_deletes:
  "st \<in> {RSRC_UNSUBSCRIBE, RSRC_RELEASED, RSRC_DENIED} \<Longrightarrow>
   mSubscribers (notifySubscribers e (to_group g st True) m) = filter (\<lambda>s. \<not> forMe e 0 (to_group g st True) s) (mSubscribers m)"
proof -
  have "forMe e i (to_group g st True) = forMe e 0 (to_group g st True)" for i
    by (rule ext) (simp add: forMe_def to_group_def)
  then show "st \<in> {RSRC_UNSUBSCRIBE, RSRC_RELEASED, RSRC_DENIED} \<Longrightarrow> ?thesis"
    using delete_loop_group [of e "to_group g st True" 0 m] by (simp add: notifySubscribers_def)
qed

lemma let_go_tells: "tells m (let_go e k m)"
proof -
  have "tells m (informStatus st i (m\<lparr>mSubscribers := xs\<rparr>))" for st i xs
    using informStatus_tells [of "m\<lparr>mSubscribers := xs\<rparr>" st i] by simp
  then show ?thesis
    by (simp add: let_go_def setInactive_def Let_def notifySubscribers_tells split: subscriber_class.split)
qed

section \<open>The state of a machine and its subscribers\<close>

definition is_ask :: "agps_call \<Rightarrow> bool" where
  "is_ask c = (case c of StatusCallback a t b x y \<Rightarrow> True | _ \<Rightarrow> False)"

text \<open>What the framework was asked last.\<close>

definition last_ask :: "agps_call list \<Rightarrow> AGpsStatusValue option" where
  "last_ask cs = (case find is_ask (rev cs) of Some (StatusCallback a t b x y) \<Rightarrow> Some a | _ \<Rightarrow> None)"

lemma last_ask_aside [simp]: "aside cs \<Longrightarrow> last_ask (xs @ cs) = last_ask xs"
proof (induction cs rule: rev_induct)
  case (snoc c cs)
  then show ?case by (auto simp: last_ask_def aside_def is_ask_def simp flip: append_assoc split: agps_call.splits)
qed simp

lemma last_ask_ask [simp]: "last_ask (xs @ [StatusCallback a t b x y]) = Some a"
  by (simp add: last_ask_def is_ask_def)

lemma tells_last_ask: "tells m m' \<Longrightarrow> last_ask (calls m') = last_ask (calls m)"
  by (auto simp: tells_def)

definition fits_state :: "agps_state \<Rightarrow> AgpsStateMachine \<Rightarrow> bool" where
  "fits_state st m = (case st of
     AgpsReleasedState \<Rightarrow> mSubscribers m = []
   | AgpsPendingState \<Rightarrow> (\<exists>s \<in> set (mSubscribers m). \<not> isInactive s) \<and> last_ask (calls m) = Some GPS_REQUEST_AGPS_DATA_CONN
   | AgpsAcquiredState \<Rightarrow> (\<exists>s \<in> set (mSubscribers m). \<not> isInactive s) \<and> last_ask (calls m) = Some GPS_REQUEST_AGPS_DATA_CONN
   | AgpsReleasingState \<Rightarrow> mSubscribers m \<noteq> [] \<and> last_ask (calls m) = Some GPS_RELEASE_AGPS_DATA_CONN)"

lemma fits_state_cong:
  "mSubscribers m' = mSubscribers m \<Longrightarrow> last_ask (calls m') = last_ask (calls m) \<Longrightarrow> fits_state st m' = fits_state st m"
  by (cases st) (simp_all add: fits_state_def)

definition framework_machine :: "AgpsStateMachine \<Rightarrow> bool" where
  "framework_machine m = (\<not> is_ds m \<and> mServicer m = servicerTypeAgps)"

lemma tells_framework: "tells m m' \<Longrightarrow> framework_machine m \<Longrightarrow> framework_machine m'"
  by (simp add: tells_def framework_machine_def)

text \<open>A request with an active subscriber, and a release without one, reach the framework.\<close>

lemma ask_reaches:
  assumes "framework_machine m" "(\<exists>s \<in> set (mSubscribers m). \<not> isInactive s) = (action = GPS_REQUEST_AGPS_DATA_CONN)"
  shows "\<exists>b x y. sendRsrcRequest e action m = (0, add_call (StatusCallback action (mType m) b x y) m)"
proof -
  have "(first_active e m = None) = (GPS_RELEASE_AGPS_DATA_CONN = action)"
    using assms(2) by (cases action) (auto simp: first_active_find find_None_iff)
  then show ?thesis using assms(1)
    by (auto simp: sendRsrcRequest_def base_sendRsrcRequest_def framework_machine_def split: prod.split)
qed

lemma asked_now: "framework_machine m \<Longrightarrow> (\<exists>s \<in> set (mSubscribers m). \<not> isInactive s) = (action = GPS_REQUEST_AGPS_DATA_CONN) \<Longrightarrow>
   fst (sendRsrcRequest e action m) = 0 \<and> last_ask (calls (snd (sendRsrcRequest e action m))) = Some action
   \<and> mSubscribers (snd (sendRsrcRequest e action m)) = mSubscribers m
   \<and> framework_machine (snd (sendRsrcRequest e action m))"
  using ask_reaches [of m action e] by (auto simp: add_call_def framework_machine_def)

lemma clone_active [simp]: "\<not> isInactive (clone s)"
  by (simp add: isInactive_def clone_def split: subscriber_class.split)

lemma added_rest: "framework_machine (addSubscriber e s m) = framework_machine m \<and> calls (addSubscriber e s m) = calls m"
  by (simp add: addSubscriber_def framework_machine_def)

lemma added_active: "\<exists>s \<in> set (mSubscribers m). \<not> isInactive s \<Longrightarrow> \<exists>s \<in> set (mSubscribers (addSubscriber e t m)). \<not> isInactive s"
  by (auto simp: addSubscriber_def linked_list_add_def)

lemma added_first: "clone_ok e \<Longrightarrow> mSubscribers m = [] \<Longrightarrow> mSubscribers (addSubscriber e s m) = [clone s]"
  by (simp add: addSubscriber_def find_subscriber_find linked_list_add_def)

lemma added_some: "mSubscribers m \<noteq> [] \<Longrightarrow> mSubscribers (addSubscriber e s m) \<noteq> []"
  by (simp add: addSubscriber_def linked_list_add_def)

lemma released_fits:
  assumes "framework_machine m" "fits_state AgpsReleasedState m" "clone_ok e" "\<And>k. ev \<noteq> Unsubscribing k"
  shows "framework_machine (snd (released_event e ev m)) \<and> fits_state (fst (released_event e ev m)) (snd (released_event e ev m))"
proof (cases ev)
  case (Subscribing s)
  have l: "mSubscribers (addSubscriber e s m) = [clone s]" using assms by (simp add: added_first fits_state_def)
  then have "(\<exists>s \<in> set (mSubscribers (addSubscriber e s m)). \<not> isInactive s) = (GPS_REQUEST_AGPS_DATA_CONN = GPS_REQUEST_AGPS_DATA_CONN)"
    by simp
  from asked_now [OF _ this, of e] Subscribing assms(1) show ?thesis
    by (auto simp: released_event_def fits_state_def added_rest l split: prod.split)
next
  case (Unsubscribing k)
  then show ?thesis using assms(4) by blast
next
  case (Answered st)
  then show ?thesis using assms by (simp add: released_event_def)
qed

text \<open>The end of an unsubscription in the two states that have the connection or wait for it.\<close>

lemma after_let_go:
  assumes "framework_machine m" "st \<in> {AgpsPendingState, AgpsAcquiredState}" "fits_state st m"
    and r: "r = (let m1 = let_go e k m in
       if \<not> hasSubscribers m1 then (AgpsReleasedState, snd (sendRsrcRequest e GPS_RELEASE_AGPS_DATA_CONN m1))
       else if \<not> hasActiveSubscribers e m1 then
         (AgpsReleasingState, snd (sendRsrcRequest e GPS_RELEASE_AGPS_DATA_CONN m1))
       else (st, m1))"
  shows "framework_machine (snd r) \<and> fits_state (fst r) (snd r)"
proof -
  let ?m = "let_go e k m"
  have fw: "framework_machine ?m" using tells_framework [OF let_go_tells assms(1)] .
  have ask: "last_ask (calls ?m) = Some GPS_REQUEST_AGPS_DATA_CONN"
    using tells_last_ask [OF let_go_tells] assms(2,3) by (auto simp: fits_state_def)
  show ?thesis
  proof (cases "\<exists>s \<in> set (mSubscribers ?m). \<not> isInactive s")
    case True
    then have "r = (st, ?m)" by (auto simp: r Let_def hasSubscribers_def)
    then show ?thesis using fw ask True assms(2) by (auto simp: fits_state_def)
  next
    case False
    then have "(\<exists>s \<in> set (mSubscribers ?m). \<not> isInactive s) = (GPS_RELEASE_AGPS_DATA_CONN = GPS_REQUEST_AGPS_DATA_CONN)" by simp
    from asked_now [OF fw this, of e] False show ?thesis by (auto simp: r Let_def hasSubscribers_def fits_state_def)
  qed
qed

lemma pending_fits:
  assumes "framework_machine m" "fits_state AgpsPendingState m"
  shows "framework_machine (snd (pending_event e ev m)) \<and> fits_state (fst (pending_event e ev m)) (snd (pending_event e ev m))"
proof (cases ev)
  case (Subscribing s)
  then show ?thesis using assms added_active [of m e s] by (auto simp: pending_event_def fits_state_def added_rest)
next
  case (Unsubscribing k)
  show ?thesis by (rule after_let_go [OF assms(1) _ assms(2)]) (simp_all add: pending_event_def Unsubscribing)
next
  case (Answered st)
  have n: "framework_machine (notifySubscribers e nt m) \<and> last_ask (calls (notifySubscribers e nt m)) = last_ask (calls m)" for nt
    using tells_framework [OF notifySubscribers_tells assms(1)] tells_last_ask [OF notifySubscribers_tells] by blast
  show ?thesis using assms n Answered broadcast_deletes [of RSRC_DENIED e BROADCAST_ALL m]
    by (auto simp: pending_event_def fits_state_def notifySubscribers_keeps split: AgpsRsrcStatus.split)
qed

lemma acquired_fits:
  assumes "framework_machine m" "fits_state AgpsAcquiredState m"
  shows "framework_machine (snd (acquired_event e ev m)) \<and> fits_state (fst (acquired_event e ev m)) (snd (acquired_event e ev m))"
proof (cases ev)
  case (Subscribing s)
  let ?m = "snd (notifyRsrcStatus e 0 (to_sub s RSRC_GRANTED False) s m)"
  have "framework_machine ?m" "last_ask (calls ?m) = last_ask (calls m)" "mSubscribers ?m = mSubscribers m"
    using notify_tells [of m e 0 "to_sub s RSRC_GRANTED False" s] tells_framework assms(1) tells_last_ask by blast+
  then show ?thesis using Subscribing assms added_active [of ?m e s] by (auto simp: acquired_event_def fits_state_def added_rest)
next
  case (Unsubscribing k)
  show ?thesis by (rule after_let_go [OF assms(1) _ assms(2)]) (simp_all add: acquired_event_def Unsubscribing)
next
  case (Answered st)
  have n: "framework_machine (notifySubscribers e nt m)" for nt
    using tells_framework [OF notifySubscribers_tells assms(1)] by blast
  show ?thesis using assms n Answered broadcast_deletes [of RSRC_RELEASED e BROADCAST_ALL m]
    by (auto simp: acquired_event_def fits_state_def split: AgpsRsrcStatus.split)
qed

lemma releasing_fits:
  assumes "framework_machine m" "fits_state AgpsReleasingState m"
  shows "framework_machine (snd (releasing_event e ev m)) \<and> fits_state (fst (releasing_event e ev m)) (snd (releasing_event e ev m))"
proof (cases ev)
  case (Subscribing s)
  then show ?thesis using assms added_some [of m e s] by (auto simp: releasing_event_def fits_state_def added_rest)
next
  case (Unsubscribing k)
  then show ?thesis using assms tells_framework [OF let_go_tells assms(1)] tells_last_ask [OF let_go_tells [of m e k]]
    by (auto simp: releasing_event_def fits_state_def hasSubscribers_def Let_def)
next
  case (Answered st)
  let ?m = "notifySubscribers e (to_group BROADCAST_INACTIVE st True) m"
  have fw: "framework_machine ?m" using tells_framework [OF notifySubscribers_tells assms(1)] by blast
  show ?thesis
  proof (cases "st = RSRC_DENIED \<or> st = RSRC_RELEASED")
    case True
    then have subs: "mSubscribers ?m = filter (\<lambda>s. \<not> isInactive s) (mSubscribers m)"
      using broadcast_deletes [of st e BROADCAST_INACTIVE m] by auto
    show ?thesis
    proof (cases "\<exists>s \<in> set (mSubscribers ?m). \<not> isInactive s")
      case True': True
      then have "(\<exists>s \<in> set (mSubscribers ?m). \<not> isInactive s) = (GPS_REQUEST_AGPS_DATA_CONN = GPS_REQUEST_AGPS_DATA_CONN)" by simp
      from asked_now [OF fw this, of e] True True' show ?thesis by (auto simp: releasing_event_def Answered fits_state_def)
    next
      case False
      then show ?thesis using True fw subs by (auto simp: releasing_event_def Answered fits_state_def filter_empty_conv)
    qed
  next
    case False
    then show ?thesis using assms by (simp add: releasing_event_def Answered)
  qed
qed

text \<open>A machine whose state fits, of the framework.\<close>

definition fits :: "AgpsStateMachine \<Rightarrow> bool" where
  "fits m = (framework_machine m \<and> fits_state (mStatePtr m) m)"

lemma event_fits:
  assumes "fits m" "clone_ok e" "mStatePtr m = AgpsReleasedState \<Longrightarrow> \<forall>k. ev \<noteq> Unsubscribing k"
  shows "fits (state_event e ev m)"
proof -
  have put: "framework_machine x \<and> fits_state st x \<Longrightarrow> fits (x\<lparr>mStatePtr := st\<rparr>)" for x st
    using fits_state_cong [of "x\<lparr>mStatePtr := st\<rparr>" x st] by (simp add: fits_def framework_machine_def)
  have m: "framework_machine m" "fits_state (mStatePtr m) m" using assms(1) by (simp_all add: fits_def)
  show ?thesis
  proof (cases "mStatePtr m")
    case AgpsReleasedState
    then show ?thesis using put [OF released_fits [OF m(1) _ assms(2), of ev]] m assms(3)
      by (simp add: state_event_def case_prod_beta)
  next
    case AgpsPendingState
    then show ?thesis using put [OF pending_fits [OF m(1), of e ev]] m by (simp add: state_event_def case_prod_beta)
  next
    case AgpsAcquiredState
    then show ?thesis using put [OF acquired_fits [OF m(1), of e ev]] m by (simp add: state_event_def case_prod_beta)
  next
    case AgpsReleasingState
    then show ?thesis using put [OF releasing_fits [OF m(1), of e ev]] m by (simp add: state_event_def case_prod_beta)
  qed
qed

lemma tells_fits: "tells m m' \<Longrightarrow> mSubscribers m' = mSubscribers m \<Longrightarrow> fits m \<Longrightarrow> fits m'"
  using tells_framework [of m m'] tells_last_ask [of m m'] fits_state_cong [of m' m "mStatePtr m"]
  by (simp add: fits_def tells_def)

lemma subscribe_fits: "fits m \<Longrightarrow> clone_ok e \<Longrightarrow> fits (subscribeRsrc e s m)"
  using tells_fits [OF _ _, of m] notify_tells [of m e 0 _ s] event_fits [of m e]
  by (simp add: subscribeRsrc_def notifySubscriber_snd)

lemma unsubscribe_fits: "fits m \<Longrightarrow> clone_ok e \<Longrightarrow> fits (snd (unsubscribeRsrc e s m))"
proof (cases "place_of (forMe e 0 (to_sub s RSRC_STATUS_MAX False)) (mSubscribers m)")
  case (Some k)
  assume "fits m" "clone_ok e"
  moreover have "mStatePtr m \<noteq> AgpsReleasedState"
    using \<open>fits m\<close> place_of_Some [OF Some] by (auto simp: fits_def fits_state_def)
  ultimately show ?thesis using event_fits [of m e "Unsubscribing k"] Some by (simp add: unsubscribeRsrc_def)
qed (simp add: unsubscribeRsrc_def)

lemma answer_fits: "fits m \<Longrightarrow> clone_ok e \<Longrightarrow> fits (onRsrcEvent e ev m)"
proof -
  assume f: "fits m" "clone_ok e"
  then have "\<not> is_ds m" by (simp add: fits_def framework_machine_def)
  then show ?thesis using event_fits [OF f, of "Answered ev"] f by (simp add: onRsrcEvent_def base_onRsrcEvent_def)
qed

lemma new_fits: "fits (new_machine servicerTypeAgps t single)"
  by (simp add: fits_def fits_state_def framework_machine_def new_machine_def)

lemma apn_fits: "fits m \<Longrightarrow> fits (setAPN a k (m\<lparr>mBearer := b\<rparr>))"
  using fits_state_cong [of "setAPN a k (m\<lparr>mBearer := b\<rparr>)" m "mStatePtr m"]
  by (simp add: fits_def framework_machine_def setAPN_def)

section \<open>The machines of the engine\<close>

definition engine_fits :: "loc_eng_data \<Rightarrow> bool" where
  "engine_fits y = (\<forall>n m. n \<noteq> Ds \<and> machine n y = Some m \<longrightarrow> fits m)"

lemma machine_put [simp]: "machine n (put_machine k m y) = (if n = k then Some m else machine n y)"
  by (cases n; cases k) (simp_all add: machine_def put_machine_def)

lemma machine_rest [simp]: "machine n (post ms y) = machine n y" "machine n (tell_modem c y) = machine n y"
  by (cases n; simp add: machine_def post_def tell_modem_def)+

lemma engine_rest [simp]: "engine_fits (post ms y) = engine_fits y" "engine_fits (tell_modem c y) = engine_fits y"
  by (simp_all add: engine_fits_def)

lemma engine_put: "engine_fits y \<Longrightarrow> (n \<noteq> Ds \<Longrightarrow> fits m) \<Longrightarrow> engine_fits (put_machine n m y)"
  by (simp add: engine_fits_def)

lemma on_machine_fits:
  assumes "engine_fits y" "\<And>m. fits m \<Longrightarrow> fits (snd (f m))" "on_machine n f y = Some (r, y')"
  shows "engine_fits y'"
proof -
  obtain m where m: "machine n y = Some m" using assms(3) by (auto simp: on_machine_def split: option.splits)
  have "n \<noteq> Ds \<Longrightarrow> fits (snd (f m))" using assms(1,2) m by (simp add: engine_fits_def)
  from engine_put [OF assms(1) this] show ?thesis using assms(3) m
    by (auto simp: on_machine_def split: prod.splits)
qed

lemma run_machine_fits:
  "engine_fits y \<Longrightarrow> (\<And>m. fits m \<Longrightarrow> fits (f m)) \<Longrightarrow> run_machine n f y = Some y' \<Longrightarrow> engine_fits y'"
  using on_machine_fits [of y "\<lambda>m. ((), f m)"] by (auto simp: run_machine_def)

lemma try_release_fits: "engine_fits y \<Longrightarrow> clone_ok e \<Longrightarrow> engine_fits (snd (try_release e n s y))"
  using on_machine_fits [of y "unsubscribeRsrc e s" n] unsubscribe_fits [of _ e s]
  by (auto simp: try_release_def split: option.split)

lemma release_fits:
  assumes "engine_fits y" "clone_ok e" "proc_ReleaseATL e i y = Some y'"
  shows "engine_fits y'"
proof -
  let ?y1 = "snd (try_release e Agnss (atl_sub i False) y)"
  let ?y2 = "snd (try_release e Internet (atl_sub i False) ?y1)"
  let ?y3 = "snd (try_release e Ds (ds_sub i) ?y2)"
  have y1: "engine_fits ?y1" using try_release_fits assms by blast
  have y2: "engine_fits ?y2" using try_release_fits y1 assms by blast
  have y3: "engine_fits ?y3" using try_release_fits y2 assms by blast
  have "y' \<in> {?y1, ?y2, ?y3, tell_modem (AtlCloseStatus i False) ?y3}"
    using assms(3) by (auto simp: proc_ReleaseATL_def Let_def split: prod.splits if_splits)
  then show ?thesis using y1 y2 y3 by auto
qed

lemma proc_fits:
  assumes y: "engine_fits y" and ok: "clone_ok e" and p: "proc e msg y = Some y'" and "msg \<noteq> LocEngUp"
  shows "engine_fits y'"
proof -
  have sub: "run_machine n (subscribeRsrc e s) y = Some y' \<Longrightarrow> engine_fits y'" for n s
    by (rule run_machine_fits [OF y subscribe_fits [OF _ ok]])
  have unsub: "run_machine n (\<lambda>m. snd (unsubscribeRsrc e s m)) y = Some y' \<Longrightarrow> engine_fits y'" for n s
    by (rule run_machine_fits [OF y unsubscribe_fits [OF _ ok]])
  have answer: "run_machine n (onRsrcEvent e ev) y = Some y' \<Longrightarrow> engine_fits y'" for n ev
    by (rule run_machine_fits [OF y answer_fits [OF _ ok]])
  have opened: "run_machine n (\<lambda>m. onRsrcEvent e RSRC_GRANTED (setAPN a k (m\<lparr>mBearer := b\<rparr>))) y = Some y' \<Longrightarrow> engine_fits y'" for n a k b
    by (rule run_machine_fits [OF y answer_fits [OF apn_fits ok]])
  show ?thesis
  proof (cases msg)
    case (LocEngReqRelBIT t v4 v6 b)
    then show ?thesis using p sub unsub by (auto simp: proc_def proc_ReqRelBIT_def split: option.splits if_splits)
  next
    case LocEngSuplEsOpened
    then show ?thesis using p sub answer y by (auto simp: proc_def proc_SuplEsOpened_def split: if_splits)
  next
    case LocEngSuplEsClosed
    then show ?thesis using p sub answer y by (auto simp: proc_def proc_SuplEsClosed_def split: if_splits)
  next
    case (LocEngRequestSuplEs i)
    then show ?thesis using p sub answer y by (auto simp: proc_def proc_RequestSuplEs_def split: if_splits)
  next
    case (LocEngRequestATL i t)
    then show ?thesis using p sub answer y by (auto simp: proc_def proc_RequestATL_def split: option.splits)
  next
    case (LocEngReleaseATL i)
    then show ?thesis using p release_fits [OF y ok] by (auto simp: proc_def)
  next
    case (LocEngReqRelWifi t i a b r)
    then show ?thesis using p sub unsub y by (auto simp: proc_def proc_ReqRelWifi_def Let_def split: if_splits)
  next
    case (LocEngAtlOpenSuccess sm apn bearer)
    then show ?thesis using p opened by (auto simp: proc_def proc_AtlOpenSuccess_def split: option.splits)
  next
    case (LocEngAtlClosed sm)
    then show ?thesis using p answer by (auto simp: proc_def proc_AtlClosed_def split: option.splits)
  next
    case (LocEngAtlOpenFailed sm)
    then show ?thesis using p answer by (auto simp: proc_def proc_AtlOpenFailed_def split: option.splits)
  next
    case (LocEngDataClientInit ret)
    have "machine n (y\<lparr>ds_nif := x\<rparr>) = machine n y" if "n \<noteq> Ds" for n x
      using that by (cases n) (simp_all add: machine_def)
    then show ?thesis using p y LocEngDataClientInit
      by (auto simp: proc_def proc_DataClientInit_def engine_fits_def split: if_splits)
  next
    case LocEngUp
    then show ?thesis using assms by simp
  qed
qed

text \<open>A run of the engine's thread over the messages it gets.\<close>

fun engine_run :: "(agps_env \<times> loc_msg) list \<Rightarrow> loc_eng_data \<Rightarrow> loc_eng_data option" where
  "engine_run [] y = Some y"
| "engine_run ((e, msg) # ms) y = (case proc e msg y of None \<Rightarrow> None | Some y1 \<Rightarrow> engine_run ms y1)"

lemma engine_run_fits:
  "engine_run ms y = Some y' \<Longrightarrow> engine_fits y \<Longrightarrow> \<forall>(e, msg) \<in> set ms. clone_ok e \<and> msg \<noteq> LocEngUp \<Longrightarrow> engine_fits y'"
proof (induction ms arbitrary: y)
  case (Cons em ms)
  obtain e msg where em: "em = (e, msg)" by fastforce
  then obtain y1 where y1: "proc e msg y = Some y1" "engine_run ms y1 = Some y'"
    using Cons.prems(1) by (auto split: option.splits)
  then have "engine_fits y1" using proc_fits Cons.prems(2,3) em by auto
  then show ?case using Cons.IH [OF y1(2)] Cons.prems(3) by simp
qed simp

text \<open>The engine before it has data connections.\<close>

definition fresh_engine :: "bool \<Rightarrow> loc_eng_data" where
  "fresh_engine supports = \<lparr>agnss_nif = None, internet_nif = None, wifi_nif = None, ds_nif = None, has_adapter = True,
     agps_status_cb = False, mSupportsAgpsRequests = supports, modem = [], msg_q = []\<rparr>"

lemma init_fits: "engine_fits (loc_eng_agps_init caps emergency ret cbs (fresh_engine supports))"
proof -
  have "fits m" if "n \<noteq> Ds" "machine n (loc_eng_agps_init caps emergency ret cbs (fresh_engine supports)) = Some m" for n m
    using that by (cases n) (auto simp: machine_def loc_eng_agps_init_def fresh_engine_def send_def new_fits Let_def split: if_splits)
  then show ?thesis unfolding engine_fits_def by blast
qed

end
