(* ===== verification/LocAgpsProps.thy ===== *)
theory LocAgpsProps
  imports LocAgpsInv
begin

text \<open>
  The properties of the data connections: subscribers and state fit, no connection of the modem is dropped untold; and
  what goes wrong when a deleted subscriber is compared, when the modem restarts, and when an emergency call is
  denied or closed while it is retried.
\<close>

section \<open>Who leaves is told\<close>

text \<open>The calls that tell the modem that its connection is closed, or was not opened.\<close>

definition farewell :: "u32 \<Rightarrow> agps_call \<Rightarrow> bool" where
  "farewell i c = (c = AtlCloseStatus i True \<or> (\<exists>a b t. c = AtlOpenStatus i False a b t))"

definition told :: "u32 \<Rightarrow> AgpsStateMachine \<Rightarrow> AgpsStateMachine \<Rightarrow> bool" where
  "told i m m' = (\<exists>cs. calls m' = calls m @ cs \<and> (\<exists>c \<in> set cs. farewell i c))"

definition extends :: "AgpsStateMachine \<Rightarrow> AgpsStateMachine \<Rightarrow> bool" where
  "extends m m' = (\<exists>cs. calls m' = calls m @ cs)"

lemma tells_extends: "tells m m' \<Longrightarrow> extends m m'"
  by (auto simp: tells_def extends_def)

lemma told_then: "told i m m1 \<Longrightarrow> extends m1 m2 \<Longrightarrow> told i m m2"
  unfolding told_def extends_def by (metis Un_iff append.assoc set_append)

lemma then_told: "extends m m1 \<Longrightarrow> told i m1 m2 \<Longrightarrow> told i m m2"
  unfolding told_def extends_def by (metis Un_iff append.assoc set_append)

lemma told_list [simp]: "told i (m\<lparr>mSubscribers := xs\<rparr>) m' = told i m m'" "told i m (m'\<lparr>mSubscribers := xs\<rparr>) = told i m m'"
  "told i m (m'\<lparr>mStatePtr := st\<rparr>) = told i m m'"
  by (simp_all add: told_def)

lemma atl_told:
  assumes "sub_class s = ATLSubscriber bc" "rsrcStatus nt \<in> {RSRC_UNSUBSCRIBE, RSRC_RELEASED, RSRC_DENIED}" "forMe e n nt s"
  shows "told (ID s) m (snd (notifyRsrcStatus e n nt s m))"
  using assms by (auto simp: notifyRsrcStatus_def atl_notify_def Let_def told_def farewell_def add_call_def)

lemma search_told:
  assumes "rsrcStatus nt \<in> {RSRC_UNSUBSCRIBE, RSRC_RELEASED, RSRC_DENIED}" and "postNotifyDelete nt"
  shows "linked_list_search (notifySubscriber e n nt) True xs m = (Some s, ys, m') \<Longrightarrow>
     sub_class s = ATLSubscriber bc \<Longrightarrow> told (ID s) m m'"
proof (induction xs arbitrary: m ys m')
  case Nil
  then show ?case by simp
next
  case (Cons x xs)
  obtain b m1 where n: "notifySubscriber e n nt x m = (b, m1)" by fastforce
  have m1: "m1 = snd (notifyRsrcStatus e n nt x m)" using notifySubscriber_snd [of e n nt x m] n by simp
  have b: "b = forMe e n nt x"
    using notifySubscriber_fst [of e n nt x m] notify_fst [OF _ refl, of nt e n x m] assms n by auto
  show ?case
  proof (cases b)
    case True
    then have "s = x" "m' = m1" using Cons.prems(1) n by simp_all
    then show ?thesis using atl_told [of x bc nt e n m] Cons.prems(2) assms(1) True b m1 by simp
  next
    case False
    obtain r' ys' m2 where q: "linked_list_search (notifySubscriber e n nt) True xs m1 = (r', ys', m2)"
      using prod_cases3 by blast
    then have z: "r' = Some s" "m2 = m'" using Cons.prems(1) n False by auto
    have "told (ID s) m1 m'" using Cons.IH [OF q [unfolded z] Cons.prems(2)] .
    moreover have "extends m m1" using notify_tells [of m e n nt x] m1 tells_extends by simp
    ultimately show ?thesis using then_told by blast
  qed
qed

lemma delete_loop_told:
  "rsrcStatus nt \<in> {RSRC_UNSUBSCRIBE, RSRC_RELEASED, RSRC_DENIED} \<Longrightarrow> postNotifyDelete nt \<Longrightarrow>
   sub_class s = ATLSubscriber bc \<Longrightarrow> s \<in> set (mSubscribers m) \<Longrightarrow>
   s \<notin> set (mSubscribers (notify_delete_loop e n nt m)) \<Longrightarrow> told (ID s) m (notify_delete_loop e n nt m)"
proof (induction e n nt m rule: notify_delete_loop.induct)
  case (1 e n nt m)
  obtain r ys m1 where q: "linked_list_search (notifySubscriber e n nt) True (mSubscribers m) m = (r, ys, m1)"
    using prod_cases3 by blast
  note taken = search_takes [OF "1.prems"(1,2) q]
  show ?case
  proof (cases r)
    case None
    then show ?thesis using taken "1.prems"(4,5) by (simp add: notify_delete_loop.simps [of e n nt m] q)
  next
    case (Some t)
    let ?m = "m1\<lparr>mSubscribers := ys\<rparr>"
    have step: "notify_delete_loop e n nt m = notify_delete_loop e (Suc n) nt ?m"
      using Some by (simp add: notify_delete_loop.simps [of e n nt m] q)
    show ?thesis
    proof (cases "s = t")
      case True
      have "told (ID s) m ?m" using search_told [OF "1.prems"(1,2) q [unfolded Some]] "1.prems"(3) True by simp
      then show ?thesis using told_then tells_extends [OF delete_loop_tells] step by metis
    next
      case False
      then have "s \<in> set ys" using taken Some "1.prems"(4) by auto
      then have "told (ID s) ?m (notify_delete_loop e (Suc n) nt ?m)"
        using "1.IH" [OF q [symmetric] refl refl refl Some "1.prems"(1-3)] "1.prems"(5) step by simp
      then show ?thesis using then_told [OF tells_extends] search_tells [OF q] step by (metis told_list(1))
    qed
  qed
qed

text \<open>The subscribers that are left after a part of an event, or were told.\<close>

definition stays_or_told :: "Subscriber \<Rightarrow> AgpsStateMachine \<Rightarrow> AgpsStateMachine \<Rightarrow> bool" where
  "stays_or_told s m m' = (extends m m' \<and> (s \<in> set (mSubscribers m) \<longrightarrow> s \<in> set (mSubscribers m') \<or> told (ID s) m m'))"

lemma stays_trans: "stays_or_told s a b \<Longrightarrow> stays_or_told s b c \<Longrightarrow> stays_or_told s a c"
  unfolding stays_or_told_def using told_then then_told by (metis append.assoc extends_def)

lemma stays_same: "extends m m' \<Longrightarrow> set (mSubscribers m) \<subseteq> set (mSubscribers m') \<Longrightarrow> stays_or_told s m m'"
  by (auto simp: stays_or_told_def)

lemma notify_stays: "sub_class s = ATLSubscriber bc \<Longrightarrow> rsrcStatus nt \<in> {RSRC_UNSUBSCRIBE, RSRC_RELEASED, RSRC_DENIED} \<or>
   \<not> postNotifyDelete nt \<Longrightarrow> stays_or_told s m (notifySubscribers e nt m)"
  using delete_loop_told [of nt s bc m e 0] notifySubscribers_keeps [of nt e m]
    tells_extends [OF notifySubscribers_tells, of m e nt]
  by (auto simp: stays_or_told_def notifySubscribers_def)

lemma set_update_keeps: "s \<in> set xs \<Longrightarrow> xs ! k \<noteq> s \<Longrightarrow> s \<in> set (xs[k := v])"
  by (metis in_set_conv_nth length_list_update nth_list_update_neq)

lemma let_go_stays:
  assumes "sub_class s = ATLSubscriber bc"
  shows "stays_or_told s m (let_go e k m)"
proof (cases "waitForCloseComplete (mSubscribers m ! k)")
  case True
  then have "mSubscribers m ! k \<noteq> s" using assms by (auto simp: waitForCloseComplete_def)
  moreover have "mSubscribers (setInactive k m) \<in> {mSubscribers m, (mSubscribers m)[k := (mSubscribers m ! k)\<lparr>mIsInactive := True\<rparr>]}"
    using informStatus_tells by (auto simp: setInactive_def Let_def split: subscriber_class.split)
  ultimately have "s \<in> set (mSubscribers m) \<longrightarrow> s \<in> set (mSubscribers (setInactive k m))"
    using set_update_keeps by auto
  moreover have "extends m (setInactive k m)"
    using tells_extends [OF let_go_tells, of m e k] True by (simp add: let_go_def Let_def)
  ultimately show ?thesis using True by (simp add: stays_or_told_def let_go_def Let_def)
next
  case False
  then show ?thesis using notify_stays [OF assms] by (simp add: let_go_def Let_def)
qed

lemma send_stays: "stays_or_told s m (snd (sendRsrcRequest e a m))"
proof -
  have "mSubscribers (snd (sendRsrcRequest e a m)) = mSubscribers m \<and> extends m (snd (sendRsrcRequest e a m))"
    by (auto simp: sendRsrcRequest_def base_sendRsrcRequest_def ds_sendRsrcRequest_def dataCallCb_def informStatus_def
        add_call_def extends_def Let_def split: prod.split)
  then show ?thesis by (simp add: stays_same)
qed

lemma add_stays: "stays_or_told s m (addSubscriber e t m)"
  by (rule stays_same) (auto simp: addSubscriber_def linked_list_add_def extends_def)

lemma told_one_stays: "stays_or_told s m (snd (notifyRsrcStatus e n nt t m))"
  using notify_tells [of m e n nt t] by (intro stays_same) (auto intro: tells_extends)

lemma leave_stays:
  assumes "sub_class s = ATLSubscriber bc"
  shows "stays_or_told s m (snd (let m1 = let_go e k m in
       if \<not> hasSubscribers m1 then (AgpsReleasedState, snd (sendRsrcRequest e GPS_RELEASE_AGPS_DATA_CONN m1))
       else if \<not> hasActiveSubscribers e m1 then
         (AgpsReleasingState, snd (sendRsrcRequest e GPS_RELEASE_AGPS_DATA_CONN m1))
       else (st, m1)))"
  using let_go_stays [OF assms, of m e k] stays_trans [OF let_go_stays [OF assms] send_stays] by (auto simp: Let_def)

lemma event_stays:
  assumes "sub_class s = ATLSubscriber bc"
  shows "stays_or_told s m (snd (released_event e ev m))" "stays_or_told s m (snd (pending_event e ev m))"
    "stays_or_told s m (snd (acquired_event e ev m))" "stays_or_told s m (snd (releasing_event e ev m))"
proof -
  have same: "stays_or_told s m m" by (simp add: stays_or_told_def extends_def)
  note notify = notify_stays [OF assms]
  show "stays_or_told s m (snd (released_event e ev m))"
    using same told_one_stays stays_trans [OF add_stays send_stays]
    by (auto simp: released_event_def case_prod_beta Let_def split: rsrc_event.split)
  show "stays_or_told s m (snd (pending_event e ev m))"
    using same add_stays leave_stays [OF assms] notify
    by (auto simp: pending_event_def split: rsrc_event.split AgpsRsrcStatus.split)
  show "stays_or_told s m (snd (acquired_event e ev m))"
    using same stays_trans [OF told_one_stays add_stays] leave_stays [OF assms] notify
    by (auto simp: acquired_event_def split: rsrc_event.split AgpsRsrcStatus.split)
  show "stays_or_told s m (snd (releasing_event e ev m))"
    using same add_stays let_go_stays [OF assms] notify stays_trans [OF notify send_stays]
    by (auto simp: releasing_event_def Let_def split: rsrc_event.split)
qed

lemma try_release_nobody:
  assumes "machine n y = Some m" "mSubscribers m = []"
  shows "try_release e n s y = (False, y)"
proof -
  have "put_machine n m y = y" using assms(1) by (cases n) (simp_all add: machine_def put_machine_def)
  then show ?thesis using assms by (simp add: try_release_def on_machine_def unsubscribeRsrc_def post_def)
qed

lemma try_release_none: "machine n y = None \<Longrightarrow> try_release e n s y = (False, y)"
  by (simp add: try_release_def on_machine_def)

text \<open>The steps of the emergency machine, as they are when the data services answer \<open>r\<close>.\<close>

definition answers :: "int \<Rightarrow> agps_env" where
  "answers r = \<lparr>stray_ip6 = (\<lambda>s. []), freed = (\<lambda>n. (0, [])), clone_ok = True, call_ret = r\<rparr>"

lemmas ds_defs = subscribeRsrc_def state_event_def released_event_def pending_event_def acquired_event_def
  addSubscriber_def find_subscriber_find forMe_def to_sub_def equals_def read_sub_def linked_list_add_def clone_def
  sendRsrcRequest_def ds_sendRsrcRequest_def first_active_find dataCallCb_def informStatus_def add_call_def
  ds_sub_def isInactive_def new_ds_machine_def new_machine_def hasSubscribers_def unsubscribeRsrc_def
  notifyRsrcStatus_def ds_notify_def LOC_API_ADAPTER_ERR_SUCCESS_def LOC_API_ADAPTER_ERR_UNSUPPORTED_def
  LOC_API_ADAPTER_ERR_ENGINE_BUSY_def MAX_START_DATA_CALL_RETRIES_def DATA_CALL_RETRY_DELAY_MSEC_def
  onRsrcEvent_def ds_onRsrcEvent_def notifySubscribers_def notifySubscriber_def let_go_def setInactive_def
  waitForCloseComplete_def retryCallback_def Let_def

section \<open>The properties\<close>

text \<open>
  C21. connections_match_subscribers. Whatever messages the engine's thread gets after the initialisation, as long as
  allocations succeed and the modem does not restart, every connection of the framework fits its
  subscribers: released with none; pending or acquired with an active one, and the framework was last asked for
  the connection; releasing with some, and the framework was last asked to release it.
\<close>

theorem connections_match_subscribers:
  assumes "engine_run ms (loc_eng_agps_init caps emergency ret cbs (fresh_engine supports)) = Some y"
    and "\<forall>(e, msg) \<in> set ms. clone_ok e \<and> msg \<noteq> LocEngUp"
    and "machine n y = Some m" and "n \<noteq> Ds"
  shows "fits_state (mStatePtr m) m"
proof -
  have "engine_fits y" by (rule engine_run_fits [OF assms(1) init_fits assms(2)])
  then show ?thesis using assms(3,4) unfolding engine_fits_def fits_def by blast
qed

theorem connections_match_subscribers_witness:
  "fits_state AgpsAcquiredState (the (agnss_nif (the (engine_run
     [(answers 0, LocEngRequestATL 7 AGPS_TYPE_SUPL), (answers 0, LocEngAtlOpenSuccess (Some Agnss) ''apn'' 0)]
     (loc_eng_agps_init True False 0 True (fresh_engine True))))))"
proof -
  let ?r = "engine_run [(answers 0, LocEngRequestATL 7 AGPS_TYPE_SUPL), (answers 0, LocEngAtlOpenSuccess (Some Agnss) ''apn'' 0)]
     (loc_eng_agps_init True False 0 True (fresh_engine True))"
  let ?m = "the (agnss_nif (the ?r))"
  have r: "?r \<noteq> None \<and> agnss_nif (the ?r) \<noteq> None \<and> mStatePtr ?m = AgpsAcquiredState" by code_simp
  then have "?r = Some (the ?r)" "machine Agnss (the ?r) = Some ?m" by (simp_all add: machine_def)
  from connections_match_subscribers [OF this(1) _ this(2)] r show ?thesis by (simp add: answers_def)
qed



text \<open>
  With two connections of the modem on an acquired interface, the release of the first
  compares the second with the first after deleting it: the second stays exactly when the freed memory does not
  happen to hold its number.
\<close>

theorem unsubscribe_reads_freed:
  assumes "mStatePtr m = AgpsAcquiredState" and "mSubscribers m = [a, b]"
    and "sub_class a = ATLSubscriber bca" and "sub_class b = ATLSubscriber bcb" and "ID a \<noteq> ID b"
  shows "b \<in> set (mSubscribers (snd (unsubscribeRsrc e a m))) \<longleftrightarrow> fst (freed e 1) \<noteq> ID b"
proof -
  have me: "forMe e 0 (to_sub a st del) a" "\<not> forMe e 0 (to_sub a st del) b" for st del
    using assms by (simp_all add: forMe_def to_sub_def equals_def read_sub_def)
  have other: "forMe e (Suc 0) (to_sub a st del) b = (fst (freed e 1) = ID b)" for st del
    using assms by (auto simp: forMe_def to_sub_def equals_def read_sub_def)
  have ab: "a \<noteq> b" using assms by auto
  have place: "place_of (forMe e 0 (to_sub a RSRC_STATUS_MAX False)) (mSubscribers m) = Some 0"
    using me assms(2) by simp
  have ge: "mSubscribers (let_go e 0 m) = (if fst (freed e 1) = ID b then [] else [b])"
    using assms me other
    by (simp add: let_go_def waitForCloseComplete_def notifySubscribers_def notify_delete_loop.simps notifySubscriber_def
        notifyRsrcStatus_def atl_notify_def add_call_def Let_def)
  have send: "mSubscribers (snd (sendRsrcRequest e act x)) = mSubscribers x" for act x
    by (simp add: sendRsrcRequest_def base_sendRsrcRequest_def ds_sendRsrcRequest_def dataCallCb_def informStatus_def
        add_call_def Let_def split: prod.split)
  show ?thesis using place assms(1) ge send
    by (simp add: unsubscribeRsrc_def state_event_def acquired_event_def Let_def hasSubscribers_def)
qed

theorem unsubscribe_reads_freed_witness:
  "atl_sub 8 False \<notin> set (mSubscribers (snd (unsubscribeRsrc ((answers 0)\<lparr>freed := (\<lambda>n. (8, []))\<rparr>) (atl_sub 7 False)
     ((new_machine servicerTypeAgps AGPS_TYPE_SUPL False)
       \<lparr>mSubscribers := [atl_sub 7 False, atl_sub 8 False], mStatePtr := AgpsAcquiredState\<rparr>))))"
  using unsubscribe_reads_freed [of "(new_machine servicerTypeAgps AGPS_TYPE_SUPL False)
      \<lparr>mSubscribers := [atl_sub 7 False, atl_sub 8 False], mStatePtr := AgpsAcquiredState\<rparr>"
      "atl_sub 7 False" "atl_sub 8 False" False False "(answers 0)\<lparr>freed := (\<lambda>n. (8, []))\<rparr>"]
  by (simp add: atl_sub_def)

text \<open>
  When the modem restarts while the interface is acquired, its subscribers are dropped but
  the state stays: the framework is not told to release the connection, and neither is it when the modem
  closes the connection it had, which is answered with a failure.
\<close>

theorem restart_leaks_connection:
  assumes "agnss_nif y = Some m" and "mStatePtr m = AgpsAcquiredState" and "agps_status_cb y" and "ds_nif y = None"
  shows "\<exists>y'. engine_run [(e1, LocEngUp), (e2, LocEngReleaseATL i)] y = Some y' \<and>
    agnss_nif y' = Some (m\<lparr>mSubscribers := []\<rparr>) \<and> modem y' = modem y @ [AtlCloseStatus i False]"
proof -
  let ?y = "loc_eng_handle_engine_up y"
  have a: "machine Agnss ?y = Some (m\<lparr>mSubscribers := []\<rparr>)" "machine Ds ?y = None"
    using assms by (simp_all add: machine_def loc_eng_handle_engine_up_def dropAllSubscribers_def)
  have i: "machine Internet ?y = None \<or> (\<exists>x. machine Internet ?y = Some x \<and> mSubscribers x = [])"
    by (cases "internet_nif y") (simp_all add: machine_def loc_eng_handle_engine_up_def dropAllSubscribers_def assms(3))
  have none: "try_release e2 Agnss s ?y = (False, ?y)" "try_release e2 Internet s ?y = (False, ?y)"
    "try_release e2 Ds s ?y = (False, ?y)" for s
    using a i try_release_nobody try_release_none by fastforce+
  have "engine_run [(e1, LocEngUp), (e2, LocEngReleaseATL i)] y = Some (tell_modem (AtlCloseStatus i False) ?y)"
    by (simp add: proc_def proc_ReleaseATL_def none)
  then show ?thesis using assms
    by (simp add: tell_modem_def loc_eng_handle_engine_up_def dropAllSubscribers_def)
qed

theorem restart_leaks_connection_witness:
  "\<exists>y'. engine_run [(answers 0, LocEngUp), (answers 0, LocEngReleaseATL 7)]
      ((fresh_engine True)\<lparr>agps_status_cb := True, agnss_nif := Some ((new_machine servicerTypeAgps AGPS_TYPE_SUPL False)
         \<lparr>mSubscribers := [atl_sub 7 False], mStatePtr := AgpsAcquiredState\<rparr>)\<rparr>) = Some y' \<and> modem y' = [AtlCloseStatus 7 False]"
  using restart_leaks_connection [of "(fresh_engine True)\<lparr>agps_status_cb := True,
      agnss_nif := Some ((new_machine servicerTypeAgps AGPS_TYPE_SUPL False)
         \<lparr>mSubscribers := [atl_sub 7 False], mStatePtr := AgpsAcquiredState\<rparr>)\<rparr>"
      "(new_machine servicerTypeAgps AGPS_TYPE_SUPL False)\<lparr>mSubscribers := [atl_sub 7 False], mStatePtr := AgpsAcquiredState\<rparr>"
      "answers 0" "answers 0" 7]
  by (auto simp: fresh_engine_def)

text \<open>
  An emergency call the data services do not support falls back to the ordinary
  connection but stays listed: when a later call is opened, the modem is told that the first is open too, and when
  the later call is closed, the data call is not stopped.
\<close>

theorem denied_emergency_call_stays:
  assumes "i \<noteq> j" and "call_ret e1 = LOC_API_ADAPTER_ERR_UNSUPPORTED" and "call_ret e2 = 0" and "clone_ok e1" and "clone_ok e2"
    and "m1 = subscribeRsrc e1 (ds_sub i) new_ds_machine" and "m2 = subscribeRsrc e2 (ds_sub j) m1"
    and "m3 = onRsrcEvent e3 RSRC_GRANTED m2" and "m4 = snd (unsubscribeRsrc e4 (ds_sub j) m3)"
  shows "mStatePtr m4 = AgpsAcquiredState \<and> calls m4 = [OpenAndStartDataCall, RequestATL i AGPS_TYPE_SUPL,
     OpenAndStartDataCall, AtlOpenStatus j True None AGPS_APN_BEARER_INVALID AGPS_TYPE_INVALID,
     AtlOpenStatus i True None AGPS_APN_BEARER_INVALID AGPS_TYPE_INVALID, AtlCloseStatus j True]"
proof -
  have "m1 = new_ds_machine\<lparr>mSubscribers := [ds_sub i], calls := [OpenAndStartDataCall, RequestATL i AGPS_TYPE_SUPL]\<rparr>"
    using assms(2,4,6) by (simp add: ds_defs)
  then have "m2 = new_ds_machine\<lparr>mSubscribers := [ds_sub j, ds_sub i], mStatePtr := AgpsPendingState,
     calls := [OpenAndStartDataCall, RequestATL i AGPS_TYPE_SUPL, OpenAndStartDataCall]\<rparr>"
    using assms(1,3,5,7) by (simp add: ds_defs)
  then have "m3 = new_ds_machine\<lparr>mSubscribers := [ds_sub j, ds_sub i], mStatePtr := AgpsAcquiredState,
     calls := [OpenAndStartDataCall, RequestATL i AGPS_TYPE_SUPL, OpenAndStartDataCall,
       AtlOpenStatus j True None AGPS_APN_BEARER_INVALID AGPS_TYPE_INVALID,
       AtlOpenStatus i True None AGPS_APN_BEARER_INVALID AGPS_TYPE_INVALID]\<rparr>"
    using assms(8) by (simp add: ds_defs to_group_def)
  then show ?thesis using assms(1,9) by (simp add: ds_defs)
qed

theorem denied_emergency_call_stays_witness:
  "mStatePtr (snd (unsubscribeRsrc (answers 0) (ds_sub 8) (onRsrcEvent (answers 0) RSRC_GRANTED
     (subscribeRsrc (answers 0) (ds_sub 8) (subscribeRsrc (answers 2) (ds_sub 7) new_ds_machine))))) = AgpsAcquiredState"
  using denied_emergency_call_stays [OF _ _ _ _ _ refl refl refl refl, of 7 8 "answers 2" "answers 0" "answers 0" "answers 0"]
  by (simp add: answers_def LOC_API_ADAPTER_ERR_UNSUPPORTED_def)

text \<open>
  An emergency call that is closed while its data call is to be retried is told to be closed;
  the timer, whose handle nobody keeps, opens it again, and the data call is started.
\<close>

theorem closed_call_is_reopened:
  assumes "ds_nif y = Some new_ds_machine" and "agnss_nif y = Some a" and "mSubscribers a = []"
    and "internet_nif y = Some b" and "mSubscribers b = []" and "msg_q y = []" and "mSupportsAgpsRequests y"
    and "clone_ok e1" and "call_ret e1 = LOC_API_ADAPTER_ERR_ENGINE_BUSY" and "call_ret e4 = 0"
    and "engine_run [(e1, LocEngRequestSuplEs i), (e2, LocEngReleaseATL i)] y = Some y2"
    and "delay_callback e3 y2 = Some y3" and "agps_thread_step e4 y3 = Some y4"
  shows "\<exists>m. ds_nif y4 = Some m \<and> mStatePtr m = AgpsPendingState \<and> calls m = [OpenAndStartDataCall,
     StartTimer 500, AtlCloseStatus i True, RequestSuplES i, OpenAndStartDataCall]"
proof -
  let ?m = "\<lambda>cs. new_ds_machine\<lparr>mSubscribers := [ds_sub i], mRetries := 1, calls := cs\<rparr>"
  let ?c1 = "[OpenAndStartDataCall, StartTimer 500]"
  let ?c2 = "[OpenAndStartDataCall, StartTimer 500, AtlCloseStatus i True]"
  let ?c3 = "[OpenAndStartDataCall, StartTimer 500, AtlCloseStatus i True, RequestSuplES i]"
  let ?c4 = "[OpenAndStartDataCall, StartTimer 500, AtlCloseStatus i True, RequestSuplES i, OpenAndStartDataCall]"
  have s1: "subscribeRsrc e1 (ds_sub i) new_ds_machine = ?m ?c1" using assms(8,9) by (simp add: ds_defs)
  have s2: "unsubscribeRsrc e2 (ds_sub i) (?m ?c1) = (True, ?m ?c2)" by (simp add: ds_defs)
  have s3: "retryCallback e3 (?m ?c2) = ?m ?c3" by (simp add: ds_defs)
  have s4: "subscribeRsrc e4 (ds_sub i) (?m ?c3) = (?m ?c4)\<lparr>mStatePtr := AgpsPendingState\<rparr>"
    using assms(10) by (simp add: ds_defs)
  have new: "calls new_ds_machine = []" by (simp add: new_ds_machine_def new_machine_def)
  let ?y = "\<lambda>cs. y\<lparr>ds_nif := Some (?m cs)\<rparr>"
  have y1: "proc e1 (LocEngRequestSuplEs i) y = Some (?y ?c1)"
    using assms(1,6) by (simp add: proc_def proc_RequestSuplEs_def run_machine_def on_machine_def machine_def s1 new post_def put_machine_def)
  have none: "try_release e2 Agnss s (?y cs) = (False, ?y cs)" "try_release e2 Internet s (?y cs) = (False, ?y cs)" for s cs
    using assms(2-5) by (auto intro!: try_release_nobody simp: machine_def)
  have "try_release e2 Ds (ds_sub i) (?y ?c1) = (True, ?y ?c2)"
    using assms(6) by (simp add: try_release_def on_machine_def machine_def s2 post_def put_machine_def)
  then have "y2 = ?y ?c2" using assms(11) y1 none by (simp add: proc_def proc_ReleaseATL_def)
  then have "y3 = (?y ?c3)\<lparr>msg_q := [LocEngRequestSuplEs i]\<rparr>"
    using assms(6,7,12) by (simp add: delay_callback_def run_machine_def on_machine_def machine_def s3 post_def put_machine_def)
  then show ?thesis using assms(7,13) s4
    by (auto simp: agps_thread_step_def proc_def proc_RequestSuplEs_def run_machine_def on_machine_def machine_def post_def put_machine_def)
qed

theorem closed_call_is_reopened_witness:
  "\<exists>y2 y3 y4 m. engine_run [(answers 6, LocEngRequestSuplEs 7), (answers 0, LocEngReleaseATL 7)]
       ((fresh_engine True)\<lparr>ds_nif := Some new_ds_machine, agnss_nif := Some (new_machine servicerTypeAgps AGPS_TYPE_SUPL False),
          internet_nif := Some (new_machine servicerTypeAgps AGPS_TYPE_WWAN_ANY False)\<rparr>) = Some y2
     \<and> delay_callback (answers 0) y2 = Some y3 \<and> agps_thread_step (answers 0) y3 = Some y4 \<and> ds_nif y4 = Some m
     \<and> calls m = [OpenAndStartDataCall, StartTimer 500, AtlCloseStatus 7 True, RequestSuplES 7, OpenAndStartDataCall]"
proof -
  let ?a = "new_machine servicerTypeAgps AGPS_TYPE_SUPL False"
  let ?b = "new_machine servicerTypeAgps AGPS_TYPE_WWAN_ANY False"
  let ?y = "(fresh_engine True)\<lparr>ds_nif := Some new_ds_machine, agnss_nif := Some ?a, internet_nif := Some ?b\<rparr>"
  have "engine_run [(answers 6, LocEngRequestSuplEs 7), (answers 0, LocEngReleaseATL 7)] ?y \<noteq> None" by code_simp
  then obtain y2 where y2: "engine_run [(answers 6, LocEngRequestSuplEs 7), (answers 0, LocEngReleaseATL 7)] ?y = Some y2" by blast
  have "delay_callback (answers 0) (the (engine_run [(answers 6, LocEngRequestSuplEs 7), (answers 0, LocEngReleaseATL 7)] ?y)) \<noteq> None"
    by code_simp
  then obtain y3 where y3: "delay_callback (answers 0) y2 = Some y3" using y2 by auto
  have "agps_thread_step (answers 0) (the (delay_callback (answers 0)
      (the (engine_run [(answers 6, LocEngRequestSuplEs 7), (answers 0, LocEngReleaseATL 7)] ?y)))) \<noteq> None" by code_simp
  then obtain y4 where y4: "agps_thread_step (answers 0) y3 = Some y4" using y2 y3 by auto
  from closed_call_is_reopened [OF _ _ _ _ _ _ _ _ _ _ y2 y3 y4, of ?a ?b] obtain m where
    "ds_nif y4 = Some m" "calls m = [OpenAndStartDataCall, StartTimer 500, AtlCloseStatus 7 True, RequestSuplES 7, OpenAndStartDataCall]"
    by (auto simp: fresh_engine_def new_machine_def answers_def LOC_API_ADAPTER_ERR_ENGINE_BUSY_def)
  with y2 y3 y4 show ?thesis by blast
qed

end
