(* ===== verification/MmJpeg.thy ===== *)
theory MmJpeg
  imports MmHandles
begin

text \<open>
  The JPEG interface (camera/QCamera2/stack/mm-jpeg-interface): clients, their encoding sessions and the jobs, which go
  from a queue of jobs to do through the thread of the job manager to the OMX encoder, and come back by its callbacks
  (mm_jpeg.c, over the queues of mm_jpeg_queue.c).

  A session is named by the indexes of its client and of its slot, which its id holds. The handle queue of a session
  (the sessions of a burst share one) and its queue of output buffers are allocated; their addresses are numbers,
  and a session without one has \<open>None\<close>. What OMX answers, what the allocator gives and who wakes an aborting
  thread is the environment of a step. \<open>jpeg_cbs\<close> logs the callbacks, \<open>ended\<close> where each job node went in the end.
  The result \<open>None\<close> is a wait that nobody ends or a null queue that is used.
\<close>

unbundle bit_operations_syntax

section \<open>Queues\<close>

text \<open>A queue with the answer of \<open>malloc\<close>; the head is where elements are taken.\<close>

definition mm_jpeg_queue_enq :: "bool \<Rightarrow> 'a \<Rightarrow> 'a list \<Rightarrow> int \<times> 'a list" where
  "mm_jpeg_queue_enq ok x q = (if ok then (0, q @ [x]) else (- 1, q))"

definition mm_jpeg_queue_enq_head :: "bool \<Rightarrow> 'a \<Rightarrow> 'a list \<Rightarrow> int \<times> 'a list" where
  "mm_jpeg_queue_enq_head ok x q = (if ok then (0, x # q) else (- 1, q))"

definition mm_jpeg_queue_deq :: "'a list \<Rightarrow> 'a option \<times> 'a list" where
  "mm_jpeg_queue_deq q = (case q of [] \<Rightarrow> (None, []) | x # xs \<Rightarrow> (Some x, xs))"

text \<open>The first element with a property is taken out.\<close>

fun queue_remove_first :: "('a \<Rightarrow> bool) \<Rightarrow> 'a list \<Rightarrow> 'a option \<times> 'a list" where
  "queue_remove_first P [] = (None, [])"
| "queue_remove_first P (x # xs) =
     (if P x then (Some x, xs) else let (r, ys) = queue_remove_first P xs in (r, x # ys))"

section \<open>Jobs, sessions and clients\<close>

definition MM_JPEG_MAX_SESSION :: nat where
  "MM_JPEG_MAX_SESSION = 10"

definition MAX_JPEG_CLIENT_NUM :: nat where
  "MAX_JPEG_CLIENT_NUM = 8"

definition NUM_MAX_JPEG_CNCURRENT_JOBS :: nat where
  "NUM_MAX_JPEG_CNCURRENT_JOBS = 2"

definition NUM_OMX_SESSIONS :: nat where
  "NUM_OMX_SESSIONS = 1"

definition MM_JPEG_MAX_BUF :: nat where
  "MM_JPEG_MAX_BUF = 24"

definition JOB_HIST_MAX :: u32 where
  "JOB_HIST_MAX = 10000"

definition JOB_ID_MAGICVAL :: u32 where
  "JOB_ID_MAGICVAL = 1"

type_synonym sid = "nat \<times> nat"

definition GET_CLIENT_IDX :: "u32 \<Rightarrow> nat" where
  "GET_CLIENT_IDX x = unat (x AND 0xff)"

definition GET_SESSION_IDX :: "u32 \<Rightarrow> nat" where
  "GET_SESSION_IDX x = unat (drop_bit 8 x AND 0xff)"

text \<open>Both indexes within their arrays; otherwise the source returns an error.\<close>

definition sid_of :: "u32 \<Rightarrow> sid option" where
  "sid_of x = (if MM_JPEG_MAX_SESSION \<le> GET_SESSION_IDX x \<or> MAX_JPEG_CLIENT_NUM \<le> GET_CLIENT_IDX x then None
     else Some (GET_CLIENT_IDX x, GET_SESSION_IDX x))"

datatype mm_jpeg_abort_state_t = MM_JPEG_ABORT_NONE | MM_JPEG_ABORT_INIT | MM_JPEG_ABORT_DONE

datatype jpeg_job_status_t = JPEG_JOB_STATUS_DONE | JPEG_JOB_STATUS_ERROR

datatype omx_state = OMX_StateLoaded | OMX_StateIdle | OMX_StateExecuting | OMX_StatePause

text \<open>A work buffer: its address (0 when it has none) and size.\<close>

record buffer_t =
  b_addr :: nat
  b_size :: nat

record mm_jpeg_encode_job_t =
  session_id :: u32
  src_index :: int
  dst_index :: int
  src_width :: int
  src_height :: int
  work_buf :: buffer_t

record mm_jpeg_encode_params_t =
  num_src_bufs :: nat
  num_tmb_bufs :: nat
  num_dst_bufs :: nat
  encode_thumbnail :: bool
  jpeg_cb :: bool
  burst_mode :: bool

datatype mm_jpeg_job_q_node_t =
    JobNode (node_job_id: u32) (node_client: u32) (node_job: mm_jpeg_encode_job_t)
  | ExitNode

record mm_jpeg_job_session_t =
  s_active :: bool
  client_hdl :: u32
  jobId :: u32
  sessionId :: u32
  params :: mm_jpeg_encode_params_t
  encode_job :: mm_jpeg_encode_job_t
  state_change_pending :: bool
  error_flag :: int
  abort_state :: mm_jpeg_abort_state_t
  omx_handle :: bool
  omx_st :: omx_state
  s_config :: bool
  encoding :: bool
  exif_count_local :: nat
  ebd_count :: nat
  fbd_count :: nat
  job_hist :: u32
  work_buffer :: buffer_t
  next_session :: "sid option"
  auto_out_buf :: bool
  session_handle_q :: "nat option"
  out_buf_q :: "nat option"

definition no_buffer :: buffer_t where
  "no_buffer = \<lparr>b_addr = 0, b_size = 0\<rparr>"

definition zero_job :: mm_jpeg_encode_job_t where
  "zero_job = \<lparr>session_id = 0, src_index = 0, dst_index = 0, src_width = 0, src_height = 0, work_buf = no_buffer\<rparr>"

definition zero_session :: mm_jpeg_job_session_t where
  "zero_session = \<lparr>s_active = False, client_hdl = 0, jobId = 0, sessionId = 0,
     params = \<lparr>num_src_bufs = 0, num_tmb_bufs = 0, num_dst_bufs = 0, encode_thumbnail = False, jpeg_cb = False,
       burst_mode = False\<rparr>,
     encode_job = zero_job, state_change_pending = False, error_flag = 0, abort_state = MM_JPEG_ABORT_NONE,
     omx_handle = False, omx_st = OMX_StateLoaded, s_config = False, encoding = False, exif_count_local = 0,
     ebd_count = 0, fbd_count = 0, job_hist = 0, work_buffer = no_buffer, next_session = None, auto_out_buf = False,
     session_handle_q = None, out_buf_q = None\<rparr>"

text \<open>Where a job node ends: done (or failed, with its callback), aborted, destroyed with its session, or dropped.\<close>

datatype job_end = Finished | Aborted | Destroyed | Dropped

record mm_jpeg_obj =
  num_clients :: int
  is_used :: "nat \<Rightarrow> bool"
  client_handle :: "nat \<Rightarrow> u32"
  session :: "sid \<Rightarrow> mm_jpeg_job_session_t"
  job_queue :: "mm_jpeg_job_q_node_t list"
  job_sem :: nat
  ongoing_job_q :: "mm_jpeg_job_q_node_t list"
  mgr_running :: bool
  ionBuffer :: "nat \<Rightarrow> buffer_t"
  ion_live :: "nat \<Rightarrow> bool"
  work_buf_cnt :: nat
  prev_w :: int
  prev_h :: int
  num_sessions :: nat
  handle_qs :: "nat \<Rightarrow> sid list"
  out_qs :: "nat \<Rightarrow> nat list"
  next_addr :: nat
  jpeg_cbs :: "(jpeg_job_status_t \<times> u32) list"
  put_memory :: nat
  ended :: "(mm_jpeg_job_q_node_t \<times> job_end) list"

datatype abort_wake = ByFbd | ByEvent | Nobody

text \<open>
  The answers of one step: allocations of nodes and queues, the OMX calls, the work buffers by index. The values of three
  error codes come from the OMX headers, which are not part of the repository.
\<close>

record jpeg_env =
  node_ok :: bool
  enq_ok :: bool
  queue_ok :: bool
  get_handle_rc :: int
  get_state_rc :: int
  send_rc :: int
  buffers_rc :: int
  completes :: bool
  config_rc :: int
  job_params_rc :: int
  empty_rc :: int
  thumb_rc :: int
  fill_rc :: int
  abort_wakes :: abort_wake
  ion_addr :: "nat \<Rightarrow> nat"
  OMX_ErrorOverflow :: int
  OMX_ErrorIncorrectStateTransition :: int
  OMX_ErrorUndefined :: int

definition upd_session :: "sid \<Rightarrow> (mm_jpeg_job_session_t \<Rightarrow> mm_jpeg_job_session_t) \<Rightarrow> mm_jpeg_obj \<Rightarrow> mm_jpeg_obj" where
  "upd_session s f y = y\<lparr>session := (session y)(s := f (session y s))\<rparr>"

definition end_job :: "job_end \<Rightarrow> mm_jpeg_job_q_node_t \<Rightarrow> mm_jpeg_obj \<Rightarrow> mm_jpeg_obj" where
  "end_job r n y = y\<lparr>ended := ended y @ [(n, r)]\<rparr>"

definition post_sem :: "mm_jpeg_obj \<Rightarrow> mm_jpeg_obj" where
  "post_sem y = y\<lparr>job_sem := job_sem y + 1\<rparr>"

definition call_cb :: "jpeg_job_status_t \<Rightarrow> sid \<Rightarrow> mm_jpeg_obj \<Rightarrow> mm_jpeg_obj" where
  "call_cb st s y = y\<lparr>jpeg_cbs := jpeg_cbs y @ [(st, jobId (session y s))]\<rparr>"

section \<open>A job that is done\<close>

definition has_job_id :: "u32 \<Rightarrow> mm_jpeg_job_q_node_t \<Rightarrow> bool" where
  "has_job_id i n = (case n of JobNode j c e \<Rightarrow> j = i | ExitNode \<Rightarrow> 0 = i)"

definition has_session_id :: "u32 \<Rightarrow> mm_jpeg_job_q_node_t \<Rightarrow> bool" where
  "has_session_id i n = (case n of JobNode j c e \<Rightarrow> session_id e = i | ExitNode \<Rightarrow> 0 = i)"

definition mm_jpegenc_destroy_job :: "sid \<Rightarrow> mm_jpeg_obj \<Rightarrow> mm_jpeg_obj" where
  "mm_jpegenc_destroy_job s = upd_session s (exif_count_local_update (\<lambda>_. 0))"

definition remove_ongoing :: "u32 \<Rightarrow> job_end \<Rightarrow> mm_jpeg_obj \<Rightarrow> mm_jpeg_obj" where
  "remove_ongoing i r y = (case queue_remove_first (has_job_id i) (ongoing_job_q y) of
     (Some n, q) \<Rightarrow> end_job r n (y\<lparr>ongoing_job_q := q\<rparr>)
   | (None, q) \<Rightarrow> y)"

definition mm_jpegenc_job_done :: "jpeg_env \<Rightarrow> sid \<Rightarrow> mm_jpeg_obj \<Rightarrow> mm_jpeg_obj option" where
  "mm_jpegenc_job_done e s y =
     (let y1 = remove_ongoing (jobId (session y s)) Finished (mm_jpegenc_destroy_job s y);
          y2 = upd_session s (encoding_update (\<lambda>_. False)) y1;
          z = session y2 s
      in case session_handle_q z of
        None \<Rightarrow> None
      | Some h \<Rightarrow>
        let y3 = y2\<lparr>handle_qs := (handle_qs y2)(h := snd (mm_jpeg_queue_enq (enq_ok e) s (handle_qs y2 h)))\<rparr> in
        if auto_out_buf z then
          (case out_buf_q z of
             None \<Rightarrow> None
           | Some b \<Rightarrow> Some (post_sem (y3\<lparr>out_qs := (out_qs y3)(b := snd (mm_jpeg_queue_enq (enq_ok e)
               (nat (dst_index (encode_job z) + 1)) (out_qs y3 b)))\<rparr>)))
        else Some (post_sem y3))"

section \<open>The encoder\<close>

definition mm_jpeg_ebd :: "sid \<Rightarrow> mm_jpeg_obj \<Rightarrow> mm_jpeg_obj" where
  "mm_jpeg_ebd s = upd_session s (ebd_count_update Suc)"

text \<open>An output buffer is filled.\<close>

definition mm_jpeg_fbd :: "jpeg_env \<Rightarrow> sid \<Rightarrow> mm_jpeg_obj \<Rightarrow> mm_jpeg_obj option" where
  "mm_jpeg_fbd e s y =
     (if abort_state (session y s) \<noteq> MM_JPEG_ABORT_NONE
      then Some (upd_session s (abort_state_update (\<lambda>_. MM_JPEG_ABORT_DONE)) (y\<lparr>put_memory := put_memory y + 1\<rparr>))
      else let y1 = upd_session s (fbd_count_update Suc) y in
        if jpeg_cb (params (session y1 s)) then mm_jpegenc_job_done e s (call_cb JPEG_JOB_STATUS_DONE s y1)
        else Some y1)"

datatype omx_event = OMX_EventError int | OMX_EventCmdComplete | OMX_EventOther

definition mm_jpeg_event_handler :: "jpeg_env \<Rightarrow> sid \<Rightarrow> omx_event \<Rightarrow> mm_jpeg_obj \<Rightarrow> mm_jpeg_obj option" where
  "mm_jpeg_event_handler e s ev y =
     (if abort_state (session y s) = MM_JPEG_ABORT_INIT
      then Some (upd_session s (abort_state_update (\<lambda>_. MM_JPEG_ABORT_DONE)) y)
      else case ev of
        OMX_EventError d \<Rightarrow>
          let y1 = upd_session s (error_flag_update (\<lambda>_. d)) y in
          if encoding (session y1 s) then
            mm_jpegenc_job_done e s (if jpeg_cb (params (session y1 s)) then call_cb JPEG_JOB_STATUS_ERROR s y1 else y1)
          else Some y1
      | OMX_EventCmdComplete \<Rightarrow> Some (upd_session s (state_change_pending_update (\<lambda>_. False)) y)
      | OMX_EventOther \<Rightarrow> Some y)"

text \<open>
  \<open>exec\<close> is the return value of the transition function. The completion of the command comes before the wait or
  ends it, or it never comes.
\<close>

definition mm_jpeg_session_change_state ::
  "jpeg_env \<Rightarrow> sid \<Rightarrow> omx_state \<Rightarrow> int \<Rightarrow> mm_jpeg_obj \<Rightarrow> (int \<times> mm_jpeg_obj) option" where
  "mm_jpeg_session_change_state e s new_state exec y =
     (if get_state_rc e \<noteq> 0 then Some (get_state_rc e, y)
      else if omx_st (session y s) = new_state then Some (0, y)
      else let y1 = upd_session s (state_change_pending_update (\<lambda>_. True)) y; err = error_flag (session y s) in
        if send_rc e \<noteq> 0 then Some (OMX_ErrorIncorrectStateTransition e, y1)
        else if err \<noteq> 0 \<and> err \<noteq> OMX_ErrorOverflow e then Some (err, y1)
        else if exec \<noteq> 0 then Some (exec, y1)
        else if completes e then
          Some (0, upd_session s (\<lambda>x. x\<lparr>state_change_pending := False, omx_st := new_state\<rparr>) y1)
        else None)"

text \<open>\<open>config_rc\<close> is the answer to the configuration of the main image.\<close>

definition mm_jpeg_session_configure :: "jpeg_env \<Rightarrow> sid \<Rightarrow> mm_jpeg_obj \<Rightarrow> (int \<times> mm_jpeg_obj) option" where
  "mm_jpeg_session_configure e s y =
     (if abort_state (session y s) = MM_JPEG_ABORT_INIT then Some (0, y)
      else if config_rc e \<noteq> 0 then Some (config_rc e, y)
      else case mm_jpeg_session_change_state e s OMX_StateIdle (buffers_rc e) y of
        None \<Rightarrow> None
      | Some (ret, y1) \<Rightarrow>
        if ret \<noteq> 0 then Some (ret, y1) else mm_jpeg_session_change_state e s OMX_StateExecuting 0 y1)"

text \<open>The buffers of a job go to OMX: the image, its thumbnail when there is one, and the output.\<close>

definition send_job :: "jpeg_env \<Rightarrow> bool \<Rightarrow> int" where
  "send_job e thumb = (if empty_rc e \<noteq> 0 then empty_rc e
     else if thumb \<and> thumb_rc e \<noteq> 0 then thumb_rc e else fill_rc e)"

definition mm_jpeg_session_encode :: "jpeg_env \<Rightarrow> sid \<Rightarrow> mm_jpeg_obj \<Rightarrow> (int \<times> mm_jpeg_obj) option" where
  "mm_jpeg_session_encode e s y =
     (let y1 = upd_session s (\<lambda>x. x\<lparr>abort_state := MM_JPEG_ABORT_NONE, encoding := False\<rparr>) y;
          conf = (if s_config (session y1 s) then Some (0, y1)
            else case mm_jpeg_session_configure e s y1 of
                None \<Rightarrow> None
              | Some (ret, y2) \<Rightarrow> Some (ret, if ret = 0 then upd_session s (s_config_update (\<lambda>_. True)) y2 else y2))
      in case conf of
        None \<Rightarrow> None
      | Some (ret, y2) \<Rightarrow>
        if ret \<noteq> 0 then Some (ret, y2)
        else if job_params_rc e \<noteq> 0 then Some (job_params_rc e, y2)
        else let y3 = upd_session s (encoding_update (\<lambda>_. True)) y2 in
          if abort_state (session y3 s) = MM_JPEG_ABORT_INIT then Some (0, y3)
          else Some (send_job e (encode_thumbnail (params (session y3 s))), y3))"

section \<open>The job manager\<close>

text \<open>The end of a job that could not be started.\<close>

definition encoding_failed :: "jpeg_env \<Rightarrow> int \<Rightarrow> sid \<Rightarrow> mm_jpeg_obj \<Rightarrow> mm_jpeg_obj option" where
  "encoding_failed e ret s y =
     mm_jpegenc_job_done e s
       (if ret \<noteq> 0 \<and> jpeg_cb (params (session y s)) then call_cb JPEG_JOB_STATUS_ERROR s y else y)"

text \<open>A job with its session and its output buffer, which are settled now, goes to the encoder.\<close>

definition run_job :: "jpeg_env \<Rightarrow> sid \<Rightarrow> u32 \<Rightarrow> u32 \<Rightarrow> mm_jpeg_encode_job_t \<Rightarrow> mm_jpeg_obj \<Rightarrow> (int \<times> mm_jpeg_obj) option" where
  "run_job e s i c job y =
     (let (rc, q) = mm_jpeg_queue_enq (enq_ok e) (JobNode i c job) (ongoing_job_q y) in
      if rc \<noteq> 0 then map_option (Pair rc) (encoding_failed e 0 s (end_job Dropped (JobNode i c job) y))
      else let y1 = upd_session s (\<lambda>x. x\<lparr>encode_job := job, jobId := i\<rparr>) (y\<lparr>ongoing_job_q := q\<rparr>) in
        case mm_jpeg_session_encode e s y1 of
          None \<Rightarrow> None
        | Some (ret, y2) \<Rightarrow>
          if ret \<noteq> 0 then map_option (Pair rc) (encoding_failed e ret s y2) else Some (rc, y2))"

definition mm_jpeg_process_encoding_job ::
  "jpeg_env \<Rightarrow> u32 \<Rightarrow> u32 \<Rightarrow> mm_jpeg_encode_job_t \<Rightarrow> mm_jpeg_obj \<Rightarrow> (int \<times> mm_jpeg_obj) option" where
  "mm_jpeg_process_encoding_job e i c job y = (case sid_of i of
     None \<Rightarrow> Some (- 1, end_job Dropped (JobNode i c job) y)
   | Some s0 \<Rightarrow> (case session_handle_q (session y s0) of
       None \<Rightarrow> None
     | Some h \<Rightarrow> (case mm_jpeg_queue_deq (handle_qs y h) of
         (None, q) \<Rightarrow>
           let (rc, jq) = mm_jpeg_queue_enq_head (enq_ok e) (JobNode i c job) (job_queue y);
               y1 = y\<lparr>job_queue := jq\<rparr>
           in Some (0, if rc = 0 then y1 else end_job Dropped (JobNode i c job) y1)
       | (Some s, q) \<Rightarrow>
           let y1 = upd_session s (auto_out_buf_update (\<lambda>_. False)) (y\<lparr>handle_qs := (handle_qs y)(h := q)\<rparr>) in
           if dst_index job < 0 then
             (case out_buf_q (session y1 s) of
                None \<Rightarrow> None
              | Some b \<Rightarrow> (case mm_jpeg_queue_deq (out_qs y1 b) of
                  (None, q2) \<Rightarrow> Some (OMX_ErrorUndefined e, end_job Dropped (JobNode i c job) y1)
                | (Some k, q2) \<Rightarrow>
                    run_job e s i c (job\<lparr>dst_index := int k - 1\<rparr>)
                      (upd_session s (auto_out_buf_update (\<lambda>_. True)) (y1\<lparr>out_qs := (out_qs y1)(b := q2)\<rparr>))))
           else run_job e s i c job y1)))"

text \<open>One round of the thread, which waits for the semaphore first; a round without a post does not begin.\<close>

definition mm_jpeg_jobmgr_round :: "jpeg_env \<Rightarrow> mm_jpeg_obj \<Rightarrow> mm_jpeg_obj option" where
  "mm_jpeg_jobmgr_round e y =
     (if job_sem y = 0 \<or> \<not> mgr_running y then Some y
      else let y1 = y\<lparr>job_sem := job_sem y - 1\<rparr> in
        if NUM_MAX_JPEG_CNCURRENT_JOBS \<le> length (ongoing_job_q y1) then Some y1
        else case mm_jpeg_queue_deq (job_queue y1) of
          (None, q) \<Rightarrow> Some y1
        | (Some n, q) \<Rightarrow>
          let y2 = y1\<lparr>job_queue := q\<rparr> in
          case n of
            JobNode i c job \<Rightarrow> map_option snd (mm_jpeg_process_encoding_job e i c job y2)
          | ExitNode \<Rightarrow> Some (y2\<lparr>mgr_running := False\<rparr>))"

section \<open>Starting a job\<close>

definition CEILING64 :: "int \<Rightarrow> int" where
  "CEILING64 x = (x + 63) div 64 * 64"

definition CEILING32 :: "int \<Rightarrow> int" where
  "CEILING32 x = (x + 31) div 32 * 32"

text \<open>The buffer is unmapped; its address stays in the structure. \<open>ion_live\<close> says which are mapped.\<close>

definition buffer_deallocate :: "nat \<Rightarrow> mm_jpeg_obj \<Rightarrow> mm_jpeg_obj" where
  "buffer_deallocate i y = y\<lparr>ion_live := (ion_live y)(i := False)\<rparr>"

text \<open>The work buffers below a count, from the top.\<close>

fun dealloc_below :: "nat \<Rightarrow> mm_jpeg_obj \<Rightarrow> mm_jpeg_obj" where
  "dealloc_below 0 y = y"
| "dealloc_below (Suc i) y =
     dealloc_below i ((buffer_deallocate i y)\<lparr>work_buf_cnt := work_buf_cnt y - 1\<rparr>)"

definition mm_jpeg_check_resolution_change :: "nat \<Rightarrow> int \<Rightarrow> int \<Rightarrow> mm_jpeg_obj \<Rightarrow> int \<times> mm_jpeg_obj" where
  "mm_jpeg_check_resolution_change need w h y =
     (if need < work_buf_cnt y then (- 1, y)
      else if work_buf_cnt y = need \<and> w * h \<noteq> prev_w y * prev_h y then (0, dealloc_below (work_buf_cnt y) y)
      else (0, y))"

text \<open>
  The loop that allocates the work buffers that are missing; on a failure it frees them all, and counts down once
  for each but the one that failed.
\<close>

fun alloc_work :: "jpeg_env \<Rightarrow> sid \<Rightarrow> nat \<Rightarrow> nat list \<Rightarrow> mm_jpeg_obj \<Rightarrow> int \<times> mm_jpeg_obj" where
  "alloc_work e s sz [] y = (0, y)"
| "alloc_work e s sz (i # is) y =
     (let b = \<lparr>b_addr = ion_addr e i, b_size = sz\<rparr>;
          y1 = y\<lparr>ionBuffer := (ionBuffer y)(i := b), ion_live := (ion_live y)(i := b_addr b \<noteq> 0),
                work_buf_cnt := work_buf_cnt y + 1\<rparr>
      in if b_addr b = 0 then (- 1, dealloc_below i y1)
         else alloc_work e s sz is (upd_session s (work_buffer_update (\<lambda>_. b)) y1))"

text \<open>
  The work buffers of a job. \<open>conc\<close> is the number of concurrent sessions, a constant of the build. The first result
  is the value \<open>mm_jpeg_start_job\<close> returns here, when it returns.
\<close>

definition prepare_work :: "jpeg_env \<Rightarrow> nat \<Rightarrow> sid \<Rightarrow> mm_jpeg_encode_job_t \<Rightarrow> mm_jpeg_obj \<Rightarrow> int option \<times> int \<times> mm_jpeg_obj" where
  "prepare_work e conc s job y =
     (let y1 = upd_session s (work_buffer_update (\<lambda>_. work_buf job)) y;
          w = src_width job; h = src_height job;
          need0 = min (num_sessions y1 + NUM_OMX_SESSIONS) conc;
          hal = b_addr (work_buf job) \<noteq> 0;
          need = (if hal then need0 - 1 else need0);
          y2 = (if hal then y1 else upd_session s (work_buffer_update (\<lambda>_. ionBuffer y1 0)) y1);
          (rc, y3) = (if hal \<and> need = 0 then (- 1, y2) else mm_jpeg_check_resolution_change need w h y2)
      in if \<not> (hal \<and> need = 0) \<and> rc < 0 then (Some rc, rc, y3)
         else let y4 = y3\<lparr>prev_w := w, prev_h := h\<rparr>;
                  sz = nat (CEILING32 (CEILING64 w * CEILING64 h * 3 div 2));
                  (ok, y5) = alloc_work e s sz [work_buf_cnt y4 ..< need] y4
           in if ok < 0 then (Some (- 1), rc, y5) else (None, rc, y5))"

definition new_job_id :: "u32 \<Rightarrow> u32 \<Rightarrow> u32" where
  "new_job_id sess hist = sess OR push_bit 16 (hist mod JOB_HIST_MAX)"

text \<open>The result, the job id and the state.\<close>

definition mm_jpeg_start_job ::
  "jpeg_env \<Rightarrow> nat \<Rightarrow> mm_jpeg_encode_job_t option \<Rightarrow> mm_jpeg_obj \<Rightarrow> int \<times> u32 \<times> mm_jpeg_obj" where
  "mm_jpeg_start_job e conc jobp y = (case jobp of
     None \<Rightarrow> (- 1, 0, y)
   | Some job \<Rightarrow> (case sid_of (session_id job) of
       None \<Rightarrow> (- 1, 0, y)
     | Some s \<Rightarrow> (case prepare_work e conc s job y of
         (Some r, rc, y1) \<Rightarrow> (r, 0, y1)
       | (None, rc, y1) \<Rightarrow>
         let z = session y1 s in
         if \<not> s_active z then (rc, 0, y1)
         else if int (num_src_bufs (params z)) \<le> src_index job \<or> int (num_dst_bufs (params z)) \<le> dst_index job
           then (rc, 0, y1)
         else if \<not> node_ok e then (- 1, 0, y1)
         else let i = new_job_id (session_id job) (job_hist z);
                  y2 = upd_session s (job_hist_update (\<lambda>n. n + 1)) y1;
                  n = JobNode i (client_hdl z) job;
                  (rc2, q) = mm_jpeg_queue_enq (enq_ok e) n (job_queue y2);
                  y3 = y2\<lparr>job_queue := q\<rparr>
           in if rc2 = 0 then (0, i, post_sem y3) else (rc2, i, end_job Dropped n y3))))"

end
