(* ===== verification/MmJpegSessions.thy ===== *)
theory MmJpegSessions
  imports MmJpeg
begin

text \<open>
  The life of clients and sessions of the JPEG interface (mm_jpeg.c, mm_jpeg_interface.c): sessions are created, their
  jobs are aborted, they are destroyed, and clients come and go with the library object.

  The sessions of a burst are chained; a walk along the chain has as fuel the number of all sessions, which a chain
  without a cycle cannot exceed.
\<close>

section \<open>Aborting\<close>

definition ALL_SESSIONS :: nat where
  "ALL_SESSIONS = MAX_JPEG_CLIENT_NUM * MM_JPEG_MAX_SESSION"

text \<open>
  One session: when it encodes, the thread waits for the encoder. A filled buffer that ends the wait is given back
  (\<open>mm_jpeg_fbd\<close>), an event only ends it; when nothing comes the thread never returns.
\<close>

definition abort_one :: "jpeg_env \<Rightarrow> sid \<Rightarrow> mm_jpeg_obj \<Rightarrow> mm_jpeg_obj option" where
  "abort_one e s y =
     (let y1 = upd_session s (abort_state_update (\<lambda>_. MM_JPEG_ABORT_INIT)) y;
          finish = upd_session s (abort_state_update (\<lambda>_. MM_JPEG_ABORT_DONE))
      in if encoding (session y1 s) then
           let y2 = mm_jpegenc_destroy_job s (upd_session s (state_change_pending_update (\<lambda>_. True)) y1) in
           case abort_wakes e of
             ByFbd \<Rightarrow> map_option finish (mm_jpeg_fbd e s y2)
           | ByEvent \<Rightarrow> map_option finish (mm_jpeg_event_handler e s OMX_EventOther y2)
           | Nobody \<Rightarrow> None
         else Some (finish y1))"

fun session_abort_chain :: "nat \<Rightarrow> jpeg_env \<Rightarrow> sid \<Rightarrow> mm_jpeg_obj \<Rightarrow> mm_jpeg_obj option" where
  "session_abort_chain 0 e s y = None"
| "session_abort_chain (Suc k) e s y =
     (if abort_state (session y s) \<noteq> MM_JPEG_ABORT_NONE then Some y
      else case abort_one e s y of
          None \<Rightarrow> None
        | Some y1 \<Rightarrow> (case next_session (session y1 s) of
            None \<Rightarrow> Some y1
          | Some t \<Rightarrow> session_abort_chain k e t y1))"

definition mm_jpeg_session_abort :: "jpeg_env \<Rightarrow> sid \<Rightarrow> mm_jpeg_obj \<Rightarrow> mm_jpeg_obj option" where
  "mm_jpeg_session_abort = session_abort_chain ALL_SESSIONS"

text \<open>The result is -1 in every case.\<close>

definition mm_jpeg_abort_job :: "jpeg_env \<Rightarrow> u32 \<Rightarrow> mm_jpeg_obj \<Rightarrow> (int \<times> mm_jpeg_obj) option" where
  "mm_jpeg_abort_job e i y = (case queue_remove_first (has_job_id i) (job_queue y) of
     (Some n, q) \<Rightarrow> Some (- 1, end_job Aborted n (y\<lparr>job_queue := q\<rparr>))
   | (None, q) \<Rightarrow> (case queue_remove_first (has_job_id i) (ongoing_job_q y) of
       (Some n, q2) \<Rightarrow>
         let y1 = y\<lparr>ongoing_job_q := q2\<rparr>;
             r = (case sid_of (case n of JobNode j c x \<Rightarrow> j | ExitNode \<Rightarrow> 0) of
                    None \<Rightarrow> Some y1 | Some s \<Rightarrow> mm_jpeg_session_abort e s y1)
         in map_option (\<lambda>y2. (- 1, end_job Aborted n y2)) r
     | (None, q2) \<Rightarrow> Some (- 1, y)))"

section \<open>Destroying a session\<close>

fun session_destroy_chain :: "nat \<Rightarrow> jpeg_env \<Rightarrow> sid \<Rightarrow> mm_jpeg_obj \<Rightarrow> mm_jpeg_obj option" where
  "session_destroy_chain 0 e s y = None"
| "session_destroy_chain (Suc k) e s y =
     (if \<not> omx_handle (session y s) then Some y
      else
        let idle = (if omx_st (session y s) \<in> {OMX_StateExecuting, OMX_StatePause}
                    then map_option snd (mm_jpeg_session_change_state e s OMX_StateIdle 0 y) else Some y);
            loaded = (case idle of None \<Rightarrow> None
              | Some y1 \<Rightarrow> if omx_st (session y1 s) = OMX_StateIdle
                  then map_option snd (mm_jpeg_session_change_state e s OMX_StateLoaded (buffers_rc e) y1) else Some y1)
        in case loaded of
          None \<Rightarrow> None
        | Some y2 \<Rightarrow>
          let y3 = (upd_session s (omx_handle_update (\<lambda>_. False)) y2)\<lparr>num_sessions := num_sessions y2 - 1\<rparr> in
          case next_session (session y3 s) of
            None \<Rightarrow> Some y3
          | Some t \<Rightarrow> session_destroy_chain k e t y3)"

definition mm_jpeg_session_destroy :: "jpeg_env \<Rightarrow> sid \<Rightarrow> mm_jpeg_obj \<Rightarrow> mm_jpeg_obj option" where
  "mm_jpeg_session_destroy = session_destroy_chain ALL_SESSIONS"

definition mm_jpeg_remove_session_idx :: "u32 \<Rightarrow> mm_jpeg_obj \<Rightarrow> mm_jpeg_obj" where
  "mm_jpeg_remove_session_idx i = upd_session (GET_CLIENT_IDX i, GET_SESSION_IDX i) (s_active_update (\<lambda>_. False))"

fun remove_chain :: "nat \<Rightarrow> sid \<Rightarrow> mm_jpeg_obj \<Rightarrow> mm_jpeg_obj option" where
  "remove_chain 0 s y = None"
| "remove_chain (Suc k) s y =
     (let y1 = mm_jpeg_remove_session_idx (sessionId (session y s)) y in
      case next_session (session y1 s) of None \<Rightarrow> Some y1 | Some t \<Rightarrow> remove_chain k t y1)"

text \<open>All nodes of a session leave both queues.\<close>

definition drop_jobs :: "u32 \<Rightarrow> mm_jpeg_obj \<Rightarrow> mm_jpeg_obj" where
  "drop_jobs i y = y\<lparr>job_queue := filter (\<lambda>n. \<not> has_session_id i n) (job_queue y),
     ongoing_job_q := filter (\<lambda>n. \<not> has_session_id i n) (ongoing_job_q y),
     ended := ended y @ map (\<lambda>n. (n, Destroyed)) (filter (has_session_id i) (job_queue y) @ filter (has_session_id i) (ongoing_job_q y))\<rparr>"

definition mm_jpeg_destroy_session :: "jpeg_env \<Rightarrow> sid option \<Rightarrow> mm_jpeg_obj \<Rightarrow> (int \<times> mm_jpeg_obj) option" where
  "mm_jpeg_destroy_session e sp y = (case sp of
     None \<Rightarrow> Some (0, y)
   | Some s \<Rightarrow>
     (case mm_jpeg_session_abort e s (drop_jobs (sessionId (session y s)) y) of
        None \<Rightarrow> None
      | Some y1 \<Rightarrow> (case mm_jpeg_session_destroy e s y1 of
          None \<Rightarrow> None
        | Some y2 \<Rightarrow> (case remove_chain ALL_SESSIONS s y2 of
            None \<Rightarrow> None
          | Some y3 \<Rightarrow> (case (session_handle_q (session y3 s), out_buf_q (session y3 s)) of
              (Some h, Some b) \<Rightarrow>
                Some (0, post_sem (upd_session s (\<lambda>x. x\<lparr>session_handle_q := None, out_buf_q := None\<rparr>)
                  (y3\<lparr>handle_qs := (handle_qs y3)(h := []), out_qs := (out_qs y3)(b := [])\<rparr>)))
            | _ \<Rightarrow> None)))))"

definition mm_jpeg_destroy_session_by_id :: "jpeg_env \<Rightarrow> u32 \<Rightarrow> mm_jpeg_obj \<Rightarrow> (int \<times> mm_jpeg_obj) option" where
  "mm_jpeg_destroy_session_by_id e i y = mm_jpeg_destroy_session e (sid_of i) y"

text \<open>What a client that closes does to each of its sessions: neither encoder nor queues are given back.\<close>

definition mm_jpeg_destroy_session_unlocked :: "jpeg_env \<Rightarrow> sid \<Rightarrow> mm_jpeg_obj \<Rightarrow> (int \<times> mm_jpeg_obj) option" where
  "mm_jpeg_destroy_session_unlocked e s y =
     (let i = sessionId (session y s) in
      if sid_of i = None then Some (- 1, y)
      else map_option (\<lambda>y1. (- 1, mm_jpeg_remove_session_idx i y1)) (mm_jpeg_session_abort e s (drop_jobs i y)))"

section \<open>Handles of clients\<close>

definition mm_jpeg_util_generate_handler :: "u8 \<Rightarrow> u16 \<Rightarrow> u32 \<times> u16" where
  "mm_jpeg_util_generate_handler index g =
     (let g1 = g + 1; g2 = (if g1 = 0 then g1 + 1 else g1)
      in (push_bit 8 (ucast g2) OR ucast index, g2))"

definition mm_jpeg_util_get_index_by_handler :: "u32 \<Rightarrow> u8" where
  "mm_jpeg_util_get_index_by_handler handler = ucast (handler AND 0xff)"

section \<open>Creating a session\<close>

definition mm_jpeg_get_new_session_idx :: "nat \<Rightarrow> mm_jpeg_obj \<Rightarrow> nat option" where
  "mm_jpeg_get_new_session_idx c y = find (\<lambda>i. \<not> s_active (session y (c, i))) [0..<MM_JPEG_MAX_SESSION]"

text \<open>The OMX handle of a session.\<close>

definition mm_jpeg_session_create :: "jpeg_env \<Rightarrow> sid \<Rightarrow> mm_jpeg_obj \<Rightarrow> int \<times> mm_jpeg_obj" where
  "mm_jpeg_session_create e s y =
     (let y1 = upd_session s (\<lambda>x. x\<lparr>state_change_pending := False, abort_state := MM_JPEG_ABORT_NONE, error_flag := 0,
              ebd_count := 0, fbd_count := 0, s_config := False, exif_count_local := 0, auto_out_buf := False\<rparr>) y
      in if get_handle_rc e \<noteq> 0 then (get_handle_rc e, y1)
         else (0, (upd_session s (\<lambda>x. x\<lparr>omx_handle := True, omx_st := OMX_StateLoaded\<rparr>) y1)\<lparr>num_sessions := num_sessions y1 + 1\<rparr>))"

definition session_id_of :: "nat \<Rightarrow> nat \<Rightarrow> u32" where
  "session_id_of c i = push_bit 24 JOB_ID_MAGICVAL OR push_bit 8 (of_nat i) OR of_nat c"

text \<open>
  The sessions of one request, one after the other; \<open>prev\<close> is the session before, \<open>sess0\<close> the id of the first. The
  results are the return value (which is 0 when no slot or no handle was free), the id and the state.
\<close>

fun create_loop :: "nat \<Rightarrow> nat list \<Rightarrow> jpeg_env \<Rightarrow> nat \<Rightarrow> u32 \<Rightarrow> mm_jpeg_encode_params_t \<Rightarrow> nat \<Rightarrow> nat \<Rightarrow> sid option \<Rightarrow> u32
    \<Rightarrow> mm_jpeg_obj \<Rightarrow> (bool \<times> int \<times> u32 \<times> mm_jpeg_obj) option" where
  "create_loop conc [] e c hdl p h b prev sess0 y = Some (True, 0, sess0, y)"
| "create_loop conc (i # is) e c hdl p h b prev sess0 y = (case mm_jpeg_get_new_session_idx c y of
     None \<Rightarrow> Some (False, 0, sess0, y)
   | Some k \<Rightarrow>
     let s = (c, k);
         y1 = upd_session s (\<lambda>x. x\<lparr>s_active := True, next_session := None\<rparr>) y;
         y2 = (case prev of None \<Rightarrow> y1 | Some q \<Rightarrow> upd_session q (next_session_update (\<lambda>_. Some s)) y1);
         bi = num_sessions y2 + i;
         y3 = upd_session s (work_buffer_update (\<lambda>w. if bi < conc then ionBuffer y2 bi else w\<lparr>b_addr := 0\<rparr>)) y2;
         (rc, y4) = mm_jpeg_session_create e s y3
     in if rc \<noteq> 0 then Some (False, 0, sess0, upd_session s (s_active_update (\<lambda>_. False)) y4)
        else
          let sid = session_id_of c k;
              sess1 = (if sess0 = 0 then sid else sess0);
              y5 = upd_session s (\<lambda>x. x\<lparr>params := p, client_hdl := hdl, sessionId := sid, session_handle_q := Some h,
                     out_buf_q := Some b\<rparr>) y4;
              y6 = y5\<lparr>handle_qs := (handle_qs y5)(h := snd (mm_jpeg_queue_enq (enq_ok e) s (handle_qs y5 h)))\<rparr>
          in case mm_jpeg_session_configure e s y6 of
               None \<Rightarrow> None
             | Some (rc2, y7) \<Rightarrow>
               if rc2 \<noteq> 0 then Some (False, rc2, sess1, y7)
               else create_loop conc is e c hdl p h b (Some s) sess1 (upd_session s (s_config_update (\<lambda>_. True)) y7))"

text \<open>Bad parameters return 0 as well.\<close>

definition mm_jpeg_create_session ::
  "jpeg_env \<Rightarrow> nat \<Rightarrow> u32 \<Rightarrow> mm_jpeg_encode_params_t \<Rightarrow> mm_jpeg_obj \<Rightarrow> (int \<times> u32 \<times> mm_jpeg_obj) option" where
  "mm_jpeg_create_session e conc hdl p y =
     (let c = unat (mm_jpeg_util_get_index_by_handler hdl) in
      if MM_JPEG_MAX_BUF < num_src_bufs p \<or> MM_JPEG_MAX_BUF < num_dst_bufs p then Some (0, 0, y)
      else if MAX_JPEG_CLIENT_NUM \<le> c then Some (0, 0, y)
      else if \<not> queue_ok e then Some (- 1, 0, y)
      else let n = (if burst_mode p then conc else NUM_OMX_SESSIONS);
               h = next_addr y; b = next_addr y + 1;
               y1 = y\<lparr>next_addr := next_addr y + 2, handle_qs := (handle_qs y)(h := []), out_qs := (out_qs y)(b := [])\<rparr>
           in case create_loop conc [0..<n] e c hdl p h b None 0 y1 of
                None \<Rightarrow> None
              | Some (ok, rc, sess, y2) \<Rightarrow>
                Some (rc, sess, if ok \<and> enq_ok e then y2\<lparr>out_qs := (out_qs y2)(b := out_qs y2 b @ [1..<num_dst_bufs p + 1])\<rparr> else y2))"

section \<open>Clients and the library object\<close>

definition mm_jpeg_new_client :: "mm_jpeg_obj \<Rightarrow> u16 \<Rightarrow> u32 \<times> mm_jpeg_obj \<times> u16" where
  "mm_jpeg_new_client y g =
     (if int MAX_JPEG_CLIENT_NUM \<le> num_clients y then (0, y, g)
      else case find (\<lambda>i. \<not> is_used y i) [0..<MAX_JPEG_CLIENT_NUM] of
          None \<Rightarrow> (0, y, g)
        | Some i \<Rightarrow>
          let (hdl, g1) = mm_jpeg_util_generate_handler (of_nat i) g in
          (hdl, y\<lparr>is_used := (is_used y)(i := True), client_handle := (client_handle y)(i := hdl),
                   session := (\<lambda>s. if fst s = i then zero_session else session y s),
                   num_clients := num_clients y + 1\<rparr>, g1))"

fun close_sessions :: "jpeg_env \<Rightarrow> nat \<Rightarrow> nat list \<Rightarrow> mm_jpeg_obj \<Rightarrow> mm_jpeg_obj option" where
  "close_sessions e c [] y = Some y"
| "close_sessions e c (i # is) y =
     (if s_active (session y (c, i)) then
        (case mm_jpeg_destroy_session_unlocked e (c, i) y of None \<Rightarrow> None | Some (rc, y1) \<Rightarrow> close_sessions e c is y1)
      else close_sessions e c is y)"

definition mm_jpeg_close :: "jpeg_env \<Rightarrow> u32 \<Rightarrow> mm_jpeg_obj \<Rightarrow> (int \<times> mm_jpeg_obj) option" where
  "mm_jpeg_close e hdl y =
     (let c = unat (mm_jpeg_util_get_index_by_handler hdl) in
      if MAX_JPEG_CLIENT_NUM \<le> c then Some (- 1, y)
      else map_option (\<lambda>y1. (0, y1\<lparr>is_used := (is_used y1)(c := False), client_handle := (client_handle y1)(c := 0),
               session := (\<lambda>s. if fst s = c then zero_session else session y1 s)\<rparr>))
             (close_sessions e c [0..<MM_JPEG_MAX_SESSION] y))"

text \<open>
  The end of the job manager: an exit node at the end of the queue, then rounds of the thread until it takes it. With no
  post left it waits for ever, and so does the caller.
\<close>

fun mgr_until_exit :: "nat \<Rightarrow> jpeg_env \<Rightarrow> mm_jpeg_obj \<Rightarrow> mm_jpeg_obj option" where
  "mgr_until_exit 0 e y = (if mgr_running y then None else Some y)"
| "mgr_until_exit (Suc k) e y =
     (if \<not> mgr_running y then Some y
      else case mm_jpeg_jobmgr_round e y of None \<Rightarrow> None | Some y1 \<Rightarrow> mgr_until_exit k e y1)"

text \<open>A round uses one post and a job that fails at once gives one back, so posts and queued jobs bound the rounds.\<close>

definition mm_jpeg_jobmgr_thread_release :: "jpeg_env \<Rightarrow> mm_jpeg_obj \<Rightarrow> (int \<times> mm_jpeg_obj) option" where
  "mm_jpeg_jobmgr_thread_release e y =
     (if \<not> node_ok e then Some (- 1, y)
      else let y1 = post_sem (y\<lparr>job_queue := snd (mm_jpeg_queue_enq (enq_ok e) ExitNode (job_queue y))\<rparr>) in
        map_option (\<lambda>y2. (0, y2\<lparr>job_queue := [], job_sem := 0\<rparr>))
          (mgr_until_exit (job_sem y1 + length (job_queue y1)) e y1))"

definition new_jpeg_obj :: mm_jpeg_obj where
  "new_jpeg_obj = \<lparr>num_clients = 0, is_used = (\<lambda>i. False), client_handle = (\<lambda>i. 0), session = (\<lambda>s. zero_session),
     job_queue = [], job_sem = 0, ongoing_job_q = [], mgr_running = False, ionBuffer = (\<lambda>i. no_buffer),
     ion_live = (\<lambda>i. False), work_buf_cnt = 0, prev_w = 0, prev_h = 0, num_sessions = 0, handle_qs = (\<lambda>h. []),
     out_qs = (\<lambda>b. []), next_addr = 0, jpeg_cbs = [], put_memory = 0, ended = []\<rparr>"

text \<open>
  \<open>omx\<close> is what \<open>OMX_Init\<close> returns. A failure stops the thread, but the result stays 0.
\<close>

definition mm_jpeg_init :: "jpeg_env \<Rightarrow> bool \<Rightarrow> int \<Rightarrow> mm_jpeg_obj \<Rightarrow> (int \<times> mm_jpeg_obj) option" where
  "mm_jpeg_init e dims omx y =
     (let y1 = y\<lparr>ongoing_job_q := [], job_queue := [], job_sem := 0, mgr_running := True\<rparr> in
      if \<not> dims then map_option (\<lambda>r. (- 1, snd r)) (mm_jpeg_jobmgr_thread_release e y1)
      else if omx \<noteq> 0 then map_option (\<lambda>r. (0, snd r)) (mm_jpeg_jobmgr_thread_release e y1)
      else Some (0, y1))"

definition dealloc_all :: "mm_jpeg_obj \<Rightarrow> mm_jpeg_obj" where
  "dealloc_all y = y\<lparr>ion_live := (\<lambda>i. if i < work_buf_cnt y then False else ion_live y i)\<rparr>"

definition mm_jpeg_deinit :: "jpeg_env \<Rightarrow> mm_jpeg_obj \<Rightarrow> (int \<times> mm_jpeg_obj) option" where
  "mm_jpeg_deinit e y = map_option (\<lambda>(rc, y1). (0, dealloc_all (y1\<lparr>ongoing_job_q := []\<rparr>))) (mm_jpeg_jobmgr_thread_release e y)"

section \<open>The interface\<close>

record jpeg_lib =
  g_jpeg_obj :: "mm_jpeg_obj option"
  g_handler_history_count :: u16

definition jpeg_open :: "jpeg_env \<Rightarrow> bool \<Rightarrow> int \<Rightarrow> jpeg_lib \<Rightarrow> (u32 \<times> jpeg_lib) option" where
  "jpeg_open e dims omx l =
     (let first = (case g_jpeg_obj l of
            Some y \<Rightarrow> Some (Some y)
          | None \<Rightarrow> if \<not> node_ok e then Some None
              else map_option (\<lambda>(rc, y). if rc \<noteq> 0 then None else Some y) (mm_jpeg_init e dims omx new_jpeg_obj))
      in case first of
        None \<Rightarrow> None
      | Some None \<Rightarrow> Some (0, l)
      | Some (Some y) \<Rightarrow>
        let (hdl, y1, g1) = mm_jpeg_new_client y (g_handler_history_count l) in
        if 0 < hdl then Some (hdl, l\<lparr>g_jpeg_obj := Some y1, g_handler_history_count := g1\<rparr>)
        else if num_clients y1 = 0 then
          map_option (\<lambda>r. (hdl, l\<lparr>g_jpeg_obj := None, g_handler_history_count := g1\<rparr>)) (mm_jpeg_deinit e y1)
        else Some (hdl, l\<lparr>g_jpeg_obj := Some y1, g_handler_history_count := g1\<rparr>))"

definition on_jpeg :: "jpeg_lib \<Rightarrow> (mm_jpeg_obj \<Rightarrow> (int \<times> mm_jpeg_obj) option) \<Rightarrow> (int \<times> jpeg_lib) option" where
  "on_jpeg l f = (case g_jpeg_obj l of
     None \<Rightarrow> Some (- 1, l)
   | Some y \<Rightarrow> map_option (\<lambda>(rc, y1). (rc, l\<lparr>g_jpeg_obj := Some y1\<rparr>)) (f y))"

definition mm_jpeg_intf_start_job ::
  "jpeg_env \<Rightarrow> nat \<Rightarrow> mm_jpeg_encode_job_t option \<Rightarrow> jpeg_lib \<Rightarrow> int \<times> u32 \<times> jpeg_lib" where
  "mm_jpeg_intf_start_job e conc job l = (case (job, g_jpeg_obj l) of
     (Some j, Some y) \<Rightarrow>
       let (rc, i, y1) = mm_jpeg_start_job e conc job y in (rc, i, l\<lparr>g_jpeg_obj := Some y1\<rparr>)
   | _ \<Rightarrow> (- 1, 0, l))"

definition mm_jpeg_intf_create_session ::
  "jpeg_env \<Rightarrow> nat \<Rightarrow> u32 \<Rightarrow> mm_jpeg_encode_params_t option \<Rightarrow> jpeg_lib \<Rightarrow> (int \<times> u32 \<times> jpeg_lib) option" where
  "mm_jpeg_intf_create_session e conc hdl pp l = (case (pp, g_jpeg_obj l) of
     (Some p, Some y) \<Rightarrow>
       if hdl = 0 then Some (- 1, 0, l)
       else map_option (\<lambda>(rc, i, y1). (rc, i, l\<lparr>g_jpeg_obj := Some y1\<rparr>)) (mm_jpeg_create_session e conc hdl p y)
   | _ \<Rightarrow> Some (- 1, 0, l))"

definition mm_jpeg_intf_destroy_session :: "jpeg_env \<Rightarrow> u32 \<Rightarrow> jpeg_lib \<Rightarrow> (int \<times> jpeg_lib) option" where
  "mm_jpeg_intf_destroy_session e i l = (if i = 0 then Some (- 1, l) else on_jpeg l (mm_jpeg_destroy_session_by_id e i))"

definition mm_jpeg_intf_abort_job :: "jpeg_env \<Rightarrow> u32 \<Rightarrow> jpeg_lib \<Rightarrow> (int \<times> jpeg_lib) option" where
  "mm_jpeg_intf_abort_job e i l = (if i = 0 then Some (- 1, l) else on_jpeg l (mm_jpeg_abort_job e i))"

definition mm_jpeg_intf_close :: "jpeg_env \<Rightarrow> u32 \<Rightarrow> jpeg_lib \<Rightarrow> (int \<times> jpeg_lib) option" where
  "mm_jpeg_intf_close e hdl l = (if hdl = 0 then Some (- 1, l) else case g_jpeg_obj l of
     None \<Rightarrow> Some (- 1, l)
   | Some y \<Rightarrow> (case mm_jpeg_close e hdl y of
       None \<Rightarrow> None
     | Some (rc, y1) \<Rightarrow>
       let y2 = y1\<lparr>num_clients := num_clients y1 - 1\<rparr> in
       if rc = 0 \<and> num_clients y2 = 0 then
         map_option (\<lambda>(rc2, y3). (rc2, l\<lparr>g_jpeg_obj := None\<rparr>)) (mm_jpeg_deinit e y2)
       else Some (rc, l\<lparr>g_jpeg_obj := Some y2\<rparr>)))"

end
