(* ===== verification/MmJpegProps.thy ===== *)
theory MmJpegProps
  imports MmJpegSessions "HOL-Library.Multiset"
begin

text \<open>
  Properties of the JPEG interface: every job that was accepted is in exactly one place, at most two are with the
  encoder, and what happens to jobs and sessions after aborts, errors and failed allocations. The operations of the
  object, with those of the encoder, are the steps of a run.
\<close>

section \<open>Operations and runs\<close>

datatype jpeg_op =
    StartJob mm_jpeg_encode_job_t
  | ManagerRound
  | EmptyDone sid
  | FillDone sid
  | EncoderEvent sid omx_event
  | AbortJob u32
  | CreateSession u32 mm_jpeg_encode_params_t
  | DestroySession u32
  | CloseClient u32

text \<open>The job ids that a step gives out, and the state after it.\<close>

definition jpeg_do :: "nat \<Rightarrow> jpeg_env \<Rightarrow> jpeg_op \<Rightarrow> mm_jpeg_obj \<Rightarrow> (u32 list \<times> mm_jpeg_obj) option" where
  "jpeg_do conc e op y = (case op of
     StartJob job \<Rightarrow> let (rc, i, y1) = mm_jpeg_start_job e conc (Some job) y in Some (if i = 0 then [] else [i], y1)
   | ManagerRound \<Rightarrow> map_option (Pair []) (mm_jpeg_jobmgr_round e y)
   | EmptyDone s \<Rightarrow> Some ([], mm_jpeg_ebd s y)
   | FillDone s \<Rightarrow> map_option (Pair []) (mm_jpeg_fbd e s y)
   | EncoderEvent s ev \<Rightarrow> map_option (Pair []) (mm_jpeg_event_handler e s ev y)
   | AbortJob i \<Rightarrow> map_option (\<lambda>r. ([], snd r)) (mm_jpeg_abort_job e i y)
   | CreateSession hdl p \<Rightarrow> map_option (\<lambda>r. ([], snd (snd r))) (mm_jpeg_create_session e conc hdl p y)
   | DestroySession i \<Rightarrow> map_option (\<lambda>r. ([], snd r)) (mm_jpeg_destroy_session_by_id e i y)
   | CloseClient hdl \<Rightarrow> map_option (\<lambda>r. ([], snd r)) (mm_jpeg_close e hdl y))"

fun jpeg_run :: "nat \<Rightarrow> (jpeg_env \<times> jpeg_op) list \<Rightarrow> mm_jpeg_obj \<Rightarrow> (u32 list \<times> mm_jpeg_obj) option" where
  "jpeg_run conc [] y = Some ([], y)"
| "jpeg_run conc ((e, op) # ops) y = (case jpeg_do conc e op y of
     None \<Rightarrow> None
   | Some (is, y1) \<Rightarrow> map_option (\<lambda>(js, y2). (is @ js, y2)) (jpeg_run conc ops y1))"

section \<open>Where the jobs are\<close>

fun job_ids :: "mm_jpeg_job_q_node_t list \<Rightarrow> u32 list" where
  "job_ids [] = []"
| "job_ids (JobNode i c x # ns) = i # job_ids ns"
| "job_ids (ExitNode # ns) = job_ids ns"

text \<open>The jobs of the queue to do, those with the encoder and those that ended.\<close>

definition held :: "mm_jpeg_obj \<Rightarrow> u32 multiset" where
  "held y = mset (job_ids (job_queue y)) + mset (job_ids (ongoing_job_q y)) + mset (job_ids (map fst (ended y)))"

lemma job_ids_append [simp]: "job_ids (xs @ ys) = job_ids xs @ job_ids ys"
  by (induction xs rule: job_ids.induct) auto

lemma job_ids_Cons: "job_ids (n # ns) = job_ids [n] @ job_ids ns"
  using job_ids_append [of "[n]" ns] by simp

lemma job_ids_partition:
  "mset (job_ids (filter P ns)) + mset (job_ids (filter (\<lambda>n. \<not> P n) ns)) = mset (job_ids ns)"
  by (induction ns rule: job_ids.induct) auto

lemma queue_remove_first_None: "queue_remove_first P xs = (None, q) \<Longrightarrow> q = xs"
  by (induction xs arbitrary: q) (auto split: if_splits prod.splits)

lemma queue_remove_first_Some:
  "queue_remove_first P xs = (Some n, q) \<Longrightarrow> P n \<and> length xs = Suc (length q) \<and>
     mset (job_ids xs) = mset (job_ids [n]) + mset (job_ids q)"
proof (induction xs arbitrary: q)
  case (Cons a xs)
  show ?case
  proof (cases "P a")
    case True
    then show ?thesis using Cons.prems by (auto simp: job_ids_Cons [of n q])
  next
    case False
    then obtain ys where ys: "queue_remove_first P xs = (Some n, ys)" "q = a # ys"
      using Cons.prems by (auto split: prod.splits)
    then show ?thesis
      using Cons.IH [OF ys(1)] by (simp add: job_ids_Cons [of a xs] job_ids_Cons [of a ys])
  qed
qed simp

text \<open>What a step does to the jobs: nothing, or only ending some of those with the encoder.\<close>

definition jobs_of :: "mm_jpeg_obj \<Rightarrow> mm_jpeg_job_q_node_t list \<times> mm_jpeg_job_q_node_t list \<times> (mm_jpeg_job_q_node_t \<times> job_end) list" where
  "jobs_of y = (job_queue y, ongoing_job_q y, ended y)"

definition jobs_same :: "mm_jpeg_obj \<Rightarrow> mm_jpeg_obj \<Rightarrow> bool" where
  "jobs_same y y' \<longleftrightarrow> jobs_of y' = jobs_of y"

definition jobs_kept :: "mm_jpeg_obj \<Rightarrow> mm_jpeg_obj \<Rightarrow> bool" where
  "jobs_kept y y' \<longleftrightarrow> held y' = held y \<and> length (ongoing_job_q y') \<le> length (ongoing_job_q y)"

lemma held_of: "jobs_of y' = jobs_of y \<Longrightarrow> held y' = held y \<and> ongoing_job_q y' = ongoing_job_q y"
  by (simp add: jobs_of_def held_def)

lemma same_kept: "jobs_same y y' \<Longrightarrow> jobs_kept y y'"
  using held_of [of y' y] by (simp add: jobs_same_def jobs_kept_def)

lemma same_trans: "jobs_same y z \<Longrightarrow> jobs_same z w \<Longrightarrow> jobs_same y w"
  by (simp add: jobs_same_def)

lemma kept_trans: "jobs_kept y z \<Longrightarrow> jobs_kept z w \<Longrightarrow> jobs_kept y w"
  by (simp add: jobs_kept_def)

lemma kept_refl [simp]: "jobs_kept y y"
  by (simp add: jobs_kept_def)

lemma jobs_of_fields [simp]:
  "jobs_of (upd_session s f z) = jobs_of z"
  "jobs_of (post_sem z) = jobs_of z"
  "jobs_of (call_cb st s z) = jobs_of z"
  "jobs_of (mm_jpegenc_destroy_job s z) = jobs_of z"
  "jobs_of (z\<lparr>handle_qs := a\<rparr>) = jobs_of z"
  "jobs_of (z\<lparr>out_qs := b\<rparr>) = jobs_of z"
  "jobs_of (z\<lparr>work_buf_cnt := c\<rparr>) = jobs_of z"
  "jobs_of (z\<lparr>ion_live := d\<rparr>) = jobs_of z"
  "jobs_of (z\<lparr>ionBuffer := g\<rparr>) = jobs_of z"
  "jobs_of (z\<lparr>prev_w := w\<rparr>) = jobs_of z"
  "jobs_of (z\<lparr>prev_h := w\<rparr>) = jobs_of z"
  "jobs_of (z\<lparr>num_sessions := c\<rparr>) = jobs_of z"
  "jobs_of (z\<lparr>put_memory := c\<rparr>) = jobs_of z"
  "jobs_of (z\<lparr>next_addr := c\<rparr>) = jobs_of z"
  "jobs_of (z\<lparr>job_sem := c\<rparr>) = jobs_of z"
  "jobs_of (z\<lparr>is_used := p\<rparr>) = jobs_of z"
  "jobs_of (z\<lparr>client_handle := r\<rparr>) = jobs_of z"
  "jobs_of (z\<lparr>session := k\<rparr>) = jobs_of z"
  "jobs_of (z\<lparr>num_clients := w\<rparr>) = jobs_of z"
  by (simp_all add: jobs_of_def upd_session_def post_sem_def call_cb_def mm_jpegenc_destroy_job_def)

lemma kept_remove_ongoing: "jobs_kept y (remove_ongoing i r y)"
proof (cases "queue_remove_first (has_job_id i) (ongoing_job_q y)")
  case (Pair a q)
  then show ?thesis
    by (cases a) (auto simp: remove_ongoing_def jobs_kept_def held_def end_job_def dest: queue_remove_first_Some)
qed

text \<open>Updates that leave the jobs alone disappear on both sides.\<close>

lemmas held_fields [simp] = jobs_of_fields [THEN held_of, THEN conjunct1]
lemmas ongoing_fields [simp] = jobs_of_fields [THEN held_of, THEN conjunct2]

lemma kept_left [simp]: "jobs_kept (upd_session s f y) z = jobs_kept y z"
  "jobs_kept (call_cb st s y) z = jobs_kept y z"
  "jobs_kept (mm_jpegenc_destroy_job s y) z = jobs_kept y z"
  by (simp_all add: jobs_kept_def)

section \<open>What each operation does to the jobs\<close>

lemma kept_job_done: "mm_jpegenc_job_done e s y = Some z \<Longrightarrow> jobs_kept y z"
  using kept_remove_ongoing [of "mm_jpegenc_destroy_job s y" "jobId (session y s)" Finished]
  by (auto simp: mm_jpegenc_job_done_def jobs_kept_def Let_def split: option.splits if_splits)

lemma kept_fbd: "mm_jpeg_fbd e s y = Some z \<Longrightarrow> jobs_kept y z"
  by (auto simp: mm_jpeg_fbd_def Let_def jobs_same_def split: if_splits intro: same_kept dest!: kept_job_done)

lemma kept_event: "mm_jpeg_event_handler e s ev y = Some z \<Longrightarrow> jobs_kept y z"
  by (auto simp: mm_jpeg_event_handler_def Let_def jobs_same_def split: if_splits omx_event.splits intro: same_kept dest!: kept_job_done)

lemma same_change_state: "mm_jpeg_session_change_state e s st x y = Some (r, z) \<Longrightarrow> jobs_same y z"
  by (auto simp: mm_jpeg_session_change_state_def Let_def jobs_same_def split: if_splits)

lemma same_configure: "mm_jpeg_session_configure e s y = Some (r, z) \<Longrightarrow> jobs_same y z"
  by (auto simp: mm_jpeg_session_configure_def jobs_same_def split: if_splits option.splits
        dest!: same_change_state [unfolded jobs_same_def])

lemma same_encode: "mm_jpeg_session_encode e s y = Some (r, z) \<Longrightarrow> jobs_same y z"
  by (auto simp: mm_jpeg_session_encode_def Let_def jobs_same_def split: if_splits option.splits
        dest!: same_configure [unfolded jobs_same_def])

lemma kept_failed: "encoding_failed e r s y = Some z \<Longrightarrow> jobs_kept y z"
  by (auto simp: encoding_failed_def split: if_splits dest!: kept_job_done)

text \<open>A node that moves.\<close>

lemma held_moves [simp]:
  "held (end_job r (JobNode i c x) y) = add_mset i (held y)"
  "held (y\<lparr>job_queue := JobNode i c x # job_queue y\<rparr>) = add_mset i (held y)"
  "held (y\<lparr>job_queue := job_queue y @ [JobNode i c x]\<rparr>) = add_mset i (held y)"
  "held (y\<lparr>ongoing_job_q := ongoing_job_q y @ [JobNode i c x]\<rparr>) = add_mset i (held y)"
  "ongoing_job_q (end_job r n y) = ongoing_job_q y"
  by (simp_all add: held_def end_job_def)

lemma held_run_job:
  "run_job e s i c job y = Some (r, z) \<Longrightarrow>
     held z = add_mset i (held y) \<and> length (ongoing_job_q z) \<le> length (ongoing_job_q y) + 1"
  by (auto simp: run_job_def mm_jpeg_queue_enq_def Let_def split: if_splits option.splits
        dest!: kept_failed same_kept [OF same_encode] simp: jobs_kept_def)

lemma held_process:
  assumes "mm_jpeg_process_encoding_job e i c job y = Some (r, z)"
  shows "held z = add_mset i (held y) \<and> length (ongoing_job_q z) \<le> length (ongoing_job_q y) + 1"
  using assms
  by (auto simp: mm_jpeg_process_encoding_job_def mm_jpeg_queue_deq_def mm_jpeg_queue_enq_head_def Let_def
        split: if_splits option.splits prod.splits list.splits dest!: held_run_job)

lemma job_queue_Cons: "job_queue y = JobNode i c x # q \<Longrightarrow> held y = add_mset i (held (y\<lparr>job_queue := q\<rparr>))"
  and job_queue_Exit: "job_queue y = ExitNode # q \<Longrightarrow> held y = held (y\<lparr>job_queue := q\<rparr>)"
  by (simp_all add: held_def)

lemma held_queue_sem [simp]: "held (y\<lparr>job_queue := q, job_sem := k\<rparr>) = held (y\<lparr>job_queue := q\<rparr>)"
  "held (y\<lparr>job_sem := k, job_queue := q\<rparr>) = held (y\<lparr>job_queue := q\<rparr>)"
  "held (y\<lparr>mgr_running := b\<rparr>) = held y"
  by (simp_all add: held_def)

text \<open>A round of the manager loses no job, and keeps the number of jobs with the encoder at its limit.\<close>

lemma held_round:
  assumes "mm_jpeg_jobmgr_round e y = Some z"
  shows "held z = held y" and "length (ongoing_job_q z) \<le> max (length (ongoing_job_q y)) NUM_MAX_JPEG_CNCURRENT_JOBS"
  using assms
  by (auto simp: mm_jpeg_jobmgr_round_def mm_jpeg_queue_deq_def Let_def job_queue_Cons job_queue_Exit
        split: if_splits list.splits mm_jpeg_job_q_node_t.splits dest!: held_process)

lemma same_dealloc: "jobs_of (dealloc_below n y) = jobs_of y"
  by (induction n y rule: dealloc_below.induct) (simp_all add: buffer_deallocate_def jobs_of_def)

lemma same_alloc: "alloc_work e s sz is y = (r, z) \<Longrightarrow> jobs_of z = jobs_of y"
  by (induction e s sz "is" y rule: alloc_work.induct) (auto simp: Let_def same_dealloc split: if_splits)

lemma same_check: "mm_jpeg_check_resolution_change n w h y = (r, z) \<Longrightarrow> jobs_of z = jobs_of y"
  by (auto simp: mm_jpeg_check_resolution_change_def same_dealloc split: if_splits)

lemma same_prepare: "prepare_work e conc s job y = (r, rc, z) \<Longrightarrow> jobs_of z = jobs_of y"
  by (auto simp: prepare_work_def Let_def split: if_splits prod.splits dest!: same_alloc same_check)

lemma new_job_id_0: "new_job_id x h = 0 \<Longrightarrow> x = 0"
  by (simp add: new_job_id_def or_eq_0_iff)

text \<open>A job is added exactly when an id is given out.\<close>

lemma held_start:
  assumes "mm_jpeg_start_job e conc (Some job) y = (r, i, z)" and "session_id job \<noteq> 0"
  shows "held z = held y + mset (if i = 0 then [] else [i])"
  using assms
  by (auto simp: mm_jpeg_start_job_def mm_jpeg_queue_enq_def Let_def split: option.splits if_splits prod.splits
        dest!: same_prepare [THEN held_of] new_job_id_0)

lemma ongoing_start: "mm_jpeg_start_job e conc (Some job) y = (r, i, z) \<Longrightarrow> ongoing_job_q z = ongoing_job_q y"
  by (auto simp: mm_jpeg_start_job_def mm_jpeg_queue_enq_def Let_def split: option.splits if_splits prod.splits
        dest!: same_prepare [THEN held_of])

text \<open>Aborting, destroying, creating and closing.\<close>

lemma kept_abort_one: "abort_one e s y = Some z \<Longrightarrow> jobs_kept y z"
  by (auto simp: abort_one_def Let_def jobs_kept_def split: if_splits abort_wake.splits
        dest!: kept_fbd [unfolded jobs_kept_def] kept_event [unfolded jobs_kept_def])

lemma kept_abort_chain: "session_abort_chain k e s y = Some z \<Longrightarrow> jobs_kept y z"
  by (induction k e s y rule: session_abort_chain.induct)
    (auto split: if_splits option.splits dest!: kept_abort_one intro: kept_trans)

lemma end_job_abort: "jobs_kept y z \<Longrightarrow> held (end_job r n z) = held y + mset (job_ids [n]) \<and>
    length (ongoing_job_q (end_job r n z)) \<le> length (ongoing_job_q y)"
  by (cases n) (auto simp: jobs_kept_def held_def end_job_def)

lemma kept_take_ongoing:
  assumes "queue_remove_first P (ongoing_job_q y) = (Some n, q)" "jobs_kept (y\<lparr>ongoing_job_q := q\<rparr>) z"
  shows "jobs_kept y (end_job r n z)"
  using end_job_abort [OF assms(2), of r n] queue_remove_first_Some [OF assms(1)]
  by (auto simp: jobs_kept_def held_def)

lemma kept_take_todo:
  assumes "queue_remove_first P (job_queue y) = (Some n, q)"
  shows "jobs_kept y (end_job r n (y\<lparr>job_queue := q\<rparr>))"
  using queue_remove_first_Some [OF assms] by (auto simp: jobs_kept_def held_def end_job_def)

lemma kept_abort_job: "mm_jpeg_abort_job e i y = Some (r, z) \<Longrightarrow> jobs_kept y z"
  by (auto simp: mm_jpeg_abort_job_def mm_jpeg_session_abort_def Let_def split: prod.splits option.splits
        intro: kept_take_ongoing kept_take_todo dest!: kept_abort_chain)

lemma same_destroy_chain: "session_destroy_chain k e s y = Some z \<Longrightarrow> jobs_of z = jobs_of y"
  by (induction k e s y rule: session_destroy_chain.induct)
    (auto simp: Let_def split: if_splits option.splits dest!: same_change_state [unfolded jobs_same_def])

lemma same_remove_chain: "remove_chain k s y = Some z \<Longrightarrow> jobs_of z = jobs_of y"
  by (induction k s y rule: remove_chain.induct)
    (auto simp: Let_def mm_jpeg_remove_session_idx_def split: option.splits)

lemma kept_drop: "jobs_kept y (drop_jobs i y)"
  by (simp add: jobs_kept_def held_def drop_jobs_def comp_def ac_simps
      job_ids_partition [of "has_session_id i" "job_queue y", symmetric]
      job_ids_partition [of "has_session_id i" "ongoing_job_q y", symmetric])

lemma kept_destroy: "mm_jpeg_destroy_session e sp y = Some (r, z) \<Longrightarrow> jobs_kept y z"
  by (auto simp: mm_jpeg_destroy_session_def mm_jpeg_session_abort_def mm_jpeg_session_destroy_def jobs_kept_def
      split: option.splits
      dest!: same_remove_chain [THEN held_of] same_destroy_chain [THEN held_of] kept_abort_chain [unfolded jobs_kept_def]
      simp: kept_drop [unfolded jobs_kept_def, THEN conjunct1]
      intro: order_trans [OF _ kept_drop [unfolded jobs_kept_def, THEN conjunct2]])

lemma kept_destroy_unlocked: "mm_jpeg_destroy_session_unlocked e s y = Some (r, z) \<Longrightarrow> jobs_kept y z"
  by (auto simp: mm_jpeg_destroy_session_unlocked_def mm_jpeg_session_abort_def mm_jpeg_remove_session_idx_def Let_def
      jobs_kept_def split: if_splits dest!: kept_abort_chain [unfolded jobs_kept_def]
      simp: kept_drop [unfolded jobs_kept_def, THEN conjunct1]
      intro: order_trans [OF _ kept_drop [unfolded jobs_kept_def, THEN conjunct2]])

lemma kept_close_sessions: "close_sessions e c is y = Some z \<Longrightarrow> jobs_kept y z"
  by (induction e c "is" y rule: close_sessions.induct)
    (auto split: if_splits option.splits dest!: kept_destroy_unlocked intro: kept_trans)

lemma kept_close: "mm_jpeg_close e hdl y = Some (r, z) \<Longrightarrow> jobs_kept y z"
  by (auto simp: mm_jpeg_close_def Let_def jobs_kept_def split: if_splits
      dest!: kept_close_sessions [unfolded jobs_kept_def])

lemma same_session_create: "mm_jpeg_session_create e s y = (r, z) \<Longrightarrow> jobs_of z = jobs_of y"
  by (auto simp: mm_jpeg_session_create_def Let_def split: if_splits)

lemma same_create_loop: "create_loop conc is e c hdl p h b prev s0 y = Some (ok, r, s1, z) \<Longrightarrow> jobs_of z = jobs_of y"
  by (induction conc "is" e c hdl p h b prev s0 y rule: create_loop.induct)
    (auto simp: Let_def split: if_splits option.splits prod.splits
      dest!: same_session_create same_configure [unfolded jobs_same_def])

lemma same_create: "mm_jpeg_create_session e conc hdl p y = Some (r, i, z) \<Longrightarrow> jobs_of z = jobs_of y"
  by (auto simp: mm_jpeg_create_session_def Let_def split: if_splits option.splits dest!: same_create_loop)

section \<open>Runs\<close>

text \<open>Jobs name their session by its id, which is never 0.\<close>

definition names_session :: "jpeg_op \<Rightarrow> bool" where
  "names_session op = (case op of StartJob job \<Rightarrow> session_id job \<noteq> 0 | _ \<Rightarrow> True)"

lemma held_do:
  assumes "jpeg_do conc e op y = Some (is, z)" "names_session op"
  shows "held z = held y + mset is"
  using assms
  by (auto simp: jpeg_do_def names_session_def jobs_kept_def mm_jpeg_ebd_def mm_jpeg_destroy_session_by_id_def
      split: jpeg_op.splits prod.splits if_splits
      dest: held_start held_round kept_fbd kept_event kept_abort_job kept_destroy kept_close same_create [THEN held_of])

lemma ongoing_do:
  assumes "jpeg_do conc e op y = Some (is, z)"
  shows "length (ongoing_job_q z) \<le> max (length (ongoing_job_q y)) NUM_MAX_JPEG_CNCURRENT_JOBS"
  using assms
  by (auto simp: jpeg_do_def jobs_kept_def mm_jpeg_ebd_def mm_jpeg_destroy_session_by_id_def max_def
      split: jpeg_op.splits prod.splits if_splits
      dest: ongoing_start held_round kept_fbd kept_event kept_abort_job kept_destroy kept_close same_create [THEN held_of])

text \<open>The first step of a run, and the rest.\<close>

lemma jpeg_run_cases:
  assumes "jpeg_run conc ((e, op) # ops) y = Some (is, z)"
  obtains ks y1 js where "jpeg_do conc e op y = Some (ks, y1)" "jpeg_run conc ops y1 = Some (js, z)" "is = ks @ js"
  using assms by (auto split: option.splits)

lemma held_run:
  assumes "jpeg_run conc ops y = Some (is, z)" "\<forall>eo\<in>set ops. names_session (snd eo)"
  shows "held z = held y + mset is"
  using assms
proof (induction conc ops y arbitrary: "is" rule: jpeg_run.induct)
  case (2 conc e op ops y)
  from "2.prems"(1) obtain ks y1 js where
    d: "jpeg_do conc e op y = Some (ks, y1)" "jpeg_run conc ops y1 = Some (js, z)" "is = ks @ js"
    by (rule jpeg_run_cases)
  have n: "names_session op" "\<forall>eo\<in>set ops. names_session (snd eo)" using "2.prems"(2) by simp_all
  show ?case
    using held_do [OF d(1) n(1)] "2.IH" [OF d(1) refl d(2) n(2)] d(3) by simp
qed simp

lemma ongoing_run:
  assumes "jpeg_run conc ops y = Some (is, z)"
  shows "length (ongoing_job_q z) \<le> max (length (ongoing_job_q y)) NUM_MAX_JPEG_CNCURRENT_JOBS"
  using assms
proof (induction conc ops y arbitrary: "is" rule: jpeg_run.induct)
  case (2 conc e op ops y)
  from "2.prems" obtain ks y1 js where
    d: "jpeg_do conc e op y = Some (ks, y1)" "jpeg_run conc ops y1 = Some (js, z)" by (rule jpeg_run_cases)
  show ?case
    using ongoing_do [OF d(1)] "2.IH" [OF d(1) refl d(2)] by auto
qed simp

text \<open>A client with one session, and an environment where every call succeeds.\<close>

definition jpeg_env1 :: jpeg_env where
  "jpeg_env1 = \<lparr>node_ok = True, enq_ok = True, queue_ok = True, get_handle_rc = 0, get_state_rc = 0, send_rc = 0,
     buffers_rc = 0, completes = True, config_rc = 0, job_params_rc = 0, empty_rc = 0, thumb_rc = 0, fill_rc = 0,
     abort_wakes = ByFbd, ion_addr = (\<lambda>i. i + 1), OMX_ErrorOverflow = 100, OMX_ErrorIncorrectStateTransition = 101,
     OMX_ErrorUndefined = 102\<rparr>"

definition jpeg_params1 :: mm_jpeg_encode_params_t where
  "jpeg_params1 = \<lparr>num_src_bufs = 1, num_tmb_bufs = 0, num_dst_bufs = 1, encode_thumbnail = False, jpeg_cb = True, burst_mode = False\<rparr>"

definition job1 :: "int \<Rightarrow> mm_jpeg_encode_job_t" where
  "job1 d = \<lparr>session_id = session_id_of 0 0, src_index = 0, dst_index = d, src_width = 64, src_height = 64, work_buf = no_buffer\<rparr>"

definition jpeg_session1 :: mm_jpeg_job_session_t where
  "jpeg_session1 = zero_session\<lparr>s_active := True, client_hdl := 0x100, sessionId := session_id_of 0 0, params := jpeg_params1,
     omx_handle := True, omx_st := OMX_StateExecuting, s_config := True, session_handle_q := Some 0, out_buf_q := Some 1\<rparr>"

definition jpeg_obj1 :: mm_jpeg_obj where
  "jpeg_obj1 = new_jpeg_obj\<lparr>num_clients := 1, is_used := (\<lambda>i. i = 0), client_handle := (\<lambda>i. if i = 0 then 0x100 else 0),
     session := (\<lambda>s. if s = (0, 0) then jpeg_session1 else zero_session), mgr_running := True,
     handle_qs := (\<lambda>h. if h = 0 then [(0, 0)] else []), out_qs := (\<lambda>b. if b = 1 then [1] else []), next_addr := 2, num_sessions := 1\<rparr>"

lemma jpeg_demo_run:
  "map_option fst (jpeg_run 1 (map (Pair jpeg_env1) [StartJob (job1 0), ManagerRound, FillDone (0, 0)]) jpeg_obj1)
    = Some [0x1000000]"
  by code_simp

lemma jpeg_demo_sessions:
  "\<forall>eo\<in>set (map (Pair jpeg_env1) [StartJob (job1 0), ManagerRound, FillDone (0, 0)]). names_session (snd eo)"
  by (simp add: names_session_def job1_def session_id_of_def JOB_ID_MAGICVAL_def)

text \<open>
  C23. jpeg_jobs_accounted. Over every run of the operations of the JPEG object and the callbacks of its encoder, with any
  answers of the allocator and of OMX, each job id that \<open>mm_jpeg_start_job\<close> gave out is in exactly one place: in the queue
  of jobs to do, with the encoder, or ended (finished, aborted, destroyed with its session, or dropped on an error). No
  operation loses a job or has it twice.
\<close>

theorem jpeg_jobs_accounted:
  assumes "\<forall>eo\<in>set ops. names_session (snd eo)" and "jpeg_run conc ops y = Some (is, z)"
  shows "held z = held y + mset is"
  using assms(2,1) by (rule held_run)

lemma jpeg_jobs_accounted_witness:
  "\<exists>z. jpeg_run 1 (map (Pair jpeg_env1) [StartJob (job1 0), ManagerRound, FillDone (0, 0)]) jpeg_obj1 = Some ([0x1000000], z)
     \<and> held z = held jpeg_obj1 + {#0x1000000#}"
  using jpeg_jobs_accounted [OF jpeg_demo_sessions, of 1 jpeg_obj1 "[0x1000000]"] jpeg_demo_run by auto

text \<open>
  C24. jpeg_ongoing_bounded. Whatever happens, at most two jobs are with the encoder at a time, when the run begins so.
\<close>

theorem jpeg_ongoing_bounded:
  assumes "jpeg_run conc ops y = Some (is, z)" and "length (ongoing_job_q y) \<le> 2"
  shows "length (ongoing_job_q z) \<le> 2"
  using ongoing_run [OF assms(1)] assms(2) by (simp add: NUM_MAX_JPEG_CNCURRENT_JOBS_def)

lemma jpeg_ongoing_bounded_witness:
  "\<exists>z. jpeg_run 1 (map (Pair jpeg_env1) [StartJob (job1 0), ManagerRound, FillDone (0, 0)]) jpeg_obj1 = Some ([0x1000000], z)
     \<and> length (ongoing_job_q z) \<le> 2"
  using jpeg_ongoing_bounded [of 1 "map (Pair jpeg_env1) [StartJob (job1 0), ManagerRound, FillDone (0, 0)]" jpeg_obj1 "[0x1000000]"] jpeg_demo_run
  by (auto simp: jpeg_obj1_def new_jpeg_obj_def)

end
