(* ===== verification/MmJpegFaults.thy ===== *)
theory MmJpegFaults
  imports MmJpegProps
begin

text \<open>
  What the JPEG interface does with aborts, errors, failed allocations and the reuse of job ids.
\<close>

section \<open>Aborting keeps the handle of the session\<close>

text \<open>What abort, start and the rounds of a stuck queue leave alone: a handle queue, and the queues of each session.\<close>

definition handles_same :: "mm_jpeg_obj \<Rightarrow> mm_jpeg_obj \<Rightarrow> bool" where
  "handles_same y z \<longleftrightarrow> (\<forall>t. session_handle_q (session z t) = session_handle_q (session y t)
     \<and> out_buf_q (session z t) = out_buf_q (session y t))"

lemma hs_refl [simp]: "handles_same y y"
  by (simp add: handles_same_def)

lemma hs_trans: "handles_same y z \<Longrightarrow> handles_same z w \<Longrightarrow> handles_same y w"
  by (simp add: handles_same_def)

lemma upd_simps [simp]:
  "session (upd_session s f y) t = (if t = s then f (session y s) else session y t)"
  "handle_qs (upd_session s f y) = handle_qs y"
  "job_queue (upd_session s f y) = job_queue y"
  "job_sem (upd_session s f y) = job_sem y"
  "jpeg_cbs (upd_session s f y) = jpeg_cbs y"
  "out_qs (upd_session s f y) = out_qs y"
  "mgr_running (upd_session s f y) = mgr_running y"
  by (simp_all add: upd_session_def)

lemma end_post_simps [simp]:
  "handle_qs (end_job r n y) = handle_qs y" "session (end_job r n y) = session y"
  "job_queue (end_job r n y) = job_queue y" "jpeg_cbs (end_job r n y) = jpeg_cbs y"
  "handle_qs (post_sem y) = handle_qs y" "session (post_sem y) = session y"
  "job_queue (post_sem y) = job_queue y" "jpeg_cbs (post_sem y) = jpeg_cbs y"
  "handle_qs (call_cb st s y) = handle_qs y" "session (call_cb st s y) = session y"
  "job_queue (call_cb st s y) = job_queue y"
  "jpeg_cbs (call_cb st s y) = jpeg_cbs y @ [(st, jobId (session y s))]"
  by (simp_all add: end_job_def post_sem_def call_cb_def)

lemma remove_ongoing_simps [simp]:
  "handle_qs (remove_ongoing i r y) = handle_qs y" "session (remove_ongoing i r y) = session y"
  "job_queue (remove_ongoing i r y) = job_queue y" "jpeg_cbs (remove_ongoing i r y) = jpeg_cbs y"
  by (auto simp: remove_ongoing_def split: prod.splits option.splits)

lemma abort_one_handles:
  "abort_one e s y = Some z \<Longrightarrow> handle_qs z = handle_qs y \<and> job_queue z = job_queue y \<and> handles_same y z"
  by (auto simp: abort_one_def mm_jpeg_fbd_def mm_jpeg_event_handler_def mm_jpegenc_destroy_job_def handles_same_def Let_def
      split: if_splits abort_wake.splits)

lemma abort_chain_handles:
  "session_abort_chain k e s y = Some z \<Longrightarrow> handle_qs z = handle_qs y \<and> job_queue z = job_queue y \<and> handles_same y z"
  by (induction k e s y rule: session_abort_chain.induct)
    (auto split: if_splits option.splits dest!: abort_one_handles intro: hs_trans)

lemma abort_job_handles:
  assumes "mm_jpeg_abort_job e i y = Some (r, z)" "\<forall>n\<in>set (job_queue y). \<not> has_job_id i n"
  shows "handle_qs z = handle_qs y \<and> job_queue z = job_queue y \<and> handles_same y z"
proof -
  have "fst (queue_remove_first (has_job_id i) q) = None" if "\<forall>n\<in>set q. \<not> has_job_id i n" for q
    using that by (induction q) (auto split: prod.splits)
  from this [OF assms(2)] show ?thesis
    using assms(1) by (auto simp: mm_jpeg_abort_job_def mm_jpeg_session_abort_def Let_def handles_same_def
        split: prod.splits option.splits dest!: abort_chain_handles)
qed

text \<open>
  The steps that do not give the handle queue \<open>h\<close> a handle: rounds, new jobs, emptied buffers, and the callbacks of
  sessions with another one. A stuck queue begins with a job of a session whose handle queue \<open>h\<close> is empty.
\<close>

definition calm :: "nat \<Rightarrow> mm_jpeg_obj \<Rightarrow> jpeg_env \<times> jpeg_op \<Rightarrow> bool" where
  "calm h y eo = (enq_ok (fst eo) \<and> (case snd eo of
     StartJob job \<Rightarrow> True | ManagerRound \<Rightarrow> True | EmptyDone s \<Rightarrow> True
   | FillDone t \<Rightarrow> session_handle_q (session y t) \<notin> {None, Some h} \<and> out_buf_q (session y t) \<noteq> None
   | EncoderEvent t ev \<Rightarrow> session_handle_q (session y t) \<notin> {None, Some h} \<and> out_buf_q (session y t) \<noteq> None
   | _ \<Rightarrow> False))"

definition stuck :: "nat \<Rightarrow> mm_jpeg_obj \<Rightarrow> bool" where
  "stuck h y = (handle_qs y h = [] \<and> (case job_queue y of
     JobNode j c job # ns \<Rightarrow> (case sid_of j of None \<Rightarrow> False | Some s \<Rightarrow> session_handle_q (session y s) = Some h)
   | _ \<Rightarrow> False))"

lemma calm_handles: "handles_same y z \<Longrightarrow> calm h z eo = calm h y eo"
  by (auto simp: handles_same_def calm_def split: jpeg_op.splits)

lemma stuck_append:
  "stuck h y \<Longrightarrow> handle_qs z h = handle_qs y h \<Longrightarrow> job_queue z = job_queue y @ new \<Longrightarrow> handles_same y z \<Longrightarrow> stuck h z"
  by (auto simp: stuck_def handles_same_def split: list.splits mm_jpeg_job_q_node_t.splits option.splits)

lemma stuck_round:
  "stuck h y \<Longrightarrow> enq_ok e \<Longrightarrow> \<exists>z. mm_jpeg_jobmgr_round e y = Some z \<and> handle_qs z h = [] \<and> job_queue z = job_queue y
     \<and> handles_same y z"
  by (auto simp: stuck_def mm_jpeg_jobmgr_round_def mm_jpeg_queue_deq_def mm_jpeg_process_encoding_job_def
      mm_jpeg_queue_enq_head_def Let_def handles_same_def
      split: list.splits mm_jpeg_job_q_node_t.splits option.splits)

lemma job_done_other:
  assumes "session_handle_q (session y t) \<notin> {None, Some h}" "out_buf_q (session y t) \<noteq> None"
  shows "\<exists>z. mm_jpegenc_job_done e t y = Some z \<and> handle_qs z h = handle_qs y h \<and> job_queue z = job_queue y
     \<and> handles_same y z"
  using assms by (auto simp: mm_jpegenc_job_done_def mm_jpegenc_destroy_job_def Let_def handles_same_def)

lemma dealloc_handles:
  "handle_qs (dealloc_below n y) = handle_qs y \<and> job_queue (dealloc_below n y) = job_queue y \<and>
   session (dealloc_below n y) = session y"
  by (induction n y rule: dealloc_below.induct) (simp_all add: buffer_deallocate_def)

lemma alloc_handles:
  "alloc_work e s sz is y = (r, z) \<Longrightarrow> handle_qs z = handle_qs y \<and> job_queue z = job_queue y \<and> handles_same y z"
  by (induction e s sz "is" y rule: alloc_work.induct)
    (auto simp: Let_def dealloc_handles handles_same_def split: if_splits)

lemma prepare_handles:
  "prepare_work e conc s job y = (r, rc, z) \<Longrightarrow> handle_qs z = handle_qs y \<and> job_queue z = job_queue y \<and> handles_same y z"
  by (auto simp: prepare_work_def Let_def mm_jpeg_check_resolution_change_def dealloc_handles handles_same_def
      split: if_splits prod.splits dest!: alloc_handles)

lemma start_handles:
  "mm_jpeg_start_job e conc (Some job) y = (r, i, z) \<Longrightarrow>
     handle_qs z = handle_qs y \<and> (\<exists>new. job_queue z = job_queue y @ new) \<and> handles_same y z"
  by (auto simp: mm_jpeg_start_job_def mm_jpeg_queue_enq_def Let_def handles_same_def
      split: if_splits prod.splits option.splits dest!: prepare_handles)

text \<open>A fill or an event of another session ends its job, and leaves the stuck queue alone.\<close>

lemma fbd_other:
  assumes "session_handle_q (session y t) \<notin> {None, Some h}" "out_buf_q (session y t) \<noteq> None"
  shows "\<exists>z. mm_jpeg_fbd e t y = Some z \<and> handle_qs z h = handle_qs y h \<and> job_queue z = job_queue y \<and> handles_same y z"
proof -
  let ?u = "call_cb JPEG_JOB_STATUS_DONE t (upd_session t (fbd_count_update Suc) y)"
  obtain z where "mm_jpegenc_job_done e t ?u = Some z \<and> handle_qs z h = handle_qs ?u h \<and> job_queue z = job_queue ?u
      \<and> handles_same ?u z"
    using job_done_other [of ?u t h e] assms by auto
  then show ?thesis
    by (auto simp: mm_jpeg_fbd_def Let_def handles_same_def)
qed

lemma event_other:
  assumes "session_handle_q (session y t) \<notin> {None, Some h}" "out_buf_q (session y t) \<noteq> None"
  shows "\<exists>z. mm_jpeg_event_handler e t ev y = Some z \<and> handle_qs z h = handle_qs y h \<and> job_queue z = job_queue y
     \<and> handles_same y z"
proof -
  have "\<exists>z. mm_jpegenc_job_done e t u = Some z \<and> handle_qs z h = handle_qs y h \<and> job_queue z = job_queue y
      \<and> handles_same y z"
    if u: "handle_qs u = handle_qs y" "job_queue u = job_queue y" "handles_same y u" for u
  proof -
    have "session_handle_q (session u t) = session_handle_q (session y t)" "out_buf_q (session u t) = out_buf_q (session y t)"
      using u(3) by (auto simp only: handles_same_def)
    then show ?thesis using job_done_other [of u t h e] assms u hs_trans by fastforce
  qed
  note other = this
  from other [of "call_cb JPEG_JOB_STATUS_ERROR t (upd_session t (error_flag_update (\<lambda>_. d)) y)" for d]
    other [of "upd_session t (error_flag_update (\<lambda>_. d)) y" for d]
  show ?thesis
    by (auto simp: mm_jpeg_event_handler_def Let_def handles_same_def split: omx_event.splits)
qed

lemma stuck_do:
  assumes "stuck h y" "calm h y (e, op)"
  shows "\<exists>is z new. jpeg_do conc e op y = Some (is, z) \<and> handle_qs z h = [] \<and> job_queue z = job_queue y @ new
     \<and> handles_same y z"
proof -
  have h: "handle_qs y h = []" using assms(1) by (simp add: stuck_def)
  show ?thesis
  proof (cases op)
    case (StartJob job)
    obtain r i z where st: "mm_jpeg_start_job e conc (Some job) y = (r, i, z)" by (rule prod_cases3)
    show ?thesis using start_handles [OF st] h by (simp add: StartJob jpeg_do_def st)
  next
    case ManagerRound
    then show ?thesis using stuck_round [OF assms(1), of e] assms(2) by (auto simp: jpeg_do_def calm_def)
  next
    case (EmptyDone s)
    then show ?thesis using h by (simp add: jpeg_do_def mm_jpeg_ebd_def handles_same_def)
  next
    case (FillDone t)
    then show ?thesis using fbd_other [of y t h e] assms(2) h by (auto simp: jpeg_do_def calm_def)
  next
    case (EncoderEvent t ev)
    then show ?thesis using event_other [of y t h e ev] assms(2) h by (auto simp: jpeg_do_def calm_def)
  qed (use assms(2) in \<open>simp_all add: calm_def\<close>)
qed

lemma stuck_run:
  assumes "stuck h y" "\<forall>eo\<in>set ops. calm h y eo"
  shows "\<exists>is z new. jpeg_run conc ops y = Some (is, z) \<and> job_queue z = job_queue y @ new"
  using assms
proof (induction ops arbitrary: y)
  case (Cons eo ops)
  obtain e op where eo: "eo = (e, op)" by (cases eo)
  obtain js u new where d: "jpeg_do conc e op y = Some (js, u)" "handle_qs u h = []" "job_queue u = job_queue y @ new"
      "handles_same y u"
    using stuck_do [OF Cons.prems(1), of e op conc] Cons.prems(2) eo by auto
  have "stuck h u" using stuck_append [OF Cons.prems(1), of u new] d Cons.prems(1) by (simp add: stuck_def)
  moreover have "\<forall>eo\<in>set ops. calm h u eo" using Cons.prems(2) calm_handles [OF d(4)] by simp
  ultimately obtain "is" z new2 where "jpeg_run conc ops u = Some (is, z) \<and> job_queue z = job_queue u @ new2"
    using Cons.IH by blast
  then show ?case using d(1,3) eo by simp
qed simp

text \<open>The demo session with one job at the encoder and the next one waiting.\<close>

definition jpeg_obj2 :: mm_jpeg_obj where
  "jpeg_obj2 = upd_session (0, 0) (\<lambda>x. x\<lparr>encoding := True, jobId := 0x1000000, job_hist := 2\<rparr>)
     (jpeg_obj1\<lparr>handle_qs := (\<lambda>h. []), ongoing_job_q := [JobNode 0x1000000 0x100 (job1 0)],
       job_queue := [JobNode 0x1010000 0x100 (job1 0)], job_sem := 1\<rparr>)"

text \<open>
  C38. abort_leaves_queue_stuck. Aborting a job that is with the encoder never gives the handle of its session back: when
  the next job in the queue needs a session of the same handle queue, then after the abort it and every job behind it,
  of other sessions too, stay in the queue through all rounds of the manager, new jobs and the callbacks of other
  sessions. Only an operation outside these (the queued job aborted, its session destroyed or its client closed) can
  move the queue.
\<close>

theorem abort_leaves_queue_stuck:
  assumes "stuck h y" and "\<forall>n\<in>set (job_queue y). \<not> has_job_id i n"
    and "mm_jpeg_abort_job e i y = Some (r, z)" and "\<forall>eo\<in>set ops. calm h y eo"
  shows "\<exists>is w new. jpeg_run conc ops z = Some (is, w) \<and> job_queue w = job_queue y @ new"
proof -
  have a: "handle_qs z = handle_qs y" "job_queue z = job_queue y" "handles_same y z"
    using abort_job_handles [OF assms(3,2)] by simp_all
  have "stuck h z" using stuck_append [OF assms(1), of z "[]"] a by simp
  moreover have "\<forall>eo\<in>set ops. calm h z eo" using calm_handles [OF a(3)] assms(4) by simp
  ultimately show ?thesis using stuck_run [of h z ops conc] a(2) by simp
qed

lemma jpeg_demo_stuck: "stuck 0 jpeg_obj2"
  by code_simp

lemma jpeg_demo_abort: "mm_jpeg_abort_job jpeg_env1 0x1000000 jpeg_obj2 \<noteq> None"
  by code_simp

lemma abort_leaves_queue_stuck_witness:
  "\<exists>r z is w new. mm_jpeg_abort_job jpeg_env1 0x1000000 jpeg_obj2 = Some (r, z)
     \<and> jpeg_run 1 [(jpeg_env1, ManagerRound), (jpeg_env1, StartJob (job1 0)), (jpeg_env1, ManagerRound)] z = Some (is, w)
     \<and> job_queue w = job_queue jpeg_obj2 @ new"
proof -
  obtain r z where a: "mm_jpeg_abort_job jpeg_env1 0x1000000 jpeg_obj2 = Some (r, z)"
    using jpeg_demo_abort by fastforce
  have "\<forall>n\<in>set (job_queue jpeg_obj2). \<not> has_job_id 0x1000000 n"
    by (simp add: jpeg_obj2_def has_job_id_def)
  from abort_leaves_queue_stuck [OF jpeg_demo_stuck this a,
      of "[(jpeg_env1, ManagerRound), (jpeg_env1, StartJob (job1 0)), (jpeg_env1, ManagerRound)]" 1] a
  show ?thesis by (simp add: calm_def jpeg_env1_def)
qed

section \<open>Job ids\<close>

text \<open>
  A job id holds the indexes of its client and of its session, whatever the count of the
  session's jobs: the manager and an abort find the session by the job id alone.
\<close>

theorem job_id_names_session: "sid_of (new_job_id x hist) = sid_of x"
proof -
  have ff: "(0xff :: u32) = mask 8" by (simp add: mask_eq_exp_minus_1)
  have "(x OR push_bit 16 n) AND 0xff = x AND 0xff"
    and "drop_bit 8 (x OR push_bit 16 n) AND 0xff = drop_bit 8 x AND 0xff" for n :: u32
    unfolding ff by (auto intro!: bit_word_eqI simp: bit_simps)
  then show ?thesis by (simp add: sid_of_def GET_CLIENT_IDX_def GET_SESSION_IDX_def new_job_id_def)
qed

text \<open>
  Two jobs of a session get the same id exactly when their counts modulo 10000 differ at most in bit 8,
  which falls on the constant bit of the session id: the ids of a session repeat after 256 jobs.
\<close>

theorem job_ids_repeat:
  assumes "c < MAX_JPEG_CLIENT_NUM" and "k < MM_JPEG_MAX_SESSION"
  shows "new_job_id (session_id_of c k) h1 = new_job_id (session_id_of c k) h2 \<longleftrightarrow>
     (h1 mod JOB_HIST_MAX) OR 0x100 = (h2 mod JOB_HIST_MAX) OR 0x100"
proof -
  define s :: u32 where "s = push_bit 8 (of_nat k) OR of_nat c"
  have s: "new_job_id (session_id_of c k) h = push_bit 16 (h mod JOB_HIST_MAX OR 0x100) OR s" for h
    by (simp add: new_job_id_def session_id_of_def JOB_ID_MAGICVAL_def s_def push_bit_or ac_simps)
  have "c \<in> {0, 1, 2, 3, 4, 5, 6, 7}" "k \<in> {0, 1, 2, 3, 4, 5, 6, 7, 8, 9}"
    using assms by (auto simp: MAX_JPEG_CLIENT_NUM_def MM_JPEG_MAX_SESSION_def)
  then have "drop_bit 16 s = 0" unfolding s_def drop_bit_or or_eq_0_iff by auto
  moreover have "take_bit 16 (h mod JOB_HIST_MAX OR 0x100) = h mod JOB_HIST_MAX OR 0x100" for h
  proof -
    have "unat (h mod JOB_HIST_MAX) < 2 ^ 16"
      using mod_less_divisor [of 10000 "unat h"] by (simp add: JOB_HIST_MAX_def unat_mod)
    then have "unat (take_bit 16 (h mod JOB_HIST_MAX)) = unat (h mod JOB_HIST_MAX)"
      by (simp only: unsigned_take_bit_eq take_bit_nat_eq_self)
    then have "take_bit 16 (h mod JOB_HIST_MAX) = h mod JOB_HIST_MAX"
      by (rule word_unat_eq_iff [THEN iffD2])
    then show ?thesis by simp
  qed
  moreover have "drop_bit 16 (push_bit 16 w) = take_bit 16 w" for w :: u32
    by (rule bit_word_eqI) (auto simp: bit_simps)
  ultimately have "drop_bit 16 (new_job_id (session_id_of c k) h) = h mod JOB_HIST_MAX OR 0x100" for h
    unfolding s by (simp only: drop_bit_or or.right_neutral)
  then show ?thesis using s by metis
qed

lemma job_ids_repeat_witness:
  "new_job_id (session_id_of 0 0) 0 = new_job_id (session_id_of 0 0) 256"
  using job_ids_repeat [of 0 0 0 256] by (simp add: MAX_JPEG_CLIENT_NUM_def MM_JPEG_MAX_SESSION_def JOB_HIST_MAX_def)

section \<open>Errors\<close>

lemma job_done_functional:
  assumes "session_handle_q (session y s) = Some h" "enq_ok e" "\<not> auto_out_buf (session y s)"
    "mm_jpegenc_job_done e s y = Some z"
  shows "jpeg_cbs z = jpeg_cbs y \<and> handle_qs z h = handle_qs y h @ [s] \<and>
    session_handle_q (session z s) = Some h \<and> jobId (session z s) = jobId (session y s) \<and>
    auto_out_buf (session z s) = auto_out_buf (session y s) \<and> params (session z s) = params (session y s)"
  using assms by (auto simp: mm_jpegenc_job_done_def mm_jpegenc_destroy_job_def mm_jpeg_queue_enq_def Let_def)

text \<open>
  When the encoder reports an error while the buffers of a job are handed to it, and the call that
  hands them over fails as well, the client gets two callbacks for the job and the session is twice in the queue of free
  session handles, so that two of its jobs can be started at a time.
\<close>

theorem error_reported_twice:
  assumes "encoding (session y s)" "jpeg_cb (params (session y s))" "abort_state (session y s) = MM_JPEG_ABORT_NONE"
    and "session_handle_q (session y s) = Some h" "\<not> auto_out_buf (session y s)" "enq_ok e" "ret \<noteq> 0"
    and "mm_jpeg_event_handler e s (OMX_EventError d) y = Some y1" "encoding_failed e ret s y1 = Some y2"
  shows "jpeg_cbs y2 = jpeg_cbs y @ replicate 2 (JPEG_JOB_STATUS_ERROR, jobId (session y s)) \<and>
     handle_qs y2 h = handle_qs y h @ [s, s]"
proof -
  let ?u = "call_cb JPEG_JOB_STATUS_ERROR s (upd_session s (error_flag_update (\<lambda>_. d)) y)"
  have "mm_jpegenc_job_done e s ?u = Some y1"
    using assms by (simp add: mm_jpeg_event_handler_def Let_def)
  from job_done_functional [OF _ assms(6) _ this, of h] assms
  have y1: "jpeg_cbs y1 = jpeg_cbs y @ [(JPEG_JOB_STATUS_ERROR, jobId (session y s))]" "handle_qs y1 h = handle_qs y h @ [s]"
    "session_handle_q (session y1 s) = Some h" "jobId (session y1 s) = jobId (session y s)"
    "\<not> auto_out_buf (session y1 s)" "params (session y1 s) = params (session y s)"
    by simp_all
  have "mm_jpegenc_job_done e s (call_cb JPEG_JOB_STATUS_ERROR s y1) = Some y2"
    using assms y1 by (simp add: encoding_failed_def)
  from job_done_functional [OF _ assms(6) _ this, of h] y1
  show ?thesis by (simp add: numeral_2_eq_2)
qed

text \<open>The demo session while its job is handed over.\<close>

lemma error_reported_twice_witness:
  "\<exists>y1 y2. mm_jpeg_event_handler jpeg_env1 (0, 0) (OMX_EventError 7) jpeg_obj2 = Some y1
     \<and> encoding_failed jpeg_env1 7 (0, 0) y1 = Some y2 \<and> handle_qs y2 0 = [(0, 0), (0, 0)]"
proof -
  have "(case mm_jpeg_event_handler jpeg_env1 (0, 0) (OMX_EventError 7) jpeg_obj2 of None \<Rightarrow> None
     | Some y \<Rightarrow> encoding_failed jpeg_env1 7 (0, 0) y) \<noteq> None" by code_simp
  then obtain y1 y2 where y: "mm_jpeg_event_handler jpeg_env1 (0, 0) (OMX_EventError 7) jpeg_obj2 = Some y1"
      "encoding_failed jpeg_env1 7 (0, 0) y1 = Some y2"
    by (auto split: option.splits)
  have "handle_qs jpeg_obj2 0 = []" by (simp add: jpeg_obj2_def)
  then show ?thesis
    using error_reported_twice [OF _ _ _ _ _ _ _ y, of 0] y
    by (simp add: jpeg_obj2_def jpeg_obj1_def jpeg_session1_def jpeg_params1_def zero_session_def jpeg_env1_def)
qed

section \<open>Failed allocations\<close>

text \<open>A job for a session that can take it: valid indexes, no work buffer of its own.\<close>

definition takes_job :: "sid \<Rightarrow> mm_jpeg_encode_job_t \<Rightarrow> mm_jpeg_obj \<Rightarrow> bool" where
  "takes_job s job y = (sid_of (session_id job) = Some s \<and> s_active (session y s) \<and> b_addr (work_buf job) = 0
     \<and> src_index job < int (num_src_bufs (params (session y s))) \<and> dst_index job < int (num_dst_bufs (params (session y s))))"

text \<open>
  When the one work buffer cannot be allocated, the job is refused, but the buffer stays counted:
  the next job of the same size is accepted with a work buffer of address 0, although nothing is mapped and the memory
  would be there now.
\<close>

theorem failed_work_buffer:
  assumes "takes_job s job y" "work_buf_cnt y = 0" "ion_addr e 0 = 0" "node_ok e'" "enq_ok e'"
  shows "\<exists>y1 i y2. mm_jpeg_start_job e 1 (Some job) y = (- 1, 0, y1) \<and> mm_jpeg_start_job e' 1 (Some job) y1 = (0, i, y2)
     \<and> b_addr (work_buffer (session y2 s)) = 0 \<and> ion_live y2 0 = ion_live y1 0 \<and> \<not> ion_live y1 0"
proof -
  let ?sz = "nat (CEILING32 (CEILING64 (src_width job) * CEILING64 (src_height job) * 3 div 2))"
  let ?u = "(upd_session s (work_buffer_update (\<lambda>_. ionBuffer y 0)) (upd_session s (work_buffer_update (\<lambda>_. work_buf job)) y))
     \<lparr>prev_w := src_width job, prev_h := src_height job\<rparr>"
  let ?y1 = "?u\<lparr>ionBuffer := (ionBuffer y)(0 := \<lparr>b_addr = 0, b_size = ?sz\<rparr>), ion_live := (ion_live y)(0 := False),
     work_buf_cnt := 1\<rparr>"
  have "prepare_work e 1 s job y = (Some (- 1), 0, ?y1)"
    using assms by (simp add: takes_job_def prepare_work_def mm_jpeg_check_resolution_change_def NUM_OMX_SESSIONS_def Let_def
        upd_session_def)
  then have a: "mm_jpeg_start_job e 1 (Some job) y = (- 1, 0, ?y1)"
    using assms by (simp add: mm_jpeg_start_job_def takes_job_def)
  define y2 where "y2 = upd_session s (work_buffer_update (\<lambda>_. \<lparr>b_addr = 0, b_size = ?sz\<rparr>))
     (upd_session s (work_buffer_update (\<lambda>_. work_buf job)) ?y1)"
  have "prepare_work e' 1 s job ?y1 = (None, 0, y2\<lparr>prev_w := src_width job, prev_h := src_height job\<rparr>)"
    using assms by (simp add: takes_job_def prepare_work_def mm_jpeg_check_resolution_change_def NUM_OMX_SESSIONS_def Let_def
        upd_session_def y2_def)
  then have "\<exists>i z. mm_jpeg_start_job e' 1 (Some job) ?y1 = (0, i, z) \<and> b_addr (work_buffer (session z s)) = 0 \<and> ion_live z 0 = ion_live ?y1 0"
    using assms by (simp add: mm_jpeg_start_job_def takes_job_def Let_def mm_jpeg_queue_enq_def y2_def post_sem_def upd_session_def)
  then obtain i z where b: "mm_jpeg_start_job e' 1 (Some job) ?y1 = (0, i, z)"
      "b_addr (work_buffer (session z s)) = 0" "ion_live z 0 = ion_live ?y1 0" by blast
  show ?thesis by (rule exI [of _ ?y1], rule exI [of _ i], rule exI [of _ z]) (use a b in simp)
qed

lemma failed_work_buffer_witness:
  "\<exists>y1 i y2. mm_jpeg_start_job (jpeg_env1\<lparr>ion_addr := (\<lambda>i. 0)\<rparr>) 1 (Some (job1 0)) jpeg_obj1 = (- 1, 0, y1)
     \<and> mm_jpeg_start_job jpeg_env1 1 (Some (job1 0)) y1 = (0, i, y2)
     \<and> b_addr (work_buffer (session y2 (0, 0))) = 0 \<and> ion_live y2 0 = ion_live y1 0 \<and> \<not> ion_live y1 0"
proof (rule failed_work_buffer)
  show "takes_job (0, 0) (job1 0) jpeg_obj1" by code_simp
qed (simp_all add: jpeg_env1_def jpeg_obj1_def new_jpeg_obj_def)

text \<open>
  When OMX gives no handle for a new session, or no session of the client is free, the
  request returns 0 all the same, with the session id 0; no session is added, and two queues that nothing refers to stay
  allocated.
\<close>

theorem create_reports_no_failure:
  assumes "num_src_bufs p \<le> MM_JPEG_MAX_BUF" "num_dst_bufs p \<le> MM_JPEG_MAX_BUF"
    and "unat (mm_jpeg_util_get_index_by_handler hdl) < MAX_JPEG_CLIENT_NUM" "queue_ok e" "\<not> burst_mode p"
    and "get_handle_rc e \<noteq> 0 \<or> mm_jpeg_get_new_session_idx (unat (mm_jpeg_util_get_index_by_handler hdl)) y = None"
  shows "\<exists>z. mm_jpeg_create_session e conc hdl p y = Some (0, 0, z) \<and> next_addr z = next_addr y + 2 \<and>
     num_sessions z = num_sessions y \<and> (\<lambda>t. s_active (session z t)) = (\<lambda>t. s_active (session y t))"
proof (cases "mm_jpeg_get_new_session_idx (unat (mm_jpeg_util_get_index_by_handler hdl)) y")
  case None
  let ?y = "y\<lparr>next_addr := next_addr y + 2, handle_qs := (handle_qs y)(next_addr y := []),
     out_qs := (out_qs y)(next_addr y + 1 := [])\<rparr>"
  have "mm_jpeg_get_new_session_idx (unat (mm_jpeg_util_get_index_by_handler hdl)) ?y = None"
    using None by (simp add: mm_jpeg_get_new_session_idx_def)
  then show ?thesis
    using assms by (simp add: mm_jpeg_create_session_def Let_def NUM_OMX_SESSIONS_def)
next
  case (Some k)
  let ?c = "unat (mm_jpeg_util_get_index_by_handler hdl)"
  let ?y = "y\<lparr>next_addr := next_addr y + 2, handle_qs := (handle_qs y)(next_addr y := []),
     out_qs := (out_qs y)(next_addr y + 1 := [])\<rparr>"
  have n: "mm_jpeg_get_new_session_idx ?c ?y = Some k"
    using Some by (simp add: mm_jpeg_get_new_session_idx_def)
  have "\<not> s_active (session y (?c, k))"
    using Some by (auto simp: mm_jpeg_get_new_session_idx_def find_Some_iff)
  then show ?thesis
    using assms n Some
    by (auto simp: mm_jpeg_create_session_def mm_jpeg_session_create_def Let_def NUM_OMX_SESSIONS_def upd_session_def fun_eq_iff)
qed

lemma create_reports_no_failure_witness:
  "\<exists>z. mm_jpeg_create_session (jpeg_env1\<lparr>get_handle_rc := 5\<rparr>) 1 0x100 jpeg_params1 jpeg_obj1 = Some (0, 0, z) \<and> next_addr z = 4 \<and>
     num_sessions z = 1 \<and> (\<lambda>t. s_active (session z t)) = (\<lambda>t. s_active (session jpeg_obj1 t))"
  using create_reports_no_failure [of jpeg_params1 "0x100" "jpeg_env1\<lparr>get_handle_rc := 5\<rparr>" jpeg_obj1 1]
  by (simp add: jpeg_params1_def jpeg_env1_def MM_JPEG_MAX_BUF_def MAX_JPEG_CLIENT_NUM_def
      mm_jpeg_util_get_index_by_handler_def jpeg_obj1_def new_jpeg_obj_def)

end
