(* ===== verification/PostProc.thy ===== *)
theory PostProc
  imports MmJpeg
begin

text \<open>
  The post processor of the HAL (camera/QCamera2/HAL/QCameraPostProc.cpp): super buffers of a snapshot go, when they are
  to be reprocessed, through the reprocess channel and come back, then to the JPEG interface, and the pictures to the
  application. Two threads take commands; the queues are \<open>QCameraQueue\<close>s, lists here (QueueSpec shows that they are),
  whose release functions are written out where a queue is flushed.

  What the HAL object, the allocator and the JPEG interface answer is the environment of a step. Super buffers are allocated
  structures; \<open>given_back\<close> logs those returned to their channel, \<open>orphans\<close> those whose channel was not found,
  \<open>freed\<close> the structures freed, \<open>mem_released\<close> the memory objects released.
\<close>

section \<open>Frames, jobs and state\<close>

record pp_buf_def =
  stream_id :: nat
  stream_type :: cam_stream_type_t
  buf_idx :: nat
  mem_info :: bool
  frame_buffer :: nat

record mm_camera_super_buf_t =
  sb_ptr :: nat
  ch_id :: nat
  bufs :: "pp_buf_def list"

record qcamera_jpeg_data_t =
  jpeg_jobId :: u32
  src_frame :: mm_camera_super_buf_t
  src_reproc_frame :: "mm_camera_super_buf_t option"
  jpeg_metadata :: "nat option"
  jpeg_frame_release :: bool

record qcamera_pp_data_t =
  pp_src_frame :: mm_camera_super_buf_t
  reproc_frame_release :: bool

record qcamera_jpeg_evt_payload_t =
  evt_jobId :: u32
  evt_status :: jpeg_job_status_t
  evt_mem :: "nat option"

datatype camera_cmd_type_t =
    CAMERA_CMD_TYPE_NONE | CAMERA_CMD_TYPE_START_DATA_PROC | CAMERA_CMD_TYPE_STOP_DATA_PROC
  | CAMERA_CMD_TYPE_DO_NEXT_JOB | CAMERA_CMD_TYPE_EXIT

text \<open>The calls into the JPEG interface.\<close>

datatype jpeg_call =
    Create_session mm_jpeg_encode_params_t
  | Start_job mm_jpeg_encode_job_t
  | Abort_job u32
  | Destroy_session u32

record qcamera_release_data_t =
  rel_data :: "nat option"
  rel_frame :: "mm_camera_super_buf_t option"

record postproc =
  m_bInited :: bool
  m_inputPPQ :: "mm_camera_super_buf_t list"
  m_ongoingPPQ :: "qcamera_pp_data_t list"
  m_inputJpegQ :: "qcamera_jpeg_data_t list"
  m_ongoingJpegQ :: "qcamera_jpeg_data_t list"
  m_inputRawQ :: "mm_camera_super_buf_t list"
  m_inputSaveQ :: "qcamera_jpeg_evt_payload_t list"
  data_cmds :: "camera_cmd_type_t list"
  save_cmds :: "camera_cmd_type_t list"
  data_active :: bool
  save_active :: bool
  data_running :: bool
  save_running :: bool
  mJpegClientHandle :: u32
  mJpegSessionId :: u32
  mNewJpegSessionNeeded :: bool
  mUseSaveProc :: bool
  mUseJpegBurst :: bool
  mJpegMemOpt :: bool
  mMultipleStages :: bool
  m_bThumbnailNeeded :: bool
  mSaveFrmCnt :: nat
  m_pReprocChannel :: "nat option"
  m_pDualReprocChannel :: "nat option"
  notifies :: "qcamera_release_data_t list"
  given_back :: "mm_camera_super_buf_t list"
  orphans :: "mm_camera_super_buf_t list"
  freed :: "mm_camera_super_buf_t list"
  mem_released :: "nat list"
  error_msgs :: nat
  jpeg_calls :: "jpeg_call list"

text \<open>The answers of one step. \<open>stream_of\<close> gives the type and the original type of a stream of a channel.\<close>

record pp_env =
  alloc_ok :: bool
  queue_node_ok :: bool
  cmd_ok :: bool
  notify_ok :: bool
  needReprocess :: bool
  needDualReprocess :: bool
  raw_format :: bool
  generateThumbFromMain :: bool
  isLongshotEnabled :: bool
  isRegularCapture :: bool
  isZSLMode :: bool
  recordingHint :: bool
  longshot_save :: bool
  jpeg_burst :: bool
  thumbnail_wanted :: bool
  m_bIntEvtPending :: bool
  compressed_wanted :: bool
  captures_pending :: bool
  getChannelByHandle :: "nat \<Rightarrow> bool"
  stream_of :: "nat \<Rightarrow> nat \<Rightarrow> (cam_stream_type_t \<times> cam_stream_type_t) option"
  stream_bufs :: "nat \<Rightarrow> nat \<Rightarrow> nat option"
  out_bufs_ok :: bool
  getMemory_mem :: "nat option"
  raw_mem_of :: "nat option"
  create_session_rc :: "status_t \<times> u32"
  start_job_rc :: "status_t \<times> u32"
  raw_image_dump :: bool
  debug_params_ok :: bool
  work_mem :: buffer_t
  main_dim :: "int \<times> int"
  reproc_source :: "nat \<Rightarrow> nat"
  doReprocess_rc :: status_t
  reproc_room :: bool
  addReprocChannel :: "nat option"
  addDualReprocChannel :: "nat option"
  reproc_start_rc :: status_t
  dual_start_rc :: status_t
  open_client :: u32

text \<open>\<open>FAILED_TRANSACTION\<close> of Android's \<open>utils/Errors.h\<close>.\<close>

definition FAILED_TRANSACTION :: status_t where
  "FAILED_TRANSACTION = ErrCode (- 2147483646)"

definition MAX_JPEG_BURST :: nat where
  "MAX_JPEG_BURST = 2"

section \<open>Releasing\<close>

definition is_reproc :: "nat option \<Rightarrow> mm_camera_super_buf_t \<Rightarrow> bool" where
  "is_reproc c f = (c = Some (ch_id f))"

definition releaseSuperBuf :: "pp_env \<Rightarrow> mm_camera_super_buf_t \<Rightarrow> postproc \<Rightarrow> postproc" where
  "releaseSuperBuf e f p =
     (if getChannelByHandle e (ch_id f) \<or> is_reproc (m_pReprocChannel p) f \<or> is_reproc (m_pDualReprocChannel p) f
      then p\<lparr>given_back := given_back p @ [f]\<rparr> else p\<lparr>orphans := orphans p @ [f]\<rparr>)"

definition free_frame :: "mm_camera_super_buf_t \<Rightarrow> postproc \<Rightarrow> postproc" where
  "free_frame f p = p\<lparr>freed := freed p @ [f]\<rparr>"

definition release_and_free :: "pp_env \<Rightarrow> mm_camera_super_buf_t \<Rightarrow> postproc \<Rightarrow> postproc" where
  "release_and_free e f p = free_frame f (releaseSuperBuf e f p)"

definition releaseJpegJobData :: "pp_env \<Rightarrow> qcamera_jpeg_data_t \<Rightarrow> postproc \<Rightarrow> postproc" where
  "releaseJpegJobData e job p =
     (let p1 = (case src_reproc_frame job of None \<Rightarrow> p
            | Some f \<Rightarrow> free_frame f (if jpeg_frame_release job then p else releaseSuperBuf e f p))
      in release_and_free e (src_frame job) p1)"

definition releaseOngoingPPData :: "pp_env \<Rightarrow> qcamera_pp_data_t \<Rightarrow> postproc \<Rightarrow> postproc" where
  "releaseOngoingPPData e job p =
     free_frame (pp_src_frame job) (if reproc_frame_release job then p else releaseSuperBuf e (pp_src_frame job) p)"

text \<open>Flushing a queue releases each datum and frees it (QCameraQueue.cpp).\<close>

definition flush_inputPPQ :: "pp_env \<Rightarrow> postproc \<Rightarrow> postproc" where
  "flush_inputPPQ e p = fold (release_and_free e) (m_inputPPQ p) (p\<lparr>m_inputPPQ := []\<rparr>)"

definition flush_inputRawQ :: "pp_env \<Rightarrow> postproc \<Rightarrow> postproc" where
  "flush_inputRawQ e p = fold (release_and_free e) (m_inputRawQ p) (p\<lparr>m_inputRawQ := []\<rparr>)"

definition flush_inputJpegQ :: "pp_env \<Rightarrow> postproc \<Rightarrow> postproc" where
  "flush_inputJpegQ e p = fold (releaseJpegJobData e) (m_inputJpegQ p) (p\<lparr>m_inputJpegQ := []\<rparr>)"

definition flush_ongoingPPQ :: "pp_env \<Rightarrow> postproc \<Rightarrow> postproc" where
  "flush_ongoingPPQ e p = fold (releaseOngoingPPData e) (m_ongoingPPQ p) (p\<lparr>m_ongoingPPQ := []\<rparr>)"

definition matchJobId :: "u32 \<Rightarrow> qcamera_jpeg_data_t \<Rightarrow> bool" where
  "matchJobId i job = (jpeg_jobId job = i)"

text \<open>\<open>m_ongoingJpegQ.flushNodes(matchJobId, id)\<close>.\<close>

definition flush_ongoing_jobs :: "pp_env \<Rightarrow> u32 \<Rightarrow> postproc \<Rightarrow> postproc" where
  "flush_ongoing_jobs e i p = fold (releaseJpegJobData e) (filter (matchJobId i) (m_ongoingJpegQ p))
     (p\<lparr>m_ongoingJpegQ := filter (\<lambda>j. \<not> matchJobId i j) (m_ongoingJpegQ p)\<rparr>)"

text \<open>A command for a thread; without memory for its node it is not sent. With priority it goes to the head.\<close>

definition send_data_cmd :: "pp_env \<Rightarrow> camera_cmd_type_t \<Rightarrow> bool \<Rightarrow> postproc \<Rightarrow> postproc" where
  "send_data_cmd e c prio p = (if \<not> cmd_ok e then p
     else p\<lparr>data_cmds := (if prio then c # data_cmds p else data_cmds p @ [c])\<rparr>)"

definition send_save_cmd :: "pp_env \<Rightarrow> camera_cmd_type_t \<Rightarrow> bool \<Rightarrow> postproc \<Rightarrow> postproc" where
  "send_save_cmd e c prio p = (if \<not> cmd_ok e then p
     else p\<lparr>save_cmds := (if prio then c # save_cmds p else save_cmds p @ [c])\<rparr>)"

definition sendEvtNotify_error :: "postproc \<Rightarrow> postproc" where
  "sendEvtNotify_error p = p\<lparr>error_msgs := error_msgs p + 1\<rparr>"

section \<open>The application's callbacks\<close>

definition releaseNotifyData :: "pp_env \<Rightarrow> qcamera_release_data_t \<Rightarrow> postproc \<Rightarrow> postproc" where
  "releaseNotifyData e r p =
     (let p1 = (case rel_data r of None \<Rightarrow> p | Some m \<Rightarrow> p\<lparr>mem_released := mem_released p @ [m]\<rparr>)
      in case rel_frame r of None \<Rightarrow> p1 | Some f \<Rightarrow> release_and_free e f p1)"

text \<open>A notification that cannot be queued releases its data at once.\<close>

definition sendDataNotify :: "pp_env \<Rightarrow> qcamera_release_data_t \<Rightarrow> postproc \<Rightarrow> status_t \<times> postproc" where
  "sendDataNotify e r p =
     (if \<not> alloc_ok e then (NO_MEMORY, p)
      else if notify_ok e then (NO_ERROR, p\<lparr>notifies := notifies p @ [r]\<rparr>)
      else (UNKNOWN_ERROR, releaseNotifyData e r p))"

text \<open>The notifier has called the application with the oldest data.\<close>

definition notify_done :: "pp_env \<Rightarrow> postproc \<Rightarrow> postproc" where
  "notify_done e p = (case notifies p of [] \<Rightarrow> p | r # rs \<Rightarrow> releaseNotifyData e r (p\<lparr>notifies := rs\<rparr>))"

section \<open>Frames come in\<close>

text \<open>A queue takes a datum unless there is no memory for its node; the result is not looked at.\<close>

definition q_put :: "pp_env \<Rightarrow> 'a \<Rightarrow> 'a list \<Rightarrow> 'a list" where
  "q_put e x q = (if queue_node_ok e then q @ [x] else q)"

definition processRawData :: "pp_env \<Rightarrow> mm_camera_super_buf_t \<Rightarrow> postproc \<Rightarrow> status_t \<times> postproc" where
  "processRawData e f p =
     (if \<not> m_bInited p then (UNKNOWN_ERROR, p)
      else (NO_ERROR, send_data_cmd e CAMERA_CMD_TYPE_DO_NEXT_JOB False (p\<lparr>m_inputRawQ := q_put e f (m_inputRawQ p)\<rparr>)))"

text \<open>The metadata buffer of a super buffer.\<close>

definition find_metadata :: "mm_camera_super_buf_t \<Rightarrow> nat option" where
  "find_metadata f = map_option frame_buffer (find (\<lambda>b. stream_type b = CAM_STREAM_TYPE_METADATA) (bufs f))"

definition processData :: "pp_env \<Rightarrow> mm_camera_super_buf_t \<Rightarrow> postproc \<Rightarrow> status_t \<times> postproc" where
  "processData e f p =
     (if \<not> m_bInited p then (UNKNOWN_ERROR, p)
      else if needReprocess e then
        (NO_ERROR, send_data_cmd e CAMERA_CMD_TYPE_DO_NEXT_JOB False (p\<lparr>m_inputPPQ := q_put e f (m_inputPPQ p)\<rparr>))
      else if raw_format e then
        (NO_ERROR, send_data_cmd e CAMERA_CMD_TYPE_DO_NEXT_JOB False (snd (processRawData e f p)))
      else if \<not> alloc_ok e then (NO_MEMORY, p)
      else
        let job = \<lparr>jpeg_jobId = 0, src_frame = f, src_reproc_frame = None, jpeg_metadata = find_metadata f,
                   jpeg_frame_release = False\<rparr>
        in (NO_ERROR, send_data_cmd e CAMERA_CMD_TYPE_DO_NEXT_JOB False (p\<lparr>m_inputJpegQ := q_put e job (m_inputJpegQ p)\<rparr>)))"

text \<open>A frame comes back from the reprocess channel, for the job that was sent there first.\<close>

definition processPPData :: "pp_env \<Rightarrow> mm_camera_super_buf_t \<Rightarrow> postproc \<Rightarrow> status_t \<times> postproc" where
  "processPPData e f p =
     (if \<not> m_bInited p then (UNKNOWN_ERROR, p)
      else
        let job = (case m_ongoingPPQ p of [] \<Rightarrow> None | j # js \<Rightarrow> Some j);
            p1 = p\<lparr>m_ongoingPPQ := tl (m_ongoingPPQ p)\<rparr>
        in if \<not> generateThumbFromMain e \<and> job = None then (BAD_VALUE, p1)
           else if \<not> generateThumbFromMain e \<and> raw_format e
             then processRawData e f (release_and_free e (pp_src_frame (the job)) p1)
           else if \<not> alloc_ok e then (NO_MEMORY, p1)
           else
             let meta = (case job of None \<Rightarrow> find_metadata f
                   | Some j \<Rightarrow> (case find_metadata (pp_src_frame j) of None \<Rightarrow> find_metadata f | Some b \<Rightarrow> Some b));
                 jjob = \<lparr>jpeg_jobId = 0, src_frame = f, src_reproc_frame = map_option pp_src_frame job,
                         jpeg_metadata = meta,
                         jpeg_frame_release = (case job of None \<Rightarrow> False | Some j \<Rightarrow> reproc_frame_release j)\<rparr>
             in (NO_ERROR, send_data_cmd e CAMERA_CMD_TYPE_DO_NEXT_JOB False
                   (p1\<lparr>m_inputJpegQ := q_put e jjob (m_inputJpegQ p1)\<rparr>)))"

section \<open>A picture comes from the JPEG interface\<close>

text \<open>
  The picture of an event goes to the application. \<open>end\<close> reports an error and releases the memory; it is released by a
  notification that fails, too.
\<close>

definition jpeg_evt_end :: "status_t \<Rightarrow> nat option \<Rightarrow> postproc \<Rightarrow> postproc" where
  "jpeg_evt_end rc mem p = (if rc = NO_ERROR then p
     else let p1 = sendEvtNotify_error p in
       case mem of None \<Rightarrow> p1 | Some m \<Rightarrow> p1\<lparr>mem_released := mem_released p1 @ [m]\<rparr>)"

definition jpeg_evt_deliver :: "pp_env \<Rightarrow> qcamera_jpeg_evt_payload_t \<Rightarrow> postproc \<Rightarrow> status_t \<times> postproc" where
  "jpeg_evt_deliver e evt p =
     (if \<not> m_bIntEvtPending e \<and> \<not> compressed_wanted e then (NO_ERROR, p)
      else if evt_status evt = JPEG_JOB_STATUS_ERROR then (FAILED_TRANSACTION, jpeg_evt_end FAILED_TRANSACTION None p)
      else if m_bIntEvtPending e then (NO_ERROR, p)
      else if captures_pending e then
        (NO_ERROR, case evt_mem evt of None \<Rightarrow> p | Some m \<Rightarrow> p\<lparr>mem_released := mem_released p @ [m]\<rparr>)
      else
        let mem = (if mJpegMemOpt p then evt_mem evt else getMemory_mem e) in
        if \<not> mJpegMemOpt p \<and> mem = None then (NO_MEMORY, jpeg_evt_end NO_MEMORY None p)
        else let (rc, p1) = sendDataNotify e \<lparr>rel_data = mem, rel_frame = None\<rparr> p in (rc, jpeg_evt_end rc mem p1))"

definition processJpegEvt :: "pp_env \<Rightarrow> qcamera_jpeg_evt_payload_t \<Rightarrow> postproc \<Rightarrow> status_t \<times> postproc" where
  "processJpegEvt e evt p =
     (if \<not> m_bInited p then (UNKNOWN_ERROR, p)
      else
        let next_job = send_data_cmd e CAMERA_CMD_TYPE_DO_NEXT_JOB False in
        if mUseSaveProc p \<and> isLongshotEnabled e then
          (if \<not> alloc_ok e then (NO_MEMORY, p)
           else (NO_ERROR, next_job (send_save_cmd e CAMERA_CMD_TYPE_DO_NEXT_JOB False
                   (p\<lparr>m_inputSaveQ := q_put e evt (m_inputSaveQ p)\<rparr>))))
        else
          let p1 = flush_ongoing_jobs e (evt_jobId evt) p;
              p2 = (if m_inputPPQ p1 \<noteq> [] then next_job p1 else p1);
              (rc, p3) = jpeg_evt_deliver e evt p2
          in (rc, next_job p3))"

section \<open>Encoding\<close>

text \<open>The streams of a super buffer: the main image, with its stream, and the thumbnail. The last of each counts.\<close>

definition is_main :: "cam_stream_type_t \<times> cam_stream_type_t \<Rightarrow> bool" where
  "is_main t = (fst t = CAM_STREAM_TYPE_SNAPSHOT \<or> snd t = CAM_STREAM_TYPE_SNAPSHOT)"

definition is_thumb :: "cam_stream_type_t \<times> cam_stream_type_t \<Rightarrow> bool" where
  "is_thumb t = (fst t \<in> {CAM_STREAM_TYPE_PREVIEW, CAM_STREAM_TYPE_POSTVIEW} \<or>
     snd t \<in> {CAM_STREAM_TYPE_PREVIEW, CAM_STREAM_TYPE_POSTVIEW})"

definition find_channel :: "pp_env \<Rightarrow> nat \<Rightarrow> postproc \<Rightarrow> bool" where
  "find_channel e c p = (getChannelByHandle e c \<or> m_pReprocChannel p = Some c \<or> m_pDualReprocChannel p = Some c)"

definition pick_last :: "(cam_stream_type_t \<times> cam_stream_type_t \<Rightarrow> bool) \<Rightarrow> pp_env \<Rightarrow> mm_camera_super_buf_t \<Rightarrow> pp_buf_def option" where
  "pick_last P e f = find (\<lambda>b. case stream_of e (ch_id f) (stream_id b) of None \<Rightarrow> False | Some t \<Rightarrow> P t) (rev (bufs f))"

definition queryStreams ::
  "pp_env \<Rightarrow> mm_camera_super_buf_t \<Rightarrow> mm_camera_super_buf_t option \<Rightarrow> postproc
     \<Rightarrow> status_t \<times> pp_buf_def option \<times> pp_buf_def option" where
  "queryStreams e f reproc_frame p =
     (if \<not> find_channel e (ch_id f) p then (BAD_VALUE, None, None)
      else
        let main = pick_last is_main e f;
            thumb = pick_last (\<lambda>t. is_thumb t \<and> \<not> is_main t) e f;
            thumb2 = (case (thumb, reproc_frame) of
                (None, Some r) \<Rightarrow> if getChannelByHandle e (ch_id r)
                  then pick_last (\<lambda>t. fst t \<in> {CAM_STREAM_TYPE_PREVIEW, CAM_STREAM_TYPE_POSTVIEW}) e r else None
              | _ \<Rightarrow> thumb)
        in (NO_ERROR, main, thumb2))"

text \<open>
  The parameters of an encoding session. \<open>cnt\<close> is the number of buffers of the main stream, when it has buffers, and
  \<open>thumb\<close> that of the stream of the thumbnail, when there is one.
\<close>

definition getJpegEncodingConfig ::
  "pp_env \<Rightarrow> nat option \<Rightarrow> nat option option \<Rightarrow> postproc \<Rightarrow> status_t \<times> mm_jpeg_encode_params_t \<times> postproc" where
  "getJpegEncodingConfig e cnt thumb p =
     (let burst = jpeg_burst e \<and> \<not> mUseSaveProc p;
          p1 = p\<lparr>mUseJpegBurst := burst, m_bThumbnailNeeded := thumbnail_wanted e\<rparr>;
          tcnt = (case (generateThumbFromMain e, thumb) of (False, Some n) \<Rightarrow> n | _ \<Rightarrow> cnt);
          par = \<lparr>num_src_bufs = (case cnt of None \<Rightarrow> 0 | Some n \<Rightarrow> n),
                 num_tmb_bufs = (if thumbnail_wanted e then case tcnt of None \<Rightarrow> 0 | Some n \<Rightarrow> n else 0),
                 num_dst_bufs = (if mJpegMemOpt p then case cnt of None \<Rightarrow> 0 | Some n \<Rightarrow> n
                                 else if burst then MAX_JPEG_BURST else 1),
                 encode_thumbnail = thumbnail_wanted e, jpeg_cb = True, burst_mode = burst\<rparr>
      in if cnt = None \<or> thumbnail_wanted e \<and> tcnt = None then (BAD_VALUE, par, p1)
         else if \<not> out_bufs_ok e then (NO_MEMORY, par, p1)
         else (NO_ERROR, par, p1))"

definition create_session :: "pp_env \<Rightarrow> mm_jpeg_encode_params_t \<Rightarrow> postproc \<Rightarrow> status_t \<times> postproc" where
  "create_session e par p =
     (fst (create_session_rc e), p\<lparr>jpeg_calls := jpeg_calls p @ [Create_session par], mJpegSessionId := snd (create_session_rc e)\<rparr>)"

text \<open>
  The job for a frame. Its source is the buffer of the main image, its output the buffer of the same index, the next free
  one of a burst, or the first; the work buffer is the source of the reprocessing.
\<close>

definition encode_job_of :: "pp_env \<Rightarrow> pp_buf_def \<Rightarrow> bool \<Rightarrow> postproc \<Rightarrow> mm_jpeg_encode_job_t" where
  "encode_job_of e b work p =
     \<lparr>session_id = mJpegSessionId p, src_index = int (buf_idx b),
      dst_index = (if mJpegMemOpt p then int (buf_idx b) else if mUseJpegBurst p then - 1 else 0),
      src_width = fst (main_dim e), src_height = snd (main_dim e),
      work_buf = (if work then work_mem e else no_buffer)\<rparr>"

text \<open>The count of buffers of the stream a buffer belongs to.\<close>

definition bufs_of_stream :: "pp_env \<Rightarrow> nat \<Rightarrow> pp_buf_def option \<Rightarrow> nat option option" where
  "bufs_of_stream e c b = map_option (\<lambda>x. stream_bufs e c (stream_id x)) b"

text \<open>A new session, when one is needed.\<close>

definition need_session ::
  "pp_env \<Rightarrow> mm_camera_super_buf_t \<Rightarrow> pp_buf_def \<Rightarrow> pp_buf_def option \<Rightarrow> postproc \<Rightarrow> status_t \<times> postproc" where
  "need_session e f main thumb p =
     (if \<not> mNewJpegSessionNeeded p then (NO_ERROR, p)
      else let (rc, par, p1) = getJpegEncodingConfig e (stream_bufs e (ch_id f) (stream_id main)) (bufs_of_stream e (ch_id f) thumb) p in
        if rc \<noteq> NO_ERROR then (rc, p1)
        else let (rc2, p2) = create_session e par p1 in
          if rc2 \<noteq> NO_ERROR then (rc2, p2) else (NO_ERROR, p2\<lparr>mNewJpegSessionNeeded := False\<rparr>))"

text \<open>The status, the job with the id it got, and the state. A raw image is dumped and no job is started.\<close>

definition encodeData :: "pp_env \<Rightarrow> qcamera_jpeg_data_t \<Rightarrow> postproc \<Rightarrow> status_t \<times> qcamera_jpeg_data_t \<times> postproc" where
  "encodeData e job p =
     (if \<not> find_channel e (ch_id (src_frame job)) p then (BAD_VALUE, job, p)
      else
        let (rc, main, thumb0) = queryStreams e (src_frame job) (src_reproc_frame job) p;
            thumb = (if generateThumbFromMain e then None else thumb0)
        in if rc \<noteq> NO_ERROR then (rc, job, p)
           else case main of
               None \<Rightarrow> (BAD_VALUE, job, p)
             | Some b \<Rightarrow>
               if \<not> mem_info b then (NO_MEMORY, job, p)
               else if mJpegClientHandle p = 0 then (UNKNOWN_ERROR, job, p)
               else let (rc2, p1) = need_session e (src_frame job) b thumb p in
                 if rc2 \<noteq> NO_ERROR then (rc2, job, p1)
                 else
                   let work = (case src_reproc_frame job of None \<Rightarrow> False
                         | Some r \<Rightarrow> (case fst (snd (queryStreams e r None p1)) of None \<Rightarrow> False
                             | Some w \<Rightarrow> stream_type w \<noteq> CAM_STREAM_TYPE_VIDEO));
                       j = encode_job_of e b work p1
                   in if raw_image_dump e then (NO_ERROR, job, p1)
                      else if \<not> debug_params_ok e then (NO_MEMORY, job, p1)
                      else
                        let (rc3, i) = start_job_rc e; p2 = p1\<lparr>jpeg_calls := jpeg_calls p1 @ [Start_job j]\<rparr> in
                        (rc3, if rc3 = NO_ERROR then job\<lparr>jpeg_jobId := i\<rparr> else job, p2))"

section \<open>Raw images\<close>

definition is_raw :: "cam_stream_type_t \<times> cam_stream_type_t \<Rightarrow> bool" where
  "is_raw t = (fst t \<in> {CAM_STREAM_TYPE_SNAPSHOT, CAM_STREAM_TYPE_RAW} \<or> snd t \<in> {CAM_STREAM_TYPE_SNAPSHOT, CAM_STREAM_TYPE_RAW})"

text \<open>With zero shutter lag the frame itself goes to the application, otherwise a copy of its memory.\<close>

definition processRawImageImpl :: "pp_env \<Rightarrow> mm_camera_super_buf_t \<Rightarrow> postproc \<Rightarrow> status_t \<times> postproc" where
  "processRawImageImpl e f p =
     (let known = getChannelByHandle e (ch_id f); repr = (\<not> known \<and> m_pReprocChannel p = Some (ch_id f)) in
      if \<not> known \<and> \<not> repr then (BAD_VALUE, p)
      else case find (\<lambda>b. case stream_of e (ch_id f) (stream_id b) of None \<Rightarrow> False | Some t \<Rightarrow> is_raw t) (bufs f) of
          None \<Rightarrow> (BAD_VALUE, p)
        | Some b \<Rightarrow>
          let zsl = (isZSLMode e \<and> \<not> repr) in
          if \<not> mem_info b then (UNKNOWN_ERROR, p)
          else case raw_mem_of e of
              None \<Rightarrow> (if zsl then UNKNOWN_ERROR else NO_MEMORY, p)
            | Some m \<Rightarrow>
              if compressed_wanted e then
                sendDataNotify e (if zsl then \<lparr>rel_data = None, rel_frame = Some f\<rparr> else \<lparr>rel_data = Some m, rel_frame = None\<rparr>) p
              else (NO_ERROR, p\<lparr>mem_released := mem_released p @ [m]\<rparr>))"

section \<open>Reprocessing\<close>

text \<open>
  A job for the reprocess channel whose source channel the frame has. In a regular capture the source channel is gone
  afterwards, so the frame is not to be given back.
\<close>

definition reprocess :: "pp_env \<Rightarrow> qcamera_pp_data_t \<Rightarrow> postproc \<Rightarrow> status_t \<times> postproc" where
  "reprocess e job p =
     (let fits = (\<lambda>c. case c of None \<Rightarrow> False | Some h \<Rightarrow> reproc_source e h = ch_id (pp_src_frame job)) in
      if \<not> fits (m_pReprocChannel p) \<and> \<not> fits (m_pDualReprocChannel p) then (BAD_VALUE, p)
      else
        let job1 = (if isRegularCapture e then job\<lparr>reproc_frame_release := True\<rparr> else job);
            q = q_put e job1 (m_ongoingPPQ p)
        in if doReprocess_rc e = NO_ERROR then (NO_ERROR, p\<lparr>m_ongoingPPQ := q\<rparr>)
           else (doReprocess_rc e, p\<lparr>m_ongoingPPQ := butlast q\<rparr>))"

section \<open>The two threads\<close>

text \<open>The thread that saves pictures to files; without a command it waits.\<close>

definition save_round :: "pp_env \<Rightarrow> postproc \<Rightarrow> postproc" where
  "save_round e p = (if \<not> save_running p then p else case save_cmds p of
     [] \<Rightarrow> p
   | c # cs \<Rightarrow>
     let p1 = p\<lparr>save_cmds := cs\<rparr> in
     case c of
       CAMERA_CMD_TYPE_START_DATA_PROC \<Rightarrow> p1\<lparr>save_active := True\<rparr>
     | CAMERA_CMD_TYPE_STOP_DATA_PROC \<Rightarrow> p1\<lparr>save_active := False, m_inputSaveQ := []\<rparr>
     | CAMERA_CMD_TYPE_DO_NEXT_JOB \<Rightarrow> (case m_inputSaveQ p1 of
           [] \<Rightarrow> p1
         | evt # evts \<Rightarrow>
           let p2 = flush_ongoing_jobs e (evt_jobId evt) (p1\<lparr>m_inputSaveQ := evts\<rparr>) in
           if \<not> save_active p2 then p2
           else let p3 = p2\<lparr>mSaveFrmCnt := mSaveFrmCnt p2 + 1\<rparr> in
             case getMemory_mem e of None \<Rightarrow> p3
               | Some m \<Rightarrow> snd (sendDataNotify e \<lparr>rel_data = Some m, rel_frame = None\<rparr> p3))
     | CAMERA_CMD_TYPE_EXIT \<Rightarrow> p1\<lparr>save_running := False\<rparr>
     | CAMERA_CMD_TYPE_NONE \<Rightarrow> p1)"

text \<open>The next jpeg job, the next raw frame and the next frame to reprocess.\<close>

definition next_jpeg :: "pp_env \<Rightarrow> postproc \<Rightarrow> postproc" where
  "next_jpeg e p = (case m_inputJpegQ p of
     [] \<Rightarrow> p
   | job # jobs \<Rightarrow>
     let p1 = p\<lparr>m_inputJpegQ := jobs, m_ongoingJpegQ := q_put e job (m_ongoingJpegQ p)\<rparr>;
         (rc, job1, p2) = encodeData e job p1
     in if rc = NO_ERROR then p2\<lparr>m_ongoingJpegQ := q_put e job1 (m_ongoingJpegQ p)\<rparr>
        else sendEvtNotify_error (releaseJpegJobData e job1 (p2\<lparr>m_ongoingJpegQ := butlast (m_ongoingJpegQ p2)\<rparr>)))"

definition next_raw :: "pp_env \<Rightarrow> postproc \<Rightarrow> postproc" where
  "next_raw e p = (case m_inputRawQ p of
     [] \<Rightarrow> p
   | f # fs \<Rightarrow>
     let (rc, p1) = processRawImageImpl e f (p\<lparr>m_inputRawQ := fs\<rparr>)
     in if rc = NO_ERROR then p1 else sendEvtNotify_error (release_and_free e f p1))"

definition next_pp :: "pp_env \<Rightarrow> postproc \<Rightarrow> postproc" where
  "next_pp e p = (case m_inputPPQ p of
     [] \<Rightarrow> p
   | f # fs \<Rightarrow>
     if isLongshotEnabled e \<and> \<not> reproc_room e then p
     else
       let p1 = p\<lparr>m_inputPPQ := fs\<rparr>;
           (rc, p2) = (if \<not> alloc_ok e \<or> m_pReprocChannel p1 = None then (UNKNOWN_ERROR, p1)
             else reprocess e \<lparr>pp_src_frame = f, reproc_frame_release = False\<rparr> p1)
       in if rc = NO_ERROR then p2 else sendEvtNotify_error (release_and_free e f p2))"

text \<open>Without the permission to work, the thread takes one element of each queue and gives its frames back.\<close>

definition drop_next :: "pp_env \<Rightarrow> postproc \<Rightarrow> postproc" where
  "drop_next e p =
     (let p1 = (case m_inputJpegQ p of [] \<Rightarrow> p | j # js \<Rightarrow> releaseJpegJobData e j (p\<lparr>m_inputJpegQ := js\<rparr>));
          p2 = (case m_inputRawQ p1 of [] \<Rightarrow> p1 | f # fs \<Rightarrow> release_and_free e f (p1\<lparr>m_inputRawQ := fs\<rparr>))
      in case m_inputPPQ p2 of [] \<Rightarrow> p2 | f # fs \<Rightarrow> release_and_free e f (p2\<lparr>m_inputPPQ := fs\<rparr>))"

definition abort_jpeg :: "pp_env \<Rightarrow> qcamera_jpeg_data_t \<Rightarrow> postproc \<Rightarrow> postproc" where
  "abort_jpeg e job p = releaseJpegJobData e job (p\<lparr>jpeg_calls := jpeg_calls p @ [Abort_job (jpeg_jobId job)]\<rparr>)"

text \<open>
  The stop command. The thread that saves is stopped first and has done so when this one goes on; the jobs with the
  encoder are aborted, the session and the reprocess channels are given up, and the queues are emptied.
\<close>

definition stop_data_proc :: "pp_env \<Rightarrow> postproc \<Rightarrow> postproc" where
  "stop_data_proc e p =
     (let p1 = p\<lparr>data_active := False, save_active := False, m_inputSaveQ := []\<rparr>;
          p2 = fold (abort_jpeg e) (m_ongoingJpegQ p1) (p1\<lparr>m_ongoingJpegQ := []\<rparr>);
          p3 = (if mJpegSessionId p2 = 0 then p2
                else p2\<lparr>jpeg_calls := jpeg_calls p2 @ [Destroy_session (mJpegSessionId p2)], mJpegSessionId := 0\<rparr>);
          p4 = p3\<lparr>m_pReprocChannel := None, m_pDualReprocChannel := None\<rparr>;
          p5 = flush_inputRawQ e (flush_inputPPQ e (flush_inputJpegQ e (flush_ongoingPPQ e p4)))
      in p5\<lparr>mNewJpegSessionNeeded := True\<rparr>)"

text \<open>One round of the thread that processes data.\<close>

definition data_round :: "pp_env \<Rightarrow> postproc \<Rightarrow> postproc" where
  "data_round e p = (if \<not> data_running p then p else case data_cmds p of
     [] \<Rightarrow> p
   | c # cs \<Rightarrow>
     let p1 = p\<lparr>data_cmds := cs\<rparr> in
     case c of
       CAMERA_CMD_TYPE_START_DATA_PROC \<Rightarrow> send_save_cmd e CAMERA_CMD_TYPE_START_DATA_PROC False (p1\<lparr>data_active := True\<rparr>)
     | CAMERA_CMD_TYPE_STOP_DATA_PROC \<Rightarrow> stop_data_proc e p1
     | CAMERA_CMD_TYPE_DO_NEXT_JOB \<Rightarrow>
         if data_active p1 then next_pp e (next_raw e (next_jpeg e p1)) else drop_next e p1
     | CAMERA_CMD_TYPE_EXIT \<Rightarrow> p1\<lparr>data_running := False\<rparr>
     | CAMERA_CMD_TYPE_NONE \<Rightarrow> p1)"

section \<open>Starting and stopping\<close>

definition pp_init :: "pp_env \<Rightarrow> postproc \<Rightarrow> status_t \<times> postproc" where
  "pp_init e p = (if open_client e = 0 then (UNKNOWN_ERROR, p\<lparr>mJpegClientHandle := 0\<rparr>)
     else (NO_ERROR, p\<lparr>mJpegClientHandle := open_client e, data_running := True, data_active := False,
       save_running := True, save_active := False, m_bInited := True\<rparr>))"

text \<open>The exit commands go to the head of the queues; the rest stays.\<close>

definition pp_deinit :: "postproc \<Rightarrow> postproc" where
  "pp_deinit p = (if \<not> m_bInited p then p
     else p\<lparr>data_running := False, save_running := False, mJpegClientHandle := 0, m_bInited := False\<rparr>)"

text \<open>The reprocess channels of a start; an old channel is deleted first.\<close>

definition start_reproc :: "pp_env \<Rightarrow> postproc \<Rightarrow> status_t \<times> postproc" where
  "start_reproc e p = (if \<not> needReprocess e then (NO_ERROR, p)
     else case addReprocChannel e of
         None \<Rightarrow> (UNKNOWN_ERROR, p\<lparr>m_pReprocChannel := None\<rparr>)
       | Some c \<Rightarrow> if reproc_start_rc e = NO_ERROR then (NO_ERROR, p\<lparr>m_pReprocChannel := Some c\<rparr>)
           else (reproc_start_rc e, p\<lparr>m_pReprocChannel := None\<rparr>))"

definition start_dual :: "pp_env \<Rightarrow> postproc \<Rightarrow> status_t \<times> postproc" where
  "start_dual e p = (if m_pReprocChannel p = None \<or> \<not> needDualReprocess e then (NO_ERROR, p)
     else case addDualReprocChannel e of
         None \<Rightarrow> (UNKNOWN_ERROR, p\<lparr>m_pDualReprocChannel := None\<rparr>)
       | Some c \<Rightarrow> if dual_start_rc e = NO_ERROR then (NO_ERROR, p\<lparr>m_pDualReprocChannel := Some c\<rparr>)
           else (dual_start_rc e, p\<lparr>m_pDualReprocChannel := None\<rparr>))"

text \<open>The start waits for the thread, which handles the commands before it first.\<close>

definition data_rounds :: "pp_env \<Rightarrow> nat \<Rightarrow> postproc \<Rightarrow> postproc" where
  "data_rounds e n = (data_round e ^^ n)"

text \<open>
  \<open>snap\<close> and \<open>thumb\<close> are the snapshot stream of the channel and the stream of the thumbnail, by the counts of their
  buffers: the session is made at once unless pictures come while recording, in a long shot or with zero shutter lag.
\<close>

definition start_session :: "pp_env \<Rightarrow> nat option option \<Rightarrow> nat option option \<Rightarrow> postproc \<Rightarrow> status_t \<times> postproc" where
  "start_session e snap thumb p =
     (if recordingHint e \<or> isLongshotEnabled e \<or> isZSLMode e then (NO_ERROR, p)
      else case snap of
          None \<Rightarrow> (NO_ERROR, p)
        | Some cnt \<Rightarrow>
          let (rc, par, p1) = getJpegEncodingConfig e cnt thumb p in
          if rc \<noteq> NO_ERROR then (rc, p1)
          else let (rc2, p2) = create_session e par p1 in
            if rc2 \<noteq> NO_ERROR then (rc2, p2) else (NO_ERROR, p2\<lparr>mNewJpegSessionNeeded := False\<rparr>))"

definition pp_start :: "pp_env \<Rightarrow> nat option option \<Rightarrow> nat option option \<Rightarrow> postproc \<Rightarrow> status_t \<times> postproc" where
  "pp_start e snap thumb p =
     (if \<not> m_bInited p then (UNKNOWN_ERROR, p)
      else let (rc, p1) = start_reproc e p in
        if rc \<noteq> NO_ERROR then (rc, p1)
        else let (rc2, p2) = start_dual e p1 in
          if rc2 \<noteq> NO_ERROR then (rc2, p2)
          else
            let p3 = send_data_cmd e CAMERA_CMD_TYPE_START_DATA_PROC False (p2\<lparr>mUseSaveProc := longshot_save e\<rparr>)
            in start_session e snap thumb ((data_rounds e (length (data_cmds p3)) p3)\<lparr>mMultipleStages := False\<rparr>))"

text \<open>The stop is a command with priority, and waits for the thread.\<close>

definition pp_stop :: "pp_env \<Rightarrow> postproc \<Rightarrow> postproc" where
  "pp_stop e p = (if \<not> m_bInited p \<or> \<not> cmd_ok e then p
     else data_round e (send_data_cmd e CAMERA_CMD_TYPE_STOP_DATA_PROC True p))"

end
