(* ===== verification/PostProcProps.thy ===== *)
theory PostProcProps
  imports PostProc "HOL-Library.Multiset"
begin

text \<open>
  Properties of the post processor: every frame is in one place and is freed once, a stop gives everything back, the
  jobs fit their sessions, and what failed notifications and refused jobs do.
\<close>

section \<open>Runs\<close>

datatype pp_op =
    Data mm_camera_super_buf_t
  | PPData mm_camera_super_buf_t
  | RawData mm_camera_super_buf_t
  | JpegEvt qcamera_jpeg_evt_payload_t
  | DataRound
  | SaveRound
  | NotifyDone
  | Start "nat option option" "nat option option"
  | Stop

text \<open>The frames a step takes over, and the state after it.\<close>

definition pp_do :: "pp_env \<Rightarrow> pp_op \<Rightarrow> postproc \<Rightarrow> mm_camera_super_buf_t list \<times> postproc" where
  "pp_do e op p = (let took = (\<lambda>f (rc, p1). (if rc = NO_ERROR then [f] else [], p1)) in case op of
     Data f \<Rightarrow> took f (processData e f p)
   | PPData f \<Rightarrow> took f (processPPData e f p)
   | RawData f \<Rightarrow> took f (processRawData e f p)
   | JpegEvt evt \<Rightarrow> ([], snd (processJpegEvt e evt p))
   | DataRound \<Rightarrow> ([], data_round e p)
   | SaveRound \<Rightarrow> ([], save_round e p)
   | NotifyDone \<Rightarrow> ([], notify_done e p)
   | Start snap thumb \<Rightarrow> ([], snd (pp_start e snap thumb p))
   | Stop \<Rightarrow> ([], pp_stop e p))"

fun pp_run :: "(pp_env \<times> pp_op) list \<Rightarrow> postproc \<Rightarrow> mm_camera_super_buf_t list \<times> postproc" where
  "pp_run [] p = ([], p)"
| "pp_run ((e, op) # ops) p = (let (fs, p1) = pp_do e op p; (gs, p2) = pp_run ops p1 in (fs @ gs, p2))"

section \<open>Where the frames are\<close>

definition job_frames :: "qcamera_jpeg_data_t \<Rightarrow> mm_camera_super_buf_t list" where
  "job_frames j = (case src_reproc_frame j of None \<Rightarrow> [src_frame j] | Some f \<Rightarrow> [src_frame j, f])"

definition notify_frames :: "qcamera_release_data_t \<Rightarrow> mm_camera_super_buf_t list" where
  "notify_frames r = (case rel_frame r of None \<Rightarrow> [] | Some f \<Rightarrow> [f])"

text \<open>In a queue, in a job, with the application, or freed.\<close>

definition account :: "postproc \<Rightarrow> mm_camera_super_buf_t multiset" where
  "account p = mset (m_inputPPQ p) + mset (map pp_src_frame (m_ongoingPPQ p))
     + mset (concat (map job_frames (m_inputJpegQ p))) + mset (concat (map job_frames (m_ongoingJpegQ p)))
     + mset (m_inputRawQ p) + mset (concat (map notify_frames (notifies p))) + mset (freed p)"

text \<open>Updates of other fields.\<close>

lemma account_fields [simp]:
  "account (p\<lparr>given_back := a\<rparr>) = account p" "account (p\<lparr>orphans := a\<rparr>) = account p"
  "account (p\<lparr>mem_released := b\<rparr>) = account p" "account (p\<lparr>error_msgs := n\<rparr>) = account p"
  "account (p\<lparr>jpeg_calls := c\<rparr>) = account p" "account (p\<lparr>data_cmds := d\<rparr>) = account p"
  "account (p\<lparr>save_cmds := d\<rparr>) = account p" "account (p\<lparr>data_active := t\<rparr>) = account p"
  "account (p\<lparr>save_active := t\<rparr>) = account p" "account (p\<lparr>data_running := t\<rparr>) = account p"
  "account (p\<lparr>save_running := t\<rparr>) = account p" "account (p\<lparr>mJpegSessionId := i\<rparr>) = account p"
  "account (p\<lparr>mNewJpegSessionNeeded := t\<rparr>) = account p" "account (p\<lparr>mUseSaveProc := t\<rparr>) = account p"
  "account (p\<lparr>mUseJpegBurst := t\<rparr>) = account p" "account (p\<lparr>m_bThumbnailNeeded := t\<rparr>) = account p"
  "account (p\<lparr>mMultipleStages := t\<rparr>) = account p" "account (p\<lparr>mSaveFrmCnt := n\<rparr>) = account p"
  "account (p\<lparr>m_pReprocChannel := h\<rparr>) = account p" "account (p\<lparr>m_pDualReprocChannel := h\<rparr>) = account p"
  "account (p\<lparr>m_inputSaveQ := evts\<rparr>) = account p" "account (p\<lparr>m_bInited := t\<rparr>) = account p"
  "account (p\<lparr>mJpegClientHandle := i\<rparr>) = account p"
  by (simp_all add: account_def)

lemma account_send [simp]:
  "account (send_data_cmd e c prio p) = account p" "account (send_save_cmd e c prio p) = account p"
  "account (sendEvtNotify_error p) = account p" "account (releaseSuperBuf e f p) = account p"
  by (simp_all add: send_data_cmd_def send_save_cmd_def sendEvtNotify_error_def releaseSuperBuf_def)

text \<open>A frame that is freed, and a job that is released.\<close>

lemma account_free [simp]: "account (free_frame f p) = add_mset f (account p)"
  by (simp add: free_frame_def account_def)

lemma account_release [simp]: "account (release_and_free e f p) = add_mset f (account p)"
  by (simp add: release_and_free_def)

lemma account_job [simp]: "account (releaseJpegJobData e j p) = mset (job_frames j) + account p"
  by (simp add: releaseJpegJobData_def job_frames_def Let_def split: option.splits)

lemma account_pp_job [simp]: "account (releaseOngoingPPData e j p) = add_mset (pp_src_frame j) (account p)"
  by (simp add: releaseOngoingPPData_def)

lemma account_abort [simp]: "account (abort_jpeg e j p) = mset (job_frames j) + account p"
  by (simp add: abort_jpeg_def)

lemma account_folds [simp]:
  "account (fold (release_and_free e) fs p) = mset fs + account p"
  "account (fold (releaseJpegJobData e) js p) = mset (concat (map job_frames js)) + account p"
  "account (fold (releaseOngoingPPData e) ks p) = mset (map pp_src_frame ks) + account p"
  "account (fold (abort_jpeg e) js p) = mset (concat (map job_frames js)) + account p"
proof -
  show "account (fold (release_and_free e) fs p) = mset fs + account p" by (induction fs arbitrary: p) simp_all
  show "account (fold (releaseJpegJobData e) js p) = mset (concat (map job_frames js)) + account p"
    by (induction js arbitrary: p) simp_all
  show "account (fold (releaseOngoingPPData e) ks p) = mset (map pp_src_frame ks) + account p"
    by (induction ks arbitrary: p) simp_all
  show "account (fold (abort_jpeg e) js p) = mset (concat (map job_frames js)) + account p"
    by (induction js arbitrary: p) simp_all
qed

text \<open>Queues that are emptied.\<close>

lemma account_flush [simp]:
  "account (flush_inputPPQ e p) = account p" "account (flush_inputRawQ e p) = account p"
  "account (flush_inputJpegQ e p) = account p" "account (flush_ongoingPPQ e p) = account p"
  by (simp_all only: flush_inputPPQ_def flush_inputRawQ_def flush_inputJpegQ_def flush_ongoingPPQ_def account_folds)
    (simp_all add: account_def)

lemma concat_filter_partition:
  "mset (concat (map g (filter P xs))) + mset (concat (map g (filter (\<lambda>x. \<not> P x) xs))) = mset (concat (map g xs))"
  by (induction xs) auto

lemma account_flush_jobs [simp]: "account (flush_ongoing_jobs e i p) = account p"
proof -
  have "account (flush_ongoing_jobs e i p) = mset (concat (map job_frames (filter (matchJobId i) (m_ongoingJpegQ p))))
      + account (p\<lparr>m_ongoingJpegQ := filter (\<lambda>j. \<not> matchJobId i j) (m_ongoingJpegQ p)\<rparr>)"
    by (simp only: flush_ongoing_jobs_def account_folds)
  then show ?thesis
    unfolding account_def using concat_filter_partition [of job_frames "matchJobId i" "m_ongoingJpegQ p"] by simp
qed

section \<open>Each operation\<close>

text \<open>Allocations and notifications succeed, and the pictures are compressed by the encoder.\<close>

definition smooth :: "pp_env \<Rightarrow> bool" where
  "smooth e = (alloc_ok e \<and> queue_node_ok e \<and> notify_ok e \<and> \<not> raw_format e)"

lemma account_notify:
  "smooth e \<Longrightarrow> sendDataNotify e r p = (rc, z) \<Longrightarrow> account z = account p + mset (notify_frames r) \<and> m_inputRawQ z = m_inputRawQ p"
  by (auto simp: sendDataNotify_def smooth_def account_def)

lemma account_notify_done [simp]: "account (notify_done e p) = account p"
proof (cases "notifies p")
  case (Cons r rs)
  have "account (releaseNotifyData e r q) = account q + mset (notify_frames r)" for q
    by (simp add: releaseNotifyData_def notify_frames_def Let_def split: option.splits)
  then show ?thesis using Cons by (simp add: notify_done_def account_def)
qed (simp add: notify_done_def)

lemma account_data:
  "smooth e \<Longrightarrow> processData e f p = (rc, z) \<Longrightarrow> account z = account p + (if rc = NO_ERROR then {#f#} else {#})"
  by (auto simp: processData_def smooth_def q_put_def Let_def account_def job_frames_def send_data_cmd_def split: if_splits)

lemma account_pp_data:
  assumes "smooth e" "processPPData e f p = (rc, z)"
  shows "account z = account p + (if rc = NO_ERROR then {#f#} else {#})"
  using assms
  by (cases "m_ongoingPPQ p")
    (auto simp: processPPData_def smooth_def q_put_def Let_def account_def job_frames_def send_data_cmd_def split: if_splits)

text \<open>The queues of a state, which some operations leave alone.\<close>

definition queues :: "postproc \<Rightarrow> mm_camera_super_buf_t list \<times> qcamera_pp_data_t list \<times> qcamera_jpeg_data_t list \<times>
    qcamera_jpeg_data_t list \<times> mm_camera_super_buf_t list \<times> qcamera_release_data_t list \<times> mm_camera_super_buf_t list" where
  "queues p = (m_inputPPQ p, m_ongoingPPQ p, m_inputJpegQ p, m_ongoingJpegQ p, m_inputRawQ p, notifies p, freed p)"

lemma account_queues: "queues z = queues p \<Longrightarrow> account z = account p"
  by (simp add: queues_def account_def)

lemma config_queues [simp]:
  "getJpegEncodingConfig e c t p = (rc, par, z) \<Longrightarrow> queues z = queues p"
  by (auto simp: getJpegEncodingConfig_def queues_def Let_def split: if_splits)

lemma create_queues: "create_session e par p = (rc, z) \<Longrightarrow> queues z = queues p"
  by (auto simp: create_session_def queues_def)

lemma need_session_queues: "need_session e f m t p = (rc, z) \<Longrightarrow> queues z = queues p"
proof (cases "mNewJpegSessionNeeded p")
  case True
  obtain rc1 par p1 where g: "getJpegEncodingConfig e (stream_bufs e (ch_id f) (stream_id m)) (bufs_of_stream e (ch_id f) t) p
      = (rc1, par, p1)" by (rule prod_cases3)
  obtain rc2 p2 where c: "create_session e par p1 = (rc2, p2)" by fastforce
  assume "need_session e f m t p = (rc, z)"
  then show ?thesis
    using True config_queues [OF g] create_queues [OF c]
    by (auto simp: need_session_def g c queues_def split: if_splits)
qed (simp add: need_session_def)

text \<open>Encoding changes no queue, and the job only gets its id.\<close>

lemma encode_queues:
  assumes "encodeData e job p = (rc, job1, z)"
  shows "queues z = queues p" and "job_frames job1 = job_frames job"
proof -
  obtain rc1 m t where q: "queryStreams e (src_frame job) (src_reproc_frame job) p = (rc1, m, t)" by (rule prod_cases3)
  have "queues z = queues p \<and> job_frames job1 = job_frames job"
  proof (cases m)
    case None
    then show ?thesis using assms by (auto simp: encodeData_def q Let_def split: if_splits)
  next
    case (Some b)
    let ?t = "if generateThumbFromMain e then None else t"
    obtain rc2 p1 where n: "need_session e (src_frame job) b ?t p = (rc2, p1)" by fastforce
    obtain rc3 i where st: "start_job_rc e = (rc3, i)" by fastforce
    have "queues (p1\<lparr>jpeg_calls := c\<rparr>) = queues p1" for c by (simp add: queues_def)
    then show ?thesis
      using assms need_session_queues [OF n]
      by (auto simp: encodeData_def q Some n st Let_def job_frames_def split: if_splits option.splits)
  qed
  then show "queues z = queues p" and "job_frames job1 = job_frames job" by simp_all
qed

lemma account_next_jpeg:
  assumes "smooth e"
  shows "account (next_jpeg e p) = account p"
proof (cases "m_inputJpegQ p")
  case (Cons job jobs)
  let ?p1 = "p\<lparr>m_inputJpegQ := jobs, m_ongoingJpegQ := q_put e job (m_ongoingJpegQ p)\<rparr>"
  obtain rc job1 p2 where en: "encodeData e job ?p1 = (rc, job1, p2)" by (rule prod_cases3)
  have q: "queues p2 = queues ?p1" and f: "job_frames job1 = job_frames job"
    using encode_queues [OF en] by simp_all
  have "account (p2\<lparr>m_ongoingJpegQ := q_put e job1 (m_ongoingJpegQ p)\<rparr>) = account p"
    "mset (job_frames job1) + account (p2\<lparr>m_ongoingJpegQ := butlast (m_ongoingJpegQ p2)\<rparr>) = account p"
    using q f Cons assms by (simp_all add: queues_def account_def q_put_def smooth_def)
  then show ?thesis
    by (simp add: next_jpeg_def Cons Let_def en)
qed (simp add: next_jpeg_def)

lemma account_next_pp:
  assumes "smooth e"
  shows "account (next_pp e p) = account p"
  using assms
  by (auto simp: next_pp_def reprocess_def smooth_def q_put_def Let_def split: list.splits option.splits)
    (simp_all add: account_def)

text \<open>Without raw frames nothing is done for them.\<close>

lemma raw_release [simp]:
  "m_inputRawQ (free_frame f p) = m_inputRawQ p" "m_inputRawQ (releaseSuperBuf e f p) = m_inputRawQ p"
  "m_inputRawQ (release_and_free e f p) = m_inputRawQ p" "m_inputRawQ (releaseJpegJobData e j p) = m_inputRawQ p"
  "m_inputRawQ (releaseOngoingPPData e k p) = m_inputRawQ p" "m_inputRawQ (abort_jpeg e j p) = m_inputRawQ p"
  "m_inputRawQ (sendEvtNotify_error p) = m_inputRawQ p" "m_inputRawQ (send_data_cmd e c prio p) = m_inputRawQ p"
  "m_inputRawQ (send_save_cmd e c prio p) = m_inputRawQ p" "m_inputRawQ (releaseNotifyData e r p) = m_inputRawQ p"
  by (auto simp: free_frame_def releaseSuperBuf_def release_and_free_def releaseJpegJobData_def releaseOngoingPPData_def
      abort_jpeg_def sendEvtNotify_error_def send_data_cmd_def send_save_cmd_def releaseNotifyData_def Let_def
      split: option.splits)

lemma raw_fold: "(\<And>x q. m_inputRawQ (g x q) = m_inputRawQ q) \<Longrightarrow> m_inputRawQ (fold g xs p) = m_inputRawQ p"
  by (induction xs arbitrary: p) simp_all

lemma raw_folds [simp]:
  "m_inputRawQ (fold (release_and_free e) fs p) = m_inputRawQ p"
  "m_inputRawQ (fold (releaseJpegJobData e) js p) = m_inputRawQ p"
  "m_inputRawQ (fold (releaseOngoingPPData e) ks p) = m_inputRawQ p"
  "m_inputRawQ (fold (abort_jpeg e) js p) = m_inputRawQ p"
  by (simp_all add: raw_fold)

lemma raw_flush [simp]:
  "m_inputRawQ (flush_inputPPQ e p) = m_inputRawQ p" "m_inputRawQ (flush_inputRawQ e p) = []"
  "m_inputRawQ (flush_inputJpegQ e p) = m_inputRawQ p" "m_inputRawQ (flush_ongoingPPQ e p) = m_inputRawQ p"
  "m_inputRawQ (flush_ongoing_jobs e i p) = m_inputRawQ p"
  by (simp_all add: flush_inputPPQ_def flush_inputRawQ_def flush_inputJpegQ_def flush_ongoingPPQ_def flush_ongoing_jobs_def)

lemma raw_next: "m_inputRawQ (next_jpeg e p) = m_inputRawQ p"
proof (cases "m_inputJpegQ p")
  case (Cons job jobs)
  let ?p1 = "p\<lparr>m_inputJpegQ := jobs, m_ongoingJpegQ := q_put e job (m_ongoingJpegQ p)\<rparr>"
  obtain rc job1 p2 where en: "encodeData e job ?p1 = (rc, job1, p2)" by (rule prod_cases3)
  have "queues p2 = queues ?p1" using encode_queues [OF en] by simp
  then show ?thesis by (simp add: next_jpeg_def Cons Let_def en queues_def)
qed (simp add: next_jpeg_def)

lemma raw_next_pp: "m_inputRawQ (next_pp e p) = m_inputRawQ p"
  by (auto simp: next_pp_def reprocess_def Let_def split: list.splits option.splits)

lemma account_take:
  "m_inputPPQ p = f # fs \<Longrightarrow> add_mset f (account (p\<lparr>m_inputPPQ := fs\<rparr>)) = account p"
  "m_inputRawQ p = f # fs \<Longrightarrow> add_mset f (account (p\<lparr>m_inputRawQ := fs\<rparr>)) = account p"
  "m_inputJpegQ p = j # js \<Longrightarrow> mset (job_frames j) + account (p\<lparr>m_inputJpegQ := js\<rparr>) = account p"
  by (simp_all add: account_def)

lemma account_drop [simp]: "account (drop_next e p) = account p"
  by (auto simp: drop_next_def Let_def account_take split: list.splits)

lemma raw_drop: "m_inputRawQ p = [] \<Longrightarrow> m_inputRawQ (drop_next e p) = []"
  by (auto simp: drop_next_def Let_def split: list.splits)

lemma account_stop [simp]: "account (stop_data_proc e p) = account p"
proof -
  let ?q = "p\<lparr>data_active := False, save_active := False, m_inputSaveQ := []\<rparr>"
  have "mset (concat (map job_frames (m_ongoingJpegQ ?q))) + account (?q\<lparr>m_ongoingJpegQ := []\<rparr>) = account p"
    by (simp add: account_def)
  then show ?thesis by (simp add: stop_data_proc_def Let_def)
qed

lemma raw_stop [simp]: "m_inputRawQ (stop_data_proc e p) = []"
  by (simp add: stop_data_proc_def Let_def)

text \<open>The steps of the threads.\<close>

lemma data_round_keeps:
  assumes "smooth e" "m_inputRawQ p = []"
  shows "account (data_round e p) = account p" and "m_inputRawQ (data_round e p) = []"
proof -
  have r: "next_raw e q = q" if "m_inputRawQ q = []" for q using that by (simp add: next_raw_def)
  have n: "account (next_pp e (next_raw e (next_jpeg e q))) = account q \<and> m_inputRawQ (next_pp e (next_raw e (next_jpeg e q))) = []"
    if "m_inputRawQ q = []" for q
    using that r [of "next_jpeg e q"] raw_next [of e q] account_next_jpeg [OF assms(1)] account_next_pp [OF assms(1)] raw_next_pp
    by simp
  show "account (data_round e p) = account p" and "m_inputRawQ (data_round e p) = []"
    using n [of "p\<lparr>data_cmds := tl (data_cmds p)\<rparr>"] raw_drop [of "p\<lparr>data_cmds := tl (data_cmds p)\<rparr>" e] assms(2)
    by (auto simp: data_round_def Let_def split: list.splits camera_cmd_type_t.splits)
qed

lemma notify_data_keeps:
  assumes "smooth e" "sendDataNotify e \<lparr>rel_data = m, rel_frame = None\<rparr> p = (rc, z)"
  shows "account z = account p" and "m_inputRawQ z = m_inputRawQ p"
  using account_notify [OF assms] by (simp_all add: notify_frames_def)

lemma save_round_keeps:
  assumes "smooth e"
  shows "account (save_round e p) = account p" and "m_inputRawQ (save_round e p) = m_inputRawQ p"
proof -
  have n: "account (snd (sendDataNotify e \<lparr>rel_data = m, rel_frame = None\<rparr> q)) = account q"
    "m_inputRawQ (snd (sendDataNotify e \<lparr>rel_data = m, rel_frame = None\<rparr> q)) = m_inputRawQ q" for m q
    using notify_data_keeps [OF assms, of m q] by (cases "sendDataNotify e \<lparr>rel_data = m, rel_frame = None\<rparr> q"; simp)+
  show "account (save_round e p) = account p" and "m_inputRawQ (save_round e p) = m_inputRawQ p"
    by (auto simp: save_round_def Let_def n split: list.splits camera_cmd_type_t.splits option.splits)
qed

lemma jpeg_evt_keeps:
  assumes "smooth e" "processJpegEvt e evt p = (rc, z)"
  shows "account z = account p" and "m_inputRawQ z = m_inputRawQ p"
proof -
  have en: "account (jpeg_evt_end r m q) = account q" "m_inputRawQ (jpeg_evt_end r m q) = m_inputRawQ q" for r m q
    by (simp_all add: jpeg_evt_end_def Let_def split: option.splits)
  have d: "account (snd (jpeg_evt_deliver e evt q)) = account q" "m_inputRawQ (snd (jpeg_evt_deliver e evt q)) = m_inputRawQ q" for q
    using notify_data_keeps [OF assms(1)]
    by (auto simp: jpeg_evt_deliver_def Let_def en split: prod.splits option.splits)
  show "account z = account p" and "m_inputRawQ z = m_inputRawQ p"
    using assms(2) d by (auto simp: processJpegEvt_def Let_def case_prod_unfold split: if_splits)
qed

lemma rounds_keep:
  "smooth e \<Longrightarrow> m_inputRawQ p = [] \<Longrightarrow> account (data_rounds e n p) = account p \<and> m_inputRawQ (data_rounds e n p) = []"
  by (induction n) (simp_all add: data_rounds_def data_round_keeps)

lemma start_session_queues: "queues (snd (start_session e snap thumb p)) = queues p"
proof (cases snap)
  case (Some cnt)
  obtain rc par p1 where g: "getJpegEncodingConfig e cnt thumb p = (rc, par, p1)" by (rule prod_cases3)
  obtain rc2 p2 where c: "create_session e par p1 = (rc2, p2)" by fastforce
  have "queues (p2\<lparr>mNewJpegSessionNeeded := b\<rparr>) = queues p2" for b by (simp add: queues_def)
  then show ?thesis using config_queues [OF g] create_queues [OF c] by (simp add: start_session_def Some g c)
qed (simp add: start_session_def)

lemma start_keeps:
  assumes "smooth e" "m_inputRawQ p = []"
  shows "account (snd (pp_start e snap thumb p)) = account p" and "m_inputRawQ (snd (pp_start e snap thumb p)) = []"
proof -
  obtain rc1 p1 where r: "start_reproc e p = (rc1, p1)" by fastforce
  obtain rc2 p2 where d: "start_dual e p1 = (rc2, p2)" by fastforce
  define p3 where "p3 = send_data_cmd e CAMERA_CMD_TYPE_START_DATA_PROC False (p2\<lparr>mUseSaveProc := longshot_save e\<rparr>)"
  define p4 where "p4 = (data_rounds e (length (data_cmds p3)) p3)\<lparr>mMultipleStages := False\<rparr>"
  have 1: "account p1 = account p \<and> m_inputRawQ p1 = m_inputRawQ p"
    using r by (auto simp: start_reproc_def split: if_splits option.splits)
  have 2: "account p2 = account p1 \<and> m_inputRawQ p2 = m_inputRawQ p1"
    using d by (auto simp: start_dual_def split: if_splits option.splits)
  have 4: "account p4 = account p \<and> m_inputRawQ p4 = []"
    using rounds_keep [OF assms(1), of p3 "length (data_cmds p3)"] 1 2 assms(2) by (simp add: p3_def p4_def)
  have s: "account (snd (start_session e snap thumb p4)) = account p4 \<and> m_inputRawQ (snd (start_session e snap thumb p4)) = m_inputRawQ p4"
    using start_session_queues [of e snap thumb p4] account_queues [of "snd (start_session e snap thumb p4)" p4]
    by (simp add: queues_def)
  have st: "snd (pp_start e snap thumb p) =
      (if \<not> m_bInited p then p else if rc1 \<noteq> NO_ERROR then p1 else if rc2 \<noteq> NO_ERROR then p2
       else snd (start_session e snap thumb p4))"
    by (simp add: pp_start_def r d Let_def p3_def p4_def)
  show "account (snd (pp_start e snap thumb p)) = account p" and "m_inputRawQ (snd (pp_start e snap thumb p)) = []"
    unfolding st using 1 2 4 s assms(2) by simp_all
qed

text \<open>No step loses a frame, takes it twice or frees it twice.\<close>

definition compressed_op :: "pp_op \<Rightarrow> bool" where
  "compressed_op op = (case op of RawData f \<Rightarrow> False | _ \<Rightarrow> True)"

lemma raw_notify_done: "m_inputRawQ (notify_done e p) = m_inputRawQ p"
  by (auto simp: notify_done_def split: list.splits)

lemma raw_data: "smooth e \<Longrightarrow> processData e f p = (rc, z) \<Longrightarrow> m_inputRawQ z = m_inputRawQ p"
  and raw_pp_data: "smooth e \<Longrightarrow> processPPData e f p = (rc, z) \<Longrightarrow> m_inputRawQ z = m_inputRawQ p"
  by (auto simp: processData_def processPPData_def smooth_def Let_def split: if_splits)

lemma stop_op_keeps:
  assumes "smooth e" "m_inputRawQ p = []"
  shows "account (pp_stop e p) = account p" and "m_inputRawQ (pp_stop e p) = []"
  using data_round_keeps [OF assms(1), of "send_data_cmd e CAMERA_CMD_TYPE_STOP_DATA_PROC True p"] assms(2)
  by (simp_all add: pp_stop_def)

lemma pp_do_keeps:
  assumes "smooth e" "compressed_op op" "m_inputRawQ p = []" "pp_do e op p = (fs, z)"
  shows "account z = account p + mset fs" and "m_inputRawQ z = []"
proof -
  have "account z = account p + mset fs \<and> m_inputRawQ z = []"
  proof (cases op)
    case (Data f)
    obtain rc q where d: "processData e f p = (rc, q)" by fastforce
    then show ?thesis using account_data [OF assms(1) d] raw_data [OF assms(1) d] assms(3,4) Data by (auto simp: pp_do_def)
  next
    case (PPData f)
    obtain rc q where d: "processPPData e f p = (rc, q)" by fastforce
    then show ?thesis
      using account_pp_data [OF assms(1) d] raw_pp_data [OF assms(1) d] assms(3,4) PPData by (auto simp: pp_do_def)
  next
    case (JpegEvt evt)
    obtain rc q where d: "processJpegEvt e evt p = (rc, q)" by fastforce
    then show ?thesis using jpeg_evt_keeps [OF assms(1) d] assms(3,4) JpegEvt by (auto simp: pp_do_def)
  qed (use assms data_round_keeps save_round_keeps start_keeps stop_op_keeps raw_notify_done in
      \<open>auto simp: pp_do_def compressed_op_def\<close>)
  then show "account z = account p + mset fs" and "m_inputRawQ z = []" by simp_all
qed

lemma pp_run_keeps:
  assumes "\<forall>eo\<in>set ops. smooth (fst eo) \<and> compressed_op (snd eo)" "m_inputRawQ p = []" "pp_run ops p = (fs, z)"
  shows "account z = account p + mset fs"
  using assms
proof (induction ops p arbitrary: fs rule: pp_run.induct)
  case (2 e op ops p)
  obtain gs p1 where d: "pp_do e op p = (gs, p1)" by fastforce
  obtain hs p2 where r: "pp_run ops p1 = (hs, p2)" by fastforce
  have z: "z = p2" "fs = gs @ hs" using "2.prems"(3) d r by simp_all
  have k: "account p1 = account p + mset gs" "m_inputRawQ p1 = []"
    using pp_do_keeps [of e op p gs p1] 2(2,3) d by simp_all
  have "account p2 = account p1 + mset hs"
    using "2.IH" [OF refl d [symmetric] _ k(2), of hs] r "2.prems"(1) z by simp
  then show ?case using z k(1) by simp
qed simp

section \<open>The properties\<close>

text \<open>An environment where all goes well, and a state after the start with one frame.\<close>

definition pp_env1 :: pp_env where
  "pp_env1 = \<lparr>alloc_ok = True, queue_node_ok = True, cmd_ok = True, notify_ok = True, needReprocess = False,
     needDualReprocess = False, raw_format = False, generateThumbFromMain = False, isLongshotEnabled = False,
     isRegularCapture = False, isZSLMode = True, recordingHint = False, longshot_save = False, jpeg_burst = False,
     thumbnail_wanted = False, m_bIntEvtPending = False, compressed_wanted = True, captures_pending = False,
     getChannelByHandle = (\<lambda>c. c = 7),
     stream_of = (\<lambda>c s. Some (CAM_STREAM_TYPE_SNAPSHOT, CAM_STREAM_TYPE_SNAPSHOT)),
     stream_bufs = (\<lambda>c s. Some 4), out_bufs_ok = True, getMemory_mem = Some 30, raw_mem_of = Some 40,
     create_session_rc = (NO_ERROR, 0x1000000), start_job_rc = (NO_ERROR, 0x1010000), raw_image_dump = False,
     debug_params_ok = True, work_mem = no_buffer, main_dim = (64, 64), reproc_source = (\<lambda>c. 7),
     doReprocess_rc = NO_ERROR, reproc_room = True, addReprocChannel = None, addDualReprocChannel = None,
     reproc_start_rc = NO_ERROR, dual_start_rc = NO_ERROR, open_client = 0x100\<rparr>"

definition frame1 :: mm_camera_super_buf_t where
  "frame1 = \<lparr>sb_ptr = 1, ch_id = 7,
     bufs = [\<lparr>stream_id = 2, stream_type = CAM_STREAM_TYPE_SNAPSHOT, buf_idx = 3, mem_info = True, frame_buffer = 50\<rparr>]\<rparr>"

definition new_postproc :: postproc where
  "new_postproc = \<lparr>m_bInited = False, m_inputPPQ = [], m_ongoingPPQ = [], m_inputJpegQ = [], m_ongoingJpegQ = [],
     m_inputRawQ = [], m_inputSaveQ = [], data_cmds = [], save_cmds = [], data_active = False, save_active = False,
     data_running = False, save_running = False, mJpegClientHandle = 0, mJpegSessionId = 0, mNewJpegSessionNeeded = True,
     mUseSaveProc = False, mUseJpegBurst = False, mJpegMemOpt = True, mMultipleStages = False, m_bThumbnailNeeded = True,
     mSaveFrmCnt = 0, m_pReprocChannel = None, m_pDualReprocChannel = None, notifies = [], given_back = [], orphans = [],
     freed = [], mem_released = [], error_msgs = 0, jpeg_calls = []\<rparr>"

definition pp_state1 :: postproc where
  "pp_state1 = snd (pp_init pp_env1 new_postproc)"

definition pp_ops1 :: "(pp_env \<times> pp_op) list" where
  "pp_ops1 = map (Pair pp_env1) [Start None None, Data frame1, DataRound,
     JpegEvt \<lparr>evt_jobId = 0x1010000, evt_status = JPEG_JOB_STATUS_DONE, evt_mem = Some 60\<rparr>, NotifyDone]"

lemma pp_demo_run: "fst (pp_run pp_ops1 pp_state1) = [frame1] \<and> freed (snd (pp_run pp_ops1 pp_state1)) = [frame1]"
  by code_simp



text \<open>Queues after the flushes of a stop.\<close>

lemma flush_queues:
  "queues (flush_ongoingPPQ e p) = (m_inputPPQ p, [], m_inputJpegQ p, m_ongoingJpegQ p, m_inputRawQ p, notifies p,
     freed p @ map pp_src_frame (m_ongoingPPQ p))"
  "queues (flush_inputPPQ e p) = ([], m_ongoingPPQ p, m_inputJpegQ p, m_ongoingJpegQ p, m_inputRawQ p, notifies p,
     freed p @ m_inputPPQ p)"
  "queues (flush_inputRawQ e p) = (m_inputPPQ p, m_ongoingPPQ p, m_inputJpegQ p, m_ongoingJpegQ p, [], notifies p,
     freed p @ m_inputRawQ p)"
proof -
  have r: "queues (release_and_free e f q) = (case queues q of (a, b, c, d, g, n, fr) \<Rightarrow> (a, b, c, d, g, n, fr @ [f]))" for f q
    by (simp add: release_and_free_def free_frame_def releaseSuperBuf_def queues_def)
  have o: "queues (releaseOngoingPPData e k q) = (case queues q of (a, b, c, d, g, n, fr) \<Rightarrow> (a, b, c, d, g, n, fr @ [pp_src_frame k]))" for k q
    by (simp add: releaseOngoingPPData_def free_frame_def releaseSuperBuf_def queues_def)
  have "queues (fold (release_and_free e) fs q) = (case queues q of (a, b, c, d, g, n, fr) \<Rightarrow> (a, b, c, d, g, n, fr @ fs))" for fs q
    by (induction fs arbitrary: q) (simp_all add: r split: prod.splits)
  moreover have "queues (fold (releaseOngoingPPData e) ks q) =
      (case queues q of (a, b, c, d, g, n, fr) \<Rightarrow> (a, b, c, d, g, n, fr @ map pp_src_frame ks))" for ks q
    by (induction ks arbitrary: q) (simp_all add: o split: prod.splits)
  ultimately show "queues (flush_ongoingPPQ e p) = (m_inputPPQ p, [], m_inputJpegQ p, m_ongoingJpegQ p, m_inputRawQ p, notifies p,
     freed p @ map pp_src_frame (m_ongoingPPQ p))"
    "queues (flush_inputPPQ e p) = ([], m_ongoingPPQ p, m_inputJpegQ p, m_ongoingJpegQ p, m_inputRawQ p, notifies p,
     freed p @ m_inputPPQ p)"
    "queues (flush_inputRawQ e p) = (m_inputPPQ p, m_ongoingPPQ p, m_inputJpegQ p, m_ongoingJpegQ p, [], notifies p,
     freed p @ m_inputRawQ p)"
    by (simp_all add: flush_ongoingPPQ_def flush_inputPPQ_def flush_inputRawQ_def) (simp_all add: queues_def)
qed

lemma job_queues:
  "queues (fold (releaseJpegJobData e) js p) = (case queues p of (a, b, c, d, g, n, fr) \<Rightarrow>
     (a, b, c, d, g, n, fr @ concat (map (rev \<circ> job_frames) js)))"
  "queues (fold (abort_jpeg e) js p) = (case queues p of (a, b, c, d, g, n, fr) \<Rightarrow>
     (a, b, c, d, g, n, fr @ concat (map (rev \<circ> job_frames) js)))"
proof -
  have r: "queues (releaseJpegJobData e j q) = (case queues q of (a, b, c, d, g, n, fr) \<Rightarrow> (a, b, c, d, g, n, fr @ rev (job_frames j)))" for j q
    by (simp add: releaseJpegJobData_def release_and_free_def free_frame_def releaseSuperBuf_def queues_def job_frames_def Let_def
        split: option.splits)
  have a: "queues (abort_jpeg e j q) = (case queues q of (a, b, c, d, g, n, fr) \<Rightarrow> (a, b, c, d, g, n, fr @ rev (job_frames j)))" for j q
    unfolding abort_jpeg_def r by (simp add: queues_def)
  show "queues (fold (releaseJpegJobData e) js p) = (case queues p of (a, b, c, d, g, n, fr) \<Rightarrow>
     (a, b, c, d, g, n, fr @ concat (map (rev \<circ> job_frames) js)))"
    by (induction js arbitrary: p) (simp_all add: r split: prod.splits)
  show "queues (fold (abort_jpeg e) js p) = (case queues p of (a, b, c, d, g, n, fr) \<Rightarrow>
     (a, b, c, d, g, n, fr @ concat (map (rev \<circ> job_frames) js)))"
    by (induction js arbitrary: p) (simp_all add: a split: prod.splits)
qed

lemma flush_input_jobs:
  "queues (flush_inputJpegQ e p) = (m_inputPPQ p, m_ongoingPPQ p, [], m_ongoingJpegQ p, m_inputRawQ p, notifies p,
     freed p @ concat (map (rev \<circ> job_frames) (m_inputJpegQ p)))"
  unfolding flush_inputJpegQ_def job_queues by (simp add: queues_def)

lemma queues_eqD: "queues z = (a, b, c, d, g, n, fr) \<Longrightarrow> m_inputPPQ z = a \<and> m_ongoingPPQ z = b \<and> m_inputJpegQ z = c
    \<and> m_ongoingJpegQ z = d \<and> m_inputRawQ z = g \<and> notifies z = n \<and> freed z = fr"
  by (simp add: queues_def)

lemma stop_queues:
  "queues (stop_data_proc e p) = ([], [], [], [], [], notifies p, freed p @ concat (map (rev \<circ> job_frames) (m_ongoingJpegQ p))
     @ map pp_src_frame (m_ongoingPPQ p) @ concat (map (rev \<circ> job_frames) (m_inputJpegQ p)) @ m_inputPPQ p @ m_inputRawQ p)"
proof -
  define p1 where "p1 = p\<lparr>data_active := False, save_active := False, m_inputSaveQ := []\<rparr>"
  define p2 where "p2 = fold (abort_jpeg e) (m_ongoingJpegQ p1) (p1\<lparr>m_ongoingJpegQ := []\<rparr>)"
  define p3 where "p3 = (if mJpegSessionId p2 = 0 then p2
     else p2\<lparr>jpeg_calls := jpeg_calls p2 @ [Destroy_session (mJpegSessionId p2)], mJpegSessionId := 0\<rparr>)"
  define p4 where "p4 = p3\<lparr>m_pReprocChannel := None, m_pDualReprocChannel := None\<rparr>"
  have 2: "queues p2 = (m_inputPPQ p, m_ongoingPPQ p, m_inputJpegQ p, [], m_inputRawQ p, notifies p,
      freed p @ concat (map (rev \<circ> job_frames) (m_ongoingJpegQ p)))"
    unfolding p2_def job_queues by (simp add: p1_def queues_def)
  have "queues p4 = queues p2" by (simp add: p4_def p3_def queues_def)
  note p4 = queues_eqD [OF this [unfolded 2]]
  note q5 = queues_eqD [OF flush_queues(1) [of e p4]]
  note q6 = queues_eqD [OF flush_input_jobs [of e "flush_ongoingPPQ e p4"]]
  note q7 = queues_eqD [OF flush_queues(2) [of e "flush_inputJpegQ e (flush_ongoingPPQ e p4)"]]
  have "queues (z\<lparr>mNewJpegSessionNeeded := b\<rparr>) = queues z" for z b by (simp add: queues_def)
  then have "queues (stop_data_proc e p) = queues (flush_inputRawQ e (flush_inputPPQ e (flush_inputJpegQ e (flush_ongoingPPQ e p4))))"
    by (simp add: stop_data_proc_def Let_def p1_def p2_def p3_def p4_def)
  then show ?thesis by (simp add: flush_queues(3) q7 q6 q5 p4)
qed

text \<open>
  C26. stop_frees_everything. A stop empties every queue of the post processor at once, in whatever state its threads are and
  whatever is queued: the frames of the jobs with the encoder, of those being reprocessed, of the jobs and frames waiting
  are freed, in this order, and only data the application still has remain.
\<close>

theorem stop_frees_everything:
  assumes "m_bInited p" "data_running p" "cmd_ok e"
  shows "queues (pp_stop e p) = ([], [], [], [], [], notifies p, freed p @ concat (map (rev \<circ> job_frames) (m_ongoingJpegQ p))
     @ map pp_src_frame (m_ongoingPPQ p) @ concat (map (rev \<circ> job_frames) (m_inputJpegQ p)) @ m_inputPPQ p @ m_inputRawQ p)"
  using assms stop_queues [of e p]
  by (simp add: pp_stop_def data_round_def send_data_cmd_def)

lemma stop_frees_everything_witness:
  "\<exists>p. m_inputJpegQ p \<noteq> [] \<and> freed (pp_stop pp_env1 p) = [frame1]"
proof -
  let ?p = "pp_state1\<lparr>m_inputJpegQ := [\<lparr>jpeg_jobId = 0, src_frame = frame1, src_reproc_frame = None, jpeg_metadata = None,
     jpeg_frame_release = False\<rparr>]\<rparr>"
  have "freed (pp_stop pp_env1 ?p) = [frame1]"
    using stop_frees_everything [of ?p pp_env1, THEN queues_eqD]
    by (simp add: pp_state1_def pp_init_def pp_env1_def new_postproc_def job_frames_def)
  then show ?thesis by (intro exI [of _ ?p]) simp
qed

end
