(* ===== verification/PostProcFaults.thy ===== *)
theory PostProcFaults
  imports PostProcProps
begin

text \<open>
  How the jobs of the post processor fit their encoding sessions, and what it does with failed notifications and with jobs
  the JPEG interface accepts without starting.
\<close>

section \<open>Jobs and sessions\<close>

lemma config_calls: "getJpegEncodingConfig e c t p = (rc, par, z) \<Longrightarrow> jpeg_calls z = jpeg_calls p \<and> mJpegMemOpt z = mJpegMemOpt p
    \<and> mUseJpegBurst z = (jpeg_burst e \<and> \<not> mUseSaveProc p) \<and> mJpegClientHandle z = mJpegClientHandle p"
  by (auto simp: getJpegEncodingConfig_def Let_def split: if_splits)

lemma config_bufs:
  "getJpegEncodingConfig e (Some n) t p = (NO_ERROR, par, z) \<Longrightarrow> num_src_bufs par = n \<and>
     num_dst_bufs par = (if mJpegMemOpt p then n else if mUseJpegBurst z then 2 else 1)"
  by (auto simp: getJpegEncodingConfig_def Let_def MAX_JPEG_BURST_def split: if_splits)

text \<open>What a new session and the job that follows it have in common.\<close>

definition job_fits :: "mm_jpeg_encode_params_t \<Rightarrow> mm_jpeg_encode_job_t \<Rightarrow> bool" where
  "job_fits par j = (src_index j < int (num_src_bufs par) \<and> dst_index j < int (num_dst_bufs par))"

definition calls_fit :: "jpeg_call list \<Rightarrow> bool" where
  "calls_fit cs = (case cs of
     [] \<Rightarrow> True
   | [Create_session par] \<Rightarrow> True
   | [Create_session par, Start_job j] \<Rightarrow> job_fits par j
   | _ \<Rightarrow> False)"

lemma need_session_calls:
  assumes "need_session e f b t p = (rc, z)" "mNewJpegSessionNeeded p"
    and "stream_bufs e (ch_id f) (stream_id b) = Some n" "buf_idx b < n"
  shows "\<exists>cs. jpeg_calls z = jpeg_calls p @ cs \<and> calls_fit cs \<and>
    (rc = NO_ERROR \<longrightarrow> (\<exists>par. cs = [Create_session par] \<and> (\<forall>w. job_fits par (encode_job_of e b w z))))"
proof -
  obtain rc1 par p1 where g: "getJpegEncodingConfig e (Some n) (bufs_of_stream e (ch_id f) t) p = (rc1, par, p1)"
    by (rule prod_cases3)
  show ?thesis
  proof (cases "rc1 = NO_ERROR")
    case True
    have fits: "job_fits par (encode_job_of e b w (p1\<lparr>jpeg_calls := c, mJpegSessionId := i, mNewJpegSessionNeeded := s\<rparr>))" for w c i s
      using config_bufs [of e n "bufs_of_stream e (ch_id f) t" p par p1] g True config_calls [OF g] assms(4)
      by (simp add: job_fits_def encode_job_of_def)
    show ?thesis
      using assms(1,2) g True config_calls [OF g] fits
      by (auto simp: need_session_def assms(3) create_session_def calls_fit_def split: if_splits)
  next
    case False
    then show ?thesis
      using assms(1,2) g config_calls [OF g] by (auto simp: need_session_def assms(3) calls_fit_def)
  qed
qed

text \<open>The index of every buffer of a frame is below the number of buffers of its stream.\<close>

definition bufs_in_range :: "pp_env \<Rightarrow> mm_camera_super_buf_t \<Rightarrow> bool" where
  "bufs_in_range e f = list_all (\<lambda>b. case stream_bufs e (ch_id f) (stream_id b) of None \<Rightarrow> False | Some n \<Rightarrow> buf_idx b < n) (bufs f)"

lemma main_in_range:
  assumes "bufs_in_range e f" "queryStreams e f r p = (rc, Some b, t)"
  shows "\<exists>n. stream_bufs e (ch_id f) (stream_id b) = Some n \<and> buf_idx b < n"
proof -
  have "pick_last is_main e f = Some b" using assms(2) by (auto simp: queryStreams_def Let_def split: if_splits)
  then have "b \<in> set (bufs f)" unfolding pick_last_def by (metis find_Some_iff nth_mem set_rev)
  then show ?thesis using assms(1) by (auto simp: bufs_in_range_def list_all_iff split: option.splits)
qed

text \<open>
  When a frame is encoded and a new session is made for it, the job that follows is within the
  bounds of that session: its source and its output buffer are below the numbers of buffers the session was made with, in
  the normal mode, with an output buffer for each source and in a burst, so that the JPEG interface does not refuse it.
\<close>

theorem first_job_fits_session:
  assumes "bufs_in_range e (src_frame job)" "mNewJpegSessionNeeded p" "encodeData e job p = (rc, job1, z)"
  shows "\<exists>cs. jpeg_calls z = jpeg_calls p @ cs \<and> calls_fit cs"
proof -
  obtain rc1 m t where q: "queryStreams e (src_frame job) (src_reproc_frame job) p = (rc1, m, t)" by (rule prod_cases3)
  have nil: "\<exists>cs. jpeg_calls p = jpeg_calls p @ cs \<and> calls_fit cs" by (simp add: calls_fit_def)
  show ?thesis
  proof (cases m)
    case None
    then have "z = p" using assms(3) by (auto simp: encodeData_def q Let_def split: if_splits)
    then show ?thesis using nil by simp
  next
    case (Some b)
    let ?t = "if generateThumbFromMain e then None else t"
    obtain rc2 p1 where n: "need_session e (src_frame job) b ?t p = (rc2, p1)" by fastforce
    obtain rc3 i where st: "start_job_rc e = (rc3, i)" by fastforce
    obtain k where k: "stream_bufs e (ch_id (src_frame job)) (stream_id b) = Some k" "buf_idx b < k"
      using main_in_range [OF assms(1) q [unfolded Some]] by blast
    obtain cs where cs: "jpeg_calls p1 = jpeg_calls p @ cs" "calls_fit cs"
        "rc2 = NO_ERROR \<longrightarrow> (\<exists>par. cs = [Create_session par] \<and> (\<forall>w. job_fits par (encode_job_of e b w p1)))"
      using need_session_calls [OF n assms(2) k] by blast
    have "z = p \<or> z = p1 \<or> rc2 = NO_ERROR \<and> (\<exists>w. z = p1\<lparr>jpeg_calls := jpeg_calls p1 @ [Start_job (encode_job_of e b w p1)]\<rparr>)"
      using assms(3) by (auto simp: encodeData_def q Some n st Let_def split: if_splits)
    then show ?thesis
      using nil cs by (auto simp: calls_fit_def)
  qed
qed

lemma first_job_fits_session_witness:
  "\<exists>job1 z cs. encodeData pp_env1 \<lparr>jpeg_jobId = 0, src_frame = frame1, src_reproc_frame = None, jpeg_metadata = None,
      jpeg_frame_release = False\<rparr> pp_state1 = (NO_ERROR, job1, z) \<and> jpeg_calls z = cs \<and> length cs = 2 \<and> calls_fit cs"
proof -
  let ?j = "\<lparr>jpeg_jobId = 0, src_frame = frame1, src_reproc_frame = None, jpeg_metadata = None, jpeg_frame_release = False\<rparr>"
  have "fst (encodeData pp_env1 ?j pp_state1) = NO_ERROR \<and> length (jpeg_calls (snd (snd (encodeData pp_env1 ?j pp_state1)))) = 2"
    by code_simp
  then obtain job1 z where en: "encodeData pp_env1 ?j pp_state1 = (NO_ERROR, job1, z)" "length (jpeg_calls z) = 2"
    by (cases "encodeData pp_env1 ?j pp_state1") auto
  have "bufs_in_range pp_env1 (src_frame ?j)" "mNewJpegSessionNeeded pp_state1" "jpeg_calls pp_state1 = []"
    by (simp_all add: bufs_in_range_def frame1_def pp_env1_def pp_state1_def pp_init_def new_postproc_def)
  then show ?thesis using first_job_fits_session [OF _ _ en(1)] en by fastforce
qed

section \<open>Failed notifications\<close>

text \<open>
  When the notification of a finished picture cannot be queued, its memory is released
  twice, once by the notification and once by the error path of the event.
\<close>

theorem jpeg_memory_released_twice:
  assumes "m_bInited p" "\<not> (mUseSaveProc p \<and> isLongshotEnabled e)" "mJpegMemOpt p"
    and "evt_status evt = JPEG_JOB_STATUS_DONE" "evt_mem evt = Some m"
    and "\<not> m_bIntEvtPending e" "compressed_wanted e" "\<not> captures_pending e" "alloc_ok e" "\<not> notify_ok e"
  shows "mem_released (snd (processJpegEvt e evt p)) = mem_released p @ [m, m]"
proof -
  have j: "mem_released (releaseJpegJobData e j q) = mem_released q \<and> mJpegMemOpt (releaseJpegJobData e j q) = mJpegMemOpt q" for j q
    by (simp add: releaseJpegJobData_def release_and_free_def free_frame_def releaseSuperBuf_def Let_def split: option.splits)
  have "mem_released (fold (releaseJpegJobData e) js q) = mem_released q \<and> mJpegMemOpt (fold (releaseJpegJobData e) js q) = mJpegMemOpt q" for js q
    by (induction js arbitrary: q) (simp_all add: j)
  then have f: "mem_released (flush_ongoing_jobs e i q) = mem_released q" "mJpegMemOpt (flush_ongoing_jobs e i q) = mJpegMemOpt q" for i q
    by (simp_all add: flush_ongoing_jobs_def)
  have c: "mem_released (send_data_cmd e c prio q) = mem_released q" "mJpegMemOpt (send_data_cmd e c prio q) = mJpegMemOpt q" for c prio q
    by (simp_all add: send_data_cmd_def)
  show ?thesis
    using assms by (auto simp: processJpegEvt_def jpeg_evt_deliver_def jpeg_evt_end_def sendDataNotify_def releaseNotifyData_def
        sendEvtNotify_error_def f c Let_def)
qed

lemma jpeg_memory_released_twice_witness:
  "mem_released (snd (processJpegEvt (pp_env1\<lparr>notify_ok := False\<rparr>)
     \<lparr>evt_jobId = 5, evt_status = JPEG_JOB_STATUS_DONE, evt_mem = Some 60\<rparr> pp_state1)) = [60, 60]"
  using jpeg_memory_released_twice [of pp_state1 "pp_env1\<lparr>notify_ok := False\<rparr>"
      "\<lparr>evt_jobId = 5, evt_status = JPEG_JOB_STATUS_DONE, evt_mem = Some 60\<rparr>" 60]
  by (simp add: pp_state1_def pp_init_def new_postproc_def pp_env1_def)

text \<open>
  With zero shutter lag a raw frame whose notification cannot be queued is given back to its
  channel and freed by the notification, and once more by the thread that processes it.
\<close>

theorem raw_frame_freed_twice:
  assumes "m_inputRawQ p = [f]" "isZSLMode e" "getChannelByHandle e (ch_id f)"
    and "find (\<lambda>b. case stream_of e (ch_id f) (stream_id b) of None \<Rightarrow> False | Some t \<Rightarrow> is_raw t) (bufs f) = Some b"
    and "mem_info b" "raw_mem_of e = Some m" "compressed_wanted e" "alloc_ok e" "\<not> notify_ok e"
  shows "freed (next_raw e p) = freed p @ [f, f] \<and> given_back (next_raw e p) = given_back p @ [f, f]"
  using assms by (simp add: next_raw_def processRawImageImpl_def Let_def sendDataNotify_def releaseNotifyData_def
      release_and_free_def free_frame_def releaseSuperBuf_def sendEvtNotify_error_def)

lemma raw_frame_freed_twice_witness:
  "freed (next_raw (pp_env1\<lparr>notify_ok := False\<rparr>) (pp_state1\<lparr>m_inputRawQ := [frame1]\<rparr>)) = [frame1, frame1]"
  using raw_frame_freed_twice [of "pp_state1\<lparr>m_inputRawQ := [frame1]\<rparr>" frame1 "pp_env1\<lparr>notify_ok := False\<rparr>" "hd (bufs frame1)" 40]
  by (simp add: pp_state1_def pp_init_def new_postproc_def pp_env1_def frame1_def is_raw_def)

section \<open>Jobs that were never started\<close>

text \<open>
  The JPEG interface answers 0 with job id 0 for a job it does not start (MmJpegFaults, and
  \<open>mm_jpeg_start_job\<close> for an inactive session). The post processor takes it for a job at the encoder: it stays in the
  queue of such jobs with its frame, whatever picture is finished, until the post processor is stopped.
\<close>

theorem unstarted_job_stays:
  assumes "m_inputJpegQ p = job # jobs" "jpeg_jobId job = 0" "queue_node_ok e"
    and "encodeData e job (p\<lparr>m_inputJpegQ := jobs, m_ongoingJpegQ := q_put e job (m_ongoingJpegQ p)\<rparr>) = (NO_ERROR, job1, z)"
    and "start_job_rc e = (NO_ERROR, 0)" "evt_jobId evt \<noteq> 0"
  shows "\<exists>j. j \<in> set (m_ongoingJpegQ (snd (processJpegEvt e' evt (next_jpeg e p)))) \<and> src_frame j = src_frame job"
proof -
  let ?p1 = "p\<lparr>m_inputJpegQ := jobs, m_ongoingJpegQ := q_put e job (m_ongoingJpegQ p)\<rparr>"
  have id: "jpeg_jobId job1 = 0 \<and> src_frame job1 = src_frame job"
    using assms(2,4,5) by (auto simp: encodeData_def Let_def split: if_splits option.splits prod.splits)
  have "next_jpeg e p = z\<lparr>m_ongoingJpegQ := q_put e job1 (m_ongoingJpegQ p)\<rparr>"
    by (simp add: next_jpeg_def assms(1,4) Let_def)
  then have "job1 \<in> set (m_ongoingJpegQ (next_jpeg e p))"
    using assms(3) by (simp add: q_put_def)
  moreover have "job1 \<in> set (m_ongoingJpegQ (snd (processJpegEvt e' evt q)))" if "job1 \<in> set (m_ongoingJpegQ q)" for q
  proof -
    have "queues (flush_ongoing_jobs e' (evt_jobId evt) q) = (m_inputPPQ q, m_ongoingPPQ q, m_inputJpegQ q,
        filter (\<lambda>j. \<not> matchJobId (evt_jobId evt) j) (m_ongoingJpegQ q), m_inputRawQ q, notifies q,
        freed q @ concat (map (rev \<circ> job_frames) (filter (matchJobId (evt_jobId evt)) (m_ongoingJpegQ q))))"
      unfolding flush_ongoing_jobs_def job_queues by (simp add: queues_def)
    then have f: "job1 \<in> set (m_ongoingJpegQ (flush_ongoing_jobs e' (evt_jobId evt) q))"
      using that id assms(6) by (simp add: queues_def matchJobId_def)
    have d: "m_ongoingJpegQ (snd (jpeg_evt_deliver e' evt u)) = m_ongoingJpegQ u" for u
      by (simp add: jpeg_evt_deliver_def jpeg_evt_end_def sendDataNotify_def releaseNotifyData_def sendEvtNotify_error_def Let_def
          split: option.splits)
    show ?thesis using that f d by (simp add: processJpegEvt_def Let_def send_data_cmd_def send_save_cmd_def case_prod_unfold)
  qed
  ultimately show ?thesis using id by metis
qed

lemma unstarted_job_stays_witness:
  "\<exists>j. j \<in> set (m_ongoingJpegQ (snd (processJpegEvt pp_env1 \<lparr>evt_jobId = 5, evt_status = JPEG_JOB_STATUS_DONE, evt_mem = Some 60\<rparr>
     (next_jpeg (pp_env1\<lparr>start_job_rc := (NO_ERROR, 0)\<rparr>) (pp_state1\<lparr>m_inputJpegQ := [\<lparr>jpeg_jobId = 0, src_frame = frame1,
        src_reproc_frame = None, jpeg_metadata = None, jpeg_frame_release = False\<rparr>]\<rparr>))))) \<and> src_frame j = frame1"
proof -
  let ?j = "\<lparr>jpeg_jobId = 0, src_frame = frame1, src_reproc_frame = None, jpeg_metadata = None, jpeg_frame_release = False\<rparr>"
  let ?e = "pp_env1\<lparr>start_job_rc := (NO_ERROR, 0)\<rparr>"
  let ?p = "pp_state1\<lparr>m_inputJpegQ := [?j]\<rparr>"
  have "fst (encodeData ?e ?j (?p\<lparr>m_inputJpegQ := [], m_ongoingJpegQ := q_put ?e ?j (m_ongoingJpegQ ?p)\<rparr>)) = NO_ERROR"
    by code_simp
  then obtain job1 z where "encodeData ?e ?j (?p\<lparr>m_inputJpegQ := [], m_ongoingJpegQ := q_put ?e ?j (m_ongoingJpegQ ?p)\<rparr>) = (NO_ERROR, job1, z)"
    by (metis prod.collapse)
  from unstarted_job_stays [OF _ _ _ this, of "\<lparr>evt_jobId = 5, evt_status = JPEG_JOB_STATUS_DONE, evt_mem = Some 60\<rparr>" pp_env1]
  show ?thesis by (simp add: pp_env1_def)
qed

end
