(* ===== verification/SensorQueue.thy ===== *)
theory SensorQueue
  imports Main
begin

text \<open>
  The queue of sensor events of the sensors multi-HAL (sensors/SensorEventQueue.cpp): an array used as a ring, from which
  a writer gets a region that it fills without the lock, while the reader takes events with it.

  The locale \<open>fifo_buffer\<close> says what the reader and the writer rely on: a queue with a part that is being written. The
  operations of the ring refine it (\<open>ring\<close>), in every interleaving of one writer with the reader.
\<close>

section \<open>The ring\<close>

record 'a sensor_event_queue =
  mCapacity :: nat
  mStart :: nat
  mSize :: nat
  mData :: "'a list"

text \<open>The array of a new queue holds whatever the memory held, of the right length.\<close>

definition SensorEventQueue :: "'a list \<Rightarrow> 'a sensor_event_queue" where
  "SensorEventQueue junk = \<lparr>mCapacity = length junk, mStart = 0, mSize = 0, mData = junk\<rparr>"

text \<open>The first index of the region, when there is one, and its length.\<close>

definition getWritableRegion :: "int \<Rightarrow> 'a sensor_event_queue \<Rightarrow> (nat \<times> nat) option" where
  "getWritableRegion requestedLength q =
     (if mSize q = mCapacity q \<or> requestedLength \<le> 0 then None
      else
        let firstWritable = (mStart q + mSize q) mod mCapacity q;
            last0 = firstWritable + nat requestedLength - 1;
            last1 = (if mCapacity q - 1 < last0 then mCapacity q - 1 else last0);
            lastWritable = (if firstWritable < mStart q \<and> mStart q \<le> last1 then mStart q - 1 else last1)
        in Some (firstWritable, lastWritable - firstWritable + 1))"

definition markAsWritten :: "nat \<Rightarrow> 'a sensor_event_queue \<Rightarrow> 'a sensor_event_queue" where
  "markAsWritten count q = q\<lparr>mSize := mSize q + count\<rparr>"

definition getSize :: "'a sensor_event_queue \<Rightarrow> nat" where
  "getSize q = mSize q"

definition peek :: "'a sensor_event_queue \<Rightarrow> 'a option" where
  "peek q = (if mSize q = 0 then None else Some (mData q ! mStart q))"

text \<open>The reader that frees the first slot of a full queue wakes the writer, which is the second result.\<close>

definition dequeue_event :: "'a sensor_event_queue \<Rightarrow> 'a sensor_event_queue \<times> bool" where
  "dequeue_event q = (if mSize q = 0 then (q, False)
     else (q\<lparr>mSize := mSize q - 1, mStart := (mStart q + 1) mod mCapacity q\<rparr>, mSize q = mCapacity q))"

text \<open>The writer waits while this holds.\<close>

definition waits_for_space :: "'a sensor_event_queue \<Rightarrow> bool" where
  "waits_for_space q = (mSize q = mCapacity q)"

text \<open>The sub-HAL writes an event into the array.\<close>

definition put_event :: "nat \<Rightarrow> 'a \<Rightarrow> 'a sensor_event_queue \<Rightarrow> 'a sensor_event_queue" where
  "put_event i x q = q\<lparr>mData := (mData q)[i := x]\<rparr>"

section \<open>What it promises\<close>

text \<open>
  A buffer with one writer: \<open>val\<close> is what can be read, \<open>acquire\<close> gives room for some events, \<open>put\<close> writes one of them where
  nothing is read, \<open>commit\<close> appends those written, \<open>next\<close> and \<open>take\<close> read. \<open>writes q r xs\<close> says that with room \<open>r\<close> the
  events \<open>xs\<close> are written.
\<close>

locale fifo_buffer =
  fixes ok :: "'q \<Rightarrow> bool" and val :: "'q \<Rightarrow> 'a list" and cap :: "'q \<Rightarrow> nat"
    and acquire :: "int \<Rightarrow> 'q \<Rightarrow> 'r option" and room :: "'r \<Rightarrow> nat"
    and put :: "'r \<Rightarrow> nat \<Rightarrow> 'a \<Rightarrow> 'q \<Rightarrow> 'q" and commit :: "nat \<Rightarrow> 'q \<Rightarrow> 'q"
    and front :: "'q \<Rightarrow> 'a option" and take_front :: "'q \<Rightarrow> 'q"
    and writes :: "'q \<Rightarrow> 'r \<Rightarrow> 'a list \<Rightarrow> bool"
  assumes acquire_room: "ok q \<Longrightarrow> acquire n q = Some r \<Longrightarrow> writes q r [] \<and> 0 < room r \<and> int (room r) \<le> n"
    and acquire_full: "ok q \<Longrightarrow> 0 < n \<Longrightarrow> (acquire n q = None) = (length (val q) = cap q)"
    and put_keeps: "ok q \<Longrightarrow> writes q r xs \<Longrightarrow> length xs < room r \<Longrightarrow>
      ok (put r (length xs) x q) \<and> val (put r (length xs) x q) = val q \<and> writes (put r (length xs) x q) r (xs @ [x])"
    and commit_appends: "ok q \<Longrightarrow> writes q r xs \<Longrightarrow> ok (commit (length xs) q) \<and> val (commit (length xs) q) = val q @ xs"
    and front_is_hd: "ok q \<Longrightarrow> front q = (case val q of [] \<Rightarrow> None | x # ys \<Rightarrow> Some x)"
    and take_is_tl: "ok q \<Longrightarrow> ok (take_front q) \<and> val (take_front q) = tl (val q)"
    and take_keeps: "ok q \<Longrightarrow> writes q r xs \<Longrightarrow> writes (take_front q) r xs"
    and bounded: "ok q \<Longrightarrow> length (val q) \<le> cap q"
begin

lemma front_take: "ok q \<Longrightarrow> val q = x # ys \<Longrightarrow> front q = Some x \<and> val (take_front q) = ys"
  by (simp add: front_is_hd take_is_tl)

lemma front_None: "ok q \<Longrightarrow> front q = None \<longleftrightarrow> val q = []"
  by (simp add: front_is_hd split: list.splits)

text \<open>Reading while a region is open.\<close>

lemma takes_keep: "ok q \<Longrightarrow> writes q r xs \<Longrightarrow> ok ((take_front ^^ n) q) \<and> writes ((take_front ^^ n) q) r xs \<and>
    val ((take_front ^^ n) q) = drop n (val q)"
  by (induction n) (auto simp: take_is_tl take_keeps drop_Suc tl_drop)

end

section \<open>The ring keeps the promise\<close>

definition slot :: "'a sensor_event_queue \<Rightarrow> nat \<Rightarrow> nat" where
  "slot q k = (mStart q + k) mod mCapacity q"

definition ring_ok :: "'a sensor_event_queue \<Rightarrow> bool" where
  "ring_ok q = (length (mData q) = mCapacity q \<and> mSize q \<le> mCapacity q \<and> mStart q < mCapacity q)"

definition ring_val :: "'a sensor_event_queue \<Rightarrow> 'a list" where
  "ring_val q = map (\<lambda>k. mData q ! slot q k) [0..<mSize q]"

text \<open>The events \<open>xs\<close> are in the first slots of the region, and the region is free.\<close>

definition in_region :: "'a sensor_event_queue \<Rightarrow> nat \<times> nat \<Rightarrow> 'a list \<Rightarrow> bool" where
  "in_region q r xs = (fst r = slot q (mSize q) \<and> fst r + snd r \<le> mCapacity q \<and> snd r + mSize q \<le> mCapacity q \<and>
     length xs \<le> snd r \<and> (\<forall>k < length xs. mData q ! (fst r + k) = xs ! k))"

lemma slot_eq: "mStart q < mCapacity q \<Longrightarrow> k \<le> mCapacity q \<Longrightarrow>
    slot q k = (if mStart q + k < mCapacity q then mStart q + k else mStart q + k - mCapacity q)"
  by (simp add: slot_def mod_if)

lemma slot_less: "mStart q < mCapacity q \<Longrightarrow> slot q k < mCapacity q"
  by (simp add: slot_def)

lemma length_ring_val [simp]: "length (ring_val q) = mSize q"
  by (simp add: ring_val_def)

lemma nth_ring_val: "k < mSize q \<Longrightarrow> ring_val q ! k = mData q ! slot q k"
  by (simp add: ring_val_def)

text \<open>The region is the free slots after the readable ones.\<close>

lemma region_slot: "ring_ok q \<Longrightarrow> in_region q r xs \<Longrightarrow> k < snd r \<Longrightarrow> fst r + k = slot q (mSize q + k)"
  unfolding ring_ok_def in_region_def by (auto simp: slot_eq split: if_splits)

lemma slot_inj: "ring_ok q \<Longrightarrow> i < mCapacity q \<Longrightarrow> j < mCapacity q \<Longrightarrow> slot q i = slot q j \<Longrightarrow> i = j"
  unfolding ring_ok_def by (auto simp: slot_eq split: if_splits)

lemma region_free: "ring_ok q \<Longrightarrow> in_region q r xs \<Longrightarrow> k < snd r \<Longrightarrow> i < mSize q \<Longrightarrow> fst r + k \<noteq> slot q i"
  using region_slot [of q r xs k] slot_inj [of q i "mSize q + k"] unfolding ring_ok_def in_region_def by auto

lemma region_fresh: "ring_ok q \<Longrightarrow> getWritableRegion n q = Some r \<Longrightarrow> in_region q r [] \<and> 0 < snd r \<and> int (snd r) \<le> n"
  unfolding ring_ok_def in_region_def getWritableRegion_def
  by (auto simp: Let_def slot_def mod_if split: if_splits)

lemma put_slot: "ring_ok q \<Longrightarrow> in_region q r xs \<Longrightarrow> length xs < snd r \<Longrightarrow>
    ring_val (put_event (fst r + length xs) x q) = ring_val q"
  using region_free [of q r xs "length xs"]
  by (auto simp: ring_val_def put_event_def slot_def)

lemma put_region: "ring_ok q \<Longrightarrow> in_region q r xs \<Longrightarrow> length xs < snd r \<Longrightarrow>
    in_region (put_event (fst r + length xs) x q) r (xs @ [x])"
  by (auto simp: in_region_def put_event_def slot_def ring_ok_def nth_append less_Suc_eq)

lemma mark_val: "ring_ok q \<Longrightarrow> in_region q r xs \<Longrightarrow> ring_val (markAsWritten (length xs) q) = ring_val q @ xs"
proof (rule nth_equalityI)
  fix k
  assume ok: "ring_ok q" "in_region q r xs" and k: "k < length (ring_val (markAsWritten (length xs) q))"
  have eq: "mData (markAsWritten (length xs) q) = mData q" "slot (markAsWritten (length xs) q) k = slot q k"
    by (simp_all add: markAsWritten_def slot_def)
  show "ring_val (markAsWritten (length xs) q) ! k = (ring_val q @ xs) ! k"
    using ok k eq region_slot [of q r xs "k - mSize q"]
    by (simp add: nth_ring_val nth_append markAsWritten_def in_region_def) (metis add_diff_inverse_nat
      less_diff_conv2 linorder_not_less order_less_le_trans add.commute)
qed (simp add: markAsWritten_def)

lemma dequeue_val: "ring_ok q \<Longrightarrow> ring_val (fst (dequeue_event q)) = tl (ring_val q)"
  by (rule nth_equalityI) (auto simp: dequeue_event_def nth_ring_val nth_tl slot_def mod_simps ring_ok_def)

lemma dequeue_region: "ring_ok q \<Longrightarrow> in_region q r xs \<Longrightarrow> in_region (fst (dequeue_event q)) r xs"
proof (cases "mSize q")
  case (Suc n)
  have "(Suc (mStart q) mod mCapacity q + n) mod mCapacity q = (mStart q + mSize q) mod mCapacity q"
    using Suc by (simp add: mod_simps)
  then show "ring_ok q \<Longrightarrow> in_region q r xs \<Longrightarrow> in_region (fst (dequeue_event q)) r xs"
    using Suc by (auto simp: dequeue_event_def in_region_def slot_def)
qed (simp add: dequeue_event_def)

lemma peek_val: "ring_ok q \<Longrightarrow> peek q = (case ring_val q of [] \<Rightarrow> None | x # ys \<Rightarrow> Some x)"
  by (auto simp: peek_def ring_val_def slot_def ring_ok_def upt_conv_Cons)

interpretation ring: fifo_buffer ring_ok ring_val mCapacity getWritableRegion snd "\<lambda>r i. put_event (fst r + i)"
  markAsWritten peek "\<lambda>q. fst (dequeue_event q)" in_region
proof (unfold_locales, goal_cases)
  case (1 q n r) then show ?case by (rule region_fresh)
next
  case (2 q n) then show ?case by (simp add: getWritableRegion_def Let_def)
next
  case (3 q r xs x)
  then show ?case using put_slot [of q r xs x] put_region [of q r xs x] by (simp add: ring_ok_def put_event_def)
next
  case (4 q r xs)
  then show ?case using mark_val [of q r xs] by (auto simp: ring_ok_def in_region_def markAsWritten_def)
next
  case (5 q) then show ?case by (rule peek_val)
next
  case (6 q) then show ?case using dequeue_val [of q] by (auto simp: ring_ok_def dequeue_event_def)
next
  case (7 q r xs) then show ?case by (rule dequeue_region)
next
  case (8 q) then show ?case by (simp add: ring_ok_def)
qed

end
