(* ===== verification/MultiHal.thy ===== *)
theory MultiHal
  imports SensorQueue "HOL-Library.Word"
begin

text \<open>
  The sensors multi-HAL (sensors/multihal.cpp): one sensor device in front of the devices of several modules. The handles of
  the modules' sensors are mapped to global ones, every call goes to the module of its handle, and the events of all modules
  are read from one queue for each.

  The constants of the platform's sensor header are the argument \<open>sensors_h\<close>, the modules are numbers with what they answer
  as arguments, and the calls of their devices are values in the results.
\<close>

section \<open>Handles\<close>

datatype FullHandle = FullHandle (moduleIndex: int) (localHandle: int)

lemma FullHandle_eq: "a = b \<longleftrightarrow> moduleIndex a = moduleIndex b \<and> localHandle a = localHandle b"
  by (cases a; cases b) simp

text \<open>The order of the keys of the map.\<close>

instantiation FullHandle :: linorder
begin

definition less_FullHandle :: "FullHandle \<Rightarrow> FullHandle \<Rightarrow> bool" where
  "less_FullHandle a b = (if moduleIndex a < moduleIndex b then True
     else if moduleIndex b < moduleIndex a then False else localHandle a < localHandle b)"

definition less_eq_FullHandle :: "FullHandle \<Rightarrow> FullHandle \<Rightarrow> bool" where
  "less_eq_FullHandle a b = (a < b \<or> a = b)"

instance
  by standard (auto simp: less_FullHandle_def less_eq_FullHandle_def FullHandle_eq split: if_splits)

end

record handle_maps =
  global_to_full :: "int \<rightharpoonup> FullHandle"
  full_to_global :: "FullHandle \<rightharpoonup> int"
  next_global_handle :: int

definition no_handles :: handle_maps where
  "no_handles = \<lparr>global_to_full = Map.empty, full_to_global = Map.empty, next_global_handle = 1\<rparr>"

definition assign_global_handle :: "int \<Rightarrow> int \<Rightarrow> handle_maps \<Rightarrow> int \<times> handle_maps" where
  "assign_global_handle module_index local_handle h =
     (let global_handle = next_global_handle h; full_handle = FullHandle module_index local_handle
      in (global_handle, h\<lparr>next_global_handle := next_global_handle h + 1,
            full_to_global := (full_to_global h)(full_handle \<mapsto> global_handle),
            global_to_full := (global_to_full h)(global_handle \<mapsto> full_handle)\<rparr>))"

definition get_local_handle :: "handle_maps \<Rightarrow> int \<Rightarrow> int" where
  "get_local_handle h g = (case global_to_full h g of None \<Rightarrow> -1 | Some f \<Rightarrow> localHandle f)"

definition get_module_index :: "handle_maps \<Rightarrow> int \<Rightarrow> int" where
  "get_module_index h g = (case global_to_full h g of None \<Rightarrow> -1 | Some f \<Rightarrow> moduleIndex f)"

definition get_global_handle :: "handle_maps \<Rightarrow> FullHandle \<Rightarrow> int" where
  "get_global_handle h f = (case full_to_global h f of None \<Rightarrow> -1 | Some g \<Rightarrow> g)"

section \<open>Modules\<close>

record sensors_h =
  SENSOR_TYPE_META_DATA :: int
  SENSOR_TYPE_PROXIMITY :: int
  SENSOR_TYPE_TILT_DETECTOR :: int
  WAKE_UP_ON_CHANGE :: int
  API_VERSION_1_1 :: int
  API_VERSION_1_3 :: int
  API_VERSION_1_4 :: int

text \<open>The fields of a sensor that the code reads; \<open>s_rest\<close> is the others.\<close>

record hal_sensor_t =
  s_handle :: int
  s_type :: int
  s_flags :: int
  s_minDelay :: int
  s_maxDelay :: int
  s_rest :: nat

text \<open>What ends the process.\<close>

datatype mh_error = Null_pointer | Out_of_range | Out_of_bounds

record mh_globals =
  sub_hw_modules :: "nat list option"
  sub_hw_versions :: "(nat \<rightharpoonup> int) option"
  g_handles :: handle_maps
  global_sensors_list :: "hal_sensor_t list option"
  global_sensors_count :: int

definition mh_init :: mh_globals where
  "mh_init = \<lparr>sub_hw_modules = None, sub_hw_versions = None, g_handles = no_handles, global_sensors_list = None,
     global_sensors_count = -1\<rparr>"

text \<open>The lines of a configuration file, as \<open>getline\<close> gives them.\<close>

fun getlines :: "string \<Rightarrow> string \<Rightarrow> string list" where
  "getlines acc [] = (if acc = [] then [] else [acc])"
| "getlines acc (c # cs) = (if c = CHR 0x0A then acc # getlines [] cs else getlines (acc @ [c]) cs)"

text \<open>The first file that there is, of the two places.\<close>

definition get_so_paths :: "string option \<Rightarrow> string option \<Rightarrow> string list" where
  "get_so_paths config deprecated = (case config of Some f \<Rightarrow> getlines [] f
     | None \<Rightarrow> (case deprecated of Some f \<Rightarrow> getlines [] f | None \<Rightarrow> []))"

text \<open>\<open>load\<close> is the module that a library holds, when it loads and has one.\<close>

definition lazy_init_modules :: "string list \<Rightarrow> (string \<Rightarrow> nat option) \<Rightarrow> mh_globals \<Rightarrow> mh_globals" where
  "lazy_init_modules so_paths load g = (case sub_hw_modules g of Some ms \<Rightarrow> g
     | None \<Rightarrow> g\<lparr>sub_hw_modules := Some (List.map_filter load so_paths)\<rparr>)"

definition fix_sensor_flags :: "sensors_h \<Rightarrow> int \<Rightarrow> hal_sensor_t \<Rightarrow> hal_sensor_t" where
  "fix_sensor_flags c version s =
     (if version < API_VERSION_1_3 c \<and> (s_type s = SENSOR_TYPE_PROXIMITY c \<or> s_type s = SENSOR_TYPE_TILT_DETECTOR c)
      then s\<lparr>s_flags := WAKE_UP_ON_CHANGE c\<rparr> else s)"

text \<open>
  The sensors of one module: \<open>k\<close> is the index of the next entry, \<open>out\<close> the list that is filled. The version of the module
  is looked up for every sensor.
\<close>

fun copy_sensors :: "sensors_h \<Rightarrow> (nat \<rightharpoonup> int) option \<Rightarrow> nat \<Rightarrow> int \<Rightarrow> hal_sensor_t list \<Rightarrow> nat \<times> hal_sensor_t list \<times> handle_maps \<Rightarrow>
    mh_error + nat \<times> hal_sensor_t list \<times> handle_maps" where
  "copy_sensors c vs m mi [] st = Inr st"
| "copy_sensors c vs m mi (s # ss) (k, out, h) =
     (if length out \<le> k then Inl Out_of_bounds
      else
        let (g, h') = assign_global_handle mi (s_handle s) h
        in (case vs of None \<Rightarrow> Inl Null_pointer
           | Some f \<Rightarrow> (case f m of None \<Rightarrow> Inl Out_of_range
              | Some v \<Rightarrow> copy_sensors c vs m mi ss (k + 1, out[k := fix_sensor_flags c v (s\<lparr>s_handle := g\<rparr>)], h'))))"

fun copy_modules :: "sensors_h \<Rightarrow> (nat \<rightharpoonup> int) option \<Rightarrow> (nat \<Rightarrow> hal_sensor_t list) \<Rightarrow> int \<Rightarrow> nat list \<Rightarrow>
    nat \<times> hal_sensor_t list \<times> handle_maps \<Rightarrow> mh_error + nat \<times> hal_sensor_t list \<times> handle_maps" where
  "copy_modules c vs sensors mi [] st = Inr st"
| "copy_modules c vs sensors mi (m # ms) st =
     (case copy_sensors c vs m mi (sensors m) st of Inl e \<Rightarrow> Inl e
      | Inr st' \<Rightarrow> copy_modules c vs sensors (mi + 1) ms st')"

text \<open>\<open>blank\<close> is a new entry.\<close>

definition lazy_init_sensors_list :: "sensors_h \<Rightarrow> string list \<Rightarrow> (string \<Rightarrow> nat option) \<Rightarrow> (nat \<Rightarrow> hal_sensor_t list) \<Rightarrow> hal_sensor_t \<Rightarrow>
    mh_globals \<Rightarrow> mh_error + mh_globals" where
  "lazy_init_sensors_list c so_paths load sensors blank g0 = (case global_sensors_list g0 of Some l \<Rightarrow> Inr g0
     | None \<Rightarrow>
        let g = lazy_init_modules so_paths load g0; ms = the (sub_hw_modules g);
            count = sum_list (map (\<lambda>m. length (sensors m)) ms)
        in (case copy_modules c (sub_hw_versions g) sensors 0 ms (0, replicate count blank, g_handles g) of Inl e \<Rightarrow> Inl e
           | Inr (k, out, h) \<Rightarrow> Inr (g\<lparr>global_sensors_count := int count, global_sensors_list := Some out, g_handles := h,
                sub_hw_versions := None\<rparr>)))"

definition module__get_sensors_list :: "sensors_h \<Rightarrow> string list \<Rightarrow> (string \<Rightarrow> nat option) \<Rightarrow> (nat \<Rightarrow> hal_sensor_t list) \<Rightarrow> hal_sensor_t \<Rightarrow>
    mh_globals \<Rightarrow> mh_error + (int \<times> hal_sensor_t list option \<times> mh_globals)" where
  "module__get_sensors_list c so_paths load sensors blank g0 =
     (case lazy_init_sensors_list c so_paths load sensors blank g0 of Inl e \<Rightarrow> Inl e
      | Inr g \<Rightarrow> Inr (global_sensors_count g, global_sensors_list g, g))"

section \<open>The device\<close>

text \<open>A sensor event: \<open>meta_sensor\<close> is the sensor field of the nested event of a meta-data event.\<close>

record 'p sensors_event_t =
  ev_sensor :: int
  ev_type :: int
  meta_sensor :: int
  payload :: 'p

record hw_device =
  dev_id :: nat
  dev_version :: int

record 'p sensors_poll_context_t =
  sub_hw_devices :: "hw_device list"
  queues :: "'p sensors_event_t sensor_event_queue list"
  nextReadIndex :: nat

definition SENSOR_EVENT_QUEUE_CAPACITY :: nat where
  "SENSOR_EVENT_QUEUE_CAPACITY = 36"

text \<open>The new queue's array holds \<open>junk\<close>.\<close>

definition addSubHwDevice :: "'p sensors_event_t \<Rightarrow> hw_device \<Rightarrow> 'p sensors_poll_context_t \<Rightarrow> 'p sensors_poll_context_t" where
  "addSubHwDevice junk d ctx = ctx\<lparr>sub_hw_devices := sub_hw_devices ctx @ [d],
     queues := queues ctx @ [SensorEventQueue (replicate SENSOR_EVENT_QUEUE_CAPACITY junk)]\<rparr>"

text \<open>\<open>open_sub\<close> is what the module's open answers, and the device it gives.\<close>

fun open_modules :: "'p sensors_event_t \<Rightarrow> (nat \<Rightarrow> int \<times> hw_device) \<Rightarrow> nat list \<Rightarrow>
    'p sensors_poll_context_t \<times> (nat \<rightharpoonup> int) \<Rightarrow> 'p sensors_poll_context_t \<times> (nat \<rightharpoonup> int)" where
  "open_modules junk open_sub [] st = st"
| "open_modules junk open_sub (m # ms) (ctx, vs) =
     (let (r, d) = open_sub m
      in open_modules junk open_sub ms
        (if r = 0 then (addSubHwDevice junk d ctx, if vs m = None then vs(m \<mapsto> dev_version d) else vs) else (ctx, vs)))"

definition open_sensors :: "string list \<Rightarrow> (string \<Rightarrow> nat option) \<Rightarrow> (nat \<Rightarrow> int \<times> hw_device) \<Rightarrow> 'p sensors_event_t \<Rightarrow>
    mh_globals \<Rightarrow> 'p sensors_poll_context_t \<times> mh_globals" where
  "open_sensors so_paths load open_sub junk g0 =
     (let g = lazy_init_modules so_paths load g0;
          (ctx, vs) = open_modules junk open_sub (the (sub_hw_modules g))
            (\<lparr>sub_hw_devices = [], queues = [], nextReadIndex = 0\<rparr>, Map.empty)
      in (ctx, g\<lparr>sub_hw_versions := Some vs\<rparr>))"

text \<open>The two look-ups of a device differ in the type of the pointer only.\<close>

definition get_v0_device_by_handle :: "handle_maps \<Rightarrow> 'p sensors_poll_context_t \<Rightarrow> int \<Rightarrow> hw_device option" where
  "get_v0_device_by_handle h ctx g =
     (let i = get_module_index h g
      in if i < 0 \<or> int (length (sub_hw_devices ctx)) \<le> i then None else Some (sub_hw_devices ctx ! nat i))"

definition get_v1_device_by_handle :: "handle_maps \<Rightarrow> 'p sensors_poll_context_t \<Rightarrow> int \<Rightarrow> hw_device option" where
  "get_v1_device_by_handle h ctx g =
     (let i = get_module_index h g
      in if i < 0 \<or> int (length (sub_hw_devices ctx)) \<le> i then None else Some (sub_hw_devices ctx ! nat i))"

definition get_device_version_by_handle :: "handle_maps \<Rightarrow> 'p sensors_poll_context_t \<Rightarrow> int \<Rightarrow> int" where
  "get_device_version_by_handle h ctx g =
     (case get_v0_device_by_handle h ctx g of None \<Rightarrow> -1 | Some d \<Rightarrow> dev_version d)"

definition halIsAPILevelCompliant :: "handle_maps \<Rightarrow> 'p sensors_poll_context_t \<Rightarrow> int \<Rightarrow> int \<Rightarrow> bool" where
  "halIsAPILevelCompliant h ctx g level =
     (let version = get_device_version_by_handle h ctx g in version \<noteq> -1 \<and> level \<le> version)"

text \<open>What the devices are called with; the second argument of \<open>Inject\<close> is the device that is handed over.\<close>

datatype 'p sub_call =
    Activate hw_device int int
  | Set_delay hw_device int int
  | Batch hw_device int int int int
  | Flush hw_device int
  | Inject hw_device nat "'p sensors_event_t"
  | Close hw_device

definition EINVAL :: int where
  "EINVAL = 22"

definition activate :: "handle_maps \<Rightarrow> 'p sensors_poll_context_t \<Rightarrow> ('p sub_call \<Rightarrow> int) \<Rightarrow> int \<Rightarrow> int \<Rightarrow> int \<times> 'p sub_call list" where
  "activate h ctx answer handle enabled =
     (let local_handle = get_local_handle h handle
      in case get_v0_device_by_handle h ctx handle of
        Some v0 \<Rightarrow> (if 0 \<le> local_handle then (answer (Activate v0 local_handle enabled), [Activate v0 local_handle enabled])
          else (- EINVAL, []))
      | None \<Rightarrow> (- EINVAL, []))"

definition setDelay :: "handle_maps \<Rightarrow> 'p sensors_poll_context_t \<Rightarrow> ('p sub_call \<Rightarrow> int) \<Rightarrow> int \<Rightarrow> int \<Rightarrow> int \<times> 'p sub_call list" where
  "setDelay h ctx answer handle ns =
     (let local_handle = get_local_handle h handle
      in case get_v0_device_by_handle h ctx handle of
        Some v0 \<Rightarrow> (if 0 \<le> local_handle then (answer (Set_delay v0 local_handle ns), [Set_delay v0 local_handle ns])
          else (- EINVAL, []))
      | None \<Rightarrow> (- EINVAL, []))"

text \<open>An \<open>int\<close> that a wider number is stored in.\<close>

definition to_int32 :: "int \<Rightarrow> int" where
  "to_int32 i = sint (word_of_int i :: 32 word)"

definition clamp_period :: "hal_sensor_t \<Rightarrow> int \<Rightarrow> int" where
  "clamp_period s period_ns = (if period_ns < to_int32 (s_minDelay s) then to_int32 (s_minDelay s)
     else if to_int32 (s_maxDelay s) < period_ns then to_int32 (s_maxDelay s) else period_ns)"

definition batch :: "sensors_h \<Rightarrow> handle_maps \<Rightarrow> hal_sensor_t list option \<Rightarrow> 'p sensors_poll_context_t \<Rightarrow> ('p sub_call \<Rightarrow> int) \<Rightarrow>
    int \<Rightarrow> int \<Rightarrow> int \<Rightarrow> int \<Rightarrow> mh_error + int \<times> 'p sub_call list" where
  "batch c h gl ctx answer handle fl period_ns timeout =
     (let local_handle = get_local_handle h handle
      in case get_v1_device_by_handle h ctx handle of
        Some v1 \<Rightarrow>
          (if 0 \<le> local_handle then
             (if halIsAPILevelCompliant h ctx handle (API_VERSION_1_1 c)
              then let call = Batch v1 local_handle fl period_ns timeout in Inr (answer call, [call])
              else if period_ns < 0 \<or> timeout < 0 then Inr (- EINVAL, [])
              else
                let sub_index = get_module_index h handle
                in (case gl of None \<Rightarrow> Inl Null_pointer
                   | Some l \<Rightarrow> (if int (length l) \<le> sub_index then Inl Out_of_bounds
                       else let call = Set_delay v1 handle (clamp_period (l ! nat sub_index) period_ns)
                         in Inr (answer call, [call]))))
           else Inr (- EINVAL, []))
      | None \<Rightarrow> Inr (- EINVAL, []))"

definition sensor_flush :: "sensors_h \<Rightarrow> handle_maps \<Rightarrow> 'p sensors_poll_context_t \<Rightarrow> ('p sub_call \<Rightarrow> int) \<Rightarrow> int \<Rightarrow> int \<times> 'p sub_call list" where
  "sensor_flush c h ctx answer handle =
     (let local_handle = get_local_handle h handle
      in case get_v1_device_by_handle h ctx handle of
        Some v1 \<Rightarrow> (if 0 \<le> local_handle \<and> halIsAPILevelCompliant h ctx handle (API_VERSION_1_1 c)
          then (answer (Flush v1 local_handle), [Flush v1 local_handle]) else (- EINVAL, []))
      | None \<Rightarrow> (- EINVAL, []))"

text \<open>\<open>dev\<close> is the device that the client gave, which is the multi-HAL's own.\<close>

definition inject_sensor_data :: "sensors_h \<Rightarrow> handle_maps \<Rightarrow> 'p sensors_poll_context_t \<Rightarrow> ('p sub_call \<Rightarrow> int) \<Rightarrow> nat \<Rightarrow>
    'p sensors_event_t \<Rightarrow> int \<times> 'p sub_call list" where
  "inject_sensor_data c h ctx answer dev data =
     (let local_handle = get_local_handle h (ev_sensor data)
      in case get_v1_device_by_handle h ctx (ev_sensor data) of
        Some v1 \<Rightarrow> (if halIsAPILevelCompliant h ctx (ev_sensor data) (API_VERSION_1_4 c) \<and> 0 \<le> local_handle
          then (answer (Inject v1 dev data), [Inject v1 dev data]) else (- EINVAL, []))
      | None \<Rightarrow> (- EINVAL, []))"

definition close_devices :: "'p sensors_poll_context_t \<Rightarrow> int \<times> 'p sub_call list" where
  "close_devices ctx = (0, map Close (sub_hw_devices ctx))"

section \<open>Reading the events\<close>

definition copy_event_remap_handle :: "sensors_h \<Rightarrow> handle_maps \<Rightarrow> 'p sensors_event_t \<Rightarrow> nat \<Rightarrow> 'p sensors_event_t" where
  "copy_event_remap_handle c h src sub_index =
     (if ev_type src = SENSOR_TYPE_META_DATA c
      then src\<lparr>meta_sensor := get_global_handle h (FullHandle (int sub_index) (meta_sensor src))\<rparr>
      else src\<lparr>ev_sensor := get_global_handle h (FullHandle (int sub_index) (ev_sensor src))\<rparr>)"

text \<open>
  What the loops of poll work on. \<open>p_woken\<close> is the queues whose writer is woken, \<open>p_log\<close> the events that are counted, with
  their module, for the statements.
\<close>

record 'p poll_state =
  p_ctx :: "'p sensors_poll_context_t"
  p_empties :: nat
  eventsRead :: nat
  p_data :: "'p sensors_event_t list"
  p_woken :: "nat list"
  p_log :: "(nat \<times> 'p sensors_event_t) list"

definition poll_step :: "sensors_h \<Rightarrow> handle_maps \<Rightarrow> 'p poll_state \<Rightarrow> mh_error + 'p poll_state" where
  "poll_step c h p =
     (let ctx = p_ctx p; i = nextReadIndex ctx;
          advance = (\<lambda>ctx. ctx\<lparr>nextReadIndex := (i + 1) mod length (queues ctx)\<rparr>)
      in if length (queues ctx) \<le> i then Inl Out_of_range
         else case peek (queues ctx ! i) of
           None \<Rightarrow> Inr (p\<lparr>p_empties := p_empties p + 1, p_ctx := advance ctx\<rparr>)
         | Some event \<Rightarrow>
             if length (p_data p) \<le> eventsRead p then Inl Out_of_bounds
             else
               let e = copy_event_remap_handle c h event i; (q, wake) = dequeue_event (queues ctx ! i);
                   p1 = p\<lparr>p_empties := 0, p_data := (p_data p)[eventsRead p := e]\<rparr>;
                   p2 = (if ev_sensor e = -1 then p1
                         else p1\<lparr>eventsRead := eventsRead p + 1, p_log := p_log p @ [(i, e)]\<rparr>)
               in Inr (p2\<lparr>p_woken := (if wake then p_woken p @ [i] else p_woken p),
                     p_ctx := advance (ctx\<lparr>queues := (queues ctx)[i := q]\<rparr>)\<rparr>))"

definition queued :: "'p sensors_poll_context_t \<Rightarrow> nat" where
  "queued ctx = sum_list (map mSize (queues ctx))"

lemma sum_list_replace: "i < length xs \<Longrightarrow> sum_list (xs[i := y]) + (xs ! i :: nat) = sum_list xs + y"
  by (induction xs arbitrary: i) (auto split: nat.splits)

lemma queued_dequeue: "i < length qs \<Longrightarrow> peek (qs ! i) = Some e \<Longrightarrow>
    sum_list (map mSize (qs[i := fst (dequeue_event (qs ! i))])) < sum_list (map mSize qs)"
  using sum_list_replace [of i "map mSize qs" "mSize (qs ! i) - 1"]
  by (auto simp: peek_def dequeue_event_def map_update split: if_splits)

lemma poll_step_measure: "poll_step c h p = Inr p' \<Longrightarrow> p_empties p < length (queues (p_ctx p)) \<Longrightarrow>
    length (queues (p_ctx p')) = length (queues (p_ctx p)) \<and>
    (queued (p_ctx p') < queued (p_ctx p) \<or> queued (p_ctx p') = queued (p_ctx p) \<and> p_empties p' = p_empties p + 1)"
  using queued_dequeue [of "nextReadIndex (p_ctx p)" "queues (p_ctx p)"]
  by (auto simp: poll_step_def Let_def queued_def split: if_splits option.splits prod.splits)

function poll_scan :: "sensors_h \<Rightarrow> handle_maps \<Rightarrow> int \<Rightarrow> 'p poll_state \<Rightarrow> mh_error + 'p poll_state" where
  "poll_scan c h maxReads p =
     (if p_empties p < length (queues (p_ctx p)) \<and> int (eventsRead p) < maxReads
      then (case poll_step c h p of Inl e \<Rightarrow> Inl e | Inr p' \<Rightarrow> poll_scan c h maxReads p')
      else Inr p)"
  by auto

termination
  by (relation "measures [\<lambda>(c, h, m, p). queued (p_ctx p), \<lambda>(c, h, m, p). length (queues (p_ctx p)) - p_empties p]")
    (auto dest: poll_step_measure)

declare poll_scan.simps [simp del]

text \<open>One pass of the outer loop of poll, from the lock or the wait on.\<close>

definition poll_pass :: "sensors_h \<Rightarrow> handle_maps \<Rightarrow> int \<Rightarrow> 'p sensors_event_t list \<Rightarrow> 'p sensors_poll_context_t \<Rightarrow>
    mh_error + 'p poll_state" where
  "poll_pass c h maxReads data ctx =
     poll_scan c h maxReads \<lparr>p_ctx = ctx, p_empties = 0, eventsRead = 0, p_data = data, p_woken = [], p_log = []\<rparr>"

end
