(* ===== verification/MultiHalThreads.thy ===== *)
theory MultiHalThreads
  imports MultiHal
begin

text \<open>
  The threads of the sensors multi-HAL (sensors/multihal.cpp): one writer for each module, which fills its queue from the
  module's device, and the thread that polls. A step is what a thread does while it holds the lock, or a module writing an
  event into the region it was given. The lemmas show what one pass of poll does to the queues, and that the pass ends
  without an event only when all queues are empty.
\<close>

section \<open>The threads\<close>

text \<open>Before the lock, waiting for space, or in the device's poll with a region and the events written so far.\<close>

datatype 'p writer = W_lock | W_asleep | W_polling "nat \<times> nat" "'p sensors_event_t list"

text \<open>Outside poll, before a pass of its outer loop, or waiting for data.\<close>

datatype 'p poller = P_idle | P_ready int "'p sensors_event_t list" | P_asleep int "'p sensors_event_t list"

text \<open>\<open>mh_written\<close> and \<open>mh_read\<close> are the events that were written and returned so far, for the statements.\<close>

record 'p mh_state =
  mh_ctx :: "'p sensors_poll_context_t"
  mh_writers :: "'p writer list"
  mh_poller :: "'p poller"
  waiting_for_data :: bool
  mh_written :: "'p sensors_event_t list list"
  mh_read :: "(nat \<times> 'p sensors_event_t) list"

definition set_ring :: "nat \<Rightarrow> 'p sensors_event_t sensor_event_queue \<Rightarrow> 'p sensors_poll_context_t \<Rightarrow> 'p sensors_poll_context_t" where
  "set_ring i q ctx = ctx\<lparr>queues := (queues ctx)[i := q]\<rparr>"

text \<open>The first part of a round, under the lock; then the device's poll is called.\<close>

definition writer_lock :: "'p sensors_event_t sensor_event_queue \<Rightarrow> 'p writer" where
  "writer_lock q = (if waits_for_space q then W_asleep
     else case getWritableRegion (int SENSOR_EVENT_QUEUE_CAPACITY) q of
         None \<Rightarrow> W_polling (0, 0) []
       | Some r \<Rightarrow> W_polling r [])"

definition wake_poller :: "'p poller \<Rightarrow> 'p poller" where
  "wake_poller p = (case p of P_asleep m d \<Rightarrow> P_ready m d | _ \<Rightarrow> p)"

definition wake_writers :: "nat list \<Rightarrow> 'p writer list \<Rightarrow> 'p writer list" where
  "wake_writers ws l = map (\<lambda>(i, w). if i \<in> set ws \<and> w = W_asleep then W_lock else w) (enumerate 0 l)"

text \<open>The rest of a round: the poll of the device has answered \<open>n\<close>.\<close>

definition writer_polled :: "nat \<Rightarrow> int \<Rightarrow> 'p sensors_event_t list \<Rightarrow> 'p mh_state \<Rightarrow> 'p mh_state" where
  "writer_polled i n xs s = (let s1 = s\<lparr>mh_writers := (mh_writers s)[i := W_lock]\<rparr>
     in if n \<le> 0 then s1
        else s1\<lparr>mh_ctx := set_ring i (markAsWritten (nat n) (queues (mh_ctx s) ! i)) (mh_ctx s),
          mh_written := (mh_written s)[i := mh_written s ! i @ take (nat n) xs],
          mh_poller := (if waiting_for_data s then wake_poller (mh_poller s) else mh_poller s)\<rparr>)"

text \<open>A pass of poll, which then returns or waits.\<close>

definition poller_runs :: "sensors_h \<Rightarrow> handle_maps \<Rightarrow> int \<Rightarrow> 'p sensors_event_t list \<Rightarrow> 'p mh_state \<Rightarrow> mh_error + 'p mh_state" where
  "poller_runs c h maxReads data s = (case poll_pass c h maxReads data (mh_ctx s) of Inl e \<Rightarrow> Inl e
     | Inr p \<Rightarrow> Inr (s\<lparr>mh_ctx := p_ctx p, mh_writers := wake_writers (p_woken p) (mh_writers s),
         mh_read := mh_read s @ p_log p, waiting_for_data := (eventsRead p = 0),
         mh_poller := (if eventsRead p = 0 then P_asleep maxReads (p_data p) else P_idle)\<rparr>))"

datatype 'p mh_act =
    Writer_lock nat
  | Writer_put nat "'p sensors_event_t"
  | Writer_polled nat int
  | Writer_spurious nat
  | Poll_called int "'p sensors_event_t list"
  | Poll_runs
  | Poll_spurious

text \<open>
  \<open>None\<close> where the action cannot happen. The device writes its events one after another into the region, no more than fit,
  and answers at most their number; a wait may end by itself.
\<close>

fun mh_step :: "sensors_h \<Rightarrow> handle_maps \<Rightarrow> 'p mh_state \<Rightarrow> 'p mh_act \<Rightarrow> (mh_error + 'p mh_state) option" where
  "mh_step c h s (Writer_lock i) =
     (if i < length (mh_writers s) \<and> mh_writers s ! i = W_lock
      then Some (Inr (s\<lparr>mh_writers := (mh_writers s)[i := writer_lock (queues (mh_ctx s) ! i)]\<rparr>)) else None)"
| "mh_step c h s (Writer_put i x) =
     (if i < length (mh_writers s) then case mh_writers s ! i of
        W_polling r xs \<Rightarrow> (if length xs < snd r
          then Some (Inr (s\<lparr>mh_ctx := set_ring i (put_event (fst r + length xs) x (queues (mh_ctx s) ! i)) (mh_ctx s),
                 mh_writers := (mh_writers s)[i := W_polling r (xs @ [x])]\<rparr>)) else None)
      | _ \<Rightarrow> None else None)"
| "mh_step c h s (Writer_polled i n) =
     (if i < length (mh_writers s) then case mh_writers s ! i of
        W_polling r xs \<Rightarrow> (if n \<le> int (length xs) then Some (Inr (writer_polled i n xs s)) else None)
      | _ \<Rightarrow> None else None)"
| "mh_step c h s (Writer_spurious i) =
     (if i < length (mh_writers s) \<and> mh_writers s ! i = W_asleep
      then Some (Inr (s\<lparr>mh_writers := (mh_writers s)[i := W_lock]\<rparr>)) else None)"
| "mh_step c h s (Poll_called m data) =
     (if mh_poller s = P_idle \<and> m \<le> int (length data) then Some (Inr (s\<lparr>mh_poller := P_ready m data\<rparr>)) else None)"
| "mh_step c h s Poll_runs = (case mh_poller s of P_ready m data \<Rightarrow> Some (poller_runs c h m data s) | _ \<Rightarrow> None)"
| "mh_step c h s Poll_spurious =
     (case mh_poller s of P_asleep m data \<Rightarrow> Some (Inr (s\<lparr>mh_poller := P_ready m data\<rparr>)) | _ \<Rightarrow> None)"

text \<open>After the device was opened.\<close>

definition mh_start :: "'p sensors_poll_context_t \<Rightarrow> 'p mh_state" where
  "mh_start ctx = \<lparr>mh_ctx = ctx, mh_writers = replicate (length (queues ctx)) W_lock, mh_poller = P_idle,
     waiting_for_data = False, mh_written = replicate (length (queues ctx)) [], mh_read = []\<rparr>"

inductive mh_reach :: "sensors_h \<Rightarrow> handle_maps \<Rightarrow> 'p sensors_poll_context_t \<Rightarrow> 'p mh_state \<Rightarrow> bool"
  for c :: sensors_h and h :: handle_maps and ctx :: "'p sensors_poll_context_t" where
  start: "mh_reach c h ctx (mh_start ctx)"
| step: "mh_reach c h ctx s \<Longrightarrow> mh_step c h s a = Some (Inr s') \<Longrightarrow> mh_reach c h ctx s'"

text \<open>A run, and that its states are reachable.\<close>

fun mh_run :: "sensors_h \<Rightarrow> handle_maps \<Rightarrow> 'p mh_act list \<Rightarrow> 'p mh_state \<Rightarrow> 'p mh_state option" where
  "mh_run c h [] s = Some s"
| "mh_run c h (a # as) s = (case mh_step c h s a of Some (Inr s') \<Rightarrow> mh_run c h as s' | _ \<Rightarrow> None)"

lemma run_reach: "mh_run c h as s = Some s' \<Longrightarrow> mh_reach c h ctx s \<Longrightarrow> mh_reach c h ctx s'"
  by (induction as arbitrary: s) (auto intro: mh_reach.step split: option.splits sum.splits)

section \<open>One pass of poll\<close>

text \<open>What of a module's events goes upstream, and what of the read events is the module's.\<close>

definition upstream :: "sensors_h \<Rightarrow> handle_maps \<Rightarrow> nat \<Rightarrow> 'p sensors_event_t list \<Rightarrow> 'p sensors_event_t list" where
  "upstream c h i es = filter (\<lambda>e. ev_sensor e \<noteq> -1) (map (\<lambda>e. copy_event_remap_handle c h e i) es)"

definition read_of :: "nat \<Rightarrow> (nat \<times> 'p sensors_event_t) list \<Rightarrow> 'p sensors_event_t list" where
  "read_of i l = map snd (filter (\<lambda>(j, e). j = i) l)"

definition ctx_ok :: "'p sensors_poll_context_t \<Rightarrow> bool" where
  "ctx_ok ctx = (list_all ring_ok (queues ctx) \<and> (queues ctx = [] \<or> nextReadIndex ctx < length (queues ctx)))"

lemma upstream_simps [simp]: "upstream c h i [] = []" "upstream c h i (xs @ ys) = upstream c h i xs @ upstream c h i ys"
  "upstream c h i (e # es) = (let e' = copy_event_remap_handle c h e i
     in if ev_sensor e' = -1 then upstream c h i es else e' # upstream c h i es)"
  by (auto simp: upstream_def Let_def)

lemma read_of_simps [simp]: "read_of i [] = []" "read_of i (l @ l') = read_of i l @ read_of i l'"
  "read_of i ((j, e) # l) = (if j = i then e # read_of i l else read_of i l)"
  by (auto simp: read_of_def)

text \<open>The distance from the queue that is read next.\<close>

definition ahead :: "nat \<Rightarrow> nat \<Rightarrow> nat \<Rightarrow> nat" where
  "ahead n k j = (if k \<le> j then j - k else j + n - k)"

definition keeps_regions :: "'a sensor_event_queue \<Rightarrow> 'a sensor_event_queue \<Rightarrow> bool" where
  "keeps_regions q q' = (\<forall>r xs. in_region q r xs \<longrightarrow> in_region q' r xs)"

lemma keeps_regions_refl [simp]: "keeps_regions q q"
  by (simp add: keeps_regions_def)

lemma keeps_regions_dequeue: "keeps_regions q q' \<Longrightarrow> ring_ok q' \<Longrightarrow> keeps_regions q (fst (dequeue_event q'))"
  using ring.take_keeps [of q'] unfolding keeps_regions_def by blast

text \<open>
  What holds in the inner loop, of the state before it: the events of each module are in its queue or were read, in order; the
  regions of the writers stay as they are; the queues passed since the last event are empty.
\<close>

definition scan_inv :: "sensors_h \<Rightarrow> handle_maps \<Rightarrow> int \<Rightarrow> 'p sensors_poll_context_t \<Rightarrow> nat \<Rightarrow> 'p poll_state \<Rightarrow> bool" where
  "scan_inv c h m ctx dl p = (ctx_ok (p_ctx p) \<and> length (queues (p_ctx p)) = length (queues ctx) \<and> length (p_data p) = dl \<and>
     (0 \<le> m \<longrightarrow> int (eventsRead p) \<le> m) \<and> take (eventsRead p) (p_data p) = map snd (p_log p) \<and> eventsRead p = length (p_log p) \<and>
     (\<forall>i < length (queues ctx). read_of i (p_log p) @ upstream c h i (ring_val (queues (p_ctx p) ! i)) =
        upstream c h i (ring_val (queues ctx ! i))) \<and>
     (\<forall>i < length (queues ctx). keeps_regions (queues ctx ! i) (queues (p_ctx p) ! i)) \<and>
     (\<forall>i < length (queues ctx). i \<notin> set (p_woken p) \<longrightarrow> mSize (queues ctx ! i) = mCapacity (queues ctx ! i) \<longrightarrow>
        queues (p_ctx p) ! i = queues ctx ! i) \<and>
     (\<forall>i < length (queues ctx). mCapacity (queues (p_ctx p) ! i) = mCapacity (queues ctx ! i)) \<and>
     p_empties p \<le> length (queues ctx) \<and>
     (\<forall>j < length (queues ctx). mSize (queues (p_ctx p) ! j) \<noteq> 0 \<longrightarrow>
        ahead (length (queues ctx)) (nextReadIndex (p_ctx p)) j + p_empties p < length (queues ctx)))"

lemma ahead_next: "0 < n \<Longrightarrow> k < n \<Longrightarrow> j < n \<Longrightarrow>
    ahead n ((k + 1) mod n) j = (if j = k then n - 1 else ahead n k j - 1) \<and> (j \<noteq> k \<longrightarrow> 0 < ahead n k j) \<and> ahead n k j < n"
  by (auto simp: ahead_def mod_if)

lemma ahead_less: "k < n \<Longrightarrow> j < n \<Longrightarrow> ahead n k j < n"
  by (auto simp: ahead_def)

lemma next_less: "(k :: nat) < n \<Longrightarrow> Suc k mod n < n"
  by simp

lemma peek_None: "ring_ok q \<Longrightarrow> peek q = None \<longleftrightarrow> mSize q = 0"
  by (simp add: peek_def)

lemma peek_Some: "ring_ok q \<Longrightarrow> peek q = Some e \<Longrightarrow> ring_val q = e # ring_val (fst (dequeue_event q)) \<and> 0 < mSize q"
  using ring.front_None [of q] ring.take_is_tl [of q] ring.front_is_hd [of q]
  by (auto simp: peek_def split: list.splits if_splits)

lemma dequeue_wakes: "snd (dequeue_event q) = (0 < mSize q \<and> mSize q = mCapacity q)" "mCapacity (fst (dequeue_event q)) = mCapacity q"
  by (auto simp: dequeue_event_def)

text \<open>An empty queue is passed.\<close>

lemma step_empty:
  assumes inv: "scan_inv c h m ctx dl p" and e: "p_empties p < length (queues ctx)"
    and none: "peek (queues (p_ctx p) ! nextReadIndex (p_ctx p)) = None"
  shows "\<exists>p'. poll_step c h p = Inr p' \<and> scan_inv c h m ctx dl p'"
proof -
  let ?k = "nextReadIndex (p_ctx p)" and ?n = "length (queues ctx)"
  have k: "?k < ?n" "ring_ok (queues (p_ctx p) ! ?k)" and n: "length (queues (p_ctx p)) = ?n"
    using inv e by (auto simp: scan_inv_def ctx_ok_def list_all_length)
  have z: "mSize (queues (p_ctx p) ! ?k) = 0"
    using none k by (simp add: peek_def split: if_splits)
  have "poll_step c h p = Inr (p\<lparr>p_empties := p_empties p + 1,
      p_ctx := (p_ctx p)\<lparr>nextReadIndex := (?k + 1) mod ?n\<rparr>\<rparr>)" (is "_ = Inr ?p'")
    using k n none by (simp add: poll_step_def Let_def)
  moreover have "ahead ?n ((?k + 1) mod ?n) j + (p_empties p + 1) < ?n"
    if "j < ?n" "mSize (queues (p_ctx p) ! j) \<noteq> 0" for j
    using ahead_next [of ?n ?k j] inv that k z unfolding scan_inv_def by (cases "j = ?k") fastforce+
  then have "scan_inv c h m ctx dl ?p'"
    using inv e k n next_less [OF k(1)] by (auto simp: scan_inv_def ctx_ok_def)
  ultimately show ?thesis
    by blast
qed

text \<open>An event is read.\<close>

lemma step_event:
  assumes inv: "scan_inv c h m ctx dl p" and e: "p_empties p < length (queues ctx)" and m: "int (eventsRead p) < m" "m \<le> int dl"
    and some: "peek (queues (p_ctx p) ! nextReadIndex (p_ctx p)) = Some x"
  shows "\<exists>p'. poll_step c h p = Inr p' \<and> scan_inv c h m ctx dl p'"
proof -
  let ?k = "nextReadIndex (p_ctx p)" and ?n = "length (queues ctx)"
  let ?q = "queues (p_ctx p) ! ?k"
  obtain q w where d: "dequeue_event ?q = (q, w)"
    by (cases "dequeue_event ?q")
  have k: "?k < ?n" "ring_ok ?q" and n: "length (queues (p_ctx p)) = ?n" and l: "length (p_data p) = dl"
    using inv e by (auto simp: scan_inv_def ctx_ok_def list_all_length)
  have v: "ring_val ?q = x # ring_val q" and q: "ring_ok q"
    using peek_Some [OF k(2) some] ring.take_is_tl [OF k(2)] d by auto
  define e' where "e' = copy_event_remap_handle c h x ?k"
  define p1 where "p1 = p\<lparr>p_empties := 0, p_data := (p_data p)[eventsRead p := e']\<rparr>"
  define p2 where "p2 = (if ev_sensor e' = -1 then p1
    else p1\<lparr>eventsRead := eventsRead p + 1, p_log := p_log p @ [(?k, e')]\<rparr>)"
  define p' where "p' = p2\<lparr>p_woken := (if w then p_woken p @ [?k] else p_woken p),
    p_ctx := (p_ctx p)\<lparr>queues := (queues (p_ctx p))[?k := q], nextReadIndex := (?k + 1) mod ?n\<rparr>\<rparr>"
  have step: "poll_step c h p = Inr p'"
    using k n some d m l by (simp add: poll_step_def Let_def p'_def p2_def p1_def e'_def)
  have qs: "queues (p_ctx p') = (queues (p_ctx p))[?k := q]" "nextReadIndex (p_ctx p') = (?k + 1) mod ?n" "p_empties p' = 0"
    by (simp_all add: p'_def p2_def p1_def)
  have data: "length (p_data p') = dl \<and> (0 \<le> m \<longrightarrow> int (eventsRead p') \<le> m) \<and>
      take (eventsRead p') (p_data p') = map snd (p_log p') \<and> eventsRead p' = length (p_log p')"
    using inv m l by (auto simp: p'_def p2_def p1_def scan_inv_def take_Suc_conv_app_nth)
  have owed: "read_of i (p_log p') @ upstream c h i (ring_val (queues (p_ctx p') ! i)) =
      upstream c h i (ring_val (queues ctx ! i))" if "i < ?n" for i
  proof -
    have "read_of i (p_log p) @ upstream c h i (ring_val (queues (p_ctx p) ! i)) = upstream c h i (ring_val (queues ctx ! i))"
      using inv that by (simp add: scan_inv_def)
    then show ?thesis
      using that n v k by (cases "i = ?k") (auto simp: p'_def p2_def p1_def e'_def Let_def split: if_splits)
  qed
  have reg: "keeps_regions (queues ctx ! i) (queues (p_ctx p') ! i)" if "i < ?n" for i
    using inv that n k keeps_regions_dequeue [of "queues ctx ! ?k" ?q] d by (cases "i = ?k") (auto simp: qs scan_inv_def)
  have cap: "mCapacity (queues (p_ctx p') ! i) = mCapacity (queues ctx ! i)" if "i < ?n" for i
    using inv that n k dequeue_wakes(2) [of ?q] d by (cases "i = ?k") (auto simp: qs scan_inv_def)
  have full: "queues (p_ctx p') ! i = queues ctx ! i"
    if "i < ?n" "i \<notin> set (p_woken p')" "mSize (queues ctx ! i) = mCapacity (queues ctx ! i)" for i
  proof -
    have same: "queues (p_ctx p) ! i = queues ctx ! i"
      using inv that by (auto simp: scan_inv_def p'_def split: if_splits)
    have "i \<noteq> ?k"
      using that same dequeue_wakes(1) [of ?q] d peek_Some [OF k(2) some] by (auto simp: p'_def split: if_splits)
    then show ?thesis
      using same by (simp add: qs)
  qed
  have "ctx_ok (p_ctx p')"
    using inv k n q next_less [OF k(1)] by (auto simp: ctx_ok_def scan_inv_def qs list_all_length nth_list_update)
  moreover have "ahead ?n ((?k + 1) mod ?n) j < ?n" if "j < ?n" for j
    using ahead_less [OF next_less [OF k(1)] that] by simp
  ultimately have "scan_inv c h m ctx dl p'"
    unfolding scan_inv_def using data owed reg cap full n by (auto simp: qs)
  then show ?thesis
    using step by blast
qed

lemma scan_keeps: "scan_inv c h m ctx dl p \<Longrightarrow> m \<le> int dl \<Longrightarrow>
    \<exists>p'. poll_scan c h m p = Inr p' \<and> scan_inv c h m ctx dl p' \<and>
      \<not> (p_empties p' < length (queues ctx) \<and> int (eventsRead p') < m)"
proof (induction c h m p rule: poll_scan.induct)
  case (1 c h m p)
  have n: "length (queues (p_ctx p)) = length (queues ctx)"
    using 1(2) by (simp add: scan_inv_def)
  show ?case
  proof (cases "p_empties p < length (queues ctx) \<and> int (eventsRead p) < m")
    case True
    then obtain p1 where p1: "poll_step c h p = Inr p1" "scan_inv c h m ctx dl p1"
      using step_empty [OF 1(2)] step_event [OF 1(2)] 1(3)
      by (cases "peek (queues (p_ctx p) ! nextReadIndex (p_ctx p))") auto
    then show ?thesis
      using 1(1) [OF _ p1(1) p1(2) 1(3)] True n by (subst poll_scan.simps) simp
  next
    case False
    then show ?thesis
      using 1(2) n by (subst poll_scan.simps) auto
  qed
qed

text \<open>A pass succeeds, and one that reads nothing leaves all queues empty.\<close>

lemma pass_keeps:
  assumes ok: "ctx_ok ctx" and m: "m \<le> int (length data)"
  shows "\<exists>p. poll_pass c h m data ctx = Inr p \<and> scan_inv c h m ctx (length data) p \<and>
    (0 < m \<longrightarrow> eventsRead p = 0 \<longrightarrow> (\<forall>j < length (queues ctx). mSize (queues (p_ctx p) ! j) = 0))"
proof -
  define p0 where "p0 = \<lparr>p_ctx = ctx, p_empties = 0, eventsRead = 0, p_data = data, p_woken = [], p_log = []\<rparr>"
  have "scan_inv c h m ctx (length data) p0"
    using ok by (auto simp: scan_inv_def p0_def ctx_ok_def ahead_def)
  from scan_keeps [OF this m] obtain p where p: "poll_scan c h m p0 = Inr p" "scan_inv c h m ctx (length data) p"
      "\<not> (p_empties p < length (queues ctx) \<and> int (eventsRead p) < m)"
    by blast
  have "mSize (queues (p_ctx p) ! j) = 0" if "0 < m" "eventsRead p = 0" "j < length (queues ctx)" for j
    using p that by (auto simp: scan_inv_def)
  then show ?thesis
    using p by (simp add: poll_pass_def p0_def)
qed

end
