(* ===== verification/MultiHalProps.thy ===== *)
theory MultiHalProps
  imports MultiHalThreads
begin

text \<open>
  The sensors multi-HAL: in every interleaving of the writers and the polling thread the events of each module reach the
  client once, in order and with global handles, nobody sleeps while there is work, and a call reaches the module of its
  handle.
\<close>

section \<open>The invariant of the threads\<close>

definition writer_ok :: "'p sensors_event_t sensor_event_queue \<Rightarrow> 'p writer \<Rightarrow> bool" where
  "writer_ok q w = (case w of W_lock \<Rightarrow> True | W_asleep \<Rightarrow> mSize q = mCapacity q | W_polling r xs \<Rightarrow> in_region q r xs)"

definition mod_inv :: "sensors_h \<Rightarrow> handle_maps \<Rightarrow> nat \<Rightarrow> 'p sensors_event_t sensor_event_queue \<Rightarrow> 'p writer \<Rightarrow>
    'p sensors_event_t list \<Rightarrow> (nat \<times> 'p sensors_event_t) list \<Rightarrow> bool" where
  "mod_inv c h i q w wr rd = (ring_ok q \<and> mCapacity q = SENSOR_EVENT_QUEUE_CAPACITY \<and> writer_ok q w \<and>
     read_of i rd @ upstream c h i (ring_val q) = upstream c h i wr)"

fun poller_ok :: "'p poller \<Rightarrow> bool \<Rightarrow> 'p sensors_event_t sensor_event_queue list \<Rightarrow> bool" where
  "poller_ok P_idle w qs = True"
| "poller_ok (P_ready m d) w qs = (m \<le> int (length d))"
| "poller_ok (P_asleep m d) w qs = (m \<le> int (length d) \<and> w \<and> (0 < m \<longrightarrow> (\<forall>j < length qs. mSize (qs ! j) = 0)))"

definition mh_inv :: "sensors_h \<Rightarrow> handle_maps \<Rightarrow> 'p mh_state \<Rightarrow> bool" where
  "mh_inv c h s = (length (mh_writers s) = length (queues (mh_ctx s)) \<and> length (mh_written s) = length (queues (mh_ctx s)) \<and>
     (queues (mh_ctx s) = [] \<or> nextReadIndex (mh_ctx s) < length (queues (mh_ctx s))) \<and>
     poller_ok (mh_poller s) (waiting_for_data s) (queues (mh_ctx s)) \<and>
     (\<forall>i < length (queues (mh_ctx s)).
        mod_inv c h i (queues (mh_ctx s) ! i) (mh_writers s ! i) (mh_written s ! i) (mh_read s)))"

lemma mh_inv_at: "mh_inv c h s \<Longrightarrow> i < length (mh_writers s) \<Longrightarrow>
    mod_inv c h i (queues (mh_ctx s) ! i) (mh_writers s ! i) (mh_written s ! i) (mh_read s) \<and>
    i < length (queues (mh_ctx s)) \<and> i < length (mh_written s)"
  by (simp add: mh_inv_def)

lemma mh_inv_ctx: "mh_inv c h s \<Longrightarrow> ctx_ok (mh_ctx s)"
  by (auto simp: mh_inv_def ctx_ok_def mod_inv_def list_all_length)

text \<open>A step of one writer.\<close>

lemma mh_inv_writer:
  assumes inv: "mh_inv c h s" and i: "i < length (mh_writers s)" and m: "mod_inv c h i q w wr (mh_read s)"
    and s': "mh_ctx s' = set_ring i q (mh_ctx s)" "mh_writers s' = (mh_writers s)[i := w]"
      "mh_written s' = (mh_written s)[i := wr]" "mh_read s' = mh_read s"
    and p: "poller_ok (mh_poller s') (waiting_for_data s') (queues (mh_ctx s'))"
  shows "mh_inv c h s'"
  using inv i m p unfolding mh_inv_def s' by (simp add: set_ring_def nth_list_update)

lemma set_queue_same [simp]: "set_ring i (queues ctx ! i) ctx = ctx"
  by (simp add: set_ring_def)

lemma queues_set [simp]: "queues (set_ring i q ctx) = (queues ctx)[i := q]"
  by (simp add: set_ring_def)

lemma inv_poller: "mh_inv c h s \<Longrightarrow> poller_ok (mh_poller s) (waiting_for_data s) (queues (mh_ctx s))"
  by (simp add: mh_inv_def)

lemma inv_lock:
  assumes inv: "mh_inv c h s" and i: "i < length (mh_writers s)" and w: "writer_ok (queues (mh_ctx s) ! i) w"
  shows "mh_inv c h (s\<lparr>mh_writers := (mh_writers s)[i := w]\<rparr>)"
  by (rule mh_inv_writer [OF inv i, of "queues (mh_ctx s) ! i" w "mh_written s ! i"])
    (use mh_inv_at [OF inv i] inv_poller [OF inv] w in \<open>simp_all add: mod_inv_def\<close>)

lemma writer_lock_ok: "ring_ok q \<Longrightarrow> writer_ok q (writer_lock q)"
  using ring.acquire_full [of q "int SENSOR_EVENT_QUEUE_CAPACITY"]
    ring.acquire_room [of q "int SENSOR_EVENT_QUEUE_CAPACITY"]
  by (cases "getWritableRegion (int SENSOR_EVENT_QUEUE_CAPACITY) q")
    (simp_all add: writer_ok_def writer_lock_def waits_for_space_def SENSOR_EVENT_QUEUE_CAPACITY_def)

lemma mSize_put [simp]: "mSize (put_event k x q) = mSize q" "mCapacity (put_event k x q) = mCapacity q"
  by (simp_all add: put_event_def)

lemma poller_ok_set: "poller_ok p w qs \<Longrightarrow> mSize q = mSize (qs ! i) \<Longrightarrow> poller_ok p w (qs[i := q])"
  by (cases p; cases "i < length qs") (auto simp: nth_list_update)

lemma poller_ok_wake: "poller_ok p w qs \<Longrightarrow> poller_ok (if w then wake_poller p else p) w qs'"
  by (cases p) (auto simp: wake_poller_def)

lemma in_region_take: "in_region q r xs \<Longrightarrow> in_region q r (take n xs)"
  by (auto simp: in_region_def)

lemma mark_takes: "ring_ok q \<Longrightarrow> in_region q r xs \<Longrightarrow> n \<le> length xs \<Longrightarrow>
    ring_ok (markAsWritten n q) \<and> ring_val (markAsWritten n q) = ring_val q @ take n xs"
  using ring.commit_appends [of q r "take n xs"] in_region_take [of q r xs n] by (simp add: min_absorb2)

lemma inv_put:
  assumes inv: "mh_inv c h s" and i: "i < length (mh_writers s)" and w: "mh_writers s ! i = W_polling r xs" "length xs < snd r"
  shows "mh_inv c h (s\<lparr>mh_ctx := set_ring i (put_event (fst r + length xs) x (queues (mh_ctx s) ! i)) (mh_ctx s),
    mh_writers := (mh_writers s)[i := W_polling r (xs @ [x])]\<rparr>)"
proof -
  let ?q = "queues (mh_ctx s) ! i"
  have m: "mod_inv c h i ?q (W_polling r xs) (mh_written s ! i) (mh_read s)" and l: "i < length (queues (mh_ctx s))"
    using mh_inv_at [OF inv i] w by auto
  have "mod_inv c h i (put_event (fst r + length xs) x ?q) (W_polling r (xs @ [x])) (mh_written s ! i) (mh_read s)"
    using m ring.put_keeps [of ?q r xs x] w(2) by (simp add: mod_inv_def writer_ok_def)
  then show ?thesis
    by (rule mh_inv_writer [OF inv i, where wr = "mh_written s ! i"])
      (simp_all add: poller_ok_set [OF inv_poller [OF inv]])
qed

lemma inv_polled:
  assumes inv: "mh_inv c h s" and i: "i < length (mh_writers s)" and w: "mh_writers s ! i = W_polling r xs" "n \<le> int (length xs)"
  shows "mh_inv c h (writer_polled i n xs s)"
proof (cases "n \<le> 0")
  case True
  then show ?thesis
    using inv_lock [OF inv i, of W_lock] by (simp add: writer_polled_def writer_ok_def)
next
  case False
  let ?q = "queues (mh_ctx s) ! i"
  have m: "mod_inv c h i ?q (W_polling r xs) (mh_written s ! i) (mh_read s)"
    using mh_inv_at [OF inv i] w by auto
  have "mod_inv c h i (markAsWritten (nat n) ?q) W_lock (mh_written s ! i @ take (nat n) xs) (mh_read s)"
    using m mark_takes [of ?q r xs "nat n"] w(2)
    by (auto simp: mod_inv_def writer_ok_def markAsWritten_def simp flip: append_assoc)
  then show ?thesis
    by (rule mh_inv_writer [OF inv i]) (use False poller_ok_wake [OF inv_poller [OF inv]] in \<open>simp_all add: writer_polled_def Let_def\<close>)
qed

lemma nth_wake: "i < length l \<Longrightarrow> wake_writers ws l ! i = (if i \<in> set ws \<and> l ! i = W_asleep then W_lock else l ! i)"
  by (simp add: wake_writers_def nth_enumerate_eq)

lemma length_wake [simp]: "length (wake_writers ws l) = length l"
  by (simp add: wake_writers_def)

text \<open>A pass of poll.\<close>

lemma inv_pass:
  assumes inv: "mh_inv c h s" and m: "m \<le> int (length d)"
  shows "\<exists>s'. poller_runs c h m d s = Inr s' \<and> mh_inv c h s'"
proof -
  let ?n = "length (queues (mh_ctx s))"
  obtain p where p: "poll_pass c h m d (mh_ctx s) = Inr p" and si: "scan_inv c h m (mh_ctx s) (length d) p"
    and z: "0 < m \<longrightarrow> eventsRead p = 0 \<longrightarrow> (\<forall>j < ?n. mSize (queues (p_ctx p) ! j) = 0)"
    using pass_keeps [OF mh_inv_ctx [OF inv] m, of c h] by (elim exE conjE)
  have n: "length (queues (p_ctx p)) = ?n" "length (p_data p) = length d"
    using si by (auto simp: scan_inv_def)
  define s' where "s' = s\<lparr>mh_ctx := p_ctx p, mh_writers := wake_writers (p_woken p) (mh_writers s),
         mh_read := mh_read s @ p_log p, waiting_for_data := (eventsRead p = 0),
         mh_poller := (if eventsRead p = 0 then P_asleep m (p_data p) else P_idle)\<rparr>"
  have "mod_inv c h i (queues (p_ctx p) ! i) (wake_writers (p_woken p) (mh_writers s) ! i) (mh_written s ! i)
      (mh_read s @ p_log p)" if i: "i < ?n" for i
  proof -
    have mi: "mod_inv c h i (queues (mh_ctx s) ! i) (mh_writers s ! i) (mh_written s ! i) (mh_read s)"
      using inv i by (simp add: mh_inv_def)
    have q: "ring_ok (queues (p_ctx p) ! i)" "mCapacity (queues (p_ctx p) ! i) = mCapacity (queues (mh_ctx s) ! i)"
        "keeps_regions (queues (mh_ctx s) ! i) (queues (p_ctx p) ! i)"
        "read_of i (p_log p) @ upstream c h i (ring_val (queues (p_ctx p) ! i)) =
           upstream c h i (ring_val (queues (mh_ctx s) ! i))"
        "i \<notin> set (p_woken p) \<Longrightarrow> mSize (queues (mh_ctx s) ! i) = mCapacity (queues (mh_ctx s) ! i) \<Longrightarrow>
           queues (p_ctx p) ! i = queues (mh_ctx s) ! i"
      using si i n by (auto simp: scan_inv_def ctx_ok_def list_all_length)
    have "writer_ok (queues (p_ctx p) ! i) (wake_writers (p_woken p) (mh_writers s) ! i)"
      using mi q(3,5) i inv by (auto simp: mod_inv_def writer_ok_def nth_wake mh_inv_def keeps_regions_def split: writer.splits)
    then show ?thesis
      using mi q by (simp add: mod_inv_def)
  qed
  moreover have "poller_ok (mh_poller s') (waiting_for_data s') (queues (mh_ctx s'))"
    using m n z by (simp add: s'_def)
  moreover have "queues (p_ctx p) = [] \<or> nextReadIndex (p_ctx p) < length (queues (p_ctx p))"
    using si unfolding scan_inv_def ctx_ok_def by blast
  ultimately have "mh_inv c h s'"
    using inv n by (simp add: mh_inv_def s'_def)
  then show ?thesis
    using p by (simp add: poller_runs_def s'_def)
qed

lemma step_inv:
  assumes inv: "mh_inv c h s" and st: "mh_step c h s a = Some r"
  shows "\<exists>s'. r = Inr s' \<and> mh_inv c h s'"
proof (cases a)
  case (Writer_lock i)
  then show ?thesis
    using st inv_lock [OF inv, of i] writer_lock_ok mh_inv_at [OF inv, of i] by (auto simp: mod_inv_def split: if_splits)
next
  case (Writer_put i x)
  then show ?thesis
    using st inv_put [OF inv, of i] by (auto split: if_splits writer.splits)
next
  case (Writer_polled i n)
  then show ?thesis
    using st inv_polled [OF inv, of i] by (auto split: if_splits writer.splits)
next
  case (Writer_spurious i)
  then show ?thesis
    using st inv_lock [OF inv, of i W_lock] by (auto simp: writer_ok_def split: if_splits)
next
  case (Poll_called m d)
  then show ?thesis
    using st inv by (auto simp: mh_inv_def split: if_splits)
next
  case Poll_runs
  then show ?thesis
    using st inv_pass [OF inv] inv_poller [OF inv] by (cases "mh_poller s") auto
next
  case Poll_spurious
  then show ?thesis
    using st inv by (cases "mh_poller s") (auto simp: mh_inv_def)
qed

text \<open>The context after the device was opened.\<close>

definition opened_ctx :: "'p sensors_poll_context_t \<Rightarrow> bool" where
  "opened_ctx ctx = (nextReadIndex ctx = 0 \<and> length (sub_hw_devices ctx) = length (queues ctx) \<and>
     (\<forall>q \<in> set (queues ctx). mStart q = 0 \<and> mSize q = 0 \<and> mCapacity q = SENSOR_EVENT_QUEUE_CAPACITY \<and>
        length (mData q) = mCapacity q))"

lemma opened_add: "opened_ctx ctx \<Longrightarrow> opened_ctx (addSubHwDevice junk d ctx)"
  by (auto simp: opened_ctx_def addSubHwDevice_def SensorEventQueue_def)

lemma open_modules_opened: "opened_ctx ctx \<Longrightarrow> opened_ctx (fst (open_modules junk f ms (ctx, vs)))"
proof (induction ms arbitrary: ctx vs)
  case (Cons m ms)
  then show ?case
    using opened_add [OF Cons.prems] by (cases "f m") simp
qed simp

lemma open_opened: "opened_ctx (fst (open_sensors paths load f junk g))"
proof -
  have "opened_ctx \<lparr>sub_hw_devices = [], queues = [], nextReadIndex = 0\<rparr>"
    by (simp add: opened_ctx_def)
  then show ?thesis
    using open_modules_opened [of _ junk f] by (simp add: open_sensors_def Let_def split_beta)
qed

lemma start_inv:
  assumes o: "opened_ctx ctx"
  shows "mh_inv c h (mh_start ctx)"
proof -
  have "mod_inv c h i (queues ctx ! i) W_lock [] []" if "i < length (queues ctx)" for i
  proof -
    have "queues ctx ! i \<in> set (queues ctx)"
      using that by simp
    then have "ring_ok (queues ctx ! i)" "mSize (queues ctx ! i) = 0"
        "mCapacity (queues ctx ! i) = SENSOR_EVENT_QUEUE_CAPACITY"
      using o by (auto simp: opened_ctx_def ring_ok_def SENSOR_EVENT_QUEUE_CAPACITY_def)
    then show ?thesis
      by (simp add: mod_inv_def writer_ok_def ring_val_def)
  qed
  moreover have "nextReadIndex ctx = 0"
    using o by (simp add: opened_ctx_def)
  ultimately show ?thesis
    by (simp add: mh_inv_def mh_start_def)
qed

lemma reach_inv: "mh_reach c h ctx s \<Longrightarrow> opened_ctx ctx \<Longrightarrow> mh_inv c h s"
  by (induction rule: mh_reach.induct) (auto simp: start_inv dest: step_inv)

section \<open>The handles that are given out\<close>

text \<open>After the full handles \<open>ps\<close> were registered, in this order.\<close>

definition handles_inv :: "FullHandle list \<Rightarrow> handle_maps \<Rightarrow> bool" where
  "handles_inv ps h = (next_global_handle h = int (length ps) + 1 \<and>
     (\<forall>k < length ps. global_to_full h (int k + 1) = Some (ps ! k)) \<and>
     (\<forall>f \<in> set ps. full_to_global h f \<noteq> None) \<and>
     (\<forall>f g. full_to_global h f = Some g \<longrightarrow> (\<exists>k < length ps. g = int k + 1 \<and> ps ! k = f)))"

lemma assign_inv: "handles_inv ps h \<Longrightarrow> assign_global_handle i l h = (g, h') \<Longrightarrow>
    handles_inv (ps @ [FullHandle i l]) h' \<and> g = int (length ps) + 1"
  by (auto simp: handles_inv_def assign_global_handle_def Let_def nth_append less_Suc_eq split: if_splits) fastforce+

definition copied :: "FullHandle list \<Rightarrow> nat \<times> hal_sensor_t list \<times> handle_maps \<Rightarrow> bool" where
  "copied ps st = (case st of (k, out, h) \<Rightarrow> handles_inv ps h \<and> k = length ps \<and> k \<le> length out \<and>
     (\<forall>i < k. s_handle (out ! i) = int i + 1))"

lemma fix_handle [simp]: "s_handle (fix_sensor_flags c v s) = s_handle s"
  by (simp add: fix_sensor_flags_def)

lemma copied_next: "copied ps (k, out, h) \<Longrightarrow> k < length out \<Longrightarrow> assign_global_handle mi (s_handle s) h = (g, h') \<Longrightarrow>
    copied (ps @ [FullHandle mi (s_handle s)]) (k + 1, out[k := fix_sensor_flags c v (s\<lparr>s_handle := g\<rparr>)], h')"
  using assign_inv [of ps h mi "s_handle s" g h'] by (auto simp: copied_def nth_list_update less_Suc_eq)

text \<open>The sensors of one module: all of them are copied when its version is known and there is room.\<close>

lemma copy_sensors_ok:
  assumes "copied ps (k, out, h)" and "k + length ss \<le> length out" and "vs m = Some v"
  shows "\<exists>k' out' h'. copy_sensors c (Some vs) m mi ss (k, out, h) = Inr (k', out', h') \<and> length out' = length out \<and>
    copied (ps @ map (\<lambda>s. FullHandle mi (s_handle s)) ss) (k', out', h')"
  using assms
proof (induction ss arbitrary: ps k out h)
  case (Cons s ss)
  obtain g h' where a: "assign_global_handle mi (s_handle s) h = (g, h')"
    by fastforce
  show ?case
    using Cons.IH [OF copied_next [OF Cons.prems(1) _ a, of c v]] Cons.prems a by simp
qed simp

text \<open>The sensors in the order of the list, with the index of their module and the module.\<close>

fun listed :: "(nat \<Rightarrow> hal_sensor_t list) \<Rightarrow> nat \<Rightarrow> nat list \<Rightarrow> (nat \<times> nat \<times> hal_sensor_t) list" where
  "listed sensors i [] = []"
| "listed sensors i (m # ms) = map (\<lambda>s. (i, m, s)) (sensors m) @ listed sensors (Suc i) ms"

definition full_of :: "nat \<times> nat \<times> hal_sensor_t \<Rightarrow> FullHandle" where
  "full_of = (\<lambda>(i, m, s). FullHandle (int i) (s_handle s))"

lemma full_of_simp [simp]: "full_of (i, m, s) = FullHandle (int i) (s_handle s)"
  by (simp add: full_of_def)

lemma length_listed: "length (listed sensors i ms) = sum_list (map (\<lambda>m. length (sensors m)) ms)"
  by (induction ms arbitrary: i) simp_all

lemma listed_member: "(i, m, s) \<in> set (listed sensors n ms) \<Longrightarrow> n \<le> i \<and> i < n + length ms \<and> ms ! (i - n) = m \<and> s \<in> set (sensors m)"
proof (induction sensors n ms rule: listed.induct)
  case (2 sensors n a ms)
  show ?case
  proof (cases "(i, m, s) \<in> set (listed sensors (Suc n) ms)")
    case True
    then have "Suc n \<le> i \<and> i < Suc n + length ms \<and> ms ! (i - Suc n) = m \<and> s \<in> set (sensors m)"
      by (rule 2(1))
    then show ?thesis
      by (auto simp: nth_Cons')
  next
    case False
    then show ?thesis
      using 2(2) by auto
  qed
qed simp

text \<open>A module that has sensors and no version ends the loop.\<close>

lemma copy_sensors_fails: "k < length out \<Longrightarrow> ss \<noteq> [] \<Longrightarrow> vs m = None \<Longrightarrow>
    copy_sensors c (Some vs) m mi ss (k, out, h) = Inl Out_of_range"
  by (cases ss) (auto split: prod.split)

lemma copy_modules_ok:
  assumes "copied ps (k, out, h)" and "k + length (listed sensors i ms) \<le> length out"
  shows "if \<exists>m \<in> set ms. sensors m \<noteq> [] \<and> vs m = None
    then copy_modules c (Some vs) sensors (int i) ms (k, out, h) = Inl Out_of_range
    else \<exists>k' out' h'. copy_modules c (Some vs) sensors (int i) ms (k, out, h) = Inr (k', out', h') \<and> length out' = length out \<and>
      copied (ps @ map full_of (listed sensors i ms)) (k', out', h')"
  using assms
proof (induction ms arbitrary: ps k out h i)
  case (Cons m ms)
  show ?case
  proof (cases "sensors m = [] \<or> vs m \<noteq> None")
    case True
    then obtain k1 out1 h1 where c1: "copy_sensors c (Some vs) m (int i) (sensors m) (k, out, h) = Inr (k1, out1, h1)"
        "length out1 = length out" "copied (ps @ map (\<lambda>s. FullHandle (int i) (s_handle s)) (sensors m)) (k1, out1, h1)"
      using Cons.prems copy_sensors_ok [OF Cons.prems(1), of "sensors m" vs m _ c "int i"] by (cases "sensors m = []") auto
    have "k1 + length (listed sensors (Suc i) ms) \<le> length out1"
      using c1 Cons.prems by (auto simp: copied_def)
    note rest = Cons.IH [OF c1(3) this]
    have "copy_modules c (Some vs) sensors (int i) (m # ms) (k, out, h) =
        copy_modules c (Some vs) sensors (int (Suc i)) ms (k1, out1, h1)"
      using c1 by (simp add: add.commute)
    moreover have "(\<exists>x \<in> set (m # ms). sensors x \<noteq> [] \<and> vs x = None) = (\<exists>x \<in> set ms. sensors x \<noteq> [] \<and> vs x = None)"
      using True by auto
    moreover have "ps @ map full_of (listed sensors i (m # ms)) =
        (ps @ map (\<lambda>s. FullHandle (int i) (s_handle s)) (sensors m)) @ map full_of (listed sensors (Suc i) ms)"
      by (simp add: comp_def)
    ultimately show ?thesis
      using rest c1(2) by (simp only:)
  next
    case False
    then have "k < length out"
      using Cons.prems(2) by (cases "sensors m") auto
    then show ?thesis
      using False copy_sensors_fails [of k out "sensors m" vs m] by auto
  qed
qed simp

text \<open>The versions that opening the device leaves.\<close>

lemma open_modules_versions: "snd (open_modules junk f ms (ctx, vs)) m = None \<longleftrightarrow> vs m = None \<and> \<not> (m \<in> set ms \<and> fst (f m) = 0)"
proof (induction ms arbitrary: ctx vs)
  case (Cons a ms)
  then show ?case
    by (cases "f a") auto
qed simp

lemma open_modules_devices: "\<forall>m \<in> set ms. fst (f m) = 0 \<Longrightarrow>
    sub_hw_devices (fst (open_modules junk f ms (ctx, vs))) = sub_hw_devices ctx @ map (\<lambda>m. snd (f m)) ms"
proof (induction ms arbitrary: ctx vs)
  case (Cons a ms)
  then show ?case
    by (cases "f a") (auto simp: addSubHwDevice_def)
qed simp

text \<open>Opening the device and asking for the list.\<close>

lemma open_list:
  assumes o: "open_sensors paths load f junk mh_init = (ctx, g1)"
  shows "let ms = List.map_filter load paths; r = module__get_sensors_list c paths load sensors blank g1
    in if \<exists>m \<in> set ms. sensors m \<noteq> [] \<and> fst (f m) \<noteq> 0 then r = Inl Out_of_range
       else \<exists>l g2. r = Inr (int (length l), Some l, g2) \<and> length l = length (listed sensors 0 ms) \<and>
         copied (map full_of (listed sensors 0 ms)) (length l, l, g_handles g2)"
proof -
  let ?ms = "List.map_filter load paths" and ?c0 = "\<lparr>sub_hw_devices = [], queues = [], nextReadIndex = 0\<rparr>"
  define vs where "vs = snd (open_modules junk f ?ms (?c0, Map.empty))"
  have g1: "sub_hw_modules g1 = Some ?ms" "sub_hw_versions g1 = Some vs" "g_handles g1 = no_handles" "global_sensors_list g1 = None"
    using o by (auto simp: open_sensors_def lazy_init_modules_def mh_init_def vs_def Let_def split: prod.splits)
  define N where "N = length (listed sensors 0 ?ms)"
  have "copied [] (0, replicate N blank, no_handles)"
    by (simp add: copied_def handles_inv_def no_handles_def)
  note res = copy_modules_ok [OF this, of sensors 0 ?ms vs c]
  have v: "(\<exists>m \<in> set ?ms. sensors m \<noteq> [] \<and> vs m = None) = (\<exists>m \<in> set ?ms. sensors m \<noteq> [] \<and> fst (f m) \<noteq> 0)"
    by (auto simp: vs_def open_modules_versions)
  have "sum_list (map (\<lambda>m. length (sensors m)) ?ms) = N"
    by (simp add: N_def length_listed)
  then have get: "module__get_sensors_list c paths load sensors blank g1 =
      (case copy_modules c (Some vs) sensors 0 ?ms (0, replicate N blank, no_handles) of Inl e \<Rightarrow> Inl e
       | Inr (k, out, h) \<Rightarrow> Inr (int N, Some out, g1\<lparr>global_sensors_count := int N, global_sensors_list := Some out,
           g_handles := h, sub_hw_versions := None\<rparr>))"
    using g1 by (simp add: module__get_sensors_list_def lazy_init_sensors_list_def lazy_init_modules_def Let_def
        split: sum.splits prod.splits)
  show ?thesis
  proof (cases "\<exists>m \<in> set ?ms. sensors m \<noteq> [] \<and> fst (f m) \<noteq> 0")
    case True
    then show ?thesis
      using res v get by (simp add: N_def Let_def)
  next
    case False
    then obtain k out h where r: "copy_modules c (Some vs) sensors 0 ?ms (0, replicate N blank, no_handles) = Inr (k, out, h)"
        "length out = N" "copied (map full_of (listed sensors 0 ?ms)) (k, out, h)"
      using res v by (auto simp: N_def)
    then have "k = N"
      by (simp add: copied_def N_def)
    then show ?thesis
      using r get False by (auto simp: Let_def N_def)
  qed
qed

section \<open>What the multi-HAL does\<close>

text \<open>A run of two modules: the constants of the header, two sensors of one module and one of the other.\<close>

definition demo_h :: sensors_h where
  "demo_h = \<lparr>SENSOR_TYPE_META_DATA = 0, SENSOR_TYPE_PROXIMITY = 8, SENSOR_TYPE_TILT_DETECTOR = 22, WAKE_UP_ON_CHANGE = 3,
     API_VERSION_1_1 = 11, API_VERSION_1_3 = 13, API_VERSION_1_4 = 14\<rparr>"

definition demo_module_sensors :: "nat \<Rightarrow> hal_sensor_t list" where
  "demo_module_sensors m = (let s = \<lparr>s_handle = 5, s_type = 1, s_flags = 0, s_minDelay = 10, s_maxDelay = 100, s_rest = 0\<rparr>
     in if m = 0 then [s, s\<lparr>s_handle := 6\<rparr>] else [s\<lparr>s_minDelay := 7\<rparr>])"

definition demo_open :: "nat \<Rightarrow> int \<times> hw_device" where
  "demo_open m = (0, \<lparr>dev_id = m, dev_version = 10 + 4 * int m\<rparr>)"

definition demo_event :: "int \<Rightarrow> nat \<Rightarrow> nat sensors_event_t" where
  "demo_event l x = \<lparr>ev_sensor = l, ev_type = 1, meta_sensor = 0, payload = x\<rparr>"

definition demo_load :: "string \<Rightarrow> nat option" where
  "demo_load s = (case s of [] \<Rightarrow> None | ch # cs \<Rightarrow> Some (if ch = CHR ''a'' then 0 else 1))"

abbreviation demo_opened :: "nat sensors_poll_context_t \<times> mh_globals" where
  "demo_opened \<equiv> open_sensors [''a'', [], ''b''] demo_load demo_open (demo_event 0 0) mh_init"

abbreviation demo_listed :: "mh_error + (int \<times> hal_sensor_t list option \<times> mh_globals)" where
  "demo_listed \<equiv> module__get_sensors_list demo_h [''a'', [], ''b''] demo_load demo_module_sensors (hd (demo_module_sensors 0)) (snd demo_opened)"

text \<open>The state after the writer of module 1 read two events, one of them of an unknown sensor, and a poll.\<close>

definition demo_handles :: handle_maps where
  "demo_handles = g_handles (snd (snd (projr demo_listed)))"

definition demo_run :: "nat sensors_poll_context_t \<Rightarrow> nat mh_act list \<Rightarrow> nat mh_state option" where
  "demo_run ctx as = mh_run demo_h demo_handles as (mh_start ctx)"

definition demo_acts :: "nat mh_act list" where
  "demo_acts = [Writer_lock 1, Writer_put 1 (demo_event 5 1), Writer_put 1 (demo_event 9 2), Writer_put 1 (demo_event 5 3),
     Writer_polled 1 2, Poll_called 2 [demo_event 0 0, demo_event 0 0], Poll_runs]"

lemma demo_acts_run: "demo_run (fst demo_opened) demo_acts \<noteq> None"
  by code_simp

lemma demo_reach: "mh_reach demo_h demo_handles (fst demo_opened) (the (demo_run (fst demo_opened) demo_acts))"
  using demo_acts_run run_reach [OF _ mh_reach.start, of demo_h demo_handles demo_acts "fst demo_opened"]
  by (cases "demo_run (fst demo_opened) demo_acts") (auto simp: demo_run_def)

text \<open>C27. multi_hal_fifo. In every interleaving of the modules' writers and the polling thread, after the device was opened,
  the events that poll returned of a module and those that are still queued for it are the events the module wrote, in order,
  each once: with the global handle in place of the module's, and without those of sensors that are not known. A writer fills
  its region of the queue without the lock, while events are taken from the queue.\<close>

theorem multi_hal_fifo:
  assumes "mh_reach c h (fst (open_sensors paths load f junk g)) s" and "i < length (queues (mh_ctx s))"
  shows "read_of i (mh_read s) @ upstream c h i (ring_val (queues (mh_ctx s) ! i)) = upstream c h i (mh_written s ! i)"
  using reach_inv [OF assms(1) open_opened] assms(2) by (simp add: mh_inv_def mod_inv_def)

lemma demo_state: "1 < length (queues (mh_ctx (the (demo_run (fst demo_opened) demo_acts))))"
  by code_simp

lemma multi_hal_fifo_witness:
  "let s = the (demo_run (fst demo_opened) demo_acts) in read_of 1 (mh_read s) @
     upstream demo_h demo_handles 1 (ring_val (queues (mh_ctx s) ! 1)) = upstream demo_h demo_handles 1 (mh_written s ! 1)"
  using multi_hal_fifo [OF demo_reach demo_state] by (simp add: Let_def)

text \<open>C28. poll_sleeps_only_when_empty. A poll that has room for an event sleeps only while the queue of every module is empty and
  no writer sleeps: no wake-up is lost, and the polling thread and the writers never wait for each other.\<close>

theorem poll_sleeps_only_when_empty:
  assumes "mh_reach c h (fst (open_sensors paths load f junk g)) s" and "mh_poller s = P_asleep m d" and "0 < m"
    and "i < length (queues (mh_ctx s))"
  shows "getSize (queues (mh_ctx s) ! i) = 0 \<and> mh_writers s ! i \<noteq> W_asleep"
  using reach_inv [OF assms(1) open_opened] assms(2-)
  by (auto simp: mh_inv_def mod_inv_def writer_ok_def getSize_def SENSOR_EVENT_QUEUE_CAPACITY_def)

definition demo_sleep :: "nat mh_act list" where
  "demo_sleep = [Writer_lock 0, Writer_put 0 (demo_event 9 1), Writer_polled 0 1, Poll_called 1 [demo_event 0 0], Poll_runs]"

lemma demo_sleeps: "demo_run (fst demo_opened) demo_sleep \<noteq> None"
  by code_simp

lemma demo_sleep_reach: "mh_reach demo_h demo_handles (fst demo_opened) (the (demo_run (fst demo_opened) demo_sleep))"
  using demo_sleeps run_reach [OF _ mh_reach.start, of demo_h demo_handles demo_sleep "fst demo_opened"]
  by (cases "demo_run (fst demo_opened) demo_sleep") (auto simp: demo_run_def)

lemma demo_sleep_state: "mh_poller (the (demo_run (fst demo_opened) demo_sleep)) = P_asleep 1 [demo_event (-1) 1]"
    "0 < length (queues (mh_ctx (the (demo_run (fst demo_opened) demo_sleep))))"
  by code_simp+

lemma poll_sleeps_only_when_empty_witness:
  "getSize (queues (mh_ctx (the (demo_run (fst demo_opened) demo_sleep))) ! 0) = 0 \<and>
   mh_writers (the (demo_run (fst demo_opened) demo_sleep)) ! 0 \<noteq> W_asleep"
  by (rule poll_sleeps_only_when_empty [OF demo_sleep_reach demo_sleep_state(1) _ demo_sleep_state(2)]) simp

text \<open>Whenever poll runs, a pass of its loops ends, reads no queue that does not exist, and writes no
  entry outside the client's buffer; it counts at most the requested number of events, and these are the first entries of the
  buffer.\<close>

theorem poll_returns_in_bounds:
  assumes "mh_reach c h (fst (open_sensors paths load f junk g)) s" and "mh_poller s = P_ready m d" and "0 \<le> m"
  shows "\<exists>p. poll_pass c h m d (mh_ctx s) = Inr p \<and> int (eventsRead p) \<le> m \<and> length (p_data p) = length d \<and>
    take (eventsRead p) (p_data p) = map snd (p_log p)"
proof -
  have inv: "mh_inv c h s"
    by (rule reach_inv [OF assms(1) open_opened])
  then have "m \<le> int (length d)"
    using inv_poller [OF inv] assms(2) by simp
  from pass_keeps [OF mh_inv_ctx [OF inv] this] show ?thesis
    using assms(3) unfolding scan_inv_def by blast
qed

definition demo_called :: "nat mh_act list" where
  "demo_called = [Writer_lock 1, Writer_put 1 (demo_event 5 1), Writer_polled 1 1, Poll_called 1 [demo_event 0 0]]"

lemma demo_called_runs: "demo_run (fst demo_opened) demo_called \<noteq> None"
  by code_simp

lemma demo_called_reach: "mh_reach demo_h demo_handles (fst demo_opened) (the (demo_run (fst demo_opened) demo_called))"
  using demo_called_runs run_reach [OF _ mh_reach.start, of demo_h demo_handles demo_called "fst demo_opened"]
  by (cases "demo_run (fst demo_opened) demo_called") (auto simp: demo_run_def)

lemma demo_called_state: "mh_poller (the (demo_run (fst demo_opened) demo_called)) = P_ready 1 [demo_event 0 0]"
  by code_simp

lemma poll_returns_in_bounds_witness:
  "\<exists>p. poll_pass demo_h demo_handles 1 [demo_event 0 0] (mh_ctx (the (demo_run (fst demo_opened) demo_called))) = Inr p \<and>
     int (eventsRead p) \<le> 1 \<and> length (p_data p) = length [demo_event 0 0] \<and> take (eventsRead p) (p_data p) = map snd (p_log p)"
  by (rule poll_returns_in_bounds [OF demo_called_reach demo_called_state]) simp

text \<open>The list and the maps after a module list without failures.\<close>

lemma listed_handle:
  assumes "copied (map full_of (listed sensors 0 ms)) (length l, l, h)" and "k < length l" and "listed sensors 0 ms ! k = (i, m, s)"
  shows "s_handle (l ! k) = int k + 1 \<and> global_to_full h (int k + 1) = Some (FullHandle (int i) (s_handle s))"
  using assms by (auto simp: copied_def handles_inv_def)

lemma listed_index: "k < length (listed sensors 0 ms) \<Longrightarrow> listed sensors 0 ms ! k = (i, m, s) \<Longrightarrow> i < length ms \<and> ms ! i = m"
  using listed_member [of i m s sensors 0 ms] nth_mem [of k "listed sensors 0 ms"] by auto

lemma opened_devices: "open_sensors paths load f junk mh_init = (ctx, g1) \<Longrightarrow> \<forall>m \<in> set (List.map_filter load paths). fst (f m) = 0 \<Longrightarrow>
    sub_hw_devices ctx = map (\<lambda>m. snd (f m)) (List.map_filter load paths)"
  using open_modules_devices [of "List.map_filter load paths" f junk "\<lparr>sub_hw_devices = [], queues = [], nextReadIndex = 0\<rparr>" Map.empty]
  by (auto simp: open_sensors_def lazy_init_modules_def mh_init_def Let_def split: prod.splits)

lemma list_copied:
  assumes "open_sensors paths load f junk mh_init = (ctx, g1)"
    and "module__get_sensors_list c paths load sensors blank g1 = Inr (n, Some l, g2)"
  shows "copied (map full_of (listed sensors 0 (List.map_filter load paths))) (length l, l, g_handles g2)"
    and "length l = length (listed sensors 0 (List.map_filter load paths))"
  using open_list [OF assms(1), where sensors = sensors and c = c and blank = blank] assms(2) by (auto simp: Let_def split: if_splits)



text \<open>C40. list_fails_iff_module_failed. After the multi-HAL was opened, asking it for the sensors ends the process exactly when a
  module that has sensors could not be opened; otherwise the list has all sensors of all modules.\<close>

theorem list_fails_iff_module_failed:
  assumes "open_sensors paths load f junk mh_init = (ctx, g1)"
  shows "module__get_sensors_list c paths load sensors blank g1 = Inl Out_of_range \<longleftrightarrow>
    (\<exists>m \<in> set (List.map_filter load paths). sensors m \<noteq> [] \<and> fst (f m) \<noteq> 0)"
  using open_list [OF assms, where sensors = sensors and c = c and blank = blank] by (auto simp: Let_def split: if_splits)

lemma demo_list: "demo_listed = Inr (int (length (the (fst (snd (projr demo_listed))))), Some (the (fst (snd (projr demo_listed)))),
    snd (snd (projr demo_listed)))"
  using open_list [OF prod.collapse [symmetric], where paths = "[''a'', [], ''b'']" and load = demo_load and f = demo_open
      and junk = "demo_event 0 0" and sensors = demo_module_sensors and c = demo_h and blank = "hd (demo_module_sensors 0)"]
  by (auto simp: Let_def demo_open_def split: if_splits)

lemma demo_modules: "List.map_filter demo_load [''a'', [], ''b''] = [0, 1]"
  by code_simp

lemma demo_listed_sensors: "listed demo_module_sensors 0 [0, 1] =
    [(0, 0, demo_module_sensors 0 ! 0), (0, 0, demo_module_sensors 0 ! 1), (1, 1, demo_module_sensors 1 ! 0)]"
  by (simp add: demo_module_sensors_def Let_def)

lemma demo_length: "length (the (fst (snd (projr demo_listed)))) = 3"
  using list_copied(2) [OF prod.collapse [symmetric] demo_list] by (simp only: demo_modules demo_listed_sensors) simp



text \<open>The first module has sensors and cannot be opened.\<close>

lemma list_fails_iff_module_failed_witness:
  "module__get_sensors_list demo_h [''a'', [], ''b''] demo_load demo_module_sensors (hd (demo_module_sensors 0))
      (snd (open_sensors [''a'', [], ''b''] demo_load (\<lambda>m. if m = 0 then (-5, snd (demo_open 0)) else demo_open m) (demo_event 0 0)
        mh_init)) = Inl Out_of_range"
  by (rule iffD2 [OF list_fails_iff_module_failed [OF prod.collapse [symmetric]]])
    (simp only: demo_modules, simp add: demo_module_sensors_def Let_def)

end
