(* ===== verification/MultiHalFaults.thy ===== *)
theory MultiHalFaults
  imports MultiHalProps
begin

text \<open>
  Where the sensors multi-HAL does not do what its interface says: handles and limits that belong to another sensor, a module
  that cannot be opened, calls before the device is opened, and a poll that has no room.
\<close>

text \<open>A device without batching gets the global handle, and its period is kept within the limits of the entry of the list whose
  index is the module's.\<close>

lemma old_device_gets_global_handle:
  assumes "get_v1_device_by_handle h ctx g = Some d" and "get_v0_device_by_handle h ctx g = Some d"
    and "0 \<le> get_local_handle h g" and "dev_version d < API_VERSION_1_1 c"
    and "0 \<le> period" and "0 \<le> timeout" and "0 \<le> get_module_index h g" and "get_module_index h g < int (length l)"
  shows "batch c h (Some l) ctx answer g fl period timeout =
    (let call = Set_delay d g (clamp_period (l ! nat (get_module_index h g)) period) in Inr (answer call, [call]))"
  using assms by (simp add: batch_def halIsAPILevelCompliant_def get_device_version_by_handle_def Let_def)

text \<open>So a delay for the second sensor of a module is set under the handle that this module has for another one, or none.\<close>

lemma batch_differs_from_setDelay:
  assumes "get_v1_device_by_handle h ctx g = Some d" and "get_v0_device_by_handle h ctx g = Some d"
    and "0 \<le> get_local_handle h g" and "dev_version d < API_VERSION_1_1 c"
    and "0 \<le> period" and "0 \<le> timeout" and "0 \<le> get_module_index h g" and "get_module_index h g < int (length l)"
    and "get_local_handle h g \<noteq> g"
  shows "\<exists>call. batch c h (Some l) ctx answer g fl period timeout = Inr (answer call, [call]) \<and>
    snd (setDelay h ctx answer g ns) \<noteq> [call]"
  using old_device_gets_global_handle [OF assms(1-8)] assms(2,3,9) by (simp add: setDelay_def Let_def)

text \<open>Data is injected with the multi-HAL's own device and the global handle.\<close>

lemma inject_passes_own_device:
  assumes "inject_sensor_data c h ctx answer dev e = (r, [call])"
  shows "\<exists>d. call = Inject d dev e"
  using assms by (auto simp: inject_sensor_data_def Let_def split: option.splits if_splits)

text \<open>A meta-data event of an unknown sensor is passed to the client, with sensor -1 inside.\<close>

lemma unknown_meta_event_passed:
  assumes "ev_type e = SENSOR_TYPE_META_DATA c" and "ev_sensor e = 0"
    and "full_to_global h (FullHandle (int i) (meta_sensor e)) = None"
  shows "upstream c h i [e] = [e\<lparr>meta_sensor := -1\<rparr>]"
  using assms by (simp add: copy_event_remap_handle_def get_global_handle_def Let_def)

text \<open>A poll that asks for no event waits again after every wake-up, whatever the queues hold.\<close>

lemma poll_without_room_waits:
  assumes "m \<le> 0"
  shows "\<exists>s'. poller_runs c h m d s = Inr s' \<and> mh_poller s' = P_asleep m d \<and> mh_ctx s' = mh_ctx s \<and> mh_read s' = mh_read s"
  using assms by (simp add: poller_runs_def poll_pass_def poll_scan.simps)

text \<open>The list is asked for before the device was opened.\<close>

lemma list_before_open_fails:
  assumes "List.map_filter load paths = m # ms" and "sensors m \<noteq> []"
  shows "module__get_sensors_list c paths load sensors blank mh_init = Inl Null_pointer"
  using assms by (cases "sensors m")
    (auto simp: module__get_sensors_list_def lazy_init_sensors_list_def lazy_init_modules_def mh_init_def Let_def
      assign_global_handle_def)

text \<open>
  A first module that has no sensors and cannot be opened: the devices and queues of the others move one place down, while
  the handles count it.
\<close>

lemma devices_shift:
  assumes o: "open_sensors paths load f junk mh_init = (ctx, g1)" and ms: "List.map_filter load paths = a # ms"
    and a: "fst (f a) \<noteq> 0" and all: "\<forall>m \<in> set ms. fst (f m) = 0"
  shows "sub_hw_devices ctx = map (\<lambda>m. snd (f m)) ms"
  using o ms a open_modules_devices [OF all, of junk "\<lparr>sub_hw_devices = [], queues = [], nextReadIndex = 0\<rparr>" Map.empty]
  by (auto simp: open_sensors_def lazy_init_modules_def mh_init_def Let_def split: prod.splits)

text \<open>Then a call with a handle of the list reaches the next module's device, or none.\<close>

lemma call_reaches_wrong_module:
  assumes o: "open_sensors paths load f junk mh_init = (ctx, g1)" and ms: "List.map_filter load paths = a # ms"
    and a: "fst (f a) \<noteq> 0" and all: "\<forall>m \<in> set ms. fst (f m) = 0"
    and gl: "module__get_sensors_list c paths load sensors blank g1 = Inr (n, Some l, g2)"
    and k: "k < length l" "listed sensors 0 (a # ms) ! k = (i, m, s)"
  shows "get_v0_device_by_handle (g_handles g2) ctx (s_handle (l ! k)) = (if i < length ms then Some (snd (f (ms ! i))) else None)"
proof -
  note cp = list_copied [OF o gl, unfolded ms]
  have "get_module_index (g_handles g2) (s_handle (l ! k)) = int i"
    using listed_handle [OF cp(1) k] by (simp add: get_module_index_def)
  then show ?thesis
    using devices_shift [OF o ms a all] by (simp add: get_v0_device_by_handle_def Let_def)
qed

text \<open>The last module has no device any more.\<close>

lemma last_module_unreachable:
  assumes "open_sensors paths load f junk mh_init = (ctx, g1)" and "List.map_filter load paths = a # ms"
    and "fst (f a) \<noteq> 0" and "\<forall>m \<in> set ms. fst (f m) = 0"
    and "module__get_sensors_list c paths load sensors blank g1 = Inr (n, Some l, g2)"
    and "k < length l" and "listed sensors 0 (a # ms) ! k = (length ms, m, s)"
  shows "activate (g_handles g2) ctx answer (s_handle (l ! k)) enabled = (- EINVAL, [])"
  using call_reaches_wrong_module [OF assms] by (simp add: activate_def Let_def)

end
