(* ===== verification/QomxCore.thy ===== *)
theory QomxCore
  imports Main
begin

text \<open>
  The OMX core of the image codecs (camera/mm-image-codec/qomx_core/qomx_core.c): a global table of components, each with its
  library and up to three instances. Clients initialise the core by count, get handles of instances and free them.

  A library that is loaded has a number; a function pointer is the number of the library that it points into. \<open>None\<close> as the
  result of a call is a crash: a null pointer, or code of a library that is not loaded any more.
\<close>

section \<open>The core\<close>

datatype OMX_ERRORTYPE = OMX_ErrorNone | OMX_ErrorUndefined | OMX_ErrorInsufficientResources | OMX_ErrorInvalidComponent
  | OMX_ErrorBadParameter | OMX_Other int

definition OMX_COMP_MAX_INSTANCES :: nat where
  "OMX_COMP_MAX_INSTANCES = 3"

definition OMX_COMP_MAX_NUM :: nat where
  "OMX_COMP_MAX_NUM = 3"

record omx_core_component_t =
  c_handle :: "nat option list"
  c_open :: bool
  lib_handle :: "nat option"
  get_instance :: "nat option"
  create_comp_func :: "nat option"
  comp_name :: "string option"
  lib_name :: "string option"

record omx_core_t =
  omx_component :: "omx_core_component_t list"
  comp_cnt :: nat

text \<open>The global variables, and the libraries that are loaded with the number of the next one.\<close>

record omx_core_state =
  g_omxcore :: "omx_core_t option"
  g_omxcore_cnt :: int
  loaded_libs :: "nat list"
  next_lib :: nat

definition omx_start :: omx_core_state where
  "omx_start = \<lparr>g_omxcore = None, g_omxcore_cnt = 0, loaded_libs = [], next_lib = 0\<rparr>"

definition g_comp_info :: "(string \<times> string) list" where
  "g_comp_info = [(''OMX.qcom.image.jpeg.encoder'', ''libqomx_jpegenc.so''),
     (''OMX.qcom.image.jpeg.decoder'', ''libqomx_jpegdec.so'')]"

text \<open>What the system, the library and the component answer: memory, loading, the two symbols, an instance, a component and the
  two clean-ups.\<close>

record omx_env =
  oe_alloc :: bool
  oe_dlopen :: bool
  oe_create_sym :: bool
  oe_get_sym :: bool
  oe_instance :: bool
  oe_create :: "nat option"
  oe_deinit :: OMX_ERRORTYPE
  oe_dlclose :: int

definition zero_component :: omx_core_component_t where
  "zero_component = \<lparr>c_handle = replicate OMX_COMP_MAX_INSTANCES None, c_open = False, lib_handle = None, get_instance = None,
     create_comp_func = None, comp_name = None, lib_name = None\<rparr>"

definition named_component :: "string \<times> string \<Rightarrow> omx_core_component_t" where
  "named_component nl = zero_component\<lparr>comp_name := Some (fst nl), lib_name := Some (snd nl)\<rparr>"

definition OMX_Init :: "omx_env \<Rightarrow> omx_core_state \<Rightarrow> OMX_ERRORTYPE \<times> omx_core_state" where
  "OMX_Init e s = (case g_omxcore s of
       Some c \<Rightarrow> (OMX_ErrorNone, s\<lparr>g_omxcore_cnt := g_omxcore_cnt s + 1\<rparr>)
     | None \<Rightarrow>
        let n = length g_comp_info
        in if OMX_COMP_MAX_NUM < n then (OMX_ErrorUndefined, s)
           else if oe_alloc e
           then (OMX_ErrorNone, s\<lparr>g_omxcore := Some \<lparr>omx_component = map named_component g_comp_info @
                  replicate (OMX_COMP_MAX_NUM - n) zero_component, comp_cnt = n\<rparr>, g_omxcore_cnt := g_omxcore_cnt s + 1\<rparr>)
           else (OMX_ErrorInsufficientResources, s))"

definition OMX_Deinit :: "omx_core_state \<Rightarrow> OMX_ERRORTYPE \<times> omx_core_state" where
  "OMX_Deinit s =
     (let s1 = (if g_omxcore_cnt s = 1 then s\<lparr>g_omxcore := None\<rparr> else s)
      in (OMX_ErrorNone, if g_omxcore_cnt s \<noteq> 0 then s1\<lparr>g_omxcore_cnt := g_omxcore_cnt s - 1\<rparr> else s1))"

text \<open>The first index of a list with a property.\<close>

fun first_index :: "('a \<Rightarrow> bool) \<Rightarrow> 'a list \<Rightarrow> nat option" where
  "first_index p [] = None"
| "first_index p (x # xs) = (if p x then Some 0 else map_option Suc (first_index p xs))"

definition get_comp_from_list :: "string option \<Rightarrow> omx_core_t \<Rightarrow> nat option" where
  "get_comp_from_list nm c = (case nm of None \<Rightarrow> None
     | Some n \<Rightarrow> first_index (\<lambda>k. comp_name k = Some n) (take (comp_cnt c) (omx_component c)))"

definition get_free_inst_idx :: "omx_core_component_t \<Rightarrow> nat option" where
  "get_free_inst_idx k = first_index (\<lambda>h. h = None) (take OMX_COMP_MAX_INSTANCES (c_handle k))"

definition put_component :: "nat \<Rightarrow> omx_core_component_t \<Rightarrow> omx_core_state \<Rightarrow> omx_core_state" where
  "put_component i k s = s\<lparr>g_omxcore := map_option (\<lambda>c. c\<lparr>omx_component := (omx_component c)[i := k]\<rparr>) (g_omxcore s)\<rparr>"

text \<open>A call through a function pointer needs the code.\<close>

definition callable :: "nat option \<Rightarrow> omx_core_state \<Rightarrow> bool" where
  "callable f s = (case f of None \<Rightarrow> False | Some l \<Rightarrow> l \<in> set (loaded_libs s))"

text \<open>The label \<open>error\<close>; the library is closed when this call loaded it.\<close>

definition get_handle_error :: "bool \<Rightarrow> nat \<Rightarrow> omx_core_component_t \<Rightarrow> OMX_ERRORTYPE \<Rightarrow> omx_core_state \<Rightarrow>
    OMX_ERRORTYPE \<times> nat option option \<times> omx_core_state" where
  "get_handle_error close_handle i k rc s =
     (if close_handle
      then (rc, Some None, put_component i (k\<lparr>lib_handle := None\<rparr>)
        (s\<lparr>loaded_libs := filter (\<lambda>l. Some l \<noteq> lib_handle k) (loaded_libs s)\<rparr>))
      else (rc, Some None, put_component i k s))"

text \<open>From the instance on.\<close>

definition make_instance :: "omx_env \<Rightarrow> bool \<Rightarrow> nat \<Rightarrow> nat \<Rightarrow> omx_core_component_t \<Rightarrow> omx_core_state \<Rightarrow>
    (OMX_ERRORTYPE \<times> nat option option \<times> omx_core_state) option" where
  "make_instance e close_handle i j k s =
     (if \<not> callable (get_instance k) s then None
      else if \<not> oe_instance e then Some (get_handle_error close_handle i k OMX_ErrorInvalidComponent s)
      else if \<not> callable (create_comp_func k) s then None
      else case oe_create e of
          None \<Rightarrow> Some (get_handle_error close_handle i k OMX_ErrorInvalidComponent s)
        | Some p \<Rightarrow> Some (OMX_ErrorNone, Some (Some p), put_component i (k\<lparr>c_handle := (c_handle k)[j := Some p]\<rparr>) s))"

text \<open>The handle that is returned is \<open>None\<close> when it is not written.\<close>

definition OMX_GetHandle :: "omx_env \<Rightarrow> bool \<Rightarrow> string option \<Rightarrow> omx_core_state \<Rightarrow>
    (OMX_ERRORTYPE \<times> nat option option \<times> omx_core_state) option" where
  "OMX_GetHandle e handle_given componentName s =
     (if \<not> handle_given then Some (OMX_ErrorBadParameter, None, s)
      else if componentName = None then Some (OMX_ErrorInvalidComponent, None, s)
      else case g_omxcore s of None \<Rightarrow> None
      | Some c \<Rightarrow> (case get_comp_from_list componentName c of
          None \<Rightarrow> Some (OMX_ErrorInvalidComponent, None, s)
        | Some i \<Rightarrow>
            let k = omx_component c ! i
            in (case get_free_inst_idx k of
                None \<Rightarrow> Some (get_handle_error False i k OMX_ErrorInvalidComponent s)
              | Some j \<Rightarrow>
                  if c_open k then make_instance e False i j k s
                  else if \<not> oe_dlopen e
                  then Some (get_handle_error False i (k\<lparr>lib_handle := None\<rparr>) OMX_ErrorInvalidComponent s)
                  else
                    let l = next_lib s; s1 = s\<lparr>loaded_libs := l # loaded_libs s, next_lib := l + 1\<rparr>;
                        k1 = k\<lparr>lib_handle := Some l, c_open := True,
                           create_comp_func := (if oe_create_sym e then Some l else None),
                           get_instance := (if oe_get_sym e then Some l else None)\<rparr>
                    in if create_comp_func k1 = None \<or> get_instance k1 = None
                       then Some (get_handle_error True i k1 OMX_ErrorInvalidComponent s1)
                       else make_instance e True i j k1 s1)))"

text \<open>The component and the instance of a handle.\<close>

definition get_idx_from_handle :: "nat \<Rightarrow> omx_core_t \<Rightarrow> (nat \<times> nat) option" where
  "get_idx_from_handle h c =
     (case first_index (\<lambda>k. Some h \<in> set (take OMX_COMP_MAX_INSTANCES (c_handle k))) (take (comp_cnt c) (omx_component c)) of
        None \<Rightarrow> None
      | Some i \<Rightarrow> map_option (\<lambda>j. (i, j)) (first_index (\<lambda>x. x = Some h) (c_handle (omx_component c ! i))))"

definition is_comp_active :: "omx_core_component_t \<Rightarrow> bool" where
  "is_comp_active k = list_ex (\<lambda>h. h \<noteq> None) (take OMX_COMP_MAX_INSTANCES (c_handle k))"

definition OMX_FreeHandle :: "omx_env \<Rightarrow> nat option \<Rightarrow> omx_core_state \<Rightarrow> (OMX_ERRORTYPE \<times> omx_core_state) option" where
  "OMX_FreeHandle e hComp s = (case hComp of None \<Rightarrow> Some (OMX_ErrorBadParameter, s)
     | Some h \<Rightarrow> (case g_omxcore s of None \<Rightarrow> None
       | Some c \<Rightarrow> (case get_idx_from_handle h c of
           None \<Rightarrow> Some (OMX_ErrorInvalidComponent, s)
         | Some (i, j) \<Rightarrow>
             if oe_deinit e \<noteq> OMX_ErrorNone then Some (OMX_ErrorInvalidComponent, s)
             else
               let k = omx_component c ! i; k1 = k\<lparr>c_handle := (c_handle k)[j := None]\<rparr>
               in if \<not> is_comp_active k1
                  then Some (if oe_dlclose e = 0 then OMX_ErrorNone else OMX_Other (oe_dlclose e),
                    put_component i (k1\<lparr>lib_handle := None, get_instance := None, create_comp_func := None, c_open := False\<rparr>)
                      (s\<lparr>loaded_libs := filter (\<lambda>l. Some l \<noteq> lib_handle k) (loaded_libs s)\<rparr>))
                  else Some (OMX_ErrorNone, put_component i k1 s))))"

section \<open>Runs\<close>

datatype omx_act = Omx_Init omx_env | Omx_Deinit | Omx_Get omx_env bool "string option" | Omx_Free omx_env "nat option"

definition omx_step :: "omx_core_state \<Rightarrow> omx_act \<Rightarrow> omx_core_state option" where
  "omx_step s a = (case a of
       Omx_Init e \<Rightarrow> Some (snd (OMX_Init e s))
     | Omx_Deinit \<Rightarrow> Some (snd (OMX_Deinit s))
     | Omx_Get e b n \<Rightarrow> map_option (snd \<circ> snd) (OMX_GetHandle e b n s)
     | Omx_Free e h \<Rightarrow> map_option snd (OMX_FreeHandle e h s))"

fun omx_run :: "omx_act list \<Rightarrow> omx_core_state \<Rightarrow> omx_core_state option" where
  "omx_run [] s = Some s"
| "omx_run (a # as) s = (case omx_step s a of None \<Rightarrow> None | Some s' \<Rightarrow> omx_run as s')"

end
