(* ===== verification/QomxCoreProps.thy ===== *)
theory QomxCoreProps
  imports QomxCore
begin

text \<open>
  The OMX core: in every run in which a library that is loaded gives its first instance, the libraries that are loaded are those
  of the components with instances, and no call crashes. When the first instance fails, the next call crashes.
\<close>

section \<open>The invariant\<close>

definition comp_ok :: "nat list \<Rightarrow> omx_core_component_t \<Rightarrow> bool" where
  "comp_ok libs k = (length (c_handle k) = OMX_COMP_MAX_INSTANCES \<and>
     (if c_open k then is_comp_active k \<and> (\<exists>l. lib_handle k = Some l \<and> get_instance k = Some l \<and> create_comp_func k = Some l \<and> l \<in> set libs)
      else \<not> is_comp_active k \<and> lib_handle k = None))"

text \<open>Of the libraries \<open>libs\<close>, numbered below \<open>n\<close>, each is that of one component, and no two components share one.\<close>

definition unshared :: "nat option list \<Rightarrow> bool" where
  "unshared hs = (\<forall>l i j. i < length hs \<longrightarrow> j < length hs \<longrightarrow> hs ! i = Some l \<longrightarrow> hs ! j = Some l \<longrightarrow> i = j)"

definition libs_inv :: "nat list \<Rightarrow> nat \<Rightarrow> omx_core_component_t list \<Rightarrow> bool" where
  "libs_inv libs n cs = ((\<forall>l \<in> set libs. l < n) \<and> (\<forall>i < length cs. comp_ok libs (cs ! i)) \<and>
     unshared (map lib_handle cs) \<and> Some ` set libs = set (map lib_handle cs) - {None})"

definition omx_inv :: "omx_core_state \<Rightarrow> bool" where
  "omx_inv s = ((g_omxcore s = None) = (g_omxcore_cnt s = 0) \<and> 0 \<le> g_omxcore_cnt s \<and>
     (case g_omxcore s of None \<Rightarrow> loaded_libs s = [] | Some c \<Rightarrow> libs_inv (loaded_libs s) (next_lib s) (omx_component c)))"

definition good_get :: "omx_env \<Rightarrow> bool" where
  "good_get e = (oe_create_sym e \<and> oe_get_sym e \<and> oe_instance e \<and> \<not> Option.is_none (oe_create e))"

text \<open>
  The core is there when it is used, a component that is not open yet gets its first instance, and the last client leaves no
  instance behind.
\<close>

definition omx_good :: "omx_core_state \<Rightarrow> omx_act \<Rightarrow> bool" where
  "omx_good s a = (case a of
       Omx_Init e \<Rightarrow> True
     | Omx_Deinit \<Rightarrow> (case g_omxcore s of None \<Rightarrow> True
         | Some c \<Rightarrow> g_omxcore_cnt s = 1 \<longrightarrow> list_all (\<lambda>k. \<not> is_comp_active k) (omx_component c))
     | Omx_Get e b n \<Rightarrow> (case g_omxcore s of None \<Rightarrow> False
         | Some c \<Rightarrow> (case get_comp_from_list n c of None \<Rightarrow> True | Some i \<Rightarrow> c_open (omx_component c ! i) \<or> good_get e))
     | Omx_Free e h \<Rightarrow> \<not> Option.is_none (g_omxcore s))"

fun omx_good_run :: "omx_act list \<Rightarrow> omx_core_state \<Rightarrow> bool" where
  "omx_good_run [] s = True"
| "omx_good_run (a # as) s = (omx_good s a \<and> (case omx_step s a of None \<Rightarrow> True | Some s' \<Rightarrow> omx_good_run as s'))"

lemma first_index_Some: "first_index p xs = Some i \<Longrightarrow> i < length xs \<and> p (xs ! i)"
  by (induction xs arbitrary: i) (auto split: if_splits)

lemma comp_index: "get_comp_from_list n c = Some i \<Longrightarrow> i < length (omx_component c)"
  by (auto simp: get_comp_from_list_def split: option.splits dest: first_index_Some)

lemma free_index: "get_free_inst_idx k = Some j \<Longrightarrow> j < length (c_handle k)"
  by (auto simp: get_free_inst_idx_def dest: first_index_Some)

lemma active_set: "length (c_handle k) = OMX_COMP_MAX_INSTANCES \<Longrightarrow> is_comp_active k = (\<exists>h. Some h \<in> set (c_handle k))"
  by (auto simp: is_comp_active_def list_ex_iff)

lemma active_put: "length (c_handle k) = OMX_COMP_MAX_INSTANCES \<Longrightarrow> j < length (c_handle k) \<Longrightarrow>
    is_comp_active (k\<lparr>c_handle := (c_handle k)[j := Some p]\<rparr>)"
  using set_update_memI [of j "c_handle k" "Some p"] by (subst active_set) auto

lemma comp_ok_lib: "comp_ok libs k \<Longrightarrow> lib_handle k = Some l \<Longrightarrow> l \<in> set libs"
  by (auto simp: comp_ok_def split: if_splits)

lemma comp_ok_closed: "comp_ok libs k \<Longrightarrow> lib_handle k = None \<Longrightarrow> comp_ok libs' k"
  by (auto simp: comp_ok_def split: if_splits)

lemma comp_ok_open: "comp_ok libs k \<Longrightarrow> lib_handle k = Some l \<Longrightarrow> l \<in> set libs' \<Longrightarrow> comp_ok libs' k"
  by (auto simp: comp_ok_def split: if_splits)

lemma put_simps [simp]: "g_omxcore (put_component i k s) = map_option (\<lambda>c. c\<lparr>omx_component := (omx_component c)[i := k]\<rparr>) (g_omxcore s)"
  "g_omxcore_cnt (put_component i k s) = g_omxcore_cnt s" "loaded_libs (put_component i k s) = loaded_libs s"
  "next_lib (put_component i k s) = next_lib s"
  by (simp_all add: put_component_def)

lemma libs_inv_comp: "libs_inv libs n cs \<Longrightarrow> i < length cs \<Longrightarrow> comp_ok libs (cs ! i)"
  by (simp add: libs_inv_def)

lemma member_put: "i < length xs \<Longrightarrow> x \<in> set (xs[i := y]) \<longleftrightarrow> x = y \<or> (\<exists>j < length xs. j \<noteq> i \<and> xs ! j = x)"
  by (auto simp: in_set_conv_nth nth_list_update)

lemma unshared_put:
  assumes "unshared hs" and "x = None \<or> x \<notin> set hs"
  shows "unshared (hs[i := x])"
  unfolding unshared_def
proof (intro allI impI)
  fix l a b
  assume *: "a < length (hs[i := x])" "b < length (hs[i := x])" "hs[i := x] ! a = Some l" "hs[i := x] ! b = Some l"
  have other: "x \<noteq> Some l" if "j < length hs" "hs ! j = Some l" for j
    using assms(2) nth_mem [OF that(1)] that(2) by auto
  show "a = b"
    using * assms(1) other [of a] other [of b] unfolding unshared_def by (cases "a = i"; cases "b = i") auto
qed

text \<open>The libraries of the components, and of all but one.\<close>

definition libs_but :: "nat \<Rightarrow> omx_core_component_t list \<Rightarrow> nat option set" where
  "libs_but i cs = {x. \<exists>j < length cs. j \<noteq> i \<and> lib_handle (cs ! j) = x}"

lemma libs_of: "i < length cs \<Longrightarrow> set (map lib_handle cs) = insert (lib_handle (cs ! i)) (libs_but i cs)"
  by (rule set_eqI, unfold in_set_conv_nth) (auto simp: libs_but_def)

lemma libs_put: "i < length cs \<Longrightarrow> set ((map lib_handle cs)[i := x]) = insert x (libs_but i cs)"
  by (rule set_eqI) (simp add: member_put libs_but_def, auto)

text \<open>A component changes and keeps its library, gets a new one, or loses it.\<close>

lemma libs_put_same:
  assumes "libs_inv libs n cs" and "i < length cs" and "comp_ok libs k" and "lib_handle k = lib_handle (cs ! i)"
  shows "libs_inv libs n (cs[i := k])"
proof -
  have "map lib_handle (cs[i := k]) = map lib_handle cs"
    using assms by (simp add: map_update list_update_same_conv)
  then show ?thesis
    using assms unfolding libs_inv_def by (simp only: length_list_update) (auto simp: nth_list_update)
qed

lemma libs_put_new:
  assumes inv: "libs_inv libs n cs" and i: "i < length cs" "lib_handle (cs ! i) = None"
    and k: "comp_ok (n # libs) k" "lib_handle k = Some n"
  shows "libs_inv (n # libs) (n + 1) (cs[i := k])"
proof -
  let ?hs = "map lib_handle cs"
  have ok: "comp_ok (n # libs) (cs ! j)" if "j < length cs" for j
    using comp_ok_closed [OF libs_inv_comp [OF inv that]] comp_ok_open [OF libs_inv_comp [OF inv that]]
      comp_ok_lib [OF libs_inv_comp [OF inv that]] by (cases "lib_handle (cs ! j)") auto
  have fresh: "Some n \<notin> set ?hs"
    using inv unfolding libs_inv_def by blast
  have "set (?hs[i := Some n]) - {None} = insert (Some n) (set ?hs - {None})"
    using i by (auto simp: libs_put libs_of [OF i(1)] simp del: set_map)
  then have "Some ` set (n # libs) = set (map lib_handle (cs[i := k])) - {None}"
    using inv k by (simp add: map_update libs_inv_def)
  moreover have "unshared (map lib_handle (cs[i := k]))"
    using unshared_put [of ?hs "Some n" i] fresh inv k by (simp add: map_update libs_inv_def)
  moreover have "\<forall>l \<in> set (n # libs). l < n + 1"
    using inv by (auto simp: libs_inv_def)
  moreover have "\<forall>j < length (cs[i := k]). comp_ok (n # libs) (cs[i := k] ! j)"
    using ok k i(1) by (auto simp: nth_list_update)
  ultimately show ?thesis
    unfolding libs_inv_def by blast
qed

lemma libs_put_none:
  assumes inv: "libs_inv libs n cs" and i: "i < length cs" "lib_handle (cs ! i) = Some l"
    and k: "comp_ok libs k" "lib_handle k = None"
  shows "libs_inv (filter (\<lambda>x. x \<noteq> l) libs) n (cs[i := k])"
proof -
  let ?hs = "map lib_handle cs" and ?libs = "filter (\<lambda>x. x \<noteq> l) libs"
  have other: "lib_handle (cs ! j) \<noteq> Some l" if "j < length cs" "j \<noteq> i" for j
  proof
    assume "lib_handle (cs ! j) = Some l"
    moreover have "unshared ?hs"
      using inv by (simp add: libs_inv_def)
    ultimately show False
      using that i unfolding unshared_def by (metis length_map nth_map)
  qed
  have ok: "comp_ok ?libs (cs ! j)" if "j < length cs" "j \<noteq> i" for j
    using comp_ok_closed [OF libs_inv_comp [OF inv that(1)]] comp_ok_open [OF libs_inv_comp [OF inv that(1)]]
      comp_ok_lib [OF libs_inv_comp [OF inv that(1)]] other [OF that] by (cases "lib_handle (cs ! j)") auto
  have "set (?hs[i := None]) - {None} = set ?hs - {None} - {Some l}"
    using i other by (auto simp: libs_put libs_of [OF i(1)] libs_but_def simp del: set_map)
  moreover have "Some ` set ?libs = Some ` set libs - {Some l}"
    by auto
  ultimately have "Some ` set ?libs = set (map lib_handle (cs[i := k])) - {None}"
    using inv k by (simp add: map_update libs_inv_def)
  moreover have "unshared (map lib_handle (cs[i := k]))"
    using unshared_put [of ?hs None i] inv k by (simp add: map_update libs_inv_def)
  moreover have "\<forall>x \<in> set ?libs. x < n"
    using inv by (auto simp: libs_inv_def)
  moreover have "\<forall>j < length (cs[i := k]). comp_ok ?libs (cs[i := k] ! j)"
    using ok comp_ok_closed [OF k] i(1) by (auto simp: nth_list_update)
  ultimately show ?thesis
    unfolding libs_inv_def by blast
qed

section \<open>The calls\<close>

lemma inv_core: "omx_inv s \<Longrightarrow> g_omxcore s = Some c \<Longrightarrow> libs_inv (loaded_libs s) (next_lib s) (omx_component c)"
  by (simp add: omx_inv_def)

lemma omx_inv_put: "omx_inv s \<Longrightarrow> g_omxcore s = Some c \<Longrightarrow> g_omxcore s' = g_omxcore s \<Longrightarrow> g_omxcore_cnt s' = g_omxcore_cnt s \<Longrightarrow>
    libs_inv (loaded_libs s') (next_lib s') ((omx_component c)[i := k]) \<Longrightarrow> omx_inv (put_component i k s')"
  by (simp add: omx_inv_def)

lemma zero_ok [simp]: "comp_ok libs zero_component" "comp_ok libs (named_component nl)"
    "lib_handle zero_component = None" "lib_handle (named_component nl) = None"
  by (simp_all add: comp_ok_def zero_component_def named_component_def is_comp_active_def OMX_COMP_MAX_INSTANCES_def numeral_3_eq_3)

lemma libs_none: "list_all (\<lambda>k. comp_ok [] k \<and> lib_handle k = None) cs \<Longrightarrow> libs_inv [] n cs"
  by (auto simp: libs_inv_def unshared_def list_all_length in_set_conv_nth)

lemma init_inv: "omx_inv s \<Longrightarrow> omx_inv (snd (OMX_Init e s))"
  by (auto simp: OMX_Init_def omx_inv_def Let_def g_comp_info_def OMX_COMP_MAX_NUM_def intro!: libs_none split: option.splits)

lemma deinit_inv:
  assumes inv: "omx_inv s" and good: "omx_good s Omx_Deinit"
  shows "omx_inv (snd (OMX_Deinit s))"
proof (cases "g_omxcore_cnt s = 1")
  case True
  then obtain c where c: "g_omxcore s = Some c"
    using inv by (auto simp: omx_inv_def)
  have "lib_handle (omx_component c ! i) = None" if "i < length (omx_component c)" for i
    using libs_inv_comp [OF inv_core [OF inv c] that] good True c that by (auto simp: comp_ok_def omx_good_def list_all_length split: if_splits)
  then have none: "set (map lib_handle (omx_component c)) \<subseteq> {None}"
    unfolding set_conv_nth by auto
  have "Some ` set (loaded_libs s) = set (map lib_handle (omx_component c)) - {None}"
    using inv_core [OF inv c] unfolding libs_inv_def by (elim conjE)
  then have "Some ` set (loaded_libs s) = {}"
    using none by (simp only: Diff_eq_empty_iff)
  then have "loaded_libs s = []"
    by simp
  then show ?thesis
    using True by (simp add: OMX_Deinit_def omx_inv_def)
next
  case False
  then show ?thesis
    using inv by (auto simp: OMX_Deinit_def omx_inv_def split: option.splits)
qed

text \<open>An instance is made, with the code in place.\<close>

lemma make_open:
  assumes inv: "omx_inv s" and c: "g_omxcore s = Some c" and i: "i < length (omx_component c)" and o: "c_open (omx_component c ! i)"
    and j: "j < OMX_COMP_MAX_INSTANCES"
  shows "\<exists>r. make_instance e False i j (omx_component c ! i) s = Some r \<and> omx_inv (snd (snd r))"
proof -
  let ?k = "omx_component c ! i"
  have ok: "comp_ok (loaded_libs s) ?k"
    by (rule libs_inv_comp [OF inv_core [OF inv c] i])
  then have call: "callable (get_instance ?k) s" "callable (create_comp_func ?k) s"
    using o by (auto simp: comp_ok_def callable_def)
  have same: "put_component i ?k s = s"
    using c by (simp add: put_component_def)
  have "comp_ok (loaded_libs s) (?k\<lparr>c_handle := (c_handle ?k)[j := Some p]\<rparr>)" for p
    using ok o j active_put [of ?k j p] by (simp add: comp_ok_def)
  then have "omx_inv (put_component i (?k\<lparr>c_handle := (c_handle ?k)[j := Some p]\<rparr>) s)" for p
    by (intro omx_inv_put [OF inv c]) (simp_all add: libs_put_same [OF inv_core [OF inv c] i])
  then show ?thesis
    using call inv same by (auto simp: make_instance_def get_handle_error_def split: option.splits)
qed

lemma make_first:
  assumes inv: "omx_inv s" and c: "g_omxcore s = Some c" and i: "i < length (omx_component c)"
    and o: "\<not> c_open (omx_component c ! i)" and j: "j < OMX_COMP_MAX_INSTANCES" and g: "good_get e"
    and s1: "s1 = s\<lparr>loaded_libs := next_lib s # loaded_libs s, next_lib := next_lib s + 1\<rparr>"
    and k1: "k1 = (omx_component c ! i)\<lparr>lib_handle := Some (next_lib s), c_open := True, create_comp_func := Some (next_lib s),
      get_instance := Some (next_lib s)\<rparr>"
  shows "\<exists>r. make_instance e True i j k1 s1 = Some r \<and> omx_inv (snd (snd r))"
proof -
  have ok: "comp_ok (loaded_libs s) (omx_component c ! i)"
    by (rule libs_inv_comp [OF inv_core [OF inv c] i])
  obtain p where p: "oe_create e = Some p" "oe_instance e"
    using g by (cases "oe_create e") (auto simp: good_get_def)
  have "comp_ok (next_lib s # loaded_libs s) (k1\<lparr>c_handle := (c_handle k1)[j := Some p]\<rparr>)"
    using ok o j active_put [of k1 j p] by (simp add: comp_ok_def k1)
  moreover have "lib_handle (omx_component c ! i) = None"
    using ok o by (simp add: comp_ok_def)
  ultimately have "omx_inv (put_component i (k1\<lparr>c_handle := (c_handle k1)[j := Some p]\<rparr>) s1)"
    using libs_put_new [OF inv_core [OF inv c] i] k1 by (intro omx_inv_put [OF inv c]) (simp_all add: s1)
  then show ?thesis
    using p by (simp add: make_instance_def callable_def k1 s1)
qed

lemma get_inv:
  assumes inv: "omx_inv s" and good: "omx_good s (Omx_Get e b n)"
  shows "\<exists>r. OMX_GetHandle e b n s = Some r \<and> omx_inv (snd (snd r))"
proof -
  obtain c where c: "g_omxcore s = Some c"
    using good by (auto simp: omx_good_def split: option.splits)
  show ?thesis
  proof (cases "b \<and> n \<noteq> None \<and> get_comp_from_list n c \<noteq> None")
    case False
    then show ?thesis
      using inv c by (auto simp: OMX_GetHandle_def)
  next
    case True
    then obtain i nm where i: "get_comp_from_list n c = Some i" "i < length (omx_component c)" and nm: "n = Some nm" "b"
      using comp_index by blast
    let ?k = "omx_component c ! i"
    have ok: "comp_ok (loaded_libs s) ?k"
      by (rule libs_inv_comp [OF inv_core [OF inv c] i(2)])
    have same: "put_component i ?k s = s" "\<not> c_open ?k \<Longrightarrow> ?k\<lparr>lib_handle := None\<rparr> = ?k"
      using c ok by (simp_all add: put_component_def comp_ok_def)
    show ?thesis
    proof (cases "get_free_inst_idx ?k")
      case None
      then show ?thesis
        using True c i inv by (auto simp: OMX_GetHandle_def get_handle_error_def same(1))
    next
      case (Some j)
      then have j: "j < OMX_COMP_MAX_INSTANCES"
        using free_index [OF Some] ok by (simp add: comp_ok_def)
      consider "c_open ?k" | "\<not> c_open ?k" "\<not> oe_dlopen e" | "\<not> c_open ?k" "oe_dlopen e" "good_get e"
        using good c i by (auto simp: omx_good_def)
      then show ?thesis
      proof cases
        case 1
        then show ?thesis
          using nm c i Some make_open [OF inv c i(2) 1 j, of e] by (simp add: OMX_GetHandle_def)
      next
        case 2
        then show ?thesis
          using nm c i Some inv same(2) [OF 2(1)] by (simp add: OMX_GetHandle_def get_handle_error_def same(1))
      next
        case 3
        then show ?thesis
          using nm c i Some make_first [OF inv c i(2) 3(1) j 3(3) refl refl]
          by (simp add: OMX_GetHandle_def Let_def good_get_def)
      qed
    qed
  qed
qed

lemma omx_handle_index: "get_idx_from_handle h c = Some (i, j) \<Longrightarrow> i < length (omx_component c)"
  by (auto simp: get_idx_from_handle_def split: option.splits dest: first_index_Some)

lemma free_inv:
  assumes inv: "omx_inv s" and good: "omx_good s (Omx_Free e h)"
  shows "\<exists>r. OMX_FreeHandle e h s = Some r \<and> omx_inv (snd r)"
proof -
  obtain c where c: "g_omxcore s = Some c"
    using good by (cases "g_omxcore s") (auto simp: omx_good_def)
  show ?thesis
  proof (cases "h = None \<or> get_idx_from_handle (the h) c = None \<or> oe_deinit e \<noteq> OMX_ErrorNone")
    case True
    then show ?thesis
      using inv c by (auto simp: OMX_FreeHandle_def split: option.splits)
  next
    case False
    then obtain p i j where h: "h = Some p" "get_idx_from_handle p c = Some (i, j)" and d: "oe_deinit e = OMX_ErrorNone"
      by auto
    note i = omx_handle_index [OF h(2)]
    let ?k = "omx_component c ! i" and ?k1 = "(omx_component c ! i)\<lparr>c_handle := (c_handle (omx_component c ! i))[j := None]\<rparr>"
    note li = inv_core [OF inv c]
    have ok: "comp_ok (loaded_libs s) ?k"
      by (rule libs_inv_comp [OF li i])
    show ?thesis
    proof (cases "is_comp_active ?k1")
      case True
      then have "is_comp_active ?k"
        using ok set_update_subset_insert [of "c_handle ?k" j None] by (auto simp: active_set comp_ok_def split: if_splits)
      then have "comp_ok (loaded_libs s) ?k1"
        using ok True by (simp add: comp_ok_def split: if_splits)
      then have "omx_inv (put_component i ?k1 s)"
        by (intro omx_inv_put [OF inv c]) (simp_all add: libs_put_same [OF li i])
      then show ?thesis
        using True h d c by (simp add: OMX_FreeHandle_def Let_def)
    next
      case False
      let ?k2 = "?k1\<lparr>lib_handle := None, get_instance := None, create_comp_func := None, c_open := False\<rparr>"
      have k2: "comp_ok libs ?k2" for libs
        using False ok by (simp add: comp_ok_def is_comp_active_def split: if_splits)
      have "libs_inv (filter (\<lambda>l. Some l \<noteq> lib_handle ?k) (loaded_libs s)) (next_lib s) ((omx_component c)[i := ?k2])"
      proof (cases "lib_handle ?k")
        case None
        then show ?thesis
          using libs_put_same [OF li i k2] by simp
      next
        case (Some l)
        then show ?thesis
          using libs_put_none [OF li i Some k2] by simp
      qed
      then have "omx_inv (put_component i ?k2 (s\<lparr>loaded_libs := filter (\<lambda>l. Some l \<noteq> lib_handle ?k) (loaded_libs s)\<rparr>))"
        by (intro omx_inv_put [OF inv c]) simp_all
      then show ?thesis
        using False h d c by (simp add: OMX_FreeHandle_def Let_def)
    qed
  qed
qed

lemma good_step:
  assumes "omx_inv s" and "omx_good s a"
  shows "\<exists>s'. omx_step s a = Some s' \<and> omx_inv s'"
proof (cases a)
  case (Omx_Init e)
  then show ?thesis
    using init_inv [OF assms(1)] by (simp add: omx_step_def)
next
  case Omx_Deinit
  then show ?thesis
    using deinit_inv assms by (simp add: omx_step_def)
next
  case (Omx_Get e b n)
  then show ?thesis
    using get_inv [OF assms(1)] assms(2) by (fastforce simp: omx_step_def)
next
  case (Omx_Free e h)
  then show ?thesis
    using free_inv [OF assms(1)] assms(2) by (fastforce simp: omx_step_def)
qed

lemma good_run_inv: "omx_inv s \<Longrightarrow> omx_good_run as s \<Longrightarrow> \<exists>s'. omx_run as s = Some s' \<and> omx_inv s'"
proof (induction as arbitrary: s)
  case (Cons a as)
  then show ?case
    using good_step [OF Cons.prems(1), of a] by auto
qed simp

section \<open>What the core does\<close>

text \<open>The libraries of the components with an instance.\<close>

definition libs_in_use :: "omx_core_state \<Rightarrow> nat option set" where
  "libs_in_use s = (case g_omxcore s of None \<Rightarrow> {} | Some c \<Rightarrow> lib_handle ` {k \<in> set (omx_component c). is_comp_active k})"

lemma inv_libs: "omx_inv s \<Longrightarrow> Some ` set (loaded_libs s) = libs_in_use s"
proof (cases "g_omxcore s")
  case (Some c)
  assume inv: "omx_inv s"
  have "is_comp_active (omx_component c ! i) = (lib_handle (omx_component c ! i) \<noteq> None)" if "i < length (omx_component c)" for i
    using libs_inv_comp [OF inv_core [OF inv Some] that] by (auto simp: comp_ok_def split: if_splits)
  then have k: "is_comp_active k = (lib_handle k \<noteq> None)" if k: "k \<in> set (omx_component c)" for k
    using k unfolding in_set_conv_nth by blast
  have "Some ` set (loaded_libs s) = set (map lib_handle (omx_component c)) - {None}"
    using inv_core [OF inv Some] unfolding libs_inv_def by (elim conjE)
  then show "Some ` set (loaded_libs s) = libs_in_use s"
    using Some k by (auto simp: libs_in_use_def)
qed (simp add: omx_inv_def libs_in_use_def)

text \<open>C30. omx_libraries_match_instances. In every run of the OMX core in which it is initialised when it is used, a library that
  is loaded gives its first instance, and the last client has freed its instances, no call crashes, and the libraries that are
  loaded are those of the components with an instance: each is loaded for the first instance and closed after the last.\<close>

theorem omx_libraries_match_instances:
  assumes "omx_good_run as omx_start"
  shows "\<exists>s. omx_run as omx_start = Some s \<and> Some ` set (loaded_libs s) = libs_in_use s"
proof -
  have "omx_inv omx_start"
    by (simp add: omx_inv_def omx_start_def)
  from good_run_inv [OF this assms] show ?thesis
    using inv_libs by blast
qed

definition omx_demo_env :: omx_env where
  "omx_demo_env = \<lparr>oe_alloc = True, oe_dlopen = True, oe_create_sym = True, oe_get_sym = True, oe_instance = True, oe_create = Some 7,
     oe_deinit = OMX_ErrorNone, oe_dlclose = 0\<rparr>"

definition omx_demo :: "omx_act list" where
  "omx_demo = [Omx_Init omx_demo_env, Omx_Init omx_demo_env, Omx_Get omx_demo_env True (Some ''OMX.qcom.image.jpeg.encoder''),
     Omx_Get (omx_demo_env\<lparr>oe_create := Some 8\<rparr>) True (Some ''OMX.qcom.image.jpeg.decoder''),
     Omx_Get (omx_demo_env\<lparr>oe_instance := False\<rparr>) True (Some ''OMX.qcom.image.jpeg.encoder''),
     Omx_Free omx_demo_env (Some 7), Omx_Deinit]"

lemma omx_demo_good: "omx_good_run omx_demo omx_start"
  by code_simp

lemma omx_libraries_match_instances_witness:
  "\<exists>s. omx_run omx_demo omx_start = Some s \<and> Some ` set (loaded_libs s) = libs_in_use s"
  by (rule omx_libraries_match_instances [OF omx_demo_good])

section \<open>A first instance that fails\<close>

lemma first_index_map: "first_index (\<lambda>k. f k = x) xs = first_index (\<lambda>y. y = x) (map f xs)"
  by (induction xs) auto

lemma same_name_index: "i < length (omx_component c) \<Longrightarrow> comp_name k = comp_name (omx_component c ! i) \<Longrightarrow>
    get_comp_from_list n (c\<lparr>omx_component := (omx_component c)[i := k]\<rparr>) = get_comp_from_list n c"
proof -
  assume i: "i < length (omx_component c)" and k: "comp_name k = comp_name (omx_component c ! i)"
  have "map comp_name ((omx_component c)[i := k]) = map comp_name (omx_component c)"
    using i k by (simp add: map_update list_update_same_conv)
  then have "first_index (\<lambda>k. comp_name k = x) (take m ((omx_component c)[i := k])) =
      first_index (\<lambda>k. comp_name k = x) (take m (omx_component c))" for x m
    unfolding first_index_map [of comp_name x] take_map [symmetric] by simp
  then show ?thesis
    by (simp add: get_comp_from_list_def split: option.split)
qed

text \<open>A library is loaded but has not both functions, or gives no instance or component: it is closed, and the component stays marked as
  open. The next request for it crashes, whatever the system answers.\<close>

lemma failed_instance_crashes_next:
  assumes inv: "omx_inv s" and c: "g_omxcore s = Some c" and i: "get_comp_from_list (Some n) c = Some i"
    and o: "\<not> c_open (omx_component c ! i)" and j: "get_free_inst_idx (omx_component c ! i) = Some j"
    and e: "oe_dlopen e" "\<not> good_get e"
  shows "\<exists>s'. OMX_GetHandle e True (Some n) s = Some (OMX_ErrorInvalidComponent, Some None, s') \<and>
    OMX_GetHandle e' True (Some n) s' = None"
proof -
  let ?l = "next_lib s" and ?k = "omx_component c ! i"
  define s1 where "s1 = s\<lparr>loaded_libs := ?l # loaded_libs s, next_lib := ?l + 1\<rparr>"
  define k1 where "k1 = ?k\<lparr>lib_handle := Some ?l, c_open := True, create_comp_func := (if oe_create_sym e then Some ?l else None),
    get_instance := (if oe_get_sym e then Some ?l else None)\<rparr>"
  define k2 where "k2 = k1\<lparr>lib_handle := None\<rparr>"
  define s' where "s' = put_component i k2 (s1\<lparr>loaded_libs := filter (\<lambda>x. Some x \<noteq> lib_handle k1) (loaded_libs s1)\<rparr>)"
  have il: "i < length (omx_component c)"
    by (rule comp_index [OF i])
  have fail: "get_handle_error True i k1 OMX_ErrorInvalidComponent s1 = (OMX_ErrorInvalidComponent, Some None, s')"
    by (simp add: get_handle_error_def s'_def k2_def)
  have "make_instance e True i j k1 s1 = Some (get_handle_error True i k1 OMX_ErrorInvalidComponent s1)"
    if "oe_create_sym e" "oe_get_sym e"
    using that e by (auto simp: make_instance_def callable_def k1_def s1_def good_get_def split: option.splits)
  then have "OMX_GetHandle e True (Some n) s = Some (get_handle_error True i k1 OMX_ErrorInvalidComponent s1)"
    using c i o j e unfolding OMX_GetHandle_def Let_def k1_def [symmetric] s1_def [symmetric]
    by (simp add: k1_def [symmetric] s1_def [symmetric]) (auto simp: k1_def)
  then have "OMX_GetHandle e True (Some n) s = Some (OMX_ErrorInvalidComponent, Some None, s')"
    by (simp add: fail)
  moreover have "get_free_inst_idx k2 = Some j"
    using j by (simp add: k2_def k1_def get_free_inst_idx_def)
  then have "OMX_GetHandle e' True (Some n) s' = None"
    using c i il same_name_index [OF il, of k2 "Some n"]
    by (simp add: OMX_GetHandle_def Let_def s'_def s1_def k2_def k1_def) (simp add: make_instance_def callable_def)
  ultimately show ?thesis
    by blast
qed

text \<open>The last client leaves with instances: their libraries stay loaded, and nothing refers to them.\<close>

lemma deinit_forgets_instances:
  assumes "g_omxcore_cnt s = 1"
  shows "g_omxcore (snd (OMX_Deinit s)) = None \<and> loaded_libs (snd (OMX_Deinit s)) = loaded_libs s"
  using assms by (simp add: OMX_Deinit_def)

text \<open>A handle is asked for, or freed, when the core is not there.\<close>

lemma use_without_core_crashes:
  assumes "g_omxcore s = None"
  shows "OMX_GetHandle e True (Some n) s = None \<and> OMX_FreeHandle e (Some h) s = None"
  using assms by (simp add: OMX_GetHandle_def OMX_FreeHandle_def)

end
