(* ===== verification/Spec2Isabelle.thy ===== *)
theory Spec2Isabelle
  imports QueueSpec SMProps CameraApi HwiProps MmSuperbufProps MmPlanesProps MmStreamRefs
    MmChannelProps MmInterfaceProps LocTimerProps LocAgpsProps MmJpegFaults PostProcFaults
    MultiHalFaults QomxCoreProps
begin

text \<open>
  The camera stack of the Huawei Kiwi device tree (camera/QCamera2): the camera HAL in C++
  (camera/QCamera2/HAL, camera/QCamera2/util) and the mm-camera interface in C below it
  (camera/QCamera2/stack/mm-camera-interface), which drives the V4L2 devices; of the GPS library, a program of
  its own, the timers (gps/utils) and the data connections (gps/loc_api/libloc_api_50001); and the multiplexer of
  the sensor modules (sensors). Paths are relative to the repository.

  \<^bold>\<open>The program.\<close> A framework thread calls a camera device operation (QCamera2HWI.cpp). The operation queues
  a command for the thread of the state machine (QCameraStateMachine.cpp) and waits for the result labelled
  with its code. The thread takes API commands before events and runs the handler of the current state, which
  calls operations of the HAL object (QCamera2HWI.cpp); these add, start, stop and delete channels
  (QCameraChannel.cpp) and send parameter batches to the camera server (QCameraParameters.cpp). Each channel
  has streams in the mm-camera interface. A stream (mm_camera_stream.c) lays out its buffers, registers them
  with the kernel and counts their holders; the frames it dequeues go to its callbacks and, when it is bundled,
  to its channel (mm_camera_channel.c), which matches the frames of all bundled streams into super buffers. The
  HAL reaches all this through the vtable of mm_camera_interface.c, which finds the camera by its handle in the
  table of cameras; the camera (mm_camera.c) finds the channel, and the channel the stream. Events of the camera
  server come back through the camera's event thread, and so does the reply to a message sent to the server.
  The super buffers of a picture go to the post processor (QCameraPostProc.cpp), whose threads send them through the
  reprocess channel and to the JPEG interface (camera/QCamera2/stack/mm-jpeg-interface): a client opens sessions and
  starts jobs, the thread of the job manager hands them to OMX, and OMX's callbacks end them. The OMX core
  (camera/mm-image-codec/qomx_core) loads the library of the encoder and hands out its instances.
  In the GPS library a client starts and stops timers (LocTimer.cpp); messages take them to a thread that keeps
  them in a heap (LocHeap.cpp) and the kernel's timer at the soonest one. The modem and the daemons ask the location
  engine for data connections (loc_eng.cpp, loc_eng_dmn_conn_handler.cpp); the engine's thread takes the messages to
  the state machine of the interface (loc_eng_agps.cpp), which asks the framework or the data services.
  The sensor service sees one device (multihal.cpp) for the devices of several modules. A writer thread for each module
  fills a queue (SensorEventQueue.cpp) with its events, and the service's poll reads all queues in turn.

  \<^bold>\<open>The theories.\<close>
  \<^item> Prelude: the status codes, the weakest precondition of a state-monad program and the named collections
    \<open>sm_wp\<close> and \<open>sm_defs\<close> that compute it. CamTypes: machine words and stream types.
  \<^item> QCameraQueue, QueueSpec (util/QCameraQueue.cpp over stack/common/cam_list.h): the circular doubly linked
    list over three stores of pointers, with \<open>malloc\<close> as an argument. \<open>queue_rep\<close> says which list the pointers
    stand for; the locale \<open>deque_impl\<close> is the contract and \<open>cq\<close> its interpretation on the code's functions.
    Every run refines an abstract double-ended queue; every datum is accounted for.
  \<^item> SMTypes, SMIdleStates, SMCaptureStates (QCameraStateMachine.cpp): events with their payloads, the states,
    and the eight handlers. A handler of several hundred lines is a chain \<open>procEvt..State\<close>, \<open>.._b\<close>, \<open>.._c\<close> in the
    order of its cases. The HAL object is a record of operations over any state. SMAnswers and SMProps: each
    handler against the contracts (who is answered, which state follows, what is refused).
  \<^item> SMThread, CameraApi: the command queues, the semaphore, the thread loop, \<open>processAPI\<close>, \<open>waitAPIResult\<close> and
    the device operations, as steps between which other threads run; a call that blocks for ever is \<open>None\<close>.
  \<^item> HwiParams, HwiChannels, HwiOps: the HAL object the handlers drive, over a table of channels, the committed
    and staged modes and the log of calls to the server. HwiFrames: what each operation leaves alone.
  \<^item> HwiContract, HwiCore: the locale \<open>hwi_contract\<close>, what the state machine relies on when it says that the
    preview is stopped, and its interpretation \<open>hal\<close> on the channel model. HwiLeaks: the locale \<open>hwi_invariant\<close>
    with its interpretation \<open>leakfree\<close>, no channel the server holds is lost. HwiProps: the properties of
    state machine and HAL object together.
  \<^item> MmSuperbuf (mm_camera_channel.c): the super buffer queue, matching, metadata, flushes and the command
    thread. MmSuperbufInv, MmMatching: its invariant and each operation against it. MmSuperbufProps: the runs.
  \<^item> MmPlanes, MmPlanesProps (mm_camera_stream.c, \<open>mm_stream_calc_offset\<close> and below): the layout of every stream
    type and format in wrapping 32-bit arithmetic, and that the layouts hold their images.
  \<^item> MmStream (mm_camera_stream.c, mm_camera_thread.c): the stream object and its state machine.
    MmStreamProps: its resources follow its state. MmStreamRefs: its reference counts.
  \<^item> MmHandles (mm_camera_interface.c, \<open>mm_camera_util_generate_handler\<close>): handles, and that the object is found
    again by its handle and no two handles agree within a cycle of the count.
  \<^item> MmChannel (mm_camera_channel.c): the channel object, its state machine, its streams, and the start of all
    streams with its roll-back. The channels of one camera are a record \<open>chan_sys\<close>, with what other threads and
    devices do (poll threads, the server's answers) in its fields; pointers from streams to channels are indexes.
    MmChannelProps: the streams follow the state of their channel in every run, a start is all or nothing, and
    what a start that is tried again does.
  \<^item> MmCamera (mm_camera.c): channels added, deleted and looked up, each operation on them, the camera object with
    its events, its messages and its parameters. MmInterface (mm_camera_interface.c): the table of cameras, opening
    and closing by count, and every operation of the vtable. MmInterfaceProps: a camera is there exactly
    while it is held, the order of the sensors, and what a late reply does.
  \<^item> LocHeap (gps/utils/LocHeap.cpp): the tree with its sizes; the locale \<open>rankable\<close> is what it needs from the
    client's ranking, and \<open>rank_queue\<close> the contract it gives, a queue by rank. LocTimer (LocTimer.cpp): the
    container of timers, with the client, the message task and the polling thread as steps. LocTimerProps: the
    ranking of timers interprets the heap's locale; the kernel is set to the soonest timer in every run.
  \<^item> LocAgps, LocAgpsStates (loc_eng_agps.cpp over gps/utils/linked_list.c): subscribers of four classes, what each is
    told, the list and its searches, the four states and the machines of the framework and of emergency calls.
    LocAgpsMsgs (loc_eng.cpp, LocEngAdapter.cpp, loc_eng_dmn_conn_handler.cpp): the four machines of the engine, the
    messages that reach them and who posts them. LocAgpsInv: the state of a machine fits its subscribers and the
    last request. LocAgpsProps: the properties, and what deleted subscribers, restarts and retries do.

  \<^item> MmJpeg (mm_jpeg.c, mm_jpeg_queue.c): the sessions with their encoder, the jobs and their queues, the callbacks of
    OMX, the job manager and the start of a job with its work buffers. MmJpegSessions (mm_jpeg.c,
    mm_jpeg_interface.c): aborts, sessions created and destroyed, clients, the library object. MmJpegProps: every
    job is in one place and two at most are with the encoder. MmJpegFaults: aborts, errors, failed allocations, job ids.
  \<^item> PostProc (QCameraPostProc.cpp): the queues of frames and jobs, the two threads, encoding sessions and jobs, raw
    images and reprocessing, start and stop, and who releases what. PostProcProps: every frame is in one place, and a
    stop frees everything. PostProcFaults: jobs fit their sessions; failed notifications, jobs that were never started.
  \<^item> QomxCore (qomx_core.c): the table of components with their libraries and instances; a call through a pointer into a
    library that is not loaded is \<open>None\<close>. QomxCoreProps: libraries are loaded while there are instances, and what a first
    instance that fails leaves behind.
  \<^item> SensorQueue (sensors/SensorEventQueue.cpp): the ring of events; the locale \<open>fifo_buffer\<close> is what one writer with an open
    region and a reader rely on, \<open>ring\<close> its interpretation. MultiHal (sensors/multihal.cpp): handles, modules, the list of
    sensors, the calls of the device, and the loops of poll. MultiHalThreads: the writers and the polling thread as
    steps, and one pass of poll. MultiHalProps: no event is lost or out of order and nobody sleeps for nothing, in every
    run, and calls and events have the right handles. MultiHalFaults: modules that cannot be opened, old devices, a poll
    without room.

  \<^bold>\<open>Termination and bounds.\<close> Handlers and operations are total functions. The loops that may not end,
  \<open>flush_loop\<close> over the pointer list and \<open>drop_over\<close> of the super buffer queue, are \<open>partial_function (option)\<close>,
  so that not returning is \<open>None\<close>; a wait that no pending command can end is \<open>None\<close> too (\<open>wait_loop\<close> runs one
  round for each post of the semaphore, and blocks after the last). That they return is proved
  (\<open>queue_run_refines_deque\<close>, \<open>api_call_returns_handler_status\<close>, \<open>superbuf_thread_returns\<close>).
  Fuel is used twice in MmJpegSessions: a walk along the sessions of a burst has as many steps as there are sessions
  (\<open>ALL_SESSIONS\<close>), more than a chain without a cycle takes, and the join of the job manager has a round for each
  post and each queued job, which are all the rounds there are.
  In MmChannel, MmCamera and MmInterface \<open>None\<close> is also a crash: a null pointer that is followed, or a command for a
  thread whose queue is gone.
  Layouts are bounded for sides up to 8192 pixels; counters keep their width (8 bits for references and
  \<open>match_cnt\<close>), with the bound that keeps them from wrapping as a hypothesis.

  \<^bold>\<open>What the rest of the system answers.\<close> The camera server, the post processor and the deferred-work thread are
  a function \<open>cam_server\<close> of the calls made so far; the answers of the kernel, and of the memory operations of the
  client of a stream, are a record \<open>stream_env\<close> given to each step. Payloads the handlers only pass on are
  opaque pointers. The parameter setters that do not touch the modes are summarised by what they add to the
  batch and the status they give (\<open>parm_request\<close>). A property of all runs of the channels lets the other
  threads do anything to a stream that its own state machine allows, and asks that a stream is linked only from
  its own channel (\<open>link_ok\<close>), which the code does not check. What leaves a component is a log: \<open>srv_calls\<close> to the server,
  \<open>qbufs\<close>, \<open>superbufs\<close>, \<open>zsl_calls\<close> of a channel, \<open>ch_posts\<close>, \<open>linked_posts\<close>, \<open>app_calls\<close> of a stream.

  \<^bold>\<open>Not modelled.\<close> A mutex makes the code it protects one step; spurious wake-ups of condition variables are
  left out, except in MultiHalThreads. The poll thread is only whether a stream is listened to. The macros of the Venus encoder come from a
  kernel header and are a parameter (\<open>venus_macros\<close>). The domain socket and the ioctls are answers of the
  environment, and so are the data services, the framework and what is read from deleted subscribers
  (\<open>agps_env\<close>), and the devices found by the discovery of sensors (\<open>get_sensor_info\<close>,
  \<open>get_num_of_cameras\<close>). The sensor modules, the libraries they are in and the constants of the platform's header are
  arguments of MultiHal; the clean-up of a closed multiplexer, whose writers run on, is left out. ION and gralloc memory (QCameraMem.cpp), the contents of images and metadata beyond the
  fields read, timestamps, logging and debug properties are left out. Of the timers, the creation of the
  containers with their threads, epoll and timerfd, and the C wrapper are left out; of the JPEG interface, the OMX parameters
  of ports, crop, thumbnail and exif, and the decoder. OMX and ION are answers of the environment (\<open>jpeg_env\<close>), and
  the HAL object, the allocator and the notifier those of the post processor (\<open>pp_env\<close>). The callbacks of the
  HAL, exif and the dimensions of its jpeg jobs, the sessions and reports of the location engine and the small
  services (light, touch, fingerprint, init) are not part of this development.
\<close>

end
